(* ===== verification/Js_Prelude.thy ===== *)
theory Js_Prelude
  imports "HOL-Library.Multiset"
begin

text \<open>
  The parts of JavaScript and of its standard library that the modelled code relies on, with the
  facts about them that every component shares.

  \<^item> An optional property is an \<open>option\<close>; \<open>None\<close> is \<open>undefined\<close> (or \<open>null\<close>). \<open>str_truthy\<close>, \<open>str_or\<close>
    and their kin write out the truthiness of strings, which treats \<open>''\<close> as false.
  \<^item> A string is a HOL \<open>string\<close> of bytes; text outside ASCII is UTF-8. \<open>js_trim\<close> removes the ASCII
    white space and \<open>js_lower\<close> lowers ASCII letters.
  \<^item> An object used as a dictionary is an association list in the order in which JavaScript
    enumerates its keys; \<open>obj_set\<close> is property assignment. The locale \<open>key_order\<close> states what an
    enumeration order has to satisfy and proves the dictionary laws once; it is interpreted for
    string keys (array-index keys first, ascending, then insertion order) and for number keys.
  \<^item> \<open>js_sort\<close> is \<open>Array.prototype.sort\<close>: stable, by a comparator. The locale \<open>js_comparator\<close> is the
    contract a consistent comparator fulfils.
\<close>

named_theorems js_defs \<open>definitions of the truthiness and default operators\<close>

section \<open>Truthiness and defaults\<close>

definition str_truthy :: "string option \<Rightarrow> bool" where
  [js_defs]: "str_truthy v = (case v of None \<Rightarrow> False | Some s \<Rightarrow> s \<noteq> [])"

definition str_or :: "string option \<Rightarrow> string \<Rightarrow> string" where
  [js_defs]: "str_or v d = (case v of None \<Rightarrow> d | Some s \<Rightarrow> if s = [] then d else s)"

definition bool_or :: "bool option \<Rightarrow> bool" where
  [js_defs]: "bool_or v = (v = Some True)"

definition list_or :: "'a list option \<Rightarrow> 'a list" where
  [js_defs]: "list_or v = (case v of None \<Rightarrow> [] | Some xs \<Rightarrow> xs)"

definition nonempty_opt :: "'a list option \<Rightarrow> bool" where
  [js_defs]: "nonempty_opt v = (case v of None \<Rightarrow> False | Some xs \<Rightarrow> xs \<noteq> [])"

definition only_truthy :: "string option \<Rightarrow> string option" where
  [js_defs]: "only_truthy v = (if str_truthy v then v else None)"

lemma str_truthy_simps [simp]:
  "str_truthy None = False" "str_truthy (Some s) = (s \<noteq> [])"
  by (simp_all add: js_defs)

lemma str_or_simps [simp]:
  "str_or None d = d" "str_or (Some []) d = d" "s \<noteq> [] \<Longrightarrow> str_or (Some s) d = s"
  by (simp_all add: js_defs)

lemma str_or_truthy: "str_truthy v \<Longrightarrow> v = Some (str_or v d)"
  by (auto simp: js_defs split: option.splits)

lemma str_or_nil_eq [simp]: "str_or v [] = (case v of None \<Rightarrow> [] | Some s \<Rightarrow> s)"
  by (auto simp: js_defs split: option.splits)

lemma bool_or_simps [simp]:
  "bool_or None = False" "bool_or (Some b) = b"
  by (simp_all add: js_defs)

lemma list_or_simps [simp]:
  "list_or None = []" "list_or (Some xs) = xs"
  by (simp_all add: js_defs)

lemma nonempty_opt_simps [simp]:
  "nonempty_opt None = False" "nonempty_opt (Some xs) = (xs \<noteq> [])"
  by (simp_all add: js_defs)

lemma only_truthy_simps [simp]:
  "only_truthy None = None" "only_truthy (Some s) = (if s = [] then None else Some s)"
  by (simp_all add: js_defs)

section \<open>Strings and numbers\<close>

definition js_space :: "char \<Rightarrow> bool" where
  "js_space c = (c \<in> {CHR 0x09, CHR 0x0A, CHR 0x0B, CHR 0x0C, CHR 0x0D, CHR '' ''})"

definition js_trim :: "string \<Rightarrow> string" where
  "js_trim s = rev (dropWhile js_space (rev (dropWhile js_space s)))"

definition js_blank :: "string \<Rightarrow> bool" where
  "js_blank s = list_all js_space s"

definition lower_char :: "char \<Rightarrow> char" where
  "lower_char c =
     (case map_of (zip ''ABCDEFGHIJKLMNOPQRSTUVWXYZ'' ''abcdefghijklmnopqrstuvwxyz'') c of
        None \<Rightarrow> c | Some d \<Rightarrow> d)"

definition js_lower :: "string \<Rightarrow> string" where
  "js_lower s = map lower_char s"

definition upper_char :: "char \<Rightarrow> char" where
  "upper_char c =
     (case map_of (zip ''abcdefghijklmnopqrstuvwxyz'' ''ABCDEFGHIJKLMNOPQRSTUVWXYZ'') c of
        None \<Rightarrow> c | Some d \<Rightarrow> d)"

definition js_upper :: "string \<Rightarrow> string" where
  "js_upper s = map upper_char s"

text \<open>The em dash U+2014 that the tables show for a missing value, in UTF-8.\<close>

definition em_dash :: string where
  "em_dash = [CHR 0xE2, CHR 0x80, CHR 0x94]"

text \<open>The ellipsis U+2026, in UTF-8.\<close>

definition ellipsis :: string where
  "ellipsis = [CHR 0xE2, CHR 0x80, CHR 0xA6]"

definition starts_with :: "string \<Rightarrow> string \<Rightarrow> bool" where
  "starts_with s t = (take (length t) s = t)"

fun str_includes :: "string \<Rightarrow> string \<Rightarrow> bool" where
  "str_includes [] t = (t = [])"
| "str_includes (c # s) t = (starts_with (c # s) t \<or> str_includes s t)"

fun js_join :: "string \<Rightarrow> string list \<Rightarrow> string" where
  "js_join sep [] = []"
| "js_join sep [x] = x"
| "js_join sep (x # y # xs) = x @ sep @ js_join sep (y # xs)"

definition digit_char :: "char \<Rightarrow> bool" where
  "digit_char c = (c \<in> set ''0123456789'')"

definition digit_val :: "char \<Rightarrow> int" where
  "digit_val c =
     (case map_of (zip ''0123456789'' [0, 1, 2, 3, 4, 5, 6, 7, 8, 9]) c of None \<Rightarrow> 0 | Some n \<Rightarrow> n)"

definition digit_of :: "nat \<Rightarrow> char" where
  "digit_of n = ''0123456789'' ! n"

fun nat_str :: "nat \<Rightarrow> string" where
  "nat_str n = (if n < 10 then [digit_of n] else nat_str (n div 10) @ [digit_of (n mod 10)])"

declare nat_str.simps [simp del]

definition int_str :: "int \<Rightarrow> string" where
  "int_str i = (if i < 0 then ''-'' @ nat_str (nat (- i)) else nat_str (nat i))"

definition digits_val :: "string \<Rightarrow> int" where
  "digits_val s = foldl (\<lambda>n c. 10 * n + digit_val c) 0 s"

text \<open>\<open>parseInt(s, 10)\<close>: leading white space, a sign, the longest run of digits; no digit is NaN.\<close>

definition parse_int :: "string \<Rightarrow> int option" where
  "parse_int s =
     (let t = dropWhile js_space s;
          neg = (case t of [] \<Rightarrow> False | c # _ \<Rightarrow> c = CHR ''-'');
          u = (case t of [] \<Rightarrow> [] | c # r \<Rightarrow> if c = CHR ''-'' \<or> c = CHR ''+'' then r else t);
          ds = takeWhile digit_char u
      in if ds = [] then None else Some (if neg then - digits_val ds else digits_val ds))"

lemma dropWhile_nil_list_all: "dropWhile P xs = [] \<longleftrightarrow> list_all P xs"
  by (simp add: dropWhile_eq_Nil_conv list_all_iff)

lemma dropWhile_drop_nil: "list_all P (dropWhile P xs) \<longleftrightarrow> list_all P xs"
  by (induction xs) auto

lemma js_trim_nil_iff: "js_trim s = [] \<longleftrightarrow> js_blank s"
  by (simp add: js_trim_def js_blank_def dropWhile_nil_list_all list_all_rev dropWhile_drop_nil
      del: dropWhile_eq_Nil_conv)

lemma js_trim_Nil [simp]: "js_trim [] = []"
  by (simp add: js_trim_def)

lemma hd_dropWhile_not: "dropWhile P xs \<noteq> [] \<Longrightarrow> \<not> P (hd (dropWhile P xs))"
  by (rule hd_dropWhile)

lemma dropWhile_id: "xs = [] \<or> \<not> P (hd xs) \<Longrightarrow> dropWhile P xs = xs"
  by (cases xs) auto

lemma js_trim_idem [simp]: "js_trim (js_trim s) = js_trim s"
proof -
  let ?l = "dropWhile js_space s"
  let ?t = "dropWhile js_space (rev ?l)"
  have last_ok: "?t = [] \<or> \<not> js_space (hd ?t)"
    using hd_dropWhile_not by blast
  have first_ok: "rev ?t = [] \<or> \<not> js_space (hd (rev ?t))"
  proof (cases "?t = []")
    case False
    then have "?l \<noteq> []" by (metis dropWhile.simps(1) rev.simps(1))
    then have hl: "\<not> js_space (hd ?l)" by (rule hd_dropWhile_not)
    have "rev (takeWhile js_space (rev ?l) @ ?t) = ?l" by simp
    then have "rev ?t @ rev (takeWhile js_space (rev ?l)) = ?l" by (simp only: rev_append)
    with False have "hd ?l = hd (rev ?t)" by (metis hd_append2 rev_is_Nil_conv)
    with hl show ?thesis by simp
  qed simp
  have "dropWhile js_space (rev ?t) = rev ?t"
    using first_ok by (rule dropWhile_id)
  moreover have "dropWhile js_space ?t = ?t"
    using last_ok by (rule dropWhile_id)
  ultimately show ?thesis by (simp add: js_trim_def)
qed

lemma less_10_cases:
  "(n :: nat) < 10 \<Longrightarrow> n \<in> {0, 1, 2, 3, 4, 5, 6, 7, 8, 9}"
  by auto

lemma digit_val_of [simp]: "n < 10 \<Longrightarrow> digit_val (digit_of n) = int n"
  by (drule less_10_cases) (auto simp: digit_val_def digit_of_def)

lemma digit_of_digit [simp]: "n < 10 \<Longrightarrow> digit_char (digit_of n)"
  by (drule less_10_cases) (auto simp: digit_char_def digit_of_def)

lemma digit_of_val [simp]: "digit_char c \<Longrightarrow> digit_of (nat (digit_val c)) = c"
  by (auto simp: digit_char_def digit_val_def digit_of_def)

lemma digit_val_less [simp]: "digit_val c < 10" and digit_val_nonneg [simp]: "0 \<le> digit_val c"
  by (auto simp: digit_val_def split: option.splits dest!: map_of_SomeD)

lemma digits_val_snoc [simp]: "digits_val (s @ [c]) = 10 * digits_val s + digit_val c"
  by (simp add: digits_val_def)

lemma digits_val_nat_str [simp]: "digits_val (nat_str n) = int n"
proof (induction n rule: nat_str.induct)
  case (1 n)
  show ?case
  proof (cases "n < 10")
    case True
    then show ?thesis by (simp add: nat_str.simps [of n] digits_val_def)
  next
    case False
    with "1.IH" show ?thesis by (simp add: nat_str.simps [of n] zdiv_int zmod_int)
  qed
qed

lemma nat_str_inj: "nat_str m = nat_str n \<Longrightarrow> m = n"
  by (metis digits_val_nat_str of_nat_eq_iff)

lemma nat_str_digits: "list_all digit_char (nat_str n)"
proof (induction n rule: nat_str.induct)
  case (1 n)
  then show ?case by (simp add: nat_str.simps [of n])
qed

lemma nat_str_nonempty [simp]: "nat_str n \<noteq> []"
  by (simp add: nat_str.simps [of n])

section \<open>Objects used as dictionaries\<close>

text \<open>
  \<open>obj_set prec k v m\<close> is the assignment \<open>m[k] = v\<close>: an existing key keeps its place, a new key
  is put before the first key it enumerates before, or last.
\<close>

fun obj_set :: "('k \<Rightarrow> 'k \<Rightarrow> bool) \<Rightarrow> 'k \<Rightarrow> 'v \<Rightarrow> ('k \<times> 'v) list \<Rightarrow> ('k \<times> 'v) list" where
  "obj_set prec k v [] = [(k, v)]"
| "obj_set prec k v ((k', v') # m) =
     (if k = k' then (k, v) # m
      else if prec k k' then (k, v) # (k', v') # m
      else (k', v') # obj_set prec k v m)"

text \<open>\<open>{...m, ...n}\<close> and the loops that assign entry by entry.\<close>

definition obj_merge :: "('k \<Rightarrow> 'k \<Rightarrow> bool) \<Rightarrow> ('k \<times> 'v) list \<Rightarrow> ('k \<times> 'v) list \<Rightarrow> ('k \<times> 'v) list" where
  "obj_merge prec m n = fold (\<lambda>(k, v). obj_set prec k v) n m"

definition obj_keys :: "('k \<times> 'v) list \<Rightarrow> 'k list" where
  "obj_keys m = map fst m"

definition obj_vals :: "('k \<times> 'v) list \<Rightarrow> 'v list" where
  "obj_vals m = map snd m"

lemma map_of_obj_set [simp]: "map_of (obj_set prec k v m) = (map_of m)(k \<mapsto> v)"
  by (induction m) (auto simp: fun_eq_iff)

lemma keys_obj_set [simp]: "fst ` set (obj_set prec k v m) = insert k (fst ` set m)"
proof (induction m)
  case (Cons e m)
  then show ?case by (cases e) (simp add: insert_commute)
qed simp

lemma set_obj_set_subset: "set (obj_set prec k v m) \<subseteq> insert (k, v) (set m)"
  by (induction m) (auto split: if_splits)

lemma obj_set_nonempty [simp]: "obj_set prec k v m \<noteq> []"
  by (cases m) (auto split: if_splits)

lemma map_of_obj_merge: "map_of (obj_merge prec m n) = map_of m ++ map_of (rev n)"
  by (induction n arbitrary: m) (auto simp: obj_merge_def map_add_assoc [symmetric] fun_eq_iff map_add_def
      split: option.splits)

lemma keys_obj_merge: "fst ` set (obj_merge prec m n) = fst ` set m \<union> fst ` set n"
proof (induction n arbitrary: m)
  case (Cons e n)
  then show ?case by (cases e) (simp add: obj_merge_def)
qed (simp add: obj_merge_def)

lemma find_SomeD: "find P xs = Some x \<Longrightarrow> x \<in> set xs \<and> P x"
  by (induction xs) (auto split: if_splits)

lemma find_distinct: "distinct (map f xs) \<Longrightarrow> x \<in> set xs \<Longrightarrow> find (\<lambda>y. f y = f x) xs = Some x"
  by (induction xs) auto

text \<open>An enumeration order, and the objects that respect it.\<close>

definition obj_ok :: "('k \<Rightarrow> 'k \<Rightarrow> bool) \<Rightarrow> ('k \<times> 'v) list \<Rightarrow> bool" where
  "obj_ok prec m = (distinct (map fst m) \<and> sorted_wrt (\<lambda>a b. \<not> prec b a) (map fst m))"

locale key_order =
  fixes prec :: "'k \<Rightarrow> 'k \<Rightarrow> bool"
  assumes before_irrefl: "\<not> prec k k"
    and before_trans: "prec a b \<Longrightarrow> prec b c \<Longrightarrow> prec a c"
begin

lemma ok_Nil: "obj_ok prec []"
  by (simp add: obj_ok_def)

lemma ok_set: "obj_ok prec m \<Longrightarrow> obj_ok prec (obj_set prec k v m)"
proof (induction m)
  case (Cons e m)
  obtain k' v' where e: "e = (k', v')" by (cases e)
  have ok: "obj_ok prec m" and k': "k' \<notin> fst ` set m"
    and le: "\<And>b. b \<in> fst ` set m \<Longrightarrow> \<not> prec b k'"
    using Cons.prems by (auto simp: obj_ok_def e)
  show ?case
  proof (cases "k = k'")
    case True
    with Cons.prems show ?thesis by (simp add: obj_ok_def e)
  next
    case neq: False
    show ?thesis
    proof (cases "prec k k'")
      case True
      have "k \<notin> fst ` set m" using le True by blast
      moreover have "\<not> prec b k" if "b \<in> fst ` set m" for b
        using le [OF that] True before_trans by blast
      moreover have "\<not> prec k' k" using True before_trans before_irrefl by blast
      ultimately show ?thesis
        using Cons.prems neq True by (auto simp: obj_ok_def e)
    next
      case False
      then show ?thesis
        using Cons.IH [OF ok] neq k' le by (auto simp: obj_ok_def e simp del: set_map simp flip: set_map
            simp: keys_obj_set [folded set_map])
    qed
  qed
qed (simp add: obj_ok_def)

lemma ok_merge: "obj_ok prec m \<Longrightarrow> obj_ok prec (obj_merge prec m n)"
proof (induction n arbitrary: m)
  case (Cons e n)
  then show ?case by (cases e) (simp add: obj_merge_def ok_set)
qed (simp add: obj_merge_def)

text \<open>In a well-formed object the entries are exactly what the lookups say.\<close>

lemma entry_iff: "obj_ok prec m \<Longrightarrow> (k, v) \<in> set m \<longleftrightarrow> map_of m k = Some v"
  by (simp add: obj_ok_def)

lemma set_same: "map_of m k = Some v \<Longrightarrow> obj_ok prec m \<Longrightarrow> obj_set prec k v m = m"
proof (induction m)
  case (Cons e m)
  obtain k' v' where e: "e = (k', v')" by (cases e)
  show ?case
  proof (cases "k = k'")
    case True
    with Cons.prems show ?thesis by (simp add: e)
  next
    case False
    with Cons.prems have m: "map_of m k = Some v" by (simp add: e)
    then have "k \<in> fst ` set m" by (metis map_of_eq_None_iff option.distinct(1))
    with Cons.prems have "\<not> prec k k'" by (auto simp: obj_ok_def e)
    moreover have "obj_ok prec m" using Cons.prems by (simp add: obj_ok_def)
    ultimately show ?thesis using Cons.IH [OF m] False by (simp add: e)
  qed
qed simp

text \<open>Assigning the entries of a well-formed object in enumeration order rebuilds it.\<close>

lemma set_last: "k \<notin> fst ` set m \<Longrightarrow> \<forall>a \<in> fst ` set m. \<not> prec k a \<Longrightarrow> obj_set prec k v m = m @ [(k, v)]"
  by (induction m) auto

lemma merge_append: "obj_ok prec (m @ n) \<Longrightarrow> obj_merge prec m n = m @ n"
proof (induction n arbitrary: m)
  case Nil
  then show ?case by (simp add: obj_merge_def)
next
  case (Cons e n)
  obtain k v where e: "e = (k, v)" by (cases e)
  have ok: "distinct (map fst m @ [k])" "\<forall>a \<in> fst ` set m. \<not> prec k a"
    using Cons.prems by (auto simp: obj_ok_def e sorted_wrt_append)
  have "obj_set prec k v m = m @ [(k, v)]"
    using ok by (intro set_last) auto
  then show ?case using Cons.IH [of "m @ [(k, v)]"] Cons.prems by (simp add: obj_merge_def e)
qed

lemma merge_self: "obj_ok prec m \<Longrightarrow> obj_merge prec [] m = m"
  using merge_append [of "[]" m] by simp

end

text \<open>The same keys with \<open>f\<close> applied to every value.\<close>

definition obj_map :: "('v \<Rightarrow> 'w) \<Rightarrow> ('k \<times> 'v) list \<Rightarrow> ('k \<times> 'w) list" where
  "obj_map f m = map (\<lambda>e. (fst e, f (snd e))) m"

lemma obj_map_simps [simp]:
  "obj_map f [] = []" "obj_map f (e # m) = (fst e, f (snd e)) # obj_map f m"
  by (simp_all add: obj_map_def)

lemma obj_map_ident [simp]: "obj_map (\<lambda>v. v) m = m"
  by (simp add: obj_map_def)

lemma keys_obj_map [simp]: "map fst (obj_map f m) = map fst m" "length (obj_map f m) = length m"
  by (simp_all add: obj_map_def comp_def)

lemma map_of_obj_map [simp]: "map_of (obj_map f m) k = map_option f (map_of m k)"
  by (induction m) auto

lemma obj_ok_map [simp]: "obj_ok prec (obj_map f m) = obj_ok prec m"
  by (simp add: obj_ok_def)

lemma obj_set_map: "obj_set prec k (f v) (obj_map f m) = obj_map f (obj_set prec k v m)"
  by (induction m) auto

text \<open>
  String keys: a canonical array index (\<open>''0''\<close>, \<open>''17''\<close>; no sign, no leading zero, below
  \<open>2 ^ 32 - 1\<close>) enumerates first, in ascending order.
\<close>

definition index_key :: "string \<Rightarrow> int option" where
  "index_key s =
     (if s \<noteq> [] \<and> list_all digit_char s \<and> (s = ''0'' \<or> hd s \<noteq> CHR ''0'') \<and> digits_val s < 4294967295
      then Some (digits_val s) else None)"

definition key_before :: "string \<Rightarrow> string \<Rightarrow> bool" where
  "key_before a b =
     (case index_key a of None \<Rightarrow> False
      | Some i \<Rightarrow> (case index_key b of None \<Rightarrow> True | Some j \<Rightarrow> i < j))"

interpretation skey: key_order key_before
  by unfold_locales (auto simp: key_before_def split: option.splits)

interpretation ikey: key_order "(<) :: nat \<Rightarrow> nat \<Rightarrow> bool"
  by unfold_locales auto

type_synonym 'v sobj = "(string \<times> 'v) list"
type_synonym 'v iobj = "(nat \<times> 'v) list"

abbreviation sobj_set :: "string \<Rightarrow> 'v \<Rightarrow> 'v sobj \<Rightarrow> 'v sobj" where
  "sobj_set \<equiv> obj_set key_before"

abbreviation iobj_set :: "nat \<Rightarrow> 'v \<Rightarrow> 'v iobj \<Rightarrow> 'v iobj" where
  "iobj_set \<equiv> obj_set (<)"

text \<open>An object of objects, \<open>Record<string, Record<number, T>>\<close>, and \<open>{...m, [a]: {...m[a], [i]: v}}\<close>.\<close>

type_synonym 'v grid = "'v iobj sobj"

definition grid_row :: "'v grid \<Rightarrow> string \<Rightarrow> 'v iobj" where
  "grid_row m a = list_or (map_of m a)"

definition grid_get :: "'v grid \<Rightarrow> string \<Rightarrow> nat \<Rightarrow> 'v option" where
  "grid_get m a i = (case map_of m a of None \<Rightarrow> None | Some r \<Rightarrow> map_of r i)"

definition grid_set :: "string \<Rightarrow> nat \<Rightarrow> 'v \<Rightarrow> 'v grid \<Rightarrow> 'v grid" where
  "grid_set a i v m = sobj_set a (iobj_set i v (grid_row m a)) m"

lemma grid_get_row: "grid_get m a i = map_of (grid_row m a) i"
  by (simp add: grid_get_def grid_row_def split: option.split)

lemma grid_get_set [simp]:
  "grid_get (grid_set a i v m) b j = (if a = b \<and> i = j then Some v else grid_get m b j)"
  by (auto simp: grid_get_def grid_set_def grid_row_def split: option.splits)

lemma grid_get_Nil [simp]: "grid_get [] a i = None"
  by (simp add: grid_get_def)

section \<open>Lists without duplicates\<close>

text \<open>\<open>Array.from(new Set(xs))\<close> and \<open>uniq\<close>: the first occurrence of every element.\<close>

definition js_uniq :: "'a list \<Rightarrow> 'a list" where
  "js_uniq xs = rev (remdups (rev xs))"

lemma set_js_uniq [simp]: "set (js_uniq xs) = set xs"
  by (simp add: js_uniq_def)

lemma distinct_js_uniq [simp]: "distinct (js_uniq xs)"
  by (simp add: js_uniq_def)

section \<open>Sorting by a comparator\<close>

fun sort_ins :: "('a \<Rightarrow> 'a \<Rightarrow> int) \<Rightarrow> 'a \<Rightarrow> 'a list \<Rightarrow> 'a list" where
  "sort_ins cmp x [] = [x]"
| "sort_ins cmp x (y # ys) = (if cmp x y \<le> 0 then x # y # ys else y # sort_ins cmp x ys)"

definition js_sort :: "('a \<Rightarrow> 'a \<Rightarrow> int) \<Rightarrow> 'a list \<Rightarrow> 'a list" where
  "js_sort cmp xs = foldr (sort_ins cmp) xs []"

lemma mset_sort_ins [simp]: "mset (sort_ins cmp x xs) = add_mset x (mset xs)"
  by (induction xs) auto

lemma mset_js_sort [simp]: "mset (js_sort cmp xs) = mset xs"
  by (induction xs) (auto simp: js_sort_def)

lemma set_js_sort [simp]: "set (js_sort cmp xs) = set xs"
  by (metis mset_js_sort set_mset_mset)

lemma length_js_sort [simp]: "length (js_sort cmp xs) = length xs"
  by (metis mset_js_sort size_mset)

lemma js_sort_Nil_iff [simp]: "js_sort cmp xs = [] \<longleftrightarrow> xs = []"
  by (metis length_0_conv length_js_sort)

lemma distinct_js_sort [simp]: "distinct (js_sort cmp xs) = distinct xs"
  using mset_eq_imp_distinct_iff mset_js_sort by blast

text \<open>
  The contract of a comparator: on the elements it is used on it is total and transitive, as the
  standard requires for the result of \<open>sort\<close> to be determined.
\<close>

locale js_comparator =
  fixes valid :: "'a \<Rightarrow> bool" and cmp :: "'a \<Rightarrow> 'a \<Rightarrow> int"
  assumes cmp_total: "valid a \<Longrightarrow> valid b \<Longrightarrow> cmp a b \<le> 0 \<or> cmp b a \<le> 0"
    and cmp_trans: "valid a \<Longrightarrow> valid b \<Longrightarrow> valid c \<Longrightarrow> cmp a b \<le> 0 \<Longrightarrow> cmp b c \<le> 0 \<Longrightarrow> cmp a c \<le> 0"
begin

lemma sorted_sort_ins:
  "valid x \<Longrightarrow> list_all valid xs \<Longrightarrow> sorted_wrt (\<lambda>a b. cmp a b \<le> 0) xs \<Longrightarrow>
   sorted_wrt (\<lambda>a b. cmp a b \<le> 0) (sort_ins cmp x xs)"
proof (induction xs)
  case (Cons y ys)
  have set_ins: "set (sort_ins cmp x ys) = insert x (set ys)"
    by (metis mset_sort_ins set_mset_add_mset_insert set_mset_mset)
  show ?case
  proof (cases "cmp x y \<le> 0")
    case True
    have "cmp x z \<le> 0" if "z \<in> set ys" for z
      using cmp_trans [of x y z] Cons.prems True that by (simp add: list_all_iff)
    with True Cons.prems show ?thesis by simp
  next
    case False
    then have "cmp y x \<le> 0" using cmp_total [of x y] Cons.prems by auto
    with False Cons show ?thesis by (auto simp: set_ins)
  qed
qed simp

lemma sorted_js_sort: "list_all valid xs \<Longrightarrow> sorted_wrt (\<lambda>a b. cmp a b \<le> 0) (js_sort cmp xs)"
proof (induction xs)
  case (Cons x xs)
  have "list_all valid (js_sort cmp xs)"
    using Cons.prems by (simp add: list_all_iff)
  with Cons show ?case by (simp add: js_sort_def sorted_sort_ins)
qed (simp add: js_sort_def)

lemma js_sort_hd_least:
  assumes "list_all valid xs" "y \<in> set xs"
  shows "cmp (hd (js_sort cmp xs)) y \<le> 0"
proof -
  obtain z zs where z: "js_sort cmp xs = z # zs"
    using assms(2) by (cases "js_sort cmp xs") auto
  have y: "y = z \<or> y \<in> set zs" using assms(2) set_js_sort [of cmp xs] by (auto simp: z)
  have v: "valid y" "valid z"
    using assms set_js_sort [of cmp xs] by (auto simp: z list_all_iff)
  have "cmp z z \<le> 0" using cmp_total [of z z] v by auto
  then show ?thesis using y sorted_js_sort [OF assms(1)] by (auto simp: z)
qed

end

lemma sort_ins_front: "(\<And>y. y \<in> set xs \<Longrightarrow> cmp x y \<le> 0) \<Longrightarrow> sort_ins cmp x xs = x # xs"
  by (cases xs) auto

lemma js_sort_sorted_id: "sorted_wrt (\<lambda>a b. cmp a b \<le> 0) xs \<Longrightarrow> js_sort cmp xs = xs"
  by (induction xs) (auto simp: js_sort_def sort_ins_front)

section \<open>Splitting and joining\<close>

text \<open>\<open>s.split(sep)\<close> for a separator of one character.\<close>

fun split_on :: "char \<Rightarrow> string \<Rightarrow> string list" where
  "split_on sep [] = [[]]"
| "split_on sep (c # cs) =
     (if c = sep then [] # split_on sep cs
      else (case split_on sep cs of [] \<Rightarrow> [[c]] | w # ws \<Rightarrow> (c # w) # ws))"

lemma split_on_nonempty [simp]: "split_on sep s \<noteq> []"
  by (cases s) (auto split: list.split)

lemma split_on_append: "sep \<notin> set w \<Longrightarrow> split_on sep (w @ sep # s) = w # split_on sep s"
  by (induction w) auto

lemma split_on_single: "sep \<notin> set w \<Longrightarrow> split_on sep w = [w]"
  by (induction w) auto

lemma split_on_join: "ws \<noteq> [] \<Longrightarrow> list_all (\<lambda>w. sep \<notin> set w) ws \<Longrightarrow> split_on sep (js_join [sep] ws) = ws"
  by (induction ws rule: induct_list012) (auto simp: split_on_append split_on_single)

lemma js_join_split: "js_join [sep] (split_on sep s) = s"
proof (induction s)
  case (Cons c s)
  obtain w ws where w: "split_on sep s = w # ws"
    using split_on_nonempty [of sep s] by (cases "split_on sep s") auto
  with Cons show ?case
    by (cases ws) auto
qed simp

lemma split_on_parts: "w \<in> set (split_on sep s) \<Longrightarrow> sep \<notin> set w"
  by (induction s arbitrary: w) (auto split: if_splits list.splits)

lemma split_on_chars: "list_all P s \<longleftrightarrow> list_all (list_all (\<lambda>c. c = sep \<or> P c)) (split_on sep s)" if "P sep"
proof (induction s)
  case (Cons c s)
  obtain w ws where w: "split_on sep s = w # ws"
    using split_on_nonempty [of sep s] by (cases "split_on sep s") auto
  with Cons that show ?case
    by auto
qed simp

end
