(* ===== verification/Js_Date.thy ===== *)
theory Js_Date
  imports Js_Prelude "HOL-Library.Monad_Syntax"
begin

text \<open>
  \<open>new Date(s).getTime()\<close> for the ISO 8601 format that ECMAScript specifies and that the Kubernetes
  API server writes (\<open>2024-05-01T10:00:00Z\<close>). \<open>None\<close> is NaN: any other string is, since what an
  engine makes of it is implementation-defined. A time without an offset is read as UTC (the host's
  time zone). Arithmetic and comparison with NaN are written out: every comparison is false.
\<close>

type_synonym js_num = "int option"

definition take_num :: "nat \<Rightarrow> string \<Rightarrow> (int \<times> string) option" where
  "take_num n s =
     (let p = take n s
      in if length p = n \<and> list_all digit_char p then Some (digits_val p, drop n s) else None)"

definition take_char :: "char \<Rightarrow> string \<Rightarrow> string option" where
  "take_char c s = (case s of [] \<Rightarrow> None | x # r \<Rightarrow> if x = c then Some r else None)"

text \<open>Days since 1970-01-01 in the proleptic Gregorian calendar.\<close>

definition days_from_civil :: "int \<Rightarrow> int \<Rightarrow> int \<Rightarrow> int" where
  "days_from_civil y m d =
     (let y' = (if m \<le> 2 then y - 1 else y);
          era = y' div 400;
          yoe = y' mod 400;
          mp = (m + 9) mod 12;
          doy = (153 * mp + 2) div 5 + d - 1;
          doe = yoe * 365 + yoe div 4 - yoe div 100 + doy
      in era * 146097 + doe - 719468)"

definition take_seconds :: "string \<Rightarrow> (int \<times> string) option" where
  "take_seconds s = (case s of
       c # r \<Rightarrow> if c = CHR '':'' then take_num 2 r else Some (0, s)
     | [] \<Rightarrow> Some (0, s))"

text \<open>The fraction of a second, to the millisecond.\<close>

definition take_fraction :: "string \<Rightarrow> (int \<times> string) option" where
  "take_fraction s = (case s of
       c # r \<Rightarrow>
         (if c = CHR ''.''
          then let ds = takeWhile digit_char r
               in if ds = [] then None
                  else Some (digits_val (take 3 (ds @ ''00'')), dropWhile digit_char r)
          else Some (0, s))
     | [] \<Rightarrow> Some (0, s))"

text \<open>The offset in minutes.\<close>

definition take_offset :: "string \<Rightarrow> int option" where
  "take_offset s =
     (if s = [] \<or> s = ''Z'' then Some 0
      else do {
        (h, r) \<leftarrow> take_num 2 (tl s);
        r \<leftarrow> take_char (CHR '':'') r;
        (m, r) \<leftarrow> take_num 2 r;
        (if r \<noteq> [] \<or> h \<ge> 24 \<or> m \<ge> 60 then None
         else if hd s = CHR ''+'' then Some (h * 60 + m)
         else if hd s = CHR ''-'' then Some (- (h * 60 + m))
         else None)
      })"

definition date_parse :: "string \<Rightarrow> js_num" where
  "date_parse s = do {
     (y, r) \<leftarrow> take_num 4 s;
     r \<leftarrow> take_char (CHR ''-'') r;
     (mo, r) \<leftarrow> take_num 2 r;
     r \<leftarrow> take_char (CHR ''-'') r;
     (d, r) \<leftarrow> take_num 2 r;
     (if mo < 1 \<or> mo > 12 \<or> d < 1 \<or> d > 31 then None
      else if r = [] then Some (days_from_civil y mo d * 86400000)
      else do {
        r \<leftarrow> take_char (CHR ''T'') r;
        (h, r) \<leftarrow> take_num 2 r;
        r \<leftarrow> take_char (CHR '':'') r;
        (mi, r) \<leftarrow> take_num 2 r;
        (sec, r) \<leftarrow> take_seconds r;
        (ms, r) \<leftarrow> take_fraction r;
        off \<leftarrow> take_offset r;
        (if h > 23 \<or> mi > 59 \<or> sec > 59 then None
         else Some ((((days_from_civil y mo d * 24 + h) * 60 + mi - off) * 60
                      + sec) * 1000 + ms))
      })
   }"

definition num_gt :: "js_num \<Rightarrow> js_num \<Rightarrow> bool" where
  "num_gt a b = (case a of None \<Rightarrow> False | Some x \<Rightarrow> (case b of None \<Rightarrow> False | Some y \<Rightarrow> x > y))"

definition num_diff :: "js_num \<Rightarrow> js_num \<Rightarrow> js_num" where
  "num_diff a b = (case a of None \<Rightarrow> None | Some x \<Rightarrow> (case b of None \<Rightarrow> None | Some y \<Rightarrow> Some (x - y)))"

lemma num_diff_simps [simp]:
  "num_diff (Some x) (Some y) = Some (x - y)" "num_diff None b = None" "num_diff a None = None"
  by (simp_all add: num_diff_def split: option.split)

lemma num_gt_simps [simp]:
  "num_gt (Some x) (Some y) = (x > y)" "num_gt None b = False" "num_gt a None = False"
  by (simp_all add: num_gt_def split: option.split)

text \<open>
  \<open>Array.prototype.sort\<close> treats a NaN result of the comparator as 0: the newest-first comparator of
  the tables on two timestamps.
\<close>

definition newest_first :: "('a \<Rightarrow> js_num) \<Rightarrow> 'a \<Rightarrow> 'a \<Rightarrow> int" where
  "newest_first t a b = (case num_diff (t b) (t a) of None \<Rightarrow> 0 | Some d \<Rightarrow> d)"

lemma newest_first_le:
  "t a \<noteq> None \<Longrightarrow> t b \<noteq> None \<Longrightarrow> newest_first t a b \<le> 0 \<longleftrightarrow> the (t b) \<le> the (t a)"
  by (auto simp: newest_first_def)

lemma js_comparator_newest_first: "js_comparator (\<lambda>a. t a \<noteq> None) (newest_first t)"
  by unfold_locales (auto simp: newest_first_def)

text \<open>\<open>reduce((a, b) => t(a) > t(b) ? a : b)\<close>: the last of the latest.\<close>

definition latest_of :: "('a \<Rightarrow> js_num) \<Rightarrow> 'a \<Rightarrow> 'a list \<Rightarrow> 'a" where
  "latest_of t x xs = foldl (\<lambda>a b. if num_gt (t a) (t b) then a else b) x xs"

lemma latest_of_in: "latest_of t x xs \<in> set (x # xs)"
proof (induction xs arbitrary: x)
  case (Cons y ys)
  show ?case
    using Cons [of x] Cons [of y] by (auto simp: latest_of_def)
qed (simp add: latest_of_def)

lemma latest_of_max:
  assumes "\<And>c. c \<in> set (x # xs) \<Longrightarrow> t c \<noteq> None" and "c \<in> set (x # xs)"
  shows "the (t c) \<le> the (t (latest_of t x xs))"
  using assms
proof (induction xs arbitrary: x c)
  case (Cons y ys)
  define z where "z = (if num_gt (t x) (t y) then x else y)"
  have step: "latest_of t x (y # ys) = latest_of t z ys"
    by (simp add: latest_of_def z_def)
  obtain a b where ab: "t x = Some a" "t y = Some b"
    using Cons.prems(1) [of x] Cons.prems(1) [of y] by auto
  have z: "t z \<noteq> None" "the (t x) \<le> the (t z)" "the (t y) \<le> the (t z)"
    by (auto simp: z_def ab)
  have ih: "the (t c) \<le> the (t (latest_of t z ys))" if "c \<in> set (z # ys)" for c
    using Cons.IH [of z c] Cons.prems(1) z(1) that by auto
  show ?case
    using Cons.prems(2) ih [of z] ih [of c] z step by force
qed (simp add: latest_of_def)

end
