(* ===== verification/Migration_Phase.thy ===== *)
theory Migration_Phase
  imports Js_Date
begin

text \<open>
  The life of a migration as the user interface shows it: the \<open>Migration\<close> resource
  (\<open>ui/src/api/migrations/model.ts\<close>), the six design phases of the stepper
  (\<open>ui/src/features/migration/utils/phaseUtils.ts\<close>) and the table's step numbers, categories,
  filters and progress text (\<open>ui/src/features/migration/utils/migrationTableUtils.ts\<close>).
  A phase outside the enumeration (the cluster may send one) is \<open>OtherPhase\<close>; a missing or empty
  phase is \<open>None\<close>. The current time is a parameter, as the string \<open>new Date().toISOString()\<close> gives.
\<close>

section \<open>The Migration resource\<close>

datatype Phase =
    Pending | Validating | ValidationFailed | AwaitingDataCopyStart | CopyingBlocks
  | CopyingChangedBlocks | SnapshottingSourceVM | AttachingDisksToProxy | IdentifyingBlockDevices
  | HotAddTransferInProgress | HotAddCleanup | ConvertingDisk | AwaitingCutOverStartTime
  | AwaitingAdminCutOver | WaitingForLDMBootSuccess | PromotingToVirtio | Succeeded | DataCopied
  | Failed | Unknown | OtherPhase string

fun phase_str :: "Phase \<Rightarrow> string" where
  "phase_str Pending = ''Pending''"
| "phase_str Validating = ''Validating''"
| "phase_str ValidationFailed = ''ValidationFailed''"
| "phase_str AwaitingDataCopyStart = ''AwaitingDataCopyStart''"
| "phase_str CopyingBlocks = ''CopyingBlocks''"
| "phase_str CopyingChangedBlocks = ''CopyingChangedBlocks''"
| "phase_str SnapshottingSourceVM = ''SnapshottingSourceVM''"
| "phase_str AttachingDisksToProxy = ''AttachingDisksToProxy''"
| "phase_str IdentifyingBlockDevices = ''IdentifyingBlockDevices''"
| "phase_str HotAddTransferInProgress = ''HotAddTransferInProgress''"
| "phase_str HotAddCleanup = ''HotAddCleanup''"
| "phase_str ConvertingDisk = ''ConvertingDisk''"
| "phase_str AwaitingCutOverStartTime = ''AwaitingCutOverStartTime''"
| "phase_str AwaitingAdminCutOver = ''AwaitingAdminCutOver''"
| "phase_str WaitingForLDMBootSuccess = ''WaitingForLDMBootSuccess''"
| "phase_str PromotingToVirtio = ''PromotingToVirtio''"
| "phase_str Succeeded = ''Succeeded''"
| "phase_str DataCopied = ''DataCopied''"
| "phase_str Failed = ''Failed''"
| "phase_str Unknown = ''Unknown''"
| "phase_str (OtherPhase s) = s"

record condition =
  c_type :: string
  c_status :: string
  c_reason :: string
  c_message :: "string option"
  c_time :: "string option"   \<comment> \<open>\<open>lastTransitionTime\<close>\<close>

record status_class =
  st_conditions :: "condition list option"
  st_phase :: "Phase option"
  st_current_disk :: "string option"
  st_total_disks :: "int option"

record migration =
  m_name :: string
  m_creation :: "string option"   \<comment> \<open>\<open>metadata.creationTimestamp\<close>\<close>
  m_data_only :: "bool option"    \<comment> \<open>\<open>spec.dataOnly\<close>\<close>
  m_status :: "status_class option"

definition mig_phase :: "migration \<Rightarrow> Phase option" where
  "mig_phase m = (case m_status m of None \<Rightarrow> None | Some s \<Rightarrow> st_phase s)"

definition mig_conditions :: "migration \<Rightarrow> condition list" where
  "mig_conditions m = (case m_status m of None \<Rightarrow> [] | Some s \<Rightarrow> list_or (st_conditions s))"

section \<open>The stepper: phaseUtils\<close>

datatype PhaseStatus = SDone | SActive | SPaused | SPending | SFailed

record phase_state =
  ps_status :: PhaseStatus
  ps_elapsed :: "string option"
  ps_detail :: string
  ps_eta :: "string option"

record design_phase_def =
  dp_key :: string
  dp_label :: string
  dp_step_label :: string

definition DESIGN_PHASE_DEFS :: "design_phase_def list" where
  "DESIGN_PHASE_DEFS =
    [\<lparr> dp_key = ''pending'', dp_label = ''Pending'', dp_step_label = ''Step 1'' \<rparr>,
     \<lparr> dp_key = ''validating'', dp_label = ''Validating'', dp_step_label = ''Step 2'' \<rparr>,
     \<lparr> dp_key = ''copying'', dp_label = ''Copying Blocks'', dp_step_label = ''Step 3'' \<rparr>,
     \<lparr> dp_key = ''cutover'', dp_label = ''Cutover'', dp_step_label = ''Step 4'' \<rparr>,
     \<lparr> dp_key = ''converting'', dp_label = ''Converting Disk'', dp_step_label = ''Step 5'' \<rparr>,
     \<lparr> dp_key = ''done'', dp_label = ''Done'', dp_step_label = ''Step 6'' \<rparr>]"

definition has_condition :: "condition list \<Rightarrow> string \<Rightarrow> bool" where
  "has_condition cs ty = list_ex (\<lambda>c. c_type c = ty) cs"

definition has_true_condition :: "condition list \<Rightarrow> string \<Rightarrow> bool" where
  "has_true_condition cs ty = list_ex (\<lambda>c. c_type c = ty \<and> c_status c = ''True'') cs"

fun getDesignIndex :: "Phase \<Rightarrow> condition list \<Rightarrow> nat" where
  "getDesignIndex Pending cs = 0"
| "getDesignIndex AwaitingDataCopyStart cs = 0"
| "getDesignIndex Validating cs = 1"
| "getDesignIndex ValidationFailed cs = 1"
| "getDesignIndex CopyingBlocks cs = 2"
| "getDesignIndex CopyingChangedBlocks cs = 2"
| "getDesignIndex SnapshottingSourceVM cs = 2"
| "getDesignIndex AttachingDisksToProxy cs = 2"
| "getDesignIndex IdentifyingBlockDevices cs = 2"
| "getDesignIndex HotAddTransferInProgress cs = 2"
| "getDesignIndex HotAddCleanup cs = 2"
| "getDesignIndex AwaitingAdminCutOver cs = 3"
| "getDesignIndex AwaitingCutOverStartTime cs = 3"
| "getDesignIndex ConvertingDisk cs = 4"
| "getDesignIndex WaitingForLDMBootSuccess cs = 4"
| "getDesignIndex PromotingToVirtio cs = 4"
| "getDesignIndex Succeeded cs = 5"
| "getDesignIndex DataCopied cs = 5"
| "getDesignIndex Failed cs =
     (let validatedOk = has_true_condition cs ''Validated'';
          copyStarted = has_condition cs ''DataCopy'';
          convertStarted = has_true_condition cs ''Migrating''
      in if convertStarted then 4
         else if copyStarted \<or> validatedOk then 2
         else 1)"
| "getDesignIndex Unknown cs = 0"
| "getDesignIndex (OtherPhase s) cs = 0"

definition isFailed :: "Phase \<Rightarrow> bool" where
  "isFailed p = (p = Failed \<or> p = ValidationFailed)"

text \<open>\<open>formatDuration(NaN)\<close> fails no comparison's guard and prints the NaN of the seconds.\<close>

definition formatDuration :: "js_num \<Rightarrow> string option" where
  "formatDuration diffMs = (case diffMs of
       None \<Rightarrow> Some ''NaNs''
     | Some d \<Rightarrow>
         (if d < 0 then None
          else let s = d div 1000; m = s div 60; h = m div 60
               in if h > 0 then Some (int_str h @ ''h '' @ int_str (m mod 60) @ ''m'')
                  else if m > 0 then Some (int_str m @ ''m '' @ int_str (s mod 60) @ ''s'')
                  else Some (int_str s @ ''s'')))"

definition durationBetween :: "string option \<Rightarrow> string option \<Rightarrow> string option" where
  "durationBetween start end' =
     (if \<not> str_truthy start \<or> \<not> str_truthy end' then None
      else formatDuration (num_diff (date_parse (the end')) (date_parse (the start))))"

definition conditionElapsed :: "string option \<Rightarrow> condition list \<Rightarrow> string \<Rightarrow> string option" where
  "conditionElapsed creation cs ty =
     (if \<not> str_truthy creation then None
      else durationBetween creation
             (case find (\<lambda>c. c_type c = ty) cs of None \<Rightarrow> None | Some c \<Rightarrow> c_time c))"

definition stepEndType :: "nat \<Rightarrow> bool \<Rightarrow> string option" where
  "stepEndType step dataOnly =
     (if step = 0 then Some ''PodRunning''
      else if step = 1 then Some ''Validated''
      else if step = 2 then Some ''DataCopy''
      else if step = 3 then Some ''Migrating''
      else if step = 4 then Some (if dataOnly then ''DataCopied'' else ''Migrated'')
      else None)"

definition cond_ms :: "condition \<Rightarrow> js_num" where
  "cond_ms c = (case c_time c of None \<Rightarrow> None | Some t \<Rightarrow> date_parse t)"

definition stepEndTimestamp :: "condition list \<Rightarrow> nat \<Rightarrow> bool \<Rightarrow> string option" where
  "stepEndTimestamp cs step dataOnly = (case stepEndType step dataOnly of
       None \<Rightarrow> None
     | Some ty \<Rightarrow>
         (case filter (\<lambda>c. c_type c = ty \<and> str_truthy (c_time c)) cs of
            [] \<Rightarrow> None
          | x # xs \<Rightarrow> c_time (latest_of cond_ms x xs)))"

definition or_else :: "'a option \<Rightarrow> 'a option \<Rightarrow> 'a option" where
  "or_else a b = (case a of None \<Rightarrow> b | Some x \<Rightarrow> a)"

definition stepStartTimestamp ::
  "nat \<Rightarrow> string option \<Rightarrow> condition list \<Rightarrow> bool \<Rightarrow> string option" where
  "stepStartTimestamp step creation cs dataOnly =
     (let triggered = (case find (\<lambda>c. c_type c = ''CutoverTriggered'') cs of
                         None \<Rightarrow> None | Some c \<Rightarrow> c_time c)
      in if step = 0 then creation
         else if step = 3 \<and> str_truthy triggered then triggered
         else or_else (stepEndTimestamp cs (step - 1) dataOnly) creation)"

definition stepElapsed :: "nat \<Rightarrow> string option \<Rightarrow> condition list \<Rightarrow> bool \<Rightarrow> string option" where
  "stepElapsed step creation cs dataOnly =
     durationBetween (stepStartTimestamp step creation cs dataOnly) (stepEndTimestamp cs step dataOnly)"

definition stepElapsedUntil ::
  "nat \<Rightarrow> string option \<Rightarrow> condition list \<Rightarrow> bool \<Rightarrow> string \<Rightarrow> string option" where
  "stepElapsedUntil step creation cs dataOnly until =
     durationBetween (stepStartTimestamp step creation cs dataOnly) (Some until)"

definition doneDetail :: "nat \<Rightarrow> condition list \<Rightarrow> string" where
  "doneDetail i cs =
     (let message_of = (\<lambda>ty. case find (\<lambda>c. c_type c = ty) cs of None \<Rightarrow> None | Some c \<Rightarrow> c_message c)
      in if i = 0 then ''Picked up by agent.''
         else if i = 1 then str_or (message_of ''Validated'') ''All checks passed.''
         else if i = 2 then str_or (message_of ''DataCopy'') ''Disk transfer complete.''
         else if i = 3 then ''Cutover complete.''
         else if i = 4 then ''Disk conversion complete.''
         else if i = 5 then ''Migration completed successfully.''
         else ''Complete.'')"

definition activeDetail :: "migration \<Rightarrow> nat \<Rightarrow> string" where
  "activeDetail m i =
     (if i = 0 then ''Waiting for available agent.''
      else if i = 1 then ''Running pre-flight checks'' @ ellipsis
      else if i = 2 then
        (let cd = (case m_status m of None \<Rightarrow> None | Some s \<Rightarrow> st_current_disk s);
             td = (case m_status m of None \<Rightarrow> None | Some s \<Rightarrow> st_total_disks s)
         in case (cd, td) of
              (Some d, Some n) \<Rightarrow>
                (if n = 0 then ''Transferring disk data'' @ ellipsis
                 else ''Disk '' @ (case parse_int d of None \<Rightarrow> d | Some k \<Rightarrow> int_str (k + 1)) @ '' of ''
                      @ int_str n)
            | _ \<Rightarrow> ''Transferring disk data'' @ ellipsis)
      else if i = 3 then ''Waiting for admin to initiate cutover.''
      else if i = 4 then ''Converting disk.''
      else ''In progress'' @ ellipsis)"

definition pendingDetail :: "nat \<Rightarrow> string" where
  "pendingDetail i =
     (if i = 0 then ''Queued.''
      else if i = 1 then ''Will start after agent picks up task.''
      else if i = 2 then ''Will start when validation completes.''
      else if i = 3 then ''Will start when copy completes.''
      else if i = 4 then ''Will start after cutover.''
      else ''Pending.'')"

definition failedDetail :: "migration \<Rightarrow> nat \<Rightarrow> string" where
  "failedDetail m i =
     (if i = 1 then ''Validation check failed. See error details below.''
      else if i = 2 then ''Disk copy failed. See error details below.''
      else if i = 3 then ''Cutover failed. See error details below.''
      else if i = 4 then ''Disk conversion failed. See error details below.''
      else ''Migration halted. See error details below.'')"

record derive_options =
  o_min_index :: "nat option"
  o_cutover_triggered :: "bool option"

definition no_options :: derive_options where
  "no_options = \<lparr> o_min_index = None, o_cutover_triggered = None \<rparr>"

definition currentIndex :: "Phase \<Rightarrow> condition list \<Rightarrow> derive_options \<Rightarrow> nat" where
  "currentIndex p cs opt =
     (case o_min_index opt of
        None \<Rightarrow> getDesignIndex p cs
      | Some k \<Rightarrow> max (getDesignIndex p cs) k)"

definition isPaused :: "Phase \<Rightarrow> derive_options \<Rightarrow> bool" where
  "isPaused p opt =
     (((p = AwaitingAdminCutOver \<or> p = AwaitingCutOverStartTime) \<and>
        \<not> bool_or (o_cutover_triggered opt))
      \<or> p = WaitingForLDMBootSuccess)"

text \<open>The three arms of the final \<open>map\<close> of \<open>derivePhaseStates\<close>: succeeded, failed and active.\<close>

definition succeededState ::
  "string option \<Rightarrow> condition list \<Rightarrow> bool \<Rightarrow> nat \<Rightarrow> phase_state" where
  "succeededState creation cs dataOnly i =
     (if dataOnly \<and> i = 3
      then \<lparr> ps_status = SPending, ps_elapsed = None,
             ps_detail = ''Skipped '' @ em_dash @ '' no cutover in data-only migration.'', ps_eta = None \<rparr>
      else
        let doneStart = or_else (stepEndTimestamp cs 0 dataOnly) creation;
            elapsed = (if i \<le> 4 then stepElapsed i creation cs dataOnly
                       else if i = 5
                       then conditionElapsed doneStart cs (if dataOnly then ''DataCopied'' else ''Migrated'')
                       else None);
            detail = (if dataOnly \<and> i = 5 then ''Disk copy and conversion complete.''
                      else doneDetail i cs)
        in \<lparr> ps_status = SDone, ps_elapsed = elapsed, ps_detail = detail, ps_eta = None \<rparr>)"

definition doneState :: "string option \<Rightarrow> condition list \<Rightarrow> bool \<Rightarrow> nat \<Rightarrow> phase_state" where
  "doneState creation cs dataOnly i =
     \<lparr> ps_status = SDone, ps_elapsed = stepElapsed i creation cs dataOnly,
       ps_detail = doneDetail i cs, ps_eta = None \<rparr>"

definition failedState ::
  "migration \<Rightarrow> string option \<Rightarrow> condition list \<Rightarrow> bool \<Rightarrow> nat \<Rightarrow> nat \<Rightarrow> phase_state" where
  "failedState m creation cs dataOnly current i =
     (if i < current then doneState creation cs dataOnly i
      else if i = current then
        (let t = (case find (\<lambda>c. c_type c = ''Failed'') cs of None \<Rightarrow> None | Some c \<Rightarrow> c_time c)
         in \<lparr> ps_status = SFailed,
              ps_elapsed = (if str_truthy t then stepElapsedUntil i creation cs dataOnly (the t) else None),
              ps_detail = failedDetail m i, ps_eta = None \<rparr>)
      else \<lparr> ps_status = SPending, ps_elapsed = None, ps_detail = ''Blocked by failure.'', ps_eta = None \<rparr>)"

definition activeState ::
  "migration \<Rightarrow> string option \<Rightarrow> condition list \<Rightarrow> bool \<Rightarrow> nat \<Rightarrow> bool \<Rightarrow> string \<Rightarrow> nat \<Rightarrow> phase_state" where
  "activeState m creation cs dataOnly current paused now i =
     (if i < current then doneState creation cs dataOnly i
      else if i = current then
        \<lparr> ps_status = (if paused then SPaused else SActive),
          ps_elapsed = stepElapsedUntil i creation cs dataOnly now,
          ps_detail = activeDetail m i, ps_eta = None \<rparr>
      else \<lparr> ps_status = SPending, ps_elapsed = None, ps_detail = pendingDetail i, ps_eta = None \<rparr>)"

definition queuedState :: "string option \<Rightarrow> string \<Rightarrow> nat \<Rightarrow> phase_state" where
  "queuedState creation now i =
     (if i = 0
      then \<lparr> ps_status = SActive, ps_elapsed = durationBetween creation (Some now),
             ps_detail = ''Queued for agent.'', ps_eta = None \<rparr>
      else \<lparr> ps_status = SPending, ps_elapsed = None, ps_detail = pendingDetail i, ps_eta = None \<rparr>)"

definition derivePhaseStates :: "migration \<Rightarrow> derive_options \<Rightarrow> string \<Rightarrow> phase_state list" where
  "derivePhaseStates m opt now =
     (let cs = mig_conditions m;
          creation = m_creation m;
          idx = [0..<length DESIGN_PHASE_DEFS]
      in case mig_phase m of
           None \<Rightarrow> map (queuedState creation now) idx
         | Some p \<Rightarrow>
             let current = currentIndex p cs opt;
                 dataOnly = bool_or (m_data_only m)
             in if p = Succeeded \<or> p = DataCopied then map (succeededState creation cs dataOnly) idx
                else if isFailed p then map (failedState m creation cs dataOnly current) idx
                else map (activeState m creation cs dataOnly current (isPaused p opt) now) idx)"

text \<open>\<open>None\<close> is the code's -1.\<close>

definition getActivePhasIndex :: "migration \<Rightarrow> nat option" where
  "getActivePhasIndex m = (case mig_phase m of
       None \<Rightarrow> None
     | Some p \<Rightarrow> if p = Succeeded \<or> p = DataCopied then None
                 else Some (getDesignIndex p (mig_conditions m)))"

definition isMigrationFailed :: "migration \<Rightarrow> bool" where
  "isMigrationFailed m = (case mig_phase m of None \<Rightarrow> False | Some p \<Rightarrow> isFailed p)"

fun phase_label :: "Phase \<Rightarrow> string" where
  "phase_label Pending = ''Pending''"
| "phase_label Validating = ''Validating''"
| "phase_label ValidationFailed = ''Validation Failed''"
| "phase_label AwaitingDataCopyStart = ''Awaiting Copy Start''"
| "phase_label CopyingBlocks = ''Copying Blocks''"
| "phase_label CopyingChangedBlocks = ''Copying Changed Blocks''"
| "phase_label SnapshottingSourceVM = ''Snapshotting Source VM''"
| "phase_label AttachingDisksToProxy = ''Attaching Disks to Proxy''"
| "phase_label IdentifyingBlockDevices = ''Identifying Block Devices''"
| "phase_label HotAddTransferInProgress = ''HotAdd Transfer In Progress''"
| "phase_label HotAddCleanup = ''HotAdd Cleanup''"
| "phase_label ConvertingDisk = ''Converting Disk''"
| "phase_label AwaitingAdminCutOver = ''Awaiting Admin Cutover''"
| "phase_label WaitingForLDMBootSuccess = ''LDM Boot Verification''"
| "phase_label PromotingToVirtio = ''Moving to virtio''"
| "phase_label AwaitingCutOverStartTime = ''Awaiting Cutover Window''"
| "phase_label Succeeded = ''Succeeded''"
| "phase_label DataCopied = ''Data Copied''"
| "phase_label Failed = ''Failed''"
| "phase_label Unknown = ''Unknown''"
| "phase_label (OtherPhase s) = s"

definition getPhaseLabel :: "Phase option \<Rightarrow> string" where
  "getPhaseLabel p = (case p of None \<Rightarrow> ''Pending'' | Some q \<Rightarrow> phase_label q)"

datatype PhaseColorKey = Info | Success | Error | Warning | Default

definition getPhaseColorKey :: "Phase option \<Rightarrow> PhaseColorKey" where
  "getPhaseColorKey p = (case p of
       None \<Rightarrow> Default
     | Some q \<Rightarrow>
         (if q \<in> {Succeeded, DataCopied} then Success
          else if q \<in> {Failed, ValidationFailed} then Error
          else if q \<in> {AwaitingAdminCutOver, AwaitingCutOverStartTime, WaitingForLDMBootSuccess} then Warning
          else if q \<in> {Pending, Unknown} then Default
          else Info))"

section \<open>The table: migrationTableUtils\<close>

fun PHASE_STEPS :: "Phase \<Rightarrow> nat option" where
  "PHASE_STEPS Pending = Some 1"
| "PHASE_STEPS Validating = Some 2"
| "PHASE_STEPS AwaitingDataCopyStart = Some 3"
| "PHASE_STEPS CopyingBlocks = Some 4"
| "PHASE_STEPS SnapshottingSourceVM = Some 4"
| "PHASE_STEPS AttachingDisksToProxy = Some 4"
| "PHASE_STEPS IdentifyingBlockDevices = Some 4"
| "PHASE_STEPS CopyingChangedBlocks = Some 5"
| "PHASE_STEPS HotAddTransferInProgress = Some 5"
| "PHASE_STEPS HotAddCleanup = Some 5"
| "PHASE_STEPS ConvertingDisk = Some 6"
| "PHASE_STEPS AwaitingCutOverStartTime = Some 7"
| "PHASE_STEPS AwaitingAdminCutOver = Some 8"
| "PHASE_STEPS WaitingForLDMBootSuccess = Some 8"
| "PHASE_STEPS PromotingToVirtio = Some 8"
| "PHASE_STEPS Succeeded = Some 9"
| "PHASE_STEPS DataCopied = Some 9"
| "PHASE_STEPS Failed = Some 10"
| "PHASE_STEPS ValidationFailed = Some 11"
| "PHASE_STEPS Unknown = None"
| "PHASE_STEPS (OtherPhase s) = None"

definition AWAITING_ACTION_PHASES :: "Phase list" where
  "AWAITING_ACTION_PHASES = [AwaitingAdminCutOver, AwaitingCutOverStartTime, WaitingForLDMBootSuccess]"

definition IN_PROGRESS_PHASES :: "Phase list" where
  "IN_PROGRESS_PHASES =
     [Validating, AwaitingDataCopyStart, CopyingBlocks, CopyingChangedBlocks, SnapshottingSourceVM,
      AttachingDisksToProxy, IdentifyingBlockDevices, HotAddTransferInProgress, HotAddCleanup,
      ConvertingDisk]"

datatype MigrationStatusCategory = CInProgress | CAwaitingAction | CPending | CSucceeded | CFailed

definition getMigrationStatusCategory :: "Phase option \<Rightarrow> MigrationStatusCategory" where
  "getMigrationStatusCategory p = (case p of
       None \<Rightarrow> CPending
     | Some q \<Rightarrow>
         (if q = Pending then CPending
          else if q = Succeeded \<or> q = DataCopied then CSucceeded
          else if q = Failed \<or> q = ValidationFailed then CFailed
          else if q \<in> set AWAITING_ACTION_PHASES then CAwaitingAction
          else CInProgress))"

definition STATUS_FILTER_OPTIONS :: "string list" where
  "STATUS_FILTER_OPTIONS =
     [''All'', ''In Progress'', ''Awaiting Action'', ''Pending'', ''Succeeded'', ''Failed'']"

definition STATUS_FILTER_TO_CATEGORY :: "string \<Rightarrow> MigrationStatusCategory option" where
  "STATUS_FILTER_TO_CATEGORY =
     map_of [(''In Progress'', CInProgress), (''Awaiting Action'', CAwaitingAction),
             (''Pending'', CPending), (''Succeeded'', CSucceeded), (''Failed'', CFailed)]"

definition DATE_FILTER_WINDOW_MS :: "string \<Rightarrow> int option" where
  "DATE_FILTER_WINDOW_MS =
     map_of [(''Last 24 hours'', 24 * 60 * 60 * 1000),
             (''Last 7 days'', 7 * 24 * 60 * 60 * 1000),
             (''Last 30 days'', 30 * 24 * 60 * 60 * 1000)]"

definition matchesDateFilter :: "string option \<Rightarrow> string \<Rightarrow> int \<Rightarrow> bool" where
  "matchesDateFilter creation filt now = (case DATE_FILTER_WINDOW_MS filt of
       None \<Rightarrow> True
     | Some windowMs \<Rightarrow>
         (if \<not> str_truthy creation then False
          else (case date_parse (the creation) of
                  None \<Rightarrow> False
                | Some createdAt \<Rightarrow> now - createdAt \<le> windowMs)))"

text \<open>
  \<open>getProgressText\<close> sorts the conditions array of its caller in place, so it returns the array it
  leaves behind together with the text.
\<close>

definition progress_cmp :: "condition \<Rightarrow> condition \<Rightarrow> int" where
  "progress_cmp = newest_first cond_ms"

definition getProgressText ::
  "Phase option \<Rightarrow> condition list option \<Rightarrow> string option \<Rightarrow> int option \<Rightarrow> string \<times> condition list option" where
  "getProgressText phase conditions currentDisk totalDisks = (case phase of
       None \<Rightarrow> (''Unknown Status'', conditions)
     | Some p \<Rightarrow>
        (if p = Unknown then (''Unknown Status'', conditions)
         else
          let sorted = map_option (js_sort progress_cmp) conditions;
              latest = (case sorted of None \<Rightarrow> None | Some [] \<Rightarrow> None | Some (c # _) \<Rightarrow> c_message c);
              message = str_or latest (phase_str p);
              stepNumber = (case PHASE_STEPS p of None \<Rightarrow> 0 | Some n \<Rightarrow> n);
              hasDisks = str_truthy currentDisk \<and> totalDisks \<noteq> None \<and> totalDisks \<noteq> Some 0
                         \<and> (p = CopyingBlocks \<or> p = CopyingChangedBlocks);
              diskInfo = (if hasDisks
                then '' (disk '' @ int_str (case parse_int (the currentDisk) of None \<Rightarrow> 1 | Some k \<Rightarrow> k + 1)
                     @ ''/'' @ int_str (the totalDisks) @ '')''
                else [])
          in if p \<in> {Failed, ValidationFailed, Succeeded, DataCopied}
             then (phase_str p @ '' - '' @ message, sorted)
             else (''STEP '' @ nat_str stepNumber @ ''/'' @ nat_str 9 @ '': '' @ phase_str p @ diskInfo
                   @ '' - '' @ message, sorted)))"

text \<open>
  The order in which the controller lets a migration advance
  (\<open>VMMigrationStatesEnum\<close> in \<open>pkg/common/constants/constants.go\<close>: a phase may only be
  followed by one of an equal or greater state), on the phases the interface knows.
\<close>

fun VMMigrationStatesEnum :: "Phase \<Rightarrow> nat option" where
  "VMMigrationStatesEnum Pending = Some 0"
| "VMMigrationStatesEnum Validating = Some 1"
| "VMMigrationStatesEnum ValidationFailed = Some 2"
| "VMMigrationStatesEnum Failed = Some 3"
| "VMMigrationStatesEnum AwaitingDataCopyStart = Some 4"
| "VMMigrationStatesEnum SnapshottingSourceVM = Some 5"
| "VMMigrationStatesEnum AttachingDisksToProxy = Some 6"
| "VMMigrationStatesEnum IdentifyingBlockDevices = Some 7"
| "VMMigrationStatesEnum CopyingBlocks = Some 11"
| "VMMigrationStatesEnum HotAddTransferInProgress = Some 11"
| "VMMigrationStatesEnum HotAddCleanup = Some 12"
| "VMMigrationStatesEnum AwaitingCutOverStartTime = Some 12"
| "VMMigrationStatesEnum AwaitingAdminCutOver = Some 13"
| "VMMigrationStatesEnum CopyingChangedBlocks = Some 14"
| "VMMigrationStatesEnum ConvertingDisk = Some 15"
| "VMMigrationStatesEnum DataCopied = Some 16"
| "VMMigrationStatesEnum WaitingForLDMBootSuccess = Some 17"
| "VMMigrationStatesEnum PromotingToVirtio = Some 17"
| "VMMigrationStatesEnum Succeeded = Some 17"
| "VMMigrationStatesEnum Unknown = Some 18"
| "VMMigrationStatesEnum (OtherPhase s) =
     map_of [(''ConnectingToESXi'', 5), (''CreatingInitiatorGroup'', 6), (''CreatingVolume'', 7),
             (''ImportingToCinder'', 8), (''MappingVolume'', 9), (''RescanningStorage'', 10)] s"


section \<open>Facts about the stepper\<close>

lemma length_DESIGN_PHASE_DEFS [simp]: "length DESIGN_PHASE_DEFS = 6"
  by (simp add: DESIGN_PHASE_DEFS_def)

lemma getDesignIndex_le: "getDesignIndex p cs \<le> 5"
  by (cases p) (simp_all add: Let_def)

lemmas state_defs = succeededState_def doneState_def failedState_def activeState_def queuedState_def

text \<open>A list over the six steps that switches at step \<open>k\<close>.\<close>

lemma map_upt_switch:
  assumes "k < n"
  shows "map (\<lambda>i. if i < k then a else if i = k then b else c) [0..<n] =
         replicate k a @ [b] @ replicate (n - Suc k) c"
proof -
  have split: "[0..<n] = [0..<k] @ [k] @ [Suc k..<n]"
    using assms by (metis append_Cons append_Nil less_imp_le_nat upt_add_eq_append upt_conv_Cons zero_le
        le_Suc_ex)
  have "map (\<lambda>i. if i < k then a else if i = k then b else c) [0..<k] = map (\<lambda>i. a) [0..<k]"
    by (rule map_cong) auto
  moreover have
    "map (\<lambda>i. if i < k then a else if i = k then b else c) [Suc k..<n] = map (\<lambda>i. c) [Suc k..<n]"
    by (rule map_cong) auto
  ultimately show ?thesis
    by (simp add: split map_replicate_const)
qed

lemma status_activeState:
  "ps_status (activeState m cr cs d k paused now i) =
     (if i < k then SDone else if i = k then (if paused then SPaused else SActive) else SPending)"
  by (simp add: state_defs)

lemma status_failedState:
  "ps_status (failedState m cr cs d k i) =
     (if i < k then SDone else if i = k then SFailed else SPending)"
  by (simp add: state_defs Let_def)

lemma status_succeededState:
  "ps_status (succeededState cr cs d i) = (if d \<and> i = 3 then SPending else SDone)"
  by (simp add: state_defs Let_def)

text \<open>the stepper of a migration that has neither succeeded nor copied its data shows the steps
  before the current one as done, exactly one current step (failed, paused or active) and the rest
  as pending; the current step is the design index of the phase, raised to the clamp given by the
  caller.\<close>

theorem derive_one_current_step:
  assumes "mig_phase m = Some p" and "p \<noteq> Succeeded" and "p \<noteq> DataCopied"
    and "k = currentIndex p (mig_conditions m) opt" and "k \<le> 5"
  shows "map ps_status (derivePhaseStates m opt now) =
     replicate k SDone
     @ [if isFailed p then SFailed else if isPaused p opt then SPaused else SActive]
     @ replicate (5 - k) SPending"
proof -
  have "k < 6" using assms(5) by simp
  note switch = map_upt_switch [OF this]
  show ?thesis
    by (simp add: derivePhaseStates_def Let_def comp_def status_activeState status_failedState switch
        assms(1-3) assms(4) [symmetric])
qed

definition sample_failed :: migration where
  "sample_failed = \<lparr> m_name = ''m'', m_creation = Some ''2024-05-01T10:00:00Z'', m_data_only = None,
     m_status = Some \<lparr> st_conditions = Some [\<lparr> c_type = ''Validated'', c_status = ''True'',
         c_reason = ''Migration'', c_message = None, c_time = Some ''2024-05-01T10:01:00Z'' \<rparr>],
       st_phase = Some Failed, st_current_disk = None, st_total_disks = None \<rparr> \<rparr>"

theorem derive_one_current_step_witness:
  "map ps_status (derivePhaseStates sample_failed no_options ''2024-05-01T11:00:00Z'') =
     [SDone, SDone, SFailed, SPending, SPending, SPending]"
  using derive_one_current_step [of sample_failed Failed 2 no_options "''2024-05-01T11:00:00Z''"]
  by (simp add: sample_failed_def mig_phase_def mig_conditions_def currentIndex_def no_options_def
      has_condition_def has_true_condition_def isFailed_def Let_def eval_nat_numeral)

text \<open>a migration that has succeeded shows all six steps as done, but for the cutover step of a
  data-only migration, which is shown as skipped.\<close>

theorem derive_succeeded:
  assumes "mig_phase m = Some p" and "p \<in> {Succeeded, DataCopied}"
  shows "map ps_status (derivePhaseStates m opt now) =
    [SDone, SDone, SDone, if bool_or (m_data_only m) then SPending else SDone, SDone, SDone]"
  using assms
  by (auto simp: derivePhaseStates_def Let_def comp_def status_succeededState upt_rec)

theorem derive_succeeded_witness:
  "map ps_status (derivePhaseStates
     (sample_failed \<lparr> m_data_only := Some True,
        m_status := Some \<lparr> st_conditions = None, st_phase = Some DataCopied, st_current_disk = None,
                           st_total_disks = None \<rparr> \<rparr>) no_options ''2024-05-01T11:00:00Z'') =
     [SDone, SDone, SDone, SPending, SDone, SDone]"
  using derive_succeeded [of "sample_failed \<lparr> m_data_only := Some True,
        m_status := Some \<lparr> st_conditions = None, st_phase = Some DataCopied, st_current_disk = None,
                           st_total_disks = None \<rparr> \<rparr>" DataCopied no_options "''2024-05-01T11:00:00Z''"]
  by (simp add: sample_failed_def mig_phase_def)

text \<open>Durations and boundaries of the steps.\<close>

lemma stepElapsed_some:
  assumes "stepEndTimestamp cs step d = Some t" "str_truthy (Some t)" "date_parse t = Some e"
    and "stepStartTimestamp step cr cs d = Some u" "str_truthy (Some u)" "date_parse u = Some b"
  shows "stepElapsed step cr cs d = formatDuration (Some (e - b))"
  using assms by (simp add: stepElapsed_def durationBetween_def)

lemma date_parse_Nil [simp]: "date_parse [] = None"
  by (simp add: date_parse_def take_num_def)

lemma date_parse_truthy: "date_parse t = Some e \<Longrightarrow> str_truthy (Some t)"
  by (cases t) auto

text \<open>the end of a step is the latest of the transition times of its conditions: no matching
  condition ended later (a copy of several disks ends with its last disk, in whatever order the
  conditions are stored).\<close>

theorem stepEndTimestamp_latest:
  assumes "stepEndType step d = Some ty"
    and "\<And>c. c \<in> set cs \<Longrightarrow> c_type c = ty \<Longrightarrow> cond_ms c \<noteq> None"
    and "c \<in> set cs" and "c_type c = ty"
  shows "\<exists>c' \<in> set cs. c_type c' = ty \<and> stepEndTimestamp cs step d = c_time c'
           \<and> the (cond_ms c) \<le> the (cond_ms c')"
proof -
  let ?ms = "filter (\<lambda>c. c_type c = ty \<and> str_truthy (c_time c)) cs"
  have truthy: "str_truthy (c_time x)" if "x \<in> set cs" "c_type x = ty" for x
    using assms(2) [OF that] by (cases "c_time x") (auto simp: cond_ms_def)
  then have c: "c \<in> set ?ms" using assms(3,4) by auto
  then obtain x xs where ms: "?ms = x # xs" by (cases ?ms) auto
  let ?l = "latest_of cond_ms x xs"
  have "?l \<in> set ?ms" unfolding ms by (rule latest_of_in)
  then have l: "?l \<in> set cs" "c_type ?l = ty" by auto
  have "the (cond_ms c) \<le> the (cond_ms ?l)"
  proof (rule latest_of_max)
    fix y assume "y \<in> set (x # xs)"
    then have "y \<in> set ?ms" by (simp only: ms)
    then show "cond_ms y \<noteq> None" using assms(2) by auto
  next
    show "c \<in> set (x # xs)" using c by (simp only: ms)
  qed
  then show ?thesis
    using assms(1) ms by (intro bexI [OF _ l(1)]) (simp add: stepEndTimestamp_def l(2))
qed

definition sample_cond :: "string \<Rightarrow> string \<Rightarrow> string \<Rightarrow> condition" where
  "sample_cond ty msg t = \<lparr> c_type = ty, c_status = ''True'', c_reason = ''Migration'',
     c_message = Some msg, c_time = Some t \<rparr>"

lemmas date_eval = date_parse_def take_num_def take_char_def take_seconds_def take_fraction_def
  take_offset_def digits_val_def digit_char_def digit_val_def days_from_civil_def

definition two_disks :: "condition list" where
  "two_disks = [sample_cond ''DataCopy'' ''Copying disk 0'' ''2024-05-01T10:05:00Z'',
                sample_cond ''DataCopy'' ''Copying disk 1'' ''2024-05-01T10:20:00Z'']"

theorem stepEndTimestamp_latest_witness:
  "\<exists>c' \<in> set two_disks. c_type c' = ''DataCopy'' \<and> stepEndTimestamp two_disks 2 False = c_time c'
     \<and> the (cond_ms (two_disks ! 1)) \<le> the (cond_ms c')"
  by (rule stepEndTimestamp_latest)
    (auto simp: stepEndType_def two_disks_def sample_cond_def cond_ms_def date_eval)

text \<open>the steps of a finished migration tile its working time. When every step has its end
  boundary and no cutover was triggered by hand, each of the steps 1 to 4 starts where the one
  before it ended, and the total of the Done step, which leaves out the time in the queue, is the
  sum of their durations.\<close>

theorem step_durations_tile:
  assumes "\<And>i. i \<le> 4 \<Longrightarrow> stepEndTimestamp cs i d = Some (t i) \<and> date_parse (t i) = Some (e i)"
    and "find (\<lambda>c. c_type c = ''CutoverTriggered'') cs = None"
    and "find (\<lambda>c. c_type c = (if d then ''DataCopied'' else ''Migrated'')) cs = Some fin"
    and "c_time fin = Some (t 4)"
  shows "map ps_elapsed (map (succeededState cr cs d) [1, 2, 4]) =
           map (\<lambda>i. formatDuration (Some (e i - e (i - 1)))) [1, 2, 4]
     \<and> stepElapsed 3 cr cs d = formatDuration (Some (e 3 - e 2))
     \<and> ps_elapsed (succeededState cr cs d 5) =
           formatDuration (Some (\<Sum>i \<in> {1..4 :: nat}. e i - e (i - 1)))"
proof -
  have nt: "str_truthy (Some (t i))" if "i \<le> 4" for i
    using assms(1) [OF that] date_parse_truthy by blast
  have step: "stepElapsed i cr cs d = formatDuration (Some (e i - e (i - 1)))" if "1 \<le> i" "i \<le> 4" for i
  proof (rule stepElapsed_some)
    show "stepStartTimestamp i cr cs d = Some (t (i - 1))"
      using that assms(1) [of "i - 1"] by (simp add: stepStartTimestamp_def assms(2) or_else_def)
  qed (use that assms(1) [of i] assms(1) [of "i - 1"] nt [of i] nt [of "i - 1"] in auto)
  have e0: "stepEndTimestamp cs 0 d = Some (t 0)" and d0: "date_parse (t 0) = Some (e 0)"
    and d4: "date_parse (t 4) = Some (e 4)"
    using assms(1) [of 0] assms(1) [of 4] by auto
  have sum: "(\<Sum>i \<in> {1..4 :: nat}. e i - e (i - 1)) = e 4 - e 0"
    by (simp add: sum.atLeast_Suc_atMost numeral_eq_Suc)
  have "ps_elapsed (succeededState cr cs d 5) =
      conditionElapsed (Some (t 0)) cs (if d then ''DataCopied'' else ''Migrated'')"
    by (simp add: succeededState_def Let_def e0 or_else_def)
  also have "\<dots> = formatDuration (Some (e 4 - e 0))"
    using nt [of 0] nt [of 4] assms(3,4) d0 d4
    by (simp add: conditionElapsed_def durationBetween_def)
  finally have done_total: "ps_elapsed (succeededState cr cs d 5) =
      formatDuration (Some (\<Sum>i \<in> {1..4 :: nat}. e i - e (i - 1)))"
    by (simp only: sum)
  show ?thesis
    using step [of 1] step [of 2] step [of 3] step [of 4] done_total
    by (simp add: succeededState_def Let_def)
qed

definition full_run :: "condition list" where
  "full_run =
    [sample_cond ''PodRunning'' '''' ''2024-05-01T10:01:00Z'',
     sample_cond ''Validated'' '''' ''2024-05-01T10:02:30Z'',
     sample_cond ''DataCopy'' '''' ''2024-05-01T10:20:00Z'',
     sample_cond ''Migrating'' '''' ''2024-05-01T10:30:00Z'',
     sample_cond ''Migrated'' '''' ''2024-05-01T11:00:00Z'']"

definition full_run_time :: "nat \<Rightarrow> string" where
  "full_run_time i = [''2024-05-01T10:01:00Z'', ''2024-05-01T10:02:30Z'', ''2024-05-01T10:20:00Z'',
     ''2024-05-01T10:30:00Z'', ''2024-05-01T11:00:00Z''] ! i"

lemma le_4_cases: "(i :: nat) \<le> 4 \<Longrightarrow> i = 0 \<or> i = 1 \<or> i = 2 \<or> i = 3 \<or> i = 4"
  by arith

lemma full_run_ends: "i \<le> 4 \<Longrightarrow> stepEndTimestamp full_run i False = Some (full_run_time i)"
  by (drule le_4_cases)
    (auto simp: stepEndTimestamp_def stepEndType_def full_run_def full_run_time_def sample_cond_def
      latest_of_def)

lemma full_run_parse: "i \<le> 4 \<Longrightarrow> date_parse (full_run_time i) = Some (1714557660000 + [0, 90000, 1140000, 1740000, 3540000] ! i)"
  by (drule le_4_cases) (auto simp: full_run_time_def date_eval)

theorem step_durations_tile_witness:
  "ps_elapsed (succeededState (Some ''2024-05-01T10:00:00Z'') full_run False 5) = Some ''59m 0s''"
proof -
  have "ps_elapsed (succeededState (Some ''2024-05-01T10:00:00Z'') full_run False 5) =
      formatDuration (Some (\<Sum>i \<in> {1..4 :: nat}.
        (1714557660000 + [0, 90000, 1140000, 1740000, 3540000] ! i) -
        (1714557660000 + [0, 90000, 1140000, 1740000, 3540000 :: int] ! (i - 1))))"
    using step_durations_tile [of full_run False full_run_time
        "\<lambda>i. 1714557660000 + [0, 90000, 1140000, 1740000, 3540000] ! i"
        "sample_cond ''Migrated'' '''' ''2024-05-01T11:00:00Z''" "Some ''2024-05-01T10:00:00Z''"]
    by (simp add: full_run_ends full_run_parse) (simp add: full_run_def sample_cond_def full_run_time_def)
  also have "\<dots> = formatDuration (Some 3540000)"
    by (simp add: sum.atLeast_Suc_atMost eval_nat_numeral)
  also have "\<dots> = Some ''59m 0s''" by code_simp
  finally show ?thesis .
qed

section \<open>The stepper against the controller's order\<close>

text \<open>The options \<open>MigrationPhaseStepper\<close> passes: the clamp once the cutover was triggered.\<close>

definition stepper_options :: "bool \<Rightarrow> derive_options" where
  "stepper_options triggered =
     \<lparr> o_min_index = (if triggered then Some 3 else None), o_cutover_triggered = Some triggered \<rparr>"

text \<open>The phases that the stepper puts on its first step although the controller enters them after the validation: the wait for
  the start of the copy, and the phases of an accelerated copy, which the interface does not know.\<close>

definition first_step_phases :: "Phase list" where
  "first_step_phases = AwaitingDataCopyStart # map OtherPhase
     [''ConnectingToESXi'', ''CreatingInitiatorGroup'', ''CreatingVolume'', ''ImportingToCinder'', ''MappingVolume'',
      ''RescanningStorage'']"

text \<open>All phases with a place in the order of the controller that do not end a migration; \<open>Unknown\<close> is left out.\<close>

definition working_phases :: "Phase list" where
  "working_phases = first_step_phases @ [Pending, Validating, SnapshottingSourceVM, AttachingDisksToProxy,
     IdentifyingBlockDevices, CopyingBlocks, HotAddTransferInProgress, HotAddCleanup,
     AwaitingCutOverStartTime, AwaitingAdminCutOver, CopyingChangedBlocks, ConvertingDisk,
     WaitingForLDMBootSuccess, PromotingToVirtio]"

definition leq_state :: "Phase \<Rightarrow> Phase \<Rightarrow> bool" where
  "leq_state p q = (case VMMigrationStatesEnum p of None \<Rightarrow> False
     | Some i \<Rightarrow> (case VMMigrationStatesEnum q of None \<Rightarrow> False | Some j \<Rightarrow> i \<le> j))"

lemma design_index_mono:
  assumes "p \<in> set working_phases" and "q \<in> set working_phases" and "leq_state p q" and "q \<notin> set first_step_phases"
  shows "getDesignIndex p cs \<le> getDesignIndex q cs' \<or>
    p \<in> {AwaitingAdminCutOver, AwaitingCutOverStartTime} \<and> q \<noteq> p \<and> getDesignIndex p cs = 3"
  using assms by (auto simp: working_phases_def first_step_phases_def leq_state_def)

lemma first_step_index:
  assumes "p \<in> set working_phases"
  shows "getDesignIndex p cs = 0 \<longleftrightarrow> p \<in> set first_step_phases \<or> p = Pending"
  using assms by (auto simp: working_phases_def first_step_phases_def)

lemma before_first_step:
  assumes "p \<in> set working_phases" and "q \<in> set first_step_phases" and "leq_state p q"
  shows "getDesignIndex p cs \<le> 2"
  using assms by (auto simp: working_phases_def first_step_phases_def leq_state_def)



text \<open>the phases of a storage-accelerated copy, which the controller enters after validation and
  before the copy, are unknown to the interface: for each of them the stepper jumps back to its
  first step, waiting for an agent, and the table shows step 0.\<close>

theorem accelerated_copy_phases_unknown:
  assumes "s \<in> {''ConnectingToESXi'', ''CreatingInitiatorGroup'', ''CreatingVolume'',
                ''ImportingToCinder'', ''MappingVolume'', ''RescanningStorage''}"
    and "mig_phase m = Some (OtherPhase s)"
  shows "leq_state Validating (OtherPhase s) \<and> leq_state (OtherPhase s) CopyingBlocks
    \<and> map ps_status (derivePhaseStates m no_options now) = SActive # replicate 5 SPending
    \<and> ps_detail (hd (derivePhaseStates m no_options now)) = ''Waiting for available agent.''
    \<and> PHASE_STEPS (OtherPhase s) = None"
  using assms
  by (auto simp: leq_state_def derivePhaseStates_def Let_def currentIndex_def no_options_def
      isFailed_def isPaused_def state_defs activeDetail_def upt_rec DESIGN_PHASE_DEFS_def numeral_eq_Suc)

theorem accelerated_copy_phases_unknown_witness:
  "map ps_status (derivePhaseStates \<lparr> m_name = ''m'', m_creation = None, m_data_only = None,
     m_status = Some \<lparr> st_conditions = None, st_phase = Some (OtherPhase ''CreatingVolume''),
       st_current_disk = None, st_total_disks = None \<rparr> \<rparr> no_options '''') = SActive # replicate 5 SPending"
  using accelerated_copy_phases_unknown [of "''CreatingVolume''"]
  by (simp add: mig_phase_def)

text \<open>the chip colour, the summary category and the stepper agree on every phase: green is exactly
  the succeeded category, red the failed one, amber the one that awaits an action, and those are
  the phases the stepper shows as paused.\<close>

theorem colour_category_agree:
  "(getPhaseColorKey p = Success) = (getMigrationStatusCategory p = CSucceeded)
   \<and> (getPhaseColorKey p = Error) = (getMigrationStatusCategory p = CFailed)
   \<and> (getPhaseColorKey p = Warning) = (getMigrationStatusCategory p = CAwaitingAction)
   \<and> (getMigrationStatusCategory p = CAwaitingAction) = (case p of None \<Rightarrow> False | Some q \<Rightarrow> isPaused q no_options)
   \<and> (getMigrationStatusCategory p = CFailed) = (case p of None \<Rightarrow> False | Some q \<Rightarrow> isFailed q)
   \<and> (getMigrationStatusCategory p = CInProgress) =
       (case p of None \<Rightarrow> False
        | Some q \<Rightarrow> q \<in> set IN_PROGRESS_PHASES \<union> {PromotingToVirtio, Unknown} \<or> (\<exists>s. q = OtherPhase s))"
proof (cases p)
  case None
  then show ?thesis by (simp add: getPhaseColorKey_def getMigrationStatusCategory_def)
next
  case (Some q)
  then show ?thesis
    by (cases q) (simp_all add: getPhaseColorKey_def getMigrationStatusCategory_def isPaused_def
        isFailed_def no_options_def AWAITING_ACTION_PHASES_def IN_PROGRESS_PHASES_def)
qed

section \<open>Facts about the table\<close>

interpretation tcmp: js_comparator "\<lambda>c. cond_ms c \<noteq> None" progress_cmp
  unfolding progress_cmp_def by (rule js_comparator_newest_first)

text \<open>the progress text of a known phase ends with the message of the newest condition, and the
  conditions array of the caller is left sorted newest first, with the same elements.\<close>

theorem getProgressText_newest:
  assumes "\<And>c. c \<in> set cs \<Longrightarrow> cond_ms c \<noteq> None" and "c \<in> set cs" and "p \<noteq> Unknown"
    and "getProgressText (Some p) (Some cs) cd td = (text, left)"
  shows "\<exists>newest rest pre. left = Some (newest # rest) \<and> mset (newest # rest) = mset cs
     \<and> the (cond_ms c) \<le> the (cond_ms newest)
     \<and> text = pre @ '' - '' @ str_or (c_message newest) (phase_str p)"
proof -
  obtain newest rest where s: "js_sort progress_cmp cs = newest # rest"
    using assms(2) by (cases "js_sort progress_cmp cs") auto
  have all: "list_all (\<lambda>c. cond_ms c \<noteq> None) cs" using assms(1) by (simp add: list_all_iff)
  have ms: "mset (newest # rest) = mset cs" by (metis mset_js_sort s)
  then have n: "newest \<in> set cs" by (metis list.set_intros(1) set_mset_mset)
  have "progress_cmp newest c \<le> 0"
    using tcmp.js_sort_hd_least [OF all assms(2)] by (simp add: s)
  then have le: "the (cond_ms c) \<le> the (cond_ms newest)"
    using newest_first_le [of cond_ms newest c] assms(1) [OF assms(2)] assms(1) [OF n]
    by (simp add: progress_cmp_def)
  have left: "left = Some (newest # rest)"
    using assms(3,4) s by (auto simp: getProgressText_def Let_def split: if_splits)
  have "\<exists>pre. text = pre @ '' - '' @ str_or (c_message newest) (phase_str p)"
    using assms(3,4) s by (auto simp: getProgressText_def Let_def simp flip: append_assoc split: if_splits)
  then show ?thesis using left ms le by blast
qed

theorem getProgressText_newest_witness:
  "\<exists>newest rest pre. snd (getProgressText (Some CopyingBlocks) (Some two_disks) None None) = Some (newest # rest)
     \<and> mset (newest # rest) = mset two_disks
     \<and> the (cond_ms (two_disks ! 0)) \<le> the (cond_ms newest)
     \<and> fst (getProgressText (Some CopyingBlocks) (Some two_disks) None None)
         = pre @ '' - '' @ str_or (c_message newest) (phase_str CopyingBlocks)"
  by (rule getProgressText_newest)
    (auto simp: two_disks_def sample_cond_def cond_ms_def date_eval)

text \<open>the in-place sort is visible elsewhere: after the table has rendered its progress text, the
  stepper describes the finished copy of the very same migration by another disk than before.\<close>

theorem progress_text_changes_stepper:
  "\<exists>m cs cs'. mig_conditions m = cs
     \<and> snd (getProgressText (mig_phase m) (Some cs) None None) = Some cs'
     \<and> map ps_detail (derivePhaseStates m no_options now) \<noteq>
       map ps_detail (derivePhaseStates
         (m\<lparr> m_status := map_option (st_conditions_update (\<lambda>_. Some cs')) (m_status m) \<rparr>) no_options now)"
proof (intro exI conjI)
  let ?m = "\<lparr> m_name = ''m'', m_creation = None, m_data_only = None,
      m_status = Some \<lparr> st_conditions = Some two_disks, st_phase = Some ConvertingDisk,
        st_current_disk = None, st_total_disks = None \<rparr> \<rparr>"
  show "mig_conditions ?m = two_disks" by (simp add: mig_conditions_def)
  show "snd (getProgressText (mig_phase ?m) (Some two_disks) None None) = Some (rev two_disks)"
    by (simp add: mig_phase_def getProgressText_def Let_def js_sort_def progress_cmp_def newest_first_def
        two_disks_def sample_cond_def cond_ms_def date_eval)
  show "map ps_detail (derivePhaseStates ?m no_options now) \<noteq>
      map ps_detail (derivePhaseStates
        (?m\<lparr> m_status := map_option (st_conditions_update (\<lambda>_. Some (rev two_disks))) (m_status ?m) \<rparr>)
        no_options now)"
    by (simp add: mig_phase_def mig_conditions_def derivePhaseStates_def Let_def currentIndex_def
        no_options_def isFailed_def state_defs doneDetail_def two_disks_def sample_cond_def upt_rec
        DESIGN_PHASE_DEFS_def)
qed

end
