(* ===== verification/Js_Regex.thy ===== *)
theory Js_Regex
  imports Js_Prelude
begin

text \<open>
  JavaScript regular expressions as backtracking matchers. A matcher maps a position (the text
  already read, reversed, and the text left) to the positions where it can stop, in the order in
  which the engine tries them; the engine takes the first. \<open>re_lang\<close> says which words a matcher
  reads, and the rules of the collection \<open>re_intros\<close> compute it along the structure of the pattern,
  so that a pattern's language is proved without looking at the search.
\<close>

named_theorems re_intros \<open>the language of a pattern from the languages of its parts\<close>

type_synonym re_pos = "string \<times> string"
type_synonym re = "re_pos \<Rightarrow> re_pos list"

definition re_char :: "(char \<Rightarrow> bool) \<Rightarrow> re" where
  "re_char P p = (case p of (d, []) \<Rightarrow> [] | (d, c # r) \<Rightarrow> if P c then [(c # d, r)] else [])"

definition re_seq :: "re \<Rightarrow> re \<Rightarrow> re" where
  "re_seq a b p = concat (map b (a p))"

definition re_alt :: "re \<Rightarrow> re \<Rightarrow> re" where
  "re_alt a b p = a p @ b p"

definition re_opt :: "re \<Rightarrow> re" where
  "re_opt a p = a p @ [p]"

fun re_star :: "(char \<Rightarrow> bool) \<Rightarrow> re" where
  "re_star P (d, []) = [(d, [])]"
| "re_star P (d, c # r) = (if P c then re_star P (c # d, r) else []) @ [(d, c # r)]"

definition re_plus :: "(char \<Rightarrow> bool) \<Rightarrow> re" where
  "re_plus P = re_seq (re_char P) (re_star P)"

fun re_word :: "string \<Rightarrow> re" where
  "re_word [] p = [p]"
| "re_word (c # w) p = re_seq (re_char (\<lambda>x. x = c)) (re_word w) p"

section \<open>Searching\<close>

definition re_test_full :: "re \<Rightarrow> string \<Rightarrow> bool" where
  "re_test_full re s = list_ex (\<lambda>p. snd p = []) (re ([], s))"

text \<open>\<open>s.match(/re/g)\<close>: all matches from left to right; \<open>d\<close> is the text before.\<close>

function re_match_all :: "re \<Rightarrow> string \<Rightarrow> string \<Rightarrow> string list" where
  "re_match_all re d s =
     (case re (d, s) of
        (d', s') # _ \<Rightarrow>
          (if length s' < length s
           then take (length s - length s') s # re_match_all re d' s'
           else [] # (case s of [] \<Rightarrow> [] | c # r \<Rightarrow> re_match_all re (c # d) r))
      | [] \<Rightarrow> (case s of [] \<Rightarrow> [] | c # r \<Rightarrow> re_match_all re (c # d) r))"
  by pat_completeness auto
termination
  by (relation "measure (\<lambda>(re, d, s). length s)") auto

declare re_match_all.simps [simp del]

text \<open>\<open>s.split(/re/)\<close> for a pattern that reads at least one character; \<open>p\<close> is the current piece, reversed.\<close>

function re_split :: "re \<Rightarrow> string \<Rightarrow> string \<Rightarrow> string \<Rightarrow> string list" where
  "re_split re d p s =
     (case s of
        [] \<Rightarrow> [rev p]
      | c # r \<Rightarrow>
          (case re (d, s) of
             (d', s') # _ \<Rightarrow>
               (if length s' < length s then rev p # re_split re d' [] s'
                else re_split re (c # d) (c # p) r)
           | [] \<Rightarrow> re_split re (c # d) (c # p) r))"
  by pat_completeness auto
termination
  by (relation "measure (\<lambda>(re, d, p, s). length s)") auto

declare re_split.simps [simp del]

section \<open>Languages\<close>

definition re_lang :: "re \<Rightarrow> string set \<Rightarrow> bool" where
  "re_lang re L =
     (\<forall>d s d' s'. (d', s') \<in> set (re (d, s)) \<longleftrightarrow> (\<exists>w \<in> L. s = w @ s' \<and> d' = rev w @ d))"

definition lang_seq :: "string set \<Rightarrow> string set \<Rightarrow> string set" where
  "lang_seq A B = {u @ v | u v. u \<in> A \<and> v \<in> B}"

lemma re_langD:
  "re_lang re L \<Longrightarrow> (d', s') \<in> set (re (d, s)) \<longleftrightarrow> (\<exists>w \<in> L. s = w @ s' \<and> d' = rev w @ d)"
  by (simp add: re_lang_def)

lemma re_lang_char [re_intros]: "re_lang (re_char P) {[c] | c. P c}"
  by (auto simp: re_lang_def re_char_def split: list.splits if_splits)

lemma re_lang_seq [re_intros]:
  assumes "re_lang a A" and "re_lang b B"
  shows "re_lang (re_seq a b) (lang_seq A B)"
  unfolding re_lang_def
proof (intro allI iffI)
  fix d s d' s'
  assume "(d', s') \<in> set (re_seq a b (d, s))"
  then obtain d1 s1 where 1: "(d1, s1) \<in> set (a (d, s))" "(d', s') \<in> set (b (d1, s1))"
    by (auto simp: re_seq_def)
  from 1(1) obtain u where u: "u \<in> A" "s = u @ s1" "d1 = rev u @ d"
    by (auto simp: re_langD [OF assms(1)])
  from 1(2) obtain v where "v \<in> B" "s1 = v @ s'" "d' = rev v @ d1"
    by (auto simp: re_langD [OF assms(2)])
  with u show "\<exists>w \<in> lang_seq A B. s = w @ s' \<and> d' = rev w @ d"
    by (intro bexI [of _ "u @ v"]) (auto simp: lang_seq_def)
next
  fix d s d' s'
  assume "\<exists>w \<in> lang_seq A B. s = w @ s' \<and> d' = rev w @ d"
  then obtain u v where uv: "u \<in> A" "v \<in> B" "s = u @ v @ s'" "d' = rev v @ rev u @ d"
    by (auto simp: lang_seq_def)
  have "(rev u @ d, v @ s') \<in> set (a (d, s))"
    using uv by (auto simp: re_langD [OF assms(1)])
  moreover have "(d', s') \<in> set (b (rev u @ d, v @ s'))"
    using uv by (auto simp: re_langD [OF assms(2)])
  ultimately show "(d', s') \<in> set (re_seq a b (d, s))"
    by (force simp: re_seq_def)
qed

lemma re_lang_alt [re_intros]: "re_lang a A \<Longrightarrow> re_lang b B \<Longrightarrow> re_lang (re_alt a b) (A \<union> B)"
  by (auto simp: re_lang_def re_alt_def)

lemma re_lang_opt [re_intros]: "re_lang a A \<Longrightarrow> re_lang (re_opt a) (insert [] A)"
  by (auto simp: re_lang_def re_opt_def)

lemma re_lang_mono: "re_lang re L \<Longrightarrow> L = M \<Longrightarrow> re_lang re M"
  by simp

lemma re_test_full_lang: "re_lang re L \<Longrightarrow> re_test_full re s \<longleftrightarrow> s \<in> L"
proof -
  have "re_test_full re s \<longleftrightarrow> (\<exists>d'. (d', []) \<in> set (re ([], s)))"
    unfolding re_test_full_def list_ex_iff by (metis prod.collapse snd_conv)
  moreover assume "re_lang re L"
  ultimately show ?thesis by (simp add: re_langD)
qed

lemma re_lang_first:
  assumes "re_lang re L" and "re (d, s) = (d', s') # ps"
  shows "\<exists>w \<in> L. s = w @ s' \<and> d' = rev w @ d"
  using assms by (metis list.set_intros(1) re_langD)

lemma re_lang_none:
  assumes "re_lang re L" and "re (d, s) = []" and "w \<in> L"
  shows "s \<noteq> w @ r"
  using assms re_langD [OF assms(1), of "rev w @ d" r d s] by auto

text \<open>One half of \<open>re_lang\<close>, for the patterns whose matches depend on the text around them.\<close>

definition re_reads :: "re \<Rightarrow> string set \<Rightarrow> bool" where
  "re_reads re L =
     (\<forall>d s d' s'. (d', s') \<in> set (re (d, s)) \<longrightarrow> (\<exists>w \<in> L. s = w @ s' \<and> d' = rev w @ d))"

lemma re_lang_reads: "re_lang re L \<Longrightarrow> re_reads re L"
  by (simp add: re_lang_def re_reads_def)

lemma re_reads_seq:
  assumes "re_reads a A" and "re_reads b B"
  shows "re_reads (re_seq a b) (lang_seq A B)"
  unfolding re_reads_def
proof (intro allI impI)
  fix d s d' s'
  assume "(d', s') \<in> set (re_seq a b (d, s))"
  then obtain d1 s1 where 1: "(d1, s1) \<in> set (a (d, s))" "(d', s') \<in> set (b (d1, s1))"
    by (auto simp: re_seq_def)
  obtain u where u: "u \<in> A" "s = u @ s1" "d1 = rev u @ d"
    using assms(1) 1(1) unfolding re_reads_def by blast
  obtain v where "v \<in> B" "s1 = v @ s'" "d' = rev v @ d1"
    using assms(2) 1(2) unfolding re_reads_def by blast
  with u show "\<exists>w \<in> lang_seq A B. s = w @ s' \<and> d' = rev w @ d"
    by (intro bexI [of _ "u @ v"]) (auto simp: lang_seq_def)
qed

lemma re_reads_first:
  assumes "re_reads re L" and "re (d, s) = (d', s') # ps"
  shows "\<exists>w \<in> L. s = w @ s' \<and> d' = rev w @ d"
  using assms by (metis list.set_intros(1) re_reads_def)

lemma re_match_all_step:
  assumes "re_reads re L" and "[] \<notin> L" and "re (d, s) = p # ps"
  shows "\<exists>w \<in> L. w \<noteq> [] \<and> s = w @ snd p \<and> re_match_all re d s = w # re_match_all re (rev w @ d) (snd p)"
proof -
  obtain d' s' where p: "p = (d', s')" by (cases p)
  then obtain w where w: "w \<in> L" "s = w @ s'" "d' = rev w @ d"
    using re_reads_first [OF assms(1)] assms(3) by blast
  moreover from w assms(2) have "w \<noteq> []" by auto
  moreover have "re_match_all re d (w @ s') = w # re_match_all re (rev w @ d) s'"
    using assms(3) p w \<open>w \<noteq> []\<close> by (simp add: re_match_all.simps [of re d "w @ s'"])
  ultimately show ?thesis using p by auto
qed

lemma re_match_all_skip:
  "re (d, c # r) = [] \<Longrightarrow> re_match_all re d (c # r) = re_match_all re (c # d) r"
  "re (d, []) = [] \<Longrightarrow> re_match_all re d [] = []"
  by (simp_all add: re_match_all.simps [of re d])

text \<open>Every match is a word of the language that occurs in the text.\<close>

lemma re_match_all_sound:
  assumes "re_reads re L" and "[] \<notin> L"
  shows "m \<in> set (re_match_all re d s) \<Longrightarrow> m \<in> L \<and> (\<exists>pre post. s = pre @ m @ post)"
proof (induction "length s" arbitrary: d s rule: less_induct)
  case less
  show ?case
  proof (cases "re (d, s)")
    case Nil
    show ?thesis
    proof (cases s)
      case (Cons c r)
      then have "m \<in> set (re_match_all re (c # d) r)"
        using less.prems Nil by (simp add: re_match_all_skip)
      then have "m \<in> L \<and> (\<exists>pre post. r = pre @ m @ post)"
        using less.hyps [of r] Cons by simp
      then show ?thesis by (metis Cons append_Cons)
    qed (use less.prems Nil re_match_all_skip in auto)
  next
    case (Cons p ps)
    obtain w where w: "w \<in> L" "w \<noteq> []" "s = w @ snd p"
      "re_match_all re d s = w # re_match_all re (rev w @ d) (snd p)"
      using re_match_all_step [where re = re, OF assms Cons] by blast
    have "m \<in> L \<and> (\<exists>pre post. snd p = pre @ m @ post)" if "m \<noteq> w"
      using less.hyps [of "snd p"] less.prems w that by simp
    then show ?thesis
      using w by (cases "m = w") (metis append_Nil, metis append.assoc)
  qed
qed

text \<open>No match at all means that no word of the language occurs.\<close>

lemma re_match_all_complete:
  assumes "re_lang re L" and "[] \<notin> L"
  shows "re_match_all re d s = [] \<Longrightarrow> m \<in> L \<Longrightarrow> s \<noteq> pre @ m @ post"
proof (induction pre arbitrary: d s)
  case (Cons c pre)
  show ?case
  proof
    assume s: "s = (c # pre) @ m @ post"
    have "re (d, s) = []"
      using Cons.prems(1) re_match_all_step [where re = re, OF re_lang_reads [OF assms(1)] assms(2)]
      by (cases "re (d, s)") fastforce+
    then have "re_match_all re (c # d) (pre @ m @ post) = []"
      using Cons.prems(1) by (simp add: s re_match_all_skip)
    then show False using Cons.IH Cons.prems(2) by blast
  qed
next
  case Nil
  have "re (d, s) = []"
    using Nil.prems(1) re_match_all_step [where re = re, OF re_lang_reads [OF assms(1)] assms(2)]
    by (cases "re (d, s)") fastforce+
  then show ?case using re_lang_none [OF assms(1) _ Nil.prems(2)] by simp
qed

section \<open>Splitting\<close>

lemma re_split_Nil [simp]: "re_split re d p [] = [rev p]"
  by (simp add: re_split.simps)

lemma re_split_skip: "re (d, c # r) = [] \<Longrightarrow> re_split re d p (c # r) = re_split re (c # d) (c # p) r"
  by (simp add: re_split.simps [of re d p "c # r"])

lemma re_split_hit:
  "re (d, c # r) = (d', s') # ps \<Longrightarrow> length s' < length (c # r) \<Longrightarrow>
   re_split re d p (c # r) = rev p # re_split re d' [] s'"
  by (simp add: re_split.simps [of re d p "c # r"])

text \<open>A stretch of text at no position of which the separator matches belongs to one piece.\<close>

lemma re_split_stretch:
  assumes "\<And>d c r. c \<in> set u \<Longrightarrow> re (d, c # r) = []"
  shows "re_split re d p (u @ s) = re_split re (rev u @ d) (rev u @ p) s"
  using assms
proof (induction u arbitrary: d p)
  case (Cons c u)
  then show ?case by (simp add: re_split_skip)
qed simp

end
