(* ===== verification/Ip_Validation.thy ===== *)
theory Ip_Validation
  imports Js_Regex
begin

text \<open>
  The address utilities of the migration form: \<open>ui/src/features/migration/utils/ipValidation.ts\<close>,
  \<open>vmNetworking.ts\<close> and \<open>subnetMismatch.ts\<close>. The regular expressions are built with the matchers of
  \<open>Js_Regex\<close>, alternatives in the order of the source.
\<close>

section \<open>ipValidation\<close>

definition char_in :: "string \<Rightarrow> char \<Rightarrow> bool" where
  "char_in cs c = (c \<in> set cs)"

text \<open>\<open>25[0-5]|2[0-4][0-9]|[01]?[0-9][0-9]?\<close>\<close>

definition octet_re :: re where
  "octet_re =
     re_alt (re_seq (re_char (char_in ''2'')) (re_seq (re_char (char_in ''5'')) (re_char (char_in ''012345''))))
    (re_alt (re_seq (re_char (char_in ''2'')) (re_seq (re_char (char_in ''01234'')) (re_char digit_char)))
            (re_seq (re_opt (re_char (char_in ''01''))) (re_seq (re_char digit_char) (re_opt (re_char digit_char)))))"

definition dot_re :: re where
  "dot_re = re_char (char_in ''.'')"

definition IPV4_REGEX :: re where
  "IPV4_REGEX =
     re_seq octet_re (re_seq dot_re (re_seq octet_re (re_seq dot_re
       (re_seq octet_re (re_seq dot_re octet_re)))))"

definition extractFirstIPv4 :: "string \<Rightarrow> string" where
  "extractFirstIPv4 value =
     (if value = [] then []
      else (case re_match_all IPV4_REGEX [] value of [] \<Rightarrow> [] | m # _ \<Rightarrow> m))"

definition hasMultipleIPv4 :: "string \<Rightarrow> bool" where
  "hasMultipleIPv4 value =
     (if value = [] then False else length (re_match_all IPV4_REGEX [] value) > 1)"

text \<open>The separator \<open>\s*,\s*\<close>.\<close>

definition comma_re :: re where
  "comma_re = re_seq (re_star js_space) (re_seq (re_char (char_in '','')) (re_star js_space))"

definition parseIpList :: "string \<Rightarrow> string list" where
  "parseIpList value =
     (let trimmed = js_trim value
      in if trimmed = [] then [] else filter (\<lambda>v. v \<noteq> []) (re_split comma_re [] [] trimmed))"

definition hasMultipleIpEntries :: "string \<Rightarrow> bool" where
  "hasMultipleIpEntries value = (length (parseIpList value) > 1)"

definition isValidIPAddress :: "string \<Rightarrow> bool" where
  "isValidIPAddress value = re_test_full IPV4_REGEX value"

definition isValidIPAddressList :: "string \<Rightarrow> bool" where
  "isValidIPAddressList value =
     (let ips = parseIpList value in if length ips = 0 then False else list_all isValidIPAddress ips)"

section \<open>vmNetworking and subnetMismatch\<close>

text \<open>A network interface: \<open>mac\<close>, \<open>network\<close>, \<open>ipAddress\<close> and the two preserve flags.\<close>

record vm_nic =
  nic_mac :: string
  nic_network :: string
  nic_ips :: "string list"
  nic_preserve_ip :: "bool option"
  nic_preserve_mac :: "bool option"

definition vmHasInterface :: "string list option \<Rightarrow> vm_nic list option \<Rightarrow> bool" where
  "vmHasInterface networks nics = (nonempty_opt networks \<or> nonempty_opt nics)"

definition vmHasIp :: "string option \<Rightarrow> string option \<Rightarrow> vm_nic list option \<Rightarrow> bool" where
  "vmHasIp assignedIPs ipAddress nics =
     (if str_truthy assignedIPs \<and> js_trim (the assignedIPs) \<noteq> [] then True
      else if str_truthy ipAddress \<and> the ipAddress \<noteq> em_dash \<and> js_trim (the ipAddress) \<noteq> [] then True
      else list_ex (\<lambda>nic. list_ex (\<lambda>ip. ip \<noteq> [] \<and> js_trim ip \<noteq> []) (nic_ips nic)) (list_or nics))"

definition hasAnySubnetMismatch :: "string sobj option \<Rightarrow> bool" where
  "hasAnySubnetMismatch subnetWarnings = (case subnetWarnings of
       None \<Rightarrow> False
     | Some w \<Rightarrow> list_ex (\<lambda>warning. warning \<noteq> [] \<and> js_trim warning \<noteq> []) (obj_vals w))"

definition nicPreserveDisabled :: "bool iobj option \<Rightarrow> nat \<Rightarrow> vm_nic \<Rightarrow> bool" where
  "nicPreserveDisabled overrides index nic =
     (case (case overrides of None \<Rightarrow> None | Some m \<Rightarrow> map_of m index) of
        Some flag \<Rightarrow> flag = False
      | None \<Rightarrow> nic_preserve_ip nic = Some False)"

definition vmPreserveIpDisabled :: "bool iobj option \<Rightarrow> vm_nic list option \<Rightarrow> bool" where
  "vmPreserveIpDisabled overrides nics =
     (if nonempty_opt nics
      then list_ex (\<lambda>(index, nic). nicPreserveDisabled overrides index nic) (enumerate 0 (list_or nics))
      else (case overrides of
              None \<Rightarrow> False
            | Some m \<Rightarrow> list_ex (\<lambda>flag. flag = False) (obj_vals m)))"

definition hasAnyPreserveIpDisabled :: "(bool iobj option \<times> vm_nic list option) list option \<Rightarrow> bool" where
  "hasAnyPreserveIpDisabled vms = (case vms of
       None \<Rightarrow> False
     | Some vs \<Rightarrow> list_ex (\<lambda>(overrides, nics). vmPreserveIpDisabled overrides nics) vs)"

section \<open>What an address is\<close>

definition is_octet :: "string \<Rightarrow> bool" where
  "is_octet w = (w \<noteq> [] \<and> length w \<le> 3 \<and> list_all digit_char w \<and> digits_val w \<le> 255)"

definition is_dotted_quad :: "string \<Rightarrow> bool" where
  "is_dotted_quad s =
     (\<exists>a b c d. is_octet a \<and> is_octet b \<and> is_octet c \<and> is_octet d \<and>
        s = a @ ''.'' @ b @ ''.'' @ c @ ''.'' @ d)"

lemma digit_cases:
  "digit_char c \<Longrightarrow> c \<in> set ''0123456789''"
  by (simp add: digit_char_def)

lemma char_in_digits:
  "char_in ''2'' c \<longleftrightarrow> digit_char c \<and> digit_val c = 2"
  "char_in ''5'' c \<longleftrightarrow> digit_char c \<and> digit_val c = 5"
  "char_in ''012345'' c \<longleftrightarrow> digit_char c \<and> digit_val c \<le> 5"
  "char_in ''01234'' c \<longleftrightarrow> digit_char c \<and> digit_val c \<le> 4"
  "char_in ''01'' c \<longleftrightarrow> digit_char c \<and> digit_val c \<le> 1"
  by (auto simp: char_in_def digit_char_def digit_val_def)

lemma digits_val_Cons2 [simp]:
  "digits_val [a] = digit_val a"
  "digits_val [a, b] = 10 * digit_val a + digit_val b"
  "digits_val [a, b, c] = 100 * digit_val a + 10 * digit_val b + digit_val c"
  by (simp_all add: digits_val_def)

lemma lang_seq_char: "lang_seq {[c] | c. P c} B = {c # w | c w. P c \<and> w \<in> B}"
proof (rule set_eqI)
  fix x
  have "x \<in> lang_seq {[c] | c. P c} B \<longleftrightarrow> (\<exists>u v. x = u @ v \<and> (\<exists>c. u = [c] \<and> P c) \<and> v \<in> B)"
    by (simp add: lang_seq_def)
  also have "\<dots> \<longleftrightarrow> (\<exists>c v. x = c # v \<and> P c \<and> v \<in> B)"
    by (metis append_Cons append_Nil)
  finally show "x \<in> lang_seq {[c] | c. P c} B \<longleftrightarrow> x \<in> {c # w | c w. P c \<and> w \<in> B}"
    by simp
qed

lemma lang_seq_opt: "lang_seq (insert [] A) B = B \<union> lang_seq A B"
  by (auto simp: lang_seq_def)

definition octet_lang :: "string set" where
  "octet_lang =
     {a # w | a w. char_in ''2'' a \<and> w \<in> {b # v | b v. char_in ''5'' b \<and> v \<in> {[c] | c. char_in ''012345'' c}}}
   \<union> ({a # w | a w. char_in ''2'' a \<and> w \<in> {b # v | b v. char_in ''01234'' b \<and> v \<in> {[c] | c. digit_char c}}}
   \<union> ({b # v | b v. digit_char b \<and> v \<in> insert [] {[c] | c. digit_char c}}
      \<union> {a # w | a w. char_in ''01'' a \<and>
           w \<in> {b # v | b v. digit_char b \<and> v \<in> insert [] {[c] | c. digit_char c}}}))"

lemma octet_re_lang: "re_lang octet_re octet_lang"
  unfolding octet_re_def
  by (rule re_lang_mono, (rule re_intros)+) (simp only: lang_seq_char lang_seq_opt octet_lang_def)

lemma octet_lang_1: "[a] \<in> octet_lang \<longleftrightarrow> digit_char a"
  by (simp add: octet_lang_def)

lemma octet_lang_2: "[a, b] \<in> octet_lang \<longleftrightarrow> digit_char a \<and> digit_char b"
  by (auto simp: octet_lang_def char_in_digits)

lemma octet_lang_3:
  "[a, b, c] \<in> octet_lang \<longleftrightarrow>
     digit_char a \<and> digit_char b \<and> digit_char c \<and>
     (digit_val a \<le> 1 \<or> digit_val a = 2 \<and> (digit_val b \<le> 4 \<or> digit_val b = 5 \<and> digit_val c \<le> 5))"
  by (auto simp: octet_lang_def char_in_digits)

lemma octet_lang_length: "w \<in> octet_lang \<Longrightarrow> length w = 1 \<or> length w = 2 \<or> length w = 3"
  by (auto simp: octet_lang_def)

lemma three_digits_255:
  assumes "0 \<le> x" "0 \<le> y" "0 \<le> z" "x < 10" "y < 10" "z < (10 :: int)"
  shows "100 * x + 10 * y + z \<le> 255 \<longleftrightarrow> x \<le> 1 \<or> x = 2 \<and> (y \<le> 4 \<or> y = 5 \<and> z \<le> 5)"
proof -
  consider "x \<le> 1" | "x = 2" "y \<le> 4" | "x = 2" "y = 5" | "x = 2" "6 \<le> y" | "3 \<le> x"
    by linarith
  then show ?thesis
    by cases (use assms in \<open>simp; linarith\<close>)+
qed

lemma octet_lang_iff: "w \<in> octet_lang \<longleftrightarrow> is_octet w"
proof (cases "length w = 1 \<or> length w = 2 \<or> length w = 3")
  case False
  then have "w \<notin> octet_lang" using octet_lang_length by blast
  moreover have "\<not> is_octet w" using False unfolding is_octet_def
    by (cases "length w") (auto simp: le_Suc_eq numeral_eq_Suc)
  ultimately show ?thesis by simp
next
  case True
  then consider a where "w = [a]" | a b where "w = [a, b]" | a b c where "w = [a, b, c]"
    by (fastforce simp: length_Suc_conv numeral_eq_Suc)
  then show ?thesis
  proof cases
    case (1 a)
    have "digit_val a \<le> 255" using digit_val_less [of a] by linarith
    with 1 show ?thesis by (simp add: octet_lang_1 is_octet_def)
  next
    case (2 a b)
    have "10 * digit_val a + digit_val b \<le> 255"
      using digit_val_less [of a] digit_val_less [of b] by linarith
    with 2 show ?thesis by (simp add: octet_lang_2 is_octet_def)
  next
    case (3 a b c)
    then show ?thesis by (auto simp: octet_lang_3 is_octet_def three_digits_255)
  qed
qed

section \<open>The patterns\<close>

lemma dot_re_lang: "re_lang dot_re {''.''}"
  unfolding dot_re_def by (rule re_lang_mono, rule re_intros) (auto simp: char_in_def)

lemma octet_re_octets: "re_lang octet_re {w. is_octet w}"
  by (rule re_lang_mono [OF octet_re_lang]) (simp add: set_eq_iff octet_lang_iff)

lemma lang_seq_mem: "x \<in> lang_seq A B \<longleftrightarrow> (\<exists>u v. x = u @ v \<and> u \<in> A \<and> v \<in> B)"
  by (simp add: lang_seq_def)

lemma lang_seq_dot: "x \<in> lang_seq {''.''} B \<longleftrightarrow> (\<exists>v. x = ''.'' @ v \<and> v \<in> B)"
  by (simp add: lang_seq_mem)

lemma IPV4_lang: "re_lang IPV4_REGEX {s. is_dotted_quad s}"
  unfolding IPV4_REGEX_def
proof (rule re_lang_mono, (rule re_lang_seq octet_re_octets dot_re_lang)+)
  show "lang_seq {w. is_octet w} (lang_seq {''.''} (lang_seq {w. is_octet w} (lang_seq {''.''}
          (lang_seq {w. is_octet w} (lang_seq {''.''} {w. is_octet w}))))) = {s. is_dotted_quad s}"
    by (rule set_eqI, simp only: lang_seq_mem [of _ "{w. is_octet w}"] lang_seq_dot is_dotted_quad_def mem_Collect_eq)
      blast
qed

lemma dotted_quad_nonempty: "[] \<notin> {s. is_dotted_quad s}"
  by (simp add: is_dotted_quad_def)

lemmas ipv4_sound = re_match_all_sound [OF re_lang_reads [OF IPV4_lang] dotted_quad_nonempty, simplified]
lemmas ipv4_complete = re_match_all_complete [OF IPV4_lang dotted_quad_nonempty, simplified]

lemma ipv4_full: "re_test_full IPV4_REGEX s \<longleftrightarrow> is_dotted_quad s"
  using re_test_full_lang [OF IPV4_lang] by simp

lemma extractFirstIPv4_matches:
  "extractFirstIPv4 value = (case re_match_all IPV4_REGEX [] value of [] \<Rightarrow> [] | m # _ \<Rightarrow> m)"
proof (cases "value = []")
  case True
  have "IPV4_REGEX ([], []) = []"
    using re_lang_first [OF IPV4_lang, of "[]" "[]"] dotted_quad_nonempty
    by (cases "IPV4_REGEX ([], [])") auto
  with True show ?thesis by (simp add: extractFirstIPv4_def re_match_all_skip)
qed (simp add: extractFirstIPv4_def)

text \<open>Every entry of an address list has no comma and is not empty.\<close>

lemma re_star_hd: "\<exists>ps. re_star P (d, s) = (rev (takeWhile P s) @ d, dropWhile P s) # ps"
proof (induction s arbitrary: d)
  case (Cons c s)
  then obtain ps where "re_star P (c # d, s) = (rev (takeWhile P s) @ c # d, dropWhile P s) # ps"
    by blast
  then show ?case by simp
qed simp

lemma comma_re_comma:
  "\<exists>ps. comma_re (d, CHR '','' # r) = (rev (takeWhile js_space r) @ CHR '','' # d, dropWhile js_space r) # ps"
  using re_star_hd [of js_space "CHR '','' # d" r]
  by (auto simp: comma_re_def re_seq_def re_char_def char_in_def js_space_def)

definition ip_entry :: "string \<Rightarrow> bool" where
  "ip_entry e = (e \<noteq> [] \<and> list_all (\<lambda>c. \<not> js_space c \<and> c \<noteq> CHR '','') e)"

lemma comma_re_entry: "\<not> js_space c \<Longrightarrow> c \<noteq> CHR '','' \<Longrightarrow> comma_re (d, c # r) = []"
  by (simp add: comma_re_def re_seq_def re_char_def char_in_def)

lemma re_split_entry: "ip_entry e \<Longrightarrow> re_split comma_re d [] (e @ s) = re_split comma_re (rev e @ d) (rev e) s"
  using re_split_stretch [of e comma_re d "[]" s] comma_re_entry by (simp add: ip_entry_def list_all_iff)

lemma dropWhile_blank_entry:
  assumes "list_all js_space v" "ip_entry e"
  shows "dropWhile js_space (v @ e @ s) = e @ s"
proof -
  have "dropWhile js_space (v @ e @ s) = dropWhile js_space (e @ s)"
    using assms(1) by (simp add: dropWhile_append list_all_iff)
  also have "\<dots> = e @ s"
    using assms(2) by (cases e) (auto simp: ip_entry_def)
  finally show ?thesis .
qed

lemma js_join_head: "\<exists>s. js_join sep (y # ys) = y @ s"
  by (cases ys) auto

lemma re_split_entries:
  assumes "list_all js_space v"
  shows "list_all ip_entry (x # xs) \<Longrightarrow> re_split comma_re d [] (js_join (CHR '','' # v) (x # xs)) = x # xs"
proof (induction xs arbitrary: x d)
  case Nil
  then show ?case using re_split_entry [of x d "[]"] by simp
next
  case (Cons y ys)
  obtain s where s: "js_join (CHR '','' # v) (y # ys) = y @ s"
    using js_join_head by blast
  let ?r = "v @ js_join (CHR '','' # v) (y # ys)"
  have r: "dropWhile js_space ?r = y @ s"
    using dropWhile_blank_entry [OF assms] Cons.prems s by simp
  obtain ps where ps: "comma_re (rev x @ d, CHR '','' # ?r) = (rev (takeWhile js_space ?r) @ CHR '','' # rev x @ d, y @ s) # ps"
    using comma_re_comma [of "rev x @ d" ?r] r by auto
  have len: "length (y @ s) < length (CHR '','' # ?r)" by (simp add: s)
  have "re_split comma_re d [] (js_join (CHR '','' # v) (x # y # ys)) = re_split comma_re (rev x @ d) (rev x) (CHR '','' # ?r)"
    using Cons.prems re_split_entry [of x d "CHR '','' # ?r"] by simp
  also have "\<dots> = x # re_split comma_re (rev (takeWhile js_space ?r) @ CHR '','' # rev x @ d) [] (y @ s)"
    using re_split_hit [where re = comma_re and p = "rev x", OF ps len] by simp
  also have "\<dots> = x # y # ys"
    using Cons.IH [of y] Cons.prems by (simp add: s)
  finally show ?case .
qed

lemma js_trim_id:
  assumes "s = [] \<or> \<not> js_space (hd s) \<and> \<not> js_space (last s)"
  shows "js_trim s = s"
proof -
  have "dropWhile js_space s = s" "dropWhile js_space (rev s) = rev s"
    using assms by (auto intro!: dropWhile_id simp: hd_rev)
  then show ?thesis by (simp add: js_trim_def)
qed

lemma js_join_last: "list_all ip_entry (x # xs) \<Longrightarrow> js_join sep (x # xs) \<noteq> [] \<and> \<not> js_space (last (js_join sep (x # xs)))"
proof (induction xs arbitrary: x)
  case Nil
  then show ?case by (auto simp: ip_entry_def list_all_iff)
qed simp

lemma js_join_hd: "list_all ip_entry (x # xs) \<Longrightarrow> \<not> js_space (hd (js_join sep (x # xs)))"
  by (cases xs; cases x) (auto simp: ip_entry_def)

section \<open>Properties\<close>

text \<open>the form accepts an address exactly when it is four octets, each one to three digits of value
  at most 255, separated by dots. A leading zero is allowed, anything before or after is not.\<close>

theorem isValidIPAddress_quad: "isValidIPAddress value = is_dotted_quad value"
  by (simp add: isValidIPAddress_def ipv4_full)

text \<open>\<open>extractFirstIPv4\<close> is empty exactly when no address occurs anywhere in the text, and what it
  returns is otherwise an address that occurs in it.\<close>

theorem extractFirstIPv4_finds:
  "(extractFirstIPv4 value = [] \<longleftrightarrow> (\<nexists>pre m post. is_dotted_quad m \<and> value = pre @ m @ post)) \<and>
   (extractFirstIPv4 value = [] \<or>
    (is_dotted_quad (extractFirstIPv4 value) \<and> (\<exists>pre post. value = pre @ extractFirstIPv4 value @ post)))"
proof (cases "re_match_all IPV4_REGEX [] value")
  case Nil
  then show ?thesis
    using ipv4_complete by (auto simp: extractFirstIPv4_matches)
next
  case (Cons m ms)
  then have "is_dotted_quad m \<and> (\<exists>pre post. value = pre @ m @ post)"
    using ipv4_sound [where m = m] by (metis list.set_intros(1))
  moreover from this have "m \<noteq> []" by (auto simp: is_dotted_quad_def)
  ultimately show ?thesis using Cons by (auto simp: extractFirstIPv4_matches)
qed

text \<open>writing a list of addresses with any separator made of a comma and white space, and reading it
  back, gives the list; the list is accepted exactly when it is not empty and every entry is an address.\<close>

theorem parse_ip_list_roundtrip:
  assumes "list_all ip_entry ips" and "list_all js_space gap"
  shows "parseIpList (js_join ('','' @ gap) ips) = ips \<and>
         isValidIPAddressList (js_join ('','' @ gap) ips) = (ips \<noteq> [] \<and> list_all is_dotted_quad ips)"
proof -
  have "parseIpList (js_join ('','' @ gap) ips) = ips"
  proof (cases ips)
    case (Cons x xs)
    let ?s = "js_join (CHR '','' # gap) (x # xs)"
    have ok: "list_all ip_entry (x # xs)" using assms(1) Cons by simp
    have "js_trim ?s = ?s"
      by (rule js_trim_id) (simp add: js_join_last [OF ok] js_join_hd [OF ok])
    moreover have "?s \<noteq> []" using js_join_last [OF ok] by simp
    moreover have "filter (\<lambda>v. v \<noteq> []) (x # xs) = x # xs"
      using assms(1) Cons by (simp add: ip_entry_def list_all_iff)
    ultimately show ?thesis
      using re_split_entries [OF assms(2), of x xs "[]"] assms(1) Cons
      by (simp add: parseIpList_def Let_def)
  qed (simp add: parseIpList_def)
  then show ?thesis
    by (simp add: isValidIPAddressList_def isValidIPAddress_def ipv4_full Let_def list_all_iff)
qed

theorem parse_ip_list_roundtrip_witness:
  "parseIpList ''10.0.0.1, 10.0.0.256'' = [''10.0.0.1'', ''10.0.0.256''] \<and>
   isValidIPAddressList ''10.0.0.1, 10.0.0.256'' = list_all is_dotted_quad [''10.0.0.1'', ''10.0.0.256'']"
  using parse_ip_list_roundtrip [of "[''10.0.0.1'', ''10.0.0.256'']" "'' ''"]
  by (simp add: ip_entry_def js_space_def)

end
