(* ===== verification/Form_Types.thy ===== *)
theory Form_Types
  imports Ip_Validation
begin

text \<open>
  The data of the migration form: \<open>ui/src/features/migration/types.ts\<close>, \<open>constants.ts\<close> and the API models
  it is built from (\<open>migration-templates/model.ts\<close>, \<open>migration-plans/model.ts\<close>,
  \<open>vmware-machines/model.ts\<close>, \<open>rdm-disks/model.ts\<close>, \<open>openstack-creds/model.ts\<close>). An optional property is an
  option, a dictionary an object of \<open>Js_Prelude\<close>, a number an integer. Each record prefixes its fields,
  since the source uses the same names in many interfaces.
\<close>

section \<open>Constants\<close>

definition CUTOVER_IMMEDIATE :: string where "CUTOVER_IMMEDIATE = ''0''"
definition CUTOVER_ADMIN_INITIATED :: string where "CUTOVER_ADMIN_INITIATED = ''1''"
definition CUTOVER_TIME_WINDOW :: string where "CUTOVER_TIME_WINDOW = ''2''"

lemmas cutover_defs = CUTOVER_IMMEDIATE_def CUTOVER_ADMIN_INITIATED_def CUTOVER_TIME_WINDOW_def

definition OS_TYPES_OPTIONS :: "(string \<times> string) list" where
  "OS_TYPES_OPTIONS =
     [(''default'', ''Auto-detect''), (''windowsGuest'', ''Windows''), (''linuxGuest'', ''Linux'')]"

definition STORAGE_COPY_METHOD_OPTIONS :: "(string \<times> string) list" where
  "STORAGE_COPY_METHOD_OPTIONS =
     [(''normal'', ''Standard Copy''), (''StorageAcceleratedCopy'', ''Storage Accelerated Copy''),
      (''HotAdd'', ''vJailbreak Accelerated Copy'')]"

text \<open>Go's zero \<open>time.Time\<close>, which the API server stores for a time that was never set.\<close>

definition ZERO_TIME :: string where
  "ZERO_TIME = ''0001-01-01T00:00:00Z''"

definition isSetTime :: "string option \<Rightarrow> bool" where
  "isSetTime v = (str_truthy v \<and> v \<noteq> Some ZERO_TIME)"

section \<open>Mappings and key-value rows\<close>

record ResourceMap =
  rm_source :: string
  rm_target :: string

record KeyValuePair =
  kv_key :: string
  kv_value :: string

record PostMigrationAction =
  pm_suffix :: "string option"
  pm_folderName :: "string option"
  pm_renameVm :: "bool option"
  pm_moveToFolder :: "bool option"

section \<open>Virtual machines\<close>

record VMwareDisk =
  dk_name :: "string option"
  dk_capacityGB :: "int option"
  dk_datastore :: "string option"
  dk_datastoreId :: "string option"

datatype VMwareDiskEntry = DiskName string | DiskObject VMwareDisk

datatype ip_status = IpPending | IpValid | IpInvalid | IpValidating

record VmData =
  vd_datastores :: "string list option"
  vd_id :: string
  vd_name :: string
  vd_vmid :: "string option"
  vd_vmKey :: "string option"
  vd_networks :: "string list option"
  vd_isMigrated :: "bool option"
  vd_vmState :: "string option"
  vd_memory :: "int option"
  vd_cpuCount :: "int option"
  vd_esxHost :: "string option"
  vd_ipAddress :: "string option"
  vd_targetFlavorId :: "string option"
  vd_disks :: "VMwareDiskEntry list option"
  vd_labels :: "string sobj option"
  vd_vmWareMachineName :: "string option"
  vd_networkInterfaces :: "vm_nic list option"
  vd_osFamily :: "string option"
  vd_preserveIp :: "bool iobj option"
  vd_preserveMac :: "bool iobj option"
  vd_hasSharedRdm :: "bool option"
  vd_tags :: "string sobj option"
  vd_customAttributes :: "string sobj option"

record VmDataWithFlavor = VmData +
  vf_flavor :: "string option"
  vf_flavorName :: "string option"
  vf_flavorNotFound :: "bool option"
  vf_ipValidationStatus :: "ip_status option"
  vf_ipValidationMessage :: "string option"
  vf_powerState :: "string option"

record VM =
  vm_id :: string
  vm_name :: string
  vm_ip :: string
  vm_esxHost :: string
  vm_networks :: "string list option"
  vm_datastores :: "string list option"
  vm_cpu :: "int option"
  vm_memory :: "int option"
  vm_powerState :: string
  vm_osFamily :: "string option"
  vm_flavor :: "string option"
  vm_targetFlavorId :: "string option"
  vm_ipValidationStatus :: "ip_status option"
  vm_ipValidationMessage :: "string option"
  vm_networkInterfaces :: "vm_nic list option"
  vm_preserveIp :: "bool iobj option"
  vm_preserveMac :: "bool iobj option"

datatype power_state = PoweredOn | PoweredOff

fun power_str :: "power_state \<Rightarrow> string" where
  "power_str PoweredOn = ''powered-on''"
| "power_str PoweredOff = ''powered-off''"

record CanonicalVM =
  cv_id :: string
  cv_name :: string
  cv_powerState :: power_state
  cv_ip :: string
  cv_cpu :: "int option"
  cv_memory :: "int option"
  cv_osFamily :: "string option"
  cv_flavor :: "string option"
  cv_targetFlavorId :: "string option"
  cv_networkInterfaces :: "vm_nic list option"
  cv_esxHost :: "string option"
  cv_networks :: "string list option"
  cv_datastores :: "string list option"
  cv_preserveIp :: "bool iobj option"
  cv_preserveMac :: "bool iobj option"
  cv_ipValidationStatus :: "ip_status option"
  cv_ipValidationMessage :: "string option"
  cv_isMigrated :: "bool option"
  cv_flavorNotFound :: "bool option"
  cv_hasSharedRdm :: "bool option"
  cv_vmKey :: "string option"
  cv_vmid :: "string option"
  cv_labels :: "string sobj option"
  cv_disks :: "VMwareDiskEntry list option"
  cv_vmWareMachineName :: "string option"

section \<open>The form\<close>

record VmwareCredsForm =
  vc_vcenterHost :: "string option"
  vc_datacenter :: "string option"
  vc_username :: "string option"
  vc_password :: "string option"
  vc_existingCredName :: "string option"
  vc_credentialName :: "string option"

record OpenstackCredsForm =
  oc_OS_AUTH_URL :: "string option"
  oc_OS_DOMAIN_NAME :: "string option"
  oc_OS_USERNAME :: "string option"
  oc_OS_PASSWORD :: "string option"
  oc_OS_REGION_NAME :: "string option"
  oc_OS_TENANT_NAME :: "string option"
  oc_existingCredName :: "string option"
  oc_credentialName :: "string option"
  oc_OS_INSECURE :: "bool option"

record RdmConfiguration =
  rc_uuid :: string
  rc_diskName :: string
  rc_cinderBackendPool :: string
  rc_volumeType :: string
  rc_source :: "string sobj"

record FormValues =
  fv_vmwareCreds :: "VmwareCredsForm option"
  fv_openstackCreds :: "OpenstackCredsForm option"
  fv_vms :: "VmData list option"
  fv_rdmConfigurations :: "RdmConfiguration list option"
  fv_networkMappings :: "ResourceMap list option"
  fv_storageMappings :: "ResourceMap list option"
  fv_arrayCredsMappings :: "ResourceMap list option"
  fv_storageCopyMethod :: "string option"
  fv_proxyVMRef :: "string option"
  fv_vmwareCluster :: "string option"
  fv_pcdCluster :: "string option"
  fv_dataCopyMethod :: "string option"
  fv_dataCopyStartTime :: "string option"
  fv_cutoverOption :: "string option"
  fv_cutoverStartTime :: "string option"
  fv_cutoverEndTime :: "string option"
  fv_postMigrationScript :: "string option"
  fv_osFamily :: "string option"
  fv_postMigrationAction :: "PostMigrationAction option"
  fv_disconnectSourceNetwork :: "bool option"
  fv_dataOnly :: "bool option"
  fv_securityGroups :: "string list option"
  fv_serverGroup :: "string option"
  fv_fallbackToDHCP :: "bool option"
  fv_useGPU :: "bool option"
  fv_networkPersistence :: "bool option"
  fv_removeVMwareTools :: "bool option"
  fv_imageProfiles :: "string list option"
  fv_preserveSourceTags :: "bool option"
  fv_customMetadata :: "KeyValuePair list option"
  fv_periodicSyncInterval :: "string option"
  fv_acknowledgeNetworkConflictRisk :: "bool option"

record SelectedPostAction =
  sp_suffix :: "bool option"
  sp_folderName :: "bool option"
  sp_renameVm :: "bool option"
  sp_moveToFolder :: "bool option"

record SelectedMigrationOptions =
  so_dataCopyMethod :: "bool option"
  so_dataCopyStartTime :: "bool option"
  so_cutoverOption :: "bool option"
  so_cutoverStartTime :: "bool option"
  so_cutoverEndTime :: "bool option"
  so_postMigrationScript :: "bool option"
  so_useGPU :: "bool option"
  so_periodicSyncEnabled :: "bool option"
  so_postMigrationAction :: "SelectedPostAction option"
  so_acknowledgeNetworkConflictRisk :: "bool option"

record MigrationDrawerRHFValues =
  rhf_securityGroups :: "string list"
  rhf_serverGroup :: string
  rhf_dataCopyStartTime :: string
  rhf_cutoverStartTime :: string
  rhf_cutoverEndTime :: string
  rhf_postMigrationActionSuffix :: string
  rhf_postMigrationActionFolderName :: string

definition DEFAULT_MIGRATION_OPTIONS :: SelectedMigrationOptions where
  "DEFAULT_MIGRATION_OPTIONS =
     \<lparr> so_dataCopyMethod = Some False, so_dataCopyStartTime = Some False, so_cutoverOption = Some False,
       so_cutoverStartTime = Some False, so_cutoverEndTime = Some False,
       so_postMigrationScript = Some False, so_useGPU = Some False, so_periodicSyncEnabled = None,
       so_postMigrationAction =
         Some \<lparr> sp_suffix = Some False, sp_folderName = Some False, sp_renameVm = Some False,
                sp_moveToFolder = Some False \<rparr>,
       so_acknowledgeNetworkConflictRisk = None \<rparr>"

text \<open>A form with nothing filled in, and a machine with only its identity.\<close>

definition empty_form :: FormValues where
  "empty_form =
     \<lparr> fv_vmwareCreds = None, fv_openstackCreds = None, fv_vms = None, fv_rdmConfigurations = None,
       fv_networkMappings = None, fv_storageMappings = None, fv_arrayCredsMappings = None,
       fv_storageCopyMethod = None, fv_proxyVMRef = None, fv_vmwareCluster = None, fv_pcdCluster = None,
       fv_dataCopyMethod = None, fv_dataCopyStartTime = None, fv_cutoverOption = None,
       fv_cutoverStartTime = None, fv_cutoverEndTime = None, fv_postMigrationScript = None,
       fv_osFamily = None, fv_postMigrationAction = None, fv_disconnectSourceNetwork = None,
       fv_dataOnly = None, fv_securityGroups = None, fv_serverGroup = None, fv_fallbackToDHCP = None,
       fv_useGPU = None, fv_networkPersistence = None, fv_removeVMwareTools = None,
       fv_imageProfiles = None, fv_preserveSourceTags = None, fv_customMetadata = None,
       fv_periodicSyncInterval = None, fv_acknowledgeNetworkConflictRisk = None \<rparr>"

definition blank_vm :: "string \<Rightarrow> string \<Rightarrow> VmData" where
  "blank_vm i n =
     \<lparr> vd_datastores = Some [], vd_id = i, vd_name = n, vd_vmid = None, vd_vmKey = None, vd_networks = None,
       vd_isMigrated = None, vd_vmState = None, vd_memory = None, vd_cpuCount = None, vd_esxHost = None,
       vd_ipAddress = None, vd_targetFlavorId = None, vd_disks = None, vd_labels = None,
       vd_vmWareMachineName = None, vd_networkInterfaces = None, vd_osFamily = None, vd_preserveIp = None,
       vd_preserveMac = None, vd_hasSharedRdm = None, vd_tags = None, vd_customAttributes = None \<rparr>"

section \<open>Migration plans and templates\<close>

record MigrationStrategy =
  st_type :: string
  st_dataCopyStart :: "string option"
  st_vmCutoverStart :: "string option"
  st_vmCutoverEnd :: "string option"
  st_adminInitiatedCutOver :: "bool option"
  st_performHealthChecks :: "bool option"
  st_healthCheckPort :: "string option"
  st_disconnectSourceNetwork :: "bool option"
  st_dataOnly :: "bool option"

record AdvancedOptions =
  ao_granularVolumeTypes :: "string list option"
  ao_granularNetworks :: "string list option"
  ao_granularPorts :: "string list option"
  ao_periodicSyncInterval :: "string option"
  ao_periodicSyncEnabled :: "bool option"
  ao_networkPersistence :: "bool option"
  ao_removeVMwareTools :: "bool option"
  ao_acknowledgeNetworkConflictRisk :: "bool option"
  ao_imageProfiles :: "string list option"

record NetworkOverride =
  no_interfaceIndex :: nat
  no_preserveIP :: bool
  no_preserveMAC :: bool
  no_UserAssignedIP :: "string option"

record MigrationPlanSpec =
  ps_migrationStrategy :: "MigrationStrategy option"
  ps_migrationTemplate :: string
  ps_retry :: bool
  ps_virtualMachines :: "string list list"
  ps_securityGroups :: "string list option"
  ps_serverGroup :: "string option"
  ps_fallbackToDHCP :: "bool option"
  ps_firstBootScript :: "string option"
  ps_postMigrationAction :: "PostMigrationAction option"
  ps_advancedOptions :: "AdvancedOptions option"
  ps_networkOverridesPerVM :: "NetworkOverride list sobj option"
  ps_preserveSourceTags :: "bool option"
  ps_customMetadata :: "string sobj option"

record MigrationTemplateSpec =
  ts_openstackRef :: string
  ts_vmwareRef :: string
  ts_datacenter :: "string option"
  ts_networkMapping :: string
  ts_storageMapping :: string
  ts_targetPCDClusterName :: "string option"
  ts_useGPUFlavor :: "bool option"
  ts_storageCopyMethod :: "string option"
  ts_arrayCredsMapping :: "string option"
  ts_proxyVMRef :: "string option"
  ts_osFamily :: "string option"

section \<open>Disks and credentials of the destination\<close>

record OpenstackVolumeRef =
  vr_cinderBackendPool :: "string option"
  vr_openstackCreds :: "string option"
  vr_source :: "string sobj option"
  vr_volumeType :: "string option"

record RdmDisk =
  rd_diskName :: string
  rd_diskSize :: int
  rd_displayName :: string
  rd_importToCinder :: "bool option"
  rd_openstackVolumeRef :: "OpenstackVolumeRef option"
  rd_ownerVMs :: "string list"
  rd_uuid :: string

record PCDNetworkInfo =
  pn_name :: string
  pn_tags :: "string list"

record OpenStackFlavor =
  fl_id :: string
  fl_name :: string
  fl_vcpus :: int
  fl_ram :: int
  fl_disk :: int

record OpenstackStatus =
  os_networks :: "PCDNetworkInfo list option"
  os_volumeTypes :: "string list option"
  os_volumeBackends :: "string list option"
  os_backendVolumeTypeMap :: "string sobj option"

end
