(* ===== verification/Vm_Adapters.thy ===== *)
theory Vm_Adapters
  imports Form_Types
begin

text \<open>
  \<open>ui/src/features/migration/utils/vmAdapters.ts\<close>: the conversions between the machine of the standard
  form (\<open>VmDataWithFlavor\<close>), the machine of the rolling form (\<open>VM\<close>) and the canonical machine of the
  shared selection step.
\<close>

section \<open>The conversions\<close>

definition fromVmDataWithFlavor :: "VmDataWithFlavor \<Rightarrow> CanonicalVM" where
  "fromVmDataWithFlavor vm =
     \<lparr> cv_id = vd_id vm,
       cv_name = vd_name vm,
       cv_powerState = (if vd_vmState vm = Some ''running'' then PoweredOn else PoweredOff),
       cv_ip = str_or (vd_ipAddress vm) em_dash,
       cv_cpu = vd_cpuCount vm,
       cv_memory = vd_memory vm,
       cv_osFamily = vd_osFamily vm,
       cv_flavor = (case vf_flavor vm of None \<Rightarrow> vf_flavorName vm | Some f \<Rightarrow> Some f),
       cv_targetFlavorId = vd_targetFlavorId vm,
       cv_networkInterfaces = vd_networkInterfaces vm,
       cv_esxHost = vd_esxHost vm,
       cv_networks = vd_networks vm,
       cv_datastores = vd_datastores vm,
       cv_preserveIp = vd_preserveIp vm,
       cv_preserveMac = vd_preserveMac vm,
       cv_ipValidationStatus = vf_ipValidationStatus vm,
       cv_ipValidationMessage = vf_ipValidationMessage vm,
       cv_isMigrated = vd_isMigrated vm,
       cv_flavorNotFound = vf_flavorNotFound vm,
       cv_hasSharedRdm = vd_hasSharedRdm vm,
       cv_vmKey = vd_vmKey vm,
       cv_vmid = vd_vmid vm,
       cv_labels = vd_labels vm,
       cv_disks = vd_disks vm,
       cv_vmWareMachineName = vd_vmWareMachineName vm \<rparr>"

text \<open>\<open>tags\<close> and \<open>customAttributes\<close> are not among the fields it writes.\<close>

definition toVmDataWithFlavor :: "CanonicalVM \<Rightarrow> VmDataWithFlavor" where
  "toVmDataWithFlavor vm =
     \<lparr> vd_datastores = Some (list_or (cv_datastores vm)),
       vd_id = cv_id vm,
       vd_name = cv_name vm,
       vd_vmid = cv_vmid vm,
       vd_vmKey = cv_vmKey vm,
       vd_networks = cv_networks vm,
       vd_isMigrated = cv_isMigrated vm,
       vd_vmState = Some (if cv_powerState vm = PoweredOn then ''running'' else ''stopped''),
       vd_memory = cv_memory vm,
       vd_cpuCount = cv_cpu vm,
       vd_esxHost = cv_esxHost vm,
       vd_ipAddress = (if cv_ip vm = em_dash then None else Some (cv_ip vm)),
       vd_targetFlavorId = cv_targetFlavorId vm,
       vd_disks = cv_disks vm,
       vd_labels = cv_labels vm,
       vd_vmWareMachineName = cv_vmWareMachineName vm,
       vd_networkInterfaces = cv_networkInterfaces vm,
       vd_osFamily = cv_osFamily vm,
       vd_preserveIp = cv_preserveIp vm,
       vd_preserveMac = cv_preserveMac vm,
       vd_hasSharedRdm = cv_hasSharedRdm vm,
       vd_tags = None,
       vd_customAttributes = None,
       vf_flavor = cv_flavor vm,
       vf_flavorName = cv_flavor vm,
       vf_flavorNotFound = cv_flavorNotFound vm,
       vf_ipValidationStatus = cv_ipValidationStatus vm,
       vf_ipValidationMessage = cv_ipValidationMessage vm,
       vf_powerState = Some (power_str (cv_powerState vm)) \<rparr>"

definition fromVM :: "VM \<Rightarrow> CanonicalVM" where
  "fromVM vm =
     \<lparr> cv_id = vm_id vm,
       cv_name = vm_name vm,
       cv_powerState = (if vm_powerState vm = ''powered-on'' then PoweredOn else PoweredOff),
       cv_ip = vm_ip vm,
       cv_cpu = vm_cpu vm,
       cv_memory = vm_memory vm,
       cv_osFamily = vm_osFamily vm,
       cv_flavor = vm_flavor vm,
       cv_targetFlavorId = vm_targetFlavorId vm,
       cv_networkInterfaces = vm_networkInterfaces vm,
       cv_esxHost = Some (vm_esxHost vm),
       cv_networks = vm_networks vm,
       cv_datastores = vm_datastores vm,
       cv_preserveIp = vm_preserveIp vm,
       cv_preserveMac = vm_preserveMac vm,
       cv_ipValidationStatus = vm_ipValidationStatus vm,
       cv_ipValidationMessage = vm_ipValidationMessage vm,
       cv_isMigrated = None,
       cv_flavorNotFound = None,
       cv_hasSharedRdm = None,
       cv_vmKey = None,
       cv_vmid = None,
       cv_labels = None,
       cv_disks = None,
       cv_vmWareMachineName = None \<rparr>"

definition toVM :: "CanonicalVM \<Rightarrow> VM" where
  "toVM vm =
     \<lparr> vm_id = cv_id vm,
       vm_name = cv_name vm,
       vm_ip = cv_ip vm,
       vm_esxHost = str_or (cv_esxHost vm) [],
       vm_networks = cv_networks vm,
       vm_datastores = cv_datastores vm,
       vm_cpu = cv_cpu vm,
       vm_memory = cv_memory vm,
       vm_powerState = power_str (cv_powerState vm),
       vm_osFamily = cv_osFamily vm,
       vm_flavor = cv_flavor vm,
       vm_targetFlavorId = cv_targetFlavorId vm,
       vm_ipValidationStatus = cv_ipValidationStatus vm,
       vm_ipValidationMessage = cv_ipValidationMessage vm,
       vm_networkInterfaces = cv_networkInterfaces vm,
       vm_preserveIp = cv_preserveIp vm,
       vm_preserveMac = cv_preserveMac vm \<rparr>"

text \<open>
  The \<open>ipAddress\<close> of an interface as the API may deliver it: an array, a single string of older
  machines, or nothing. \<open>normalizeNetworkInterfaces\<close> gives every interface an array.
\<close>

datatype raw_ip = IpArray "string list" | IpString string | IpAbsent

fun normalize_ip :: "raw_ip \<Rightarrow> string list" where
  "normalize_ip (IpArray ips) = ips"
| "normalize_ip (IpString ip) = (if ip = [] then [] else [ip])"
| "normalize_ip IpAbsent = []"

definition normalizeNetworkInterfaces :: "(vm_nic \<times> raw_ip) list option \<Rightarrow> vm_nic list option" where
  "normalizeNetworkInterfaces nics =
     (case nics of
        None \<Rightarrow> None
      | Some xs \<Rightarrow> Some (map (\<lambda>(nic, ip). nic\<lparr> nic_ips := normalize_ip ip \<rparr>) xs))"

section \<open>Round trips\<close>

text \<open>
  What a trip through the canonical machine does to a standard machine: the power state becomes one
  of two values, an empty or dashed address becomes undefined, the flavor name follows the flavor,
  and the vSphere tags and custom attributes are lost.
\<close>

definition canonical_standard :: "VmDataWithFlavor \<Rightarrow> VmDataWithFlavor" where
  "canonical_standard vm =
     (let flavor = (case vf_flavor vm of None \<Rightarrow> vf_flavorName vm | Some f \<Rightarrow> Some f);
          on = (vd_vmState vm = Some ''running'')
      in vm\<lparr> vd_vmState := Some (if on then ''running'' else ''stopped''),
             vf_powerState := Some (if on then ''powered-on'' else ''powered-off''),
             vd_datastores := Some (list_or (vd_datastores vm)),
             vd_ipAddress := (if vd_ipAddress vm \<in> {None, Some [], Some em_dash} then None else vd_ipAddress vm),
             vf_flavor := flavor,
             vf_flavorName := flavor,
             vd_tags := None,
             vd_customAttributes := None \<rparr>)"

definition canonical_vm_ok :: "CanonicalVM \<Rightarrow> bool" where
  "canonical_vm_ok vm = (cv_ip vm \<noteq> [] \<and> cv_datastores vm \<noteq> None)"

text \<open>a canonical machine that went through the standard form comes back unchanged, and a standard machine
  that went through the canonical one keeps everything except what \<open>canonical_standard\<close> names: among it
  the tags and the custom attributes, which are dropped.\<close>

theorem standard_adapter_roundtrip:
  "(canonical_vm_ok c \<longrightarrow> fromVmDataWithFlavor (toVmDataWithFlavor c) = c) \<and>
   toVmDataWithFlavor (fromVmDataWithFlavor v) = canonical_standard v"
proof (intro conjI impI)
  assume "canonical_vm_ok c"
  then show "fromVmDataWithFlavor (toVmDataWithFlavor c) = c"
    by (cases c; cases "cv_powerState c")
      (auto simp: fromVmDataWithFlavor_def toVmDataWithFlavor_def canonical_vm_ok_def em_dash_def js_defs
        split: option.splits)
next
  show "toVmDataWithFlavor (fromVmDataWithFlavor v) = canonical_standard v"
    by (cases v)
      (auto simp: fromVmDataWithFlavor_def toVmDataWithFlavor_def canonical_standard_def js_defs Let_def
        split: option.splits)
qed

definition sample_canonical :: CanonicalVM where
  "sample_canonical =
     \<lparr> cv_id = ''vm-1'', cv_name = ''web'', cv_powerState = PoweredOff, cv_ip = em_dash, cv_cpu = Some 2,
       cv_memory = Some 4096, cv_osFamily = Some ''linuxGuest'', cv_flavor = Some ''m1'',
       cv_targetFlavorId = None, cv_networkInterfaces = None, cv_esxHost = Some ''esx-1'',
       cv_networks = Some [''VM Network''], cv_datastores = Some [''ds1''], cv_preserveIp = None,
       cv_preserveMac = None, cv_ipValidationStatus = None, cv_ipValidationMessage = None,
       cv_isMigrated = Some False, cv_flavorNotFound = None, cv_hasSharedRdm = None, cv_vmKey = None,
       cv_vmid = None, cv_labels = None, cv_disks = None, cv_vmWareMachineName = None \<rparr>"

theorem standard_adapter_roundtrip_witness:
  "fromVmDataWithFlavor (toVmDataWithFlavor sample_canonical) = sample_canonical"
  using standard_adapter_roundtrip [of sample_canonical]
  by (simp add: canonical_vm_ok_def sample_canonical_def em_dash_def)

text \<open>the rolling machine survives the trip through the canonical one when its power state is one of the
  two values; an unknown power state comes back as powered off.\<close>

theorem rolling_adapter_roundtrip:
  "toVM (fromVM v) = v\<lparr> vm_powerState := (if vm_powerState v = ''powered-on'' then ''powered-on'' else ''powered-off'') \<rparr>"
  by (cases v) (auto simp: toVM_def fromVM_def split: option.splits)

end
