(* ===== verification/Log_Filter.thy ===== *)
theory Log_Filter
  imports Js_Regex
begin

text \<open>
  The search box and the level and source filters of the log views:
  \<open>ui/src/features/migration/utils/logFilter.ts\<close>.
\<close>

section \<open>Levels and sources\<close>

definition word_char :: "char \<Rightarrow> bool" where
  "word_char c = (c \<in> set ''abcdefghijklmnopqrstuvwxyzABCDEFGHIJKLMNOPQRSTUVWXYZ0123456789_'')"

text \<open>\<open>\b\<close> and a word compared without case.\<close>

definition re_boundary :: re where
  "re_boundary p =
     (let before_is = (case fst p of [] \<Rightarrow> False | c # _ \<Rightarrow> word_char c);
          after_is = (case snd p of [] \<Rightarrow> False | c # _ \<Rightarrow> word_char c)
      in if before_is = after_is then [] else [p])"

fun re_iword :: "string \<Rightarrow> re" where
  "re_iword [] p = [p]"
| "re_iword (c # w) p = re_seq (re_char (\<lambda>x. lower_char x = lower_char c)) (re_iword w) p"

definition LEVEL_WORDS :: "string list" where
  "LEVEL_WORDS =
     [''ERROR'', ''FATAL'', ''WARN'', ''WARNING'', ''INFO'', ''DEBUG'', ''TRACE'', ''SUCCESS'', ''SUCCEEDED'', ''FAILED'']"

definition re_level_word :: re where
  "re_level_word p = concat (map (\<lambda>w. re_iword w p) LEVEL_WORDS)"

definition LEVEL_RE :: re where
  "LEVEL_RE = re_seq re_boundary (re_seq re_level_word re_boundary)"

text \<open>\<open>line.match(re)\<close> without flags: the text of the first match.\<close>

definition re_match_first :: "re \<Rightarrow> string \<Rightarrow> string option" where
  "re_match_first re s = (case re_match_all re [] s of [] \<Rightarrow> None | m # _ \<Rightarrow> Some m)"

definition extractLevel :: "string \<Rightarrow> string option" where
  "extractLevel line = map_option js_upper (re_match_first LEVEL_RE line)"

definition normalizeLevel :: "string \<Rightarrow> string" where
  "normalizeLevel raw =
     (if str_includes raw ''ERROR'' \<or> str_includes raw ''FATAL'' \<or> str_includes raw ''FAIL'' then ''ERROR''
      else if str_includes raw ''WARN'' then ''WARN''
      else if raw = ''INFO'' then ''INFO''
      else if raw = ''DEBUG'' then ''DEBUG''
      else if raw = ''TRACE'' then ''TRACE''
      else if str_includes raw ''SUCCESS'' \<or> str_includes raw ''SUCCEED'' then ''SUCCESS''
      else ''OTHER'')"

text \<open>
  \<open>^\d{2}:\d{2}:\d{2}[.\d]*\s+\[?(\w[\w-]*)\]?\<close>: the part before the group, and the group. The bracket that
  closes the pattern is optional, so it never makes the engine backtrack.
\<close>

definition re_two_digits :: re where
  "re_two_digits = re_seq (re_char digit_char) (re_char digit_char)"

definition SOURCE_PREFIX_RE :: re where
  "SOURCE_PREFIX_RE =
     re_seq re_two_digits (re_seq (re_char (\<lambda>c. c = CHR '':''))
    (re_seq re_two_digits (re_seq (re_char (\<lambda>c. c = CHR '':''))
    (re_seq re_two_digits (re_seq (re_star (\<lambda>c. c = CHR ''.'' \<or> digit_char c))
    (re_seq (re_plus js_space) (re_opt (re_char (\<lambda>c. c = CHR ''['')))))))))"

definition SOURCE_GROUP_RE :: re where
  "SOURCE_GROUP_RE = re_seq (re_char word_char) (re_star (\<lambda>c. word_char c \<or> c = CHR ''-''))"

definition extractSource :: "string \<Rightarrow> string option" where
  "extractSource line =
     (case concat (map (\<lambda>p. map (\<lambda>q. take (length (snd p) - length (snd q)) (snd p)) (SOURCE_GROUP_RE p))
             (SOURCE_PREFIX_RE ([], line))) of
        [] \<Rightarrow> None
      | g # _ \<Rightarrow> Some g)"

section \<open>Search terms\<close>

record SearchTerm =
  term_text :: string
  term_negated :: bool

datatype term_match = Phrase bool string | BareToken string

text \<open>\<open>(-?)"([^"]*)"\<close>: the negation, the phrase and the text after the closing quote.\<close>

definition not_quote :: "char \<Rightarrow> bool" where
  "not_quote c = (c \<noteq> CHR 0x22)"

fun quote_body :: "string \<Rightarrow> (string \<times> string) option" where
  "quote_body [] = None"
| "quote_body (q # r) =
     (if \<not> not_quote q \<and> dropWhile not_quote r \<noteq> []
      then Some (takeWhile not_quote r, tl (dropWhile not_quote r)) else None)"

definition quoted_at :: "string \<Rightarrow> (bool \<times> string \<times> string) option" where
  "quoted_at s =
     (let negated = (case s of [] \<Rightarrow> False | c # _ \<Rightarrow> c = CHR ''-'')
      in case quote_body (if negated then tl s else s) of
           None \<Rightarrow> None
         | Some (phrase, rest) \<Rightarrow> Some (negated, phrase, rest))"

text \<open>\<open>TERM_RE\<close> at a position: a quoted phrase, or else a run of characters that are not white space.\<close>

definition term_at :: "string \<Rightarrow> (term_match \<times> string) option" where
  "term_at s =
     (case quoted_at s of
        Some (negated, phrase, rest) \<Rightarrow> Some (Phrase negated phrase, rest)
      | None \<Rightarrow>
          (let token = takeWhile (\<lambda>c. \<not> js_space c) s
           in if token = [] then None else Some (BareToken token, dropWhile (\<lambda>c. \<not> js_space c) s)))"

definition term_of :: "term_match \<Rightarrow> SearchTerm list" where
  "term_of m = (case m of
       Phrase negated phrase \<Rightarrow>
         (if phrase \<noteq> [] then [\<lparr> term_text = js_lower phrase, term_negated = negated \<rparr>] else [])
     | BareToken token \<Rightarrow>
         (let negated = (length token > 1 \<and> hd token = CHR ''-'');
              text = (if negated then tl token else token)
          in if text \<noteq> [] then [\<lparr> term_text = js_lower text, term_negated = negated \<rparr>] else []))"

lemma length_dropWhile_less: "takeWhile P s \<noteq> [] \<Longrightarrow> length (dropWhile P s) < length s"
  by (cases s) (auto simp: less_Suc_eq_le length_dropWhile_le split: if_splits)

lemma quote_body_less: "quote_body r = Some (p, rest) \<Longrightarrow> length rest < length r"
proof (cases r)
  case (Cons q r')
  assume "quote_body r = Some (p, rest)"
  then have "rest = tl (dropWhile not_quote r')"
    by (simp add: Cons split: if_splits)
  then have "length rest \<le> length r'"
    using length_dropWhile_le [of not_quote r'] by simp
  then show ?thesis by (simp add: Cons)
qed simp

lemma quoted_at_less:
  assumes "quoted_at s = Some (n, p, rest)"
  shows "length rest < length s"
proof -
  obtain t where t: "quote_body t = Some (p, rest)" "t = s \<or> t = tl s"
    using assms by (auto simp: quoted_at_def Let_def split: option.splits if_splits)
  then have "length rest < length t" by (simp add: quote_body_less)
  with t(2) show ?thesis by auto
qed

lemma term_at_less: "term_at s = Some (m, rest) \<Longrightarrow> length rest < length s"
  by (auto simp: term_at_def Let_def quoted_at_less length_dropWhile_less split: option.splits if_splits)

function search_terms :: "string \<Rightarrow> SearchTerm list" where
  "search_terms s =
     (case term_at s of
        Some (m, rest) \<Rightarrow> term_of m @ search_terms rest
      | None \<Rightarrow> (case s of [] \<Rightarrow> [] | _ # r \<Rightarrow> search_terms r))"
  by pat_completeness auto
termination
  by (relation "measure length") (auto simp: term_at_less)

declare search_terms.simps [simp del]

definition parseSearchQuery :: "string \<Rightarrow> SearchTerm list" where
  "parseSearchQuery query = search_terms query"

fun all_terms_match :: "string \<Rightarrow> SearchTerm list \<Rightarrow> bool" where
  "all_terms_match haystack [] = True"
| "all_terms_match haystack (t # ts) =
     (let present = str_includes haystack (term_text t)
      in if term_negated t = present then False else all_terms_match haystack ts)"

definition matchesSearch :: "string \<Rightarrow> SearchTerm list \<Rightarrow> bool" where
  "matchesSearch line terms = (if terms = [] then True else all_terms_match (js_lower line) terms)"

definition filterLogLines :: "string list \<Rightarrow> string \<Rightarrow> string \<Rightarrow> string \<Rightarrow> string list" where
  "filterLogLines logs search level source =
     (let terms = parseSearchQuery search
      in if terms = [] \<and> level = ''ALL'' \<and> source = ''ALL'' then logs
         else filter (\<lambda>line.
                (let raw = extractLevel line
                 in if level \<noteq> ''ALL'' \<and> (\<not> str_truthy raw \<or> normalizeLevel (the raw) \<noteq> level) then False
                    else if source \<noteq> ''ALL'' \<and> extractSource line \<noteq> Some source then False
                    else matchesSearch line terms)) logs)"

section \<open>The level of a line\<close>

lemma re_reads_boundary: "re_reads re_boundary {[]}"
  by (auto simp: re_reads_def re_boundary_def Let_def split: if_splits)

definition same_word :: "string \<Rightarrow> string set" where
  "same_word w = {v. map lower_char v = map lower_char w}"

lemma re_reads_iword: "re_reads (re_iword w) (same_word w)"
proof (induction w)
  case Nil
  then show ?case by (simp add: re_reads_def same_word_def)
next
  case (Cons c w)
  have eq: "re_iword (c # w) = re_seq (re_char (\<lambda>x. lower_char x = lower_char c)) (re_iword w)"
    by (rule ext) simp
  have "lang_seq {[x] | x. lower_char x = lower_char c} (same_word w) \<subseteq> same_word (c # w)"
    by (auto simp: lang_seq_def same_word_def)
  moreover have "re_reads (re_iword (c # w)) (lang_seq {[x] | x. lower_char x = lower_char c} (same_word w))"
    unfolding eq by (rule re_reads_seq [OF re_lang_reads [OF re_lang_char] Cons.IH])
  ultimately show ?case by (fastforce simp: re_reads_def)
qed

lemma re_reads_level_word: "re_reads re_level_word (\<Union>w \<in> set LEVEL_WORDS. same_word w)"
  unfolding re_reads_def re_level_word_def
proof (intro allI impI)
  fix d s d' s'
  assume "(d', s') \<in> set (concat (map (\<lambda>w. re_iword w (d, s)) LEVEL_WORDS))"
  then obtain w where "w \<in> set LEVEL_WORDS" "(d', s') \<in> set (re_iword w (d, s))"
    unfolding set_concat set_map by blast
  then obtain v where v: "v \<in> same_word w" "s = v @ s' \<and> d' = rev v @ d"
    using re_reads_iword [of w] unfolding re_reads_def by metis
  then have "v \<in> \<Union> (same_word ` set LEVEL_WORDS)"
    using \<open>w \<in> set LEVEL_WORDS\<close> by (rule_tac UN_I)
  with v(2) show "\<exists>w\<in>\<Union> (same_word ` set LEVEL_WORDS). s = w @ s' \<and> d' = rev w @ d"
    by (rule_tac bexI)
qed

lemma re_reads_LEVEL: "re_reads LEVEL_RE (\<Union>w \<in> set LEVEL_WORDS. same_word w)"
proof -
  have "lang_seq {[]} (lang_seq L {[]}) = L" for L
    by (auto simp: lang_seq_def)
  then show ?thesis
    using re_reads_seq [OF re_reads_boundary re_reads_seq [OF re_reads_level_word re_reads_boundary]]
    by (simp add: LEVEL_RE_def)
qed

lemma upper_lower_char [simp]: "upper_char (lower_char c) = upper_char c"
  by (auto simp: lower_char_def upper_char_def split: option.splits dest!: map_of_SomeD)

lemma js_upper_lower: "map lower_char v = map lower_char w \<Longrightarrow> js_upper v = js_upper w"
proof -
  assume "map lower_char v = map lower_char w"
  then have "map upper_char (map lower_char v) = map upper_char (map lower_char w)" by simp
  then show ?thesis by (simp add: js_upper_def comp_def)
qed

lemma level_words_upper: "w \<in> set LEVEL_WORDS \<Longrightarrow> js_upper w = w"
proof -
  have "list_all (\<lambda>w. js_upper w = w) LEVEL_WORDS" by code_simp
  then show "w \<in> set LEVEL_WORDS \<Longrightarrow> js_upper w = w" by (simp add: list_all_iff)
qed

lemma extractLevel_word: "extractLevel line = Some l \<Longrightarrow> l \<in> set LEVEL_WORDS"
proof -
  assume "extractLevel line = Some l"
  then obtain m where m: "l = js_upper m" "m \<in> set (re_match_all LEVEL_RE [] line)"
    by (auto simp: extractLevel_def re_match_first_def split: list.splits)
  have "[] \<notin> (\<Union>w \<in> set LEVEL_WORDS. same_word w)"
    by (auto simp: LEVEL_WORDS_def same_word_def)
  then obtain w where w: "w \<in> set LEVEL_WORDS" "m \<in> same_word w"
    using re_match_all_sound [OF re_reads_LEVEL _ m(2)] by auto
  then have "js_upper m = js_upper w"
    by (intro js_upper_lower) (simp add: same_word_def)
  then show ?thesis using w m level_words_upper by simp
qed

definition FILTER_LEVELS :: "string list" where
  "FILTER_LEVELS = [''ERROR'', ''WARN'', ''INFO'', ''DEBUG'', ''TRACE'', ''SUCCESS'']"

lemma normalizeLevel_word: "l \<in> set LEVEL_WORDS \<Longrightarrow> normalizeLevel l \<in> set FILTER_LEVELS"
proof -
  have "list_all (\<lambda>l. normalizeLevel l \<in> set FILTER_LEVELS) LEVEL_WORDS" by code_simp
  then show "l \<in> set LEVEL_WORDS \<Longrightarrow> normalizeLevel l \<in> set FILTER_LEVELS" by (simp add: list_all_iff)
qed

lemma filter_levels_ne: "l \<in> set LEVEL_WORDS \<Longrightarrow> l \<noteq> []"
  by (auto simp: LEVEL_WORDS_def)

text \<open>What \<open>filterLogLines\<close> keeps.\<close>

definition level_ok :: "string \<Rightarrow> string \<Rightarrow> bool" where
  "level_ok level line =
     (level = ''ALL'' \<or> (case extractLevel line of None \<Rightarrow> False | Some l \<Rightarrow> normalizeLevel l = level))"

definition source_ok :: "string \<Rightarrow> string \<Rightarrow> bool" where
  "source_ok source line = (source = ''ALL'' \<or> extractSource line = Some source)"

lemma filterLogLines_keeps:
  "filterLogLines logs search level source =
     filter (\<lambda>line. level_ok level line \<and> source_ok source line \<and> matchesSearch line (parseSearchQuery search)) logs"
proof -
  have raw: "(level \<noteq> ''ALL'' \<and> (\<not> str_truthy (extractLevel line) \<or> normalizeLevel (the (extractLevel line)) \<noteq> level))
             = (\<not> level_ok level line)" for line
    using extractLevel_word [of line] filter_levels_ne
    by (auto simp: level_ok_def split: option.splits)
  show ?thesis
  proof (cases "parseSearchQuery search = [] \<and> level = ''ALL'' \<and> source = ''ALL''")
    case True
    then show ?thesis
      by (simp add: filterLogLines_def Let_def level_ok_def source_ok_def matchesSearch_def)
  next
    case False
    then show ?thesis
      unfolding filterLogLines_def Let_def raw
      by (auto simp: source_ok_def intro!: filter_cong)
  qed
qed

section \<open>Queries written with quotes\<close>

lemma all_terms_match_all:
  "all_terms_match h ts = list_all (\<lambda>t. str_includes h (term_text t) = (\<not> term_negated t)) ts"
  by (induction ts) (auto simp: Let_def)

lemma matchesSearch_all:
  "matchesSearch line ts = list_all (\<lambda>t. str_includes (js_lower line) (term_text t) = (\<not> term_negated t)) ts"
  by (simp add: matchesSearch_def all_terms_match_all)

definition quote_term :: "SearchTerm \<Rightarrow> string" where
  "quote_term t = (if term_negated t then ''-'' else []) @ [CHR 0x22] @ term_text t @ [CHR 0x22]"

definition quotable :: "SearchTerm \<Rightarrow> bool" where
  "quotable t = (term_text t \<noteq> [] \<and> list_all not_quote (term_text t) \<and> js_lower (term_text t) = term_text t)"

lemma quote_body_quoted:
  assumes "list_all not_quote p"
  shows "quote_body (CHR 0x22 # p @ CHR 0x22 # rest) = Some (p, rest)"
proof -
  have "takeWhile not_quote (p @ CHR 0x22 # rest) = p" "dropWhile not_quote (p @ CHR 0x22 # rest) = CHR 0x22 # rest"
    using assms by (induction p) (auto simp: not_quote_def)
  then show ?thesis by (simp add: not_quote_def)
qed

lemma search_terms_quoted:
  assumes "quotable t"
  shows "search_terms (quote_term t @ rest) = t # search_terms rest"
proof -
  have "quoted_at (quote_term t @ rest) = Some (term_negated t, term_text t, rest)"
    using assms quote_body_quoted [of "term_text t" rest]
    by (simp add: quotable_def quoted_at_def quote_term_def Let_def)
  then have "term_at (quote_term t @ rest) = Some (Phrase (term_negated t) (term_text t), rest)"
    by (simp add: term_at_def)
  then show ?thesis
    using assms by (simp add: search_terms.simps [of "quote_term t @ rest"] term_of_def quotable_def)
qed

lemma search_terms_space: "search_terms (CHR '' '' # s) = search_terms s"
proof -
  have "term_at (CHR '' '' # s) = None"
    by (simp add: term_at_def quoted_at_def not_quote_def js_space_def)
  then show ?thesis by (simp add: search_terms.simps [of "CHR '' '' # s"])
qed

lemma search_terms_Nil [simp]: "search_terms [] = []"
  by (simp add: search_terms.simps [of "[]"] term_at_def quoted_at_def)

lemma search_terms_join: "list_all quotable ts \<Longrightarrow> search_terms (js_join '' '' (map quote_term ts)) = ts"
proof (induction ts rule: induct_list012)
  case (2 t)
  then show ?case using search_terms_quoted [of t "[]"] by simp
next
  case (3 t u ts)
  then show ?case by (simp add: search_terms_quoted search_terms_space)
qed simp

section \<open>Properties\<close>

text \<open>a line passes a level filter only when it carries one of the ten level words and that word's class
  is the level asked for; so the filter \<open>''OTHER''\<close>, or any text that is not one of the six levels,
  shows nothing.\<close>

theorem level_filter_sound:
  assumes "level \<noteq> ''ALL''" and "line \<in> set (filterLogLines logs search level source)"
  shows "\<exists>l. extractLevel line = Some l \<and> l \<in> set LEVEL_WORDS \<and> normalizeLevel l = level \<and>
             level \<in> set FILTER_LEVELS"
proof -
  have "level_ok level line" using assms(2) by (simp add: filterLogLines_keeps)
  then obtain l where "extractLevel line = Some l" "normalizeLevel l = level"
    using assms(1) by (auto simp: level_ok_def split: option.splits)
  then show ?thesis using extractLevel_word normalizeLevel_word by blast
qed

theorem level_filter_sound_witness:
  "\<exists>l. extractLevel ''job failed: retry'' = Some l \<and> l \<in> set LEVEL_WORDS \<and> normalizeLevel l = ''ERROR'' \<and>
       ''ERROR'' \<in> set FILTER_LEVELS"
proof (rule level_filter_sound [where logs = "[''job failed: retry'', ''ok'']" and search = "[]" and source = "''ALL''"])
  show "''job failed: retry'' \<in> set (filterLogLines [''job failed: retry'', ''ok''] [] ''ERROR'' ''ALL'')"
    by code_simp
qed simp

text \<open>a query of quoted, possibly negated phrases separated by blanks is read back as exactly these
  phrases, a line matches when it contains every plain phrase and none of the negated ones, and
  filtering by two queries in turn is filtering by both at once.\<close>

theorem search_query_roundtrip:
  assumes "list_all quotable ts" and "list_all quotable us"
  shows "parseSearchQuery (js_join '' '' (map quote_term ts)) = ts \<and>
         matchesSearch line ts =
           list_all (\<lambda>t. str_includes (js_lower line) (term_text t) = (\<not> term_negated t)) ts \<and>
         filterLogLines (filterLogLines logs (js_join '' '' (map quote_term ts)) level source)
             (js_join '' '' (map quote_term us)) level source =
           filterLogLines logs (js_join '' '' (map quote_term (ts @ us))) level source"
proof -
  have q: "parseSearchQuery (js_join '' '' (map quote_term vs)) = vs" if "list_all quotable vs" for vs
    using that by (simp add: parseSearchQuery_def search_terms_join)
  have "list_all quotable (ts @ us)" using assms by simp
  then show ?thesis
    using q [OF assms(1)] q [OF assms(2)] q [of "ts @ us"] matchesSearch_all [of line ts]
    by (auto simp: filterLogLines_keeps matchesSearch_all intro!: filter_cong)
qed

theorem search_query_roundtrip_witness:
  "parseSearchQuery (js_join '' '' (map quote_term
     [\<lparr> term_text = ''terminal state'', term_negated = True \<rparr>, \<lparr> term_text = ''disk'', term_negated = False \<rparr>])) =
     [\<lparr> term_text = ''terminal state'', term_negated = True \<rparr>, \<lparr> term_text = ''disk'', term_negated = False \<rparr>]"
  using search_query_roundtrip
    [of "[\<lparr> term_text = ''terminal state'', term_negated = True \<rparr>, \<lparr> term_text = ''disk'', term_negated = False \<rparr>]" "[]"]
  by (simp add: quotable_def not_quote_def js_lower_def lower_char_def)

end
