(* ===== verification/Template_Store.thy ===== *)
theory Template_Store
  imports Form_Types Js_Date
begin

text \<open>
  Migration templates: the custom metadata rows (\<open>metadataUtils.ts\<close>), the blueprint resource
  (\<open>ui/src/api/migration-blueprints/model.ts\<close>), the flattened template of the Templates tab
  (\<open>features/migration/api/migration-blueprints/types.ts\<close>), the conversions between the two
  (\<open>adapters.ts\<close>), the resource names, and the search and sort of the template list
  (\<open>templateFilters.ts\<close>).
\<close>

section \<open>Custom metadata\<close>

definition METADATA_MAX_LENGTH :: nat where
  "METADATA_MAX_LENGTH = 255"

definition obj_nonempty :: "'v sobj \<Rightarrow> 'v sobj option" where
  "obj_nonempty m = (if length (obj_keys m) > 0 then Some m else None)"

definition customMetadataToRecord :: "KeyValuePair list option \<Rightarrow> string sobj option" where
  "customMetadataToRecord pairs =
     (case pairs of
        None \<Rightarrow> None
      | Some rows \<Rightarrow>
          (if rows = [] then None
           else obj_nonempty (fold (\<lambda>row rec.
                  (let trimmedKey = js_trim (kv_key row)
                   in if trimmedKey = [] then rec else sobj_set trimmedKey (js_trim (kv_value row)) rec))
                rows [])))"

definition countVmSourceEntries :: "VmData \<Rightarrow> nat" where
  "countVmSourceEntries vm =
     length (obj_keys (list_or (vd_tags vm))) + length (obj_keys (list_or (vd_customAttributes vm)))"

definition summarizeSourceEntries :: "VmData list \<Rightarrow> nat \<times> nat" where
  "summarizeSourceEntries vms = (length vms, fold (\<lambda>vm n. n + countVmSourceEntries vm) vms 0)"

definition customMetadataToMap :: "KeyValuePair list option \<Rightarrow> string sobj" where
  "customMetadataToMap rows =
     fold (\<lambda>row m. (let trimmed = js_trim (kv_key row)
                     in if trimmed \<noteq> [] then sobj_set trimmed (kv_value row) m else m)) (list_or rows) []"

definition customMetadataToRows :: "string sobj option \<Rightarrow> KeyValuePair list" where
  "customMetadataToRows m = map (\<lambda>(k, v). \<lparr> kv_key = k, kv_value = v \<rparr>) (list_or m)"

section \<open>Blueprints and saved templates\<close>

record MigrationBlueprintStrategy =
  bs_type :: string
  bs_dataCopyStart :: "string option"
  bs_vmCutoverStart :: "string option"
  bs_vmCutoverEnd :: "string option"
  bs_adminInitiatedCutOver :: "bool option"
  bs_performHealthChecks :: "bool option"
  bs_healthCheckPort :: "string option"
  bs_disconnectSourceNetwork :: "bool option"
  bs_arrayOffload :: "bool option"

record MigrationBlueprintSpec =
  bp_displayName :: string
  bp_description :: "string option"
  bp_vmwareRef :: "string option"
  bp_pcdRef :: "string option"
  bp_vmwareClusterName :: "string option"
  bp_noVMwareClusterFilter :: "bool option"
  bp_targetPCDClusterName :: "string option"
  bp_networkMappings :: "ResourceMap list option"
  bp_storageMappings :: "ResourceMap list option"
  bp_arrayCredsMappings :: "ResourceMap list option"
  bp_proxyVMRef :: "string option"
  bp_migrationStrategy :: "MigrationBlueprintStrategy option"
  bp_advancedOptions :: "AdvancedOptions option"
  bp_postMigrationAction :: "PostMigrationAction option"
  bp_firstBootScript :: "string option"
  bp_securityGroups :: "string list option"
  bp_serverGroup :: "string option"
  bp_fallbackToDHCP :: "bool option"
  bp_dataOnly :: "bool option"
  bp_preserveSourceTags :: "bool option"
  bp_customMetadata :: "string sobj option"
  bp_useGPUFlavor :: "bool option"
  bp_storageCopyMethod :: "string option"
  bp_osFamily :: "string option"
  bp_virtioWinDriver :: "string option"

record BlueprintMetadata =
  bm_name :: string
  bm_namespace :: "string option"
  bm_creationTimestamp :: "string option"
  bm_uid :: "string option"
  bm_resourceVersion :: "string option"

record MigrationBlueprint =
  bl_metadata :: BlueprintMetadata
  bl_spec :: MigrationBlueprintSpec

record SavedTemplate =
  sv_name :: string
  sv_resourceVersion :: string
  sv_displayName :: string
  sv_description :: "string option"
  sv_createdAt :: string
  sv_sourceVCenter :: string
  sv_sourceCluster :: string
  sv_destination :: string
  sv_targetCluster :: string
  sv_networkMappings :: "ResourceMap list"
  sv_storageMappings :: "ResourceMap list"
  sv_arrayCredsMappings :: "ResourceMap list"
  sv_dataCopyMethod :: string
  sv_dataCopyStartTime :: string
  sv_storageCopyMethod :: string
  sv_proxyVMRef :: string
  sv_cutoverOption :: string
  sv_cutoverStartTime :: string
  sv_cutoverEndTime :: string
  sv_disconnectSourceNetwork :: bool
  sv_fallbackToDHCP :: bool
  sv_dataOnly :: bool
  sv_preserveSourceTags :: bool
  sv_customMetadata :: "KeyValuePair list"
  sv_securityGroups :: "string list"
  sv_serverGroup :: string
  sv_firstBootScript :: string
  sv_networkPersistence :: bool
  sv_removeVMwareTools :: bool
  sv_imageProfiles :: "string list"
  sv_periodicSyncInterval :: string
  sv_periodicSyncEnabled :: bool
  sv_acknowledgeNetworkConflictRisk :: bool
  sv_postMigrationAction :: "PostMigrationAction option"
  sv_osFamily :: "string option"
  sv_useGPU :: "bool option"
  sv_spec :: MigrationBlueprintSpec

record SaveAsTemplateInput =
  si_displayName :: string
  si_description :: "string option"
  si_sourceVCenter :: string
  si_sourceCluster :: "string option"
  si_destination :: string
  si_targetCluster :: string
  si_networkMappings :: "ResourceMap list"
  si_storageMappings :: "ResourceMap list"
  si_arrayCredsMappings :: "ResourceMap list option"
  si_dataCopyMethod :: string
  si_dataCopyStartTime :: "string option"
  si_storageCopyMethod :: "string option"
  si_proxyVMRef :: "string option"
  si_cutoverOption :: string
  si_cutoverStartTime :: "string option"
  si_cutoverEndTime :: "string option"
  si_disconnectSourceNetwork :: "bool option"
  si_fallbackToDHCP :: "bool option"
  si_dataOnly :: "bool option"
  si_preserveSourceTags :: "bool option"
  si_customMetadata :: "KeyValuePair list option"
  si_securityGroups :: "string list option"
  si_serverGroup :: "string option"
  si_firstBootScript :: "string option"
  si_networkPersistence :: "bool option"
  si_removeVMwareTools :: "bool option"
  si_imageProfiles :: "string list option"
  si_periodicSyncInterval :: "string option"
  si_periodicSyncEnabled :: "bool option"
  si_acknowledgeNetworkConflictRisk :: "bool option"
  si_postMigrationAction :: "PostMigrationAction option"
  si_osFamily :: "string option"
  si_useGPU :: "bool option"

text \<open>\<open>x?.f\<close> on an optional value with an optional property.\<close>

definition opt_get :: "('a \<Rightarrow> 'b option) \<Rightarrow> 'a option \<Rightarrow> 'b option" where
  "opt_get f v = (case v of None \<Rightarrow> None | Some x \<Rightarrow> f x)"

lemma opt_get_simps [simp]: "opt_get f None = None" "opt_get f (Some x) = f x"
  by (simp_all add: opt_get_def)

definition only_nonempty :: "'a list option \<Rightarrow> 'a list option" where
  "only_nonempty v = (if nonempty_opt v then v else None)"

lemma only_nonempty_simps [simp]:
  "only_nonempty None = None" "only_nonempty (Some xs) = (if xs = [] then None else Some xs)"
  by (simp_all add: only_nonempty_def)

definition deriveCutoverOption :: "MigrationBlueprintStrategy option \<Rightarrow> string" where
  "deriveCutoverOption strategy =
     (if bool_or (opt_get bs_adminInitiatedCutOver strategy) then CUTOVER_ADMIN_INITIATED
      else if isSetTime (opt_get bs_vmCutoverStart strategy) \<or> isSetTime (opt_get bs_vmCutoverEnd strategy)
      then CUTOVER_TIME_WINDOW
      else CUTOVER_IMMEDIATE)"

definition set_time :: "string option \<Rightarrow> string" where
  "set_time v = (if isSetTime v then str_or v [] else [])"

definition blueprintToSavedTemplate :: "MigrationBlueprint \<Rightarrow> SavedTemplate" where
  "blueprintToSavedTemplate blueprint =
     (let spec = bl_spec blueprint; metadata = bl_metadata blueprint;
          strategy = bp_migrationStrategy spec; advanced = bp_advancedOptions spec
      in \<lparr> sv_name = bm_name metadata,
           sv_resourceVersion = str_or (bm_resourceVersion metadata) [],
           sv_displayName = bp_displayName spec,
           sv_description = bp_description spec,
           sv_createdAt = str_or (bm_creationTimestamp metadata) ''1970-01-01T00:00:00.000Z'',
           sv_sourceVCenter = str_or (bp_vmwareRef spec) [],
           sv_sourceCluster = str_or (bp_vmwareClusterName spec) [],
           sv_destination = str_or (bp_pcdRef spec) [],
           sv_targetCluster = str_or (bp_targetPCDClusterName spec) [],
           sv_networkMappings = list_or (bp_networkMappings spec),
           sv_storageMappings = list_or (bp_storageMappings spec),
           sv_arrayCredsMappings = list_or (bp_arrayCredsMappings spec),
           sv_dataCopyMethod = str_or (map_option bs_type strategy) ''cold'',
           sv_dataCopyStartTime = set_time (opt_get bs_dataCopyStart strategy),
           sv_storageCopyMethod = str_or (bp_storageCopyMethod spec) ''normal'',
           sv_proxyVMRef = str_or (bp_proxyVMRef spec) [],
           sv_cutoverOption = deriveCutoverOption strategy,
           sv_cutoverStartTime = set_time (opt_get bs_vmCutoverStart strategy),
           sv_cutoverEndTime = set_time (opt_get bs_vmCutoverEnd strategy),
           sv_disconnectSourceNetwork = bool_or (opt_get bs_disconnectSourceNetwork strategy),
           sv_fallbackToDHCP = bool_or (bp_fallbackToDHCP spec),
           sv_dataOnly = bool_or (bp_dataOnly spec),
           sv_preserveSourceTags = bool_or (bp_preserveSourceTags spec),
           sv_customMetadata = customMetadataToRows (bp_customMetadata spec),
           sv_securityGroups = list_or (bp_securityGroups spec),
           sv_serverGroup = str_or (bp_serverGroup spec) [],
           sv_firstBootScript = str_or (bp_firstBootScript spec) [],
           sv_networkPersistence = bool_or (opt_get ao_networkPersistence advanced),
           sv_removeVMwareTools = bool_or (opt_get ao_removeVMwareTools advanced),
           sv_imageProfiles = list_or (opt_get ao_imageProfiles advanced),
           sv_periodicSyncInterval = str_or (opt_get ao_periodicSyncInterval advanced) [],
           sv_periodicSyncEnabled = bool_or (opt_get ao_periodicSyncEnabled advanced),
           sv_acknowledgeNetworkConflictRisk = bool_or (opt_get ao_acknowledgeNetworkConflictRisk advanced),
           sv_postMigrationAction = bp_postMigrationAction spec,
           sv_osFamily = bp_osFamily spec,
           sv_useGPU = bp_useGPUFlavor spec,
           sv_spec = spec \<rparr>)"

definition no_advanced :: AdvancedOptions where
  "no_advanced =
     \<lparr> ao_granularVolumeTypes = None, ao_granularNetworks = None, ao_granularPorts = None,
       ao_periodicSyncInterval = None, ao_periodicSyncEnabled = None, ao_networkPersistence = None,
       ao_removeVMwareTools = None, ao_acknowledgeNetworkConflictRisk = None, ao_imageProfiles = None \<rparr>"

definition savedTemplateInputToBlueprintSpec :: "SaveAsTemplateInput \<Rightarrow> MigrationBlueprintSpec" where
  "savedTemplateInputToBlueprintSpec input =
     (let advancedOptions = no_advanced
            \<lparr> ao_networkPersistence := si_networkPersistence input,
              ao_removeVMwareTools := si_removeVMwareTools input,
              ao_imageProfiles := only_nonempty (si_imageProfiles input),
              ao_periodicSyncInterval := only_truthy (si_periodicSyncInterval input),
              ao_periodicSyncEnabled := si_periodicSyncEnabled input,
              ao_acknowledgeNetworkConflictRisk := si_acknowledgeNetworkConflictRisk input \<rparr>;
          window = (si_cutoverOption input = CUTOVER_TIME_WINDOW)
      in \<lparr> bp_displayName = si_displayName input,
           bp_description = only_truthy (si_description input),
           bp_vmwareRef = only_truthy (Some (si_sourceVCenter input)),
           bp_pcdRef = only_truthy (Some (si_destination input)),
           bp_vmwareClusterName = only_truthy (si_sourceCluster input),
           bp_noVMwareClusterFilter = None,
           bp_targetPCDClusterName = only_truthy (Some (si_targetCluster input)),
           bp_networkMappings = Some (si_networkMappings input),
           bp_storageMappings = Some (si_storageMappings input),
           bp_arrayCredsMappings = only_nonempty (si_arrayCredsMappings input),
           bp_proxyVMRef = only_truthy (si_proxyVMRef input),
           bp_migrationStrategy = Some
             \<lparr> bs_type = si_dataCopyMethod input,
               bs_dataCopyStart = only_truthy (si_dataCopyStartTime input),
               bs_vmCutoverStart = (if window then only_truthy (si_cutoverStartTime input) else None),
               bs_vmCutoverEnd = (if window then only_truthy (si_cutoverEndTime input) else None),
               bs_adminInitiatedCutOver = Some (si_cutoverOption input = CUTOVER_ADMIN_INITIATED),
               bs_performHealthChecks = None,
               bs_healthCheckPort = None,
               bs_disconnectSourceNetwork = Some (bool_or (si_disconnectSourceNetwork input)),
               bs_arrayOffload = None \<rparr>,
           bp_advancedOptions = (if advancedOptions \<noteq> no_advanced then Some advancedOptions else None),
           bp_postMigrationAction = si_postMigrationAction input,
           bp_firstBootScript = only_truthy (si_firstBootScript input),
           bp_securityGroups = only_nonempty (si_securityGroups input),
           bp_serverGroup = only_truthy (si_serverGroup input),
           bp_fallbackToDHCP = Some (bool_or (si_fallbackToDHCP input)),
           bp_dataOnly = Some (bool_or (si_dataOnly input)),
           bp_preserveSourceTags = Some (bool_or (si_preserveSourceTags input)),
           bp_customMetadata = obj_nonempty (customMetadataToMap (si_customMetadata input)),
           bp_useGPUFlavor = Some (bool_or (si_useGPU input)),
           bp_storageCopyMethod = only_truthy (si_storageCopyMethod input),
           bp_osFamily = only_truthy (si_osFamily input),
           bp_virtioWinDriver = None \<rparr>)"

section \<open>Names\<close>

definition name_char :: "char \<Rightarrow> bool" where
  "name_char c = (c \<in> set ''abcdefghijklmnopqrstuvwxyz0123456789'')"

text \<open>\<open>.replace(/[^a-z0-9]+/g, '-')\<close>\<close>

function dash_runs :: "string \<Rightarrow> string" where
  "dash_runs [] = []"
| "dash_runs (c # s) =
     (if name_char c then c # dash_runs s
      else CHR ''-'' # dash_runs (dropWhile (\<lambda>x. \<not> name_char x) s))"
  by pat_completeness auto
termination
  by (relation "measure length") (auto simp: le_imp_less_Suc length_dropWhile_le)

text \<open>\<open>.replace(/(^-|-$)/g, '')\<close>\<close>

definition strip_dashes :: "string \<Rightarrow> string" where
  "strip_dashes s =
     (let t = (case s of [] \<Rightarrow> [] | c # r \<Rightarrow> if c = CHR ''-'' then r else s)
      in if t \<noteq> [] \<and> last t = CHR ''-'' then butlast t else t)"

definition sanitizeTemplateName :: "string \<Rightarrow> string" where
  "sanitizeTemplateName displayName =
     (let s = strip_dashes (dash_runs (js_lower (js_trim displayName)))
      in if s = [] then ''template'' else s)"

definition numbered_name :: "string \<Rightarrow> nat \<Rightarrow> string" where
  "numbered_name base suffix = base @ ''-'' @ nat_str suffix"

lemma numbered_name_inj [simp]: "numbered_name b m = numbered_name b n \<longleftrightarrow> m = n"
  using nat_str_inj by (auto simp: numbered_name_def)

text \<open>The numbers from \<open>suffix\<close> on whose name is taken: what the loop of \<open>uniqueTemplateName\<close> uses up.\<close>

definition taken_from :: "string \<Rightarrow> string list \<Rightarrow> nat \<Rightarrow> nat set" where
  "taken_from base taken suffix = {n. suffix \<le> n \<and> numbered_name base n \<in> set taken}"

lemma finite_taken_from [simp]: "finite (taken_from base taken suffix)"
proof -
  have "inj_on (numbered_name base) (taken_from base taken suffix)" by (simp add: inj_on_def)
  moreover have "numbered_name base ` taken_from base taken suffix \<subseteq> set taken"
    by (auto simp: taken_from_def)
  ultimately show ?thesis by (metis finite_imageD finite_set finite_subset)
qed

lemma taken_from_step:
  "taken_from base taken suffix =
     (if numbered_name base suffix \<in> set taken then insert suffix (taken_from base taken (Suc suffix))
      else taken_from base taken (Suc suffix))"
  by (auto simp: taken_from_def Suc_le_eq le_less)

function unique_loop :: "string \<Rightarrow> string list \<Rightarrow> string \<Rightarrow> nat \<Rightarrow> string" where
  "unique_loop base taken candidate suffix =
     (if candidate \<in> set taken
      then unique_loop base taken (numbered_name base suffix) (Suc suffix)
      else candidate)"
  by pat_completeness auto
termination
proof (relation "measure (\<lambda>(base, taken, candidate, suffix).
          card (taken_from base taken suffix) + (if candidate \<in> set taken then 1 else 0))", simp)
  fix base candidate :: string and taken :: "string list" and suffix :: nat
  assume "candidate \<in> set taken"
  have "suffix \<notin> taken_from base taken (Suc suffix)" by (simp add: taken_from_def)
  then show "((base, taken, numbered_name base suffix, Suc suffix), (base, taken, candidate, suffix)) \<in>
      measure (\<lambda>(base, taken, candidate, suffix).
          card (taken_from base taken suffix) + (if candidate \<in> set taken then 1 else 0))"
    using \<open>candidate \<in> set taken\<close> by (simp add: taken_from_step [of base taken suffix])
qed

declare unique_loop.simps [simp del]

definition uniqueTemplateName :: "string \<Rightarrow> string list \<Rightarrow> string" where
  "uniqueTemplateName base existingNames = unique_loop base existingNames base 2"

section \<open>Search and sort\<close>

definition filterTemplates :: "SavedTemplate list \<Rightarrow> string \<Rightarrow> string \<Rightarrow> SavedTemplate list" where
  "filterTemplates templates query copyMethod =
     (let trimmedQuery = js_lower (js_trim query)
      in filter (\<lambda>t.
           if copyMethod \<noteq> ''all'' \<and> sv_dataCopyMethod t \<noteq> copyMethod then False
           else if trimmedQuery = [] then True
           else list_ex (\<lambda>field. case field of None \<Rightarrow> False | Some f \<Rightarrow> str_includes (js_lower f) trimmedQuery)
                  [Some (sv_displayName t), sv_description t]) templates)"

text \<open>\<open>localeCompare\<close> belongs to the host: a comparator that the model takes as an argument.\<close>

definition sortTemplates :: "(string \<Rightarrow> string \<Rightarrow> int) \<Rightarrow> SavedTemplate list \<Rightarrow> string \<Rightarrow> SavedTemplate list" where
  "sortTemplates localeCompare templates sortKey =
     (if sortKey = ''name''
      then js_sort (\<lambda>a b. localeCompare (sv_displayName a) (sv_displayName b)) templates
      else js_sort (newest_first (\<lambda>t. date_parse (sv_createdAt t))) templates)"

section \<open>Metadata: what a round trip keeps\<close>

lemma fold_obj_ok:
  "obj_ok key_before m \<Longrightarrow>
   obj_ok key_before (fold (\<lambda>row m. if P row then m else sobj_set (f row) (g row) m) rows m)"
  by (induction rows arbitrary: m) (simp_all add: skey.ok_set)

lemma customMetadataToMap_fold:
  "customMetadataToMap rows =
     fold (\<lambda>row m. if js_trim (kv_key row) = [] then m else sobj_set (js_trim (kv_key row)) (kv_value row) m)
       (list_or rows) []"
  by (auto simp: customMetadataToMap_def Let_def intro!: fold_cong)

lemma customMetadataToMap_ok: "obj_ok key_before (customMetadataToMap rows)"
  by (simp add: customMetadataToMap_fold fold_obj_ok skey.ok_Nil)

lemma fold_keys_trimmed:
  "(\<forall>k \<in> fst ` set m. k \<noteq> [] \<and> js_trim k = k) \<Longrightarrow>
   k \<in> fst ` set (fold (\<lambda>row m. if js_trim (kv_key row) = [] then m
                                  else sobj_set (js_trim (kv_key row)) (g row) m) rows m) \<Longrightarrow>
   k \<noteq> [] \<and> js_trim k = k"
proof (induction rows arbitrary: m)
  case (Cons row rows)
  show ?case
  proof (cases "js_trim (kv_key row) = []")
    case True
    then show ?thesis using Cons.IH [of m] Cons.prems by simp
  next
    case False
    have "\<forall>k \<in> fst ` set (sobj_set (js_trim (kv_key row)) (g row) m). k \<noteq> [] \<and> js_trim k = k"
      using Cons.prems(1) False by simp
    from Cons.IH [OF this] Cons.prems(2) False show ?thesis by simp
  qed
qed auto

lemma customMetadataToMap_keys:
  "(k, v) \<in> set (customMetadataToMap rows) \<Longrightarrow> k \<noteq> [] \<and> js_trim k = k"
  using fold_keys_trimmed [of "[]" k kv_value "list_or rows"]
  by (force simp: customMetadataToMap_fold)

text \<open>Reading the rows of a well-formed map with trimmed keys assigns its entries one by one.\<close>

lemma fold_rows_merge:
  assumes "\<And>k v. (k, v) \<in> set n \<Longrightarrow> k \<noteq> [] \<and> js_trim k = k"
  shows "fold (\<lambda>row m. if js_trim (kv_key row) = [] then m else sobj_set (js_trim (kv_key row)) (g (kv_value row)) m)
           (customMetadataToRows (Some n)) m =
         obj_merge key_before m (obj_map g n)"
  using assms
proof (induction n arbitrary: m)
  case (Cons e n)
  obtain k v where e: "e = (k, v)" by (cases e)
  have k: "k \<noteq> []" "js_trim k = k"
    using Cons.prems [of k v] by (simp_all add: e)
  have "fold (\<lambda>row m. if js_trim (kv_key row) = [] then m else sobj_set (js_trim (kv_key row)) (g (kv_value row)) m)
           (customMetadataToRows (Some n)) (sobj_set k (g v) m) =
        obj_merge key_before (sobj_set k (g v) m) (obj_map g n)"
  proof (rule Cons.IH)
    show "k \<noteq> [] \<and> js_trim k = k" if "(k, v) \<in> set n" for k v
      using Cons.prems [of k v] that by simp
  qed
  then show ?case by (simp add: customMetadataToRows_def obj_merge_def e k)
qed (simp add: customMetadataToRows_def obj_merge_def)

lemma customMetadataToMap_rows [simp]:
  "customMetadataToMap (Some (customMetadataToRows (Some (customMetadataToMap rows)))) = customMetadataToMap rows"
proof -
  let ?m = "customMetadataToMap rows"
  have "customMetadataToMap (Some (customMetadataToRows (Some ?m))) = obj_merge key_before [] (obj_map (\<lambda>v. v) ?m)"
    unfolding customMetadataToMap_fold [of "Some (customMetadataToRows (Some ?m))"] list_or_simps
    by (rule fold_rows_merge [where g = "\<lambda>v. v"]) (use customMetadataToMap_keys in auto)
  then show ?thesis by (simp add: skey.merge_self customMetadataToMap_ok)
qed

lemma fold_trim_values:
  "fold (\<lambda>row m. if js_trim (kv_key row) = [] then m
                  else sobj_set (js_trim (kv_key row)) (js_trim (kv_value row)) m) rows (obj_map js_trim m) =
   obj_map js_trim
     (fold (\<lambda>row m. if js_trim (kv_key row) = [] then m else sobj_set (js_trim (kv_key row)) (kv_value row) m) rows m)"
  by (induction rows arbitrary: m) (simp_all add: obj_set_map)

lemma customMetadataToRecord_map:
  "customMetadataToRecord rows = obj_nonempty (obj_map js_trim (customMetadataToMap rows))"
proof (cases rows)
  case None
  then show ?thesis by (simp add: customMetadataToRecord_def customMetadataToMap_def obj_nonempty_def obj_keys_def)
next
  case (Some rs)
  then show ?thesis
    using fold_trim_values [of rs "[]"]
    by (simp add: customMetadataToRecord_def customMetadataToMap_fold Let_def obj_nonempty_def obj_keys_def)
qed

text \<open>what the plan carries as custom metadata: the value of the last row of a key, keys and values trimmed,
  rows with a blank key dropped; saving the rows in a template and starting the migration from the
  template instead changes nothing.\<close>

theorem custom_metadata_last_wins:
  "(case customMetadataToRecord (Some rows) of None \<Rightarrow> Map.empty | Some m \<Rightarrow> map_of m) k =
     (case filter (\<lambda>row. js_trim (kv_key row) = k) rows of
        [] \<Rightarrow> None
      | r # rs \<Rightarrow> if k = [] then None else Some (js_trim (kv_value (last (r # rs))))) \<and>
   customMetadataToRecord (Some (customMetadataToRows (Some (customMetadataToMap (Some rows))))) =
     customMetadataToRecord (Some rows)"
proof
  have fold: "map_of (fold (\<lambda>row m. if js_trim (kv_key row) = [] then m
                    else sobj_set (js_trim (kv_key row)) (js_trim (kv_value row)) m) rows m) k =
        (case filter (\<lambda>row. js_trim (kv_key row) = k) rows of
           [] \<Rightarrow> map_of m k
         | r # rs \<Rightarrow> if k = [] then map_of m k else Some (js_trim (kv_value (last (r # rs)))))" for m
  proof (induction rows arbitrary: m)
    case (Cons row rows)
    then show ?case
      by (cases "filter (\<lambda>row. js_trim (kv_key row) = k) rows") auto
  qed simp
  let ?f = "fold (\<lambda>row m. if js_trim (kv_key row) = [] then m
                    else sobj_set (js_trim (kv_key row)) (js_trim (kv_value row)) m) rows []"
  have "(case customMetadataToRecord (Some rows) of None \<Rightarrow> Map.empty | Some m \<Rightarrow> map_of m) k = map_of ?f k"
    by (simp add: customMetadataToRecord_def obj_nonempty_def obj_keys_def Let_def)
  then show "(case customMetadataToRecord (Some rows) of None \<Rightarrow> Map.empty | Some m \<Rightarrow> map_of m) k =
     (case filter (\<lambda>row. js_trim (kv_key row) = k) rows of
        [] \<Rightarrow> None
      | r # rs \<Rightarrow> if k = [] then None else Some (js_trim (kv_value (last (r # rs)))))"
    by (simp add: fold split: list.split)
  show "customMetadataToRecord (Some (customMetadataToRows (Some (customMetadataToMap (Some rows))))) =
     customMetadataToRecord (Some rows)"
    by (simp add: customMetadataToRecord_map)
qed

section \<open>Template names\<close>

lemma unique_loop_spec:
  "candidate \<in> set taken \<Longrightarrow>
   \<exists>n \<ge> suffix. unique_loop base taken candidate suffix = numbered_name base n \<and>
     numbered_name base n \<notin> set taken \<and> list_all (\<lambda>i. numbered_name base i \<in> set taken) [suffix ..< n]"
proof (induction base taken candidate suffix rule: unique_loop.induct)
  case (1 base taken candidate suffix)
  show ?case
  proof (cases "numbered_name base suffix \<in> set taken")
    case True
    then obtain n where n: "n \<ge> Suc suffix"
      "unique_loop base taken (numbered_name base suffix) (Suc suffix) = numbered_name base n"
      "numbered_name base n \<notin> set taken" "list_all (\<lambda>i. numbered_name base i \<in> set taken) [Suc suffix ..< n]"
      using "1.IH" "1.prems" by blast
    moreover have "[suffix ..< n] = suffix # [Suc suffix ..< n]" using n(1) by (simp add: upt_conv_Cons)
    ultimately show ?thesis
      using True "1.prems" by (intro exI [of _ n]) (simp add: unique_loop.simps [of base taken candidate])
  next
    case False
    then show ?thesis
      using "1.prems"
      by (intro exI [of _ suffix])
        (simp add: unique_loop.simps [of base taken candidate] unique_loop.simps [of base taken "numbered_name base suffix"])
  qed
qed

lemma uniqueTemplateName_cases:
  "uniqueTemplateName base taken \<notin> set taken \<and>
   (uniqueTemplateName base taken = base \<or>
    (base \<in> set taken \<and>
     (\<exists>n. 2 \<le> n \<and> uniqueTemplateName base taken = numbered_name base n \<and>
          list_all (\<lambda>i. numbered_name base i \<in> set taken) [2 ..< n])))"
proof (cases "base \<in> set taken")
  case True
  then show ?thesis
    using unique_loop_spec [of base taken 2 base] by (auto simp: uniqueTemplateName_def)
qed (simp add: uniqueTemplateName_def unique_loop.simps)

text \<open>\<open>uniqueTemplateName\<close> always returns, and returns a name that is not taken: the base name when it is
  free, and otherwise the base with the least number from 2 on that is free.\<close>

theorem uniqueTemplateName_fresh:
  "uniqueTemplateName base taken \<notin> set taken \<and>
   (uniqueTemplateName base taken = base \<or>
    (base \<in> set taken \<and>
     (\<exists>n. 2 \<le> n \<and> uniqueTemplateName base taken = numbered_name base n \<and>
          list_all (\<lambda>i. numbered_name base i \<in> set taken) [2 ..< n])))"
  by (rule uniqueTemplateName_cases)

text \<open>The names the API server accepts: letters, digits and dashes, a letter or digit at both ends.\<close>

definition k8s_char :: "char \<Rightarrow> bool" where
  "k8s_char c = (name_char c \<or> c = CHR ''-'')"

text \<open>The characters of the name of an object; its length the server checks when it is stored (\<open>api_takes\<close> in \<open>Template_Prefill\<close>).\<close>

definition k8s_name :: "string \<Rightarrow> bool" where
  "k8s_name s = (s \<noteq> [] \<and> list_all k8s_char s \<and> name_char (hd s) \<and> name_char (last s))"

lemma dash_runs_chars: "list_all k8s_char (dash_runs s)"
  by (induction s rule: dash_runs.induct) (auto simp: k8s_char_def)

text \<open>No two dashes in a row.\<close>

fun single_dashes :: "string \<Rightarrow> bool" where
  "single_dashes [] = True"
| "single_dashes [c] = True"
| "single_dashes (c # d # s) = ((name_char c \<or> name_char d) \<and> single_dashes (d # s))"

lemma dash_not_name [simp]: "\<not> name_char (CHR ''-'')"
  by (simp add: name_char_def)

lemma dash_runs_hd: "s = [] \<or> name_char (hd s) \<Longrightarrow> dash_runs s = [] \<or> name_char (hd (dash_runs s))"
  by (cases s) auto

lemma dash_runs_single: "single_dashes (dash_runs s)"
proof (induction s rule: dash_runs.induct)
  case (2 c s)
  show ?case
  proof (cases "name_char c")
    case True
    then show ?thesis using "2.IH"(1) by (cases "dash_runs s") auto
  next
    case False
    let ?r = "dropWhile (\<lambda>x. \<not> name_char x) s"
    have "?r = [] \<or> name_char (hd ?r)" using hd_dropWhile_not [of "\<lambda>x. \<not> name_char x" s] by blast
    then have "dash_runs ?r = [] \<or> name_char (hd (dash_runs ?r))" by (rule dash_runs_hd)
    then show ?thesis using "2.IH"(2) False by (cases "dash_runs ?r") auto
  qed
qed simp

lemma single_dashes_tl: "single_dashes (c # s) \<Longrightarrow> single_dashes s"
  by (cases s) auto

lemma single_dashes_butlast: "single_dashes s \<Longrightarrow> single_dashes (butlast s)"
proof (induction s rule: single_dashes.induct)
  case (3 c d s)
  then show ?case by (cases s) auto
qed auto

lemma single_dashes_last2:
  "single_dashes s \<Longrightarrow> s \<noteq> [] \<Longrightarrow> \<not> name_char (last s) \<Longrightarrow> butlast s = [] \<or> name_char (last (butlast s))"
  by (induction s rule: single_dashes.induct) auto

lemma strip_dashes_ends:
  assumes "single_dashes s" and "list_all k8s_char s"
  shows "strip_dashes s = [] \<or> k8s_name (strip_dashes s) \<and> single_dashes (strip_dashes s)"
proof -
  define t where "t = (case s of [] \<Rightarrow> [] | c # r \<Rightarrow> if c = CHR ''-'' then r else s)"
  have t: "single_dashes t" "list_all k8s_char t"
    using assms by (auto simp: t_def single_dashes_tl split: list.splits)
  have hd: "t = [] \<or> name_char (hd t)"
    using assms by (cases s rule: single_dashes.cases) (auto simp: t_def k8s_char_def)
  have strip: "strip_dashes s = (if t \<noteq> [] \<and> last t = CHR ''-'' then butlast t else t)"
    by (simp add: strip_dashes_def t_def Let_def)
  show ?thesis
  proof (cases "t \<noteq> [] \<and> last t = CHR ''-''")
    case False
    then have "t = [] \<or> name_char (last t)"
      using t(2) by (metis k8s_char_def last_in_set list_all_iff)
    then show ?thesis using False t hd by (simp only: strip if_False k8s_name_def) auto
  next
    case True
    have "butlast t = [] \<or> name_char (last (butlast t))"
      using single_dashes_last2 [OF t(1)] True by simp
    moreover have "list_all k8s_char (butlast t)"
      using t(2) by (metis in_set_butlastD list_all_iff)
    moreover have "butlast t = [] \<or> hd (butlast t) = hd t"
      by (cases t) auto
    ultimately show ?thesis
      using True hd single_dashes_butlast [OF t(1)] by (auto simp: strip k8s_name_def)
  qed
qed

lemma sanitizeTemplateName_k8s: "k8s_name (sanitizeTemplateName d) \<and> single_dashes (sanitizeTemplateName d)"
proof -
  have "k8s_name ''template'' \<and> single_dashes ''template''"
    by (simp add: k8s_name_def k8s_char_def name_char_def)
  then show ?thesis
    using strip_dashes_ends [OF dash_runs_single dash_runs_chars]
    by (auto simp: sanitizeTemplateName_def Let_def)
qed

lemma k8s_name_numbered: "k8s_name base \<Longrightarrow> k8s_name (numbered_name base n)"
proof -
  have "list_all name_char (nat_str n)"
    using nat_str_digits [of n] by (auto simp: list_all_iff digit_char_def name_char_def)
  moreover from this have "name_char (last (nat_str n))" by (simp add: list_all_iff)
  ultimately show "k8s_name base \<Longrightarrow> k8s_name (numbered_name base n)"
    by (auto simp: k8s_name_def numbered_name_def k8s_char_def list_all_iff)
qed

text \<open>Names that are already well formed are kept.\<close>

lemma name_char_facts: "name_char c \<Longrightarrow> lower_char c = c \<and> \<not> js_space c"
proof -
  have "list_all (\<lambda>c. lower_char c = c \<and> \<not> js_space c) ''abcdefghijklmnopqrstuvwxyz0123456789''"
    by code_simp
  then show "name_char c \<Longrightarrow> lower_char c = c \<and> \<not> js_space c"
    unfolding name_char_def list_all_iff by blast
qed

lemma dash_runs_id: "list_all k8s_char s \<Longrightarrow> single_dashes s \<Longrightarrow> dash_runs s = s"
proof (induction s rule: single_dashes.induct)
  case (3 c d s)
  show ?case
  proof (cases "name_char c")
    case False
    then have "c = CHR ''-''" "name_char d" using "3.prems" by (auto simp: k8s_char_def)
    then show ?thesis using "3.IH" "3.prems" by simp
  qed (use 3 in simp)
qed (auto simp: k8s_char_def)

lemma strip_dashes_id: "name_char (hd s) \<Longrightarrow> name_char (last s) \<Longrightarrow> strip_dashes s = s"
  by (cases s) (auto simp: strip_dashes_def Let_def)

lemma sanitizeTemplateName_id:
  assumes "k8s_name s" and "single_dashes s"
  shows "sanitizeTemplateName s = s"
proof -
  have s: "s \<noteq> []" "list_all k8s_char s" "name_char (hd s)" "name_char (last s)"
    using assms(1) by (simp_all add: k8s_name_def)
  have "dropWhile js_space s = s" "dropWhile js_space (rev s) = rev s"
    using s(3,4) name_char_facts by (auto intro!: dropWhile_id simp: hd_rev)
  then have "js_trim s = s" by (simp add: js_trim_def)
  moreover have "js_lower s = s"
    unfolding js_lower_def
  proof (rule map_idI)
    fix c assume "c \<in> set s"
    then have "name_char c \<or> c = CHR ''-''" using s(2) by (simp add: list_all_iff k8s_char_def)
    moreover have "lower_char (CHR ''-'') = CHR ''-''" by (simp add: lower_char_def)
    ultimately show "lower_char c = c" using name_char_facts by metis
  qed
  ultimately show ?thesis
    using s assms(2) by (simp add: sanitizeTemplateName_def dash_runs_id strip_dashes_id)
qed

text \<open>every template name the UI generates is one the API server accepts, whatever the display name, also
  with a number behind it; sanitizing a sanitized name changes nothing.\<close>

theorem template_name_valid:
  "k8s_name (uniqueTemplateName (sanitizeTemplateName displayName) existing) \<and>
   sanitizeTemplateName (sanitizeTemplateName displayName) = sanitizeTemplateName displayName"
proof -
  let ?b = "sanitizeTemplateName displayName"
  have "k8s_name (uniqueTemplateName ?b existing)"
    using uniqueTemplateName_cases [of ?b existing] sanitizeTemplateName_k8s k8s_name_numbered by metis
  then show ?thesis using sanitizeTemplateName_id sanitizeTemplateName_k8s by blast
qed

section \<open>Saving and reading back\<close>

lemma isSetTime_only_truthy [simp]: "isSetTime (only_truthy v) = isSetTime v"
  by (cases v) (auto simp: isSetTime_def)

lemma set_time_only_truthy [simp]: "set_time (only_truthy v) = set_time v"
  by (cases v) (auto simp: set_time_def isSetTime_def)

lemma set_time_simps [simp]: "set_time None = []" "isSetTime None = False"
  by (simp_all add: set_time_def isSetTime_def)

lemma str_or_only_truthy [simp]: "str_or (only_truthy v) d = str_or v d"
  by (cases v) auto

lemma list_or_only_nonempty [simp]: "list_or (only_nonempty v) = list_or v"
  by (cases v) auto

lemma list_or_obj_nonempty [simp]: "list_or (obj_nonempty m) = m"
  by (cases m) (simp_all add: obj_nonempty_def obj_keys_def)

lemma rows_obj_nonempty [simp]: "customMetadataToRows (obj_nonempty m) = customMetadataToRows (Some m)"
  by (simp add: customMetadataToRows_def)

text \<open>The template that a saved form is shown as.\<close>

definition saved_as :: "BlueprintMetadata \<Rightarrow> SaveAsTemplateInput \<Rightarrow> SavedTemplate" where
  "saved_as metadata input =
     blueprintToSavedTemplate \<lparr> bl_metadata = metadata, bl_spec = savedTemplateInputToBlueprintSpec input \<rparr>"

text \<open>The advanced options survive although the block is dropped when it is empty.\<close>

lemma advanced_block:
  "opt_get f (if a \<noteq> no_advanced then Some a else None) = (if a \<noteq> no_advanced then f a else None)"
  by simp

lemma saved_as_advanced:
  "sv_networkPersistence (saved_as m input) = bool_or (si_networkPersistence input)"
  "sv_removeVMwareTools (saved_as m input) = bool_or (si_removeVMwareTools input)"
  "sv_imageProfiles (saved_as m input) = list_or (si_imageProfiles input)"
  "sv_periodicSyncInterval (saved_as m input) = str_or (si_periodicSyncInterval input) []"
  "sv_periodicSyncEnabled (saved_as m input) = bool_or (si_periodicSyncEnabled input)"
  "sv_acknowledgeNetworkConflictRisk (saved_as m input) = bool_or (si_acknowledgeNetworkConflictRisk input)"
proof -
  define a where "a = no_advanced
      \<lparr> ao_networkPersistence := si_networkPersistence input,
        ao_removeVMwareTools := si_removeVMwareTools input,
        ao_imageProfiles := only_nonempty (si_imageProfiles input),
        ao_periodicSyncInterval := only_truthy (si_periodicSyncInterval input),
        ao_periodicSyncEnabled := si_periodicSyncEnabled input,
        ao_acknowledgeNetworkConflictRisk := si_acknowledgeNetworkConflictRisk input \<rparr>"
  have block: "bp_advancedOptions (savedTemplateInputToBlueprintSpec input) = (if a \<noteq> no_advanced then Some a else None)"
    unfolding a_def by (simp only: savedTemplateInputToBlueprintSpec_def Let_def MigrationBlueprintSpec.simps)
  have field: "opt_get f (bp_advancedOptions (savedTemplateInputToBlueprintSpec input)) = f a"
    if "f no_advanced = None" for f :: "AdvancedOptions \<Rightarrow> 'b option"
    using that by (cases "a = no_advanced") (simp_all add: block)
  show "sv_networkPersistence (saved_as m input) = bool_or (si_networkPersistence input)"
    "sv_removeVMwareTools (saved_as m input) = bool_or (si_removeVMwareTools input)"
    "sv_imageProfiles (saved_as m input) = list_or (si_imageProfiles input)"
    "sv_periodicSyncInterval (saved_as m input) = str_or (si_periodicSyncInterval input) []"
    "sv_periodicSyncEnabled (saved_as m input) = bool_or (si_periodicSyncEnabled input)"
    "sv_acknowledgeNetworkConflictRisk (saved_as m input) = bool_or (si_acknowledgeNetworkConflictRisk input)"
    using field [of ao_networkPersistence] field [of ao_removeVMwareTools] field [of ao_imageProfiles]
      field [of ao_periodicSyncInterval] field [of ao_periodicSyncEnabled]
      field [of ao_acknowledgeNetworkConflictRisk]
    by (simp_all add: saved_as_def blueprintToSavedTemplate_def Let_def no_advanced_def a_def del: str_or_nil_eq)
qed

text \<open>the cutover choice survives being saved in a template and read back exactly when it is immediate,
  admin initiated, or a time window with at least one real time; a time window without times comes
  back as an immediate cutover.\<close>

theorem template_cutover_roundtrip:
  "sv_cutoverOption (saved_as metadata input) = si_cutoverOption input \<longleftrightarrow>
     si_cutoverOption input = CUTOVER_IMMEDIATE \<or>
     si_cutoverOption input = CUTOVER_ADMIN_INITIATED \<or>
     (si_cutoverOption input = CUTOVER_TIME_WINDOW \<and>
      (isSetTime (si_cutoverStartTime input) \<or> isSetTime (si_cutoverEndTime input)))"
  by (auto simp: saved_as_def blueprintToSavedTemplate_def savedTemplateInputToBlueprintSpec_def Let_def
      deriveCutoverOption_def cutover_defs)

end
