(* ===== verification/Template_Prefill.thy ===== *)
theory Template_Prefill
  imports Template_Store
begin

text \<open>
  The life of a template in the UI: the cluster catalogue (\<open>hooks/useClusterData.ts\<close>), saving the form
  as a template (\<open>pages/MigrationForm.tsx\<close>, \<open>hooks/useSaveAsTemplate.ts\<close>), updating and cloning it
  (\<open>hooks/useTemplateLifecycle.ts\<close>), and filling the form from it (\<open>hooks/useApplyTemplatePrefill.ts\<close>).
  The API calls are the bodies they post; a mutation that throws is a \<open>Inl\<close> with its message.
\<close>

section \<open>The cluster catalogue\<close>

record SourceCluster =
  sc_id :: string
  sc_name :: string
  sc_displayName :: string

record SourceDataItem =
  sd_credName :: string
  sd_datacenter :: string
  sd_vcenterName :: string
  sd_clusters :: "SourceCluster list"

record PcdDataItem =
  pc_id :: string
  pc_name :: string
  pc_openstackCredName :: string
  pc_tenantName :: string

text \<open>A vCenter credential and a cluster resource, with the fields the catalogue reads.\<close>

record VMwareCredRes =
  cr_name :: string
  cr_datacenter :: "string option"
  cr_hostName :: "string option"

record VMwareClusterRes =
  cl_name :: string
  cl_specName :: string
  cl_datacenterAnnotation :: "string option"

record PCDClusterRes =
  pr_name :: string
  pr_clusterName :: string
  pr_openstackCreds :: "string option"

definition cluster_datacenter :: "VMwareCredRes \<Rightarrow> VMwareClusterRes \<Rightarrow> string" where
  "cluster_datacenter cred cluster =
     (if str_truthy (cl_datacenterAnnotation cluster) then the (cl_datacenterAnnotation cluster)
      else str_or (cr_datacenter cred) ''Unknown'')"

definition clustersByDC :: "VMwareCredRes \<Rightarrow> VMwareClusterRes list \<Rightarrow> VMwareClusterRes list sobj" where
  "clustersByDC cred clusters =
     fold (\<lambda>cluster m. (let dc = cluster_datacenter cred cluster
                         in sobj_set dc (list_or (map_of m dc) @ [cluster]) m)) clusters []"

definition cluster_id :: "string \<Rightarrow> string \<Rightarrow> string \<Rightarrow> string" where
  "cluster_id credName dcName name = credName @ '':'' @ dcName @ '':'' @ name"

definition source_items :: "VMwareCredRes \<Rightarrow> VMwareClusterRes list \<Rightarrow> SourceDataItem list" where
  "source_items cred clusters =
     map (\<lambda>(dcName, cls).
       \<lparr> sd_credName = cr_name cred, sd_datacenter = dcName,
         sd_vcenterName = str_or (cr_hostName cred) (cr_name cred),
         sd_clusters = map (\<lambda>c. \<lparr> sc_id = cluster_id (cr_name cred) dcName (cl_name c), sc_name = cl_name c,
                                  sc_displayName = cl_specName c \<rparr>) cls \<rparr>)
       (clustersByDC cred clusters)"

text \<open>The state that \<open>fetchSourceData\<close> and \<open>fetchPcdData\<close> store when every request succeeds.\<close>

definition fetchSourceData :: "(VMwareCredRes \<times> VMwareClusterRes list) list \<Rightarrow> SourceDataItem list" where
  "fetchSourceData creds =
     filter (\<lambda>item. length (sd_clusters item) > 0)
       (concat (map (\<lambda>(cred, clusters). source_items cred clusters) creds))"

definition fetchPcdData :: "PCDClusterRes list \<Rightarrow> (string \<times> string option) list \<Rightarrow> PcdDataItem list" where
  "fetchPcdData clusters creds =
     (let projectNameByCred = map_of (rev (map (\<lambda>(n, p). (n, str_or p [])) creds))
      in map (\<lambda>c. let credName = str_or (pr_openstackCreds c) []
                  in \<lparr> pc_id = pr_name c, pc_name = pr_clusterName c, pc_openstackCredName = credName,
                       pc_tenantName = (if credName \<noteq> [] then str_or (projectNameByCred credName) [] else []) \<rparr>)
           clusters)"

section \<open>The form's view of the catalogue\<close>

definition cred_of_cluster_id :: "string \<Rightarrow> string" where
  "cred_of_cluster_id i = takeWhile (\<lambda>c. c \<noteq> CHR '':'') i"

definition selectedVmwareClusterName :: "SourceDataItem list \<Rightarrow> string option \<Rightarrow> string" where
  "selectedVmwareClusterName sourceData vmwareCluster =
     (if \<not> str_truthy vmwareCluster then []
      else (case find (\<lambda>item. sd_credName item = cred_of_cluster_id (the vmwareCluster)) sourceData of
              None \<Rightarrow> []
            | Some item \<Rightarrow>
                (case find (\<lambda>cluster. sc_id cluster = the vmwareCluster) (sd_clusters item) of
                   None \<Rightarrow> []
                 | Some c \<Rightarrow> if sc_displayName c \<noteq> [] then sc_displayName c else sc_name c)))"

definition targetPCDClusterName :: "PcdDataItem list \<Rightarrow> string option \<Rightarrow> string option" where
  "targetPCDClusterName pcdData pcdCluster =
     (if \<not> str_truthy pcdCluster then None
      else map_option pc_name (find (\<lambda>p. pc_id p = the pcdCluster) pcdData))"

section \<open>Saving the form\<close>

record TemplateFields =
  tf_displayName :: string
  tf_description :: "string option"

definition cred_ref :: "string option \<Rightarrow> string option \<Rightarrow> string" where
  "cred_ref loaded existing = (if str_truthy loaded then the loaded else str_or existing [])"

text \<open>\<open>vmwareCred\<close> and \<open>openstackCred\<close> are the names of the credentials the form has loaded.\<close>

definition buildSaveTemplateInput ::
  "string option \<Rightarrow> string option \<Rightarrow> SourceDataItem list \<Rightarrow> PcdDataItem list \<Rightarrow>
   FormValues \<Rightarrow> SelectedMigrationOptions \<Rightarrow> TemplateFields \<Rightarrow> SaveAsTemplateInput" where
  "buildSaveTemplateInput vmwareCred openstackCred sourceData pcdData params selected texts =
     \<lparr> si_displayName = tf_displayName texts,
       si_description = tf_description texts,
       si_sourceVCenter = cred_ref vmwareCred (opt_get vc_existingCredName (fv_vmwareCreds params)),
       si_sourceCluster = Some (selectedVmwareClusterName sourceData (fv_vmwareCluster params)),
       si_destination = cred_ref openstackCred (opt_get oc_existingCredName (fv_openstackCreds params)),
       si_targetCluster = str_or (targetPCDClusterName pcdData (fv_pcdCluster params)) [],
       si_networkMappings = list_or (fv_networkMappings params),
       si_storageMappings = list_or (fv_storageMappings params),
       si_arrayCredsMappings = Some (list_or (fv_arrayCredsMappings params)),
       si_dataCopyMethod = str_or (fv_dataCopyMethod params) ''cold'',
       si_dataCopyStartTime =
         (if bool_or (so_dataCopyStartTime selected) then fv_dataCopyStartTime params else None),
       si_storageCopyMethod = fv_storageCopyMethod params,
       si_proxyVMRef = fv_proxyVMRef params,
       si_cutoverOption = str_or (fv_cutoverOption params) CUTOVER_IMMEDIATE,
       si_cutoverStartTime =
         (if bool_or (so_cutoverStartTime selected) then fv_cutoverStartTime params else None),
       si_cutoverEndTime = (if bool_or (so_cutoverEndTime selected) then fv_cutoverEndTime params else None),
       si_disconnectSourceNetwork = Some (bool_or (fv_disconnectSourceNetwork params)),
       si_fallbackToDHCP = Some (bool_or (fv_fallbackToDHCP params)),
       si_dataOnly = Some (bool_or (fv_dataOnly params)),
       si_preserveSourceTags = Some (bool_or (fv_preserveSourceTags params)),
       si_customMetadata = Some (list_or (fv_customMetadata params)),
       si_securityGroups = Some (list_or (fv_securityGroups params)),
       si_serverGroup = Some (str_or (fv_serverGroup params) []),
       si_firstBootScript =
         (if bool_or (so_postMigrationScript selected) then fv_postMigrationScript params else None),
       si_networkPersistence = fv_networkPersistence params,
       si_removeVMwareTools = fv_removeVMwareTools params,
       si_imageProfiles = Some (list_or (fv_imageProfiles params)),
       si_periodicSyncInterval = fv_periodicSyncInterval params,
       si_periodicSyncEnabled = so_periodicSyncEnabled selected,
       si_acknowledgeNetworkConflictRisk = fv_acknowledgeNetworkConflictRisk params,
       si_postMigrationAction =
         (if so_postMigrationAction selected \<noteq> None then fv_postMigrationAction params else None),
       si_osFamily = fv_osFamily params,
       si_useGPU = Some (bool_or (fv_useGPU params)) \<rparr>"

section \<open>The mutations\<close>

definition display_name_key :: "string \<Rightarrow> string" where
  "display_name_key n = js_lower (js_trim n)"

definition name_taken_error :: "string \<Rightarrow> string" where
  "name_taken_error n = ''A template named '' @ [CHR 0x22] @ n @ [CHR 0x22] @ '' already exists.''"

text \<open>\<open>createMigrationBlueprintJson\<close>\<close>

definition createMigrationBlueprintJson ::
  "string \<Rightarrow> MigrationBlueprintSpec \<Rightarrow> string option \<Rightarrow> MigrationBlueprint" where
  "createMigrationBlueprintJson name spec resourceVersion =
     \<lparr> bl_metadata = \<lparr> bm_name = name, bm_namespace = None, bm_creationTimestamp = None, bm_uid = None,
                       bm_resourceVersion = only_truthy resourceVersion \<rparr>,
       bl_spec = spec \<rparr>"

definition saveAsTemplate :: "SavedTemplate list \<Rightarrow> SaveAsTemplateInput \<Rightarrow> string + MigrationBlueprint" where
  "saveAsTemplate existing input =
     (if list_ex (\<lambda>t. display_name_key (sv_displayName t) = display_name_key (si_displayName input)) existing
      then Inl (name_taken_error (si_displayName input))
      else (let name = uniqueTemplateName (sanitizeTemplateName (si_displayName input)) (map sv_name existing)
            in Inr (createMigrationBlueprintJson name (savedTemplateInputToBlueprintSpec input) None)))"

definition updateTemplate ::
  "SavedTemplate list \<Rightarrow> string \<Rightarrow> string \<Rightarrow> SaveAsTemplateInput \<Rightarrow> string + MigrationBlueprint" where
  "updateTemplate existing name resourceVersion input =
     (if list_ex (\<lambda>t. sv_name t \<noteq> name \<and>
                display_name_key (sv_displayName t) = display_name_key (si_displayName input)) existing
      then Inl (name_taken_error (si_displayName input))
      else Inr (createMigrationBlueprintJson name (savedTemplateInputToBlueprintSpec input) (Some resourceVersion)))"

text \<open>The loop over copy names; like the one of \<open>uniqueTemplateName\<close> it ends because the numbers run out of taken names.\<close>

definition copy_name :: "string \<Rightarrow> nat \<Rightarrow> string" where
  "copy_name base suffix = base @ '' '' @ nat_str suffix"

lemma copy_name_inj [simp]: "copy_name b m = copy_name b n \<longleftrightarrow> m = n"
  using nat_str_inj by (auto simp: copy_name_def)

definition copies_from :: "string \<Rightarrow> string list \<Rightarrow> nat \<Rightarrow> nat set" where
  "copies_from base taken suffix = {n. suffix \<le> n \<and> copy_name base n \<in> set taken}"

lemma finite_copies_from [simp]: "finite (copies_from base taken suffix)"
proof -
  have "inj_on (copy_name base) (copies_from base taken suffix)" by (simp add: inj_on_def)
  moreover have "copy_name base ` copies_from base taken suffix \<subseteq> set taken"
    by (auto simp: copies_from_def)
  ultimately show ?thesis by (metis finite_imageD finite_set finite_subset)
qed

lemma copies_from_step:
  "copies_from base taken suffix =
     (if copy_name base suffix \<in> set taken then insert suffix (copies_from base taken (Suc suffix))
      else copies_from base taken (Suc suffix))"
  by (auto simp: copies_from_def Suc_le_eq le_less)

function copy_loop :: "string \<Rightarrow> string list \<Rightarrow> string \<Rightarrow> nat \<Rightarrow> string" where
  "copy_loop base taken displayName suffix =
     (if displayName \<in> set taken then copy_loop base taken (copy_name base suffix) (Suc suffix)
      else displayName)"
  by pat_completeness auto
termination
proof (relation "measure (\<lambda>(base, taken, displayName, suffix).
          card (copies_from base taken suffix) + (if displayName \<in> set taken then 1 else 0))", simp)
  fix base displayName :: string and taken :: "string list" and suffix :: nat
  assume "displayName \<in> set taken"
  have "suffix \<notin> copies_from base taken (Suc suffix)" by (simp add: copies_from_def)
  then show "((base, taken, copy_name base suffix, Suc suffix), (base, taken, displayName, suffix)) \<in>
      measure (\<lambda>(base, taken, displayName, suffix).
          card (copies_from base taken suffix) + (if displayName \<in> set taken then 1 else 0))"
    using \<open>displayName \<in> set taken\<close> by (simp add: copies_from_step [of base taken suffix])
qed

declare copy_loop.simps [simp del]

definition cloneTemplate :: "SavedTemplate list \<Rightarrow> SavedTemplate \<Rightarrow> MigrationBlueprint" where
  "cloneTemplate existing template =
     (let baseDisplayName = sv_displayName template @ '' (copy)'';
          displayName = copy_loop baseDisplayName (map sv_displayName existing) baseDisplayName 2;
          name = uniqueTemplateName (sanitizeTemplateName displayName) (map sv_name existing)
      in createMigrationBlueprintJson name ((sv_spec template)\<lparr> bp_displayName := displayName \<rparr>) None)"

text \<open>\<open>handleSave\<close> of the dialog: the name is required, both texts are trimmed.\<close>

definition handleSave ::
  "SavedTemplate list \<Rightarrow> SavedTemplate option \<Rightarrow> (TemplateFields \<Rightarrow> SaveAsTemplateInput) \<Rightarrow>
   string \<Rightarrow> string \<Rightarrow> string + MigrationBlueprint" where
  "handleSave existing editingTemplate buildTemplateInput displayName description =
     (if js_trim displayName = [] then Inl ''Template name is required.''
      else (let input = buildTemplateInput
                  \<lparr> tf_displayName = js_trim displayName, tf_description = only_truthy (Some (js_trim description)) \<rparr>
            in case editingTemplate of
                 Some t \<Rightarrow> updateTemplate existing (sv_name t) (sv_resourceVersion t) input
               | None \<Rightarrow> saveAsTemplate existing input))"

section \<open>Filling the form\<close>

record prefill_state =
  pf_applied :: "string option"
  pf_params :: FormValues
  pf_selected :: SelectedMigrationOptions

definition source_cluster_match :: "SourceDataItem list \<Rightarrow> SavedTemplate \<Rightarrow> SourceCluster option" where
  "source_cluster_match sourceData t =
     (case find (\<lambda>item. sd_credName item = sv_sourceVCenter t) sourceData of
        None \<Rightarrow> None
      | Some item \<Rightarrow>
          find (\<lambda>c. sc_displayName c = sv_sourceCluster t \<or> sc_name c = sv_sourceCluster t) (sd_clusters item))"

definition target_cluster_match :: "PcdDataItem list \<Rightarrow> SavedTemplate \<Rightarrow> PcdDataItem option" where
  "target_cluster_match pcdData t = find (\<lambda>p. pc_name p = sv_targetCluster t) pcdData"

definition no_vmware_creds :: VmwareCredsForm where
  "no_vmware_creds =
     \<lparr> vc_vcenterHost = None, vc_datacenter = None, vc_username = None, vc_password = None,
       vc_existingCredName = None, vc_credentialName = None \<rparr>"

definition no_openstack_creds :: OpenstackCredsForm where
  "no_openstack_creds =
     \<lparr> oc_OS_AUTH_URL = None, oc_OS_DOMAIN_NAME = None, oc_OS_USERNAME = None, oc_OS_PASSWORD = None,
       oc_OS_REGION_NAME = None, oc_OS_TENANT_NAME = None, oc_existingCredName = None,
       oc_credentialName = None, oc_OS_INSECURE = None \<rparr>"

definition prefill_params :: "PcdDataItem list \<Rightarrow> SourceDataItem list \<Rightarrow> SavedTemplate \<Rightarrow> FormValues \<Rightarrow> FormValues" where
  "prefill_params pcdData sourceData t params = params
     \<lparr> fv_vmwareCreds := Some (no_vmware_creds\<lparr> vc_existingCredName := Some (sv_sourceVCenter t) \<rparr>),
       fv_vmwareCluster := Some
         (let i = (case source_cluster_match sourceData t of None \<Rightarrow> [] | Some c \<Rightarrow> sc_id c)
          in if i \<noteq> [] then i else sv_sourceCluster t),
       fv_openstackCreds := Some (no_openstack_creds\<lparr> oc_existingCredName := Some (sv_destination t) \<rparr>),
       fv_pcdCluster := Some
         (let i = (case target_cluster_match pcdData t of None \<Rightarrow> [] | Some p \<Rightarrow> pc_id p)
          in if i \<noteq> [] then i else sv_targetCluster t),
       fv_networkMappings := Some (sv_networkMappings t),
       fv_storageMappings := Some (sv_storageMappings t),
       fv_arrayCredsMappings := Some (sv_arrayCredsMappings t),
       fv_dataCopyMethod := Some (sv_dataCopyMethod t),
       fv_dataCopyStartTime := Some (sv_dataCopyStartTime t),
       fv_storageCopyMethod := Some (sv_storageCopyMethod t),
       fv_proxyVMRef := Some (sv_proxyVMRef t),
       fv_cutoverOption := Some (sv_cutoverOption t),
       fv_cutoverStartTime := Some (sv_cutoverStartTime t),
       fv_cutoverEndTime := Some (sv_cutoverEndTime t),
       fv_disconnectSourceNetwork := Some (sv_disconnectSourceNetwork t),
       fv_fallbackToDHCP := Some (sv_fallbackToDHCP t),
       fv_dataOnly := Some (sv_dataOnly t),
       fv_preserveSourceTags := Some (sv_preserveSourceTags t),
       fv_customMetadata := Some (sv_customMetadata t),
       fv_securityGroups := Some (sv_securityGroups t),
       fv_serverGroup := Some (sv_serverGroup t),
       fv_postMigrationScript := Some (sv_firstBootScript t),
       fv_networkPersistence := Some (sv_networkPersistence t),
       fv_removeVMwareTools := Some (sv_removeVMwareTools t),
       fv_imageProfiles := Some (sv_imageProfiles t),
       fv_periodicSyncInterval := Some (sv_periodicSyncInterval t),
       fv_acknowledgeNetworkConflictRisk := Some (sv_acknowledgeNetworkConflictRisk t),
       fv_postMigrationAction := sv_postMigrationAction t,
       fv_osFamily := sv_osFamily t,
       fv_useGPU := Some (bool_or (sv_useGPU t)) \<rparr>"

definition prefill_options :: "SavedTemplate \<Rightarrow> SelectedMigrationOptions \<Rightarrow> SelectedMigrationOptions" where
  "prefill_options t selected = selected
     \<lparr> so_dataCopyMethod := Some True,
       so_cutoverOption := Some True,
       so_dataCopyStartTime := Some (sv_dataCopyStartTime t \<noteq> []),
       so_cutoverStartTime := Some (sv_cutoverStartTime t \<noteq> []),
       so_cutoverEndTime := Some (sv_cutoverEndTime t \<noteq> []),
       so_useGPU := Some (bool_or (sv_useGPU t)),
       so_periodicSyncEnabled := Some (sv_periodicSyncEnabled t),
       so_postMigrationScript := Some (sv_firstBootScript t \<noteq> []),
       so_postMigrationAction := map_option (\<lambda>a.
         \<lparr> sp_suffix = Some (str_truthy (pm_suffix a)), sp_folderName = Some (str_truthy (pm_folderName a)),
           sp_renameVm = Some (bool_or (pm_renameVm a)), sp_moveToFolder = Some (bool_or (pm_moveToFolder a)) \<rparr>)
         (sv_postMigrationAction t) \<rparr>"

text \<open>The effect that applies a template once per opening of the form.\<close>

definition apply_effect ::
  "bool \<Rightarrow> SavedTemplate option \<Rightarrow> PcdDataItem list \<Rightarrow> SourceDataItem list \<Rightarrow> prefill_state \<Rightarrow> prefill_state" where
  "apply_effect opened templatePrefill pcdData sourceData s =
     (if \<not> opened \<or> templatePrefill = None then s\<lparr> pf_applied := None \<rparr>
      else (let t = the templatePrefill
            in if pf_applied s = Some (sv_name t) then s
               else \<lparr> pf_applied = Some (sv_name t),
                      pf_params = prefill_params pcdData sourceData t (pf_params s),
                      pf_selected = prefill_options t (pf_selected s) \<rparr>))"

text \<open>The effect that replaces the raw cluster names by their ids when the catalogue arrives. Both tests
  read the parameters of the render, so the two writes do not see each other.\<close>

definition resync_effect ::
  "bool \<Rightarrow> SavedTemplate option \<Rightarrow> PcdDataItem list \<Rightarrow> SourceDataItem list \<Rightarrow> prefill_state \<Rightarrow> prefill_state" where
  "resync_effect opened templatePrefill pcdData sourceData s =
     (if \<not> opened \<or> templatePrefill = None then s
      else (let t = the templatePrefill; p = pf_params s
            in if pf_applied s \<noteq> Some (sv_name t) then s
               else (let p1 = (if sv_targetCluster t \<noteq> [] \<and> fv_pcdCluster p = Some (sv_targetCluster t) \<and>
                                  \<not> list_ex (\<lambda>x. Some (pc_id x) = fv_pcdCluster p) pcdData
                               then (case target_cluster_match pcdData t of
                                       None \<Rightarrow> p | Some m \<Rightarrow> p\<lparr> fv_pcdCluster := Some (pc_id m) \<rparr>)
                               else p);
                         p2 = (if sv_sourceCluster t \<noteq> [] \<and> fv_vmwareCluster p = Some (sv_sourceCluster t)
                               then (case source_cluster_match sourceData t of
                                       None \<Rightarrow> p1 | Some m \<Rightarrow> p1\<lparr> fv_vmwareCluster := Some (sc_id m) \<rparr>)
                               else p1)
                     in s\<lparr> pf_params := p2 \<rparr>)))"

section \<open>Editing a template\<close>

definition metadata_ok :: "string sobj option \<Rightarrow> bool" where
  "metadata_ok m = (obj_ok key_before (list_or m) \<and> list_all (\<lambda>(k, v). k \<noteq> [] \<and> js_trim k = k) (list_or m))"

definition strategy_ok :: "MigrationBlueprintStrategy option \<Rightarrow> bool" where
  "strategy_ok st =
     (bool_or (opt_get bs_adminInitiatedCutOver st) \<longrightarrow>
        \<not> isSetTime (opt_get bs_vmCutoverStart st) \<and> \<not> isSetTime (opt_get bs_vmCutoverEnd st))"

text \<open>A blueprint without empty strings, with trimmed metadata keys, and without cutover times beside an
  admin initiated cutover.\<close>

definition blueprint_ok :: "MigrationBlueprintSpec \<Rightarrow> bool" where
  "blueprint_ok spec =
     (bp_description spec \<noteq> Some [] \<and> bp_osFamily spec \<noteq> Some [] \<and>
      metadata_ok (bp_customMetadata spec) \<and> strategy_ok (bp_migrationStrategy spec))"

definition source_resolves :: "SourceDataItem list \<Rightarrow> SavedTemplate \<Rightarrow> bool" where
  "source_resolves sourceData t =
     (sv_sourceCluster t \<noteq> [] \<and>
      (case find (\<lambda>item. sd_credName item = sv_sourceVCenter t) sourceData of
         None \<Rightarrow> False
       | Some item \<Rightarrow>
           (case source_cluster_match sourceData t of
              None \<Rightarrow> False
            | Some c \<Rightarrow>
                sc_displayName c = sv_sourceCluster t \<and> sc_id c \<noteq> [] \<and>
                cred_of_cluster_id (sc_id c) = sv_sourceVCenter t \<and>
                find (\<lambda>d. sc_id d = sc_id c) (sd_clusters item) = Some c)))"

definition target_resolves :: "PcdDataItem list \<Rightarrow> SavedTemplate \<Rightarrow> bool" where
  "target_resolves pcdData t =
     (case target_cluster_match pcdData t of
        None \<Rightarrow> False
      | Some p \<Rightarrow> pc_id p \<noteq> [] \<and> pc_name p = sv_targetCluster t \<and> find (\<lambda>q. pc_id q = pc_id p) pcdData = Some p)"

lemma prefill_source_name:
  assumes "source_resolves sourceData t"
  shows "selectedVmwareClusterName sourceData (fv_vmwareCluster (prefill_params pcdData sourceData t params)) =
         sv_sourceCluster t"
proof -
  obtain item c where item: "find (\<lambda>item. sd_credName item = sv_sourceVCenter t) sourceData = Some item"
    and c: "source_cluster_match sourceData t = Some c"
    and ok: "sv_sourceCluster t \<noteq> []" "sc_displayName c = sv_sourceCluster t" "sc_id c \<noteq> []"
      "cred_of_cluster_id (sc_id c) = sv_sourceVCenter t"
      "find (\<lambda>d. sc_id d = sc_id c) (sd_clusters item) = Some c"
    using assms by (auto simp: source_resolves_def split: option.splits)
  then have "fv_vmwareCluster (prefill_params pcdData sourceData t params) = Some (sc_id c)"
    by (simp add: prefill_params_def)
  then show ?thesis using item ok by (simp add: selectedVmwareClusterName_def)
qed

lemma prefill_target_name:
  assumes "target_resolves pcdData t"
  shows "targetPCDClusterName pcdData (fv_pcdCluster (prefill_params pcdData sourceData t params)) =
         Some (sv_targetCluster t)"
  using assms by (auto simp: target_resolves_def targetPCDClusterName_def prefill_params_def split: option.splits)

lemma rows_of_ok_map:
  assumes "metadata_ok m"
  shows "customMetadataToMap (Some (customMetadataToRows m)) = list_or m"
proof -
  have rows: "customMetadataToRows m = customMetadataToRows (Some (list_or m))"
    by (simp add: customMetadataToRows_def)
  have keys: "\<And>k v. (k, v) \<in> set (list_or m) \<Longrightarrow> k \<noteq> [] \<and> js_trim k = k"
    using assms by (auto simp: metadata_ok_def list_all_iff)
  have "customMetadataToMap (Some (customMetadataToRows m)) = obj_merge key_before [] (obj_map (\<lambda>v. v) (list_or m))"
    unfolding customMetadataToMap_fold rows list_or_simps
    by (rule fold_rows_merge [where g = "\<lambda>v. v"]) (rule keys)
  then show ?thesis using assms by (simp add: skey.merge_self metadata_ok_def)
qed

text \<open>What is saved when the form, filled from a template, is saved unchanged.\<close>

definition edit_unchanged ::
  "PcdDataItem list \<Rightarrow> SourceDataItem list \<Rightarrow> FormValues \<Rightarrow> SelectedMigrationOptions \<Rightarrow> SavedTemplate \<Rightarrow> SaveAsTemplateInput" where
  "edit_unchanged pcdData sourceData params selected t =
     (let s = apply_effect True (Some t) pcdData sourceData
                \<lparr> pf_applied = None, pf_params = params, pf_selected = selected \<rparr>
      in buildSaveTemplateInput None None sourceData pcdData (pf_params s) (pf_selected s)
           \<lparr> tf_displayName = sv_displayName t, tf_description = sv_description t \<rparr>)"

lemma set_time_nonempty: "set_time v \<noteq> [] \<longleftrightarrow> isSetTime v"
  by (cases v) (auto simp: set_time_def isSetTime_def)

lemma isSetTime_set_time: "isSetTime (Some (set_time v)) = isSetTime v"
  by (cases v) (auto simp: set_time_def isSetTime_def)

lemma set_time_idem [simp]: "set_time (Some (set_time v)) = set_time v"
  by (cases v) (auto simp: set_time_def isSetTime_def)

lemma edit_unchanged_build:
  "edit_unchanged pcdData sourceData params selected t =
     buildSaveTemplateInput None None sourceData pcdData
       (prefill_params pcdData sourceData t params) (prefill_options t selected)
       \<lparr> tf_displayName = sv_displayName t, tf_description = sv_description t \<rparr>"
  by (simp add: edit_unchanged_def apply_effect_def Let_def)

lemma only_truthy_str_or [simp]: "only_truthy (Some (str_or v [])) = only_truthy v"
  by (cases v) auto

lemma template_cutover_nonempty [simp]: "sv_cutoverOption (blueprintToSavedTemplate b) \<noteq> []"
  by (simp add: blueprintToSavedTemplate_def Let_def deriveCutoverOption_def cutover_defs)

text \<open>The form after the template was applied, seen through \<open>buildSaveTemplateInput\<close>.\<close>

lemma edit_unchanged_input:
  assumes "source_resolves sourceData t" and "target_resolves pcdData t" and "sv_cutoverOption t \<noteq> []"
  shows "edit_unchanged pcdData sourceData params selected t =
     \<lparr> si_displayName = sv_displayName t,
       si_description = sv_description t,
       si_sourceVCenter = sv_sourceVCenter t,
       si_sourceCluster = Some (sv_sourceCluster t),
       si_destination = sv_destination t,
       si_targetCluster = sv_targetCluster t,
       si_networkMappings = sv_networkMappings t,
       si_storageMappings = sv_storageMappings t,
       si_arrayCredsMappings = Some (sv_arrayCredsMappings t),
       si_dataCopyMethod = str_or (Some (sv_dataCopyMethod t)) ''cold'',
       si_dataCopyStartTime = only_truthy (Some (sv_dataCopyStartTime t)),
       si_storageCopyMethod = Some (sv_storageCopyMethod t),
       si_proxyVMRef = Some (sv_proxyVMRef t),
       si_cutoverOption = sv_cutoverOption t,
       si_cutoverStartTime = only_truthy (Some (sv_cutoverStartTime t)),
       si_cutoverEndTime = only_truthy (Some (sv_cutoverEndTime t)),
       si_disconnectSourceNetwork = Some (sv_disconnectSourceNetwork t),
       si_fallbackToDHCP = Some (sv_fallbackToDHCP t),
       si_dataOnly = Some (sv_dataOnly t),
       si_preserveSourceTags = Some (sv_preserveSourceTags t),
       si_customMetadata = Some (sv_customMetadata t),
       si_securityGroups = Some (sv_securityGroups t),
       si_serverGroup = Some (sv_serverGroup t),
       si_firstBootScript = only_truthy (Some (sv_firstBootScript t)),
       si_networkPersistence = Some (sv_networkPersistence t),
       si_removeVMwareTools = Some (sv_removeVMwareTools t),
       si_imageProfiles = Some (sv_imageProfiles t),
       si_periodicSyncInterval = Some (sv_periodicSyncInterval t),
       si_periodicSyncEnabled = Some (sv_periodicSyncEnabled t),
       si_acknowledgeNetworkConflictRisk = Some (sv_acknowledgeNetworkConflictRisk t),
       si_postMigrationAction = sv_postMigrationAction t,
       si_osFamily = sv_osFamily t,
       si_useGPU = Some (bool_or (sv_useGPU t)) \<rparr>"
  unfolding edit_unchanged_build buildSaveTemplateInput_def prefill_source_name [OF assms(1)]
    prefill_target_name [OF assms(2)]
  by (simp add: prefill_params_def prefill_options_def cred_ref_def assms(3))

text \<open>Saving an input that repeats a blueprint's template shows the same template.\<close>

lemma set_time_off: "\<not> isSetTime v \<Longrightarrow> set_time v = []"
  by (simp add: set_time_def)

lemma not_window_times:
  assumes "strategy_ok st" and "deriveCutoverOption st \<noteq> CUTOVER_TIME_WINDOW"
  shows "\<not> isSetTime (opt_get bs_vmCutoverStart st)" "\<not> isSetTime (opt_get bs_vmCutoverEnd st)"
  using assms by (auto simp: strategy_ok_def deriveCutoverOption_def split: if_splits)

lemma window_times:
  "deriveCutoverOption st = CUTOVER_TIME_WINDOW \<Longrightarrow>
   \<not> bool_or (opt_get bs_adminInitiatedCutOver st) \<and>
   (isSetTime (opt_get bs_vmCutoverStart st) \<or> isSetTime (opt_get bs_vmCutoverEnd st))"
  by (auto simp: deriveCutoverOption_def cutover_defs split: if_splits)

definition saved_strategy :: "SaveAsTemplateInput \<Rightarrow> MigrationBlueprintStrategy" where
  "saved_strategy input = the (bp_migrationStrategy (savedTemplateInputToBlueprintSpec input))"

lemma saved_cutover_kept:
  fixes st :: "MigrationBlueprintStrategy option" and t :: SavedTemplate
  defines "opt \<equiv> deriveCutoverOption st"
    and "start \<equiv> set_time (opt_get bs_vmCutoverStart st)" and "stop \<equiv> set_time (opt_get bs_vmCutoverEnd st)"
  assumes ok: "strategy_ok st"
    and new: "bs_adminInitiatedCutOver st' = Some (opt = CUTOVER_ADMIN_INITIATED)"
      "bs_vmCutoverStart st' = (if opt = CUTOVER_TIME_WINDOW then only_truthy (Some start) else None)"
      "bs_vmCutoverEnd st' = (if opt = CUTOVER_TIME_WINDOW then only_truthy (Some stop) else None)"
  shows "deriveCutoverOption (Some st') = opt" and "set_time (bs_vmCutoverStart st') = start"
    and "set_time (bs_vmCutoverEnd st') = stop"
proof -
  have times: "set_time (bs_vmCutoverStart st') = start \<and> set_time (bs_vmCutoverEnd st') = stop"
  proof (cases "opt = CUTOVER_TIME_WINDOW")
    case True
    then show ?thesis unfolding new start_def stop_def by (simp del: only_truthy_simps)
  next
    case False
    then show ?thesis
      using not_window_times [OF ok] by (simp add: new start_def stop_def opt_def set_time_off)
  qed
  then show "set_time (bs_vmCutoverStart st') = start" "set_time (bs_vmCutoverEnd st') = stop"
    by auto
  have set: "isSetTime (bs_vmCutoverStart st') = isSetTime (opt_get bs_vmCutoverStart st)"
    "isSetTime (bs_vmCutoverEnd st') = isSetTime (opt_get bs_vmCutoverEnd st)"
    using times by (simp_all add: start_def stop_def flip: set_time_nonempty)
  show "deriveCutoverOption (Some st') = opt"
  proof (cases "bool_or (opt_get bs_adminInitiatedCutOver st)")
    case True
    then have "opt = CUTOVER_ADMIN_INITIATED" by (simp add: opt_def deriveCutoverOption_def)
    then show ?thesis by (simp add: deriveCutoverOption_def new)
  next
    case False
    then have "opt \<noteq> CUTOVER_ADMIN_INITIATED" by (simp add: opt_def deriveCutoverOption_def cutover_defs)
    then have "bs_adminInitiatedCutOver st' = Some False" by (simp add: new)
    then show ?thesis using False by (simp add: deriveCutoverOption_def opt_def set)
  qed
qed

text \<open>The fields of a saved template, from the input and from the blueprint.\<close>

lemma saved_as_fields:
  "sv_name (saved_as m i) = bm_name m"
  "sv_resourceVersion (saved_as m i) = str_or (bm_resourceVersion m) []"
  "sv_displayName (saved_as m i) = si_displayName i"
  "sv_description (saved_as m i) = only_truthy (si_description i)"
  "sv_createdAt (saved_as m i) = str_or (bm_creationTimestamp m) ''1970-01-01T00:00:00.000Z''"
  "sv_sourceVCenter (saved_as m i) = si_sourceVCenter i"
  "sv_sourceCluster (saved_as m i) = str_or (si_sourceCluster i) []"
  "sv_destination (saved_as m i) = si_destination i"
  "sv_targetCluster (saved_as m i) = si_targetCluster i"
  "sv_networkMappings (saved_as m i) = si_networkMappings i"
  "sv_storageMappings (saved_as m i) = si_storageMappings i"
  "sv_arrayCredsMappings (saved_as m i) = list_or (si_arrayCredsMappings i)"
  "sv_dataCopyMethod (saved_as m i) = str_or (Some (si_dataCopyMethod i)) ''cold''"
  "sv_dataCopyStartTime (saved_as m i) = set_time (si_dataCopyStartTime i)"
  "sv_storageCopyMethod (saved_as m i) = str_or (si_storageCopyMethod i) ''normal''"
  "sv_proxyVMRef (saved_as m i) = str_or (si_proxyVMRef i) []"
  "sv_disconnectSourceNetwork (saved_as m i) = bool_or (si_disconnectSourceNetwork i)"
  "sv_fallbackToDHCP (saved_as m i) = bool_or (si_fallbackToDHCP i)"
  "sv_dataOnly (saved_as m i) = bool_or (si_dataOnly i)"
  "sv_preserveSourceTags (saved_as m i) = bool_or (si_preserveSourceTags i)"
  "sv_customMetadata (saved_as m i) = customMetadataToRows (Some (customMetadataToMap (si_customMetadata i)))"
  "sv_securityGroups (saved_as m i) = list_or (si_securityGroups i)"
  "sv_serverGroup (saved_as m i) = str_or (si_serverGroup i) []"
  "sv_firstBootScript (saved_as m i) = str_or (si_firstBootScript i) []"
  "sv_postMigrationAction (saved_as m i) = si_postMigrationAction i"
  "sv_osFamily (saved_as m i) = only_truthy (si_osFamily i)"
  "sv_useGPU (saved_as m i) = Some (bool_or (si_useGPU i))"
  by (simp_all add: saved_as_def blueprintToSavedTemplate_def savedTemplateInputToBlueprintSpec_def Let_def
      del: str_or_nil_eq only_truthy_simps,
    simp_all)

lemma str_or_some: "str_or (Some s) [] = s"
  by simp

lemma template_facts:
  assumes "t = blueprintToSavedTemplate b" and "blueprint_ok (bl_spec b)"
  shows "only_truthy (sv_description t) = sv_description t" and "only_truthy (sv_osFamily t) = sv_osFamily t"
    and "str_or (Some (sv_dataCopyMethod t)) ''cold'' = sv_dataCopyMethod t"
    and "str_or (Some (sv_storageCopyMethod t)) ''normal'' = sv_storageCopyMethod t"
    and "set_time (Some (sv_dataCopyStartTime t)) = sv_dataCopyStartTime t"
    and "customMetadataToRows (Some (customMetadataToMap (Some (sv_customMetadata t)))) = sv_customMetadata t"
    and "sv_name t = bm_name (bl_metadata b)"
    and "sv_resourceVersion t = str_or (bm_resourceVersion (bl_metadata b)) []"
    and "sv_createdAt t = str_or (bm_creationTimestamp (bl_metadata b)) ''1970-01-01T00:00:00.000Z''"
proof -
  have meta: "metadata_ok (bp_customMetadata (bl_spec b))" using assms(2) by (simp add: blueprint_ok_def)
  have rows: "sv_customMetadata t = customMetadataToRows (bp_customMetadata (bl_spec b))"
    by (simp add: assms(1) blueprintToSavedTemplate_def Let_def)
  show "customMetadataToRows (Some (customMetadataToMap (Some (sv_customMetadata t)))) = sv_customMetadata t"
    by (simp add: rows rows_of_ok_map [OF meta]) (simp add: customMetadataToRows_def)
  show "only_truthy (sv_description t) = sv_description t" "only_truthy (sv_osFamily t) = sv_osFamily t"
    using assms(2) by (auto simp: assms(1) blueprintToSavedTemplate_def Let_def blueprint_ok_def only_truthy_def
        str_truthy_def split: option.split)
  have "str_or v d \<noteq> []" if "d \<noteq> []" for v :: "string option" and d :: string
    using that by (simp add: str_or_def split: option.split)
  then show "str_or (Some (sv_dataCopyMethod t)) ''cold'' = sv_dataCopyMethod t"
    "str_or (Some (sv_storageCopyMethod t)) ''normal'' = sv_storageCopyMethod t"
    by (simp_all add: assms(1) blueprintToSavedTemplate_def Let_def str_or_def split: option.split)
  show "set_time (Some (sv_dataCopyStartTime t)) = sv_dataCopyStartTime t"
    by (simp add: assms(1) blueprintToSavedTemplate_def Let_def del: only_truthy_simps)
qed (simp_all add: assms(1) blueprintToSavedTemplate_def Let_def)

text \<open>What an edit loses of the stored specification: the fields the template of the page does not hold.\<close>

definition unshown_lost :: "MigrationBlueprintSpec \<Rightarrow> bool" where
  "unshown_lost spec \<longleftrightarrow>
     opt_get bs_performHealthChecks (bp_migrationStrategy spec) = None \<and>
     opt_get bs_healthCheckPort (bp_migrationStrategy spec) = None \<and>
     opt_get bs_arrayOffload (bp_migrationStrategy spec) = None \<and>
     opt_get ao_granularVolumeTypes (bp_advancedOptions spec) = None \<and>
     opt_get ao_granularNetworks (bp_advancedOptions spec) = None \<and>
     opt_get ao_granularPorts (bp_advancedOptions spec) = None \<and>
     bp_noVMwareClusterFilter spec = None \<and> bp_virtioWinDriver spec = None"

lemma saved_unshown_lost: "unshown_lost (savedTemplateInputToBlueprintSpec i)"
  by (simp add: unshown_lost_def savedTemplateInputToBlueprintSpec_def Let_def no_advanced_def)


definition sample_source :: "SourceDataItem list" where
  "sample_source = source_items \<lparr> cr_name = ''vc1'', cr_datacenter = Some ''dc1'', cr_hostName = None \<rparr>
     [\<lparr> cl_name = ''prod-dc1-ab12c'', cl_specName = ''prod'', cl_datacenterAnnotation = None \<rparr>]"

definition sample_pcd :: "PcdDataItem list" where
  "sample_pcd = [\<lparr> pc_id = ''pcd-1'', pc_name = ''main'', pc_openstackCredName = ''os1'', pc_tenantName = ''t'' \<rparr>]"

definition sample_blueprint :: MigrationBlueprint where
  "sample_blueprint =
     \<lparr> bl_metadata = \<lparr> bm_name = ''weekly'', bm_namespace = None, bm_creationTimestamp = None, bm_uid = None,
                       bm_resourceVersion = Some ''7'' \<rparr>,
       bl_spec =
         \<lparr> bp_displayName = ''Weekly'', bp_description = Some ''every week'', bp_vmwareRef = Some ''vc1'',
           bp_pcdRef = Some ''os1'', bp_vmwareClusterName = Some ''prod'', bp_noVMwareClusterFilter = None,
           bp_targetPCDClusterName = Some ''main'',
           bp_networkMappings = Some [\<lparr> rm_source = ''VM Network'', rm_target = ''net1'' \<rparr>],
           bp_storageMappings = None, bp_arrayCredsMappings = None, bp_proxyVMRef = None,
           bp_migrationStrategy = Some
             \<lparr> bs_type = ''hot'', bs_dataCopyStart = None, bs_vmCutoverStart = Some ''2026-01-01T00:00:00Z'',
               bs_vmCutoverEnd = Some ZERO_TIME, bs_adminInitiatedCutOver = Some False,
               bs_performHealthChecks = None, bs_healthCheckPort = None, bs_disconnectSourceNetwork = None,
               bs_arrayOffload = None \<rparr>,
           bp_advancedOptions = Some (no_advanced\<lparr> ao_removeVMwareTools := Some True \<rparr>),
           bp_postMigrationAction = None, bp_firstBootScript = None, bp_securityGroups = None,
           bp_serverGroup = None, bp_fallbackToDHCP = Some True, bp_dataOnly = None,
           bp_preserveSourceTags = None, bp_customMetadata = Some [(''team'', ''infra'')],
           bp_useGPUFlavor = None, bp_storageCopyMethod = None, bp_osFamily = None,
           bp_virtioWinDriver = None \<rparr> \<rparr>"


section \<open>The store of templates\<close>

text \<open>The template the list shows for a body that was posted: the API server may add metadata but keeps the name.\<close>

definition stored :: "MigrationBlueprint \<Rightarrow> SavedTemplate \<Rightarrow> bool" where
  "stored b t = (\<exists>m. bm_name m = bm_name (bl_metadata b) \<and> t = blueprintToSavedTemplate (b\<lparr> bl_metadata := m \<rparr>))"

text \<open>What the API server wants of a new resource: a name that is free and not too long. It does not look at the display name.\<close>

definition api_takes :: "SavedTemplate list \<Rightarrow> SavedTemplate \<Rightarrow> bool" where
  "api_takes ts t = (sv_name t \<notin> sv_name ` set ts \<and> length (sv_name t) \<le> 253)"

text \<open>
  A step of the page: the templates of the server and the list the query cache holds, if any, which the operations read as
  \<open>getQueryData(...) || []\<close>. The list is loaded and dropped at any time; an operation does not wait for it, and the server
  refuses a post whose name is taken. With the flag, every operation finds the list of the server in the cache.
\<close>

inductive template_step :: "bool \<Rightarrow> SavedTemplate list \<times> SavedTemplate list option \<Rightarrow>
    SavedTemplate list \<times> SavedTemplate list option \<Rightarrow> bool" for current where
  step_load: "template_step current (ts, cache) (ts, Some ts)"
| step_drop: "template_step current (ts, cache) (ts, None)"
| step_save:
    "saveAsTemplate (list_or cache) input = Inr b \<Longrightarrow> stored b t \<Longrightarrow> api_takes ts t \<Longrightarrow> (current \<Longrightarrow> list_or cache = ts) \<Longrightarrow>
     template_step current (ts, cache) (ts @ [t], cache)"
| step_update:
    "updateTemplate (list_or cache) n rv input = Inr b \<Longrightarrow> stored b t' \<Longrightarrow> (current \<Longrightarrow> list_or cache = ts) \<Longrightarrow>
     template_step current (ts, cache) (map (\<lambda>t. if sv_name t = n then t' else t) ts, cache)"
| step_clone:
    "stored (cloneTemplate (list_or cache) t) t' \<Longrightarrow> api_takes ts t' \<Longrightarrow> (current \<Longrightarrow> list_or cache = ts) \<Longrightarrow>
     template_step current (ts, cache) (ts @ [t'], cache)"
| step_delete: "template_step current (ts, cache) (filter (\<lambda>t. sv_name t \<noteq> n) ts, cache)"

inductive_cases template_stepE: "template_step current st st'"

lemma stored_names:
  "stored b t \<Longrightarrow> sv_name t = bm_name (bl_metadata b) \<and> sv_displayName t = bp_displayName (bl_spec b)"
  by (auto simp: stored_def blueprintToSavedTemplate_def Let_def)

lemma saved_display [simp]: "bp_displayName (savedTemplateInputToBlueprintSpec input) = si_displayName input"
  by (simp add: savedTemplateInputToBlueprintSpec_def Let_def)

lemma copy_loop_fresh: "copy_loop base taken d suffix \<notin> set taken"
  by (induction base taken d suffix rule: copy_loop.induct)
    (subst copy_loop.simps, simp)

definition store_ok :: "bool \<Rightarrow> SavedTemplate list \<Rightarrow> bool" where
  "store_ok current ts =
     (distinct (map sv_name ts) \<and> list_all (\<lambda>n. k8s_name n \<and> length n \<le> 253) (map sv_name ts) \<and>
      (current \<longrightarrow> distinct (map sv_displayName ts)))"

lemma unique_name_valid: "k8s_name (uniqueTemplateName (sanitizeTemplateName d) names)"
  using uniqueTemplateName_cases [of "sanitizeTemplateName d" names] sanitizeTemplateName_k8s k8s_name_numbered by metis

lemma store_ok_add:
  assumes "store_ok current ts" and "api_takes ts t" and "k8s_name (sv_name t)"
    and "current \<Longrightarrow> sv_displayName t \<notin> sv_displayName ` set ts"
  shows "store_ok current (ts @ [t])"
  using assms by (simp add: store_ok_def api_takes_def)

lemma updated_displays:
  assumes "distinct (map sv_name ts)" "distinct (map sv_displayName ts)"
    and "\<And>t. t \<in> set ts \<Longrightarrow> sv_name t \<noteq> n \<Longrightarrow> sv_displayName t \<noteq> sv_displayName t'"
  shows "distinct (map sv_displayName (map (\<lambda>t. if sv_name t = n then t' else t) ts))"
  unfolding distinct_conv_nth
proof (intro allI impI)
  fix i j
  assume ij: "i < length (map sv_displayName (map (\<lambda>t. if sv_name t = n then t' else t) ts))"
    "j < length (map sv_displayName (map (\<lambda>t. if sv_name t = n then t' else t) ts))" "i \<noteq> j"
  then have "sv_name (ts ! i) \<noteq> sv_name (ts ! j)" "sv_displayName (ts ! i) \<noteq> sv_displayName (ts ! j)"
    using assms(1,2) by (auto simp: distinct_conv_nth)
  with ij assms(3) [of "ts ! i"] assms(3) [of "ts ! j"]
  show "map sv_displayName (map (\<lambda>t. if sv_name t = n then t' else t) ts) ! i \<noteq>
        map sv_displayName (map (\<lambda>t. if sv_name t = n then t' else t) ts) ! j"
    by auto
qed

lemma store_ok_update:
  assumes "store_ok current ts" and "sv_name t' = n"
    and "\<And>t. current \<Longrightarrow> t \<in> set ts \<Longrightarrow> sv_name t \<noteq> n \<Longrightarrow> sv_displayName t \<noteq> sv_displayName t'"
  shows "store_ok current (map (\<lambda>t. if sv_name t = n then t' else t) ts)"
proof -
  have "map sv_name (map (\<lambda>t. if sv_name t = n then t' else t) ts) = map sv_name ts"
    using assms(2) by simp
  with assms(1,3) updated_displays [of ts n t'] show ?thesis by (simp only: store_ok_def) blast
qed

lemma template_step_ok: "template_step current st st' \<Longrightarrow> store_ok current (fst st) \<Longrightarrow> store_ok current (fst st')"
proof (induction rule: template_step.induct)
  case (step_save cache input b t ts)
  have free: "display_name_key (sv_displayName s) \<noteq> display_name_key (si_displayName input)" if "s \<in> set (list_or cache)" for s
    using step_save.hyps(1) that by (auto simp: saveAsTemplate_def Let_def list_ex_iff split: if_splits)
  have b: "b = createMigrationBlueprintJson
      (uniqueTemplateName (sanitizeTemplateName (si_displayName input)) (map sv_name (list_or cache)))
      (savedTemplateInputToBlueprintSpec input) None"
    using step_save.hyps(1) by (auto simp: saveAsTemplate_def Let_def split: if_splits)
  have t: "k8s_name (sv_name t)" "sv_displayName t = si_displayName input"
    using stored_names [OF step_save.hyps(2)] by (simp_all add: b createMigrationBlueprintJson_def unique_name_valid)
  have "store_ok current (ts @ [t])"
  proof (rule store_ok_add [OF _ step_save.hyps(3) t(1)])
    show "store_ok current ts" using step_save.prems by simp
    show "sv_displayName t \<notin> sv_displayName ` set ts" if current
      using free step_save.hyps(4) that t(2) by (metis imageE)
  qed
  then show ?case by simp
next
  case (step_update cache n rv input b t' ts)
  have free: "display_name_key (sv_displayName s) \<noteq> display_name_key (si_displayName input)"
    if "s \<in> set (list_or cache)" "sv_name s \<noteq> n" for s
    using step_update.hyps(1) that by (auto simp: updateTemplate_def list_ex_iff split: if_splits)
  have b: "b = createMigrationBlueprintJson n (savedTemplateInputToBlueprintSpec input) (Some rv)"
    using step_update.hyps(1) by (auto simp: updateTemplate_def split: if_splits)
  have t': "sv_name t' = n" "sv_displayName t' = si_displayName input"
    using stored_names [OF step_update.hyps(2)] by (simp_all add: b createMigrationBlueprintJson_def)
  have "store_ok current (map (\<lambda>t. if sv_name t = n then t' else t) ts)"
  proof (rule store_ok_update [OF _ t'(1)])
    show "store_ok current ts" using step_update.prems by simp
    show "sv_displayName s \<noteq> sv_displayName t'" if current "s \<in> set ts" "sv_name s \<noteq> n" for s
      using free [of s] step_update.hyps(3) that t'(2) by metis
  qed
  then show ?case by simp
next
  case (step_clone cache t t' ts)
  let ?taken = "map sv_displayName (list_or cache)"
  let ?d = "copy_loop (sv_displayName t @ '' (copy)'') ?taken (sv_displayName t @ '' (copy)'') 2"
  have t': "k8s_name (sv_name t')" "sv_displayName t' = ?d"
    using stored_names [OF step_clone.hyps(1)]
    by (simp_all add: cloneTemplate_def Let_def createMigrationBlueprintJson_def unique_name_valid)
  have "?d \<notin> set ?taken" by (rule copy_loop_fresh)
  then have fresh: "sv_displayName t' \<notin> sv_displayName ` set ts" if current
    using step_clone.hyps(3) [OF that] t'(2) by simp
  have "store_ok current (ts @ [t'])"
    using store_ok_add [OF _ step_clone.hyps(2) t'(1) fresh] step_clone.prems by simp
  then show ?case by simp
next
  case (step_delete ts cache n)
  then show ?case by (auto simp: store_ok_def distinct_map_filter list_all_iff)
qed simp_all

lemma reachable_store_ok: "(template_step current)\<^sup>*\<^sup>* ([], None) st \<Longrightarrow> store_ok current (fst st)"
  by (induction rule: rtranclp_induct) (simp add: store_ok_def, rule template_step_ok)

text \<open>C15: whatever sequence of saves, edits, clones and deletions the operator makes, and whatever the query cache holds when an
  operation reads it, the templates of the server have distinct resource names, each with the characters and the length of a
  Kubernetes name. If every operation that reads the cache finds the list of the server there, the display names are
  distinct too. The server refuses a new name that is taken or longer than 253 characters.\<close>

theorem template_store_invariant:
  assumes "(template_step current)\<^sup>*\<^sup>* ([], None) (ts, cache)"
  shows "distinct (map sv_name ts) \<and> list_all (\<lambda>t. k8s_name (sv_name t) \<and> length (sv_name t) \<le> 253) ts \<and>
         (current \<longrightarrow> distinct (map sv_displayName ts))"
  using reachable_store_ok [OF assms] by (simp add: store_ok_def list_all_iff)

definition sample_input :: "string \<Rightarrow> SaveAsTemplateInput" where
  "sample_input n =
     buildSaveTemplateInput None None sample_source sample_pcd empty_form DEFAULT_MIGRATION_OPTIONS
       \<lparr> tf_displayName = n, tf_description = None \<rparr>"

definition posted :: "string + MigrationBlueprint \<Rightarrow> SavedTemplate list" where
  "posted r = (case r of Inl _ \<Rightarrow> [] | Inr b \<Rightarrow> [blueprintToSavedTemplate b])"

lemma stored_posted: "stored b (blueprintToSavedTemplate b)"
  by (auto simp: stored_def intro!: exI [of _ "bl_metadata b"])

lemma posted_step:
  "saveAsTemplate ts input = Inr b \<Longrightarrow> api_takes ts (blueprintToSavedTemplate b) \<Longrightarrow>
   template_step True (ts, Some ts) (ts @ posted (saveAsTemplate ts input), Some ts)"
  using step_save [of "Some ts"] stored_posted by (simp add: posted_def)

text \<open>Save ''Web'', save ''Web (COPY)'', clone the first.\<close>

definition two_webs :: "SavedTemplate list" where
  "two_webs = (let ts = posted (saveAsTemplate [] (sample_input ''Web''))
               in ts @ posted (saveAsTemplate ts (sample_input ''Web (COPY)'')))"

definition cloned_web :: "SavedTemplate list" where
  "cloned_web = two_webs @ [blueprintToSavedTemplate (cloneTemplate two_webs (hd two_webs))]"

lemma cloned_web_reachable: "(template_step True)\<^sup>*\<^sup>* ([], None) (cloned_web, Some two_webs)"
proof -
  let ?a = "posted (saveAsTemplate [] (sample_input ''Web''))"
  have "isl (saveAsTemplate [] (sample_input ''Web'')) = False" by code_simp
  then obtain b where b: "saveAsTemplate [] (sample_input ''Web'') = Inr b"
    by (cases "saveAsTemplate [] (sample_input ''Web'')") auto
  have a: "map sv_name ?a = [''web'']" by code_simp
  then have b': "api_takes [] (blueprintToSavedTemplate b)" by (simp add: b posted_def api_takes_def)
  have "isl (saveAsTemplate ?a (sample_input ''Web (COPY)'')) = False" by code_simp
  then obtain c where c: "saveAsTemplate ?a (sample_input ''Web (COPY)'') = Inr c"
    by (cases "saveAsTemplate ?a (sample_input ''Web (COPY)'')") auto
  have "map sv_name (posted (saveAsTemplate ?a (sample_input ''Web (COPY)''))) = [''web-copy'']" by code_simp
  moreover have "posted (saveAsTemplate ?a (sample_input ''Web (COPY)'')) = [blueprintToSavedTemplate c]"
    unfolding c by (simp add: posted_def)
  ultimately have "sv_name (blueprintToSavedTemplate c) = ''web-copy''" by simp
  moreover have "sv_name ` set ?a = {''web''}" using a by (metis list.set(1,2) set_map)
  ultimately have c': "api_takes ?a (blueprintToSavedTemplate c)" by (simp only: api_takes_def) simp
  have 1: "template_step True ([], Some []) (?a, Some [])" using posted_step [OF b b'] by simp
  have 2: "template_step True (?a, Some ?a) (two_webs, Some ?a)"
    using posted_step [OF c c'] by (simp add: two_webs_def Let_def)
  have "api_takes two_webs (blueprintToSavedTemplate (cloneTemplate two_webs (hd two_webs)))" by code_simp
  then have 3: "template_step True (two_webs, Some two_webs) (cloned_web, Some two_webs)"
    unfolding cloned_web_def using step_clone [of "Some two_webs" "hd two_webs", OF _ _ refl] stored_posted by simp
  have load: "template_step True (ts, x) (ts, Some ts)" for ts x by (rule step_load)
  show ?thesis using load 1 load 2 load 3 by (meson rtranclp.rtrancl_into_rtrancl rtranclp.rtrancl_refl)
qed

theorem template_store_invariant_witness:
  "distinct (map sv_name cloned_web) \<and> distinct (map sv_displayName cloned_web) \<and>
   list_all (\<lambda>t. k8s_name (sv_name t)) cloned_web"
  using template_store_invariant [OF cloned_web_reachable] by (simp add: list_all_iff)

text \<open>cloning compares display names literally while saving ignores case and surrounding blanks, so the store
  can hold two templates that saving takes for the same name; editing one of them without a change is
  then refused.\<close>

theorem clone_allows_same_name:
  "(template_step True)\<^sup>*\<^sup>* ([], None) (cloned_web, Some two_webs) \<and> \<not> distinct (map (\<lambda>t. display_name_key (sv_displayName t)) cloned_web) \<and>
   updateTemplate cloned_web (sv_name (last cloned_web)) [] (sample_input (sv_displayName (last cloned_web))) =
     Inl (name_taken_error ''Web (copy)'')"
proof (intro conjI)
  show "\<not> distinct (map (\<lambda>t. display_name_key (sv_displayName t)) cloned_web)" by code_simp
  show "updateTemplate cloned_web (sv_name (last cloned_web)) [] (sample_input (sv_displayName (last cloned_web))) =
     Inl (name_taken_error ''Web (copy)'')" by code_simp
qed (rule cloned_web_reachable)

section \<open>Clusters of several datacenters\<close>

lemma clustersByDC_snoc:
  "clustersByDC cred (clusters @ [c]) =
     sobj_set (cluster_datacenter cred c)
       (list_or (map_of (clustersByDC cred clusters) (cluster_datacenter cred c)) @ [c]) (clustersByDC cred clusters)"
  by (simp add: clustersByDC_def Let_def)

lemma clustersByDC_ok: "obj_ok key_before (clustersByDC cred clusters)"
  by (induction clusters rule: rev_induct)
    (simp_all add: clustersByDC_snoc skey.ok_set, simp add: clustersByDC_def skey.ok_Nil)

lemma clustersByDC_lists: "(dc, cls) \<in> set (clustersByDC cred clusters) \<Longrightarrow> cls \<noteq> [] \<and> set cls \<subseteq> set clusters"
proof (induction clusters arbitrary: dc cls rule: rev_induct)
  case Nil
  then show ?case by (simp add: clustersByDC_def)
next
  case (snoc c clusters)
  let ?m = "clustersByDC cred clusters" and ?k = "cluster_datacenter cred c"
  have old: "set (list_or (map_of ?m ?k)) \<subseteq> set clusters"
  proof (cases "map_of ?m ?k")
    case (Some v)
    then have "(?k, v) \<in> set ?m" by (rule map_of_SomeD)
    then show ?thesis using snoc.IH Some by simp
  qed simp
  have "(dc, cls) \<in> insert (?k, list_or (map_of ?m ?k) @ [c]) (set ?m)"
    using snoc.prems set_obj_set_subset [of key_before ?k "list_or (map_of ?m ?k) @ [c]" ?m]
    unfolding clustersByDC_snoc by (rule_tac subsetD)
  then consider "cls = list_or (map_of ?m ?k) @ [c]" | "(dc, cls) \<in> set ?m" by auto
  then show ?case
  proof cases
    case 1
    then show ?thesis using old by auto
  next
    case 2
    then have "cls \<noteq> [] \<and> set cls \<subseteq> set clusters" by (rule snoc.IH)
    then show ?thesis by auto
  qed
qed

definition no_colon :: "string \<Rightarrow> bool" where
  "no_colon s = (CHR '':'' \<notin> set s)"

lemma cred_of_cluster_id_id: "no_colon cred \<Longrightarrow> cred_of_cluster_id (cluster_id cred dc n) = cred"
  by (auto simp: cred_of_cluster_id_def cluster_id_def no_colon_def takeWhile_append)

lemma split_at_colon:
  "no_colon u \<Longrightarrow> no_colon v \<Longrightarrow> u @ CHR '':'' # x = v @ CHR '':'' # y \<Longrightarrow> u = v \<and> x = y"
proof (induction u arbitrary: v)
  case Nil
  then show ?case by (cases v) (auto simp: no_colon_def)
next
  case (Cons c u)
  then show ?case by (cases v) (auto simp: no_colon_def)
qed

lemma cluster_id_inj:
  assumes "no_colon m" and "no_colon n"
  shows "cluster_id cred dc m = cluster_id cred dc' n \<longleftrightarrow> dc = dc' \<and> m = n"
proof
  assume "cluster_id cred dc m = cluster_id cred dc' n"
  then have "rev (dc @ '':'' @ m) = rev (dc' @ '':'' @ n)" by (simp add: cluster_id_def)
  then have "rev m @ CHR '':'' # rev dc = rev n @ CHR '':'' # rev dc'" by simp
  then have "rev m = rev n \<and> rev dc = rev dc'"
    by (intro split_at_colon) (use assms in \<open>simp_all add: no_colon_def\<close>)
  then show "dc = dc' \<and> m = n" by simp
qed simp

lemma find_cluster:
  assumes "no_colon n" and "list_all (\<lambda>c. no_colon (cl_name c)) cls"
  shows "find (\<lambda>k. sc_id k = cluster_id cred dc n)
           (map (\<lambda>c. \<lparr> sc_id = cluster_id cred dc0 (cl_name c), sc_name = cl_name c, sc_displayName = cl_specName c \<rparr>) cls) =
         (if dc = dc0 then
            map_option (\<lambda>c. \<lparr> sc_id = cluster_id cred dc0 (cl_name c), sc_name = cl_name c, sc_displayName = cl_specName c \<rparr>)
              (find (\<lambda>c. cl_name c = n) cls)
          else None)"
  using assms(2) by (induction cls) (auto simp: cluster_id_inj assms(1))


text \<open>the form looks a cluster up only under the first entry of its credential, and the catalogue has one entry
  per datacenter: of a credential with several datacenters, only the clusters of the first are found.
  For all others the name is empty, so that a template saved from the form loses its source cluster.\<close>

theorem cluster_name_first_datacenter:
  assumes "no_colon (cr_name cred)" and "cr_name cred \<noteq> []"
    and "list_all (\<lambda>c. no_colon (cl_name c)) clusters"
    and "clustersByDC cred clusters = (dc0, cls0) # rest"
    and "(dc, cls) \<in> set (clustersByDC cred clusters)" and "c \<in> set cls" and "distinct (map cl_name cls)"
  shows "selectedVmwareClusterName (fetchSourceData [(cred, clusters)]) (Some (cluster_id (cr_name cred) dc (cl_name c))) =
         (if dc = dc0 then (if cl_specName c \<noteq> [] then cl_specName c else cl_name c) else [])"
proof -
  let ?i = "cluster_id (cr_name cred) dc (cl_name c)"
  have sub: "set cls0 \<subseteq> set clusters" "cls0 \<noteq> []" "set cls \<subseteq> set clusters"
    using clustersByDC_lists [of dc0 cls0 cred clusters] clustersByDC_lists [OF assms(5)] assms(4) by simp_all
  have names: "list_all (\<lambda>c. no_colon (cl_name c)) cls0" "no_colon (cl_name c)"
    using assms(3,6) sub by (auto simp: list_all_iff)
  obtain items where items: "fetchSourceData [(cred, clusters)] =
      \<lparr> sd_credName = cr_name cred, sd_datacenter = dc0, sd_vcenterName = str_or (cr_hostName cred) (cr_name cred),
        sd_clusters = map (\<lambda>c. \<lparr> sc_id = cluster_id (cr_name cred) dc0 (cl_name c), sc_name = cl_name c,
                                 sc_displayName = cl_specName c \<rparr>) cls0 \<rparr> # items"
    using sub(2) by (simp add: fetchSourceData_def source_items_def assms(4))
  have "?i \<noteq> []" using assms(2) by (simp add: cluster_id_def)
  then have sel: "selectedVmwareClusterName (fetchSourceData [(cred, clusters)]) (Some ?i) =
      (case (if dc = dc0 then find (\<lambda>k. cl_name k = cl_name c) cls0 else None) of None \<Rightarrow> []
       | Some k \<Rightarrow> if cl_specName k \<noteq> [] then cl_specName k else cl_name k)"
    by (simp add: selectedVmwareClusterName_def items cred_of_cluster_id_id assms(1) find_cluster names
        split: option.split)
  show ?thesis
  proof (cases "dc = dc0")
    case True
    have "distinct (map fst (clustersByDC cred clusters))"
      using clustersByDC_ok [of cred clusters] by (simp add: obj_ok_def)
    then have "cls = cls0"
      using assms(4,5) True by (auto simp: rev_image_eqI)
    then show ?thesis using sel True find_distinct [OF assms(7,6)] by simp
  qed (simp add: sel)
qed

theorem cluster_name_first_datacenter_witness:
  "selectedVmwareClusterName
     (fetchSourceData
       [(\<lparr> cr_name = ''vc1'', cr_datacenter = None, cr_hostName = None \<rparr>,
         [\<lparr> cl_name = ''a'', cl_specName = ''prod'', cl_datacenterAnnotation = Some ''dc1'' \<rparr>,
          \<lparr> cl_name = ''b'', cl_specName = ''test'', cl_datacenterAnnotation = Some ''dc2'' \<rparr>])])
     (Some (cluster_id ''vc1'' ''dc2'' ''b'')) = []"
  using cluster_name_first_datacenter
    [of "\<lparr> cr_name = ''vc1'', cr_datacenter = None, cr_hostName = None \<rparr>"
        "[\<lparr> cl_name = ''a'', cl_specName = ''prod'', cl_datacenterAnnotation = Some ''dc1'' \<rparr>,
          \<lparr> cl_name = ''b'', cl_specName = ''test'', cl_datacenterAnnotation = Some ''dc2'' \<rparr>]"
        "''dc1''" "[\<lparr> cl_name = ''a'', cl_specName = ''prod'', cl_datacenterAnnotation = Some ''dc1'' \<rparr>]"
        "[(''dc2'', [\<lparr> cl_name = ''b'', cl_specName = ''test'', cl_datacenterAnnotation = Some ''dc2'' \<rparr>])]"
        "''dc2''" "[\<lparr> cl_name = ''b'', cl_specName = ''test'', cl_datacenterAnnotation = Some ''dc2'' \<rparr>]"
        "\<lparr> cl_name = ''b'', cl_specName = ''test'', cl_datacenterAnnotation = Some ''dc2'' \<rparr>"]
  by (simp add: clustersByDC_def cluster_datacenter_def no_colon_def key_before_def index_key_def digit_char_def Let_def)

section \<open>A catalogue that arrives late\<close>

definition catalogue_ok :: "PcdDataItem list \<Rightarrow> SourceDataItem list \<Rightarrow> SavedTemplate \<Rightarrow> bool" where
  "catalogue_ok pcdData sourceData t =
     (list_all (\<lambda>p. pc_id p \<noteq> [] \<and> pc_id p \<noteq> sv_targetCluster t) pcdData \<and>
      list_all (\<lambda>item. list_all (\<lambda>c. sc_id c \<noteq> []) (sd_clusters item)) sourceData)"

lemma source_cluster_match_id:
  "list_all (\<lambda>item. list_all (\<lambda>c. sc_id c \<noteq> []) (sd_clusters item)) sourceData \<Longrightarrow>
   source_cluster_match sourceData t = Some c \<Longrightarrow> sc_id c \<noteq> []"
  by (auto simp: source_cluster_match_def list_all_iff split: option.splits dest!: find_SomeD)

lemma target_cluster_match_id:
  "list_all (\<lambda>p. pc_id p \<noteq> [] \<and> pc_id p \<noteq> n) pcdData \<Longrightarrow>
   target_cluster_match pcdData t = Some p \<Longrightarrow> pc_id p \<noteq> []"
  by (auto simp: target_cluster_match_def list_all_iff dest!: find_SomeD)

text \<open>a template applied before the clusters are loaded gives, once they are, the same form as one applied
  after: the names that stood in for the two clusters are replaced by their ids.\<close>

theorem late_catalogue_same_form:
  assumes "pf_applied s \<noteq> Some (sv_name t)" and "sv_targetCluster t \<noteq> []" and "sv_sourceCluster t \<noteq> []"
    and "catalogue_ok pcdData sourceData t"
  shows "resync_effect True (Some t) pcdData sourceData (apply_effect True (Some t) [] [] s) =
         apply_effect True (Some t) pcdData sourceData s"
proof -
  let ?p = "prefill_params [] [] t (pf_params s)"
  have ids: "\<And>c. source_cluster_match sourceData t = Some c \<Longrightarrow> sc_id c \<noteq> []"
    "\<And>p. target_cluster_match pcdData t = Some p \<Longrightarrow> pc_id p \<noteq> []"
    using assms(4) source_cluster_match_id target_cluster_match_id by (auto simp: catalogue_ok_def)
  have p: "fv_pcdCluster ?p = Some (sv_targetCluster t)" "fv_vmwareCluster ?p = Some (sv_sourceCluster t)"
    by (simp_all add: prefill_params_def target_cluster_match_def source_cluster_match_def)
  have no: "\<not> list_ex (\<lambda>x. pc_id x = sv_targetCluster t) pcdData"
    using assms(4) by (auto simp: catalogue_ok_def list_ex_iff list_all_iff)
  have "prefill_params pcdData sourceData t (pf_params s) = ?p
      \<lparr> fv_vmwareCluster := Some (case source_cluster_match sourceData t of None \<Rightarrow> sv_sourceCluster t | Some c \<Rightarrow> sc_id c),
        fv_pcdCluster := Some (case target_cluster_match pcdData t of None \<Rightarrow> sv_targetCluster t | Some p \<Rightarrow> pc_id p) \<rparr>"
    using ids by (simp add: prefill_params_def split: option.split)
  moreover have "?p\<lparr> fv_pcdCluster := Some (sv_targetCluster t) \<rparr> = ?p"
    "?p\<lparr> fv_vmwareCluster := Some (sv_sourceCluster t) \<rparr> = ?p"
    using p by (simp_all add: prefill_params_def target_cluster_match_def source_cluster_match_def)
  ultimately show ?thesis
    using assms(1-3) p no
    by (simp add: apply_effect_def resync_effect_def Let_def split: option.split)
qed

theorem late_catalogue_same_form_witness:
  "resync_effect True (Some (blueprintToSavedTemplate sample_blueprint)) sample_pcd sample_source
     (apply_effect True (Some (blueprintToSavedTemplate sample_blueprint)) [] []
        \<lparr> pf_applied = None, pf_params = empty_form, pf_selected = DEFAULT_MIGRATION_OPTIONS \<rparr>) =
   apply_effect True (Some (blueprintToSavedTemplate sample_blueprint)) sample_pcd sample_source
     \<lparr> pf_applied = None, pf_params = empty_form, pf_selected = DEFAULT_MIGRATION_OPTIONS \<rparr>"
proof (rule late_catalogue_same_form)
  show "sv_targetCluster (blueprintToSavedTemplate sample_blueprint) \<noteq> []" by code_simp
  show "sv_sourceCluster (blueprintToSavedTemplate sample_blueprint) \<noteq> []" by code_simp
  show "catalogue_ok sample_pcd sample_source (blueprintToSavedTemplate sample_blueprint)" by code_simp
qed simp

end
