(* ===== verification/Mappings.thy ===== *)
theory Mappings
  imports Form_Types
begin

text \<open>
  The mapping step of the form, \<open>ui/src/features/migration/hooks/useFilteredMappings.ts\<close>, and the image
  profiles, \<open>utils/imageProfiles.ts\<close>. Both keep a selection in step with what is available: entries that
  no longer apply are pruned, and entries of an applied template are added again when they apply, unless
  the operator removed them by hand. The locale \<open>reconciler\<close> is that contract; the selection, its laws and
  its fixed point are proved in it once and interpreted on the mappings and on the profiles.
\<close>

section \<open>Prune and re-apply\<close>

text \<open>The loop over the pool: \<open>seen\<close> is the set of keys that have an entry already.\<close>

fun select_new :: "('a \<Rightarrow> 'k) \<Rightarrow> ('a \<Rightarrow> bool) \<Rightarrow> 'a list \<Rightarrow> 'k set \<Rightarrow> 'a list" where
  "select_new key addable [] seen = []"
| "select_new key addable (x # pool) seen =
     (if key x \<notin> seen \<and> addable x then x # select_new key addable pool (insert (key x) seen)
      else select_new key addable pool seen)"

definition reconciled :: "('a \<Rightarrow> 'k) \<Rightarrow> ('a \<Rightarrow> bool) \<Rightarrow> ('a \<Rightarrow> bool) \<Rightarrow> 'a list \<Rightarrow> 'a list \<Rightarrow> 'a list" where
  "reconciled key keep addable pool current =
     filter keep current @ select_new key addable pool (set (map key (filter keep current)))"

lemma select_new_sub: "x \<in> set (select_new key addable pool seen) \<Longrightarrow> x \<in> set pool \<and> addable x \<and> key x \<notin> seen"
  by (induction pool arbitrary: seen) (fastforce split: if_splits)+

lemma select_new_distinct: "distinct (map key (select_new key addable pool seen))"
  by (induction pool arbitrary: seen) (auto dest: select_new_sub)

lemma select_new_complete:
  "x \<in> set pool \<Longrightarrow> addable x \<Longrightarrow> key x \<in> seen \<union> key ` set (select_new key addable pool seen)"
  by (induction pool arbitrary: seen) auto

lemma select_new_none: "(\<And>x. x \<in> set pool \<Longrightarrow> addable x \<Longrightarrow> key x \<in> seen) \<Longrightarrow> select_new key addable pool seen = []"
  by (induction pool arbitrary: seen) auto

locale reconciler =
  fixes key :: "'a \<Rightarrow> 'k" and keep :: "'a \<Rightarrow> bool" and addable :: "'a \<Rightarrow> bool"
  assumes addable_keep: "addable x \<Longrightarrow> keep x"
begin

lemma reconciled_keep: "x \<in> set (reconciled key keep addable pool current) \<Longrightarrow> keep x"
  by (auto simp: reconciled_def addable_keep dest: select_new_sub)

lemma reconciled_source:
  "x \<in> set (reconciled key keep addable pool current) \<Longrightarrow> x \<in> set current \<or> x \<in> set pool \<and> addable x"
  by (auto simp: reconciled_def dest: select_new_sub)

lemma reconciled_kept: "x \<in> set current \<Longrightarrow> keep x \<Longrightarrow> x \<in> set (reconciled key keep addable pool current)"
  by (simp add: reconciled_def)

lemma reconciled_complete:
  "x \<in> set pool \<Longrightarrow> addable x \<Longrightarrow> key x \<in> key ` set (reconciled key keep addable pool current)"
  using select_new_complete [of x pool addable key "set (map key (filter keep current))"]
  by (auto simp: reconciled_def)

lemma reconciled_distinct:
  assumes "distinct (map key current)"
  shows "distinct (map key (reconciled key keep addable pool current))"
proof -
  have "distinct (map key (filter keep current))"
    using assms by (rule distinct_map_filter)
  moreover have "set (map key (filter keep current)) \<inter>
      set (map key (select_new key addable pool (set (map key (filter keep current))))) = {}"
  proof (rule Int_emptyI)
    fix k
    assume "k \<in> set (map key (filter keep current))"
      and "k \<in> set (map key (select_new key addable pool (set (map key (filter keep current)))))"
    then obtain x where "k = key x" "x \<in> set (select_new key addable pool (set (map key (filter keep current))))"
      by (metis imageE set_map)
    then show False
      using select_new_sub \<open>k \<in> set (map key (filter keep current))\<close> by metis
  qed
  ultimately show ?thesis
    by (simp only: reconciled_def map_append distinct_append select_new_distinct)
qed

text \<open>One pass is enough: a second one finds nothing to prune and nothing to add.\<close>

lemma reconciled_fixed:
  "reconciled key keep addable pool (reconciled key keep addable pool current) = reconciled key keep addable pool current"
proof -
  let ?r = "reconciled key keep addable pool current"
  have "filter keep ?r = ?r" by (simp add: filter_id_conv reconciled_keep)
  moreover have "select_new key addable pool (set (map key ?r)) = []"
    using reconciled_complete by (intro select_new_none) simp
  ultimately show ?thesis by (simp add: reconciled_def [of key keep addable pool ?r])
qed

end

section \<open>The mappings\<close>

definition filterMappingsBySourceAndTarget ::
  "ResourceMap list option \<Rightarrow> string list \<Rightarrow> string list \<Rightarrow> ResourceMap list" where
  "filterMappingsBySourceAndTarget mappings sourceList targetList =
     (if length targetList = 0 then list_or mappings
      else filter (\<lambda>m. rm_source m \<in> set sourceList \<and> rm_target m \<in> set targetList) (list_or mappings))"

definition mappingsNeedReconcile :: "ResourceMap list \<Rightarrow> ResourceMap list option \<Rightarrow> bool" where
  "mappingsNeedReconcile filtered current = (length filtered \<noteq> length (list_or current))"

definition mappingsEqual :: "ResourceMap list \<Rightarrow> ResourceMap list option \<Rightarrow> bool" where
  "mappingsEqual a b =
     (let other = list_or b
      in if length a \<noteq> length other then False
         else list_all (\<lambda>(x, y). rm_source x = rm_source y \<and> rm_target x = rm_target y) (zip a other))"

definition selectApplicableTemplateMappings ::
  "ResourceMap list option \<Rightarrow> ResourceMap list option \<Rightarrow> string list \<Rightarrow> string list \<Rightarrow> string set \<Rightarrow> ResourceMap list" where
  "selectApplicableTemplateMappings pool current availableSources availableTargets suppressedSources =
     (if \<not> nonempty_opt pool then []
      else if availableSources = [] \<or> availableTargets = [] then []
      else select_new rm_source
             (\<lambda>m. rm_source m \<notin> suppressedSources \<and> rm_source m \<in> set availableSources \<and>
                  rm_target m \<in> set availableTargets)
             (list_or pool) (set (map rm_source (list_or current))))"

definition recordUserMappingEdits ::
  "string set \<Rightarrow> ResourceMap list option \<Rightarrow> ResourceMap list \<Rightarrow> string set" where
  "recordUserMappingEdits suppressed previous next_maps =
     (let previousSources = set (map rm_source (list_or previous));
          nextSources = set (map rm_source next_maps)
      in (suppressed \<union> (previousSources - nextSources)) - nextSources)"

text \<open>An array credential, with the datastores it serves (\<open>status.dataStore\<close>).\<close>

record ArrayCreds =
  ac_name :: string
  ac_dataStores :: "string list option"

text \<open>What the hook is called with on a render, and the state it works on: the three mappings of the form
  and the four sets its refs hold.\<close>

record mapping_env =
  me_vmwareNetworks :: "string list"
  me_openstackNetworkNames :: "string list"
  me_vmWareStorage :: "string list"
  me_openstackStorage :: "string list"
  me_arrayCredsNames :: "string list"
  me_storageCopyMethod :: string
  me_validatedArrayCreds :: "ArrayCreds list"
  me_poolNetworks :: "ResourceMap list option"
  me_poolStorage :: "ResourceMap list option"
  me_poolArrayCreds :: "ResourceMap list option"

record mapping_state =
  ms_networkMappings :: "ResourceMap list option"
  ms_storageMappings :: "ResourceMap list option"
  ms_arrayCredsMappings :: "ResourceMap list option"
  ms_removedAutoArrayCreds :: "string set"
  ms_userRemovedNetworks :: "string set"
  ms_userRemovedStorage :: "string set"
  ms_userRemovedArrayCreds :: "string set"

text \<open>The body shared by the network, the storage and the array effect: the value they write, if any.\<close>

definition reconcile_write ::
  "ResourceMap list option \<Rightarrow> ResourceMap list option \<Rightarrow> string list \<Rightarrow> string list \<Rightarrow> string set \<Rightarrow>
   ResourceMap list option" where
  "reconcile_write pool current sources targets suppressed =
     (let filtered = filterMappingsBySourceAndTarget current sources targets;
          additions = selectApplicableTemplateMappings pool (Some filtered) sources targets suppressed;
          desired = (if additions \<noteq> [] then filtered @ additions else filtered)
      in if mappingsEqual desired current then None else Some desired)"

definition network_effect :: "mapping_env \<Rightarrow> mapping_state \<Rightarrow> ResourceMap list option" where
  "network_effect e s =
     reconcile_write (me_poolNetworks e) (ms_networkMappings s) (me_vmwareNetworks e)
       (me_openstackNetworkNames e) (ms_userRemovedNetworks s)"

definition storage_effect :: "mapping_env \<Rightarrow> mapping_state \<Rightarrow> ResourceMap list option" where
  "storage_effect e s =
     (if me_storageCopyMethod e \<noteq> ''normal'' then None
      else reconcile_write (me_poolStorage e) (ms_storageMappings s) (me_vmWareStorage e)
             (me_openstackStorage e) (ms_userRemovedStorage s))"

definition hot_add_effect :: "mapping_env \<Rightarrow> mapping_state \<Rightarrow> ResourceMap list option" where
  "hot_add_effect e s =
     (if me_storageCopyMethod e \<noteq> ''HotAdd'' then None
      else (let current = list_or (ms_storageMappings s);
                additions = selectApplicableTemplateMappings (me_poolStorage e) (Some current)
                              (me_vmWareStorage e) (me_openstackStorage e) (ms_userRemovedStorage s)
            in if length additions = 0 then None else Some (current @ additions)))"

definition array_effect :: "mapping_env \<Rightarrow> mapping_state \<Rightarrow> ResourceMap list option" where
  "array_effect e s =
     (if me_storageCopyMethod e \<noteq> ''StorageAcceleratedCopy'' then None
      else reconcile_write (me_poolArrayCreds e) (ms_arrayCredsMappings s) (me_vmWareStorage e)
             (me_arrayCredsNames e) (ms_userRemovedArrayCreds s))"

text \<open>\<open>datastoreToArrayCredsMap\<close>: a datastore that two credentials serve belongs to the last.\<close>

definition datastore_map :: "ArrayCreds list \<Rightarrow> string \<Rightarrow> string option" where
  "datastore_map creds =
     map_of (rev (concat (map (\<lambda>c. map (\<lambda>ds. (ds, ac_name c)) (list_or (ac_dataStores c))) creds)))"

definition auto_map_effect :: "mapping_env \<Rightarrow> mapping_state \<Rightarrow> ResourceMap list option" where
  "auto_map_effect e s =
     (if me_storageCopyMethod e \<noteq> ''StorageAcceleratedCopy'' \<or> length (me_validatedArrayCreds e) = 0 \<or>
         length (me_vmWareStorage e) = 0
      then None
      else (let dm = datastore_map (me_validatedArrayCreds e);
                currentMappings = list_or (ms_arrayCredsMappings s);
                currentMappedSources = set (map rm_source currentMappings);
                autoMappings =
                  map (\<lambda>ds. \<lparr> rm_source = ds, rm_target = the (dm ds) \<rparr>)
                    (filter (\<lambda>ds. ds \<notin> ms_removedAutoArrayCreds s \<and> ds \<notin> currentMappedSources \<and> dm ds \<noteq> None)
                      (me_vmWareStorage e))
            in if length autoMappings > 0 then Some (currentMappings @ autoMappings) else None))"

definition written :: "ResourceMap list option \<Rightarrow> ResourceMap list option \<Rightarrow> ResourceMap list option" where
  "written write old = (case write of None \<Rightarrow> old | Some v \<Rightarrow> Some v)"

text \<open>The effects after one render. All of them read the rendered state, and of two writes to the same key the
  one of the later effect stays.\<close>

definition run_effects :: "mapping_env \<Rightarrow> mapping_state \<Rightarrow> mapping_state" where
  "run_effects e s = s
     \<lparr> ms_networkMappings := written (network_effect e s) (ms_networkMappings s),
       ms_storageMappings := written (hot_add_effect e s) (written (storage_effect e s) (ms_storageMappings s)),
       ms_arrayCredsMappings :=
         written (auto_map_effect e s) (written (array_effect e s) (ms_arrayCredsMappings s)) \<rparr>"

definition handleNetworkMappingsChange :: "ResourceMap list \<Rightarrow> mapping_state \<Rightarrow> mapping_state" where
  "handleNetworkMappingsChange nextMappings s = s
     \<lparr> ms_userRemovedNetworks :=
         recordUserMappingEdits (ms_userRemovedNetworks s) (ms_networkMappings s) nextMappings,
       ms_networkMappings := Some nextMappings \<rparr>"

definition handleStorageMappingsChange :: "ResourceMap list \<Rightarrow> mapping_state \<Rightarrow> mapping_state" where
  "handleStorageMappingsChange nextMappings s = s
     \<lparr> ms_userRemovedStorage :=
         recordUserMappingEdits (ms_userRemovedStorage s) (ms_storageMappings s) nextMappings,
       ms_storageMappings := Some nextMappings \<rparr>"

definition handleArrayCredsMappingsChange :: "ResourceMap list \<Rightarrow> mapping_state \<Rightarrow> mapping_state" where
  "handleArrayCredsMappingsChange nextMappings s =
     (let prevSources = set (map rm_source (list_or (ms_arrayCredsMappings s)));
          nextSources = set (map rm_source nextMappings)
      in s\<lparr> ms_removedAutoArrayCreds :=
              (ms_removedAutoArrayCreds s \<union> (prevSources - nextSources)) - nextSources,
            ms_userRemovedArrayCreds :=
              recordUserMappingEdits (ms_userRemovedArrayCreds s) (ms_arrayCredsMappings s) nextMappings,
            ms_arrayCredsMappings := Some nextMappings \<rparr>)"

section \<open>The image profiles\<close>

record VolumeImageProfile =
  ip_name :: string
  ip_osFamily :: "string option"

definition matchesOsFamily :: "string option \<Rightarrow> bool \<Rightarrow> bool" where
  "matchesOsFamily raw wantWindows =
     (let family = js_lower (js_trim (str_or raw []))
      in if wantWindows then family = ''windows'' \<or> family = ''windowsguest''
         else family = ''linux'' \<or> family = ''linuxguest'')"

definition hasOsFamilySelected :: "string option list option \<Rightarrow> bool \<Rightarrow> bool" where
  "hasOsFamilySelected osFamilies wantWindows = list_ex (\<lambda>f. matchesOsFamily f wantWindows) (list_or osFamilies)"

definition isProfileApplicable :: "VolumeImageProfile \<Rightarrow> bool \<Rightarrow> bool \<Rightarrow> bool" where
  "isProfileApplicable profile hasWindows hasLinux =
     (let family = js_trim (str_or (ip_osFamily profile) [])
      in if family = [] \<or> family = ''any'' then True
         else if matchesOsFamily (Some family) True then hasWindows
         else if matchesOsFamily (Some family) False then hasLinux
         else False)"

definition selectApplicableTemplateProfiles ::
  "string list option \<Rightarrow> string list \<Rightarrow> string set \<Rightarrow> string set \<Rightarrow> string list" where
  "selectApplicableTemplateProfiles pool current applicableNames suppressedProfiles =
     (if \<not> nonempty_opt pool then []
      else if applicableNames = {} then []
      else select_new (\<lambda>n. n) (\<lambda>n. n \<notin> suppressedProfiles \<and> n \<in> applicableNames) (list_or pool) (set current))"

definition reconcileImageProfiles ::
  "string list \<Rightarrow> string list option \<Rightarrow> string set \<Rightarrow> string set \<Rightarrow> string list \<times> string list" where
  "reconcileImageProfiles current pool applicableNames suppressedProfiles =
     (let pruned = filter (\<lambda>n. n \<in> applicableNames) current;
          additions = selectApplicableTemplateProfiles pool pruned applicableNames suppressedProfiles
      in if length additions = 0 \<and> length pruned = length current then (current, additions)
         else (pruned @ additions, additions))"

section \<open>The contract, on the mappings and on the profiles\<close>

definition mapping_kept :: "string list \<Rightarrow> string list \<Rightarrow> ResourceMap \<Rightarrow> bool" where
  "mapping_kept sources targets m = (targets = [] \<or> rm_source m \<in> set sources \<and> rm_target m \<in> set targets)"

definition mapping_addable :: "string list \<Rightarrow> string list \<Rightarrow> string set \<Rightarrow> ResourceMap \<Rightarrow> bool" where
  "mapping_addable sources targets suppressed m =
     (rm_source m \<in> set sources \<and> rm_target m \<in> set targets \<and> rm_source m \<notin> suppressed)"

interpretation mappings: reconciler rm_source "mapping_kept sources targets" "mapping_addable sources targets suppressed"
  for sources targets :: "string list" and suppressed :: "string set"
  by unfold_locales (simp add: mapping_kept_def mapping_addable_def)

definition profile_addable :: "string set \<Rightarrow> string set \<Rightarrow> string \<Rightarrow> bool" where
  "profile_addable applicable suppressed n = (n \<in> applicable \<and> n \<notin> suppressed)"

interpretation profiles: reconciler "\<lambda>n. n" "\<lambda>n. n \<in> applicable" "profile_addable applicable suppressed"
  for applicable suppressed :: "string set"
  by unfold_locales (simp add: profile_addable_def)

section \<open>The effects as reconciliation\<close>

lemma ResourceMap_eq: "m = n \<longleftrightarrow> rm_source m = rm_source n \<and> rm_target m = rm_target (n :: ResourceMap)"
  by (cases m; cases n) auto

lemma mappingsEqual_iff: "mappingsEqual a b \<longleftrightarrow> a = list_or b"
proof -
  have "length xs = length ys \<Longrightarrow>
      list_all (\<lambda>(x, y). rm_source x = rm_source y \<and> rm_target x = rm_target y) (zip xs ys) \<longleftrightarrow> xs = ys"
    for xs ys :: "ResourceMap list"
    by (induction xs ys rule: list_induct2) (simp_all add: ResourceMap_eq)
  then show ?thesis by (auto simp: mappingsEqual_def Let_def)
qed

lemma filterMappings_kept:
  "filterMappingsBySourceAndTarget current sources targets = filter (mapping_kept sources targets) (list_or current)"
  by (auto simp: filterMappingsBySourceAndTarget_def mapping_kept_def intro!: filter_cong)

lemma selectApplicable_new:
  "selectApplicableTemplateMappings pool current sources targets suppressed =
     select_new rm_source (mapping_addable sources targets suppressed) (list_or pool) (set (map rm_source (list_or current)))"
proof -
  have "(\<lambda>m. rm_source m \<notin> suppressed \<and> rm_source m \<in> set sources \<and> rm_target m \<in> set targets) =
      mapping_addable sources targets suppressed"
    by (auto simp: mapping_addable_def fun_eq_iff)
  moreover have "select_new rm_source (mapping_addable sources targets suppressed) ms seen = []"
    if "sources = [] \<or> targets = []" for ms seen
    using that by (intro select_new_none) (auto simp: mapping_addable_def)
  moreover have "select_new rm_source (mapping_addable sources targets suppressed) (list_or pool) seen = []"
    if "\<not> nonempty_opt pool" for seen
    using that by (cases pool) auto
  ultimately show ?thesis by (simp add: selectApplicableTemplateMappings_def)
qed

abbreviation reconciled_maps where
  "reconciled_maps sources targets suppressed \<equiv>
     reconciled rm_source (mapping_kept sources targets) (mapping_addable sources targets suppressed)"

lemma reconcile_write_reconciled:
  "reconcile_write pool current sources targets suppressed =
     (let r = reconciled_maps sources targets suppressed (list_or pool) (list_or current)
      in if r = list_or current then None else Some r)"
  by (simp add: reconcile_write_def Let_def mappingsEqual_iff filterMappings_kept selectApplicable_new reconciled_def)

lemma list_or_written: "list_or (written w old) = (case w of None \<Rightarrow> list_or old | Some v \<Rightarrow> v)"
  by (simp add: written_def split: option.split)

lemma list_or_reconcile:
  "list_or (written (reconcile_write pool current sources targets suppressed) current) =
     reconciled_maps sources targets suppressed (list_or pool) (list_or current)"
  by (simp add: list_or_written reconcile_write_reconciled Let_def)

lemma written_none [simp]: "written None old = old"
  by (simp add: written_def)

lemma reconcile_write_settled:
  "reconcile_write pool (written (reconcile_write pool current sources targets suppressed) current)
     sources targets suppressed = None"
  unfolding reconcile_write_reconciled [of pool "written _ _"] list_or_reconcile
  by (simp add: mappings.reconciled_fixed Let_def)

lemma hot_add_settled:
  assumes "me_storageCopyMethod e = ''HotAdd''"
    and "list_or (ms_storageMappings s') = list_or (written (hot_add_effect e s) (ms_storageMappings s))"
    and "ms_userRemovedStorage s' = ms_userRemovedStorage s"
  shows "hot_add_effect e s' = None"
proof -
  let ?a = "mapping_addable (me_vmWareStorage e) (me_openstackStorage e) (ms_userRemovedStorage s)"
  let ?c = "list_or (ms_storageMappings s)" and ?p = "list_or (me_poolStorage e)"
  have c': "list_or (ms_storageMappings s') = ?c @ select_new rm_source ?a ?p (set (map rm_source ?c))"
    by (simp add: assms(1,2) list_or_written hot_add_effect_def Let_def selectApplicable_new)
  have "select_new rm_source ?a ?p (set (map rm_source (list_or (ms_storageMappings s')))) = []"
    using select_new_complete [of _ ?p ?a rm_source "set (map rm_source ?c)"]
    by (intro select_new_none) (auto simp: c')
  then show ?thesis
    by (simp add: hot_add_effect_def assms(1,3) Let_def selectApplicable_new)
qed

section \<open>Properties\<close>

text \<open>with the standard and the hot-add copy the effects settle after one pass: run again on the state they
  wrote, in the same environment, they write nothing.\<close>

theorem mapping_effects_settle:
  assumes "me_storageCopyMethod e \<noteq> ''StorageAcceleratedCopy''"
  shows "run_effects e (run_effects e s) = run_effects e s"
proof -
  let ?s = "run_effects e s"
  have net: "network_effect e ?s = None"
    by (simp add: network_effect_def run_effects_def reconcile_write_settled)
  have sto: "storage_effect e ?s = None"
  proof (cases "me_storageCopyMethod e = ''normal''")
    case True
    then have "hot_add_effect e s = None" by (simp add: hot_add_effect_def)
    then have "ms_storageMappings ?s = written (storage_effect e s) (ms_storageMappings s)"
      by (simp add: run_effects_def)
    then show ?thesis
      using True by (simp add: storage_effect_def run_effects_def reconcile_write_settled)
  qed (simp add: storage_effect_def)
  have hot: "hot_add_effect e ?s = None"
  proof (cases "me_storageCopyMethod e = ''HotAdd''")
    case True
    then have "storage_effect e s = None" by (simp add: storage_effect_def)
    then show ?thesis
      using hot_add_settled [OF True, of ?s s] by (simp add: run_effects_def)
  qed (simp add: hot_add_effect_def)
  have arr: "array_effect e ?s = None" "auto_map_effect e ?s = None"
    using assms by (simp_all add: array_effect_def auto_map_effect_def)
  show ?thesis
    unfolding run_effects_def [of e ?s] net sto hot arr by simp
qed

definition sample_env :: mapping_env where
  "sample_env =
     \<lparr> me_vmwareNetworks = [''VM Network''], me_openstackNetworkNames = [''net1'', ''net2''],
       me_vmWareStorage = [''ds1''], me_openstackStorage = [''ceph''], me_arrayCredsNames = [''pure'', ''netapp''],
       me_storageCopyMethod = ''normal'',
       me_validatedArrayCreds = [\<lparr> ac_name = ''netapp'', ac_dataStores = Some [''ds1''] \<rparr>],
       me_poolNetworks = Some [\<lparr> rm_source = ''VM Network'', rm_target = ''net2'' \<rparr>],
       me_poolStorage = Some [\<lparr> rm_source = ''ds1'', rm_target = ''ceph'' \<rparr>],
       me_poolArrayCreds = Some [\<lparr> rm_source = ''ds1'', rm_target = ''pure'' \<rparr>] \<rparr>"

definition initial_mappings :: mapping_state where
  "initial_mappings =
     \<lparr> ms_networkMappings = None, ms_storageMappings = None, ms_arrayCredsMappings = None,
       ms_removedAutoArrayCreds = {}, ms_userRemovedNetworks = {}, ms_userRemovedStorage = {},
       ms_userRemovedArrayCreds = {} \<rparr>"

theorem mapping_effects_settle_witness:
  "run_effects sample_env (run_effects sample_env initial_mappings) = run_effects sample_env initial_mappings"
  by (rule mapping_effects_settle) (simp add: sample_env_def)

text \<open>What a render leaves of a mapping: the source is a network some selected machine uses and the target exists.\<close>

definition map_applies :: "string list \<Rightarrow> string list \<Rightarrow> ResourceMap \<Rightarrow> bool" where
  "map_applies sources targets m = (rm_source m \<in> set sources \<and> rm_target m \<in> set targets)"

lemma select_new_iff:
  "x \<in> set (select_new key addable pool seen) \<longleftrightarrow>
     key x \<notin> seen \<and> find (\<lambda>y. key y = key x \<and> addable y) pool = Some x"
  by (induction pool arbitrary: seen) auto

text \<open>C23: after a render in which the list of target networks is not empty, the network mappings are exactly these: the ones
  of before whose source some selected machine uses and whose target exists; and for every source without such a mapping,
  unless it is recorded as removed by the operator, the first mapping of the applied template for that source whose target
  exists, with that target. With an empty list of targets nothing changes, invalid mappings included.\<close>

theorem network_mappings_reconciled:
  "(me_openstackNetworkNames e \<noteq> [] \<longrightarrow>
      (\<forall>m. m \<in> set (list_or (ms_networkMappings (run_effects e s))) \<longleftrightarrow>
         map_applies (me_vmwareNetworks e) (me_openstackNetworkNames e) m \<and>
         (m \<in> set (list_or (ms_networkMappings s)) \<or>
          (\<nexists>k. k \<in> set (list_or (ms_networkMappings s)) \<and> rm_source k = rm_source m \<and>
               map_applies (me_vmwareNetworks e) (me_openstackNetworkNames e) k) \<and>
          rm_source m \<notin> ms_userRemovedNetworks s \<and>
          find (\<lambda>k. rm_source k = rm_source m \<and> map_applies (me_vmwareNetworks e) (me_openstackNetworkNames e) k)
            (list_or (me_poolNetworks e)) = Some m))) \<and>
   (me_openstackNetworkNames e = [] \<longrightarrow> ms_networkMappings (run_effects e s) = ms_networkMappings s)"
proof -
  let ?S = "me_vmwareNetworks e" and ?T = "me_openstackNetworkNames e" and ?X = "ms_userRemovedNetworks s"
  let ?c = "list_or (ms_networkMappings s)" and ?p = "list_or (me_poolNetworks e)"
  have r: "list_or (ms_networkMappings (run_effects e s)) = reconciled_maps ?S ?T ?X ?p ?c"
    by (simp add: run_effects_def network_effect_def list_or_reconcile)
  have full: "m \<in> set (reconciled_maps ?S ?T ?X ?p ?c) \<longleftrightarrow>
      map_applies ?S ?T m \<and> (m \<in> set ?c \<or> (\<nexists>k. k \<in> set ?c \<and> rm_source k = rm_source m \<and> map_applies ?S ?T k) \<and>
        rm_source m \<notin> ?X \<and> find (\<lambda>k. rm_source k = rm_source m \<and> map_applies ?S ?T k) ?p = Some m)"
    if "?T \<noteq> []" for m
  proof -
    have kept: "mapping_kept ?S ?T = map_applies ?S ?T"
      using that by (auto simp: mapping_kept_def map_applies_def fun_eq_iff)
    have found: "find (\<lambda>k. rm_source k = rm_source m \<and> mapping_addable ?S ?T ?X k) p = Some m \<longleftrightarrow>
        rm_source m \<notin> ?X \<and> find (\<lambda>k. rm_source k = rm_source m \<and> map_applies ?S ?T k) p = Some m" for p
      by (induction p) (auto simp: mapping_addable_def map_applies_def)
    have "map_applies ?S ?T m" if "find (\<lambda>k. rm_source k = rm_source m \<and> map_applies ?S ?T k) ?p = Some m"
      using that by (auto dest: find_SomeD)
    then show ?thesis
      unfolding reconciled_def set_append Un_iff select_new_iff kept found
      by (simp add: image_iff) (metis (no_types, lifting))
  qed
  have "ms_networkMappings (run_effects e s) = ms_networkMappings s" if "?T = []"
    using that by (simp add: run_effects_def network_effect_def reconcile_write_def Let_def written_def
        filterMappingsBySourceAndTarget_def selectApplicableTemplateMappings_def mappingsEqual_iff)
  with full r show ?thesis by auto
qed

theorem network_mappings_reconciled_witness:
  "\<lparr> rm_source = ''VM Network'', rm_target = ''net2'' \<rparr> \<in>
     set (list_or (ms_networkMappings (run_effects sample_env initial_mappings)))"
proof -
  let ?m = "\<lparr> rm_source = ''VM Network'', rm_target = ''net2'' \<rparr>"
  have m: "list_or (me_poolNetworks sample_env) = [?m]" "me_openstackNetworkNames sample_env \<noteq> []"
    "map_applies (me_vmwareNetworks sample_env) (me_openstackNetworkNames sample_env) ?m"
    "list_or (ms_networkMappings initial_mappings) = []" "rm_source ?m \<notin> ms_userRemovedNetworks initial_mappings"
    by (simp_all add: sample_env_def initial_mappings_def map_applies_def)
  then show ?thesis using network_mappings_reconciled [of sample_env initial_mappings] by (auto simp: m)
qed

text \<open>The life of the mapping step: renders in any environment, and edits of the three kinds.\<close>

inductive mapping_step :: "mapping_state \<Rightarrow> mapping_state \<Rightarrow> bool" where
  step_render: "mapping_step s (run_effects e s)"
| step_networks: "mapping_step s (handleNetworkMappingsChange next_maps s)"
| step_storage: "mapping_step s (handleStorageMappingsChange next_maps s)"
| step_array: "mapping_step s (handleArrayCredsMappingsChange next_maps s)"

definition sources_of :: "ResourceMap list option \<Rightarrow> string set" where
  "sources_of ms = rm_source ` set (list_or ms)"

definition removed_stay_removed :: "mapping_state \<Rightarrow> bool" where
  "removed_stay_removed s =
     (sources_of (ms_networkMappings s) \<inter> ms_userRemovedNetworks s = {} \<and>
      sources_of (ms_storageMappings s) \<inter> ms_userRemovedStorage s = {} \<and>
      sources_of (ms_arrayCredsMappings s) \<inter> ms_userRemovedArrayCreds s = {} \<and>
      ms_removedAutoArrayCreds s = ms_userRemovedArrayCreds s)"

lemma written_disjoint:
  "sources_of old \<inter> X = {} \<Longrightarrow> (\<And>v. w = Some v \<Longrightarrow> sources_of (Some v) \<inter> X = {}) \<Longrightarrow>
   sources_of (written w old) \<inter> X = {}"
  by (cases w) (simp_all add: written_def)

lemma reconcile_write_disjoint:
  assumes "reconcile_write pool current sources targets X = Some v" and "sources_of current \<inter> X = {}"
  shows "sources_of (Some v) \<inter> X = {}"
proof -
  have v: "v = reconciled_maps sources targets X (list_or pool) (list_or current)"
    using assms(1) by (auto simp: reconcile_write_reconciled Let_def split: if_splits)
  show ?thesis
    using assms(2) mappings.reconciled_source [where sources = "sources" and targets = "targets" and suppressed = "X"]
    by (fastforce simp: v sources_of_def mapping_addable_def)
qed

lemma hot_add_disjoint:
  assumes "hot_add_effect e s = Some v" and "sources_of (ms_storageMappings s) \<inter> ms_userRemovedStorage s = {}"
  shows "sources_of (Some v) \<inter> ms_userRemovedStorage s = {}"
proof -
  let ?a = "mapping_addable (me_vmWareStorage e) (me_openstackStorage e) (ms_userRemovedStorage s)"
  let ?c = "list_or (ms_storageMappings s)"
  have "v = ?c @ select_new rm_source ?a (list_or (me_poolStorage e)) (set (map rm_source ?c))"
    using assms(1) by (auto simp: hot_add_effect_def Let_def selectApplicable_new split: if_splits)
  then show ?thesis
    using assms(2) select_new_sub [of _ rm_source ?a]
    by (fastforce simp: sources_of_def mapping_addable_def)
qed

lemma auto_map_disjoint:
  assumes "auto_map_effect e s = Some v" and "sources_of (ms_arrayCredsMappings s) \<inter> ms_removedAutoArrayCreds s = {}"
  shows "sources_of (Some v) \<inter> ms_removedAutoArrayCreds s = {}"
  using assms by (fastforce simp: auto_map_effect_def Let_def sources_of_def split: if_splits)

lemma edits_disjoint: "sources_of (Some ms) \<inter> recordUserMappingEdits X old ms = {}"
  by (auto simp: sources_of_def recordUserMappingEdits_def Let_def)

lemma mapping_step_removed: "mapping_step s s' \<Longrightarrow> removed_stay_removed s \<Longrightarrow> removed_stay_removed s'"
proof (induction rule: mapping_step.induct)
  case (step_render s e)
  then have inv: "sources_of (ms_networkMappings s) \<inter> ms_userRemovedNetworks s = {}"
    "sources_of (ms_storageMappings s) \<inter> ms_userRemovedStorage s = {}"
    "sources_of (ms_arrayCredsMappings s) \<inter> ms_userRemovedArrayCreds s = {}"
    "ms_removedAutoArrayCreds s = ms_userRemovedArrayCreds s"
    by (simp_all add: removed_stay_removed_def)
  have "sources_of (ms_networkMappings (run_effects e s)) \<inter> ms_userRemovedNetworks s = {}"
    using inv(1) by (simp add: run_effects_def network_effect_def)
      (rule written_disjoint, assumption, rule reconcile_write_disjoint)
  moreover have "sources_of (written (storage_effect e s) (ms_storageMappings s)) \<inter> ms_userRemovedStorage s = {}"
    using inv(2) by (auto simp: storage_effect_def intro!: written_disjoint reconcile_write_disjoint split: if_splits)
  then have "sources_of (ms_storageMappings (run_effects e s)) \<inter> ms_userRemovedStorage s = {}"
    using hot_add_disjoint [OF _ inv(2)] by (simp add: run_effects_def) (rule written_disjoint, assumption, assumption)
  moreover have "sources_of (written (array_effect e s) (ms_arrayCredsMappings s)) \<inter> ms_userRemovedArrayCreds s = {}"
    using inv(3) by (auto simp: array_effect_def intro!: written_disjoint reconcile_write_disjoint split: if_splits)
  then have "sources_of (ms_arrayCredsMappings (run_effects e s)) \<inter> ms_userRemovedArrayCreds s = {}"
    using auto_map_disjoint [of e s] inv(3,4)
    by (simp add: run_effects_def) (rule written_disjoint, assumption, simp)
  ultimately show ?case
    using inv(4) by (simp add: removed_stay_removed_def) (simp add: run_effects_def)
next
  case (step_networks next_maps s)
  then show ?case by (simp add: removed_stay_removed_def handleNetworkMappingsChange_def edits_disjoint)
next
  case (step_storage next_maps s)
  then show ?case by (simp add: removed_stay_removed_def handleStorageMappingsChange_def edits_disjoint)
next
  case (step_array next_maps s)
  then show ?case
    by (simp add: removed_stay_removed_def handleArrayCredsMappingsChange_def edits_disjoint Let_def)
      (simp add: recordUserMappingEdits_def Let_def)
qed

lemma reachable_removed: "mapping_step\<^sup>*\<^sup>* initial_mappings s \<Longrightarrow> removed_stay_removed s"
  by (induction rule: rtranclp_induct)
    (simp_all add: mapping_step_removed, simp add: removed_stay_removed_def initial_mappings_def sources_of_def)

text \<open>The history of the form, and what the operator did in it. A source was removed by hand when an edit took its mapping away
  and no later edit put one back; the sets of the hook play no part in that.\<close>

datatype mapping_kind = NetworkMaps | StorageMaps | ArrayMaps

datatype mapping_event = Rendered mapping_env | Edited mapping_kind "ResourceMap list"

fun maps_of :: "mapping_kind \<Rightarrow> mapping_state \<Rightarrow> ResourceMap list option" where
  "maps_of NetworkMaps s = ms_networkMappings s"
| "maps_of StorageMaps s = ms_storageMappings s"
| "maps_of ArrayMaps s = ms_arrayCredsMappings s"

fun after_event :: "mapping_event \<Rightarrow> mapping_state \<Rightarrow> mapping_state" where
  "after_event (Rendered e) s = run_effects e s"
| "after_event (Edited NetworkMaps ms) s = handleNetworkMappingsChange ms s"
| "after_event (Edited StorageMaps ms) s = handleStorageMappingsChange ms s"
| "after_event (Edited ArrayMaps ms) s = handleArrayCredsMappingsChange ms s"

definition after_history :: "mapping_event list \<Rightarrow> mapping_state" where
  "after_history es = fold after_event es initial_mappings"

definition removed_by_hand :: "mapping_kind \<Rightarrow> string \<Rightarrow> mapping_event list \<Rightarrow> bool" where
  "removed_by_hand k x es \<longleftrightarrow>
     (\<exists>before ms later. es = before @ Edited k ms # later \<and>
        x \<in> sources_of (maps_of k (after_history before)) \<and> x \<notin> sources_of (Some ms) \<and>
        (\<forall>ms'. Edited k ms' \<in> set later \<longrightarrow> x \<notin> sources_of (Some ms')))"

fun suppressed_of :: "mapping_kind \<Rightarrow> mapping_state \<Rightarrow> string set" where
  "suppressed_of NetworkMaps s = ms_userRemovedNetworks s"
| "suppressed_of StorageMaps s = ms_userRemovedStorage s"
| "suppressed_of ArrayMaps s = ms_userRemovedArrayCreds s"

lemmas edit_handlers = handleNetworkMappingsChange_def handleStorageMappingsChange_def
  handleArrayCredsMappingsChange_def recordUserMappingEdits_def

lemma run_effects_suppressed [simp]: "suppressed_of k (run_effects e s) = suppressed_of k s"
  by (cases k) (simp_all add: run_effects_def)

lemma suppressed_stays:
  "x \<in> suppressed_of k s \<Longrightarrow> (\<And>ms. ev = Edited k ms \<Longrightarrow> x \<notin> sources_of (Some ms)) \<Longrightarrow> x \<in> suppressed_of k (after_event ev s)"
  by (cases "(ev, s)" rule: after_event.cases; cases k) (auto simp: edit_handlers Let_def sources_of_def)

lemma suppressed_later:
  "x \<in> suppressed_of k s \<Longrightarrow> (\<And>ms. Edited k ms \<in> set es \<Longrightarrow> x \<notin> sources_of (Some ms)) \<Longrightarrow>
   x \<in> suppressed_of k (fold after_event es s)"
  by (induction es arbitrary: s) (auto simp: suppressed_stays)

lemma edit_suppresses:
  "x \<in> sources_of (maps_of k s) \<Longrightarrow> x \<notin> sources_of (Some ms) \<Longrightarrow> x \<in> suppressed_of k (after_event (Edited k ms) s)"
  by (cases k) (auto simp: edit_handlers Let_def sources_of_def)

lemma history_reachable: "mapping_step\<^sup>*\<^sup>* initial_mappings (after_history es)"
proof (induction es rule: rev_induct)
  case (snoc ev es)
  have "mapping_step s (after_event ev s)" for s
    by (cases "(ev, s)" rule: after_event.cases) (auto intro: mapping_step.intros)
  with snoc show ?case by (simp add: after_history_def) (metis rtranclp.rtrancl_into_rtrancl)
qed (simp add: after_history_def)

text \<open>C10: a source that the operator removed by hand, in an edit of the history after which no edit added it again, has no
  mapping of that kind: no effect of any render brings it back, whatever is selected, whatever the template maps, and whatever
  else was edited in between. This holds for the networks, the datastores and the array credentials.\<close>

theorem removed_sources_stay_removed:
  assumes "removed_by_hand k x es"
  shows "x \<notin> sources_of (maps_of k (after_history es))"
proof -
  obtain before ms later where es: "es = before @ Edited k ms # later" "x \<in> sources_of (maps_of k (after_history before))"
      "x \<notin> sources_of (Some ms)" "\<And>ms'. Edited k ms' \<in> set later \<Longrightarrow> x \<notin> sources_of (Some ms')"
    using assms unfolding removed_by_hand_def by blast
  have "x \<in> suppressed_of k (after_history es)"
    using suppressed_later [OF edit_suppresses [OF es(2,3)] es(4)] by (simp add: es(1) after_history_def)
  moreover have "removed_stay_removed (after_history es)"
    by (rule reachable_removed [OF history_reachable])
  ultimately show ?thesis by (cases k) (auto simp: removed_stay_removed_def)
qed

theorem removed_sources_stay_removed_witness:
  "''VM Network'' \<notin> sources_of (maps_of NetworkMaps
     (after_history [Rendered sample_env, Edited NetworkMaps [], Rendered sample_env]))"
proof (rule removed_sources_stay_removed)
  have "''VM Network'' \<in> sources_of (maps_of NetworkMaps (after_history [Rendered sample_env]))" by code_simp
  then show "removed_by_hand NetworkMaps ''VM Network'' [Rendered sample_env, Edited NetworkMaps [], Rendered sample_env]"
    unfolding removed_by_hand_def
    by (intro exI [of _ "[Rendered sample_env]"] exI [of _ "[]"] exI [of _ "[Rendered sample_env]"])
      (simp add: sources_of_def)
qed

lemma auto_map_entry:
  assumes "me_storageCopyMethod e = ''StorageAcceleratedCopy''" and "me_validatedArrayCreds e \<noteq> []"
    and "ds \<in> set (me_vmWareStorage e)" and "datastore_map (me_validatedArrayCreds e) ds = Some auto"
    and "ds \<notin> sources_of (ms_arrayCredsMappings s)" and "ds \<notin> ms_removedAutoArrayCreds s"
  shows "\<exists>v. auto_map_effect e s = Some v \<and> \<lparr> rm_source = ds, rm_target = auto \<rparr> \<in> set v \<and>
           (\<forall>m \<in> set v. rm_source m = ds \<longrightarrow> rm_target m = auto)"
proof -
  let ?dm = "datastore_map (me_validatedArrayCreds e)" and ?c = "list_or (ms_arrayCredsMappings s)"
  let ?ds = "filter (\<lambda>ds. ds \<notin> ms_removedAutoArrayCreds s \<and> ds \<notin> set (map rm_source ?c) \<and> ?dm ds \<noteq> None) (me_vmWareStorage e)"
  let ?v = "?c @ map (\<lambda>ds. \<lparr> rm_source = ds, rm_target = the (?dm ds) \<rparr>) ?ds"
  have ds: "ds \<in> set ?ds" using assms(3-6) by (auto simp: sources_of_def)
  then have "?ds \<noteq> []" by (metis empty_iff list.set(1))
  then have "auto_map_effect e s = Some ?v"
    using assms(1-3) by (auto simp: auto_map_effect_def Let_def)
  moreover have "\<lparr> rm_source = ds, rm_target = auto \<rparr> \<in> set ?v"
    using ds assms(4) by force
  moreover have "\<forall>m \<in> set ?v. rm_source m = ds \<longrightarrow> rm_target m = auto"
    using assms(4,5) by (auto simp: sources_of_def)
  ultimately show ?thesis by blast
qed

text \<open>with the storage accelerated copy two effects write the array mappings of one render, and the later one,
  the automatic mapping, discards what the other re-applied from the template: a datastore that the
  template maps and an array credential claims ends up with the automatic target, now and after the
  effects ran again.\<close>

theorem auto_map_overrides_template:
  assumes "me_storageCopyMethod e = ''StorageAcceleratedCopy''" and "me_validatedArrayCreds e \<noteq> []"
    and "m \<in> set (list_or (me_poolArrayCreds e))" and "rm_source m = ds"
    and "mapping_addable (me_vmWareStorage e) (me_arrayCredsNames e) (ms_userRemovedArrayCreds s) m"
    and "ds \<notin> sources_of (ms_arrayCredsMappings s)" and "ds \<notin> ms_removedAutoArrayCreds s"
    and "datastore_map (me_validatedArrayCreds e) ds = Some auto" and "auto \<in> set (me_arrayCredsNames e)"
  shows "ds \<in> sources_of (written (array_effect e s) (ms_arrayCredsMappings s)) \<and>
         \<lparr> rm_source = ds, rm_target = auto \<rparr> \<in> set (list_or (ms_arrayCredsMappings (run_effects e s))) \<and>
         (\<forall>k \<in> set (list_or (ms_arrayCredsMappings (run_effects e s))). rm_source k = ds \<longrightarrow> rm_target k = auto) \<and>
         \<lparr> rm_source = ds, rm_target = auto \<rparr> \<in>
           set (list_or (ms_arrayCredsMappings (run_effects e (run_effects e s))))"
proof -
  let ?S = "me_vmWareStorage e" and ?T = "me_arrayCredsNames e"
  have ds: "ds \<in> set ?S" using assms(4,5) by (simp add: mapping_addable_def)
  obtain v where v: "auto_map_effect e s = Some v" "\<lparr> rm_source = ds, rm_target = auto \<rparr> \<in> set v"
    "\<forall>m \<in> set v. rm_source m = ds \<longrightarrow> rm_target m = auto"
    using auto_map_entry [OF assms(1,2) ds assms(8,6,7)] by blast
  have r: "list_or (written (array_effect e s') (ms_arrayCredsMappings s')) =
      reconciled_maps ?S ?T (ms_userRemovedArrayCreds s') (list_or (me_poolArrayCreds e)) (list_or (ms_arrayCredsMappings s'))" for s'
    by (simp add: array_effect_def assms(1) list_or_reconcile)
  have tmpl: "ds \<in> sources_of (written (array_effect e s) (ms_arrayCredsMappings s))"
    using mappings.reconciled_complete [OF assms(3,5)] assms(4) by (simp add: sources_of_def r)
  have one: "list_or (ms_arrayCredsMappings (run_effects e s)) = v"
    by (simp add: run_effects_def v(1) list_or_written)
  let ?s = "run_effects e s"
  have kept: "mapping_kept ?S ?T \<lparr> rm_source = ds, rm_target = auto \<rparr>"
    using ds assms(9) by (simp add: mapping_kept_def)
  have base: "\<lparr> rm_source = ds, rm_target = auto \<rparr> \<in> set (list_or (written (array_effect e ?s) (ms_arrayCredsMappings ?s)))"
    unfolding r one using v(2) kept by (rule mappings.reconciled_kept)
  have "\<lparr> rm_source = ds, rm_target = auto \<rparr> \<in> set w" if "auto_map_effect e ?s = Some w" for w
  proof -
    have "set (list_or (ms_arrayCredsMappings ?s)) \<subseteq> set w"
      using that by (auto simp: auto_map_effect_def Let_def split: if_splits)
    then show ?thesis using v(2) one by blast
  qed
  then have "\<lparr> rm_source = ds, rm_target = auto \<rparr> \<in> set (list_or (ms_arrayCredsMappings (run_effects e ?s)))"
    using base by (cases "auto_map_effect e ?s") (simp_all add: run_effects_def [of e ?s] list_or_written)
  then show ?thesis using tmpl one v(2,3) by blast
qed

theorem auto_map_overrides_template_witness:
  "\<lparr> rm_source = ''ds1'', rm_target = ''netapp'' \<rparr> \<in>
     set (list_or (ms_arrayCredsMappings
       (run_effects (sample_env\<lparr> me_storageCopyMethod := ''StorageAcceleratedCopy'' \<rparr>) initial_mappings)))"
  using auto_map_overrides_template
    [of "sample_env\<lparr> me_storageCopyMethod := ''StorageAcceleratedCopy'' \<rparr>" "\<lparr> rm_source = ''ds1'', rm_target = ''pure'' \<rparr>"
        "''ds1''" initial_mappings "''netapp''"]
  by (simp add: sample_env_def initial_mappings_def mapping_addable_def sources_of_def datastore_map_def)

lemma selectProfiles_new:
  "selectApplicableTemplateProfiles pool current applicable suppressed =
     select_new (\<lambda>n. n) (profile_addable applicable suppressed) (list_or pool) (set current)"
proof -
  have "(\<lambda>n. n \<notin> suppressed \<and> n \<in> applicable) = profile_addable applicable suppressed"
    by (auto simp: profile_addable_def)
  moreover have "select_new (\<lambda>n. n) (profile_addable applicable suppressed) ns seen = []" if "applicable = {}" for ns seen
    using that by (intro select_new_none) (simp add: profile_addable_def)
  moreover have "select_new (\<lambda>n. n) (profile_addable applicable suppressed) (list_or pool) seen = []"
    if "\<not> nonempty_opt pool" for seen
    using that by (cases pool) auto
  ultimately show ?thesis by (simp add: selectApplicableTemplateProfiles_def)
qed

lemma reconcileImageProfiles_reconciled:
  "fst (reconcileImageProfiles current pool applicable suppressed) =
     reconciled (\<lambda>n. n) (\<lambda>n. n \<in> applicable) (profile_addable applicable suppressed) (list_or pool) current"
proof -
  have "filter (\<lambda>n. n \<in> applicable) current = current"
    if "length (filter (\<lambda>n. n \<in> applicable) current) = length current"
    using that by (metis filter_True length_filter_less less_irrefl)
  then show ?thesis
    by (auto simp: reconcileImageProfiles_def Let_def selectProfiles_new reconciled_def)
qed

text \<open>the image profiles after a change of the selection are all applicable, contain every applicable profile
  that was selected and every applicable one of the template that was not deselected by hand, have no
  duplicates if there were none, and do not change when reconciled again.\<close>

theorem image_profiles_reconciled:
  "let next_profiles = fst (reconcileImageProfiles current pool applicable suppressed)
   in set next_profiles =
        (set current \<inter> applicable) \<union> (set (list_or pool) \<inter> applicable - suppressed) \<and>
      (distinct current \<longrightarrow> distinct next_profiles) \<and>
      fst (reconcileImageProfiles next_profiles pool applicable suppressed) = next_profiles"
proof -
  let ?r = "reconciled (\<lambda>n. n) (\<lambda>n. n \<in> applicable) (profile_addable applicable suppressed) (list_or pool) current"
  have "set ?r = (set current \<inter> applicable) \<union> (set (list_or pool) \<inter> applicable - suppressed)"
  proof (intro equalityI subsetI)
    fix n assume n: "n \<in> set ?r"
    then show "n \<in> (set current \<inter> applicable) \<union> (set (list_or pool) \<inter> applicable - suppressed)"
      using profiles.reconciled_source [OF n] profiles.reconciled_keep [OF n] by (auto simp: profile_addable_def)
  next
    fix n assume "n \<in> (set current \<inter> applicable) \<union> (set (list_or pool) \<inter> applicable - suppressed)"
    then show "n \<in> set ?r"
      using profiles.reconciled_kept [where x = n and current = current and applicable = applicable
          and suppressed = suppressed and pool = "list_or pool"]
        profiles.reconciled_complete [where x = n and current = current and applicable = applicable
          and suppressed = suppressed and pool = "list_or pool"]
      by (auto simp: profile_addable_def)
  qed
  moreover have "distinct current \<longrightarrow> distinct ?r"
    using profiles.reconciled_distinct [where applicable = applicable and suppressed = suppressed and current = current] by simp
  ultimately show ?thesis
    by (simp add: Let_def reconcileImageProfiles_reconciled profiles.reconciled_fixed)
qed

theorem image_profiles_reconciled_witness:
  "distinct (fst (reconcileImageProfiles [''a'', ''b''] (Some [''b'', ''c'', ''c'']) {''b'', ''c''} {}))"
  using image_profiles_reconciled [of "[''a'', ''b'']" "Some [''b'', ''c'', ''c'']" "{''b'', ''c''}" "{}"] by (simp add: Let_def)

end
