(* ===== verification/Form_Validation.thy ===== *)
theory Form_Validation
  imports Form_Types
begin

text \<open>
  When the migration form may be submitted: \<open>ui/src/features/migration/hooks/useFormValidation.ts\<close> with
  \<open>ui/src/hooks/useNetworkMappingValidation.ts\<close> and \<open>useRdmConfigValidation.ts\<close>. Every value the hook
  returns is a definition over the record of its arguments. \<open>localeCompare\<close> belongs to the host and is an
  argument of the definitions that sort.
\<close>

section \<open>The disks with raw device mapping: useRdmConfigValidation\<close>

record IncompatibleVolumeType =
  iv_selectedType :: string
  iv_expectedType :: string
  iv_backendPool :: string

record InvalidRdmDisk =
  iv_diskName :: string
  iv_ownerVMs :: "string list"
  iv_missingFields :: "string list"
  iv_hasPoweredOnVMs :: bool
  iv_poweredOnVMs :: "string list"
  iv_incompatibleVolumeType :: "IncompatibleVolumeType option"

record RdmConfigValidationResult =
  rv_hasValidationError :: bool
  rv_errorMessage :: string
  rv_hasRdmVMs :: bool
  rv_hasPowerStateError :: bool
  rv_powerStateErrorMessage :: string
  rv_hasConfigError :: bool
  rv_configErrorMessage :: string
  rv_hasVolumeTypeError :: bool
  rv_volumeTypeErrorMessage :: string
  rv_invalidRdmDisks :: "InvalidRdmDisk list"

definition emptyResult :: RdmConfigValidationResult where
  "emptyResult =
     \<lparr> rv_hasValidationError = False, rv_errorMessage = [], rv_hasRdmVMs = False,
       rv_hasPowerStateError = False, rv_powerStateErrorMessage = [], rv_hasConfigError = False,
       rv_configErrorMessage = [], rv_hasVolumeTypeError = False, rv_volumeTypeErrorMessage = [],
       rv_invalidRdmDisks = [] \<rparr>"

definition rdm_powered_on :: "VmData \<Rightarrow> bool" where
  "rdm_powered_on vm =
     (str_truthy (vd_vmState vm) \<and>
      js_lower (the (vd_vmState vm)) \<in> {''running'', ''poweredon'', ''on''})"

definition volume_ref :: "(OpenstackVolumeRef \<Rightarrow> 'a option) \<Rightarrow> RdmDisk \<Rightarrow> 'a option" where
  "volume_ref f d = (case rd_openstackVolumeRef d of None \<Rightarrow> None | Some r \<Rightarrow> f r)"

definition rdm_missing_fields :: "RdmDisk \<Rightarrow> string list" where
  "rdm_missing_fields d =
     (if str_truthy (volume_ref vr_cinderBackendPool d) then [] else [''cinderBackendPool'']) @
     (if str_truthy (volume_ref vr_volumeType d) then [] else [''volumeType'']) @
     (if nonempty_opt (volume_ref vr_source d) then [] else [''volumeRef''])"

definition rdm_incompatible :: "string sobj \<Rightarrow> RdmDisk \<Rightarrow> IncompatibleVolumeType option" where
  "rdm_incompatible backendMap d =
     (let backendPool = volume_ref vr_cinderBackendPool d; volumeType = volume_ref vr_volumeType d;
          expected = (case backendPool of None \<Rightarrow> None | Some p \<Rightarrow> map_of backendMap p)
      in if str_truthy backendPool \<and> str_truthy expected then
           (if str_truthy volumeType \<and> expected \<noteq> volumeType
            then Some \<lparr> iv_selectedType = the volumeType, iv_expectedType = the expected,
                        iv_backendPool = the backendPool \<rparr>
            else if \<not> str_truthy volumeType
            then Some \<lparr> iv_selectedType = ''(not set)'', iv_expectedType = the expected,
                        iv_backendPool = the backendPool \<rparr>
            else None)
         else None)"

text \<open>The body of the loop over the disks: the entry that it pushes, if any.\<close>

definition rdm_check :: "VmData list \<Rightarrow> string sobj \<Rightarrow> RdmDisk \<Rightarrow> InvalidRdmDisk list" where
  "rdm_check selectedVMs backendMap d =
     (let relevant = filter (\<lambda>own. own \<in> set (map vd_name selectedVMs)) (rd_ownerVMs d)
      in if relevant = [] then []
         else (let missing = rdm_missing_fields d;
                   poweredOn = filter (\<lambda>n. case find (\<lambda>v. vd_name v = n) selectedVMs of
                                             None \<Rightarrow> False | Some v \<Rightarrow> rdm_powered_on v) relevant;
                   incompatible = rdm_incompatible backendMap d
               in if missing \<noteq> [] \<or> incompatible \<noteq> None
                  then [\<lparr> iv_diskName = rd_diskName d, iv_ownerVMs = relevant, iv_missingFields = missing,
                          iv_hasPoweredOnVMs = (poweredOn \<noteq> []), iv_poweredOnVMs = poweredOn,
                          iv_incompatibleVolumeType = incompatible \<rparr>]
                  else []))"

definition rdm_config_message :: "InvalidRdmDisk list \<Rightarrow> string" where
  "rdm_config_message disks =
     (let fields = js_uniq (concat (map iv_missingFields disks));
          names = js_join '', '' (map iv_diskName disks);
          plural = length disks > 1
      in ''Cannot submit migration plan: RDM disk'' @ (if plural then ''s'' else []) @ '' ('' @ names @ '') '' @
         (if plural then ''require'' else ''requires'') @ '' configuration ('' @ js_join '', '' fields @
         ''). Please configure the RDM disk'' @ (if plural then ''s'' else []) @ '' before proceeding.'')"

definition dquote :: "string \<Rightarrow> string" where
  "dquote s = [CHR 0x22] @ s @ [CHR 0x22]"

definition rdm_volume_type_message :: "InvalidRdmDisk list \<Rightarrow> string" where
  "rdm_volume_type_message disks =
     ''Incompatible volume type mapping: '' @
     js_join ''; '' (filter (\<lambda>m. m \<noteq> []) (map (\<lambda>d. case iv_incompatibleVolumeType d of
         None \<Rightarrow> []
       | Some vt \<Rightarrow> dquote (iv_diskName d) @ '' has volume type '' @ dquote (iv_selectedType vt) @
           '' but backend '' @ dquote (iv_backendPool vt) @ '' expects '' @ dquote (iv_expectedType vt)) disks)) @ ''.''"

definition useRdmConfigValidation ::
  "VmData list \<Rightarrow> RdmDisk list \<Rightarrow> string sobj option \<Rightarrow> RdmConfigValidationResult" where
  "useRdmConfigValidation selectedVMs rdmDisks backendVolumeTypeMap =
     (let backendMap = list_or backendVolumeTypeMap;
          vmsWithRdm = filter (\<lambda>vm. bool_or (vd_hasSharedRdm vm)) selectedVMs
      in if selectedVMs = [] \<or> rdmDisks = [] then emptyResult
         else if vmsWithRdm = [] then emptyResult
         else (let poweredOn = filter rdm_powered_on vmsWithRdm;
                   hasPoweredOnVMs = (poweredOn \<noteq> []);
                   powerMessage = (if hasPoweredOnVMs
                     then ''All VMs with shared RDM disks must be powered off for migration. Currently powered on: '' @
                          js_join '', '' (map vd_name poweredOn)
                     else []);
                   invalid = concat (map (rdm_check selectedVMs backendMap) rdmDisks);
                   withMissing = filter (\<lambda>d. iv_missingFields d \<noteq> []) invalid;
                   hasConfigError = (withMissing \<noteq> []);
                   configMessage = (if hasConfigError then rdm_config_message withMissing else []);
                   withVolumeType = filter (\<lambda>d. iv_incompatibleVolumeType d \<noteq> None) invalid;
                   hasVolumeTypeError = (withVolumeType \<noteq> []);
                   volumeMessage = (if hasVolumeTypeError then rdm_volume_type_message withVolumeType else [])
               in \<lparr> rv_hasValidationError = hasPoweredOnVMs \<or> hasConfigError,
                    rv_errorMessage = (if hasPoweredOnVMs then powerMessage
                                       else if hasVolumeTypeError then volumeMessage
                                       else if hasConfigError then configMessage else []),
                    rv_hasRdmVMs = True,
                    rv_hasPowerStateError = hasPoweredOnVMs,
                    rv_powerStateErrorMessage = powerMessage,
                    rv_hasConfigError = hasConfigError,
                    rv_configErrorMessage = configMessage,
                    rv_hasVolumeTypeError = hasVolumeTypeError,
                    rv_volumeTypeErrorMessage = volumeMessage,
                    rv_invalidRdmDisks = invalid \<rparr>))"

section \<open>The networks: useNetworkMappingValidation\<close>

record NetworkMappingValidationResult =
  nv_required :: bool
  nv_unmapped :: "string list"
  nv_hasError :: bool
  nv_isComplete :: bool

definition maps_source :: "ResourceMap list \<Rightarrow> string \<Rightarrow> bool" where
  "maps_source ms source = list_ex (\<lambda>m. rm_source m = source) ms"

definition useNetworkMappingValidation ::
  "VmData list \<Rightarrow> ResourceMap list \<Rightarrow> string list \<Rightarrow> NetworkMappingValidationResult" where
  "useNetworkMappingValidation selectedVMs networkMappings availableVmwareNetworks =
     (let withInterfaces = filter (\<lambda>vm. vmHasInterface (vd_networks vm) (vd_networkInterfaces vm)) selectedVMs;
          required = (length withInterfaces > 0 \<and> length availableVmwareNetworks > 0);
          unmapped = filter (\<lambda>n. \<not> maps_source networkMappings n) availableVmwareNetworks
      in \<lparr> nv_required = required, nv_unmapped = unmapped,
           nv_hasError = (required \<and> length unmapped > 0),
           nv_isComplete = (\<not> required \<or> length unmapped = 0) \<rparr>)"

section \<open>The form: useFormValidation\<close>

record validation_input =
  vi_params :: FormValues
  vi_fieldErrors :: "string sobj"
  vi_selected :: SelectedMigrationOptions
  vi_vmwareCredsValidated :: bool
  vi_openstackCredsValidated :: bool
  vi_rdmDisks :: "RdmDisk list"
  vi_openstack :: "OpenstackStatus option"
  vi_touchedOptions :: bool
  vi_templateMode :: bool
  vi_clusterVms :: "VmData list option"

definition stringsCompareFn :: "(string \<Rightarrow> string \<Rightarrow> int) \<Rightarrow> string \<Rightarrow> string \<Rightarrow> int" where
  "stringsCompareFn localeCompare a b = localeCompare (js_lower a) (js_lower b)"

definition deriveSourceCatalog ::
  "(string \<Rightarrow> string \<Rightarrow> int) \<Rightarrow> VmData list option \<Rightarrow> (VmData \<Rightarrow> string list option) \<Rightarrow> string list" where
  "deriveSourceCatalog localeCompare vms key =
     (case vms of
        None \<Rightarrow> []
      | Some vs \<Rightarrow> js_sort (stringsCompareFn localeCompare) (js_uniq (concat (map (\<lambda>vm. list_or (key vm)) vs))))"

definition catalogVms :: "validation_input \<Rightarrow> VmData list option" where
  "catalogVms v = (if vi_templateMode v then vi_clusterVms v else fv_vms (vi_params v))"

definition availableVmwareNetworks :: "(string \<Rightarrow> string \<Rightarrow> int) \<Rightarrow> validation_input \<Rightarrow> string list" where
  "availableVmwareNetworks lc v = deriveSourceCatalog lc (catalogVms v) vd_networks"

definition availableVmwareDatastores :: "(string \<Rightarrow> string \<Rightarrow> int) \<Rightarrow> validation_input \<Rightarrow> string list" where
  "availableVmwareDatastores lc v = deriveSourceCatalog lc (catalogVms v) vd_datastores"

definition networkMappingRequired :: "(string \<Rightarrow> string \<Rightarrow> int) \<Rightarrow> validation_input \<Rightarrow> bool" where
  "networkMappingRequired lc v =
     nv_required (useNetworkMappingValidation (list_or (fv_vms (vi_params v)))
       (list_or (fv_networkMappings (vi_params v))) (availableVmwareNetworks lc v))"

definition sortedOpenstackNetworks :: "(string \<Rightarrow> string \<Rightarrow> int) \<Rightarrow> validation_input \<Rightarrow> PCDNetworkInfo list" where
  "sortedOpenstackNetworks lc v =
     js_sort (\<lambda>a b. stringsCompareFn lc (pn_name a) (pn_name b))
       (case vi_openstack v of None \<Rightarrow> [] | Some os \<Rightarrow> list_or (os_networks os))"

definition sortedOpenstackVolumeTypes :: "(string \<Rightarrow> string \<Rightarrow> int) \<Rightarrow> validation_input \<Rightarrow> string list" where
  "sortedOpenstackVolumeTypes lc v =
     js_sort (stringsCompareFn lc) (case vi_openstack v of None \<Rightarrow> [] | Some os \<Rightarrow> list_or (os_volumeTypes os))"

text \<open>\<open>fieldErrors[key]\<close> as a condition.\<close>

definition field_error :: "string sobj \<Rightarrow> string \<Rightarrow> bool" where
  "field_error fe key = str_truthy (map_of fe key)"

text \<open>\<open>params[key] !== undefined\<close> for the keys of the options.\<close>

definition param_defined :: "FormValues \<Rightarrow> string \<Rightarrow> bool" where
  "param_defined p key =
     (if key = ''dataCopyMethod'' then fv_dataCopyMethod p \<noteq> None
      else if key = ''dataCopyStartTime'' then fv_dataCopyStartTime p \<noteq> None
      else if key = ''cutoverOption'' then fv_cutoverOption p \<noteq> None
      else if key = ''cutoverStartTime'' then fv_cutoverStartTime p \<noteq> None
      else if key = ''cutoverEndTime'' then fv_cutoverEndTime p \<noteq> None
      else if key = ''postMigrationScript'' then fv_postMigrationScript p \<noteq> None
      else if key = ''useGPU'' then fv_useGPU p \<noteq> None
      else if key = ''acknowledgeNetworkConflictRisk'' then fv_acknowledgeNetworkConflictRisk p \<noteq> None
      else False)"

text \<open>The keys of the options object with the truth of their values.\<close>

definition option_entries :: "SelectedMigrationOptions \<Rightarrow> (string \<times> bool) list" where
  "option_entries so =
     (let entry = (\<lambda>k v. case v of None \<Rightarrow> [] | Some b \<Rightarrow> [(k, b)])
      in entry ''dataCopyMethod'' (so_dataCopyMethod so) @
         entry ''dataCopyStartTime'' (so_dataCopyStartTime so) @
         entry ''cutoverOption'' (so_cutoverOption so) @
         entry ''cutoverStartTime'' (so_cutoverStartTime so) @
         entry ''cutoverEndTime'' (so_cutoverEndTime so) @
         entry ''postMigrationScript'' (so_postMigrationScript so) @
         entry ''useGPU'' (so_useGPU so) @
         entry ''periodicSyncEnabled'' (so_periodicSyncEnabled so) @
         entry ''postMigrationAction'' (map_option (\<lambda>_. True) (so_postMigrationAction so)) @
         entry ''acknowledgeNetworkConflictRisk'' (so_acknowledgeNetworkConflictRisk so))"

definition option_validated :: "FormValues \<Rightarrow> string sobj \<Rightarrow> string \<times> bool \<Rightarrow> bool" where
  "option_validated p fe entry =
     (case entry of (key, selected) \<Rightarrow>
        if key = ''postMigrationAction'' then True
        else if key = ''periodicSyncEnabled'' \<and> selected
        then fv_periodicSyncInterval p \<noteq> Some [] \<and> map_of fe ''periodicSyncInterval'' = Some []
        else if key = ''dataCopyStartTime'' \<and> selected
        then js_trim (str_or (fv_dataCopyStartTime p) []) \<noteq> [] \<and> \<not> field_error fe ''dataCopyStartTime''
        else if key = ''postMigrationScript'' \<and> selected
        then js_trim (str_or (fv_postMigrationScript p) []) \<noteq> [] \<and> \<not> field_error fe ''postMigrationScript''
        else if selected then param_defined p key \<and> \<not> field_error fe key
        else True)"

definition migrationOptionValidated :: "validation_input \<Rightarrow> bool" where
  "migrationOptionValidated v =
     list_all (option_validated (vi_params v) (vi_fieldErrors v)) (option_entries (vi_selected v))"

definition os_missing :: "VmData \<Rightarrow> bool" where
  "os_missing vm =
     (\<not> str_truthy (vd_osFamily vm) \<or> vd_osFamily vm = Some ''Unknown'' \<or> js_trim (the (vd_osFamily vm)) = [])"

definition vmValidation :: "VmData list option \<Rightarrow> bool \<times> string" where
  "vmValidation vms =
     (if \<not> nonempty_opt vms then (False, [])
      else (let poweredOffVMs = filter (\<lambda>vm. vd_vmState vm \<noteq> Some ''running'') (list_or vms);
                poweredOnVMs = filter (\<lambda>vm. vd_vmState vm = Some ''running'') (list_or vms);
                withoutOS = filter os_missing poweredOffVMs @ filter os_missing poweredOnVMs
            in if length withoutOS > 0
               then (True,
                     ''Cannot proceed with migration: '' @
                     ''We could not detect the operating system for '' @ nat_str (length withoutOS) @ '' VM'' @
                     (if length withoutOS = 1 then [] else ''s'') @
                     ''. Please assign the required information before continuing.'')
               else (False, [])))"

definition rdmValidation :: "validation_input \<Rightarrow> RdmConfigValidationResult" where
  "rdmValidation v =
     useRdmConfigValidation (list_or (fv_vms (vi_params v))) (vi_rdmDisks v)
       (case vi_openstack v of None \<Rightarrow> None | Some os \<Rightarrow> os_backendVolumeTypeMap os)"

definition storage_method :: "FormValues \<Rightarrow> string" where
  "storage_method p = str_or (fv_storageCopyMethod p) ''normal''"

definition storageValidation :: "(string \<Rightarrow> string \<Rightarrow> int) \<Rightarrow> validation_input \<Rightarrow> bool" where
  "storageValidation lc v =
     (let p = vi_params v; ds = availableVmwareDatastores lc v
      in if storage_method p = ''HotAdd''
         then str_truthy (fv_proxyVMRef p) \<and> nonempty_opt (fv_storageMappings p) \<and>
              \<not> list_ex (\<lambda>d. \<not> maps_source (list_or (fv_storageMappings p)) d) ds
         else if storage_method p = ''StorageAcceleratedCopy''
         then nonempty_opt (fv_arrayCredsMappings p) \<and>
              \<not> list_ex (\<lambda>d. \<not> maps_source (list_or (fv_arrayCredsMappings p)) d) ds
         else nonempty_opt (fv_storageMappings p) \<and>
              \<not> list_ex (\<lambda>d. \<not> maps_source (list_or (fv_storageMappings p)) d) ds)"

definition disableSubmit :: "(string \<Rightarrow> string \<Rightarrow> int) \<Rightarrow> validation_input \<Rightarrow> bool" where
  "disableSubmit lc v =
     (let p = vi_params v
      in \<not> vi_vmwareCredsValidated v \<or>
         \<not> vi_openstackCredsValidated v \<or>
         \<not> nonempty_opt (fv_vms p) \<or>
         (networkMappingRequired lc v \<and> \<not> nonempty_opt (fv_networkMappings p)) \<or>
         \<not> str_truthy (fv_vmwareCluster p) \<or>
         \<not> str_truthy (fv_pcdCluster p) \<or>
         list_ex (\<lambda>n. \<not> maps_source (list_or (fv_networkMappings p)) n) (availableVmwareNetworks lc v) \<or>
         \<not> storageValidation lc v \<or>
         \<not> migrationOptionValidated v \<or>
         (fv_dataCopyMethod p = Some ''mock'' \<and> \<not> bool_or (fv_acknowledgeNetworkConflictRisk p)) \<or>
         fst (vmValidation (fv_vms p)) \<or>
         rv_hasValidationError (rdmValidation v))"

definition isStep1Complete :: "validation_input \<Rightarrow> bool" where
  "isStep1Complete v =
     (str_truthy (fv_vmwareCluster (vi_params v)) \<and> str_truthy (fv_pcdCluster (vi_params v)) \<and>
      \<not> field_error (vi_fieldErrors v) ''vmwareCluster'' \<and> \<not> field_error (vi_fieldErrors v) ''pcdCluster'' \<and>
      \<not> field_error (vi_fieldErrors v) ''vmwareCreds'' \<and> \<not> field_error (vi_fieldErrors v) ''openstackCreds'')"

definition isStep2Complete :: "validation_input \<Rightarrow> bool" where
  "isStep2Complete v =
     (nonempty_opt (fv_vms (vi_params v)) \<and> \<not> field_error (vi_fieldErrors v) ''vms'' \<and>
      \<not> fst (vmValidation (fv_vms (vi_params v))) \<and> \<not> rv_hasConfigError (rdmValidation v))"

definition storage_mapped :: "(string \<Rightarrow> string \<Rightarrow> int) \<Rightarrow> validation_input \<Rightarrow> bool" where
  "storage_mapped lc v =
     (let p = vi_params v; ds = availableVmwareDatastores lc v
      in if storage_method p = ''HotAdd''
         then str_truthy (fv_proxyVMRef p) \<and> list_all (maps_source (list_or (fv_storageMappings p))) ds
         else if storage_method p = ''StorageAcceleratedCopy''
         then list_all (maps_source (list_or (fv_arrayCredsMappings p))) ds
         else list_all (maps_source (list_or (fv_storageMappings p))) ds)"

definition isStep3Complete :: "(string \<Rightarrow> string \<Rightarrow> int) \<Rightarrow> validation_input \<Rightarrow> bool" where
  "isStep3Complete lc v =
     (let p = vi_params v
      in if field_error (vi_fieldErrors v) ''networksMapping'' \<or> field_error (vi_fieldErrors v) ''storageMapping''
         then False
         else if vi_templateMode v
         then length (list_or (fv_networkMappings p)) > 0 \<or> length (list_or (fv_storageMappings p)) > 0 \<or>
              length (list_or (fv_arrayCredsMappings p)) > 0
         else if \<not> nonempty_opt (fv_vms p) then False
         else (length (availableVmwareNetworks lc v) = 0 \<or>
               list_all (maps_source (list_or (fv_networkMappings p))) (availableVmwareNetworks lc v)) \<and>
              storage_mapped lc v)"

definition unmappedNetworksCount :: "(string \<Rightarrow> string \<Rightarrow> int) \<Rightarrow> validation_input \<Rightarrow> nat" where
  "unmappedNetworksCount lc v =
     length (filter (\<lambda>n. \<not> maps_source (list_or (fv_networkMappings (vi_params v))) n) (availableVmwareNetworks lc v))"

definition unmappedStorageCount :: "(string \<Rightarrow> string \<Rightarrow> int) \<Rightarrow> validation_input \<Rightarrow> nat" where
  "unmappedStorageCount lc v =
     (let p = vi_params v; ds = availableVmwareDatastores lc v
      in if storage_method p = ''HotAdd'' then 0
         else if storage_method p = ''StorageAcceleratedCopy''
         then length (filter (\<lambda>d. \<not> maps_source (list_or (fv_arrayCredsMappings p)) d) ds)
         else length (filter (\<lambda>d. \<not> maps_source (list_or (fv_storageMappings p)) d) ds))"

definition step1HasErrors :: "validation_input \<Rightarrow> bool" where
  "step1HasErrors v =
     (field_error (vi_fieldErrors v) ''vmwareCluster'' \<or> field_error (vi_fieldErrors v) ''pcdCluster'' \<or>
      field_error (vi_fieldErrors v) ''vmwareCreds'' \<or> field_error (vi_fieldErrors v) ''openstackCreds'')"

definition step2HasErrors :: "validation_input \<Rightarrow> bool" where
  "step2HasErrors v =
     (field_error (vi_fieldErrors v) ''vms'' \<or> fst (vmValidation (fv_vms (vi_params v))) \<or>
      rv_hasConfigError (rdmValidation v))"

definition step3HasErrors :: "validation_input \<Rightarrow> bool" where
  "step3HasErrors v =
     (field_error (vi_fieldErrors v) ''networksMapping'' \<or> field_error (vi_fieldErrors v) ''storageMapping'')"

definition step4Complete :: "validation_input \<Rightarrow> bool" where
  "step4Complete v =
     (nonempty_opt (fv_securityGroups (vi_params v)) \<or> str_truthy (fv_serverGroup (vi_params v)) \<or>
      nonempty_opt (fv_imageProfiles (vi_params v)))"

definition step5Complete :: "validation_input \<Rightarrow> bool" where
  "step5Complete v =
     (bool_or (fv_preserveSourceTags (vi_params v)) \<or>
      list_ex (\<lambda>row. js_trim (kv_key row) \<noteq> []) (list_or (fv_customMetadata (vi_params v))))"

definition step6HasErrors :: "validation_input \<Rightarrow> bool" where
  "step6HasErrors v =
     (let so = vi_selected v; p = vi_params v; fe = vi_fieldErrors v
      in bool_or (so_dataCopyStartTime so) \<and> field_error fe ''dataCopyStartTime'' \<or>
         bool_or (so_cutoverOption so) \<and>
           (field_error fe ''cutoverOption'' \<or>
            fv_cutoverOption p = Some CUTOVER_TIME_WINDOW \<and>
              (field_error fe ''cutoverStartTime'' \<or> field_error fe ''cutoverEndTime'') \<or>
            fv_cutoverOption p = Some CUTOVER_ADMIN_INITIATED \<and> bool_or (so_periodicSyncEnabled so) \<and>
              field_error fe ''periodicSyncInterval'') \<or>
         bool_or (so_postMigrationScript so) \<and> field_error fe ''postMigrationScript'')"

definition postMigrationActionSelected :: "SelectedMigrationOptions \<Rightarrow> bool" where
  "postMigrationActionSelected so =
     (case so_postMigrationAction so of
        None \<Rightarrow> False
      | Some a \<Rightarrow> bool_or (sp_suffix a) \<or> bool_or (sp_folderName a) \<or> bool_or (sp_renameVm a) \<or> bool_or (sp_moveToFolder a))"

definition hasAnyMigrationOptionSelected :: "validation_input \<Rightarrow> bool" where
  "hasAnyMigrationOptionSelected v =
     (let so = vi_selected v
      in bool_or (so_dataCopyMethod so) \<or> bool_or (so_dataCopyStartTime so) \<or> bool_or (so_cutoverOption so) \<or>
         bool_or (so_postMigrationScript so) \<or> bool_or (fv_removeVMwareTools (vi_params v)) \<or>
         bool_or (so_useGPU so) \<or> bool_or (so_periodicSyncEnabled so) \<or> postMigrationActionSelected so)"

text \<open>A text that is filled in and is not the name of a missing value.\<close>

definition real_text :: "string option \<Rightarrow> bool" where
  "real_text v = (let t = js_trim (str_or v []) in t \<noteq> [] \<and> t \<noteq> ''undefined'' \<and> t \<noteq> ''null'')"

definition dataCopyStartTimeOk :: "validation_input \<Rightarrow> bool" where
  "dataCopyStartTimeOk v =
     (\<not> bool_or (so_dataCopyStartTime (vi_selected v)) \<or>
      (real_text (fv_dataCopyStartTime (vi_params v)) \<and> \<not> field_error (vi_fieldErrors v) ''dataCopyStartTime''))"

definition periodicSyncOk :: "validation_input \<Rightarrow> bool" where
  "periodicSyncOk v =
     (\<not> bool_or (so_periodicSyncEnabled (vi_selected v)) \<or>
      (real_text (fv_periodicSyncInterval (vi_params v)) \<and> \<not> field_error (vi_fieldErrors v) ''periodicSyncInterval''))"

definition cutoverOk :: "validation_input \<Rightarrow> bool" where
  "cutoverOk v =
     (let p = vi_params v; fe = vi_fieldErrors v
      in if \<not> bool_or (so_cutoverOption (vi_selected v)) then True
         else str_truthy (fv_cutoverOption p) \<and> \<not> field_error fe ''cutoverOption'' \<and>
              (fv_cutoverOption p \<noteq> Some CUTOVER_TIME_WINDOW \<or>
               (str_truthy (fv_cutoverStartTime p) \<and> str_truthy (fv_cutoverEndTime p) \<and>
                \<not> field_error fe ''cutoverStartTime'' \<and> \<not> field_error fe ''cutoverEndTime'')) \<and>
              (fv_cutoverOption p \<noteq> Some CUTOVER_ADMIN_INITIATED \<or> periodicSyncOk v))"

definition postMigrationScriptOk :: "validation_input \<Rightarrow> bool" where
  "postMigrationScriptOk v =
     (\<not> bool_or (so_postMigrationScript (vi_selected v)) \<or>
      (js_trim (str_or (fv_postMigrationScript (vi_params v)) []) \<noteq> [] \<and>
       \<not> field_error (vi_fieldErrors v) ''postMigrationScript''))"

definition postMigrationActionOk :: "validation_input \<Rightarrow> bool" where
  "postMigrationActionOk v =
     (case so_postMigrationAction (vi_selected v) of
        None \<Rightarrow> True
      | Some a \<Rightarrow>
          (if \<not> postMigrationActionSelected (vi_selected v) then True
           else (let pa = fv_postMigrationAction (vi_params v);
                     suffix = (case pa of None \<Rightarrow> None | Some x \<Rightarrow> pm_suffix x);
                     folderName = (case pa of None \<Rightarrow> None | Some x \<Rightarrow> pm_folderName x)
                 in bool_or (sp_renameVm a) \<or> bool_or (sp_moveToFolder a) \<or>
                    \<not> bool_or (sp_suffix a) \<or> str_truthy suffix \<or>
                    \<not> bool_or (sp_folderName a) \<or> str_truthy folderName)))"

definition areSelectedMigrationOptionsConfigured :: "validation_input \<Rightarrow> bool" where
  "areSelectedMigrationOptionsConfigured v =
     (if \<not> hasAnyMigrationOptionSelected v then False
      else dataCopyStartTimeOk v \<and> cutoverOk v \<and> periodicSyncOk v \<and> postMigrationScriptOk v \<and>
           (\<not> bool_or (so_useGPU (vi_selected v)) \<or> fv_useGPU (vi_params v) \<noteq> None) \<and>
           postMigrationActionOk v)"

definition anyNetworkOptionSet :: "FormValues \<Rightarrow> bool" where
  "anyNetworkOptionSet p =
     (bool_or (fv_disconnectSourceNetwork p) \<or> bool_or (fv_fallbackToDHCP p) \<or>
      bool_or (fv_networkPersistence p) \<or> bool_or (fv_removeVMwareTools p))"

definition step6Complete :: "validation_input \<Rightarrow> bool" where
  "step6Complete v =
     ((vi_touchedOptions v \<or> anyNetworkOptionSet (vi_params v)) \<and>
      (areSelectedMigrationOptionsConfigured v \<or> anyNetworkOptionSet (vi_params v)) \<and> \<not> step6HasErrors v)"

datatype nav_status = NavComplete | NavAttention | NavIncomplete

definition nav_of :: "bool \<Rightarrow> bool \<Rightarrow> nav_status" where
  "nav_of complete errors = (if complete then NavComplete else if errors then NavAttention else NavIncomplete)"

definition sectionNavItems :: "(string \<Rightarrow> string \<Rightarrow> int) \<Rightarrow> validation_input \<Rightarrow> (string \<times> nav_status) list" where
  "sectionNavItems lc v =
     [(''source-destination'', nav_of (isStep1Complete v) (step1HasErrors v))] @
     (if vi_templateMode v then []
      else [(''select-vms'', nav_of (isStep2Complete v) (step2HasErrors v))]) @
     [(''map-resources'', nav_of (isStep3Complete lc v) (step3HasErrors v)),
      (''security'', nav_of (step4Complete v) False),
      (''tags-metadata'', nav_of (step5Complete v) False),
      (''options'', if step6HasErrors v then NavAttention
                    else if step6Complete v then NavComplete else NavIncomplete)]"

section \<open>The catalogue of sources\<close>

text \<open>A concrete \<open>localeCompare\<close>: by code units. It stands for the host in the witnesses only.\<close>

fun units_compare :: "nat list \<Rightarrow> nat list \<Rightarrow> int" where
  "units_compare [] bs = (if bs = [] then 0 else -1)"
| "units_compare (a # as) [] = 1"
| "units_compare (a # as) (b # bs) = (if a < b then -1 else if b < a then 1 else units_compare as bs)"

definition code_unit_compare :: "string \<Rightarrow> string \<Rightarrow> int" where
  "code_unit_compare a b = units_compare (map of_char a) (map of_char b)"

lemma units_total: "units_compare a b \<le> 0 \<or> units_compare b a \<le> 0"
  by (induction a b rule: units_compare.induct) auto

lemma units_trans: "units_compare a b \<le> 0 \<Longrightarrow> units_compare b c \<le> 0 \<Longrightarrow> units_compare a c \<le> 0"
proof (induction a b arbitrary: c rule: units_compare.induct)
  case (1 bs c)
  then show ?case by (cases c; cases bs) auto
next
  case (3 a as b bs c)
  show ?case
  proof (cases c)
    case (Cons d ds)
    consider "a < b" | "a = b" "b < d" | "a = b" "b = d"
      using "3.prems" Cons by (auto split: if_splits)
    then show ?thesis using "3.IH" [of ds] "3.prems" Cons by cases (auto split: if_splits)
  qed (use 3 in auto)
qed simp

interpretation code_units: js_comparator "\<lambda>_. True" code_unit_compare
  by unfold_locales (simp_all add: code_unit_compare_def units_total, rule units_trans)

lemma js_comparator_lowered:
  assumes "js_comparator (\<lambda>_. True) lc"
  shows "js_comparator (\<lambda>_. True) (stringsCompareFn lc)"
proof
  show "stringsCompareFn lc a b \<le> 0 \<or> stringsCompareFn lc b a \<le> 0" for a b
    using js_comparator.cmp_total [OF assms] by (simp add: stringsCompareFn_def)
  show "stringsCompareFn lc a c \<le> 0" if "stringsCompareFn lc a b \<le> 0" "stringsCompareFn lc b c \<le> 0" for a b c
    using js_comparator.cmp_trans [OF assms _ _ _ that [unfolded stringsCompareFn_def]] by (simp add: stringsCompareFn_def)
qed

lemma set_deriveSourceCatalog: "set (deriveSourceCatalog lc vms key) = (\<Union>vm \<in> set (list_or vms). set (list_or (key vm)))"
  by (cases vms) (auto simp: deriveSourceCatalog_def)

text \<open>the catalogue of mappable sources has every network (or datastore) some machine uses, no other, each
  once, in the alphabetical order of the host's collation regardless of case.\<close>

theorem source_catalog_union:
  assumes "js_comparator (\<lambda>_. True) localeCompare"
  shows "set (deriveSourceCatalog localeCompare vms key) = (\<Union>vm \<in> set (list_or vms). set (list_or (key vm))) \<and>
         distinct (deriveSourceCatalog localeCompare vms key) \<and>
         sorted_wrt (\<lambda>a b. localeCompare (js_lower a) (js_lower b) \<le> 0) (deriveSourceCatalog localeCompare vms key)"
proof -
  have "sorted_wrt (\<lambda>a b. stringsCompareFn localeCompare a b \<le> 0) (deriveSourceCatalog localeCompare vms key)"
    using js_comparator.sorted_js_sort [OF js_comparator_lowered [OF assms]]
    by (auto simp: deriveSourceCatalog_def list_all_iff split: option.split)
  then show ?thesis
    by (simp add: set_deriveSourceCatalog stringsCompareFn_def)
      (simp add: deriveSourceCatalog_def split: option.split)
qed

theorem source_catalog_union_witness:
  "set (deriveSourceCatalog code_unit_compare
     (Some [blank_vm ''1'' ''a'' \<lparr> vd_networks := Some [''prod'', ''Dev''] \<rparr>,
            blank_vm ''2'' ''b'' \<lparr> vd_networks := Some [''prod''] \<rparr>]) vd_networks) = {''Dev'', ''prod''}"
  using source_catalog_union [OF code_units.js_comparator_axioms,
      of "Some [blank_vm ''1'' ''a'' \<lparr> vd_networks := Some [''prod'', ''Dev''] \<rparr>,
            blank_vm ''2'' ''b'' \<lparr> vd_networks := Some [''prod''] \<rparr>]" vd_networks]
  by (auto simp: list_all_iff)

section \<open>The disks with raw device mapping\<close>

text \<open>
  What blocks a migration with shared raw disks: disks are known, some selected machine has one, and either such a
  machine runs or a disk that a selected machine owns lacks its pool, its volume type or its source.
\<close>

definition rdm_blocked :: "VmData list \<Rightarrow> RdmDisk list \<Rightarrow> bool" where
  "rdm_blocked vms disks =
     (disks \<noteq> [] \<and> (\<exists>vm \<in> set vms. bool_or (vd_hasSharedRdm vm)) \<and>
      ((\<exists>vm \<in> set vms. bool_or (vd_hasSharedRdm vm) \<and> rdm_powered_on vm) \<or>
       (\<exists>d \<in> set disks. (\<exists>vm \<in> set vms. vd_name vm \<in> set (rd_ownerVMs d)) \<and> rdm_missing_fields d \<noteq> [])))"

lemma rdm_check_missing:
  "(\<exists>e \<in> set (rdm_check vms m d). iv_missingFields e \<noteq> []) \<longleftrightarrow>
     (\<exists>vm \<in> set vms. vd_name vm \<in> set (rd_ownerVMs d)) \<and> rdm_missing_fields d \<noteq> []"
  by (auto simp: rdm_check_def Let_def filter_empty_conv)

lemma rdm_check_volume_type:
  "(\<exists>e \<in> set (rdm_check vms m d). iv_incompatibleVolumeType e \<noteq> None) \<longleftrightarrow>
     (\<exists>vm \<in> set vms. vd_name vm \<in> set (rd_ownerVMs d)) \<and> rdm_incompatible m d \<noteq> None"
  by (auto simp: rdm_check_def Let_def filter_empty_conv)

lemma rdm_messages_nonempty: "rdm_config_message ds \<noteq> []" "rdm_volume_type_message ds \<noteq> []"
  by (simp_all add: rdm_config_message_def rdm_volume_type_message_def Let_def)

lemma rdm_error_blocked: "rv_hasValidationError (useRdmConfigValidation vms disks m) = rdm_blocked vms disks"
proof (cases "disks = [] \<or> filter (\<lambda>vm. bool_or (vd_hasSharedRdm vm)) vms = []")
  case True
  then show ?thesis
    by (auto simp: useRdmConfigValidation_def rdm_blocked_def emptyResult_def filter_empty_conv Let_def)
next
  case False
  then have ne: "vms \<noteq> []" "disks \<noteq> []" "\<exists>vm \<in> set vms. bool_or (vd_hasSharedRdm vm)"
    by (auto simp: filter_empty_conv)
  have missing: "filter (\<lambda>d. iv_missingFields d \<noteq> []) (concat (map (rdm_check vms m') disks)) \<noteq> [] \<longleftrightarrow>
      (\<exists>d \<in> set disks. (\<exists>vm \<in> set vms. vd_name vm \<in> set (rd_ownerVMs d)) \<and> rdm_missing_fields d \<noteq> [])" for m'
    using rdm_check_missing [of vms m'] by (simp add: filter_empty_conv)
  show ?thesis
    using False ne by (simp add: useRdmConfigValidation_def rdm_blocked_def Let_def missing) (auto simp: filter_empty_conv)
qed

lemma rdm_volume_error:
  "rv_hasVolumeTypeError (useRdmConfigValidation vms disks m) \<longleftrightarrow>
     (\<exists>vm \<in> set vms. bool_or (vd_hasSharedRdm vm)) \<and>
     (\<exists>d \<in> set disks. (\<exists>vm \<in> set vms. vd_name vm \<in> set (rd_ownerVMs d)) \<and> rdm_incompatible (list_or m) d \<noteq> None)"
proof (cases "disks = [] \<or> filter (\<lambda>vm. bool_or (vd_hasSharedRdm vm)) vms = []")
  case True
  then show ?thesis
    by (auto simp: useRdmConfigValidation_def emptyResult_def filter_empty_conv Let_def)
next
  case False
  then have ne: "vms \<noteq> []" "disks \<noteq> []" "\<exists>vm \<in> set vms. bool_or (vd_hasSharedRdm vm)"
    by (auto simp: filter_empty_conv)
  have vt: "filter (\<lambda>d. iv_incompatibleVolumeType d \<noteq> None) (concat (map (rdm_check vms m') disks)) \<noteq> [] \<longleftrightarrow>
      (\<exists>d \<in> set disks. (\<exists>vm \<in> set vms. vd_name vm \<in> set (rd_ownerVMs d)) \<and> rdm_incompatible m' d \<noteq> None)" for m'
    using rdm_check_volume_type [of vms m'] by (simp add: filter_empty_conv)
  show ?thesis
    using False ne by (simp add: useRdmConfigValidation_def Let_def vt del: not_None_eq)
qed

lemma rdm_config_blocks:
  "rv_hasConfigError (useRdmConfigValidation vms disks m) \<Longrightarrow> rv_hasValidationError (useRdmConfigValidation vms disks m)"
  unfolding useRdmConfigValidation_def Let_def emptyResult_def by (simp split: if_split_asm)

text \<open>shared raw disks block a migration exactly when a selected machine that has one runs or an owned disk is
  not configured. A volume type that does not fit its backend is reported in the message of the result and blocks
  nothing.\<close>

theorem rdm_blocks_exactly:
  "rv_hasValidationError (useRdmConfigValidation vms disks m) = rdm_blocked vms disks \<and>
   (rv_errorMessage (useRdmConfigValidation vms disks m) = []) =
     (\<not> rdm_blocked vms disks \<and> \<not> rv_hasVolumeTypeError (useRdmConfigValidation vms disks m)) \<and>
   rv_hasVolumeTypeError (useRdmConfigValidation vms disks m) =
     ((\<exists>vm \<in> set vms. bool_or (vd_hasSharedRdm vm)) \<and>
      (\<exists>d \<in> set disks. (\<exists>vm \<in> set vms. vd_name vm \<in> set (rd_ownerVMs d)) \<and> rdm_incompatible (list_or m) d \<noteq> None))"
proof (intro conjI)
  show "(rv_errorMessage (useRdmConfigValidation vms disks m) = []) =
     (\<not> rdm_blocked vms disks \<and> \<not> rv_hasVolumeTypeError (useRdmConfigValidation vms disks m))"
    unfolding rdm_error_blocked [symmetric, where m = m]
    by (simp add: useRdmConfigValidation_def Let_def emptyResult_def rdm_messages_nonempty)
qed (rule rdm_error_blocked, rule rdm_volume_error)

section \<open>When the form may be submitted\<close>

lemma maps_source_iff: "maps_source ms s \<longleftrightarrow> s \<in> rm_source ` set ms"
  by (auto simp: maps_source_def list_ex_iff)

lemma not_mapped_iff:
  "list_ex (\<lambda>n. \<not> maps_source ms n) ns \<longleftrightarrow> \<not> set ns \<subseteq> rm_source ` set ms"
  "list_all (maps_source ms) ns \<longleftrightarrow> set ns \<subseteq> rm_source ` set ms"
  "filter (\<lambda>n. \<not> maps_source ms n) ns = [] \<longleftrightarrow> set ns \<subseteq> rm_source ` set ms"
  by (auto simp: maps_source_iff list_ex_iff list_all_iff filter_empty_conv)

lemma vmValidation_iff: "fst (vmValidation vms) \<longleftrightarrow> (\<exists>vm \<in> set (list_or vms). os_missing vm)"
proof (cases vms)
  case (Some vs)
  then show ?thesis by (cases vs) (auto simp: vmValidation_def Let_def filter_empty_conv)
qed (simp add: vmValidation_def)

lemma required_unmapped:
  "nv_required (useNetworkMappingValidation vms ms ns) \<Longrightarrow> ms = [] \<Longrightarrow> \<not> set ns \<subseteq> rm_source ` set ms"
  by (auto simp: useNetworkMappingValidation_def Let_def)

text \<open>
  What the operator has to have done, said of the machines themselves: no catalogue, no order, no count. The
  sources that need a mapping are the networks and the datastores of the selected machines, and the list that has
  to map the datastores depends on the copy method.
\<close>

definition vm_sources :: "(VmData \<Rightarrow> string list option) \<Rightarrow> FormValues \<Rightarrow> string set" where
  "vm_sources key p = (\<Union>vm \<in> set (list_or (fv_vms p)). set (list_or (key vm)))"

definition storage_list :: "FormValues \<Rightarrow> ResourceMap list option" where
  "storage_list p = (if storage_method p = ''StorageAcceleratedCopy'' then fv_arrayCredsMappings p
                     else fv_storageMappings p)"

definition form_ready :: "validation_input \<Rightarrow> bool" where
  "form_ready v =
     (let p = vi_params v
      in vi_vmwareCredsValidated v \<and> vi_openstackCredsValidated v \<and>
         str_truthy (fv_vmwareCluster p) \<and> str_truthy (fv_pcdCluster p) \<and>
         list_or (fv_vms p) \<noteq> [] \<and> (\<forall>vm \<in> set (list_or (fv_vms p)). \<not> os_missing vm) \<and>
         vm_sources vd_networks p \<subseteq> rm_source ` set (list_or (fv_networkMappings p)) \<and>
         list_or (storage_list p) \<noteq> [] \<and>
         vm_sources vd_datastores p \<subseteq> rm_source ` set (list_or (storage_list p)) \<and>
         (storage_method p = ''HotAdd'' \<longrightarrow> str_truthy (fv_proxyVMRef p)) \<and>
         (fv_dataCopyMethod p = Some ''mock'' \<longrightarrow> bool_or (fv_acknowledgeNetworkConflictRisk p)) \<and>
         migrationOptionValidated v \<and>
         \<not> rdm_blocked (list_or (fv_vms p)) (vi_rdmDisks v))"

lemma nonempty_opt_list_or: "nonempty_opt x \<longleftrightarrow> list_or x \<noteq> []"
  by (cases x) auto

lemma available_sources:
  assumes "\<not> vi_templateMode v"
  shows "set (availableVmwareNetworks lc v) = vm_sources vd_networks (vi_params v)"
    and "set (availableVmwareDatastores lc v) = vm_sources vd_datastores (vi_params v)"
  using assms by (simp_all add: availableVmwareNetworks_def availableVmwareDatastores_def set_deriveSourceCatalog
      vm_sources_def catalogVms_def)

lemma storageValidation_iff:
  assumes "\<not> vi_templateMode v"
  shows "storageValidation lc v \<longleftrightarrow> list_or (storage_list (vi_params v)) \<noteq> [] \<and>
      vm_sources vd_datastores (vi_params v) \<subseteq> rm_source ` set (list_or (storage_list (vi_params v))) \<and>
      (storage_method (vi_params v) = ''HotAdd'' \<longrightarrow> str_truthy (fv_proxyVMRef (vi_params v)))"
  unfolding storageValidation_def Let_def not_mapped_iff available_sources [OF assms] nonempty_opt_list_or storage_list_def
  by auto

text \<open>C1: the submit button of the migration form is enabled exactly when the form is ready: both credentials are
  validated, both clusters chosen, machines selected and each with a known operating system, every network
  and every datastore of theirs mapped in the list the copy method reads, and no shared raw disk in the way.\<close>

theorem submit_enabled_iff_ready:
  assumes "\<not> vi_templateMode v"
  shows "\<not> disableSubmit localeCompare v \<longleftrightarrow> form_ready v"
proof -
  have net: "networkMappingRequired localeCompare v \<and> \<not> nonempty_opt (fv_networkMappings (vi_params v)) \<Longrightarrow>
      \<not> vm_sources vd_networks (vi_params v) \<subseteq> rm_source ` set (list_or (fv_networkMappings (vi_params v)))"
    using required_unmapped [of "list_or (fv_vms (vi_params v))" "list_or (fv_networkMappings (vi_params v))"
        "availableVmwareNetworks localeCompare v"] available_sources(1) [OF assms, of localeCompare]
    by (auto simp: networkMappingRequired_def nonempty_opt_list_or)
  show ?thesis
    unfolding disableSubmit_def form_ready_def Let_def not_mapped_iff available_sources [OF assms]
      storageValidation_iff [OF assms] vmValidation_iff rdmValidation_def rdm_error_blocked
    using net by (auto simp: nonempty_opt_list_or)
qed

text \<open>A form that is filled in: one Linux machine with a network and a datastore, both mapped.\<close>

definition sample_vm :: VmData where
  "sample_vm = blank_vm ''vm-1'' ''web'' \<lparr> vd_networks := Some [''VM Network''], vd_datastores := Some [''ds1''],
     vd_osFamily := Some ''linuxGuest'', vd_vmState := Some ''running'' \<rparr>"

definition filled_input :: validation_input where
  "filled_input =
     \<lparr> vi_params = empty_form \<lparr> fv_vms := Some [sample_vm], fv_vmwareCluster := Some ''cred:dc:cluster'',
         fv_pcdCluster := Some ''pcd'', fv_networkMappings := Some [\<lparr> rm_source = ''VM Network'', rm_target = ''net'' \<rparr>],
         fv_storageMappings := Some [\<lparr> rm_source = ''ds1'', rm_target = ''nfs'' \<rparr>], fv_dataCopyMethod := Some ''cold'' \<rparr>,
       vi_fieldErrors = [], vi_selected = DEFAULT_MIGRATION_OPTIONS, vi_vmwareCredsValidated = True,
       vi_openstackCredsValidated = True, vi_rdmDisks = [], vi_openstack = None, vi_touchedOptions = False,
       vi_templateMode = False, vi_clusterVms = None \<rparr>"

lemmas filled_input_defs = filled_input_def sample_vm_def blank_vm_def empty_form_def

theorem submit_enabled_iff_ready_witness: "\<not> disableSubmit code_unit_compare filled_input"
proof -
  have "migrationOptionValidated filled_input" by code_simp
  then have "form_ready filled_input"
    by (simp add: form_ready_def Let_def filled_input_defs os_missing_def vm_sources_def storage_list_def
        storage_method_def rdm_blocked_def js_trim_nil_iff js_blank_def js_space_def list_all_iff)
  moreover have "\<not> vi_templateMode filled_input" by (simp add: filled_input_def)
  ultimately show ?thesis using submit_enabled_iff_ready by blast
qed

text \<open>a form that can be submitted, and whose fields have no error, shows its first three sections as complete:
  the section rail and the submit button do not contradict each other.\<close>

theorem submit_enabled_sections_complete:
  assumes "\<not> vi_templateMode v" "\<not> disableSubmit localeCompare v"
    and "\<And>key. \<not> field_error (vi_fieldErrors v) key"
  shows "take 3 (sectionNavItems localeCompare v) =
           [(''source-destination'', NavComplete), (''select-vms'', NavComplete), (''map-resources'', NavComplete)]"
proof -
  let ?p = "vi_params v"
  have off: "nonempty_opt (fv_vms ?p)" "\<not> fst (vmValidation (fv_vms ?p))" "str_truthy (fv_vmwareCluster ?p)"
    "str_truthy (fv_pcdCluster ?p)" "storageValidation localeCompare v" "\<not> rv_hasValidationError (rdmValidation v)"
    "list_all (maps_source (list_or (fv_networkMappings ?p))) (availableVmwareNetworks localeCompare v)"
    using assms(2) by (auto simp: disableSubmit_def Let_def not_mapped_iff)
  have step2: "isStep2Complete v"
    using off rdm_config_blocks by (auto simp: isStep2Complete_def assms(3) rdmValidation_def)
  have "storage_mapped localeCompare v"
    using off(5) by (auto simp: storageValidation_def storage_mapped_def Let_def not_mapped_iff split: if_splits)
  with off assms(1) have step3: "isStep3Complete localeCompare v"
    by (simp add: isStep3Complete_def assms(3) Let_def)
  have step1: "isStep1Complete v" using off by (simp add: isStep1Complete_def assms(3))
  show ?thesis by (simp add: sectionNavItems_def assms(1) nav_of_def step1 step2 step3)
qed

lemma sample_enabled: "\<not> disableSubmit code_unit_compare filled_input"
  by code_simp

theorem submit_enabled_sections_complete_witness:
  "take 3 (sectionNavItems code_unit_compare filled_input) =
     [(''source-destination'', NavComplete), (''select-vms'', NavComplete), (''map-resources'', NavComplete)]"
  by (rule submit_enabled_sections_complete)
    (simp_all add: sample_enabled field_error_def, simp_all add: filled_input_def)

text \<open>the counts of unmapped sources next to the third section agree with its completeness for the standard and
  the array copy. With the hot-add copy the count of datastores is always zero, although the section wants them
  mapped: the list then reads as fully mapped while the submit button is disabled.\<close>

theorem unmapped_counts_agree:
  assumes "\<not> vi_templateMode v" "list_or (fv_vms (vi_params v)) \<noteq> []" "\<not> step3HasErrors v"
  shows "(storage_method (vi_params v) \<noteq> ''HotAdd'' \<longrightarrow>
            isStep3Complete lc v = (unmappedNetworksCount lc v = 0 \<and> unmappedStorageCount lc v = 0)) \<and>
         (storage_method (vi_params v) = ''HotAdd'' \<longrightarrow>
            unmappedStorageCount lc v = 0 \<and>
            (isStep3Complete lc v \<longrightarrow> vm_sources vd_datastores (vi_params v) \<subseteq>
               rm_source ` set (list_or (fv_storageMappings (vi_params v)))))"
proof -
  have "availableVmwareNetworks lc v = [] \<Longrightarrow> vm_sources vd_networks (vi_params v) = {}"
    using available_sources(1) [OF assms(1), of lc] by simp
  then show ?thesis
    using assms
    by (auto simp: isStep3Complete_def unmappedNetworksCount_def unmappedStorageCount_def storage_mapped_def Let_def
        step3HasErrors_def nonempty_opt_list_or not_mapped_iff available_sources)
qed

definition hot_add_input :: validation_input where
  "hot_add_input = filled_input \<lparr> vi_params := (vi_params filled_input)
     \<lparr> fv_storageCopyMethod := Some ''HotAdd'', fv_proxyVMRef := Some ''proxy'', fv_storageMappings := None \<rparr> \<rparr>"

theorem unmapped_counts_agree_witness:
  "isStep3Complete code_unit_compare filled_input =
     (unmappedNetworksCount code_unit_compare filled_input = 0 \<and> unmappedStorageCount code_unit_compare filled_input = 0) \<and>
   unmappedStorageCount code_unit_compare hot_add_input = 0 \<and> \<not> isStep3Complete code_unit_compare hot_add_input"
proof -
  have "\<not> isStep3Complete code_unit_compare hot_add_input" by code_simp
  then show ?thesis
    using unmapped_counts_agree [of filled_input code_unit_compare] unmapped_counts_agree [of hot_add_input code_unit_compare]
    by (simp add: hot_add_input_def filled_input_defs step3HasErrors_def field_error_def storage_method_def)
qed

text \<open>the check of the post-migration action accepts almost everything: it fails only when both the suffix and the
  folder are chosen, nothing else is, and both texts are empty. Choosing one of them and leaving it empty passes.\<close>

theorem post_action_check_fails_only_if:
  "\<not> postMigrationActionOk v \<longleftrightarrow>
     (\<exists>a. so_postMigrationAction (vi_selected v) = Some a \<and> bool_or (sp_suffix a) \<and> bool_or (sp_folderName a) \<and>
          \<not> bool_or (sp_renameVm a) \<and> \<not> bool_or (sp_moveToFolder a) \<and>
          (\<forall>pa. fv_postMigrationAction (vi_params v) = Some pa \<longrightarrow>
             \<not> str_truthy (pm_suffix pa) \<and> \<not> str_truthy (pm_folderName pa)))"
  by (auto simp: postMigrationActionOk_def postMigrationActionSelected_def Let_def split: option.splits)

definition suffix_and_folder :: validation_input where
  "suffix_and_folder = filled_input \<lparr> vi_selected := DEFAULT_MIGRATION_OPTIONS \<lparr> so_postMigrationAction :=
     Some \<lparr> sp_suffix = Some True, sp_folderName = Some True, sp_renameVm = None, sp_moveToFolder = None \<rparr> \<rparr> \<rparr>"

theorem post_action_check_fails_only_if_witness: "\<not> postMigrationActionOk suffix_and_folder"
  using post_action_check_fails_only_if [of suffix_and_folder]
  by (simp add: suffix_and_folder_def filled_input_defs)

end
