(* ===== verification/Plan_Submit.thy ===== *)
theory Plan_Submit
  imports Template_Store
begin

text \<open>
  Starting a migration: \<open>ui/src/features/migration/hooks/useMigrationFormSubmit.ts\<close> with
  \<open>api/migration-plans/helpers.ts\<close> and the mapping helpers. The API server is a parameter: a function from the
  requests of the form to their answers. A handler is a function on the state of the hook, which also holds the
  requests sent so far; an exception that leaves it is the outcome \<open>Throws\<close>. Analytics and the console are
  left out.
\<close>

section \<open>The network overrides of a machine\<close>

text \<open>\<open>nicAssignedIps\<close>: the addresses of every interface that has some, joined by commas.\<close>

definition nic_assigned :: "vm_nic \<Rightarrow> string list" where
  "nic_assigned nic = filter (\<lambda>ip. ip \<noteq> []) (map js_trim (nic_ips nic))"

definition nicAssignedIps :: "vm_nic list option \<Rightarrow> string iobj" where
  "nicAssignedIps nics =
     concat (map (\<lambda>(index, nic). if length (nic_assigned nic) > 0 then [(index, js_join '','' (nic_assigned nic))] else [])
       (enumerate 0 (list_or nics)))"

definition override_indices :: "VmData \<Rightarrow> nat list" where
  "override_indices vm =
     js_uniq (obj_keys (list_or (vd_preserveIp vm)) @ obj_keys (list_or (vd_preserveMac vm)) @
              obj_keys (nicAssignedIps (vd_networkInterfaces vm)))"

definition override_at :: "VmData \<Rightarrow> nat \<Rightarrow> NetworkOverride" where
  "override_at vm i =
     (let preserveIP = (map_of (list_or (vd_preserveIp vm)) i \<noteq> Some False);
          preserveMAC = (map_of (list_or (vd_preserveMac vm)) i \<noteq> Some False);
          userAssigned = (if \<not> preserveIP then map_of (nicAssignedIps (vd_networkInterfaces vm)) i else None)
      in \<lparr> no_interfaceIndex = i, no_preserveIP = preserveIP, no_preserveMAC = preserveMAC,
           no_UserAssignedIP = only_truthy userAssigned \<rparr>)"

definition by_interface :: "NetworkOverride \<Rightarrow> NetworkOverride \<Rightarrow> int" where
  "by_interface a b = int (no_interfaceIndex a) - int (no_interfaceIndex b)"

definition vm_overrides :: "VmData \<Rightarrow> NetworkOverride list" where
  "vm_overrides vm = js_sort by_interface (map (override_at vm) (override_indices vm))"

definition vm_plan_key :: "VmData \<Rightarrow> string" where
  "vm_plan_key vm = str_or (vd_vmKey vm) (vd_name vm)"

definition networkOverridesPerVM :: "VmData list option \<Rightarrow> NetworkOverride list sobj" where
  "networkOverridesPerVM vms =
     fold (\<lambda>vm m. if override_indices vm = [] then m else sobj_set (vm_plan_key vm) (vm_overrides vm) m)
       (list_or vms) []"

section \<open>createMigrationPlanJson\<close>

record PlanFields =
  pf_migrationTemplateName :: string
  pf_virtualMachines :: "string list"
  pf_type :: "string option"
  pf_networkOverridesPerVM :: "NetworkOverride list sobj option"
  pf_dataCopyStart :: "string option"
  pf_adminInitiatedCutOver :: "bool option"
  pf_vmCutoverStart :: "string option"
  pf_vmCutoverEnd :: "string option"
  pf_postMigrationAction :: "PostMigrationAction option"
  pf_securityGroups :: "string list option"
  pf_serverGroup :: "string option"
  pf_disconnectSourceNetwork :: "bool option"
  pf_dataOnly :: "bool option"
  pf_fallbackToDHCP :: "bool option"
  pf_postMigrationScript :: "string option"
  pf_networkPersistence :: "bool option"
  pf_removeVMwareTools :: "bool option"
  pf_imageProfiles :: "string list option"
  pf_periodicSyncInterval :: "string option"
  pf_periodicSyncEnabled :: "bool option"
  pf_acknowledgeNetworkConflictRisk :: "bool option"
  pf_preserveSourceTags :: "bool option"
  pf_customMetadata :: "string sobj option"

definition plan_advanced :: "PlanFields \<Rightarrow> AdvancedOptions" where
  "plan_advanced f = no_advanced \<lparr>
     ao_periodicSyncInterval := only_truthy (pf_periodicSyncInterval f),
     ao_periodicSyncEnabled := pf_periodicSyncEnabled f,
     ao_networkPersistence := pf_networkPersistence f,
     ao_removeVMwareTools := pf_removeVMwareTools f,
     ao_acknowledgeNetworkConflictRisk := pf_acknowledgeNetworkConflictRisk f,
     ao_imageProfiles := (if nonempty_opt (pf_imageProfiles f) then pf_imageProfiles f else None) \<rparr>"

definition plan_post_action :: "PostMigrationAction option \<Rightarrow> PostMigrationAction option" where
  "plan_post_action action =
     (case action of
        None \<Rightarrow> None
      | Some a \<Rightarrow>
          (if bool_or (pm_renameVm a) \<or> bool_or (pm_moveToFolder a)
           then Some \<lparr> pm_suffix = Some (str_or (pm_suffix a) []),
                       pm_folderName = Some (str_or (pm_folderName a) ''vjailbreakedVMs''),
                       pm_renameVm = Some (bool_or (pm_renameVm a)),
                       pm_moveToFolder = Some (bool_or (pm_moveToFolder a)) \<rparr>
           else None))"

definition default_to :: "'a \<Rightarrow> 'a option \<Rightarrow> 'a" where
  "default_to d v = (case v of None \<Rightarrow> d | Some x \<Rightarrow> x)"

definition createMigrationPlanJson :: "PlanFields \<Rightarrow> MigrationPlanSpec" where
  "createMigrationPlanJson f =
     \<lparr> ps_migrationStrategy = Some
         \<lparr> st_type = default_to ''hot'' (pf_type f), st_dataCopyStart = pf_dataCopyStart f,
           st_vmCutoverStart = pf_vmCutoverStart f, st_vmCutoverEnd = pf_vmCutoverEnd f,
           st_adminInitiatedCutOver = pf_adminInitiatedCutOver f,
           st_performHealthChecks = None, st_healthCheckPort = None,
           st_disconnectSourceNetwork = Some (default_to False (pf_disconnectSourceNetwork f)),
           st_dataOnly = (if bool_or (pf_dataOnly f) then Some True else None) \<rparr>,
       ps_migrationTemplate = pf_migrationTemplateName f,
       ps_retry = False,
       ps_virtualMachines = [pf_virtualMachines f],
       ps_securityGroups = (if nonempty_opt (pf_securityGroups f) then pf_securityGroups f else None),
       ps_serverGroup = only_truthy (pf_serverGroup f),
       ps_fallbackToDHCP = Some (default_to False (pf_fallbackToDHCP f)),
       ps_firstBootScript = (if js_trim (str_or (pf_postMigrationScript f) []) \<noteq> [] then pf_postMigrationScript f else None),
       ps_postMigrationAction = plan_post_action (pf_postMigrationAction f),
       ps_advancedOptions = (if plan_advanced f = no_advanced then None else Some (plan_advanced f)),
       ps_networkOverridesPerVM = (if nonempty_opt (pf_networkOverridesPerVM f) then pf_networkOverridesPerVM f else None),
       ps_preserveSourceTags = pf_preserveSourceTags f,
       ps_customMetadata = (if nonempty_opt (pf_customMetadata f) then pf_customMetadata f else None) \<rparr>"

section \<open>The fields of the plan\<close>

record submit_input =
  si_params :: FormValues
  si_selected :: SelectedMigrationOptions
  si_templateName :: "string option"
  si_vmwareCredsName :: "string option"
  si_openstackCredsName :: "string option"
  si_networkMappingRequired :: bool

definition when_some :: "bool \<Rightarrow> 'a option \<Rightarrow> 'a option" where
  "when_some b v = (if b then v else None)"

definition migrationFields :: "submit_input \<Rightarrow> string \<Rightarrow> PlanFields" where
  "migrationFields i templateName =
     (let p = si_params i; so = si_selected i;
          overrides = networkOverridesPerVM (fv_vms p);
          cutover = bool_or (so_cutoverOption so);
          timeWindow = (cutover \<and> fv_cutoverOption p = Some CUTOVER_TIME_WINDOW)
      in \<lparr> pf_migrationTemplateName = templateName,
           pf_virtualMachines = map vm_plan_key (list_or (fv_vms p)),
           pf_type = fv_dataCopyMethod p,
           pf_networkOverridesPerVM = (if length (obj_keys overrides) > 0 then Some overrides else None),
           pf_dataCopyStart = when_some (bool_or (so_dataCopyStartTime so)) (only_truthy (fv_dataCopyStartTime p)),
           pf_adminInitiatedCutOver =
             when_some (cutover \<and> fv_cutoverOption p = Some CUTOVER_ADMIN_INITIATED) (Some True),
           pf_vmCutoverStart = when_some timeWindow (only_truthy (fv_cutoverStartTime p)),
           pf_vmCutoverEnd = when_some timeWindow (only_truthy (fv_cutoverEndTime p)),
           pf_postMigrationAction = when_some (so_postMigrationAction so \<noteq> None) (fv_postMigrationAction p),
           pf_securityGroups = (if nonempty_opt (fv_securityGroups p) then fv_securityGroups p else None),
           pf_serverGroup = only_truthy (fv_serverGroup p),
           pf_disconnectSourceNetwork = Some (bool_or (fv_disconnectSourceNetwork p)),
           pf_dataOnly = (if bool_or (fv_dataOnly p) then Some True else None),
           pf_fallbackToDHCP = Some (bool_or (fv_fallbackToDHCP p)),
           pf_postMigrationScript =
             when_some (bool_or (so_postMigrationScript so)) (only_truthy (fv_postMigrationScript p)),
           pf_networkPersistence = fv_networkPersistence p,
           pf_removeVMwareTools = fv_removeVMwareTools p,
           pf_imageProfiles = (if nonempty_opt (fv_imageProfiles p) then fv_imageProfiles p else None),
           pf_periodicSyncInterval = fv_periodicSyncInterval p,
           pf_periodicSyncEnabled = so_periodicSyncEnabled so,
           pf_acknowledgeNetworkConflictRisk = fv_acknowledgeNetworkConflictRisk p,
           pf_preserveSourceTags = Some (bool_or (fv_preserveSourceTags p)),
           pf_customMetadata = customMetadataToRecord (fv_customMetadata p) \<rparr>)"

section \<open>Requests, answers and the state of the hook\<close>

record TemplatePatch =
  tp_networkMapping :: "string option"
  tp_storageCopyMethod :: string
  tp_proxyVMRef :: "string option"
  tp_storageMapping :: "string option"
  tp_arrayCredsMapping :: "string option"

datatype api_request =
    PostNetworkMapping "ResourceMap list"
  | PostStorageMapping "ResourceMap list"
  | PostArrayCredsMapping "ResourceMap list"
  | PatchMigrationTemplate "string option" TemplatePatch
  | PostMigrationPlan MigrationPlanSpec
  | DeleteMigrationTemplate string
  | DeleteVmwareCredentials string
  | DeleteOpenstackCredentials string

text \<open>An answer is the name of the resource, or a failure with its message.\<close>

datatype api_answer = Answered string | Failed string

type_synonym api = "api_request \<Rightarrow> api_answer"

record submit_state =
  su_requests :: "api_request list"
  su_submitting :: bool
  su_fieldErrors :: "string sobj"
  su_errorTitle :: "string option"
  su_reports :: "string list"
  su_succeeded :: bool
  su_closed :: bool

datatype 'a outcome = Returns 'a | Throws string

definition send :: "api_request \<Rightarrow> submit_state \<Rightarrow> submit_state" where
  "send r s = s \<lparr> su_requests := su_requests s @ [r] \<rparr>"

definition field_message :: "string \<Rightarrow> string \<Rightarrow> submit_state \<Rightarrow> submit_state" where
  "field_message key message s = s \<lparr> su_fieldErrors := sobj_set key message (su_fieldErrors s) \<rparr>"

section \<open>The calls of handleSubmit\<close>

text \<open>
  \<open>createNetworkMapping\<close> and \<open>createStorageMapping\<close> return the promise of the request without awaiting it, so
  their \<open>catch\<close> never runs and a failure leaves through the \<open>await\<close> of the caller.
\<close>

definition createNetworkMapping :: "api \<Rightarrow> ResourceMap list option \<Rightarrow> submit_state \<Rightarrow> string outcome \<times> submit_state" where
  "createNetworkMapping api mappings s =
     (let r = PostNetworkMapping (list_or mappings)
      in (case api r of Answered n \<Rightarrow> Returns n | Failed e \<Rightarrow> Throws e, send r s))"

definition createStorageMapping :: "api \<Rightarrow> ResourceMap list option \<Rightarrow> submit_state \<Rightarrow> string outcome \<times> submit_state" where
  "createStorageMapping api mappings s =
     (let r = PostStorageMapping (list_or mappings)
      in (case api r of Answered n \<Rightarrow> Returns n | Failed e \<Rightarrow> Throws e, send r s))"

definition createArrayCredsMapping :: "api \<Rightarrow> ResourceMap list \<Rightarrow> submit_state \<Rightarrow> string option \<times> submit_state" where
  "createArrayCredsMapping api mappings s =
     (let r = PostArrayCredsMapping mappings
      in case api r of
           Answered n \<Rightarrow> (Some n, send r s)
         | Failed e \<Rightarrow>
             (None, field_message ''storageMapping'' (''Error creating ArrayCreds mapping : '' @ e) (send r s)
                \<lparr> su_errorTitle := Some ''Error creating ArrayCreds mapping'',
                  su_reports := su_reports s @ [''arraycreds-mapping-creation''] \<rparr>))"

definition template_patch :: "submit_input \<Rightarrow> string option \<Rightarrow> string option \<Rightarrow> string option \<Rightarrow> TemplatePatch" where
  "template_patch i networkMappings storageMappings arrayCredsMapping =
     (let method = str_or (fv_storageCopyMethod (si_params i)) ''normal'';
          base = \<lparr> tp_networkMapping = only_truthy networkMappings, tp_storageCopyMethod = method,
                   tp_proxyVMRef = None, tp_storageMapping = None, tp_arrayCredsMapping = None \<rparr>
      in if method = ''HotAdd''
         then base \<lparr> tp_proxyVMRef := only_truthy (fv_proxyVMRef (si_params i)), tp_storageMapping := storageMappings \<rparr>
         else if method = ''StorageAcceleratedCopy'' \<and> arrayCredsMapping \<noteq> None
         then base \<lparr> tp_arrayCredsMapping := arrayCredsMapping \<rparr>
         else base \<lparr> tp_storageMapping := storageMappings \<rparr>)"

definition updateMigrationTemplate ::
  "api \<Rightarrow> submit_input \<Rightarrow> string option \<Rightarrow> string option \<Rightarrow> string option \<Rightarrow> submit_state \<Rightarrow> string option \<times> submit_state" where
  "updateMigrationTemplate api i networkMappings storageMappings arrayCredsMapping s =
     (let r = PatchMigrationTemplate (si_templateName i) (template_patch i networkMappings storageMappings arrayCredsMapping)
      in case api r of
           Answered n \<Rightarrow> (Some n, send r s)
         | Failed e \<Rightarrow> (None, send r s \<lparr> su_errorTitle := Some ''Error updating migration template'' \<rparr>))"

definition createMigrationPlan ::
  "api \<Rightarrow> submit_input \<Rightarrow> string option \<Rightarrow> submit_state \<Rightarrow> string outcome \<times> submit_state" where
  "createMigrationPlan api i template s =
     (if \<not> str_truthy template then (Throws ''Migration template is not available'', s)
      else (let r = PostMigrationPlan (createMigrationPlanJson (migrationFields i (the template)))
            in case api r of
                 Answered n \<Rightarrow> (Returns n, send r s)
               | Failed e \<Rightarrow>
                   (Throws e,
                    field_message ''migrationPlan'' (''Error creating migration plan: '' @ e) (send r s)
                      \<lparr> su_errorTitle := Some ''Error creating migration plan'',
                        su_reports := su_reports s @ [''migration-plan-creation''] \<rparr>)))"

text \<open>The end of the handler, from the patch of the template on.\<close>

definition finish_submit ::
  "api \<Rightarrow> submit_input \<Rightarrow> string option \<Rightarrow> string option \<Rightarrow> string option \<Rightarrow> submit_state \<Rightarrow> unit outcome \<times> submit_state" where
  "finish_submit api i networkMappings storageMappings arrayCredsMapping s =
     (case updateMigrationTemplate api i networkMappings storageMappings arrayCredsMapping s of (template, s1) \<Rightarrow>
      case createMigrationPlan api i template s1 of
        (Throws e, s2) \<Rightarrow> (Throws e, s2)
      | (Returns _, s2) \<Rightarrow> (Returns (), s2 \<lparr> su_submitting := False, su_succeeded := True, su_closed := True \<rparr>))"

definition submit_storage :: "api \<Rightarrow> submit_input \<Rightarrow> string option \<Rightarrow> submit_state \<Rightarrow> unit outcome \<times> submit_state" where
  "submit_storage api i networkMappings s =
     (let p = si_params i
      in if str_or (fv_storageCopyMethod p) ''normal'' = ''StorageAcceleratedCopy''
         then (case createArrayCredsMapping api (list_or (fv_arrayCredsMappings p)) s of
                 (None, s1) \<Rightarrow> (Returns (), s1 \<lparr> su_submitting := False \<rparr>)
               | (Some n, s1) \<Rightarrow> finish_submit api i networkMappings None (Some n) s1)
         else (case createStorageMapping api (fv_storageMappings p) s of
                 (Throws e, s1) \<Rightarrow> (Throws e, s1)
               | (Returns n, s1) \<Rightarrow> finish_submit api i networkMappings (Some n) None s1))"

definition handleSubmit :: "api \<Rightarrow> submit_input \<Rightarrow> submit_state \<Rightarrow> unit outcome \<times> submit_state" where
  "handleSubmit api i s =
     (let s0 = s \<lparr> su_submitting := True, su_errorTitle := None \<rparr>
      in if si_networkMappingRequired i
         then (case createNetworkMapping api (fv_networkMappings (si_params i)) s0 of
                 (Throws e, s1) \<Rightarrow> (Throws e, s1)
               | (Returns n, s1) \<Rightarrow> submit_storage api i (Some n) s1)
         else submit_storage api i None s0)"

section \<open>handleClose\<close>

text \<open>The deletions one after the other; the first failure is reported and ends them.\<close>

definition close_requests :: "submit_input \<Rightarrow> bool \<Rightarrow> api_request list" where
  "close_requests i preserveCredentials =
     (let creds = fv_vmwareCreds (si_params i); oscreds = fv_openstackCreds (si_params i)
      in (if str_truthy (si_templateName i) then [DeleteMigrationTemplate (the (si_templateName i))] else []) @
         (if preserveCredentials then []
          else (if str_truthy (si_vmwareCredsName i) \<and>
                   \<not> str_truthy (case creds of None \<Rightarrow> None | Some c \<Rightarrow> vc_existingCredName c)
                then [DeleteVmwareCredentials (the (si_vmwareCredsName i))] else []) @
               (if str_truthy (si_openstackCredsName i) \<and>
                   \<not> str_truthy (case oscreds of None \<Rightarrow> None | Some c \<Rightarrow> oc_existingCredName c)
                then [DeleteOpenstackCredentials (the (si_openstackCredsName i))] else [])))"

fun run_deletes :: "api \<Rightarrow> api_request list \<Rightarrow> submit_state \<Rightarrow> submit_state" where
  "run_deletes api [] s = s"
| "run_deletes api (r # rs) s =
     (case api r of
        Answered _ \<Rightarrow> run_deletes api rs (send r s)
      | Failed _ \<Rightarrow> send r s \<lparr> su_reports := su_reports s @ [''resource-cleanup''], su_closed := True \<rparr>)"

definition handleClose :: "api \<Rightarrow> submit_input \<Rightarrow> bool \<Rightarrow> submit_state \<Rightarrow> submit_state" where
  "handleClose api i preserveCredentials s =
     run_deletes api (close_requests i preserveCredentials) (s \<lparr> su_errorTitle := None, su_closed := True \<rparr>)"

section \<open>What the overrides say\<close>

interpretation by_index: js_comparator "\<lambda>_. True" by_interface
  by unfold_locales (auto simp: by_interface_def)

lemma override_at_simps [simp]:
  "no_interfaceIndex (override_at vm i) = i"
  "no_preserveIP (override_at vm i) = (map_of (list_or (vd_preserveIp vm)) i \<noteq> Some False)"
  "no_preserveMAC (override_at vm i) = (map_of (list_or (vd_preserveMac vm)) i \<noteq> Some False)"
  by (simp_all add: override_at_def Let_def)

lemma vm_overrides_indices:
  "set (map no_interfaceIndex (vm_overrides vm)) = set (override_indices vm)"
  "distinct (map no_interfaceIndex (vm_overrides vm))"
proof -
  have "mset (map no_interfaceIndex (vm_overrides vm)) = mset (override_indices vm)"
    by (simp add: vm_overrides_def multiset.map_comp comp_def)
  note same = this
  show "set (map no_interfaceIndex (vm_overrides vm)) = set (override_indices vm)"
    by (rule mset_eq_setD [OF same])
  show "distinct (map no_interfaceIndex (vm_overrides vm))"
    unfolding mset_eq_imp_distinct_iff [OF same] by (simp add: override_indices_def)
qed

lemma vm_overrides_sorted: "sorted_wrt (<) (map no_interfaceIndex (vm_overrides vm))"
proof -
  have "sorted_wrt (\<lambda>a b. by_interface a b \<le> 0) (vm_overrides vm)"
    unfolding vm_overrides_def by (rule by_index.sorted_js_sort) (simp add: list_all_iff)
  then have "sorted (map no_interfaceIndex (vm_overrides vm))"
    by (simp add: sorted_map by_interface_def)
  then show ?thesis
    using vm_overrides_indices(2) by (simp add: strict_sorted_iff)
qed

lemma map_of_nic_fold:
  "map_of (concat (map (\<lambda>(index, nic). if length (nic_assigned nic) > 0 then [(index, js_join '','' (nic_assigned nic))] else [])
       (enumerate n nics))) i =
     (if n \<le> i \<and> i < n + length nics \<and> nic_assigned (nics ! (i - n)) \<noteq> []
      then Some (js_join '','' (nic_assigned (nics ! (i - n)))) else None)"
proof (induction nics arbitrary: n)
  case (Cons nic nics)
  show ?case
  proof (cases "i = n")
    case True
    then show ?thesis using Cons [of "Suc n"] by (auto simp: map_add_def)
  next
    case False
    then have "i - n = Suc (i - Suc n) \<longleftrightarrow> n < i" by auto
    with False show ?thesis using Cons [of "Suc n"] by (cases "n < i") (auto simp: map_add_def)
  qed
qed simp

lemma map_of_nicAssignedIps:
  "map_of (nicAssignedIps nics) i =
     (if i < length (list_or nics) \<and> nic_assigned (list_or nics ! i) \<noteq> []
      then Some (js_join '','' (nic_assigned (list_or nics ! i))) else None)"
  using map_of_nic_fold [of 0 "list_or nics" i] by (simp add: nicAssignedIps_def)

lemma vm_overrides_elem: "e \<in> set (vm_overrides vm) \<Longrightarrow> e = override_at vm (no_interfaceIndex e)"
  by (auto simp: vm_overrides_def)

lemma join_nonempty: "ips \<noteq> [] \<Longrightarrow> list_all (\<lambda>ip. ip \<noteq> []) ips \<Longrightarrow> js_join sep ips \<noteq> []"
  by (cases ips; cases "tl ips") auto

lemma nic_assigned_nonempty: "list_all (\<lambda>ip. ip \<noteq> []) (nic_assigned nic)"
  by (auto simp: nic_assigned_def list_all_iff)

lemma override_address:
  "no_UserAssignedIP (override_at vm i) =
     (if map_of (list_or (vd_preserveIp vm)) i = Some False
      then map_of (nicAssignedIps (vd_networkInterfaces vm)) i else None)"
  using join_nonempty [OF _ nic_assigned_nonempty]
  by (auto simp: override_at_def Let_def map_of_nicAssignedIps only_truthy_def)

text \<open>C11: the overrides of a machine are in the plan once per interface, in ascending order; an interface has one
  exactly when it has a flag or an address, and an address goes into the plan only where the operator
  turned the preservation of the address off.\<close>

theorem vm_overrides_spec:
  "sorted_wrt (<) (map no_interfaceIndex (vm_overrides vm)) \<and>
   (i \<in> set (map no_interfaceIndex (vm_overrides vm)) \<longleftrightarrow>
      i \<in> set (obj_keys (list_or (vd_preserveIp vm))) \<or> i \<in> set (obj_keys (list_or (vd_preserveMac vm))) \<or>
      i < length (list_or (vd_networkInterfaces vm)) \<and> nic_assigned (list_or (vd_networkInterfaces vm) ! i) \<noteq> []) \<and>
   (\<forall>e \<in> set (vm_overrides vm).
      no_preserveIP e = (map_of (list_or (vd_preserveIp vm)) (no_interfaceIndex e) \<noteq> Some False) \<and>
      no_preserveMAC e = (map_of (list_or (vd_preserveMac vm)) (no_interfaceIndex e) \<noteq> Some False) \<and>
      no_UserAssignedIP e =
        (if no_preserveIP e then None else map_of (nicAssignedIps (vd_networkInterfaces vm)) (no_interfaceIndex e)))"
proof (intro conjI ballI)
  have keys: "i \<in> set (obj_keys (nicAssignedIps nics)) \<longleftrightarrow>
      i < length (list_or nics) \<and> nic_assigned (list_or nics ! i) \<noteq> []" for nics
    using map_of_eq_None_iff [of "nicAssignedIps nics" i]
    by (simp add: obj_keys_def map_of_nicAssignedIps split: if_splits)
  show "i \<in> set (map no_interfaceIndex (vm_overrides vm)) \<longleftrightarrow>
      i \<in> set (obj_keys (list_or (vd_preserveIp vm))) \<or> i \<in> set (obj_keys (list_or (vd_preserveMac vm))) \<or>
      i < length (list_or (vd_networkInterfaces vm)) \<and> nic_assigned (list_or (vd_networkInterfaces vm) ! i) \<noteq> []"
    unfolding vm_overrides_indices(1) by (simp add: override_indices_def keys)
next
  fix e assume "e \<in> set (vm_overrides vm)"
  then have e: "e = override_at vm (no_interfaceIndex e)" by (rule vm_overrides_elem)
  show "no_preserveIP e = (map_of (list_or (vd_preserveIp vm)) (no_interfaceIndex e) \<noteq> Some False)"
    by (subst e) simp
  show "no_preserveMAC e = (map_of (list_or (vd_preserveMac vm)) (no_interfaceIndex e) \<noteq> Some False)"
    by (subst e) simp
  show "no_UserAssignedIP e =
        (if no_preserveIP e then None else map_of (nicAssignedIps (vd_networkInterfaces vm)) (no_interfaceIndex e))"
    by (subst (1 2) e) (simp add: override_address)
qed (rule vm_overrides_sorted)

definition sample_override_vm :: VmData where
  "sample_override_vm = blank_vm ''vm-1'' ''web''
     \<lparr> vd_preserveIp := Some [(1, False)],
       vd_networkInterfaces := Some
         [\<lparr> nic_mac = ''m0'', nic_network = ''n'', nic_ips = [], nic_preserve_ip = None, nic_preserve_mac = None \<rparr>,
          \<lparr> nic_mac = ''m1'', nic_network = ''n'', nic_ips = ['' 10.0.0.7''], nic_preserve_ip = None,
             nic_preserve_mac = None \<rparr>] \<rparr>"

theorem vm_overrides_spec_witness:
  "1 \<in> set (map no_interfaceIndex (vm_overrides sample_override_vm)) \<and>
   0 \<notin> set (map no_interfaceIndex (vm_overrides sample_override_vm))"
  using vm_overrides_spec [of sample_override_vm 0] vm_overrides_spec [of sample_override_vm 1]
  by (simp add: sample_override_vm_def blank_vm_def obj_keys_def nic_assigned_def)

section \<open>The requests of a submit\<close>

definition answer_name :: "api_answer \<Rightarrow> string option" where
  "answer_name a = (case a of Answered n \<Rightarrow> Some n | Failed _ \<Rightarrow> None)"

definition storage_request :: "submit_input \<Rightarrow> api_request" where
  "storage_request i =
     (if str_or (fv_storageCopyMethod (si_params i)) ''normal'' = ''StorageAcceleratedCopy''
      then PostArrayCredsMapping (list_or (fv_arrayCredsMappings (si_params i)))
      else PostStorageMapping (list_or (fv_storageMappings (si_params i))))"

definition network_request :: "submit_input \<Rightarrow> api_request" where
  "network_request i = PostNetworkMapping (list_or (fv_networkMappings (si_params i)))"

text \<open>The patch that the template is to get, from the names of the mappings.\<close>

definition named_patch :: "submit_input \<Rightarrow> string option \<Rightarrow> string option \<Rightarrow> TemplatePatch" where
  "named_patch i networkName storageName =
     (let method = str_or (fv_storageCopyMethod (si_params i)) ''normal''; accelerated = (method = ''StorageAcceleratedCopy'')
      in \<lparr> tp_networkMapping = networkName, tp_storageCopyMethod = method,
           tp_proxyVMRef = (if method = ''HotAdd'' then only_truthy (fv_proxyVMRef (si_params i)) else None),
           tp_storageMapping = (if accelerated then None else storageName),
           tp_arrayCredsMapping = (if accelerated then storageName else None) \<rparr>)"

definition patch_request :: "api \<Rightarrow> submit_input \<Rightarrow> api_request" where
  "patch_request api i =
     PatchMigrationTemplate (si_templateName i)
       (named_patch i (if si_networkMappingRequired i then answer_name (api (network_request i)) else None)
          (answer_name (api (storage_request i))))"

definition plan_request :: "api \<Rightarrow> submit_input \<Rightarrow> api_request" where
  "plan_request api i =
     PostMigrationPlan (createMigrationPlanJson (migrationFields i (default_to [] (answer_name (api (patch_request api i))))))"

text \<open>
  The promise of the submit: first the mappings, then the template that refers to them, the plan last; every
  request is sent only when those before it were answered.
\<close>

definition submit_script :: "api \<Rightarrow> submit_input \<Rightarrow> api_request list" where
  "submit_script api i =
     (if si_networkMappingRequired i then [network_request i] else []) @
     [storage_request i, patch_request api i, plan_request api i]"

definition answered :: "api \<Rightarrow> api_request \<Rightarrow> bool" where
  "answered api r = str_truthy (answer_name (api r))"

fun run_script :: "('r \<Rightarrow> bool) \<Rightarrow> 'r list \<Rightarrow> 'r list" where
  "run_script ok [] = []"
| "run_script ok (r # rs) = r # (if ok r then run_script ok rs else [])"

lemma run_script_take: "\<exists>k. run_script ok rs = take k rs"
proof (induction rs)
  case (Cons r rs)
  then obtain k where "run_script ok rs = take k rs" by blast
  then show ?case by (cases "ok r") (auto intro: exI [of _ "Suc k"] exI [of _ "Suc 0"])
qed simp

text \<open>The server names every resource it creates: \<open>metadata.name\<close> is required and never empty.\<close>

definition names_resources :: "api \<Rightarrow> bool" where
  "names_resources api = (\<forall>r. api r \<noteq> Answered [])"

lemma answered_iff: "names_resources api \<Longrightarrow> answered api r \<longleftrightarrow> (\<exists>n. n \<noteq> [] \<and> api r = Answered n)"
  by (auto simp: answered_def answer_name_def names_resources_def split: api_answer.splits)

lemma answer_cases:
  assumes "names_resources api"
  obtains (yes) n where "api r = Answered n" "n \<noteq> []" "answered api r" | (no) e where "api r = Failed e" "\<not> answered api r"
proof (cases "api r")
  case (Answered n)
  with assms have "n \<noteq> []" unfolding names_resources_def by metis
  with Answered show ?thesis by (intro yes [of n]) (simp_all add: answered_def answer_name_def)
next
  case (Failed e)
  then show ?thesis by (intro no [of e]) (simp_all add: answered_def answer_name_def)
qed

lemma send_simps [simp]:
  "su_requests (send r s) = su_requests s @ [r]" "su_submitting (send r s) = su_submitting s"
  "su_succeeded (send r s) = su_succeeded s"
  "su_requests (field_message k m s) = su_requests s" "su_submitting (field_message k m s) = su_submitting s"
  "su_succeeded (field_message k m s) = su_succeeded s"
  by (simp_all add: send_def field_message_def)

lemma finish_requests:
  assumes "names_resources api"
    and patch: "patch_request api i = PatchMigrationTemplate (si_templateName i) (template_patch i net st arr)"
  shows "su_requests (snd (finish_submit api i net st arr s)) =
           su_requests s @ run_script (answered api) [patch_request api i, plan_request api i]"
    and "fst (finish_submit api i net st arr s) = Returns () \<longleftrightarrow>
           answered api (patch_request api i) \<and> answered api (plan_request api i)"
    and "su_submitting (snd (finish_submit api i net st arr s)) =
           (su_submitting s \<and> fst (finish_submit api i net st arr s) \<noteq> Returns ())"
proof -
  let ?g = "su_requests (snd (finish_submit api i net st arr s)) =
           su_requests s @ run_script (answered api) [patch_request api i, plan_request api i] \<and>
      (fst (finish_submit api i net st arr s) = Returns () \<longleftrightarrow>
           answered api (patch_request api i) \<and> answered api (plan_request api i)) \<and>
      su_submitting (snd (finish_submit api i net st arr s)) =
           (su_submitting s \<and> fst (finish_submit api i net st arr s) \<noteq> Returns ())"
  have ?g
  proof (cases rule: answer_cases [OF assms(1), of "patch_request api i", case_names yes no])
    case (yes n)
    show ?thesis
      by (cases rule: answer_cases [OF assms(1), of "plan_request api i"])
        (use yes in \<open>auto simp: finish_submit_def updateMigrationTemplate_def patch [symmetric] Let_def createMigrationPlan_def
          plan_request_def answer_name_def default_to_def\<close>)
  next
    case (no e)
    then show ?thesis
      by (simp add: finish_submit_def updateMigrationTemplate_def patch [symmetric] Let_def createMigrationPlan_def)
  qed
  then show "su_requests (snd (finish_submit api i net st arr s)) =
           su_requests s @ run_script (answered api) [patch_request api i, plan_request api i]"
    and "fst (finish_submit api i net st arr s) = Returns () \<longleftrightarrow>
           answered api (patch_request api i) \<and> answered api (plan_request api i)"
    and "su_submitting (snd (finish_submit api i net st arr s)) =
           (su_submitting s \<and> fst (finish_submit api i net st arr s) \<noteq> Returns ())"
    by blast+
qed

lemma storage_requests:
  assumes "names_resources api"
    and net: "net = when_some (si_networkMappingRequired i) (answer_name (api (network_request i)))"
  shows "su_requests (snd (submit_storage api i net s)) =
           su_requests s @ run_script (answered api) [storage_request i, patch_request api i, plan_request api i] \<and>
         (su_submitting s \<longrightarrow>
            su_submitting (snd (submit_storage api i net s)) =
              (fst (submit_storage api i net s) \<noteq> Returns ())) \<and>
         (fst (submit_storage api i net s) = Returns () \<longleftrightarrow>
            list_all (answered api) [storage_request i, patch_request api i, plan_request api i] \<or>
            \<not> answered api (storage_request i) \<and>
              str_or (fv_storageCopyMethod (si_params i)) ''normal'' = ''StorageAcceleratedCopy'')"
proof -
  have net_kept: "only_truthy net = net"
    using assms by (cases "api (network_request i)") (auto simp: when_some_def answer_name_def only_truthy_def names_resources_def)
  show ?thesis
proof (cases rule: answer_cases [OF assms(1), of "storage_request i", case_names yes no])
  case (yes n)
  show ?thesis
  proof (cases "str_or (fv_storageCopyMethod (si_params i)) ''normal'' = ''StorageAcceleratedCopy''")
    case True
    have "patch_request api i = PatchMigrationTemplate (si_templateName i) (template_patch i net None (Some n))"
      using yes True net_kept by (simp add: patch_request_def net answer_name_def when_some_def named_patch_def template_patch_def Let_def)
    note fin = finish_requests [OF assms(1) this]
    show ?thesis using True yes
      by (simp add: submit_storage_def createArrayCredsMapping_def storage_request_def Let_def fin)
  next
    case False
    have "patch_request api i = PatchMigrationTemplate (si_templateName i) (template_patch i net (Some n) None)"
      using yes False net_kept by (simp add: patch_request_def net answer_name_def when_some_def named_patch_def template_patch_def Let_def)
    note fin = finish_requests [OF assms(1) this]
    show ?thesis using False yes
      by (simp add: submit_storage_def createStorageMapping_def storage_request_def Let_def fin)
  qed
next
  case (no e)
  show ?thesis
  proof (cases "str_or (fv_storageCopyMethod (si_params i)) ''normal'' = ''StorageAcceleratedCopy''")
    case True
    with no show ?thesis
      by (simp add: submit_storage_def createArrayCredsMapping_def storage_request_def Let_def)
  next
    case False
    with no show ?thesis
      by (simp add: submit_storage_def createStorageMapping_def storage_request_def Let_def)
  qed
qed
qed

lemma handleSubmit_requests:
  assumes "names_resources api"
  shows "su_requests (snd (handleSubmit api i s)) = su_requests s @ run_script (answered api) (submit_script api i) \<and>
         su_submitting (snd (handleSubmit api i s)) = (fst (handleSubmit api i s) \<noteq> Returns ()) \<and>
         (fst (handleSubmit api i s) = Returns () \<longleftrightarrow>
            list_all (answered api) (submit_script api i) \<or>
            \<not> answered api (storage_request i) \<and>
              (si_networkMappingRequired i \<longrightarrow> answered api (network_request i)) \<and>
              str_or (fv_storageCopyMethod (si_params i)) ''normal'' = ''StorageAcceleratedCopy'')"
proof (cases "si_networkMappingRequired i")
  case True
  show ?thesis
  proof (cases rule: answer_cases [OF assms(1), of "network_request i", case_names yes no])
    case (yes n)
    have net: "Some n = when_some (si_networkMappingRequired i) (answer_name (api (network_request i)))"
      using yes True by (simp add: when_some_def answer_name_def)
    show ?thesis using True yes storage_requests [OF assms(1) net]
      by (auto simp: handleSubmit_def createNetworkMapping_def submit_script_def network_request_def Let_def)
  next
    case (no e)
    then show ?thesis using True
      by (auto simp: handleSubmit_def createNetworkMapping_def submit_script_def network_request_def Let_def)
  qed
next
  case False
  have net: "None = when_some (si_networkMappingRequired i) (answer_name (api (network_request i)))"
    using False by (simp add: when_some_def)
  show ?thesis using False storage_requests [OF assms(1) net]
    by (auto simp: handleSubmit_def submit_script_def Let_def)
qed

lemma run_script_until: "run_script ok rs = takeWhile ok rs @ take 1 (dropWhile ok rs)"
  by (induction rs) auto

text \<open>C2: a submit sends the network mapping (when one is required), the storage or array mapping, the patch of the
  template with the names of both, and the plan of the patched template, in this order. What it sends is exactly what comes before the
  first request that is refused, and that request: nothing is sent after a refusal, and everything when there is none, and then the
  submit returns. The patch has the name of the network mapping, the copy method, the proxy machine for the hot-add copy alone, and the
  name of the storage mapping in the field of the method. The server names what it creates.\<close>

theorem submit_follows_script:
  assumes "names_resources api"
  shows "su_requests (snd (handleSubmit api i s)) =
      su_requests s @ takeWhile (answered api) (submit_script api i) @ take 1 (dropWhile (answered api) (submit_script api i)) \<and>
    (list_all (answered api) (submit_script api i) \<longrightarrow> fst (handleSubmit api i s) = Returns ()) \<and>
    (\<forall>n m. api (network_request i) = Answered n \<longrightarrow> api (storage_request i) = Answered m \<longrightarrow>
       patch_request api i = PatchMigrationTemplate (si_templateName i)
         (let method = str_or (fv_storageCopyMethod (si_params i)) ''normal''
          in \<lparr> tp_networkMapping = (if si_networkMappingRequired i then Some n else None), tp_storageCopyMethod = method,
               tp_proxyVMRef = (if method = ''HotAdd'' then only_truthy (fv_proxyVMRef (si_params i)) else None),
               tp_storageMapping = (if method = ''StorageAcceleratedCopy'' then None else Some m),
               tp_arrayCredsMapping = (if method = ''StorageAcceleratedCopy'' then Some m else None) \<rparr>))"
  using handleSubmit_requests [OF assms, of i s]
  by (auto simp: run_script_until patch_request_def named_patch_def answer_name_def Let_def)

definition sample_submit :: submit_input where
  "sample_submit =
     \<lparr> si_params = empty_form \<lparr> fv_vms := Some [blank_vm ''vm-1'' ''web''],
         fv_networkMappings := Some [\<lparr> rm_source = ''VM Network'', rm_target = ''net'' \<rparr>],
         fv_storageMappings := Some [\<lparr> rm_source = ''ds1'', rm_target = ''nfs'' \<rparr>], fv_dataCopyMethod := Some ''cold'' \<rparr>,
       si_selected = DEFAULT_MIGRATION_OPTIONS, si_templateName = Some ''template'', si_vmwareCredsName = None,
       si_openstackCredsName = None, si_networkMappingRequired = True \<rparr>"

definition idle_submit :: submit_state where
  "idle_submit = \<lparr> su_requests = [], su_submitting = False, su_fieldErrors = [], su_errorTitle = None,
     su_reports = [], su_succeeded = False, su_closed = False \<rparr>"

definition plan_refused :: api where
  "plan_refused r = (case r of PostMigrationPlan _ \<Rightarrow> Failed ''quota'' | _ \<Rightarrow> Answered ''created'')"

lemma sample_names: "names_resources (\<lambda>_. Answered ''created'')" "names_resources plan_refused"
  by (auto simp: names_resources_def plan_refused_def split: api_request.splits)

theorem submit_follows_script_witness:
  "fst (handleSubmit (\<lambda>_. Answered ''created'') sample_submit idle_submit) = Returns () \<and>
   length (su_requests (snd (handleSubmit (\<lambda>_. Answered ''created'') sample_submit idle_submit))) = 4"
proof -
  have ok: "answered (\<lambda>_. Answered ''created'') = (\<lambda>_. True)"
    by (simp add: fun_eq_iff answered_def answer_name_def)
  have all: "takeWhile (\<lambda>_. True) rs = rs" "dropWhile (\<lambda>_. True) rs = []" "list_all (\<lambda>_. True) rs" for rs :: "api_request list"
    by (induction rs) simp_all
  have "length (submit_script (\<lambda>_. Answered ''created'') sample_submit) = 4"
    by (simp add: submit_script_def sample_submit_def)
  then show ?thesis
    using submit_follows_script [OF sample_names(1), of sample_submit idle_submit, unfolded ok all] by (simp add: idle_submit_def list_all_iff)
qed

text \<open>after the handler has left, the form still shows itself as submitting exactly when a request failed, except
  the array mapping: \<open>setSubmitting(false)\<close> is not reached when the exception of a mapping, of the template or of
  the plan leaves the handler, and the button stays disabled.\<close>

theorem failed_submit_stays_submitting:
  assumes "names_resources api"
  shows "su_submitting (snd (handleSubmit api i s)) \<longleftrightarrow>
           \<not> list_all (answered api) (submit_script api i) \<and>
           \<not> (str_or (fv_storageCopyMethod (si_params i)) ''normal'' = ''StorageAcceleratedCopy'' \<and>
              \<not> answered api (storage_request i) \<and>
              (si_networkMappingRequired i \<longrightarrow> answered api (network_request i)))"
  using handleSubmit_requests [OF assms, of i s] by blast

theorem failed_submit_stays_submitting_witness:
  "su_submitting (snd (handleSubmit plan_refused sample_submit idle_submit))"
proof -
  have "\<not> answered plan_refused (plan_request plan_refused sample_submit)"
    by (simp add: answered_def answer_name_def plan_refused_def plan_request_def)
  then show ?thesis
    using failed_submit_stays_submitting [OF sample_names(2), of sample_submit idle_submit]
    by (simp add: submit_script_def sample_submit_def empty_form_def)
qed

text \<open>closing the form deletes the template it created and the credentials it created, and never credentials the
  operator picked from the existing ones; nothing after the first failure.\<close>

theorem close_keeps_existing_credentials:
  "(\<exists>k. su_requests (handleClose api i keep s) = su_requests s @ take k (close_requests i keep)) \<and>
   su_closed (handleClose api i keep s) \<and>
   (\<forall>n. DeleteVmwareCredentials n \<in> set (close_requests i keep) \<longrightarrow>
      \<not> keep \<and> si_vmwareCredsName i = Some n \<and>
      (\<forall>c. fv_vmwareCreds (si_params i) = Some c \<longrightarrow> \<not> str_truthy (vc_existingCredName c))) \<and>
   (\<forall>n. DeleteOpenstackCredentials n \<in> set (close_requests i keep) \<longrightarrow>
      \<not> keep \<and> si_openstackCredsName i = Some n \<and>
      (\<forall>c. fv_openstackCreds (si_params i) = Some c \<longrightarrow> \<not> str_truthy (oc_existingCredName c)))"
proof (intro conjI)
  have "\<exists>k. su_requests (run_deletes api rs t) = su_requests t @ take k rs" for rs t
  proof (induction rs arbitrary: t)
    case (Cons r rs)
    show ?case
    proof (cases "api r")
      case (Answered n)
      with Cons [of "send r t"] obtain k where "su_requests (run_deletes api (r # rs) t) = su_requests t @ r # take k rs"
        by auto
      then show ?thesis by (auto intro: exI [of _ "Suc k"])
    next
      case (Failed e)
      then show ?thesis by (auto intro!: exI [of _ "Suc 0"])
    qed
  qed simp
  then show "\<exists>k. su_requests (handleClose api i keep s) = su_requests s @ take k (close_requests i keep)"
    unfolding handleClose_def by (metis (no_types, lifting) submit_state.select_convs(1) submit_state.surjective submit_state.update_convs(4) submit_state.update_convs(7))
  have "su_closed t \<Longrightarrow> su_closed (run_deletes api rs t)" for rs t
    by (induction rs arbitrary: t) (auto simp: send_def split: api_answer.split)
  then show "su_closed (handleClose api i keep s)" by (simp add: handleClose_def)
qed (auto simp: close_requests_def Let_def str_truthy_def split: if_splits option.splits)

theorem close_keeps_existing_credentials_witness:
  "su_closed (handleClose plan_refused sample_submit False idle_submit) \<and>
   DeleteVmwareCredentials ''vc'' \<notin> set (close_requests sample_submit False)"
  using close_keeps_existing_credentials [of plan_refused sample_submit False idle_submit]
  by (auto simp: sample_submit_def)

end
