(* ===== verification/Retry_Migration.thy ===== *)
theory Retry_Migration
  imports Plan_Submit Template_Prefill
begin

text \<open>
  The retry of a failed migration: \<open>ui/src/features/migration/utils/retryFormState.ts\<close> and the hooks
  \<open>useRetryPrefill.ts\<close> (load the resources of the failed migration and fill the form) and
  \<open>useRetrySubmit.ts\<close> (replace them), with \<open>mapToVmData\<close> of \<open>ui/src/api/vmware-machines/vmwareMachines.ts\<close> and the
  merge of \<open>ui/src/hooks/useParams.ts\<close>. What the API server returns is an argument.
\<close>

section \<open>useParams\<close>

text \<open>\<open>{ ...state, ...payload }\<close>: a key the payload does not have keeps its value.\<close>

definition merge_opt :: "'a option \<Rightarrow> 'a option \<Rightarrow> 'a option" where
  "merge_opt payload state = (case payload of None \<Rightarrow> state | Some _ \<Rightarrow> payload)"

definition updateParams :: "FormValues \<Rightarrow> FormValues \<Rightarrow> FormValues" where
  "updateParams payload state =
     \<lparr> fv_vmwareCreds = merge_opt (fv_vmwareCreds payload) (fv_vmwareCreds state),
       fv_openstackCreds = merge_opt (fv_openstackCreds payload) (fv_openstackCreds state),
       fv_vms = merge_opt (fv_vms payload) (fv_vms state),
       fv_rdmConfigurations = merge_opt (fv_rdmConfigurations payload) (fv_rdmConfigurations state),
       fv_networkMappings = merge_opt (fv_networkMappings payload) (fv_networkMappings state),
       fv_storageMappings = merge_opt (fv_storageMappings payload) (fv_storageMappings state),
       fv_arrayCredsMappings = merge_opt (fv_arrayCredsMappings payload) (fv_arrayCredsMappings state),
       fv_storageCopyMethod = merge_opt (fv_storageCopyMethod payload) (fv_storageCopyMethod state),
       fv_proxyVMRef = merge_opt (fv_proxyVMRef payload) (fv_proxyVMRef state),
       fv_vmwareCluster = merge_opt (fv_vmwareCluster payload) (fv_vmwareCluster state),
       fv_pcdCluster = merge_opt (fv_pcdCluster payload) (fv_pcdCluster state),
       fv_dataCopyMethod = merge_opt (fv_dataCopyMethod payload) (fv_dataCopyMethod state),
       fv_dataCopyStartTime = merge_opt (fv_dataCopyStartTime payload) (fv_dataCopyStartTime state),
       fv_cutoverOption = merge_opt (fv_cutoverOption payload) (fv_cutoverOption state),
       fv_cutoverStartTime = merge_opt (fv_cutoverStartTime payload) (fv_cutoverStartTime state),
       fv_cutoverEndTime = merge_opt (fv_cutoverEndTime payload) (fv_cutoverEndTime state),
       fv_postMigrationScript = merge_opt (fv_postMigrationScript payload) (fv_postMigrationScript state),
       fv_osFamily = merge_opt (fv_osFamily payload) (fv_osFamily state),
       fv_postMigrationAction = merge_opt (fv_postMigrationAction payload) (fv_postMigrationAction state),
       fv_disconnectSourceNetwork = merge_opt (fv_disconnectSourceNetwork payload) (fv_disconnectSourceNetwork state),
       fv_dataOnly = merge_opt (fv_dataOnly payload) (fv_dataOnly state),
       fv_securityGroups = merge_opt (fv_securityGroups payload) (fv_securityGroups state),
       fv_serverGroup = merge_opt (fv_serverGroup payload) (fv_serverGroup state),
       fv_fallbackToDHCP = merge_opt (fv_fallbackToDHCP payload) (fv_fallbackToDHCP state),
       fv_useGPU = merge_opt (fv_useGPU payload) (fv_useGPU state),
       fv_networkPersistence = merge_opt (fv_networkPersistence payload) (fv_networkPersistence state),
       fv_removeVMwareTools = merge_opt (fv_removeVMwareTools payload) (fv_removeVMwareTools state),
       fv_imageProfiles = merge_opt (fv_imageProfiles payload) (fv_imageProfiles state),
       fv_preserveSourceTags = merge_opt (fv_preserveSourceTags payload) (fv_preserveSourceTags state),
       fv_customMetadata = merge_opt (fv_customMetadata payload) (fv_customMetadata state),
       fv_periodicSyncInterval = merge_opt (fv_periodicSyncInterval payload) (fv_periodicSyncInterval state),
       fv_acknowledgeNetworkConflictRisk =
         merge_opt (fv_acknowledgeNetworkConflictRisk payload) (fv_acknowledgeNetworkConflictRisk state) \<rparr>"

definition updateSelectedOptions :: "SelectedMigrationOptions \<Rightarrow> SelectedMigrationOptions \<Rightarrow> SelectedMigrationOptions" where
  "updateSelectedOptions payload state =
     \<lparr> so_dataCopyMethod = merge_opt (so_dataCopyMethod payload) (so_dataCopyMethod state),
       so_dataCopyStartTime = merge_opt (so_dataCopyStartTime payload) (so_dataCopyStartTime state),
       so_cutoverOption = merge_opt (so_cutoverOption payload) (so_cutoverOption state),
       so_cutoverStartTime = merge_opt (so_cutoverStartTime payload) (so_cutoverStartTime state),
       so_cutoverEndTime = merge_opt (so_cutoverEndTime payload) (so_cutoverEndTime state),
       so_postMigrationScript = merge_opt (so_postMigrationScript payload) (so_postMigrationScript state),
       so_useGPU = merge_opt (so_useGPU payload) (so_useGPU state),
       so_periodicSyncEnabled = merge_opt (so_periodicSyncEnabled payload) (so_periodicSyncEnabled state),
       so_postMigrationAction = merge_opt (so_postMigrationAction payload) (so_postMigrationAction state),
       so_acknowledgeNetworkConflictRisk =
         merge_opt (so_acknowledgeNetworkConflictRisk payload) (so_acknowledgeNetworkConflictRisk state) \<rparr>"

text \<open>The form of \<open>MigrationForm.tsx\<close> before anything is filled in.\<close>

definition defaultValues :: FormValues where
  "defaultValues = empty_form \<lparr> fv_removeVMwareTools := Some True \<rparr>"

section \<open>From the resources to the form: buildRetryFormState\<close>

record MigrationPlan =
  mp_name :: string
  mp_spec :: MigrationPlanSpec

record MigrationTemplate =
  mt_name :: string
  mt_spec :: MigrationTemplateSpec

definition DEFAULT_FIRSTBOOT_SCRIPT :: string where
  "DEFAULT_FIRSTBOOT_SCRIPT = ''echo '' @ [CHR 0x22] @ ''Add your startup script here!'' @ [CHR 0x22]"

record RetryFormStateInput =
  ri_plan :: MigrationPlan
  ri_template :: MigrationTemplate
  ri_vmData :: VmData
  ri_clusterName :: string
  ri_datacenter :: string
  ri_vmwareRef :: string
  ri_openstackRef :: string
  ri_networkMappings :: "ResourceMap list"
  ri_storageMappings :: "ResourceMap list"
  ri_pcdData :: "(string \<times> string option) list"

record RetryFormState =
  rf_params :: FormValues
  rf_selectedOptions :: SelectedMigrationOptions
  rf_formDefaults :: MigrationDrawerRHFValues

definition retry_cutover :: "MigrationStrategy option \<Rightarrow> string" where
  "retry_cutover strategy =
     (if bool_or (opt_get st_adminInitiatedCutOver strategy) then CUTOVER_ADMIN_INITIATED
      else if isSetTime (opt_get st_vmCutoverStart strategy) \<or> isSetTime (opt_get st_vmCutoverEnd strategy)
      then CUTOVER_TIME_WINDOW else CUTOVER_IMMEDIATE)"

definition retry_script :: "MigrationPlanSpec \<Rightarrow> string option" where
  "retry_script spec =
     (if str_truthy (ps_firstBootScript spec) \<and> ps_firstBootScript spec \<noteq> Some DEFAULT_FIRSTBOOT_SCRIPT
      then ps_firstBootScript spec else None)"

definition retry_time :: "string option \<Rightarrow> string option" where
  "retry_time t = (if isSetTime t then t else None)"

definition retry_params :: "RetryFormStateInput \<Rightarrow> FormValues" where
  "retry_params i =
     (let spec = mp_spec (ri_plan i); template = mt_spec (ri_template i);
          strategy = ps_migrationStrategy spec; advanced = ps_advancedOptions spec;
          pcd = find (\<lambda>p. snd p = ts_targetPCDClusterName template) (ri_pcdData i);
          pcdId = (case pcd of None \<Rightarrow> [] | Some p \<Rightarrow> fst p)
      in empty_form
        \<lparr> fv_vmwareCreds := Some (no_vmware_creds \<lparr> vc_existingCredName := Some (ri_vmwareRef i),
                                                    vc_datacenter := Some (ri_datacenter i) \<rparr>),
          fv_openstackCreds := Some (no_openstack_creds \<lparr> oc_existingCredName := Some (ri_openstackRef i) \<rparr>),
          fv_vmwareCluster := Some (cluster_id (ri_vmwareRef i) (ri_datacenter i) (ri_clusterName i)),
          fv_pcdCluster := Some (if pcdId \<noteq> [] then pcdId else str_or (ts_targetPCDClusterName template) []),
          fv_vms := Some [ri_vmData i],
          fv_networkMappings := Some (ri_networkMappings i),
          fv_storageMappings := Some (ri_storageMappings i),
          fv_storageCopyMethod := Some (str_or (ts_storageCopyMethod template) ''normal''),
          fv_proxyVMRef := only_truthy (ts_proxyVMRef template),
          fv_dataCopyMethod := Some (str_or (map_option st_type strategy) ''cold''),
          fv_useGPU := Some (bool_or (ts_useGPUFlavor template)),
          fv_disconnectSourceNetwork := Some (bool_or (opt_get st_disconnectSourceNetwork strategy)),
          fv_dataOnly := Some (bool_or (opt_get st_dataOnly strategy)),
          fv_fallbackToDHCP := Some (bool_or (ps_fallbackToDHCP spec)),
          fv_securityGroups := Some (list_or (ps_securityGroups spec)),
          fv_serverGroup := Some (default_to [] (ps_serverGroup spec)),
          fv_dataCopyStartTime := retry_time (opt_get st_dataCopyStart strategy),
          fv_cutoverOption := Some (retry_cutover strategy),
          fv_cutoverStartTime := retry_time (opt_get st_vmCutoverStart strategy),
          fv_cutoverEndTime := retry_time (opt_get st_vmCutoverEnd strategy),
          fv_postMigrationScript := retry_script spec,
          fv_postMigrationAction := ps_postMigrationAction spec,
          fv_networkPersistence := opt_get ao_networkPersistence advanced,
          fv_removeVMwareTools := opt_get ao_removeVMwareTools advanced,
          fv_acknowledgeNetworkConflictRisk := opt_get ao_acknowledgeNetworkConflictRisk advanced,
          fv_imageProfiles := (let ps = opt_get ao_imageProfiles advanced in if nonempty_opt ps then ps else None),
          fv_periodicSyncInterval := only_truthy (opt_get ao_periodicSyncInterval advanced),
          fv_preserveSourceTags := Some (bool_or (ps_preserveSourceTags spec)),
          fv_customMetadata := (if nonempty_opt (ps_customMetadata spec)
             then Some (map (\<lambda>(k, v). \<lparr> kv_key = k, kv_value = v \<rparr>) (list_or (ps_customMetadata spec))) else None) \<rparr>)"

definition no_selection :: SelectedMigrationOptions where
  "no_selection =
     \<lparr> so_dataCopyMethod = None, so_dataCopyStartTime = None, so_cutoverOption = None, so_cutoverStartTime = None,
       so_cutoverEndTime = None, so_postMigrationScript = None, so_useGPU = None, so_periodicSyncEnabled = None,
       so_postMigrationAction = None, so_acknowledgeNetworkConflictRisk = None \<rparr>"

definition retry_options :: "RetryFormStateInput \<Rightarrow> SelectedMigrationOptions" where
  "retry_options i =
     (let spec = mp_spec (ri_plan i); strategy = ps_migrationStrategy spec
      in no_selection
        \<lparr> so_dataCopyMethod := Some True,
          so_dataCopyStartTime := Some (isSetTime (opt_get st_dataCopyStart strategy)),
          so_cutoverOption := Some (retry_cutover strategy \<noteq> CUTOVER_IMMEDIATE),
          so_cutoverStartTime := Some (isSetTime (opt_get st_vmCutoverStart strategy)),
          so_cutoverEndTime := Some (isSetTime (opt_get st_vmCutoverEnd strategy)),
          so_postMigrationScript := Some (str_truthy (retry_script spec)),
          so_useGPU := Some (bool_or (ts_useGPUFlavor (mt_spec (ri_template i)))),
          so_periodicSyncEnabled := Some (bool_or (opt_get ao_periodicSyncEnabled (ps_advancedOptions spec))),
          so_postMigrationAction := map_option (\<lambda>a.
            \<lparr> sp_suffix = Some (str_truthy (pm_suffix a)), sp_folderName = Some (str_truthy (pm_folderName a)),
              sp_renameVm = Some (bool_or (pm_renameVm a)), sp_moveToFolder = Some (bool_or (pm_moveToFolder a)) \<rparr>)
            (ps_postMigrationAction spec) \<rparr>)"

definition retry_defaults :: "RetryFormStateInput \<Rightarrow> MigrationDrawerRHFValues" where
  "retry_defaults i =
     (let spec = mp_spec (ri_plan i); strategy = ps_migrationStrategy spec
      in \<lparr> rhf_securityGroups = list_or (ps_securityGroups spec),
           rhf_serverGroup = default_to [] (ps_serverGroup spec),
           rhf_dataCopyStartTime = default_to [] (retry_time (opt_get st_dataCopyStart strategy)),
           rhf_cutoverStartTime = default_to [] (retry_time (opt_get st_vmCutoverStart strategy)),
           rhf_cutoverEndTime = default_to [] (retry_time (opt_get st_vmCutoverEnd strategy)),
           rhf_postMigrationActionSuffix = default_to [] (opt_get pm_suffix (ps_postMigrationAction spec)),
           rhf_postMigrationActionFolderName = default_to [] (opt_get pm_folderName (ps_postMigrationAction spec)) \<rparr>)"

definition buildRetryFormState :: "RetryFormStateInput \<Rightarrow> RetryFormState" where
  "buildRetryFormState i =
     \<lparr> rf_params = retry_params i, rf_selectedOptions = retry_options i, rf_formDefaults = retry_defaults i \<rparr>"

section \<open>From the form to the plan: buildRetryPlanSpec\<close>

text \<open>The fields of the specification that the function returns; \<open>null\<close> is \<open>None\<close>.\<close>

record RetryPlanSpec =
  rp_migrationStrategy :: MigrationStrategy
  rp_securityGroups :: "string list option"
  rp_serverGroup :: "string option"
  rp_fallbackToDHCP :: bool
  rp_preserveSourceTags :: bool
  rp_customMetadata :: "string sobj option"
  rp_firstBootScript :: "string option"
  rp_postMigrationAction :: "PostMigrationAction option"
  rp_networkOverridesPerVM :: "NetworkOverride list sobj option"
  rp_advancedOptions :: AdvancedOptions

definition buildRetryPlanSpec ::
  "FormValues \<Rightarrow> SelectedMigrationOptions \<Rightarrow> MigrationPlan option \<Rightarrow> RetryPlanSpec" where
  "buildRetryPlanSpec p so retryPlan =
     (let timeWindow = (bool_or (so_cutoverOption so) \<and> fv_cutoverOption p = Some CUTOVER_TIME_WINDOW);
          overrides = networkOverridesPerVM (fv_vms p);
          planType = (case retryPlan of None \<Rightarrow> None | Some pl \<Rightarrow> map_option st_type (ps_migrationStrategy (mp_spec pl)))
      in \<lparr> rp_migrationStrategy =
             \<lparr> st_type = str_or (fv_dataCopyMethod p) (str_or planType ''cold''),
               st_dataCopyStart = when_some (bool_or (so_dataCopyStartTime so)) (only_truthy (fv_dataCopyStartTime p)),
               st_vmCutoverStart = when_some timeWindow (only_truthy (fv_cutoverStartTime p)),
               st_vmCutoverEnd = when_some timeWindow (only_truthy (fv_cutoverEndTime p)),
               st_adminInitiatedCutOver =
                 Some (bool_or (so_cutoverOption so) \<and> fv_cutoverOption p = Some CUTOVER_ADMIN_INITIATED),
               st_performHealthChecks = None, st_healthCheckPort = None,
               st_disconnectSourceNetwork = Some (bool_or (fv_disconnectSourceNetwork p)),
               st_dataOnly = Some (bool_or (fv_dataOnly p)) \<rparr>,
           rp_securityGroups = (if nonempty_opt (fv_securityGroups p) then fv_securityGroups p else None),
           rp_serverGroup = only_truthy (fv_serverGroup p),
           rp_fallbackToDHCP = bool_or (fv_fallbackToDHCP p),
           rp_preserveSourceTags = bool_or (fv_preserveSourceTags p),
           rp_customMetadata = customMetadataToRecord (fv_customMetadata p),
           rp_firstBootScript = when_some (bool_or (so_postMigrationScript so)) (only_truthy (fv_postMigrationScript p)),
           rp_postMigrationAction = when_some (so_postMigrationAction so \<noteq> None) (fv_postMigrationAction p),
           rp_networkOverridesPerVM = (if length (obj_keys overrides) > 0 then Some overrides else None),
           rp_advancedOptions = no_advanced
             \<lparr> ao_periodicSyncEnabled := Some (bool_or (so_periodicSyncEnabled so)),
               ao_periodicSyncInterval := only_truthy (fv_periodicSyncInterval p),
               ao_networkPersistence := Some (bool_or (fv_networkPersistence p)),
               ao_removeVMwareTools := Some (bool_or (fv_removeVMwareTools p)),
               ao_acknowledgeNetworkConflictRisk := Some (bool_or (fv_acknowledgeNetworkConflictRisk p)),
               ao_imageProfiles := (if nonempty_opt (fv_imageProfiles p) then fv_imageProfiles p else None) \<rparr> \<rparr>)"

section \<open>A retry that changes nothing\<close>

text \<open>The form as the retry drawer opens, and the plan as the form reads it: what the retry means to repeat.\<close>

definition retry_form :: "RetryFormStateInput \<Rightarrow> FormValues" where
  "retry_form i = updateParams (rf_params (buildRetryFormState i)) defaultValues"

definition retry_selected :: "RetryFormStateInput \<Rightarrow> SelectedMigrationOptions" where
  "retry_selected i = updateSelectedOptions (rf_selectedOptions (buildRetryFormState i)) DEFAULT_MIGRATION_OPTIONS"

definition plan_meaning :: "MigrationPlanSpec \<Rightarrow> RetryPlanSpec" where
  "plan_meaning spec =
     (let st = ps_migrationStrategy spec; adv = ps_advancedOptions spec;
          admin = bool_or (opt_get st_adminInitiatedCutOver st)
      in \<lparr> rp_migrationStrategy =
             \<lparr> st_type = str_or (map_option st_type st) ''cold'',
               st_dataCopyStart = retry_time (opt_get st_dataCopyStart st),
               st_vmCutoverStart = when_some (\<not> admin) (retry_time (opt_get st_vmCutoverStart st)),
               st_vmCutoverEnd = when_some (\<not> admin) (retry_time (opt_get st_vmCutoverEnd st)),
               st_adminInitiatedCutOver = Some admin,
               st_performHealthChecks = opt_get st_performHealthChecks st, st_healthCheckPort = opt_get st_healthCheckPort st,
               st_disconnectSourceNetwork = Some (bool_or (opt_get st_disconnectSourceNetwork st)),
               st_dataOnly = Some (bool_or (opt_get st_dataOnly st)) \<rparr>,
           rp_securityGroups = (if nonempty_opt (ps_securityGroups spec) then ps_securityGroups spec else None),
           rp_serverGroup = only_truthy (ps_serverGroup spec),
           rp_fallbackToDHCP = bool_or (ps_fallbackToDHCP spec),
           rp_preserveSourceTags = bool_or (ps_preserveSourceTags spec),
           rp_customMetadata = (if nonempty_opt (ps_customMetadata spec) then ps_customMetadata spec else None),
           rp_firstBootScript = retry_script spec,
           rp_postMigrationAction = ps_postMigrationAction spec,
           rp_networkOverridesPerVM = None,
           rp_advancedOptions =
             \<lparr> ao_granularVolumeTypes = opt_get ao_granularVolumeTypes adv, ao_granularNetworks = opt_get ao_granularNetworks adv,
               ao_granularPorts = opt_get ao_granularPorts adv,
               ao_periodicSyncInterval = only_truthy (opt_get ao_periodicSyncInterval adv),
               ao_periodicSyncEnabled = Some (bool_or (opt_get ao_periodicSyncEnabled adv)),
               ao_networkPersistence = Some (bool_or (opt_get ao_networkPersistence adv)),
               ao_removeVMwareTools = Some (bool_or (opt_get ao_removeVMwareTools adv)),
               ao_acknowledgeNetworkConflictRisk = Some (bool_or (opt_get ao_acknowledgeNetworkConflictRisk adv)),
               ao_imageProfiles = (let ps = opt_get ao_imageProfiles adv in if nonempty_opt ps then ps else None) \<rparr> \<rparr>)"

text \<open>What a retry loses of the meaning of the plan: the health checks and the granular lists, which the form of the retry does
  not hold; and a plan that does not say whether the VMware tools are removed has them removed.\<close>

definition lost_in_retry :: "MigrationPlanSpec \<Rightarrow> RetryPlanSpec \<Rightarrow> RetryPlanSpec" where
  "lost_in_retry spec meaning = meaning
     \<lparr> rp_migrationStrategy := rp_migrationStrategy meaning \<lparr> st_performHealthChecks := None, st_healthCheckPort := None \<rparr>,
       rp_advancedOptions := rp_advancedOptions meaning
         \<lparr> ao_granularVolumeTypes := None, ao_granularNetworks := None, ao_granularPorts := None,
           ao_removeVMwareTools := Some (opt_get ao_removeVMwareTools (ps_advancedOptions spec) \<noteq> Some False) \<rparr> \<rparr>"

definition metadata_trimmed :: "string sobj option \<Rightarrow> bool" where
  "metadata_trimmed m = (metadata_ok m \<and> list_all (\<lambda>(k, v). js_trim v = v) (list_or m))"

lemma merge_opt_simps [simp]:
  "merge_opt (Some x) y = Some x" "merge_opt None y = y" "merge_opt p None = p"
  by (auto simp: merge_opt_def split: option.split)

lemma retry_time_truthy [simp]: "only_truthy (retry_time t) = retry_time t"
  by (cases t) (simp_all add: retry_time_def isSetTime_def)

lemma retry_time_None: "retry_time t = None \<longleftrightarrow> \<not> isSetTime t"
  by (cases t) (simp_all add: retry_time_def isSetTime_def)

lemma retry_time_unset [simp]: "\<not> isSetTime t \<Longrightarrow> retry_time t = None"
  by (simp add: retry_time_None)

lemma retry_script_truthy [simp]: "only_truthy (retry_script s) = retry_script s"
  by (auto simp: retry_script_def only_truthy_def)

lemma retry_script_None: "\<not> str_truthy (retry_script s) \<longleftrightarrow> retry_script s = None"
  by (cases "ps_firstBootScript s") (auto simp: retry_script_def)

lemma only_truthy_default [simp]: "only_truthy (Some (default_to [] v)) = only_truthy v"
  by (cases v) (simp_all add: default_to_def)

lemma only_truthy_idem [simp]: "only_truthy (only_truthy v) = only_truthy v"
  by (simp add: only_truthy_def)

definition only_filled :: "'a list option \<Rightarrow> 'a list option" where
  "only_filled v = (if nonempty_opt v then v else None)"

lemma only_filled_simps [simp]: "only_filled (Some (list_or v)) = only_filled v" "only_filled (only_filled v) = only_filled v"
  by (cases v; simp add: only_filled_def)+

lemma metadata_rows_record:
  assumes "metadata_trimmed m"
  shows "customMetadataToRecord (if nonempty_opt m then Some (map (\<lambda>(k, v). \<lparr> kv_key = k, kv_value = v \<rparr>) (list_or m)) else None) =
         (if nonempty_opt m then m else None)"
proof (cases "nonempty_opt m")
  case True
  then obtain n where n: "m = Some n" "n \<noteq> []" by (cases m) auto
  have rows: "map (\<lambda>(k, v). \<lparr> kv_key = k, kv_value = v \<rparr>) n = customMetadataToRows (Some n)"
    by (simp add: customMetadataToRows_def)
  have "obj_map js_trim n = n"
    using assms n by (auto simp: metadata_trimmed_def list_all_iff obj_map_def intro!: map_idI)
  moreover have "customMetadataToMap (Some (customMetadataToRows (Some n))) = n"
    using assms n rows_of_ok_map [of m] by (simp add: metadata_trimmed_def)
  ultimately show ?thesis
    using n by (simp add: rows customMetadataToRecord_map obj_nonempty_def obj_keys_def)
qed (simp add: customMetadataToRecord_def)

lemma retry_form_simps:
  fixes i :: RetryFormStateInput
  defines "spec \<equiv> mp_spec (ri_plan i)"
  defines "st \<equiv> ps_migrationStrategy spec"
  defines "adv \<equiv> ps_advancedOptions spec"
  shows "fv_dataCopyMethod (retry_form i) = Some (str_or (map_option st_type st) ''cold'')"
    "fv_dataCopyStartTime (retry_form i) = retry_time (opt_get st_dataCopyStart st)"
    "fv_cutoverOption (retry_form i) = Some (retry_cutover st)"
    "fv_cutoverStartTime (retry_form i) = retry_time (opt_get st_vmCutoverStart st)"
    "fv_cutoverEndTime (retry_form i) = retry_time (opt_get st_vmCutoverEnd st)"
    "fv_disconnectSourceNetwork (retry_form i) = Some (bool_or (opt_get st_disconnectSourceNetwork st))"
    "fv_dataOnly (retry_form i) = Some (bool_or (opt_get st_dataOnly st))"
    "fv_securityGroups (retry_form i) = Some (list_or (ps_securityGroups spec))"
    "fv_serverGroup (retry_form i) = Some (default_to [] (ps_serverGroup spec))"
    "fv_fallbackToDHCP (retry_form i) = Some (bool_or (ps_fallbackToDHCP spec))"
    "fv_preserveSourceTags (retry_form i) = Some (bool_or (ps_preserveSourceTags spec))"
    "fv_customMetadata (retry_form i) = (if nonempty_opt (ps_customMetadata spec)
        then Some (map (\<lambda>(k, v). \<lparr> kv_key = k, kv_value = v \<rparr>) (list_or (ps_customMetadata spec))) else None)"
    "fv_postMigrationScript (retry_form i) = retry_script spec"
    "fv_postMigrationAction (retry_form i) = ps_postMigrationAction spec"
    "fv_periodicSyncInterval (retry_form i) = only_truthy (opt_get ao_periodicSyncInterval adv)"
    "fv_networkPersistence (retry_form i) = opt_get ao_networkPersistence adv"
    "fv_removeVMwareTools (retry_form i) = merge_opt (opt_get ao_removeVMwareTools adv) (Some True)"
    "fv_acknowledgeNetworkConflictRisk (retry_form i) = opt_get ao_acknowledgeNetworkConflictRisk adv"
    "fv_imageProfiles (retry_form i) = (let ps = opt_get ao_imageProfiles adv in if nonempty_opt ps then ps else None)"
    "fv_vms (retry_form i) = Some [ri_vmData i]"
    "fv_arrayCredsMappings (retry_form i) = None"
    "fv_networkMappings (retry_form i) = Some (ri_networkMappings i)"
    "fv_storageMappings (retry_form i) = Some (ri_storageMappings i)"
    "fv_storageCopyMethod (retry_form i) = Some (str_or (ts_storageCopyMethod (mt_spec (ri_template i))) ''normal'')"
  by (simp_all add: retry_form_def buildRetryFormState_def updateParams_def retry_params_def defaultValues_def
      empty_form_def Let_def spec_def st_def adv_def)

lemma retry_selected_simps:
  fixes i :: RetryFormStateInput
  defines "spec \<equiv> mp_spec (ri_plan i)"
  defines "st \<equiv> ps_migrationStrategy spec"
  shows "so_dataCopyStartTime (retry_selected i) = Some (isSetTime (opt_get st_dataCopyStart st))"
    "so_cutoverOption (retry_selected i) = Some (retry_cutover st \<noteq> CUTOVER_IMMEDIATE)"
    "so_postMigrationScript (retry_selected i) = Some (str_truthy (retry_script spec))"
    "so_periodicSyncEnabled (retry_selected i) = Some (bool_or (opt_get ao_periodicSyncEnabled (ps_advancedOptions spec)))"
    "so_postMigrationAction (retry_selected i) \<noteq> None"
  by (simp_all add: retry_selected_def buildRetryFormState_def updateSelectedOptions_def retry_options_def
      DEFAULT_MIGRATION_OPTIONS_def no_selection_def Let_def spec_def st_def merge_opt_def split: option.split)

lemma retry_form_means:
  assumes "metadata_trimmed (ps_customMetadata (mp_spec (ri_plan i)))"
  shows "(buildRetryPlanSpec (retry_form i) (retry_selected i) retryPlan) \<lparr> rp_networkOverridesPerVM := None \<rparr> =
           lost_in_retry (mp_spec (ri_plan i)) (plan_meaning (mp_spec (ri_plan i)))"
proof -
  let ?spec = "mp_spec (ri_plan i)"
  let ?st = "ps_migrationStrategy ?spec"
  have type: "str_or (Some (str_or (map_option st_type ?st) ''cold'')) d = str_or (map_option st_type ?st) ''cold''" for d
    by (auto simp: str_or_def split: option.splits)
  have cut: "retry_cutover ?st = CUTOVER_ADMIN_INITIATED \<longleftrightarrow> bool_or (opt_get st_adminInitiatedCutOver ?st)"
    "retry_cutover ?st = CUTOVER_TIME_WINDOW \<longleftrightarrow> \<not> bool_or (opt_get st_adminInitiatedCutOver ?st) \<and>
       (isSetTime (opt_get st_vmCutoverStart ?st) \<or> isSetTime (opt_get st_vmCutoverEnd ?st))"
    "CUTOVER_TIME_WINDOW \<noteq> CUTOVER_IMMEDIATE" "CUTOVER_ADMIN_INITIATED \<noteq> CUTOVER_IMMEDIATE"
    by (auto simp: retry_cutover_def cutover_defs)
  have admin: "(retry_cutover ?st \<noteq> CUTOVER_IMMEDIATE \<and> retry_cutover ?st = CUTOVER_ADMIN_INITIATED) =
      bool_or (opt_get st_adminInitiatedCutOver ?st)"
    using cut by metis
  have window: "when_some (retry_cutover ?st \<noteq> CUTOVER_IMMEDIATE \<and> retry_cutover ?st = CUTOVER_TIME_WINDOW) (retry_time t) =
      when_some (\<not> bool_or (opt_get st_adminInitiatedCutOver ?st)) (retry_time t)"
    if "t \<in> {opt_get st_vmCutoverStart ?st, opt_get st_vmCutoverEnd ?st}" for t
    using that cut by (auto simp: when_some_def)
  have copy: "when_some (isSetTime t) (retry_time t) = retry_time t" for t
    by (simp add: when_some_def retry_time_None)
  have script: "when_some (str_truthy (retry_script ?spec)) (retry_script ?spec) = retry_script ?spec"
    using retry_script_None by (auto simp: when_some_def)
  have action: "when_some (so_postMigrationAction (retry_selected i) \<noteq> None) x = x" for x :: "PostMigrationAction option"
    using retry_selected_simps(5) by (simp add: when_some_def)
  have tools: "bool_or (merge_opt x (Some True)) = (x \<noteq> Some False)" for x
    by (cases x) (auto simp: merge_opt_def)
  show ?thesis
    unfolding buildRetryPlanSpec_def plan_meaning_def lost_in_retry_def Let_def only_filled_def [symmetric]
    by (simp add: retry_form_simps retry_selected_simps(1-4) type copy script action admin window
        metadata_rows_record [OF assms(1), folded only_filled_def] tools only_filled_def [symmetric] Let_def no_advanced_def
        del: str_or_nil_eq not_None_eq only_truthy_simps nonempty_opt_simps)
qed

text \<open>a retry submitted without any edit repeats the failed plan: the strategy, the schedule, the groups, the
  metadata, the script, the action and the advanced options are those of the plan, with the times that were
  never set and the empty values left out, except for what a retry loses.\<close>

theorem retry_unchanged_repeats_plan:
  assumes "metadata_trimmed (ps_customMetadata (mp_spec (ri_plan i)))"
  shows "(buildRetryPlanSpec (retry_form i) (retry_selected i) retryPlan) \<lparr> rp_networkOverridesPerVM := None \<rparr> =
           lost_in_retry (mp_spec (ri_plan i)) (plan_meaning (mp_spec (ri_plan i)))"
  using assms by (rule retry_form_means)

definition sample_retry_spec :: MigrationPlanSpec where
  "sample_retry_spec = createMigrationPlanJson (migrationFields sample_submit ''template'')
     \<lparr> ps_advancedOptions := Some (no_advanced \<lparr> ao_removeVMwareTools := Some False \<rparr>),
       ps_customMetadata := Some [(''team'', ''infra'')] \<rparr>"

definition sample_template :: MigrationTemplate where
  "sample_template = \<lparr> mt_name = ''template'', mt_spec =
     \<lparr> ts_openstackRef = ''os1'', ts_vmwareRef = ''vc1'', ts_datacenter = Some ''dc1'', ts_networkMapping = ''nm'',
       ts_storageMapping = ''sm'', ts_targetPCDClusterName = Some ''pcd'', ts_useGPUFlavor = None,
       ts_storageCopyMethod = Some ''StorageAcceleratedCopy'', ts_arrayCredsMapping = Some ''old-arrays'',
       ts_proxyVMRef = None, ts_osFamily = None \<rparr> \<rparr>"

definition sample_retry :: RetryFormStateInput where
  "sample_retry =
     \<lparr> ri_plan = \<lparr> mp_name = ''plan'', mp_spec = sample_retry_spec \<rparr>, ri_template = sample_template,
       ri_vmData = blank_vm ''vm-1'' ''web'', ri_clusterName = ''prod'', ri_datacenter = ''dc1'',
       ri_vmwareRef = ''vc1'', ri_openstackRef = ''os1'', ri_networkMappings = [], ri_storageMappings = [],
       ri_pcdData = [(''id1'', Some ''pcd'')] \<rparr>"

theorem retry_unchanged_repeats_plan_witness:
  "(buildRetryPlanSpec (retry_form sample_retry) (retry_selected sample_retry) None) \<lparr> rp_networkOverridesPerVM := None \<rparr> =
     lost_in_retry sample_retry_spec (plan_meaning sample_retry_spec)"
proof -
  have "metadata_trimmed (Some [(''team'', ''infra'')])" by code_simp
  then show ?thesis
    using retry_unchanged_repeats_plan [of sample_retry None] by (simp add: sample_retry_def sample_retry_spec_def)
qed

text \<open>a plan that does not say whether the VMware tools are removed (one that was not made by this form) is
  retried with their removal turned on: the default of the empty form is not replaced.\<close>

theorem retry_turns_on_tools_removal:
  assumes "opt_get ao_removeVMwareTools (ps_advancedOptions (mp_spec (ri_plan i))) = None"
  shows "ao_removeVMwareTools (rp_advancedOptions (buildRetryPlanSpec (retry_form i) (retry_selected i) retryPlan)) = Some True"
  using assms by (simp add: buildRetryPlanSpec_def Let_def retry_form_simps merge_opt_def)

theorem retry_turns_on_tools_removal_witness:
  "ao_removeVMwareTools (rp_advancedOptions (buildRetryPlanSpec
     (retry_form (sample_retry \<lparr> ri_plan := \<lparr> mp_name = ''plan'', mp_spec = sample_retry_spec \<lparr> ps_advancedOptions := None \<rparr> \<rparr> \<rparr>))
     (retry_selected (sample_retry \<lparr> ri_plan := \<lparr> mp_name = ''plan'', mp_spec = sample_retry_spec \<lparr> ps_advancedOptions := None \<rparr> \<rparr> \<rparr>))
     None)) = Some True"
  by (rule retry_turns_on_tools_removal) simp

section \<open>useRetryPrefill: loading the resources\<close>

text \<open>A machine of the inventory, and \<open>mapToVmData\<close> of one machine.\<close>

record VMwareVM =
  vw_name :: string
  vw_vmid :: "string option"
  vw_ipAddress :: "string option"
  vw_networks :: "string list option"
  vw_datastores :: "string list option"
  vw_memory :: int
  vw_cpu :: int
  vw_disks :: "VMwareDiskEntry list option"
  vw_osFamily :: "string option"
  vw_networkInterfaces :: "vm_nic list option"
  vw_clusterName :: "string option"
  vw_assignedIp :: "string option"
  vw_rdmDisks :: "string list option"
  vw_tags :: "string sobj option"
  vw_customAttributes :: "string sobj option"

record VMwareMachine =
  vx_name :: string
  vx_labels :: "string sobj option"
  vx_annotations :: "string sobj option"
  vx_vm :: VMwareVM
  vx_targetFlavorId :: "string option"
  vx_migrated :: bool
  vx_powerState :: string

definition strip_start :: "string \<Rightarrow> string \<Rightarrow> string" where
  "strip_start pre s = (if starts_with s pre then drop (length pre) s else s)"

definition machine_key :: "VMwareVM \<Rightarrow> string" where
  "machine_key vm =
     (if str_truthy (vw_vmid vm) then vw_name vm @ ''-'' @ strip_start ''vm-'' (the (vw_vmid vm)) else vw_name vm)"

definition lookup_label :: "string sobj option \<Rightarrow> string \<Rightarrow> string option" where
  "lookup_label labels key = (case labels of None \<Rightarrow> None | Some m \<Rightarrow> map_of m key)"

definition mapToVmData :: "VMwareMachine \<Rightarrow> VmData" where
  "mapToVmData machine =
     (let vm = vx_vm machine
      in blank_vm (machine_key vm) (vw_name vm)
        \<lparr> vd_vmid := vw_vmid vm, vd_vmKey := Some (machine_key vm),
          vd_vmState := Some (if vx_powerState machine = ''running'' then ''running'' else ''stopped''),
          vd_ipAddress := vw_ipAddress vm,
          vd_networks := Some (list_or (vw_networks vm)),
          vd_datastores := Some (list_or (vw_datastores vm)),
          vd_memory := Some (vw_memory vm), vd_cpuCount := Some (vw_cpu vm),
          vd_isMigrated := Some (vx_migrated machine),
          vd_disks := Some (list_or (vw_disks vm)),
          vd_targetFlavorId := vx_targetFlavorId machine,
          vd_labels := vx_labels machine,
          vd_osFamily := vw_osFamily vm,
          vd_esxHost := Some (str_or (lookup_label (vx_labels machine) ''vjailbreak.k8s.pf9.io/esxi-name'') []),
          vd_vmWareMachineName := Some (vx_name machine),
          vd_networkInterfaces := map_option (map (\<lambda>nic. nic \<lparr> nic_preserve_ip := None, nic_preserve_mac := None \<rparr>))
             (vw_networkInterfaces vm) \<rparr>)"

text \<open>The overrides of the failed plan, put back on the machine.\<close>

definition override_address_nic :: "NetworkOverride \<Rightarrow> vm_nic list \<Rightarrow> vm_nic list" where
  "override_address_nic ov nics =
     (if \<not> no_preserveIP ov \<and> str_truthy (no_UserAssignedIP ov) \<and> no_interfaceIndex ov < length nics
      then nics[no_interfaceIndex ov := (nics ! no_interfaceIndex ov)
                  \<lparr> nic_ips := split_on (CHR '','') (the (no_UserAssignedIP ov)) \<rparr>]
      else nics)"

definition restore_overrides :: "NetworkOverride list option \<Rightarrow> VmData \<Rightarrow> VmData" where
  "restore_overrides overrides vm =
     (if nonempty_opt overrides
      then vm \<lparr> vd_preserveIp := Some (fold (\<lambda>ov m. iobj_set (no_interfaceIndex ov) (no_preserveIP ov) m) (list_or overrides) []),
                vd_preserveMac := Some (fold (\<lambda>ov m. iobj_set (no_interfaceIndex ov) (no_preserveMAC ov) m) (list_or overrides) []),
                vd_networkInterfaces := Some (fold override_address_nic (list_or overrides) (list_or (vd_networkInterfaces vm))) \<rparr>
      else vm)"

record RetryMigrationConfig =
  rg_migrationName :: string
  rg_planName :: string
  rg_vmName :: string

text \<open>What the API server answers: \<open>None\<close> for a resource that is not there or a request that fails.\<close>

record retry_server =
  sv_getMigration :: "string \<Rightarrow> string option option"   \<comment> \<open>the plan the migration names\<close>
  sv_getPlan :: "string \<Rightarrow> MigrationPlan option"
  sv_getTemplate :: "string \<Rightarrow> MigrationTemplate option"
  sv_hasVmwareCreds :: "string \<Rightarrow> bool"
  sv_hasOpenstackCreds :: "string \<Rightarrow> bool"
  sv_getMachine :: "string \<Rightarrow> VMwareMachine option"
  sv_getNetworkMapping :: "string \<Rightarrow> ResourceMap list option"
  sv_getStorageMapping :: "string \<Rightarrow> ResourceMap list option"

record RetryResources =
  rs_plan :: MigrationPlan
  rs_template :: MigrationTemplate
  rs_vmData :: VmData
  rs_machineName :: string
  rs_clusterName :: string
  rs_datacenter :: string
  rs_vmwareRef :: string
  rs_openstackRef :: string
  rs_networkMappings :: "ResourceMap list"
  rs_storageMappings :: "ResourceMap list"

datatype retry_error =
    MigrationGone string | PlanGone string | TemplateGone string | VmwareCredsGone string
  | OpenstackCredsGone string | MachineGone string

fun in_quotes :: "string \<Rightarrow> string" where
  "in_quotes s = [CHR 0x22] @ s @ [CHR 0x22]"

fun retry_message :: "retry_error \<Rightarrow> string" where
  "retry_message (MigrationGone n) = ''Migration '' @ in_quotes n @ '' no longer exists. Refresh the migrations list.''"
| "retry_message (PlanGone n) = ''Migration plan '' @ in_quotes n @ '' no longer exists; this migration cannot be retried.''"
| "retry_message (TemplateGone n) = ''Migration template '' @ in_quotes n @
     '' referenced by the plan no longer exists; this migration cannot be retried.''"
| "retry_message (VmwareCredsGone n) = ''VMware credentials '' @ in_quotes n @
     '' used by this migration no longer exist. Restore them before retrying.''"
| "retry_message (OpenstackCredsGone n) = ''OpenStack credentials '' @ in_quotes n @
     '' used by this migration no longer exist. Restore them before retrying.''"
| "retry_message (MachineGone n) = ''Source VM '' @ in_quotes n @
     '' is no longer present in the inventory; this migration cannot be retried.''"

text \<open>The resources of a migration whose parts are all there.\<close>

definition retry_resources ::
  "retry_server \<Rightarrow> string \<Rightarrow> MigrationPlan \<Rightarrow> MigrationTemplate \<Rightarrow> VMwareMachine \<Rightarrow> RetryResources" where
  "retry_resources srv machineName plan template machine =
     (let tspec = mt_spec template; raw = mapToVmData machine;
          vmKey = vm_plan_key raw;
          overrides = (case ps_networkOverridesPerVM (mp_spec plan) of None \<Rightarrow> None | Some m \<Rightarrow> map_of m vmKey);
          dc = lookup_label (vx_annotations machine) ''vjailbreak.k8s.pf9.io/datacenter''
      in \<lparr> rs_plan = plan, rs_template = template, rs_vmData = restore_overrides overrides raw,
           rs_machineName = machineName, rs_clusterName = str_or (vw_clusterName (vx_vm machine)) [],
           rs_datacenter = (if str_truthy dc then the dc else str_or (ts_datacenter tspec) []),
           rs_vmwareRef = ts_vmwareRef tspec, rs_openstackRef = ts_openstackRef tspec,
           rs_networkMappings = (if ts_networkMapping tspec = [] then []
                                 else list_or (sv_getNetworkMapping srv (ts_networkMapping tspec))),
           rs_storageMappings = (if ts_storageMapping tspec = [] then []
                                 else list_or (sv_getStorageMapping srv (ts_storageMapping tspec))) \<rparr>)"

definition load_retry :: "retry_server \<Rightarrow> RetryMigrationConfig \<Rightarrow> retry_error + RetryResources" where
  "load_retry srv cfg =
     (case sv_getMigration srv (rg_migrationName cfg) of None \<Rightarrow> Inl (MigrationGone (rg_migrationName cfg))
      | Some planRef \<Rightarrow>
      (let planName = (if str_truthy planRef then the planRef else rg_planName cfg)
       in case sv_getPlan srv planName of None \<Rightarrow> Inl (PlanGone planName)
      | Some plan \<Rightarrow>
      (let templateName = ps_migrationTemplate (mp_spec plan)
       in case (if templateName = [] then None else sv_getTemplate srv templateName) of None \<Rightarrow> Inl (TemplateGone templateName)
      | Some template \<Rightarrow>
      (let vmwareRef = ts_vmwareRef (mt_spec template); openstackRef = ts_openstackRef (mt_spec template);
           machineName = strip_start ''migration-'' (rg_migrationName cfg)
       in if vmwareRef = [] \<or> \<not> sv_hasVmwareCreds srv vmwareRef then Inl (VmwareCredsGone vmwareRef)
          else if openstackRef = [] \<or> \<not> sv_hasOpenstackCreds srv openstackRef then Inl (OpenstackCredsGone openstackRef)
          else (case sv_getMachine srv machineName of
                  None \<Rightarrow> Inl (MachineGone (rg_vmName cfg))
                | Some machine \<Rightarrow> Inr (retry_resources srv machineName plan template machine))))))"

section \<open>useRetryPrefill: filling the form\<close>

record retry_ui =
  ru_params :: FormValues
  ru_selected :: SelectedMigrationOptions
  ru_rhf :: MigrationDrawerRHFValues
  ru_template :: "MigrationTemplate option"

definition resources_input :: "RetryResources \<Rightarrow> (string \<times> string option) list \<Rightarrow> RetryFormStateInput" where
  "resources_input r pcdData =
     \<lparr> ri_plan = rs_plan r, ri_template = rs_template r, ri_vmData = rs_vmData r, ri_clusterName = rs_clusterName r,
       ri_datacenter = rs_datacenter r, ri_vmwareRef = rs_vmwareRef r, ri_openstackRef = rs_openstackRef r,
       ri_networkMappings = rs_networkMappings r, ri_storageMappings = rs_storageMappings r, ri_pcdData = pcdData \<rparr>"

text \<open>The effect runs whenever the loaded resources or the catalogue of clusters change.\<close>

definition retry_prefill_effect ::
  "RetryResources option \<Rightarrow> (string \<times> string option) list \<Rightarrow> retry_ui \<Rightarrow> retry_ui" where
  "retry_prefill_effect data pcdData s =
     (case data of
        None \<Rightarrow> s
      | Some r \<Rightarrow>
          (let f = buildRetryFormState (resources_input r pcdData)
           in \<lparr> ru_params = updateParams (rf_params f) (ru_params s),
                ru_selected = updateSelectedOptions (rf_selectedOptions f) (ru_selected s),
                ru_rhf = rf_formDefaults f, ru_template = Some (rs_template r) \<rparr>))"

section \<open>What a retry keeps of the overrides\<close>

lemma find_fresh: "f x \<notin> f ` set xs \<Longrightarrow> find (\<lambda>y. f y = f x) xs = None"
  by (induction xs) auto

lemma map_of_iobj_fold:
  "distinct (map no_interfaceIndex ovs) \<Longrightarrow>
   map_of (fold (\<lambda>ov m. iobj_set (no_interfaceIndex ov) (f ov) m) ovs m) i =
     (case find (\<lambda>ov. no_interfaceIndex ov = i) ovs of None \<Rightarrow> map_of m i | Some ov \<Rightarrow> Some (f ov))"
proof (induction ovs arbitrary: m)
  case (Cons ov ovs)
  have "find (\<lambda>x. no_interfaceIndex x = no_interfaceIndex ov) ovs = None"
    using Cons.prems by (simp add: find_fresh)
  with Cons show ?case by (auto split: option.split)
qed simp

lemma length_override_nics [simp]: "length (fold override_address_nic ovs nics) = length nics"
  by (induction ovs arbitrary: nics) (simp_all add: override_address_nic_def)

lemma override_nics_nth:
  "distinct (map no_interfaceIndex ovs) \<Longrightarrow> i < length nics \<Longrightarrow>
   fold override_address_nic ovs nics ! i =
     (case find (\<lambda>ov. no_interfaceIndex ov = i) ovs of
        None \<Rightarrow> nics ! i
      | Some ov \<Rightarrow> (if \<not> no_preserveIP ov \<and> str_truthy (no_UserAssignedIP ov)
                   then (nics ! i) \<lparr> nic_ips := split_on (CHR '','') (the (no_UserAssignedIP ov)) \<rparr> else nics ! i))"
proof (induction ovs arbitrary: nics)
  case (Cons ov ovs)
  have "find (\<lambda>x. no_interfaceIndex x = no_interfaceIndex ov) ovs = None"
    using Cons.prems by (simp add: find_fresh)
  with Cons show ?case by (auto simp: override_address_nic_def nth_list_update split: option.split)
qed simp

text \<open>An address as the form writes it: trimmed, not empty, without a comma.\<close>

definition plain_address :: "string \<Rightarrow> bool" where
  "plain_address ip = (ip \<noteq> [] \<and> js_trim ip = ip \<and> CHR '','' \<notin> set ip)"

lemma plain_addresses_kept: "list_all plain_address ips \<Longrightarrow> nic_assigned (nic \<lparr> nic_ips := ips \<rparr>) = ips"
  by (induction ips) (auto simp: nic_assigned_def plain_address_def)

text \<open>
  An override as a submit writes it, on the interfaces of the inventory: an address only where the preservation is
  off and the machine still has the interface; the addresses trimmed and joined by commas.
\<close>

definition override_written :: "vm_nic list \<Rightarrow> NetworkOverride \<Rightarrow> bool" where
  "override_written nics ov =
     (case no_UserAssignedIP ov of
        None \<Rightarrow> True
      | Some a \<Rightarrow> \<not> no_preserveIP ov \<and> no_interfaceIndex ov < length nics \<and> a \<noteq> [] \<and>
                  list_all plain_address (split_on (CHR '','') a) \<and> a = js_join '','' (split_on (CHR '','') a))"

text \<open>An override after the retry: the same, but for one that neither preserves nor assigns an address, which is given
  the address that the inventory knows.\<close>

definition retried_override :: "vm_nic list \<Rightarrow> NetworkOverride \<Rightarrow> NetworkOverride" where
  "retried_override nics ov =
     (let i = no_interfaceIndex ov
      in if \<not> no_preserveIP ov \<and> no_UserAssignedIP ov = None \<and> i < length nics \<and> nic_assigned (nics ! i) \<noteq> []
         then ov \<lparr> no_UserAssignedIP := Some (js_join '','' (nic_assigned (nics ! i))) \<rparr> else ov)"

lemma retried_override_simps [simp]:
  "no_interfaceIndex (retried_override nics ov) = no_interfaceIndex ov"
  "no_preserveIP (retried_override nics ov) = no_preserveIP ov"
  "no_preserveMAC (retried_override nics ov) = no_preserveMAC ov"
  by (simp_all add: retried_override_def Let_def)

definition default_override :: "nat \<Rightarrow> NetworkOverride" where
  "default_override i = \<lparr> no_interfaceIndex = i, no_preserveIP = True, no_preserveMAC = True, no_UserAssignedIP = None \<rparr>"

definition restored_nics :: "NetworkOverride list \<Rightarrow> VmData \<Rightarrow> vm_nic list" where
  "restored_nics ovs vm = fold override_address_nic ovs (list_or (vd_networkInterfaces vm))"

lemma length_restored [simp]: "length (restored_nics ovs vm) = length (list_or (vd_networkInterfaces vm))"
  by (simp add: restored_nics_def)

lemma restored_fields:
  assumes "ovs \<noteq> []" "distinct (map no_interfaceIndex ovs)"
  shows "map_of (list_or (vd_preserveIp (restore_overrides (Some ovs) vm))) i =
           map_option no_preserveIP (find (\<lambda>ov. no_interfaceIndex ov = i) ovs)"
    and "map_of (list_or (vd_preserveMac (restore_overrides (Some ovs) vm))) i =
           map_option no_preserveMAC (find (\<lambda>ov. no_interfaceIndex ov = i) ovs)"
    and "vd_networkInterfaces (restore_overrides (Some ovs) vm) = Some (restored_nics ovs vm)"
  using assms
  by (simp_all add: restore_overrides_def restored_nics_def map_of_iobj_fold [OF assms(2)] nonempty_opt_def split: option.split)

lemma restored_assigned:
  assumes "distinct (map no_interfaceIndex ovs)" "i < length (list_or (vd_networkInterfaces vm))"
  shows "nic_assigned (restored_nics ovs vm ! i) =
     (case find (\<lambda>ov. no_interfaceIndex ov = i) ovs of
        None \<Rightarrow> nic_assigned (list_or (vd_networkInterfaces vm) ! i)
      | Some ov \<Rightarrow> (if \<not> no_preserveIP ov \<and> str_truthy (no_UserAssignedIP ov)
                   then nic_assigned ((list_or (vd_networkInterfaces vm) ! i)
                          \<lparr> nic_ips := split_on (CHR '','') (the (no_UserAssignedIP ov)) \<rparr>)
                   else nic_assigned (list_or (vd_networkInterfaces vm) ! i)))"
  using override_nics_nth [OF assms] by (simp add: restored_nics_def split: option.split)

lemma override_at_restored:
  assumes ovs: "ovs \<noteq> []" "distinct (map no_interfaceIndex ovs)"
    and ok: "list_all (override_written (list_or (vd_networkInterfaces vm))) ovs"
  shows "override_at (restore_overrides (Some ovs) vm) i =
     (case find (\<lambda>ov. no_interfaceIndex ov = i) ovs of
        None \<Rightarrow> default_override i | Some ov \<Rightarrow> retried_override (list_or (vd_networkInterfaces vm)) ov)"
proof (cases "find (\<lambda>ov. no_interfaceIndex ov = i) ovs")
  case None
  then show ?thesis
    by (simp add: override_at_def restored_fields [OF ovs] default_override_def)
next
  case (Some ov)
  then have ov: "ov \<in> set ovs" "no_interfaceIndex ov = i" by (auto dest: find_SomeD)
  with ok have r: "override_written (list_or (vd_networkInterfaces vm)) ov" by (simp add: list_all_iff)
  have "no_UserAssignedIP (override_at (restore_overrides (Some ovs) vm) i) =
      no_UserAssignedIP (retried_override (list_or (vd_networkInterfaces vm)) ov)"
  proof (cases "no_UserAssignedIP ov")
    case N: None
    then show ?thesis using r ov Some
      by (auto simp: override_address restored_fields [OF ovs] map_of_nicAssignedIps
          restored_assigned [OF ovs(2)] retried_override_def Let_def)
  next
    case A: (Some a)
    with r ov have a: "\<not> no_preserveIP ov" "i < length (list_or (vd_networkInterfaces vm))" "a \<noteq> []"
      "list_all plain_address (split_on (CHR '','') a)" "js_join '','' (split_on (CHR '','') a) = a"
      by (auto simp: override_written_def)
    have "nic_assigned (restored_nics ovs vm ! i) = split_on (CHR '','') a"
      using a A Some by (simp add: restored_assigned [OF ovs(2)] plain_addresses_kept)
    then show ?thesis using a A Some
      by (simp add: override_address restored_fields [OF ovs] map_of_nicAssignedIps length_restored retried_override_def Let_def)
  qed
  moreover have "no_preserveIP (override_at (restore_overrides (Some ovs) vm) i) = no_preserveIP ov"
    "no_preserveMAC (override_at (restore_overrides (Some ovs) vm) i) = no_preserveMAC ov"
    by (simp_all add: restored_fields [OF ovs] Some)
  ultimately have "override_at (restore_overrides (Some ovs) vm) i = retried_override (list_or (vd_networkInterfaces vm)) ov"
    using ov by (intro NetworkOverride.equality) (simp_all del: override_at_simps(2,3))
  then show ?thesis using Some by simp
qed

lemma retry_overrides_set:
  assumes "ovs \<noteq> []" "distinct (map no_interfaceIndex ovs)"
    and "list_all (override_written (list_or (vd_networkInterfaces vm))) ovs"
  shows "set (vm_overrides (restore_overrides (Some ovs) vm)) =
     retried_override (list_or (vd_networkInterfaces vm)) ` set ovs \<union> default_override ` {i. i < length (list_or (vd_networkInterfaces vm)) \<and>
                 nic_assigned (list_or (vd_networkInterfaces vm) ! i) \<noteq> [] \<and> i \<notin> no_interfaceIndex ` set ovs}"
proof -
  let ?vm = "restore_overrides (Some ovs) vm"
  let ?nics = "list_or (vd_networkInterfaces vm)"
  have found: "find (\<lambda>x. no_interfaceIndex x = no_interfaceIndex ov) ovs = Some ov" if "ov \<in> set ovs" for ov
    using find_distinct [OF assms(2) that] .
  have none: "find (\<lambda>x. no_interfaceIndex x = i) ovs = None \<longleftrightarrow> i \<notin> no_interfaceIndex ` set ovs" for i
    by (auto simp: find_None_iff)
  have keys: "i \<in> set (override_indices ?vm) \<longleftrightarrow>
      i \<in> no_interfaceIndex ` set ovs \<or> i < length ?nics \<and> nic_assigned (?nics ! i) \<noteq> []" for i
  proof -
    have "i \<in> set (obj_keys m) \<longleftrightarrow> map_of m i \<noteq> None" for m :: "'v iobj"
      by (simp add: obj_keys_def map_of_eq_None_iff)
    note key = this
    have "i \<in> set (override_indices ?vm) \<longleftrightarrow> i \<in> no_interfaceIndex ` set ovs \<or>
        i < length ?nics \<and> nic_assigned (restored_nics ovs vm ! i) \<noteq> []"
      by (simp add: override_indices_def key restored_fields [OF assms(1,2)] none map_of_nicAssignedIps del: not_None_eq)
        blast
    moreover have "nic_assigned (restored_nics ovs vm ! i) = nic_assigned (?nics ! i)"
      if "i < length ?nics" "i \<notin> no_interfaceIndex ` set ovs"
      using that restored_assigned [OF assms(2) that(1)] none [of i] by simp
    ultimately show ?thesis by metis
  qed
  have keys_set: "set (override_indices ?vm) =
      {i. i \<in> no_interfaceIndex ` set ovs \<or> i < length ?nics \<and> nic_assigned (?nics ! i) \<noteq> []}"
    using keys by blast
  have "set (vm_overrides ?vm) = override_at ?vm ` set (override_indices ?vm)"
    by (simp add: vm_overrides_def)
  also have "\<dots> = (\<lambda>i. case find (\<lambda>ov. no_interfaceIndex ov = i) ovs of
        None \<Rightarrow> default_override i | Some ov \<Rightarrow> retried_override ?nics ov) `
      {i. i \<in> no_interfaceIndex ` set ovs \<or> i < length ?nics \<and> nic_assigned (?nics ! i) \<noteq> []}"
    unfolding keys_set by (simp add: override_at_restored [OF assms])
  also have "\<dots> = retried_override ?nics ` set ovs \<union> default_override ` {i. i < length ?nics \<and> nic_assigned (?nics ! i) \<noteq> [] \<and>
      i \<notin> no_interfaceIndex ` set ovs}" (is "?f ` _ = _ \<union> default_override ` ?S")
  proof -
    have kept: "?f ` no_interfaceIndex ` set ovs = retried_override ?nics ` set ovs"
      by (simp add: image_image found cong: image_cong)
    have others: "?f ` ?S = default_override ` ?S"
      by (rule image_cong [OF refl]) (simp add: none [THEN iffD2])
    have split: "{i. i \<in> no_interfaceIndex ` set ovs \<or> i < length ?nics \<and> nic_assigned (?nics ! i) \<noteq> []} =
        no_interfaceIndex ` set ovs \<union> ?S"
      by blast
    show ?thesis unfolding split image_Un kept others ..
  qed
  finally show ?thesis .
qed

text \<open>C16: the overrides of the failed plan survive the retry with one exception: the machine that the retry opens has, as its
  overrides, exactly those of the plan, where one that neither preserved nor assigned an address now assigns the address of
  the inventory, if there is one; and beside them only overrides that preserve everything, for the other interfaces the
  inventory knows an address of. The plan has at least one override for the machine, at most one for an interface, and those
  with an address are as a submit writes them, for interfaces the machine still has.\<close>

theorem retry_overrides_roundtrip:
  assumes "ovs \<noteq> []" "distinct (map no_interfaceIndex ovs)"
    and "list_all (override_written (list_or (vd_networkInterfaces vm))) ovs"
  shows "set (vm_overrides (restore_overrides (Some ovs) vm)) =
     retried_override (list_or (vd_networkInterfaces vm)) ` set ovs \<union> default_override ` {i. i < length (list_or (vd_networkInterfaces vm)) \<and>
                 nic_assigned (list_or (vd_networkInterfaces vm) ! i) \<noteq> [] \<and> i \<notin> no_interfaceIndex ` set ovs}"
  using assms by (rule retry_overrides_set)

definition retry_nic :: "string \<Rightarrow> string list \<Rightarrow> vm_nic" where
  "retry_nic mac ips = \<lparr> nic_mac = mac, nic_network = ''VM Network'', nic_ips = ips, nic_preserve_ip = None,
     nic_preserve_mac = None \<rparr>"

definition sample_retry_vm :: VmData where
  "sample_retry_vm = (blank_vm ''web-12'' ''web'') \<lparr> vd_networkInterfaces :=
     Some [retry_nic ''m0'' [''10.0.0.4''], retry_nic ''m1'' [''10.0.0.5''], retry_nic ''m2'' []] \<rparr>"

definition sample_overrides :: "NetworkOverride list" where
  "sample_overrides =
     [\<lparr> no_interfaceIndex = 1, no_preserveIP = False, no_preserveMAC = False, no_UserAssignedIP = Some ''10.9.0.1,10.9.0.2'' \<rparr>]"

theorem retry_overrides_roundtrip_witness:
  "set (vm_overrides (restore_overrides (Some sample_overrides) sample_retry_vm)) =
     {\<lparr> no_interfaceIndex = 1, no_preserveIP = False, no_preserveMAC = False, no_UserAssignedIP = Some ''10.9.0.1,10.9.0.2'' \<rparr>,
      default_override 0}"
proof -
  have ok: "list_all (override_written (list_or (vd_networkInterfaces sample_retry_vm))) sample_overrides" by code_simp
  have used: "\<lbrakk>i < 3; nic_assigned (list_or (vd_networkInterfaces sample_retry_vm) ! i) \<noteq> []; i \<noteq> 1\<rbrakk> \<Longrightarrow> i = 0" for i
    by (auto simp: sample_retry_vm_def retry_nic_def nic_assigned_def numeral_3_eq_3 less_Suc_eq)
  have first: "nic_assigned (list_or (vd_networkInterfaces sample_retry_vm) ! 0) \<noteq> []" by code_simp
  have "length (list_or (vd_networkInterfaces sample_retry_vm)) = 3" by code_simp
  then have "{i. i < length (list_or (vd_networkInterfaces sample_retry_vm)) \<and>
      nic_assigned (list_or (vd_networkInterfaces sample_retry_vm) ! i) \<noteq> [] \<and>
      i \<notin> no_interfaceIndex ` set sample_overrides} = {0}"
    using used first by (auto simp: sample_overrides_def)
  then show ?thesis
    using retry_overrides_roundtrip [OF _ _ ok] by (simp add: sample_overrides_def insert_commute retried_override_def)
qed

text \<open>an interface whose address the failed plan neither preserved nor assigned, so that the destination would choose
  one, is retried with the address of the inventory as if the operator had assigned it.\<close>

theorem retry_pins_inventory_address:
  assumes "ov \<in> set ovs" "distinct (map no_interfaceIndex ovs)"
    and "\<not> no_preserveIP ov" "\<not> str_truthy (no_UserAssignedIP ov)"
    and "no_interfaceIndex ov < length (list_or (vd_networkInterfaces vm))"
    and "nic_assigned (list_or (vd_networkInterfaces vm) ! no_interfaceIndex ov) \<noteq> []"
  shows "no_UserAssignedIP (override_at (restore_overrides (Some ovs) vm) (no_interfaceIndex ov)) =
     Some (js_join '','' (nic_assigned (list_or (vd_networkInterfaces vm) ! no_interfaceIndex ov)))"
proof -
  have ovs: "ovs \<noteq> []" using assms(1) by auto
  have found: "find (\<lambda>x. no_interfaceIndex x = no_interfaceIndex ov) ovs = Some ov"
    using find_distinct [OF assms(2,1)] .
  show ?thesis using assms
    by (simp add: override_address restored_fields [OF ovs assms(2)] found map_of_nicAssignedIps restored_assigned [OF assms(2)])
qed

theorem retry_pins_inventory_address_witness:
  "no_UserAssignedIP (override_at (restore_overrides
     (Some [\<lparr> no_interfaceIndex = 1, no_preserveIP = False, no_preserveMAC = True, no_UserAssignedIP = None \<rparr>])
     sample_retry_vm) 1) = Some ''10.0.0.5''"
proof -
  have "nic_assigned (list_or (vd_networkInterfaces sample_retry_vm) ! 1) = [''10.0.0.5'']"
    "(1::nat) < length (list_or (vd_networkInterfaces sample_retry_vm))" by code_simp+
  then show ?thesis
    using retry_pins_inventory_address [of "\<lparr> no_interfaceIndex = 1, no_preserveIP = False, no_preserveMAC = True,
      no_UserAssignedIP = None \<rparr>" "[\<lparr> no_interfaceIndex = 1, no_preserveIP = False, no_preserveMAC = True,
      no_UserAssignedIP = None \<rparr>]" sample_retry_vm] by simp
qed

section \<open>The effect that fills the form\<close>

lemma merge_opt_twice: "merge_opt p (merge_opt p x) = merge_opt p x"
  by (cases p) simp_all

text \<open>the effect fills the form again whenever the catalogue of clusters changes: whatever the operator has edited by
  then, the machine, the mappings, the copy method, the schedule and the values of the text fields are again those of
  the failed migration, and filling it twice with the same catalogue is the same as filling it once.\<close>

theorem retry_prefill_discards_edits:
  "fv_vms (ru_params (retry_prefill_effect (Some r) pcdData s)) = Some [rs_vmData r] \<and>
   fv_networkMappings (ru_params (retry_prefill_effect (Some r) pcdData s)) = Some (rs_networkMappings r) \<and>
   fv_storageMappings (ru_params (retry_prefill_effect (Some r) pcdData s)) = Some (rs_storageMappings r) \<and>
   fv_dataCopyMethod (ru_params (retry_prefill_effect (Some r) pcdData s)) =
     Some (str_or (map_option st_type (ps_migrationStrategy (mp_spec (rs_plan r)))) ''cold'') \<and>
   fv_cutoverOption (ru_params (retry_prefill_effect (Some r) pcdData s)) =
     Some (retry_cutover (ps_migrationStrategy (mp_spec (rs_plan r)))) \<and>
   ru_rhf (retry_prefill_effect (Some r) pcdData s) = retry_defaults (resources_input r pcdData) \<and>
   retry_prefill_effect (Some r) pcdData (retry_prefill_effect (Some r) pcdData s) = retry_prefill_effect (Some r) pcdData s"
proof -
  have twice: "updateParams p (updateParams p x) = updateParams p x"
    "updateSelectedOptions q (updateSelectedOptions q y) = updateSelectedOptions q y" for p x q y
    by (simp_all add: updateParams_def updateSelectedOptions_def merge_opt_twice)
  show ?thesis
    by (simp add: retry_prefill_effect_def Let_def buildRetryFormState_def twice)
      (simp add: updateParams_def retry_params_def resources_input_def Let_def)
qed

end
