(* ===== verification/Api_Action.thy ===== *)
theory Api_Action
  imports Plan_Submit
begin

text \<open>
  Sequences of requests to the API server: what \<open>async\<close> functions do with \<open>await\<close>. The server is a parameter: what it
  answers to the n-th request, and how long that takes in milliseconds, so that it can answer a request one way at
  first and another way later. An action is a function on the requests sent so far and the clock; an exception that
  leaves it is the outcome \<open>Throws\<close>. The contract of an action is its script, \<open>follows\<close>.
\<close>

section \<open>Requests, answers, actions\<close>

text \<open>An answer is the name of the resource, or a failure with its HTTP status, if it has one, and its message.\<close>

datatype server_answer = Done string | Refused "int option" string

type_synonym 'r server = "nat \<Rightarrow> 'r \<Rightarrow> server_answer \<times> nat"

record 'r api_run =
  rr_requests :: "'r list"
  rr_now :: nat

type_synonym ('r, 'a) action = "'r api_run \<Rightarrow> 'a outcome \<times> 'r api_run"

definition issue :: "'r server \<Rightarrow> 'r \<Rightarrow> 'r api_run \<Rightarrow> server_answer \<times> 'r api_run" where
  "issue srv r s =
     (let a = srv (length (rr_requests s)) r
      in (fst a, \<lparr> rr_requests = rr_requests s @ [r], rr_now = rr_now s + snd a \<rparr>))"

definition and_then :: "('r, 'a) action \<Rightarrow> ('a \<Rightarrow> ('r, 'b) action) \<Rightarrow> ('r, 'b) action" where
  "and_then m k s = (case m s of (Throws e, s1) \<Rightarrow> (Throws e, s1) | (Returns x, s1) \<Rightarrow> k x s1)"

definition give :: "'a \<Rightarrow> ('r, 'a) action" where
  "give x s = (Returns x, s)"

text \<open>A request that is awaited, one whose failure is caught, and one whose failure with status 404 is.\<close>

definition await :: "'r server \<Rightarrow> 'r \<Rightarrow> ('r, string) action" where
  "await srv r s = (case issue srv r s of (Done n, s1) \<Rightarrow> (Returns n, s1) | (Refused _ e, s1) \<Rightarrow> (Throws e, s1))"

definition await_caught :: "'r server \<Rightarrow> 'r \<Rightarrow> ('r, unit) action" where
  "await_caught srv r s = (Returns (), snd (issue srv r s))"

definition await_gone :: "'r server \<Rightarrow> 'r \<Rightarrow> ('r, unit) action" where
  "await_gone srv r s =
     (case issue srv r s of
        (Done _, s1) \<Rightarrow> (Returns (), s1)
      | (Refused status e, s1) \<Rightarrow> (if status = Some 404 then Returns () else Throws e, s1))"

section \<open>Actions and their scripts\<close>

text \<open>
  An action follows a set of scripts when, from every state, what it sends is the beginning of one of them, the
  whole of it if the action returns; it then returns the given value.
\<close>

definition follows :: "('r, 'a) action \<Rightarrow> 'r list set \<Rightarrow> 'a \<Rightarrow> bool" where
  "follows m S y \<longleftrightarrow> S \<noteq> {} \<and>
     (\<forall>s. \<exists>sc \<in> S. \<exists>j. rr_requests (snd (m s)) = rr_requests s @ take j sc \<and>
        (\<forall>x. fst (m s) = Returns x \<longrightarrow> x = y \<and> length sc \<le> j))"

definition scripts :: "'r list set \<Rightarrow> 'r list set \<Rightarrow> 'r list set" where
  "scripts S T = {a @ b | a b. a \<in> S \<and> b \<in> T}"

lemma issue_simps [simp]:
  "rr_requests (snd (issue srv r s)) = rr_requests s @ [r]"
  "fst (issue srv r s) = fst (srv (length (rr_requests s)) r)"
  "rr_now (snd (issue srv r s)) = rr_now s + snd (srv (length (rr_requests s)) r)"
  by (simp_all add: issue_def Let_def)

lemma await_eq:
  "await srv r s = (case fst (issue srv r s) of Done n \<Rightarrow> Returns n | Refused _ e \<Rightarrow> Throws e, snd (issue srv r s))"
  by (cases "issue srv r s") (simp add: await_def del: issue_simps split: server_answer.split)

lemma await_gone_eq:
  "await_gone srv r s =
     (case fst (issue srv r s) of Done _ \<Rightarrow> Returns () | Refused st e \<Rightarrow> if st = Some 404 then Returns () else Throws e,
      snd (issue srv r s))"
  by (cases "issue srv r s") (simp add: await_gone_def del: issue_simps split: server_answer.split)

lemma followsI:
  assumes "sc \<in> S" and "\<And>s. \<exists>sc \<in> S. \<exists>j. rr_requests (snd (m s)) = rr_requests s @ take j sc \<and>
        (\<forall>x. fst (m s) = Returns x \<longrightarrow> x = y \<and> length sc \<le> j)"
  shows "follows m S y"
  using assms by (auto simp: follows_def)

lemma follows_then:
  assumes m: "follows m S y" and k: "follows (k y) T z"
  shows "follows (and_then m k) (scripts S T) z"
proof -
  from m k obtain a b where ab: "a \<in> S" "b \<in> T" by (auto simp: follows_def)
  show ?thesis
  proof (rule followsI [where sc = "a @ b"])
    show "a @ b \<in> scripts S T" using ab by (auto simp: scripts_def)
    fix s
    obtain sc j where sc: "sc \<in> S" "rr_requests (snd (m s)) = rr_requests s @ take j sc"
      "\<And>x. fst (m s) = Returns x \<Longrightarrow> x = y \<and> length sc \<le> j"
      using m unfolding follows_def by blast
    show "\<exists>sc\<in>scripts S T. \<exists>j. rr_requests (snd (and_then m k s)) = rr_requests s @ take j sc \<and>
        (\<forall>x. fst (and_then m k s) = Returns x \<longrightarrow> x = z \<and> length sc \<le> j)"
    proof (cases "m s")
      case (Pair out s1)
      show ?thesis
      proof (cases out)
        case (Throws e)
        have "rr_requests (snd (and_then m k s)) = rr_requests s @ take (min j (length sc)) (sc @ b)"
          using Pair Throws sc(2) by (simp add: and_then_def min_def)
        then show ?thesis
          using Pair Throws sc(1) ab(2) by (intro bexI [of _ "sc @ b"] exI) (auto simp: and_then_def scripts_def)
      next
        case (Returns x)
        then have s1: "x = y" "rr_requests s1 = rr_requests s @ sc"
          using sc(2,3) Pair by auto
        obtain sc' j' where sc': "sc' \<in> T" "rr_requests (snd (k y s1)) = rr_requests s1 @ take j' sc'"
          "\<And>x. fst (k y s1) = Returns x \<Longrightarrow> x = z \<and> length sc' \<le> j'"
          using k unfolding follows_def by blast
        have "rr_requests (snd (and_then m k s)) = rr_requests s @ take (length sc + j') (sc @ sc')"
          using Pair Returns s1 sc'(2) by (simp add: and_then_def)
        then show ?thesis
          using Pair Returns s1 sc(1) sc'(1,3)
          by (intro bexI [of _ "sc @ sc'"] exI [of _ "length sc + j'"]) (auto simp: and_then_def scripts_def)
      qed
    qed
  qed
qed

lemma follows_give: "follows (give y) {[]} y"
  by (rule followsI) (auto simp: give_def)

lemma follows_await:
  assumes "\<And>n a. fst (srv n r) = Done a \<Longrightarrow> a = name r"
  shows "follows (await srv r) {[r]} (name r)"
proof (rule followsI [where sc = "[r]"])
  fix s
  have "fst (await srv r s) = Returns x \<Longrightarrow> x = name r" for x
    using assms by (simp add: await_eq split: server_answer.splits)
  moreover have "rr_requests (snd (await srv r s)) = rr_requests s @ [r]"
    by (simp add: await_eq)
  ultimately show "\<exists>sc\<in>{[r]}. \<exists>j. rr_requests (snd (await srv r s)) = rr_requests s @ take j sc \<and>
      (\<forall>x. fst (await srv r s) = Returns x \<longrightarrow> x = name r \<and> length sc \<le> j)"
    by (intro bexI [of _ "[r]"] exI [of _ 1]) auto
qed simp

lemma follows_caught: "follows (await_caught srv r) {[r]} ()"
  by (rule followsI [where sc = "[r]"]) (auto simp: await_caught_def intro!: exI [of _ 1])

lemma follows_gone: "follows (await_gone srv r) {[r]} ()"
  by (rule followsI [where sc = "[r]"]) (auto simp: await_gone_eq intro!: exI [of _ 1])

definition names_answers :: "'r server \<Rightarrow> ('r \<Rightarrow> string) \<Rightarrow> bool" where
  "names_answers srv name \<longleftrightarrow> (\<forall>n r a. fst (srv n r) = Done a \<longrightarrow> a = name r)"

lemma scripts_single [simp]: "scripts {a} {b} = {a @ b}"
  by (auto simp: scripts_def)

lemma and_then_give: "and_then m (\<lambda>_. give y) s = (case fst (m s) of Throws e \<Rightarrow> Throws e | Returns _ \<Rightarrow> Returns y, snd (m s))"
  by (auto simp: and_then_def give_def split: prod.split outcome.split)

lemma follows_answer:
  assumes "names_answers srv name"
  shows "follows (await srv r) {[r]} (name r)"
  using assms by (intro follows_await) (auto simp: names_answers_def)

lemma follows_answer_give:
  assumes "names_answers srv name"
  shows "follows (and_then (await srv r) (\<lambda>n. give (f n))) {[r]} (f (name r))"
  using follows_then [OF follows_answer [OF assms] follows_give, of r f] by simp

text \<open>Which refusals make an action throw.\<close>

definition always_returns :: "('r, 'a) action \<Rightarrow> bool" where
  "always_returns m \<longleftrightarrow> (\<forall>s. \<exists>x. fst (m s) = Returns x)"

definition granted :: "'r server \<Rightarrow> 'r \<Rightarrow> bool" where
  "granted srv r \<longleftrightarrow> (\<forall>n. \<exists>a. fst (srv n r) = Done a)"

lemma returns_then:
  assumes "always_returns m" "\<And>x. always_returns (k x)"
  shows "always_returns (and_then m k)"
  unfolding always_returns_def
proof
  fix s
  obtain x s1 where m: "m s = (Returns x, s1)"
    using assms(1) unfolding always_returns_def by (metis prod.collapse)
  then show "\<exists>z. fst (and_then m k s) = Returns z"
    using assms(2) [of x] by (simp add: always_returns_def and_then_def)
qed

lemma returns_simps [simp]:
  "always_returns (give x)" "always_returns (await_caught srv r)"
  by (simp_all add: always_returns_def give_def await_caught_def)

lemma granted_refused: "granted srv r \<Longrightarrow> fst (srv n r) \<noteq> Refused st e"
  unfolding granted_def by (metis server_answer.distinct(1))

lemma returns_await: "granted srv r \<Longrightarrow> always_returns (await srv r)"
  by (auto simp: always_returns_def granted_refused await_eq split: server_answer.split)

text \<open>Actions that never return, and actions that begin with a request.\<close>

definition always_throws :: "('r, 'a) action \<Rightarrow> bool" where
  "always_throws m \<longleftrightarrow> (\<forall>s. \<exists>e. fst (m s) = Throws e)"

lemma throws_then:
  assumes "always_throws m \<or> (\<forall>x. always_throws (k x))"
  shows "always_throws (and_then m k)"
  unfolding always_throws_def
proof
  fix s
  show "\<exists>e. fst (and_then m k s) = Throws e"
  proof (cases "m s")
    case (Pair out s1)
    show ?thesis
    proof (cases out)
      case (Returns x)
      with Pair have "always_throws (k x)" using assms unfolding always_throws_def by (metis fst_conv outcome.distinct(1))
      then show ?thesis using Pair Returns by (simp add: always_throws_def and_then_def)
    qed (simp add: Pair and_then_def)
  qed
qed

definition begins_with :: "'r list \<Rightarrow> ('r, 'a) action \<Rightarrow> bool" where
  "begins_with rs m \<longleftrightarrow> (\<forall>s. \<exists>more. rr_requests (snd (m s)) = rr_requests s @ rs @ more)"

lemma begins_then:
  assumes "begins_with rs m" "\<And>x. begins_with [] (k x)"
  shows "begins_with rs (and_then m k)"
  unfolding begins_with_def
proof
  fix s
  obtain out s1 where m: "m s = (out, s1)" by (cases "m s")
  with assms(1) obtain more where more: "rr_requests s1 = rr_requests s @ rs @ more"
    unfolding begins_with_def by (metis snd_conv)
  show "\<exists>more. rr_requests (snd (and_then m k s)) = rr_requests s @ rs @ more"
  proof (cases out)
    case (Returns x)
    obtain more' where "rr_requests (snd (k x s1)) = rr_requests s1 @ more'"
      using assms(2) [of x] unfolding begins_with_def by auto
    with m more Returns show ?thesis by (simp add: and_then_def)
  next
    case (Throws e)
    with m more show ?thesis by (simp add: and_then_def)
  qed
qed

lemma begins_simps [simp]:
  "begins_with [r] (await srv r)" "begins_with [] (await_caught srv r)" "begins_with [] (await_gone srv r)"
  "begins_with [] (give x)" "begins_with [] (await srv r)"
  by (simp_all add: begins_with_def await_eq await_caught_def await_gone_eq give_def)

section \<open>Where a run stops\<close>

text \<open>
  What a script sends against a server, from the n-th request on, and whether it gets through: a refusal ends it, except that of
  a request that may fail. An action that does exactly this for its script, and then returns the value or throws.
\<close>

definition is_refused :: "server_answer \<Rightarrow> bool" where
  "is_refused a = (case a of Done _ \<Rightarrow> False | Refused _ _ \<Rightarrow> True)"

fun sent_until :: "'r server \<Rightarrow> ('r \<Rightarrow> bool) \<Rightarrow> nat \<Rightarrow> 'r list \<Rightarrow> 'r list \<times> bool" where
  "sent_until srv may_fail n [] = ([], True)"
| "sent_until srv may_fail n (r # rs) =
     (if is_refused (fst (srv n r)) \<and> \<not> may_fail r then ([r], False)
      else (case sent_until srv may_fail (Suc n) rs of (sent, through) \<Rightarrow> (r # sent, through)))"

definition runs :: "'r server \<Rightarrow> ('r \<Rightarrow> bool) \<Rightarrow> ('r, 'a) action \<Rightarrow> 'r list \<Rightarrow> 'a \<Rightarrow> bool" where
  "runs srv may_fail m sc y \<longleftrightarrow>
     (\<forall>s. case sent_until srv may_fail (length (rr_requests s)) sc of (sent, through) \<Rightarrow>
        rr_requests (snd (m s)) = rr_requests s @ sent \<and>
        (if through then fst (m s) = Returns y else \<exists>e. fst (m s) = Throws e))"

lemma sent_through: "sent_until srv may_fail n sc = (sent, True) \<Longrightarrow> sent = sc"
  by (induction sc arbitrary: n sent) (auto split: if_splits prod.splits)

lemma sent_append:
  "sent_until srv may_fail n (a @ b) =
     (case sent_until srv may_fail n a of (sent, through) \<Rightarrow>
        if through then (case sent_until srv may_fail (n + length a) b of (sent', through') \<Rightarrow> (sent @ sent', through'))
        else (sent, False))"
  by (induction a arbitrary: n) (auto split: prod.split)

lemma runs_then:
  assumes m: "runs srv may_fail m a y" and k: "runs srv may_fail (k y) b z"
  shows "runs srv may_fail (and_then m k) (a @ b) z"
  unfolding runs_def
proof
  fix s :: "'a api_run"
  obtain sent through where sent: "sent_until srv may_fail (length (rr_requests s)) a = (sent, through)"
    by (cases "sent_until srv may_fail (length (rr_requests s)) a")
  obtain out s1 where ms: "m s = (out, s1)" by (cases "m s")
  have first: "rr_requests s1 = rr_requests s @ sent" "if through then out = Returns y else \<exists>e. out = Throws e"
    using m sent ms unfolding runs_def by (auto dest!: spec [of _ s])
  show "case sent_until srv may_fail (length (rr_requests s)) (a @ b) of (sent, through) \<Rightarrow>
        rr_requests (snd (and_then m k s)) = rr_requests s @ sent \<and>
        (if through then fst (and_then m k s) = Returns z else \<exists>e. fst (and_then m k s) = Throws e)"
  proof (cases through)
    case True
    then have "sent = a" using sent_through sent by metis
    moreover have "and_then m k s = k y s1" using True first ms by (simp add: and_then_def)
    ultimately show ?thesis
      using k [unfolded runs_def, rule_format, of s1] True first sent by (simp add: sent_append split: prod.splits)
  next
    case False
    then show ?thesis using first sent ms by (auto simp: sent_append and_then_def)
  qed
qed

lemma runs_give: "runs srv may_fail (give y) [] y"
  by (simp add: runs_def give_def)

lemma runs_await:
  assumes "names_answers srv name" "\<not> may_fail r"
  shows "runs srv may_fail (await srv r) [r] (name r)"
  using assms by (auto simp: runs_def await_eq is_refused_def names_answers_def split: server_answer.splits)

lemma runs_caught: "may_fail r \<Longrightarrow> runs srv may_fail (await_caught srv r) [r] ()"
  by (simp add: runs_def await_caught_def)

lemma runs_await_give:
  "names_answers srv name \<Longrightarrow> \<not> may_fail r \<Longrightarrow> runs srv may_fail (and_then (await srv r) (\<lambda>n. give (f n))) [r] (f (name r))"
  using runs_then [OF runs_await runs_give, of srv name may_fail r f] by simp

end
