(* ===== verification/Retry_Submit.thy ===== *)
theory Retry_Submit
  imports Retry_Migration Api_Action
begin

text \<open>
  Submitting a retry: \<open>ui/src/features/migration/hooks/useRetrySubmit.ts\<close>, as an action over the API server: the
  polls of the deleted migration may be answered one way at first and another way later.
\<close>

section \<open>Requests, answers, actions\<close>

record NewPlanSpec = RetryPlanSpec +
  np_migrationTemplate :: string
  np_virtualMachines :: "string list list"
  np_retry :: bool

datatype retry_request =
    DeletePlan string
  | DeleteTemplate string
  | PatchPlanMachines string "string list list"
  | DeleteMigration string
  | GetMigration string
  | PostNetworks "ResourceMap list"
  | PostStorages "ResourceMap list"
  | PostTemplate string MigrationTemplateSpec
  | PostPlan string NewPlanSpec
  | PatchMachineFlavor string string

type_synonym retry_api = "retry_request server"

type_synonym retry_run = "retry_request api_run"

type_synonym 'a retry_action = "(retry_request, 'a) action"

section \<open>pollUntilGone\<close>

definition pollIntervalMs :: nat where "pollIntervalMs = 500"
definition timeoutMs :: nat where "timeoutMs = 30000"

text \<open>Ask until the server refuses or the deadline has passed; the clock moves on by at least the interval.\<close>

function poll_loop :: "retry_api \<Rightarrow> retry_request \<Rightarrow> nat \<Rightarrow> retry_run \<Rightarrow> retry_run" where
  "poll_loop srv r deadline s =
     (if rr_now s < deadline
      then (case issue srv r s of
              (Done _, s1) \<Rightarrow> poll_loop srv r deadline (s1 \<lparr> rr_now := rr_now s1 + pollIntervalMs \<rparr>)
            | (Refused _ _, s1) \<Rightarrow> s1)
      else s)"
  by pat_completeness auto

termination
  by (relation "measure (\<lambda>(srv, r, deadline, s). deadline - rr_now s)")
    (auto simp: issue_def Let_def pollIntervalMs_def)

declare poll_loop.simps [simp del]

definition pollUntilGone :: "retry_api \<Rightarrow> retry_request \<Rightarrow> unit retry_action" where
  "pollUntilGone srv r s = (Returns (), poll_loop srv r (rr_now s + timeoutMs) s)"

section \<open>performEditAndRetry\<close>

record retry_submit =
  rx_config :: "RetryMigrationConfig option"
  rx_params :: FormValues
  rx_selected :: SelectedMigrationOptions
  rx_plan :: "MigrationPlan option"
  rx_template :: "MigrationTemplate option"
  rx_vm :: "VmData option"
  rx_vmK8sName :: "string option"
  rx_selectedFlavorId :: string
  rx_selectedPcdClusterName :: string
  rx_networkMappingRequired :: bool
  rx_templateUUID :: string
  rx_planUUID :: string

definition retryingVMKey :: "retry_submit \<Rightarrow> RetryMigrationConfig \<Rightarrow> string" where
  "retryingVMKey i cfg =
     (case rx_vm i of
        None \<Rightarrow> rg_vmName cfg
      | Some vm \<Rightarrow> str_or (vd_vmKey vm) (if vd_name vm \<noteq> [] then vd_name vm else rg_vmName cfg))"

definition remaining_machines :: "string \<Rightarrow> string list list \<Rightarrow> string list list" where
  "remaining_machines key batches = filter (\<lambda>b. b \<noteq> []) (map (filter (\<lambda>v. v \<noteq> key)) batches)"

definition remove_from_plan :: "retry_api \<Rightarrow> string \<Rightarrow> MigrationPlan \<Rightarrow> MigrationTemplate \<Rightarrow> unit retry_action" where
  "remove_from_plan srv key plan template =
     (if length (concat (ps_virtualMachines (mp_spec plan))) \<le> 1
      then and_then (await srv (DeletePlan (mp_name plan))) (\<lambda>_. await_caught srv (DeleteTemplate (mt_name template)))
      else and_then (await srv (PatchPlanMachines (mp_name plan) (remaining_machines key (ps_virtualMachines (mp_spec plan)))))
             (\<lambda>_. give ()))"

definition network_mapping_step :: "retry_api \<Rightarrow> retry_submit \<Rightarrow> string option retry_action" where
  "network_mapping_step srv i =
     (if rx_networkMappingRequired i \<and> nonempty_opt (fv_networkMappings (rx_params i))
      then and_then (await srv (PostNetworks (list_or (fv_networkMappings (rx_params i))))) (\<lambda>n. give (Some n))
      else give None)"

definition storage_mapping_step :: "retry_api \<Rightarrow> retry_submit \<Rightarrow> string option retry_action" where
  "storage_mapping_step srv i =
     (if fv_storageCopyMethod (rx_params i) \<noteq> Some ''StorageAcceleratedCopy'' \<and> nonempty_opt (fv_storageMappings (rx_params i))
      then and_then (await srv (PostStorages (list_or (fv_storageMappings (rx_params i))))) (\<lambda>n. give (Some n))
      else give None)"

definition newTemplateSpec :: "retry_submit \<Rightarrow> MigrationTemplate \<Rightarrow> string option \<Rightarrow> string option \<Rightarrow> MigrationTemplateSpec" where
  "newTemplateSpec i template net st =
     (let p = rx_params i; original = mt_spec template
      in original
        \<lparr> ts_networkMapping := (case net of None \<Rightarrow> ts_networkMapping original | Some n \<Rightarrow> n),
          ts_storageMapping := (case st of None \<Rightarrow> ts_storageMapping original | Some n \<Rightarrow> n),
          ts_storageCopyMethod := Some (str_or (fv_storageCopyMethod p) ''normal''),
          ts_useGPUFlavor := Some (bool_or (fv_useGPU p)),
          ts_targetPCDClusterName := Some (if rx_selectedPcdClusterName i \<noteq> [] then rx_selectedPcdClusterName i
                                           else str_or (ts_targetPCDClusterName original) []),
          ts_proxyVMRef := (if fv_storageCopyMethod p = Some ''HotAdd'' \<and> str_truthy (fv_proxyVMRef p)
                            then fv_proxyVMRef p else ts_proxyVMRef original) \<rparr>)"

definition newPlanOverrides :: "string \<Rightarrow> RetryPlanSpec \<Rightarrow> NetworkOverride list sobj option" where
  "newPlanOverrides key planPatch =
     (case rp_networkOverridesPerVM planPatch of
        None \<Rightarrow> None
      | Some m \<Rightarrow> (let own = filter (\<lambda>(k, v). k = key) m in if length own > 0 then Some own else None))"

definition newPlanSpec :: "retry_submit \<Rightarrow> string \<Rightarrow> string \<Rightarrow> NewPlanSpec" where
  "newPlanSpec i key templateName =
     (let planPatch = buildRetryPlanSpec (rx_params i) (rx_selected i) (rx_plan i)
      in RetryPlanSpec.extend (planPatch \<lparr> rp_networkOverridesPerVM := newPlanOverrides key planPatch \<rparr>)
           \<lparr> np_migrationTemplate = templateName, np_virtualMachines = [[key]], np_retry = False \<rparr>)"

definition flavor_step :: "retry_api \<Rightarrow> retry_submit \<Rightarrow> unit retry_action" where
  "flavor_step srv i =
     (if str_truthy (rx_vmK8sName i) \<and> rx_selectedFlavorId i \<noteq> [] \<and>
         rx_selectedFlavorId i \<noteq> str_or (case rx_vm i of None \<Rightarrow> None | Some vm \<Rightarrow> vd_targetFlavorId vm) []
      then and_then (await srv (PatchMachineFlavor (the (rx_vmK8sName i)) (rx_selectedFlavorId i))) (\<lambda>_. give ())
      else give ())"

definition create_resources :: "retry_api \<Rightarrow> retry_submit \<Rightarrow> string \<Rightarrow> MigrationTemplate \<Rightarrow> unit retry_action" where
  "create_resources srv i key template =
     and_then (network_mapping_step srv i) (\<lambda>net.
     and_then (storage_mapping_step srv i) (\<lambda>st.
     and_then (await srv (PostTemplate (rx_templateUUID i) (newTemplateSpec i template net st))) (\<lambda>templateName.
     and_then (await srv (PostPlan (rx_planUUID i) (newPlanSpec i key templateName))) (\<lambda>_.
     flavor_step srv i))))"

definition performEditAndRetry :: "retry_api \<Rightarrow> retry_submit \<Rightarrow> unit retry_action" where
  "performEditAndRetry srv i =
     (case (rx_config i, rx_template i, rx_plan i) of
        (Some cfg, Some template, Some plan) \<Rightarrow>
          and_then (remove_from_plan srv (retryingVMKey i cfg) plan template) (\<lambda>_.
          and_then (await_gone srv (DeleteMigration (rg_migrationName cfg))) (\<lambda>_.
          and_then (pollUntilGone srv (GetMigration (rg_migrationName cfg))) (\<lambda>_.
          create_resources srv i (retryingVMKey i cfg) template)))
      | _ \<Rightarrow> give ())"

section \<open>The mutation around it\<close>

record retry_view =
  rv_error :: "string option"
  rv_reports :: "string list"
  rv_message :: "string option"
  rv_closed :: bool
  rv_path :: "string option"

definition finishRetry :: "string \<Rightarrow> retry_view \<Rightarrow> retry_view" where
  "finishRetry message v = v \<lparr> rv_message := Some message, rv_closed := True, rv_path := Some ''/dashboard/migrations'' \<rparr>"

definition handleEditAndRetry :: "retry_api \<Rightarrow> retry_submit \<Rightarrow> retry_run \<Rightarrow> retry_view \<Rightarrow> unit outcome \<times> retry_run \<times> retry_view" where
  "handleEditAndRetry srv i s v =
     (case (if rx_config i = None \<or> rx_template i = None then give () else performEditAndRetry srv i) s of
        (Returns _, s1) \<Rightarrow>
          (Returns (), s1, finishRetry (''Configuration updated, retry started for '' @
             (case rx_config i of None \<Rightarrow> ''undefined'' | Some cfg \<Rightarrow> rg_vmName cfg)) (v \<lparr> rv_error := None \<rparr>))
      | (Throws e, s1) \<Rightarrow>
          (Throws e, s1, v \<lparr> rv_error := Some (''Failed to apply edits and retry: '' @ e),
                              rv_reports := rv_reports v @ [''edit-and-retry''] \<rparr>))"

lemma poll_loop_eq:
  "poll_loop srv r deadline s =
     (if rr_now s < deadline
      then (case fst (issue srv r s) of
              Done _ \<Rightarrow> poll_loop srv r deadline (snd (issue srv r s) \<lparr> rr_now := rr_now (snd (issue srv r s)) + pollIntervalMs \<rparr>)
            | Refused _ _ \<Rightarrow> snd (issue srv r s))
      else s)"
  by (cases "issue srv r s") (subst poll_loop.simps, simp del: issue_simps split: server_answer.split)

section \<open>The polls\<close>

lemma poll_budget: "(n::nat) < d \<Longrightarrow> 500 * k < d - (n + t + 500) + 500 \<Longrightarrow> 500 + 500 * k < d - n + 500"
  by (cases "n + t + 500 \<le> d") (linarith, cases k, simp_all)

text \<open>How many polls were sent, and how the loop ended.\<close>

lemma poll_loop_spec:
  "\<exists>k. rr_requests (poll_loop srv r deadline s) = rr_requests s @ replicate k r \<and>
       pollIntervalMs * k < deadline - rr_now s + pollIntervalMs \<and>
       (deadline \<le> rr_now (poll_loop srv r deadline s) \<or>
        (\<exists>st e. fst (srv (length (rr_requests (poll_loop srv r deadline s)) - 1) r) = Refused st e))"
proof (induction srv r deadline s rule: poll_loop.induct)
  case (1 srv r deadline s)
  show ?case
  proof (cases "rr_now s < deadline")
    case False
    then show ?thesis
      by (intro exI [of _ 0]) (simp add: poll_loop_eq [of srv r deadline s] pollIntervalMs_def)
  next
    case True
    let ?s1 = "snd (issue srv r s)"
    show ?thesis
    proof (cases "fst (issue srv r s)")
      case (Done a)
      let ?s2 = "?s1 \<lparr> rr_now := rr_now ?s1 + pollIntervalMs \<rparr>"
      have i: "(Done a, ?s1) = issue srv r s" using Done by (simp add: prod_eq_iff)
      obtain k where k: "rr_requests (poll_loop srv r deadline ?s2) = rr_requests ?s2 @ replicate k r"
        "pollIntervalMs * k < deadline - rr_now ?s2 + pollIntervalMs"
        "deadline \<le> rr_now (poll_loop srv r deadline ?s2) \<or>
         (\<exists>st e. fst (srv (length (rr_requests (poll_loop srv r deadline ?s2)) - 1) r) = Refused st e)"
        using "1.IH" [OF True i refl] by blast
      have step: "poll_loop srv r deadline s = poll_loop srv r deadline ?s2"
        using True Done by (simp only: poll_loop_eq [of srv r deadline s] if_True server_answer.case)
      have "pollIntervalMs * Suc k < deadline - rr_now s + pollIntervalMs"
        using poll_budget [OF True] k(2) by (simp add: pollIntervalMs_def del: Nat.add_diff_assoc2)
      then show ?thesis unfolding step
        using k(1,3) by (intro exI [of _ "Suc k"]) simp
    next
      case (Refused st e)
      then have "poll_loop srv r deadline s = ?s1"
        using True by (simp only: poll_loop_eq [of srv r deadline s] if_True server_answer.case)
      then show ?thesis using Refused True by (intro exI [of _ 1]) (simp add: pollIntervalMs_def)
    qed
  qed
qed

lemma follows_poll: "follows (pollUntilGone srv r) {replicate k r | k. k \<le> 60} ()"
proof (rule followsI [where sc = "[]"])
  fix s
  obtain k where k: "rr_requests (poll_loop srv r (rr_now s + timeoutMs) s) = rr_requests s @ replicate k r"
    "pollIntervalMs * k < timeoutMs + pollIntervalMs"
    using poll_loop_spec [of srv r "rr_now s + timeoutMs" s] by auto
  then have "k \<le> 60" by (simp add: pollIntervalMs_def timeoutMs_def)
  with k(1) show "\<exists>sc\<in>{replicate k r | k. k \<le> 60}. \<exists>j.
      rr_requests (snd (pollUntilGone srv r s)) = rr_requests s @ take j sc \<and>
      (\<forall>x. fst (pollUntilGone srv r s) = Returns x \<longrightarrow> x = () \<and> length sc \<le> j)"
    by (intro bexI [of _ "replicate k r"] exI [of _ k]) (auto simp: pollUntilGone_def)
qed auto

section \<open>The script of a retry\<close>

text \<open>
  What a retry sends, in order: the removal of the machine from its plan (or of the plan and its template, when the
  machine is the last one), the deletion of the migration, up to sixty polls of it, and the new resources, each
  under the names of those before it. \<open>name r\<close> is the name the server gives to the resource of the request \<open>r\<close>.
\<close>

definition removal_script :: "string \<Rightarrow> MigrationPlan \<Rightarrow> MigrationTemplate \<Rightarrow> retry_request list" where
  "removal_script key plan template =
     (if length (concat (ps_virtualMachines (mp_spec plan))) \<le> 1
      then [DeletePlan (mp_name plan), DeleteTemplate (mt_name template)]
      else [PatchPlanMachines (mp_name plan) (remaining_machines key (ps_virtualMachines (mp_spec plan)))])"

definition networks_script :: "retry_submit \<Rightarrow> retry_request list" where
  "networks_script i =
     (if rx_networkMappingRequired i \<and> nonempty_opt (fv_networkMappings (rx_params i))
      then [PostNetworks (list_or (fv_networkMappings (rx_params i)))] else [])"

definition storages_script :: "retry_submit \<Rightarrow> retry_request list" where
  "storages_script i =
     (if fv_storageCopyMethod (rx_params i) \<noteq> Some ''StorageAcceleratedCopy'' \<and> nonempty_opt (fv_storageMappings (rx_params i))
      then [PostStorages (list_or (fv_storageMappings (rx_params i)))] else [])"

definition flavor_script :: "retry_submit \<Rightarrow> retry_request list" where
  "flavor_script i =
     (if str_truthy (rx_vmK8sName i) \<and> rx_selectedFlavorId i \<noteq> [] \<and>
         rx_selectedFlavorId i \<noteq> str_or (case rx_vm i of None \<Rightarrow> None | Some vm \<Rightarrow> vd_targetFlavorId vm) []
      then [PatchMachineFlavor (the (rx_vmK8sName i)) (rx_selectedFlavorId i)] else [])"

definition given_name :: "(retry_request \<Rightarrow> string) \<Rightarrow> retry_request list \<Rightarrow> string option" where
  "given_name name rs = (case rs of [] \<Rightarrow> None | r # _ \<Rightarrow> Some (name r))"

definition template_request :: "(retry_request \<Rightarrow> string) \<Rightarrow> retry_submit \<Rightarrow> MigrationTemplate \<Rightarrow> retry_request" where
  "template_request name i template =
     PostTemplate (rx_templateUUID i)
       (newTemplateSpec i template (given_name name (networks_script i)) (given_name name (storages_script i)))"

definition creation_script ::
  "(retry_request \<Rightarrow> string) \<Rightarrow> retry_submit \<Rightarrow> string \<Rightarrow> MigrationTemplate \<Rightarrow> retry_request list" where
  "creation_script name i key template =
     networks_script i @ storages_script i @
     [template_request name i template,
      PostPlan (rx_planUUID i) (newPlanSpec i key (name (template_request name i template)))] @ flavor_script i"

definition whole_script ::
  "(retry_request \<Rightarrow> string) \<Rightarrow> retry_submit \<Rightarrow> RetryMigrationConfig \<Rightarrow> MigrationPlan \<Rightarrow> MigrationTemplate \<Rightarrow> nat \<Rightarrow>
   retry_request list" where
  "whole_script name i cfg plan template polls =
     removal_script (retryingVMKey i cfg) plan template @ [DeleteMigration (rg_migrationName cfg)] @
     replicate polls (GetMigration (rg_migrationName cfg)) @ creation_script name i (retryingVMKey i cfg) template"

lemma follows_networks:
  "names_answers srv name \<Longrightarrow>
   follows (network_mapping_step srv i) {networks_script i} (given_name name (networks_script i))"
  by (simp add: network_mapping_step_def networks_script_def given_name_def follows_give follows_answer_give)

lemma follows_storages:
  "names_answers srv name \<Longrightarrow>
   follows (storage_mapping_step srv i) {storages_script i} (given_name name (storages_script i))"
  by (simp add: storage_mapping_step_def storages_script_def given_name_def follows_give follows_answer_give)

lemma follows_flavor: "names_answers srv name \<Longrightarrow> follows (flavor_step srv i) {flavor_script i} ()"
  using follows_answer_give [of srv name _ "\<lambda>_. ()"] by (simp add: flavor_step_def flavor_script_def follows_give)

lemma follows_removal:
  assumes "names_answers srv name"
  shows "follows (remove_from_plan srv key plan template) {removal_script key plan template} ()"
proof -
  have "follows (and_then (await srv r1) (\<lambda>_. await_caught srv r2)) {[r1, r2]} ()" for r1 r2
    using follows_then [OF follows_answer [OF assms, of r1], of "\<lambda>_. await_caught srv r2", OF follows_caught] by simp
  then show ?thesis
    using follows_answer_give [OF assms, of _ "\<lambda>_. ()"] by (simp add: remove_from_plan_def removal_script_def)
qed

lemma follows_creation:
  assumes "names_answers srv name"
  shows "follows (create_resources srv i key template) {creation_script name i key template} ()"
  using follows_then [OF follows_networks [OF assms] follows_then [OF follows_storages [OF assms]
      follows_then [OF follows_answer [OF assms] follows_then [OF follows_answer [OF assms] follows_flavor [OF assms]]]]]
  by (simp add: create_resources_def creation_script_def template_request_def)

lemma follows_retry:
  assumes "names_answers srv name" "rx_config i = Some cfg" "rx_template i = Some template" "rx_plan i = Some plan"
  shows "follows (performEditAndRetry srv i) {whole_script name i cfg plan template k | k. k \<le> 60} ()"
proof -
  have "scripts {a} (scripts {b} (scripts {replicate k r | k. k \<le> 60} {c})) = {a @ b @ replicate k r @ c | k. k \<le> 60}"
    for a b c :: "retry_request list" and r by (auto simp: scripts_def)
  then show ?thesis
    using follows_then [OF follows_removal [OF assms(1)] follows_then [OF follows_gone
        follows_then [OF follows_poll follows_creation [OF assms(1)]]]]
    by (simp add: performEditAndRetry_def whole_script_def assms(2-4))
qed

text \<open>The server grants what the retry needs: everything but the deletion of the old template and the polls, and the
  deletion of a migration that is already gone.\<close>

definition grants_retry :: "retry_api \<Rightarrow> bool" where
  "grants_retry srv \<longleftrightarrow>
     (\<forall>r. granted srv r \<or> (\<exists>t. r = DeleteTemplate t) \<or> (\<exists>m. r = GetMigration m) \<or>
          (\<exists>m. r = DeleteMigration m \<and> (\<forall>n e st. fst (srv n r) = Refused st e \<longrightarrow> st = Some 404)))"

lemma returns_poll [simp]: "always_returns (pollUntilGone srv r)"
  by (simp add: always_returns_def pollUntilGone_def)

lemma returns_gone:
  assumes "grants_retry srv"
  shows "always_returns (await_gone srv (DeleteMigration m))"
proof -
  have "granted srv (DeleteMigration m) \<or> (\<forall>n e st. fst (srv n (DeleteMigration m)) = Refused st e \<longrightarrow> st = Some 404)"
    using assms by (auto simp: grants_retry_def)
  then show ?thesis
    by (auto simp: always_returns_def granted_refused await_gone_eq split: server_answer.split)
qed

lemma grants_retry_granted:
  assumes "grants_retry srv"
  shows "granted srv (DeletePlan n)" "granted srv (PatchPlanMachines n b)" "granted srv (PostNetworks ms)"
    "granted srv (PostStorages ms)" "granted srv (PostTemplate n ts)" "granted srv (PostPlan n ps)" "granted srv (PatchMachineFlavor n f)"
  using assms by (auto simp: grants_retry_def)

lemma retry_returns:
  assumes "grants_retry srv"
  shows "always_returns (performEditAndRetry srv i)"
proof -
  note g = grants_retry_granted [OF assms]
  have rest: "always_returns (create_resources srv i key template)" for key template
    unfolding create_resources_def network_mapping_step_def storage_mapping_step_def flavor_step_def
    by (intro returns_then conjI impI returns_await g) (auto intro!: returns_then returns_await g)
  have "always_returns (remove_from_plan srv key plan template)" for key plan template
    unfolding remove_from_plan_def by (auto intro!: returns_then returns_await g)
  with rest returns_gone [OF assms] show ?thesis
    unfolding performEditAndRetry_def by (auto intro!: returns_then split: option.split)
qed

section \<open>Properties\<close>

text \<open>C3: whatever the server answers, a retry sends a beginning of its script: the machine is taken out of its plan first,
  then the migration is deleted and polled at most sixty times, and only then are the new resources created, each
  under the names of those before it. When the retry returns it has sent all of it, and it does return when the
  server grants the requests it needs.\<close>

theorem retry_follows_script:
  assumes "names_answers srv name" "rx_config i = Some cfg" "rx_template i = Some template" "rx_plan i = Some plan"
  shows "(\<exists>k \<le> 60. \<exists>j.
            rr_requests (snd (performEditAndRetry srv i s)) = rr_requests s @ take j (whole_script name i cfg plan template k) \<and>
            (fst (performEditAndRetry srv i s) = Returns () \<longrightarrow> length (whole_script name i cfg plan template k) \<le> j)) \<and>
         (grants_retry srv \<longrightarrow> fst (performEditAndRetry srv i s) = Returns ())"
proof (intro conjI impI)
  show "\<exists>k \<le> 60. \<exists>j.
      rr_requests (snd (performEditAndRetry srv i s)) = rr_requests s @ take j (whole_script name i cfg plan template k) \<and>
      (fst (performEditAndRetry srv i s) = Returns () \<longrightarrow> length (whole_script name i cfg plan template k) \<le> j)"
    using follows_retry [OF assms] unfolding follows_def by blast
  assume "grants_retry srv"
  then show "fst (performEditAndRetry srv i s) = Returns ()"
    using retry_returns unfolding always_returns_def by (metis (full_types) old.unit.exhaust)
qed

definition sample_retry_submit :: retry_submit where
  "sample_retry_submit =
     \<lparr> rx_config = Some \<lparr> rg_migrationName = ''migration-web'', rg_planName = ''plan'', rg_vmName = ''web'' \<rparr>,
       rx_params = retry_form sample_retry, rx_selected = retry_selected sample_retry,
       rx_plan = Some (ri_plan sample_retry), rx_template = Some sample_template,
       rx_vm = Some (blank_vm ''vm-1'' ''web''), rx_vmK8sName = Some ''web-k8s'', rx_selectedFlavorId = [],
       rx_selectedPcdClusterName = ''pcd'', rx_networkMappingRequired = True,
       rx_templateUUID = ''t2'', rx_planUUID = ''p2'' \<rparr>"

text \<open>A server that names every resource alike and still has the migration, and one that refuses the new plan.\<close>

definition willing :: retry_api where
  "willing n r = (Done ''made'', 10)"

definition plan_rejected :: retry_api where
  "plan_rejected n r = (case r of PostPlan _ _ \<Rightarrow> Refused (Some 403) ''quota'' | _ \<Rightarrow> Done ''made'', 10)"

definition idle_run :: retry_run where
  "idle_run = \<lparr> rr_requests = [], rr_now = 0 \<rparr>"

lemma sample_servers:
  "names_answers willing (\<lambda>_. ''made'')" "names_answers plan_rejected (\<lambda>_. ''made'')" "grants_retry willing"
  by (auto simp: names_answers_def grants_retry_def granted_def willing_def plan_rejected_def split: retry_request.splits)

theorem retry_follows_script_witness:
  "fst (performEditAndRetry willing sample_retry_submit idle_run) = Returns ()"
  using retry_follows_script [OF sample_servers(1), of sample_retry_submit _ _ _ idle_run] sample_servers(3)
  by (simp add: sample_retry_submit_def)

lemma concat_remaining: "concat (remaining_machines key batches) = filter (\<lambda>v. v \<noteq> key) (concat batches)"
  by (induction batches) (simp_all add: remaining_machines_def)

text \<open>the machines of a plan that lists the retried one once are kept: what stays in the old plan, batch by batch in its
  order and without empty batches, and the one machine of the new plan are the machines of the old plan.\<close>

theorem retry_partitions_machines:
  assumes "count_list (concat batches) key = 1"
  shows "mset (concat (remaining_machines key batches)) + mset (concat (np_virtualMachines (newPlanSpec i key templateName))) =
           mset (concat batches) \<and>
         concat (remaining_machines key batches) = filter (\<lambda>v. v \<noteq> key) (concat batches) \<and>
         [] \<notin> set (remaining_machines key batches)"
proof -
  have "mset (filter (\<lambda>v. v \<noteq> key) xs) + replicate_mset (count_list xs key) key = mset xs" for xs
    by (induction xs) auto
  from this [of "concat batches"] show ?thesis
    unfolding concat_remaining using assms
    by (simp add: newPlanSpec_def Let_def RetryPlanSpec.extend_def remaining_machines_def)
qed

theorem retry_partitions_machines_witness:
  "concat (remaining_machines ''b'' [[''a''], [''b''], [''c'', ''d'']]) = [''a'', ''c'', ''d'']"
  using retry_partitions_machines [of "[[''a''], [''b''], [''c'', ''d'']]" "''b''" sample_retry_submit "''t''"] by simp

text \<open>the wait for the deleted migration ends after at most sixty polls, whatever the server answers; when it ends, either
  the last poll found the migration gone or the thirty seconds are over. It returns in both cases.\<close>

theorem poll_until_gone_ends:
  "fst (pollUntilGone srv r s) = Returns () \<and>
   (\<exists>k \<le> 60. rr_requests (snd (pollUntilGone srv r s)) = rr_requests s @ replicate k r) \<and>
   (rr_now s + timeoutMs \<le> rr_now (snd (pollUntilGone srv r s)) \<or>
    (\<exists>st e. fst (srv (length (rr_requests (snd (pollUntilGone srv r s))) - 1) r) = Refused st e))"
proof -
  obtain k where k: "rr_requests (poll_loop srv r (rr_now s + timeoutMs) s) = rr_requests s @ replicate k r"
    "pollIntervalMs * k < timeoutMs + pollIntervalMs"
    "rr_now s + timeoutMs \<le> rr_now (poll_loop srv r (rr_now s + timeoutMs) s) \<or>
     (\<exists>st e. fst (srv (length (rr_requests (poll_loop srv r (rr_now s + timeoutMs) s)) - 1) r) = Refused st e)"
    using poll_loop_spec [of srv r "rr_now s + timeoutMs" s] by auto
  from k(2) have "k \<le> 60" by (simp add: pollIntervalMs_def timeoutMs_def)
  with k(1,3) show ?thesis by (auto simp: pollUntilGone_def)
qed

theorem poll_until_gone_ends_witness:
  "fst (pollUntilGone willing (GetMigration ''m'') idle_run) = Returns ()"
  using poll_until_gone_ends [of willing "GetMigration ''m''" idle_run] by blast

text \<open>a migration that the server never lets go of is replaced all the same: the new plan is posted while the deleted
  migration is still there.\<close>

theorem retry_creates_before_gone:
  assumes "names_answers srv name" "grants_retry srv"
    and "rx_config i = Some cfg" "rx_template i = Some template" "rx_plan i = Some plan"
  shows "PostPlan (rx_planUUID i) (newPlanSpec i (retryingVMKey i cfg) (name (template_request name i template)))
           \<in> set (rr_requests (snd (performEditAndRetry srv i s)))"
proof -
  obtain k j where k: "rr_requests (snd (performEditAndRetry srv i s)) = rr_requests s @ take j (whole_script name i cfg plan template k)"
    "length (whole_script name i cfg plan template k) \<le> j"
    using follows_retry [OF assms(1,3-5)] retry_returns [OF assms(2)] unfolding follows_def always_returns_def by blast
  then show ?thesis by (simp add: whole_script_def creation_script_def)
qed

theorem retry_creates_before_gone_witness:
  "\<exists>p. PostPlan ''p2'' p \<in> set (rr_requests (snd (performEditAndRetry willing sample_retry_submit idle_run)))"
  using retry_creates_before_gone [OF sample_servers(1,3), of sample_retry_submit _ _ _ idle_run]
  by (auto simp: sample_retry_submit_def)

text \<open>the array mappings the operator chooses for the accelerated copy have no effect on a retry: nothing that is sent
  depends on them, and the new template keeps the array mapping of the old one.\<close>

theorem retry_ignores_array_mappings:
  "performEditAndRetry srv (i \<lparr> rx_params := rx_params i \<lparr> fv_arrayCredsMappings := m \<rparr> \<rparr>) s = performEditAndRetry srv i s \<and>
   ts_arrayCredsMapping (newTemplateSpec i template net st) = ts_arrayCredsMapping (mt_spec template)"
proof -
  have plan: "newPlanSpec (i \<lparr> rx_params := rx_params i \<lparr> fv_arrayCredsMappings := m \<rparr> \<rparr>) key n = newPlanSpec i key n" for key n
    by (simp add: newPlanSpec_def buildRetryPlanSpec_def Let_def)
  have template: "newTemplateSpec (i \<lparr> rx_params := rx_params i \<lparr> fv_arrayCredsMappings := m \<rparr> \<rparr>) t a b = newTemplateSpec i t a b"
    for t a b by (simp add: newTemplateSpec_def Let_def)
  have "create_resources srv (i \<lparr> rx_params := rx_params i \<lparr> fv_arrayCredsMappings := m \<rparr> \<rparr>) key t =
      create_resources srv i key t" for key t
    by (simp add: create_resources_def network_mapping_step_def storage_mapping_step_def flavor_step_def plan template)
  moreover have "retryingVMKey (i \<lparr> rx_params := rx_params i \<lparr> fv_arrayCredsMappings := m \<rparr> \<rparr>) cfg = retryingVMKey i cfg" for cfg
    by (simp add: retryingVMKey_def)
  ultimately show ?thesis
    by (simp add: performEditAndRetry_def newTemplateSpec_def Let_def split: option.split)
qed

lemma begins_poll [simp]: "begins_with [] (pollUntilGone srv r)"
proof -
  have "\<exists>k. rr_requests (poll_loop srv r d s) = rr_requests s @ replicate k r" for d s
    using poll_loop_spec by blast
  then show ?thesis by (auto simp: begins_with_def pollUntilGone_def)
qed

lemma begins_creation: "begins_with [] (create_resources srv i key template)"
  unfolding create_resources_def network_mapping_step_def storage_mapping_step_def flavor_step_def
  by (auto intro!: begins_then)

lemma begins_retry:
  assumes "rx_config i = Some cfg" "rx_template i = Some template" "rx_plan i = Some plan"
  shows "begins_with [hd (removal_script (retryingVMKey i cfg) plan template)] (performEditAndRetry srv i)"
  using begins_creation unfolding performEditAndRetry_def assms remove_from_plan_def removal_script_def
  by (auto intro!: begins_then)

text \<open>a retry whose new plan is refused has already taken the machine out of its old plan, and nothing puts it back: the
  retry fails, the form stays open with the error, and the first request that was sent is the removal.\<close>

theorem refused_plan_leaves_machine_out:
  assumes "\<And>n u p. \<exists>st e. fst (srv n (PostPlan u p)) = Refused st e"
    and "rx_config i = Some cfg" "rx_template i = Some template" "rx_plan i = Some plan"
  shows "\<exists>e s1. handleEditAndRetry srv i s v =
            (Throws e, s1, v \<lparr> rv_error := Some (''Failed to apply edits and retry: '' @ e),
                               rv_reports := rv_reports v @ [''edit-and-retry''] \<rparr>) \<and>
          (\<exists>more. rr_requests s1 = rr_requests s @ hd (removal_script (retryingVMKey i cfg) plan template) # more)"
proof -
  have "always_throws (await srv (PostPlan u p))" for u p
    unfolding always_throws_def
  proof
    fix s :: retry_run
    obtain st e where "fst (srv (length (rr_requests s)) (PostPlan u p)) = Refused st e" using assms(1) by blast
    then show "\<exists>e. fst (await srv (PostPlan u p) s) = Throws e" by (simp add: await_eq)
  qed
  then have step: "always_throws (and_then (await srv (PostPlan u p)) k)" for u p and k :: "string \<Rightarrow> unit retry_action"
    by (simp add: throws_then)
  have "always_throws (create_resources srv i key template)" for key
    unfolding create_resources_def by (intro step throws_then disjI2 allI)
  then have "always_throws (performEditAndRetry srv i)"
    unfolding performEditAndRetry_def assms by (auto intro!: throws_then)
  then obtain e s1 where e: "performEditAndRetry srv i s = (Throws e, s1)"
    unfolding always_throws_def by (metis prod.collapse)
  moreover have "\<exists>more. rr_requests s1 = rr_requests s @ hd (removal_script (retryingVMKey i cfg) plan template) # more"
    using begins_retry [OF assms(2-4), of srv] e unfolding begins_with_def by (metis append_Cons append_Nil snd_conv)
  ultimately show ?thesis
    using assms(2,3) by (simp add: handleEditAndRetry_def)
qed

definition open_view :: retry_view where
  "open_view = \<lparr> rv_error = None, rv_reports = [], rv_message = None, rv_closed = False, rv_path = None \<rparr>"

theorem refused_plan_leaves_machine_out_witness:
  "DeletePlan ''plan'' \<in> set (rr_requests (fst (snd (handleEditAndRetry plan_rejected sample_retry_submit idle_run open_view)))) \<and>
   \<not> rv_closed (snd (snd (handleEditAndRetry plan_rejected sample_retry_submit idle_run open_view)))"
proof -
  have machines: "length (concat (ps_virtualMachines (mp_spec (ri_plan sample_retry)))) \<le> 1" by code_simp
  have "mp_name (ri_plan sample_retry) = ''plan''" by (simp add: sample_retry_def)
  with machines have first: "hd (removal_script key (ri_plan sample_retry) sample_template) = DeletePlan ''plan''" for key
    by (simp add: removal_script_def)
  obtain cfg where cfg: "rx_config sample_retry_submit = Some cfg" by (simp add: sample_retry_submit_def)
  have "\<exists>e s1. handleEditAndRetry plan_rejected sample_retry_submit idle_run open_view =
      (Throws e, s1, open_view \<lparr> rv_error := Some (''Failed to apply edits and retry: '' @ e),
                                 rv_reports := rv_reports open_view @ [''edit-and-retry''] \<rparr>) \<and>
      (\<exists>more. rr_requests s1 = rr_requests idle_run @
         hd (removal_script (retryingVMKey sample_retry_submit cfg) (ri_plan sample_retry) sample_template) # more)"
    by (rule refused_plan_leaves_machine_out [OF _ cfg]) (simp_all add: plan_rejected_def sample_retry_submit_def)
  then show ?thesis by (auto simp: first open_view_def)
qed

section \<open>From loading to the new plan\<close>

lemma restore_overrides_key [simp]: "vm_plan_key (restore_overrides ovs vm) = vm_plan_key vm"
  by (simp add: restore_overrides_def vm_plan_key_def)

lemma mapped_key: "vw_name (vx_vm machine) \<noteq> [] \<Longrightarrow> vm_plan_key (mapToVmData machine) = machine_key (vx_vm machine)"
  by (auto simp: mapToVmData_def vm_plan_key_def Let_def machine_key_def blank_vm_def)

lemma machine_key_nonempty: "vw_name vm \<noteq> [] \<Longrightarrow> machine_key vm \<noteq> []"
  by (simp add: machine_key_def)


definition sample_machine :: VMwareMachine where
  "sample_machine =
     \<lparr> vx_name = ''web-k8s'', vx_labels = None, vx_annotations = None,
       vx_vm = \<lparr> vw_name = ''web'', vw_vmid = Some ''vm-12'', vw_ipAddress = None, vw_networks = None, vw_datastores = None,
         vw_memory = 4096, vw_cpu = 2, vw_disks = None, vw_osFamily = Some ''linuxGuest'',
         vw_networkInterfaces = Some [retry_nic ''m0'' [''10.0.0.4''], retry_nic ''m1'' [''10.0.0.5'']], vw_clusterName = None, vw_assignedIp = None,
         vw_rdmDisks = None, vw_tags = None, vw_customAttributes = None \<rparr>,
       vx_targetFlavorId = None, vx_migrated = False, vx_powerState = ''running'' \<rparr>"

definition sample_failed_plan :: MigrationPlan where
  "sample_failed_plan = \<lparr> mp_name = ''plan'', mp_spec = sample_retry_spec
     \<lparr> ps_networkOverridesPerVM := Some [(''web-12'', sample_overrides), (''db-7'', [])] \<rparr> \<rparr>"

definition no_server :: retry_server where
  "no_server = \<lparr> sv_getMigration = \<lambda>_. None, sv_getPlan = \<lambda>_. None, sv_getTemplate = \<lambda>_. None,
     sv_hasVmwareCreds = \<lambda>_. True, sv_hasOpenstackCreds = \<lambda>_. True, sv_getMachine = \<lambda>_. None,
     sv_getNetworkMapping = \<lambda>_. None, sv_getStorageMapping = \<lambda>_. None \<rparr>"

definition sample_resources :: RetryResources where
  "sample_resources = retry_resources no_server ''web-k8s'' sample_failed_plan sample_template sample_machine"

definition unedited_retry :: retry_submit where
  "unedited_retry = sample_retry_submit
     \<lparr> rx_params := retry_form (resources_input sample_resources []),
       rx_selected := retry_selected (resources_input sample_resources []), rx_vm := Some (rs_vmData sample_resources) \<rparr>"


end
