(* ===== verification/Bulk_Ip_Edit.thy ===== *)
theory Bulk_Ip_Edit
  imports Form_Types "HOL-Library.AList"
begin

text \<open>
  The dialog that edits the addresses of the selected machines: \<open>ui/src/features/migration/hooks/useBulkIPEdit.ts\<close>.
  A handler is a function on the state of the hook, with the rows of the table and the machines of the form in it; the
  address check of the server is an argument. A value that a handler reads from the render is read before the first
  write, a value it reads inside an update from the update before.
\<close>

section \<open>State\<close>

datatype cell_status = CellEmpty | CellValid | CellInvalid | CellValidating

record nic_override =
  ovr_preserveIP :: bool
  ovr_preserveMAC :: bool

record bulk_state =
  bk_vms :: "VmDataWithFlavor list"
  bk_formVms :: "VmDataWithFlavor list"
  bk_selected :: "string list"
  bk_open :: bool
  bk_editIPs :: "string grid"
  bk_preserveIp :: "bool grid"
  bk_preserveMac :: "bool grid"
  bk_currentIPs :: "string grid"
  bk_existingIPs :: "string grid"
  bk_originalIPs :: "string grid"
  bk_status :: "cell_status grid"
  bk_messages :: "string grid"
  bk_assigning :: bool
  bk_overrides :: "nic_override grid"
  bk_toasts :: "(string \<times> string) list"
  bk_reports :: "string list"

text \<open>A cell of the dialog: machine, interface, text.\<close>

record BulkIpEdit =
  be_vmName :: string
  be_interfaceIndex :: nat
  be_ip :: string

section \<open>Derived values\<close>

definition grid_any :: "('v \<Rightarrow> bool) \<Rightarrow> 'v grid \<Rightarrow> bool" where
  "grid_any P m = list_ex (\<lambda>row. list_ex P (obj_vals row)) (obj_vals m)"

definition hasBulkOverrideChanges :: "bulk_state \<Rightarrow> bool" where
  "hasBulkOverrideChanges s = grid_any (\<lambda>v. \<not> ovr_preserveIP v \<or> \<not> ovr_preserveMAC v) (bk_overrides s)"

definition hasBulkIpValidationErrors :: "bulk_state \<Rightarrow> bool" where
  "hasBulkIpValidationErrors s = grid_any (\<lambda>st. st = CellInvalid) (bk_status s)"

definition hasBulkIpsToApply :: "bulk_state \<Rightarrow> bool" where
  "hasBulkIpsToApply s =
     (grid_any (\<lambda>ip. js_trim ip \<noteq> []) (bk_editIPs s) \<or> grid_any (\<lambda>f. \<not> f) (bk_preserveIp s) \<or>
      grid_any (\<lambda>f. \<not> f) (bk_preserveMac s) \<or> hasBulkOverrideChanges s)"

definition getPreserveIpFlag :: "bulk_state \<Rightarrow> string \<Rightarrow> nat \<Rightarrow> bool" where
  "getPreserveIpFlag s vm i = (grid_get (bk_preserveIp s) vm i \<noteq> Some False)"

definition getExistingIp :: "bulk_state \<Rightarrow> string \<Rightarrow> nat \<Rightarrow> string" where
  "getExistingIp s vm i = str_or (grid_get (bk_existingIPs s) vm i) []"

section \<open>The addresses that were discovered\<close>

definition nic_text :: "vm_nic \<Rightarrow> string" where
  "nic_text nic = js_join '', '' (filter (\<lambda>v. js_trim v \<noteq> []) (nic_ips nic))"

definition table_ip :: "VmDataWithFlavor \<Rightarrow> string" where
  "table_ip vm = (if str_truthy (vd_ipAddress vm) \<and> vd_ipAddress vm \<noteq> Some em_dash then the (vd_ipAddress vm) else [])"

text \<open>What the effect would record of a machine, and the effect: an address that is recorded stays.\<close>

definition discovered :: "VmDataWithFlavor \<Rightarrow> (nat \<times> string) list" where
  "discovered vm =
     (if nonempty_opt (vd_networkInterfaces vm)
      then map (\<lambda>(i, nic). (i, nic_text nic)) (enumerate 0 (list_or (vd_networkInterfaces vm)))
      else [(0, table_ip vm)])"

definition record_original :: "string \<Rightarrow> nat \<times> string \<Rightarrow> string grid \<Rightarrow> string grid" where
  "record_original vm c m =
     (if grid_get m vm (fst c) \<noteq> None then m
      else if js_trim (snd c) \<noteq> [] then grid_set vm (fst c) (snd c) m else m)"

definition record_vm :: "VmDataWithFlavor \<Rightarrow> string grid \<Rightarrow> string grid" where
  "record_vm vm m =
     fold (record_original (vd_id vm)) (discovered vm) (if map_of m (vd_id vm) = None then sobj_set (vd_id vm) [] m else m)"

definition originals_effect :: "bulk_state \<Rightarrow> bulk_state" where
  "originals_effect s = s \<lparr> bk_originalIPs := fold record_vm (bk_vms s) (bk_originalIPs s) \<rparr>"

section \<open>Opening and closing\<close>

record open_cell =
  ce_existing :: string
  ce_current :: string
  ce_preserveIp :: bool
  ce_preserveMac :: bool

definition ce_edit :: "open_cell \<Rightarrow> string" where
  "ce_edit c = (if ce_preserveIp c then ce_existing c else ce_current c)"

definition open_cell_of :: "string grid \<Rightarrow> VmDataWithFlavor \<Rightarrow> nat \<Rightarrow> string \<Rightarrow> open_cell" where
  "open_cell_of originals vm i current =
     \<lparr> ce_existing = (case grid_get originals (vd_id vm) i of Some t \<Rightarrow> t | None \<Rightarrow> current),
       ce_current = current,
       ce_preserveIp = (if vd_vmState vm \<noteq> Some ''running'' then False
                        else map_of (list_or (vd_preserveIp vm)) i \<noteq> Some False),
       ce_preserveMac = (map_of (list_or (vd_preserveMac vm)) i \<noteq> Some False) \<rparr>"

definition open_cells :: "string grid \<Rightarrow> VmDataWithFlavor \<Rightarrow> open_cell iobj" where
  "open_cells originals vm = map (\<lambda>(i, current). (i, open_cell_of originals vm i current)) (discovered vm)"

definition open_grid :: "bulk_state \<Rightarrow> (open_cell \<Rightarrow> 'v) \<Rightarrow> 'v grid" where
  "open_grid s f =
     fold (\<lambda>vmId m. case find (\<lambda>v. vd_id v = vmId) (bk_vms s) of
                       None \<Rightarrow> m
                     | Some vm \<Rightarrow> sobj_set vmId (obj_map f (open_cells (bk_originalIPs s) vm)) m)
       (bk_selected s) []"

definition handleOpenBulkIPAssignment :: "bulk_state \<Rightarrow> bulk_state" where
  "handleOpenBulkIPAssignment s =
     (if bk_selected s = [] then s
      else s \<lparr> bk_editIPs := open_grid s ce_edit, bk_preserveIp := open_grid s ce_preserveIp,
               bk_preserveMac := open_grid s ce_preserveMac, bk_existingIPs := open_grid s ce_existing,
               bk_currentIPs := open_grid s ce_current,
               bk_overrides := open_grid s (\<lambda>c. \<lparr> ovr_preserveIP = ce_preserveIp c, ovr_preserveMAC = ce_preserveMac c \<rparr>),
               bk_status := open_grid s (\<lambda>c. if js_trim (ce_edit c) \<noteq> [] then CellValid else CellEmpty),
               bk_messages := [], bk_open := True \<rparr>)"

definition handleCloseBulkEditDialog :: "bulk_state \<Rightarrow> bulk_state" where
  "handleCloseBulkEditDialog s =
     s \<lparr> bk_open := False, bk_editIPs := [], bk_preserveIp := [], bk_preserveMac := [], bk_currentIPs := [],
         bk_overrides := [], bk_status := [], bk_messages := [] \<rparr>"

section \<open>Editing\<close>

definition multiple_message :: string where
  "multiple_message = ''Multiple IPs are not supported when Preserve IP is disabled''"

definition format_message :: string where
  "format_message = ''Invalid IP format''"

text \<open>The verdict on a text without preservation; both blocks of \<open>handleBulkPreserveIpChange\<close> compute it.\<close>

definition assigned_verdict :: "string \<Rightarrow> cell_status \<times> string" where
  "assigned_verdict text =
     (if text = [] then (CellEmpty, [])
      else if hasMultipleIpEntries text then (CellInvalid, multiple_message)
      else if \<not> isValidIPAddressList text then (CellInvalid, format_message)
      else (CellValid, []))"

definition set_verdict :: "string \<Rightarrow> nat \<Rightarrow> cell_status \<times> string \<Rightarrow> bulk_state \<Rightarrow> bulk_state" where
  "set_verdict vm i v s =
     s \<lparr> bk_status := grid_set vm i (fst v) (bk_status s), bk_messages := grid_set vm i (snd v) (bk_messages s) \<rparr>"

definition handleBulkPreserveIpChange :: "string \<Rightarrow> nat \<Rightarrow> bool \<Rightarrow> bulk_state \<Rightarrow> bulk_state" where
  "handleBulkPreserveIpChange vm i preserveIp s =
     (let s1 = s \<lparr> bk_preserveIp := grid_set vm i preserveIp (bk_preserveIp s) \<rparr>
      in if preserveIp
         then (let originalIp = getExistingIp s vm i
               in set_verdict vm i (if js_trim originalIp \<noteq> [] then CellValid else CellEmpty, [])
                    (s1 \<lparr> bk_editIPs := grid_set vm i originalIp (bk_editIPs s1) \<rparr>))
         else (let currentIp = str_or (grid_get (bk_currentIPs s) vm i) []
               in set_verdict vm i (assigned_verdict (js_trim currentIp))
                    (s1 \<lparr> bk_editIPs := grid_set vm i currentIp (bk_editIPs s1),
                          bk_currentIPs := grid_set vm i currentIp (bk_currentIPs s1) \<rparr>)))"

definition handleBulkPreserveMacChange :: "string \<Rightarrow> nat \<Rightarrow> bool \<Rightarrow> bulk_state \<Rightarrow> bulk_state" where
  "handleBulkPreserveMacChange vm i flag s = s \<lparr> bk_preserveMac := grid_set vm i flag (bk_preserveMac s) \<rparr>"

definition typed_verdict :: "bool \<Rightarrow> string \<Rightarrow> cell_status \<times> string" where
  "typed_verdict preserveIp text =
     (if js_trim text = [] then (CellEmpty, [])
      else if \<not> preserveIp \<and> hasMultipleIpEntries text then (CellInvalid, multiple_message)
      else if \<not> isValidIPAddressList (js_trim text) then (CellInvalid, format_message)
      else (CellValid, []))"

definition handleBulkIpChange :: "string \<Rightarrow> nat \<Rightarrow> string \<Rightarrow> bulk_state \<Rightarrow> bulk_state" where
  "handleBulkIpChange vm i text s =
     (let s1 = s \<lparr> bk_editIPs := grid_set vm i text (bk_editIPs s) \<rparr>;
          s2 = (if \<not> getPreserveIpFlag s vm i then s1 \<lparr> bk_currentIPs := grid_set vm i text (bk_currentIPs s1) \<rparr> else s1)
      in set_verdict vm i (typed_verdict (getPreserveIpFlag s vm i) text) s2)"

section \<open>Clear all\<close>

record ClearAllIpsUpdate =
  ca_clearedIPs :: "string grid"
  ca_clearedStatus :: "cell_status grid"
  ca_clearedPreserveIp :: "bool grid"
  ca_clearedCurrentIPs :: "string grid"

definition buildClearAllIpsUpdate :: "string grid \<Rightarrow> ClearAllIpsUpdate" where
  "buildClearAllIpsUpdate m =
     \<lparr> ca_clearedIPs = obj_map (obj_map (\<lambda>_. [])) m, ca_clearedStatus = obj_map (obj_map (\<lambda>_. CellEmpty)) m,
       ca_clearedPreserveIp = obj_map (obj_map (\<lambda>_. False)) m, ca_clearedCurrentIPs = obj_map (obj_map (\<lambda>_. [])) m \<rparr>"

definition merge_rows :: "'v grid \<Rightarrow> 'v grid \<Rightarrow> 'v grid" where
  "merge_rows prev updates = fold (\<lambda>(vm, row) next. sobj_set vm (obj_merge (<) (grid_row next vm) row) next) updates prev"

definition clear_override :: "nat \<Rightarrow> nic_override iobj \<Rightarrow> nic_override iobj" where
  "clear_override i row =
     iobj_set i \<lparr> ovr_preserveIP = False,
                  ovr_preserveMAC = (case map_of row i of None \<Rightarrow> True | Some v \<Rightarrow> ovr_preserveMAC v) \<rparr> row"

definition clear_overrides :: "bool grid \<Rightarrow> nic_override grid \<Rightarrow> nic_override grid" where
  "clear_overrides cleared prev =
     fold (\<lambda>(vm, row) next. sobj_set vm (fold clear_override (obj_keys row) (grid_row next vm)) next) cleared prev"

definition handleClearAllIPs :: "bulk_state \<Rightarrow> bulk_state" where
  "handleClearAllIPs s =
     (let u = buildClearAllIpsUpdate (bk_editIPs s)
      in s \<lparr> bk_editIPs := ca_clearedIPs u, bk_status := ca_clearedStatus u, bk_messages := [],
             bk_preserveIp := merge_rows (bk_preserveIp s) (ca_clearedPreserveIp u),
             bk_currentIPs := merge_rows (bk_currentIPs s) (ca_clearedCurrentIPs u),
             bk_overrides := clear_overrides (ca_clearedPreserveIp u) (bk_overrides s) \<rparr>)"

section \<open>What is applied and what is cleared\<close>

definition grid_cells :: "string grid \<Rightarrow> BulkIpEdit list" where
  "grid_cells m =
     concat (map (\<lambda>(vm, row). map (\<lambda>(i, ip). \<lparr> be_vmName = vm, be_interfaceIndex = i, be_ip = ip \<rparr>) row) m)"

abbreviation edit_cells :: "bulk_state \<Rightarrow> BulkIpEdit list" where
  "edit_cells s \<equiv> grid_cells (bk_editIPs s)"

text \<open>The check of the required addresses; the variable it returns is never set.\<close>

definition validateRequiredIpsForPreserveEnabled :: "bulk_state \<Rightarrow> bool \<times> bulk_state" where
  "validateRequiredIpsForPreserveEnabled s =
     (let missingRequiredIp = False
      in (\<not> missingRequiredIp,
          fold (\<lambda>c t. if getPreserveIpFlag s (be_vmName c) (be_interfaceIndex c) \<and>
                          js_trim (getExistingIp s (be_vmName c) (be_interfaceIndex c)) = [] \<and> js_trim (be_ip c) = []
                       then set_verdict (be_vmName c) (be_interfaceIndex c) (CellEmpty, []) t else t)
            (edit_cells s) s))"

definition cell_applied :: "bulk_state \<Rightarrow> BulkIpEdit \<Rightarrow> bool" where
  "cell_applied s c =
     (let existing = js_trim (getExistingIp s (be_vmName c) (be_interfaceIndex c)); typed = js_trim (be_ip c)
      in typed \<noteq> [] \<and> \<not> (getPreserveIpFlag s (be_vmName c) (be_interfaceIndex c) \<and> existing \<noteq> [] \<and> typed = existing))"

definition collectIpsToApply :: "bulk_state \<Rightarrow> BulkIpEdit list" where
  "collectIpsToApply s = map (\<lambda>c. c \<lparr> be_ip := js_trim (be_ip c) \<rparr>) (filter (cell_applied s) (edit_cells s))"

definition cell_cleared :: "bulk_state \<Rightarrow> BulkIpEdit \<Rightarrow> bool" where
  "cell_cleared s c =
     (\<not> getPreserveIpFlag s (be_vmName c) (be_interfaceIndex c) \<and> js_trim (be_ip c) = [] \<and>
      js_trim (getExistingIp s (be_vmName c) (be_interfaceIndex c)) \<noteq> [])"

definition collectIpsToClear :: "bulk_state \<Rightarrow> (string \<times> nat) list" where
  "collectIpsToClear s = map (\<lambda>c. (be_vmName c, be_interfaceIndex c)) (filter (cell_cleared s) (edit_cells s))"

definition flattenBulkIps :: "BulkIpEdit list \<Rightarrow> BulkIpEdit list" where
  "flattenBulkIps items =
     concat (map (\<lambda>item. let parsed = parseIpList (be_ip item)
                         in if length parsed = 0 then [item \<lparr> be_ip := [] \<rparr>]
                            else map (\<lambda>ip. item \<lparr> be_ip := ip \<rparr>) parsed) items)"

text \<open>An array that grows with empty strings up to an index.\<close>

definition put_at :: "nat \<Rightarrow> string \<Rightarrow> string list \<Rightarrow> string list" where
  "put_at i x xs = (xs @ replicate (Suc i - length xs) [])[i := x]"

definition put_cell :: "string \<Rightarrow> nat \<Rightarrow> string \<Rightarrow> string list sobj \<Rightarrow> string list sobj" where
  "put_cell vm i x m = sobj_set vm (put_at i x (list_or (map_of m vm))) m"

definition buildAssignedIpsPerVm :: "BulkIpEdit list \<Rightarrow> string list sobj" where
  "buildAssignedIpsPerVm ips = fold (\<lambda>c. put_cell (be_vmName c) (be_interfaceIndex c) (be_ip c)) ips []"

definition applyClearsToAssignedIpsMap :: "string list sobj \<Rightarrow> (string \<times> nat) list \<Rightarrow> string list sobj" where
  "applyClearsToAssignedIpsMap assigned clears = fold (\<lambda>c. put_cell (fst c) (snd c) []) clears assigned"

definition markBulkValidationFailure :: "BulkIpEdit list \<Rightarrow> string \<Rightarrow> bulk_state \<Rightarrow> bulk_state" where
  "markBulkValidationFailure ips message s =
     fold (\<lambda>c. set_verdict (be_vmName c) (be_interfaceIndex c) (CellInvalid, message)) ips s"

definition setBulkStatusForIps :: "BulkIpEdit list \<Rightarrow> cell_status \<Rightarrow> bulk_state \<Rightarrow> bulk_state" where
  "setBulkStatusForIps ips st s =
     s \<lparr> bk_status := fold (\<lambda>c. grid_set (be_vmName c) (be_interfaceIndex c) st) ips (bk_status s) \<rparr>"

section \<open>Writing to the rows\<close>

definition updateVmRowsAndForm :: "VmDataWithFlavor list \<Rightarrow> bulk_state \<Rightarrow> bulk_state" where
  "updateVmRowsAndForm vms s = s \<lparr> bk_vms := vms, bk_formVms := filter (\<lambda>vm. vd_id vm \<in> set (bk_selected s)) vms \<rparr>"

definition show_toast :: "string \<Rightarrow> string \<Rightarrow> bulk_state \<Rightarrow> bulk_state" where
  "show_toast message severity s = s \<lparr> bk_toasts := bk_toasts s @ [(message, severity)] \<rparr>"

definition assigned_nic :: "bulk_state \<Rightarrow> string \<Rightarrow> string list option \<Rightarrow> nat \<Rightarrow> vm_nic \<Rightarrow> vm_nic" where
  "assigned_nic s vmId assigned i nic =
     (let preserveIP = getPreserveIpFlag s vmId i; preserveMAC = (grid_get (bk_preserveMac s) vmId i \<noteq> Some False);
          assignedIP = (if i < length (list_or assigned) then Some (list_or assigned ! i) else None);
          ips = (case assignedIP of
                   None \<Rightarrow> nic_ips nic
                 | Some t \<Rightarrow> (if length (parseIpList t) > 0 then parseIpList t else if \<not> preserveIP then [] else nic_ips nic))
      in (case grid_get (bk_overrides s) vmId i of
            Some v \<Rightarrow> nic \<lparr> nic_ips := ips, nic_preserve_ip := Some (ovr_preserveIP v), nic_preserve_mac := Some (ovr_preserveMAC v) \<rparr>
          | None \<Rightarrow> nic \<lparr> nic_ips := ips, nic_preserve_ip := Some preserveIP, nic_preserve_mac := Some preserveMAC \<rparr>))"

definition with_flags :: "bulk_state \<Rightarrow> VmDataWithFlavor \<Rightarrow> VmDataWithFlavor" where
  "with_flags s vm =
     (let vm1 = (case map_of (bk_preserveIp s) (vd_id vm) of None \<Rightarrow> vm | Some row \<Rightarrow> vm \<lparr> vd_preserveIp := Some row \<rparr>)
      in case map_of (bk_preserveMac s) (vd_id vm) of None \<Rightarrow> vm1 | Some row \<Rightarrow> vm1 \<lparr> vd_preserveMac := Some row \<rparr>)"

definition display_ips :: "vm_nic list \<Rightarrow> string" where
  "display_ips nics = js_join '', '' (filter (\<lambda>ip. js_trim ip \<noteq> []) (concat (map nic_ips nics)))"

definition assigned_row :: "bulk_state \<Rightarrow> string list sobj \<Rightarrow> VmDataWithFlavor \<Rightarrow> VmDataWithFlavor" where
  "assigned_row s assignedIPsPerVM vm =
     (let assigned = map_of assignedIPsPerVM (vd_id vm)
      in if assigned = None \<and> map_of (bk_preserveIp s) (vd_id vm) = None \<and> map_of (bk_preserveMac s) (vd_id vm) = None then vm
         else if assigned = None \<and> map_of (bk_overrides s) (vd_id vm) = None then vm
         else (case vd_networkInterfaces vm of
                 None \<Rightarrow> with_flags s vm
               | Some nics \<Rightarrow>
                   (let updated = map (\<lambda>(i, nic). assigned_nic s (vd_id vm) assigned i nic) (enumerate 0 nics);
                        ipDisplay = display_ips updated
                    in with_flags s (vm \<lparr> vd_ipAddress := Some (if ipDisplay \<noteq> [] then ipDisplay else em_dash),
                                          vd_networkInterfaces := Some updated \<rparr>))))"

definition applyIpAssignmentsToRows :: "bulk_state \<Rightarrow> string list sobj \<Rightarrow> bulk_state \<Rightarrow> bulk_state" where
  "applyIpAssignmentsToRows render assignedIPsPerVM s =
     updateVmRowsAndForm (map (assigned_row render assignedIPsPerVM) (bk_vms render)) s"

definition flags_row :: "bulk_state \<Rightarrow> VmDataWithFlavor \<Rightarrow> VmDataWithFlavor" where
  "flags_row s vm =
     (let ipRow = map_of (bk_preserveIp s) (vd_id vm); macRow = map_of (bk_preserveMac s) (vd_id vm)
      in if ipRow = None \<and> macRow = None then vm
         else with_flags s (vm \<lparr> vd_networkInterfaces := map_option (\<lambda>nics.
                map (\<lambda>(i, nic). nic \<lparr> nic_preserve_ip := Some (map_of (list_or ipRow) i \<noteq> Some False),
                                      nic_preserve_mac := Some (map_of (list_or macRow) i \<noteq> Some False) \<rparr>)
                  (enumerate 0 nics)) (vd_networkInterfaces vm) \<rparr>))"

definition applyPreserveFlagsOnly :: "bulk_state \<Rightarrow> bulk_state \<Rightarrow> bulk_state" where
  "applyPreserveFlagsOnly render s =
     handleCloseBulkEditDialog (show_toast ''Preserve settings saved.'' ''success''
       (updateVmRowsAndForm (map (flags_row render) (bk_vms render)) s))"

definition overrides_row :: "bulk_state \<Rightarrow> VmDataWithFlavor \<Rightarrow> VmDataWithFlavor" where
  "overrides_row s vm =
     (case map_of (bk_overrides s) (vd_id vm) of
        None \<Rightarrow> vm
      | Some row \<Rightarrow>
          with_flags s (vm \<lparr> vd_networkInterfaces := map_option (\<lambda>nics.
            map (\<lambda>(i, nic). case map_of row i of
                   None \<Rightarrow> nic
                 | Some v \<Rightarrow> nic \<lparr> nic_preserve_ip := Some (ovr_preserveIP v), nic_preserve_mac := Some (ovr_preserveMAC v) \<rparr>)
              (enumerate 0 nics)) (vd_networkInterfaces vm) \<rparr>))"

definition applyOverrideChangesOnly :: "bulk_state \<Rightarrow> bulk_state \<Rightarrow> bulk_state" where
  "applyOverrideChangesOnly render s =
     handleCloseBulkEditDialog (show_toast ''Network override settings applied'' ''success''
       (updateVmRowsAndForm (map (overrides_row render) (bk_vms render)) s))"

section \<open>Apply\<close>

text \<open>What the address check of the server answers: a verdict and a reason per address, the failure with status 500 and its
  message, or any other failure.\<close>

datatype ip_check = IpResults "bool list" "string list" | IpUnavailable "string option" | IpError

definition cell_key :: "BulkIpEdit \<Rightarrow> string" where
  "cell_key c = be_vmName c @ ''__'' @ nat_str (be_interfaceIndex c)"

text \<open>The verdict per interface: the first address that is refused decides.\<close>

definition verdict_map :: "BulkIpEdit list \<Rightarrow> bool list \<Rightarrow> string list \<Rightarrow> (string \<times> (bool \<times> string option)) list" where
  "verdict_map flat isValid reason =
     fold (\<lambda>(index, item) m.
        let ok = (index < length isValid \<and> isValid ! index);
            why = (if index < length reason then Some (reason ! index) else None)
        in case map_of m (cell_key item) of
             None \<Rightarrow> m @ [(cell_key item, (ok, if ok then None else why))]
           | Some (curOk, _) \<Rightarrow>
               (if curOk \<and> \<not> ok then AList.update (cell_key item) (False, why) m else m))
       (enumerate 0 flat) []"

definition cell_ok :: "(string \<times> (bool \<times> string option)) list \<Rightarrow> BulkIpEdit \<Rightarrow> bool" where
  "cell_ok m c = (case map_of m (cell_key c) of None \<Rightarrow> True | Some (ok, _) \<Rightarrow> ok)"

definition cell_verdict :: "(string \<times> (bool \<times> string option)) list \<Rightarrow> BulkIpEdit \<Rightarrow> cell_status \<times> string" where
  "cell_verdict m c =
     (if cell_ok m c then (CellValid, ''Valid'')
      else (CellInvalid, str_or (case map_of m (cell_key c) of None \<Rightarrow> None | Some (_, why) \<Rightarrow> why) format_message))"

definition unavailable_message :: string where
  "unavailable_message = ''PCD IP validation service is unavailable (500). Please verify credentials or try again later.''"

definition applied_toast :: "nat \<Rightarrow> bulk_state \<Rightarrow> bulk_state" where
  "applied_toast n = show_toast (''Successfully applied network changes to '' @ nat_str n @ '' interface(s)'') ''success''"

text \<open>
  The end of a successful apply; \<open>render\<close> is the state the handler was created with. The messages that are set between
  the rows and the closing are erased by the closing.
\<close>

definition finish_apply :: "bulk_state \<Rightarrow> BulkIpEdit list \<Rightarrow> (string \<times> nat) list \<Rightarrow> bulk_state \<Rightarrow> bulk_state" where
  "finish_apply render ips clears s =
     handleCloseBulkEditDialog (applied_toast (length ips + length clears)
       (applyIpAssignmentsToRows render (applyClearsToAssignedIpsMap (buildAssignedIpsPerVm ips) clears) s))"

definition checked_apply ::
  "(string list \<Rightarrow> ip_check) \<Rightarrow> bulk_state \<Rightarrow> BulkIpEdit list \<Rightarrow> (string \<times> nat) list \<Rightarrow> bulk_state \<Rightarrow> bulk_state" where
  "checked_apply check render ips clears s =
     (let flat = flattenBulkIps ips; s1 = setBulkStatusForIps ips CellValidating s
      in case check (map be_ip flat) of
           IpUnavailable msg \<Rightarrow>
             (let message = str_or msg unavailable_message
              in show_toast message ''error'' (markBulkValidationFailure ips message s1)
                   \<lparr> bk_reports := bk_reports s1 @ [''bulk-ip-validation-request''] \<rparr>)
         | IpError \<Rightarrow> s1 \<lparr> bk_reports := bk_reports s1 @ [''bulk-ip-validation-assignment''] \<rparr>
         | IpResults isValid reason \<Rightarrow>
             (let m = verdict_map flat isValid reason;
                  s2 = fold (\<lambda>c. set_verdict (be_vmName c) (be_interfaceIndex c) (cell_verdict m c)) ips s1;
                  validIPs = filter (cell_ok m) ips
              in if list_ex (\<lambda>c. \<not> cell_ok m c) ips then s2
                 else finish_apply render validIPs clears s2))"

definition handleApplyBulkIPs :: "(string list \<Rightarrow> ip_check) option \<Rightarrow> bulk_state \<Rightarrow> bulk_state" where
  "handleApplyBulkIPs check s =
     (case validateRequiredIpsForPreserveEnabled s of (hasRequiredIps, s0) \<Rightarrow>
      if \<not> hasRequiredIps
      then show_toast ''Provide an IP address for all interfaces where Preserve IP is enabled.'' ''error'' s0
      else (let ipsToApply = collectIpsToApply s; ipsToClear = collectIpsToClear s
            in if length ipsToApply = 0 \<and> length ipsToClear = 0
               then (if hasBulkOverrideChanges s then applyOverrideChangesOnly s s0 else applyPreserveFlagsOnly s s0)
               else if hasBulkIpValidationErrors s
               then show_toast ''Resolve invalid IP addresses before applying changes.'' ''error'' s0
               else (case check of
                       Some c \<Rightarrow> checked_apply c s ipsToApply ipsToClear (s0 \<lparr> bk_assigning := True \<rparr>) \<lparr> bk_assigning := False \<rparr>
                     | None \<Rightarrow> finish_apply s ipsToApply ipsToClear (s0 \<lparr> bk_assigning := True \<rparr>) \<lparr> bk_assigning := False \<rparr>)))"

section \<open>Grids\<close>

definition grid_ok :: "'v grid \<Rightarrow> bool" where
  "grid_ok m = (obj_ok key_before m \<and> list_all (obj_ok (<)) (obj_vals m))"

lemma grid_ok_row: "grid_ok m \<Longrightarrow> obj_ok (<) (grid_row m vm)"
  by (auto simp: grid_ok_def grid_row_def list_all_iff obj_vals_def ikey.ok_Nil split: option.split
      dest!: map_of_SomeD)
    (metis list_or_simps(2) option.exhaust list_or_simps(1) ikey.ok_Nil imageI map_of_SomeD snd_conv)

lemma grid_ok_sobj_set:
  assumes "grid_ok m" "obj_ok (<) row"
  shows "grid_ok (sobj_set vm row m)"
  using assms skey.ok_set [of m vm row] set_obj_set_subset [of key_before vm row m]
  by (fastforce simp: grid_ok_def list_all_iff obj_vals_def)

lemma grid_ok_set: "grid_ok m \<Longrightarrow> grid_ok (grid_set vm i v m)"
  unfolding grid_set_def by (intro grid_ok_sobj_set ikey.ok_set grid_ok_row)

lemma grid_ok_Nil [simp]: "grid_ok []"
  by (simp add: grid_ok_def obj_vals_def skey.ok_Nil)

lemma obj_vals_map: "obj_vals (obj_map f m) = map f (obj_vals m)"
  by (induction m) (simp_all add: obj_vals_def)

lemma grid_ok_map [simp]: "grid_ok (obj_map (obj_map f) m) = grid_ok m"
  by (simp add: grid_ok_def obj_vals_map list_all_iff)

lemma grid_get_map [simp]: "grid_get (obj_map (obj_map f) m) vm i = map_option f (grid_get m vm i)"
  by (simp add: grid_get_def split: option.split)

lemma grid_get_set_row: "grid_get (sobj_set vm row m) w i = (if vm = w then map_of row i else grid_get m w i)"
  by (simp add: grid_get_def)

lemma grid_entry_iff:
  assumes "grid_ok m"
  shows "(\<exists>row. (vm, row) \<in> set m \<and> (i, v) \<in> set row) \<longleftrightarrow> grid_get m vm i = Some v"
proof -
  have row: "(vm, row) \<in> set m \<longleftrightarrow> map_of m vm = Some row" for row
    using assms skey.entry_iff [of m vm row] by (simp add: grid_ok_def)
  have "(i, v) \<in> set row \<longleftrightarrow> map_of row i = Some v" if "map_of m vm = Some row" for row
    using grid_ok_row [OF assms, of vm] that ikey.entry_iff [of row i v] by (simp add: grid_row_def)
  then show ?thesis by (auto simp: row grid_get_def split: option.split)
qed

lemma grid_any_iff:
  assumes "grid_ok m"
  shows "grid_any P m \<longleftrightarrow> (\<exists>vm i v. grid_get m vm i = Some v \<and> P v)"
proof -
  have "grid_any P m \<longleftrightarrow> (\<exists>vm row i v. (vm, row) \<in> set m \<and> (i, v) \<in> set row \<and> P v)"
    by (force simp: grid_any_def list_ex_iff obj_vals_def)
  then show ?thesis using grid_entry_iff [OF assms] by metis
qed

lemma grid_cells_iff:
  assumes "grid_ok m"
  shows "c \<in> set (grid_cells m) \<longleftrightarrow> grid_get m (be_vmName c) (be_interfaceIndex c) = Some (be_ip c)"
proof -
  have "c \<in> set (grid_cells m) \<longleftrightarrow>
      (\<exists>row. (be_vmName c, row) \<in> set m \<and> (be_interfaceIndex c, be_ip c) \<in> set row)"
    by (cases c) (force simp: grid_cells_def)
  then show ?thesis using grid_entry_iff [OF assms] by metis
qed

section \<open>What an assignment map holds\<close>

definition assigned_at :: "string list sobj \<Rightarrow> string \<Rightarrow> nat \<Rightarrow> string option" where
  "assigned_at m vm i =
     (let xs = list_or (map_of m vm) in if i < length xs then Some (xs ! i) else None)"

lemma length_put_at: "length (put_at i x xs) = max (Suc i) (length xs)"
  by (simp add: put_at_def)

lemma put_at_nth: "j < max (Suc i) (length xs) \<Longrightarrow>
   put_at i x xs ! j = (if j = i then x else if j < length xs then xs ! j else [])"
  by (auto simp: put_at_def nth_list_update nth_append)

lemma assigned_at_put:
  "assigned_at (put_cell v j x m) w i =
     (if v = w \<and> i = j then Some x
      else if v = w \<and> assigned_at m w i = None \<and> i < j then Some [] else assigned_at m w i)"
  by (auto simp: assigned_at_def put_cell_def Let_def length_put_at put_at_nth)

lemma assigned_at_fold_other:
  "\<lbrakk>\<And>c. c \<in> set cs \<Longrightarrow> (f c, g c) \<noteq> (w, i)\<rbrakk> \<Longrightarrow>
   assigned_at (fold (\<lambda>c. put_cell (f c) (g c) (h c)) cs m) w i = assigned_at m w i \<or>
   assigned_at m w i = None \<and> assigned_at (fold (\<lambda>c. put_cell (f c) (g c) (h c)) cs m) w i = Some []"
proof (induction cs arbitrary: m)
  case (Cons c cs)
  have "assigned_at (put_cell (f c) (g c) (h c) m) w i = assigned_at m w i \<or>
        assigned_at m w i = None \<and> assigned_at (put_cell (f c) (g c) (h c) m) w i = Some []"
    using Cons.prems [of c] by (auto simp: assigned_at_put)
  moreover have "assigned_at (fold (\<lambda>c. put_cell (f c) (g c) (h c)) cs (put_cell (f c) (g c) (h c) m)) w i =
        assigned_at (put_cell (f c) (g c) (h c) m) w i \<or>
      assigned_at (put_cell (f c) (g c) (h c) m) w i = None \<and>
        assigned_at (fold (\<lambda>c. put_cell (f c) (g c) (h c)) cs (put_cell (f c) (g c) (h c) m)) w i = Some []"
    by (rule Cons.IH) (use Cons.prems in auto)
  ultimately show ?case by auto
qed simp

lemma assigned_at_fold:
  assumes "c \<in> set cs" "f c = w" "g c = i"
    and "\<And>d. d \<in> set cs \<Longrightarrow> f d = w \<Longrightarrow> g d = i \<Longrightarrow> h d = x"
  shows "assigned_at (fold (\<lambda>c. put_cell (f c) (g c) (h c)) cs m) w i = Some x"
  using assms
proof (induction cs arbitrary: m c)
  case (Cons d cs)
  show ?case
  proof (cases "\<exists>e \<in> set cs. f e = w \<and> g e = i")
    case True
    then obtain e where "e \<in> set cs" "f e = w" "g e = i" by blast
    then show ?thesis using Cons.IH [of e "put_cell (f d) (g d) (h d) m"] Cons.prems(4) by simp
  next
    case False
    then have "f d = w" "g d = i" using Cons.prems(1-3) by auto
    then have "assigned_at (put_cell (f d) (g d) (h d) m) w i = Some x"
      using Cons.prems(4) by (simp add: assigned_at_put)
    with assigned_at_fold_other [of cs f g w i h "put_cell (f d) (g d) (h d) m"] False show ?thesis by auto
  qed
qed simp

section \<open>What an apply writes\<close>

text \<open>What a written row has, as a function of the cell: what was typed, nothing where the preservation is off and the text is
  empty, and what the row has where it is preserved and the text is empty or the known address.\<close>

definition cell_result :: "bool \<Rightarrow> string \<Rightarrow> string \<Rightarrow> string list \<Rightarrow> string list" where
  "cell_result preserveIp existing text ips =
     (if preserveIp \<and> js_trim text = js_trim existing then ips
      else if parseIpList (js_trim text) \<noteq> [] then parseIpList (js_trim text)
      else if preserveIp then ips else [])"

definition assignment :: "bulk_state \<Rightarrow> string list sobj" where
  "assignment s = applyClearsToAssignedIpsMap (buildAssignedIpsPerVm (collectIpsToApply s)) (collectIpsToClear s)"

lemma parseIpList_Nil [simp]: "parseIpList [] = []"
  by (simp add: parseIpList_def)

lemma assignment_at:
  assumes ok: "grid_ok (bk_editIPs s)" and cell: "grid_get (bk_editIPs s) w i = Some t"
  defines "c \<equiv> \<lparr> be_vmName = w, be_interfaceIndex = i, be_ip = t \<rparr>"
  shows "cell_applied s c \<Longrightarrow> assigned_at (assignment s) w i = Some (js_trim t)"
    and "cell_cleared s c \<Longrightarrow> assigned_at (assignment s) w i = Some []"
    and "\<not> cell_applied s c \<Longrightarrow> \<not> cell_cleared s c \<Longrightarrow> assigned_at (assignment s) w i \<in> {None, Some []}"
proof -
  let ?ips = "collectIpsToApply s" and ?clears = "collectIpsToClear s"
  have mem: "c \<in> set (edit_cells s)"
    using grid_cells_iff [OF ok, of c] cell by (simp add: c_def)
  have only: "d = c" if "d \<in> set (edit_cells s)" "be_vmName d = w" "be_interfaceIndex d = i" for d
    using grid_cells_iff [OF ok, of d] that cell by (cases d) (simp add: c_def)
  have built: "assigned_at (buildAssignedIpsPerVm ?ips) w i = Some (js_trim t)" if "cell_applied s c"
    unfolding buildAssignedIpsPerVm_def
  proof (rule assigned_at_fold)
    show "c \<lparr> be_ip := js_trim t \<rparr> \<in> set ?ips"
      using mem that by (force simp: collectIpsToApply_def c_def)
    fix d assume "d \<in> set ?ips" and d: "be_vmName d = w" "be_interfaceIndex d = i"
    then obtain e where e: "e \<in> set (edit_cells s)" "d = e \<lparr> be_ip := js_trim (be_ip e) \<rparr>"
      by (auto simp: collectIpsToApply_def)
    with only [of e] d have "e = c" by simp
    with e show "be_ip d = js_trim t" by (simp add: c_def)
  qed (simp_all add: c_def)
  have unbuilt: "assigned_at (buildAssignedIpsPerVm ?ips) w i \<in> {None, Some []}" if "\<not> cell_applied s c"
  proof -
    have "(be_vmName d, be_interfaceIndex d) \<noteq> (w, i)" if "d \<in> set ?ips" for d
      using that only \<open>\<not> cell_applied s c\<close> by (auto simp: collectIpsToApply_def)
    from assigned_at_fold_other [of ?ips be_vmName be_interfaceIndex w i be_ip "[]", OF this]
    show ?thesis by (auto simp: buildAssignedIpsPerVm_def assigned_at_def)
  qed
  have kept: "assigned_at (assignment s) w i = assigned_at (buildAssignedIpsPerVm ?ips) w i \<or>
      assigned_at (buildAssignedIpsPerVm ?ips) w i = None \<and> assigned_at (assignment s) w i = Some []"
    if "\<not> cell_cleared s c"
  proof -
    have "(fst d, snd d) \<noteq> (w, i)" if "d \<in> set ?clears" for d
      using that only \<open>\<not> cell_cleared s c\<close> by (auto simp: collectIpsToClear_def)
    from assigned_at_fold_other [of ?clears fst snd w i "\<lambda>_. []", OF this]
    show ?thesis by (auto simp: assignment_def applyClearsToAssignedIpsMap_def)
  qed
  show "assigned_at (assignment s) w i = Some (js_trim t)" if "cell_applied s c"
  proof -
    have "\<not> cell_cleared s c" using that by (auto simp: cell_applied_def cell_cleared_def Let_def)
    from kept [OF this] built [OF that] show ?thesis by auto
  qed
  show "assigned_at (assignment s) w i = Some []" if "cell_cleared s c"
    unfolding assignment_def applyClearsToAssignedIpsMap_def
    by (rule assigned_at_fold [where c = "(w, i)"]) (use mem that in \<open>force simp: collectIpsToClear_def c_def\<close>)+
  show "assigned_at (assignment s) w i \<in> {None, Some []}" if "\<not> cell_applied s c" "\<not> cell_cleared s c"
    using kept [OF that(2)] unbuilt [OF that(1)] by auto
qed

lemma assigned_nic_ips:
  assumes "grid_ok (bk_editIPs s)" "grid_get (bk_editIPs s) w i = Some t"
    and known: "js_trim (getExistingIp s w i) = [] \<Longrightarrow> nic_ips nic = []"
  shows "nic_ips (assigned_nic s w (map_of (assignment s) w) i nic) =
           cell_result (getPreserveIpFlag s w i) (getExistingIp s w i) t (nic_ips nic)"
proof -
  let ?c = "\<lparr> be_vmName = w, be_interfaceIndex = i, be_ip = t \<rparr>"
  have "nic_ips (assigned_nic s w (map_of (assignment s) w) i nic) =
     (case assigned_at (assignment s) w i of
        None \<Rightarrow> nic_ips nic
      | Some x \<Rightarrow> (if parseIpList x \<noteq> [] then parseIpList x else if getPreserveIpFlag s w i then nic_ips nic else []))"
    by (auto simp: assigned_nic_def assigned_at_def Let_def split: option.split)
  note nic = this
  consider "cell_applied s ?c" | "cell_cleared s ?c" | "\<not> cell_applied s ?c" "\<not> cell_cleared s ?c" by blast
  then show ?thesis
  proof cases
    case 1
    then show ?thesis using assignment_at(1) [OF assms(1,2)]
      by (auto simp: nic cell_result_def cell_applied_def Let_def)
  next
    case 2
    then show ?thesis using assignment_at(2) [OF assms(1,2)]
      by (auto simp: nic cell_result_def cell_cleared_def)
  next
    case 3
    then show ?thesis using assignment_at(3) [OF assms(1,2)] known
      by (auto simp: nic cell_result_def cell_applied_def cell_cleared_def Let_def)
  qed
qed

lemma assigned_nic_flags:
  "nic_preserve_ip (assigned_nic s w a i nic) =
     Some (case grid_get (bk_overrides s) w i of None \<Rightarrow> getPreserveIpFlag s w i | Some v \<Rightarrow> ovr_preserveIP v)"
  by (simp add: assigned_nic_def Let_def split: option.split)

lemma with_flags_simps [simp]:
  "vd_id (with_flags s vm) = vd_id vm" "vd_networkInterfaces (with_flags s vm) = vd_networkInterfaces vm"
  "vd_ipAddress (with_flags s vm) = vd_ipAddress vm"
  "vd_preserveIp (with_flags s vm) =
     (case map_of (bk_preserveIp s) (vd_id vm) of None \<Rightarrow> vd_preserveIp vm | Some row \<Rightarrow> Some row)"
  by (simp_all add: with_flags_def Let_def split: option.split)

text \<open>The row of a machine that is in the dialog.\<close>

lemma assigned_row_in:
  assumes "map_of (bk_overrides s) (vd_id vm) \<noteq> None" "map_of (bk_preserveIp s) (vd_id vm) = Some row"
    and "vd_networkInterfaces vm = Some nics"
  shows "vd_id (assigned_row s a vm) = vd_id vm"
    and "vd_preserveIp (assigned_row s a vm) = Some row"
    and "vd_networkInterfaces (assigned_row s a vm) =
           Some (map (\<lambda>(i, nic). assigned_nic s (vd_id vm) (map_of a (vd_id vm)) i nic) (enumerate 0 nics))"
  using assms by (auto simp: assigned_row_def Let_def)

section \<open>The dialog as a state machine\<close>

text \<open>The states of the dialog of a form \<open>s0\<close>: opened, and then edited in cells it has.\<close>

inductive dialog :: "bulk_state \<Rightarrow> bulk_state \<Rightarrow> bool" for s0 where
  opened: "bk_selected s0 \<noteq> [] \<Longrightarrow> dialog s0 (handleOpenBulkIPAssignment s0)"
| preserve_ip: "dialog s0 s \<Longrightarrow> grid_get (bk_editIPs s) vm i \<noteq> None \<Longrightarrow> dialog s0 (handleBulkPreserveIpChange vm i b s)"
| preserve_mac: "dialog s0 s \<Longrightarrow> grid_get (bk_editIPs s) vm i \<noteq> None \<Longrightarrow> dialog s0 (handleBulkPreserveMacChange vm i b s)"
| typed: "dialog s0 s \<Longrightarrow> grid_get (bk_editIPs s) vm i \<noteq> None \<Longrightarrow> dialog s0 (handleBulkIpChange vm i t s)"
| cleared: "dialog s0 s \<Longrightarrow> dialog s0 (handleClearAllIPs s)"

definition open_cell_at :: "bulk_state \<Rightarrow> string \<Rightarrow> nat \<Rightarrow> open_cell option" where
  "open_cell_at s vm i =
     (if vm \<in> set (bk_selected s)
      then case find (\<lambda>v. vd_id v = vm) (bk_vms s) of None \<Rightarrow> None | Some v \<Rightarrow> map_of (open_cells (bk_originalIPs s) v) i
      else None)"

lemma open_grid_row: "map_of (open_grid s f) vm =
   (if vm \<in> set (bk_selected s) then map_option (\<lambda>v. obj_map f (open_cells (bk_originalIPs s) v)) (find (\<lambda>v. vd_id v = vm) (bk_vms s)) else None)"
proof -
  have "map_of (fold (\<lambda>vmId m. case find (\<lambda>v. vd_id v = vmId) (bk_vms s) of None \<Rightarrow> m
      | Some v \<Rightarrow> sobj_set vmId (obj_map f (open_cells (bk_originalIPs s) v)) m) ids m) vm =
     (case find (\<lambda>v. vd_id v = vm) (bk_vms s) of None \<Rightarrow> map_of m vm
      | Some v \<Rightarrow> if vm \<in> set ids then Some (obj_map f (open_cells (bk_originalIPs s) v)) else map_of m vm)" for ids m
    by (induction ids arbitrary: m) (auto split: option.split)
  then show ?thesis by (auto simp: open_grid_def split: option.split)
qed

lemma open_grid_get: "grid_get (open_grid s f) vm i = map_option f (open_cell_at s vm i)"
  by (auto simp: grid_get_def open_grid_row open_cell_at_def split: option.split)

lemma map_fst_keyed [simp]: "map fst (map (\<lambda>(i, x). (i, f i x)) xs) = map fst xs"
  by (induction xs) auto

lemma map_of_keyed: "map_of (map (\<lambda>(i, x). (i, f i x)) xs) k = map_option (f k) (map_of xs k)"
  by (induction xs) auto

lemma map_of_enumerate: "map_of (enumerate n xs) j = (if n \<le> j \<and> j < n + length xs then Some (xs ! (j - n)) else None)"
  by (induction xs arbitrary: n) (auto simp: nth_Cons' not_less_eq_eq)

lemma open_cells_ok: "obj_ok (<) (open_cells originals vm)"
proof -
  have "map fst (open_cells originals vm) = map fst (discovered vm)"
    unfolding open_cells_def by (rule map_fst_keyed)
  moreover have "map fst (discovered vm) = (if nonempty_opt (vd_networkInterfaces vm)
      then [0..<length (list_or (vd_networkInterfaces vm))] else [0])"
    using map_fst_keyed [of "\<lambda>_. nic_text" "enumerate 0 (list_or (vd_networkInterfaces vm))"]
      map_fst_enumerate [of 0 "list_or (vd_networkInterfaces vm)"]
    unfolding discovered_def by simp
  ultimately show ?thesis by (simp add: obj_ok_def not_less)
qed

lemma open_grid_ok: "grid_ok (open_grid s f)"
proof -
  have "grid_ok m \<Longrightarrow> grid_ok (fold (\<lambda>vmId m. case find (\<lambda>v. vd_id v = vmId) (bk_vms s) of None \<Rightarrow> m
      | Some vm \<Rightarrow> sobj_set vmId (obj_map f (open_cells (bk_originalIPs s) vm)) m) ids m)" for ids m
  proof (induction ids arbitrary: m)
    case (Cons x ids)
    have "grid_ok (case find (\<lambda>v. vd_id v = x) (bk_vms s) of None \<Rightarrow> m
      | Some vm \<Rightarrow> sobj_set x (obj_map f (open_cells (bk_originalIPs s) vm)) m)"
      using Cons.prems by (auto split: option.split intro!: grid_ok_sobj_set simp: open_cells_ok)
    then show ?case using Cons.IH by simp
  qed simp
  then show ?thesis by (simp add: open_grid_def)
qed

lemma open_cells_get:
  assumes "vd_networkInterfaces vm = Some nics" "i < length nics"
  shows "map_of (open_cells originals vm) i = Some (open_cell_of originals vm i (nic_text (nics ! i)))"
proof -
  have "nics \<noteq> []" using assms by auto
  then have "map_of (discovered vm) i = Some (nic_text (nics ! i))"
    using assms map_of_keyed [of "\<lambda>_. nic_text" "enumerate 0 nics" i] by (simp add: discovered_def map_of_enumerate)
  then show ?thesis by (simp add: open_cells_def map_of_keyed)
qed

lemma grid_ok_merge: "grid_ok m \<Longrightarrow> grid_ok (merge_rows m u)"
  unfolding merge_rows_def
  by (induction u arbitrary: m) (auto intro!: grid_ok_sobj_set ikey.ok_merge grid_ok_row split: prod.split)

lemma map_of_rev_ok: "obj_ok prec row \<Longrightarrow> map_of (rev row) = map_of row"
  by (rule map_of_inject_set [THEN iffD2]) (simp_all add: obj_ok_def flip: rev_map)

lemma grid_get_Cons: "grid_get ((v, row) # u) vm i = (if v = vm then map_of row i else grid_get u vm i)"
  by (simp add: grid_get_def)

lemma grid_get_fresh: "v \<notin> fst ` set u \<Longrightarrow> grid_get u v i = None"
  by (auto simp: grid_get_def split: option.split dest: map_of_SomeD intro: rev_image_eqI)

lemma grid_get_merge:
  "distinct (map fst u) \<Longrightarrow> list_all (obj_ok (<)) (obj_vals u) \<Longrightarrow>
   grid_get (merge_rows m u) vm i = (case grid_get u vm i of None \<Rightarrow> grid_get m vm i | Some v \<Rightarrow> Some v)"
proof (induction u arbitrary: m)
  case (Cons e u)
  obtain v row where e: "e = (v, row)" by (cases e)
  let ?m = "sobj_set v (obj_merge (<) (grid_row m v) row) m"
  have "grid_get (merge_rows m (e # u)) vm i = (case grid_get u vm i of None \<Rightarrow> grid_get ?m vm i | Some x \<Rightarrow> Some x)"
    using Cons.IH [of ?m] Cons.prems by (simp add: merge_rows_def e obj_vals_def)
  moreover have "grid_get u v i = None"
    using Cons.prems(1) by (intro grid_get_fresh) (simp add: e)
  moreover have "obj_ok (<) row" using Cons.prems by (simp add: e obj_vals_def)
  ultimately show ?case
    by (cases "v = vm") (auto simp: e grid_get_Cons grid_get_set_row map_of_obj_merge map_of_rev_ok map_add_def
        grid_get_row [symmetric] split: option.split)
qed (simp add: merge_rows_def)

lemma map_of_clear_overrides:
  "map_of (fold clear_override ks row) i =
     (if i \<in> set ks then Some \<lparr> ovr_preserveIP = False,
                                ovr_preserveMAC = (case map_of row i of None \<Rightarrow> True | Some v \<Rightarrow> ovr_preserveMAC v) \<rparr>
      else map_of row i)"
  by (induction ks arbitrary: row) (auto simp: clear_override_def split: option.split)

lemma clear_overrides_ok:
  assumes "grid_ok m" shows "grid_ok (clear_overrides u m)"
proof -
  have row: "obj_ok (<) row \<Longrightarrow> obj_ok (<) (fold clear_override ks row)" for ks and row :: "nic_override iobj"
    by (induction ks arbitrary: row) (auto simp: clear_override_def ikey.ok_set)
  have "grid_ok m \<Longrightarrow> grid_ok (fold (\<lambda>(vm, row) next. sobj_set vm (fold clear_override (obj_keys row) (grid_row next vm)) next) u m)" for u m
    by (induction u arbitrary: m) (auto intro!: grid_ok_sobj_set row grid_ok_row)
  with assms show ?thesis by (simp add: clear_overrides_def)
qed

lemma grid_get_clear_overrides:
  "distinct (map fst u) \<Longrightarrow>
   grid_get (clear_overrides u m) vm i =
     (if grid_get u vm i = None then grid_get m vm i
      else Some \<lparr> ovr_preserveIP = False,
                  ovr_preserveMAC = (case grid_get m vm i of None \<Rightarrow> True | Some v \<Rightarrow> ovr_preserveMAC v) \<rparr>)"
proof (induction u arbitrary: m)
  case (Cons e u)
  obtain v row where e: "e = (v, row)" by (cases e)
  let ?m = "sobj_set v (fold clear_override (obj_keys row) (grid_row m v)) m"
  have step: "clear_overrides (e # u) m = clear_overrides u ?m" by (simp add: clear_overrides_def e)
  have IH: "grid_get (clear_overrides u ?m) vm i =
     (if grid_get u vm i = None then grid_get ?m vm i
      else Some \<lparr> ovr_preserveIP = False,
                  ovr_preserveMAC = (case grid_get ?m vm i of None \<Rightarrow> True | Some v \<Rightarrow> ovr_preserveMAC v) \<rparr>)"
    using Cons.IH [of ?m] Cons.prems by simp
  have other: "grid_get u v i = None" using Cons.prems by (intro grid_get_fresh) (simp add: e)
  have key: "i \<in> set (obj_keys row) \<longleftrightarrow> map_of row i \<noteq> None" by (simp add: obj_keys_def map_of_eq_None_iff)
  show ?case
  proof (cases "v = vm")
    case True
    with other show ?thesis unfolding step IH
      by (cases "map_of row i") (simp_all add: e grid_get_Cons grid_get_set_row map_of_clear_overrides key grid_get_row [symmetric])
  next
    case False
    then show ?thesis unfolding step IH by (simp add: e grid_get_set_row grid_get_Cons)
  qed
qed (simp add: clear_overrides_def)

text \<open>What every state of the dialog has: the rows and the known addresses of the opening, and one cell per interface in each
  of the objects.\<close>

definition same_cells :: "bulk_state \<Rightarrow> 'v grid \<Rightarrow> bool" where
  "same_cells s0 m \<longleftrightarrow> grid_ok m \<and> (\<forall>vm i. grid_get m vm i = None \<longleftrightarrow> open_cell_at s0 vm i = None)"

lemma same_cells_open [simp]: "same_cells s0 (open_grid s0 f)"
  by (simp add: same_cells_def open_grid_ok open_grid_get)

lemma same_cells_set: "same_cells s0 m \<Longrightarrow> open_cell_at s0 vm i \<noteq> None \<Longrightarrow> same_cells s0 (grid_set vm i v m)"
  by (auto simp: same_cells_def grid_ok_set)

lemma same_cells_map [simp]: "same_cells s0 (obj_map (obj_map f) m) = same_cells s0 m"
  by (simp add: same_cells_def)

lemma grid_ok_distinct: "grid_ok m \<Longrightarrow> distinct (map fst m)" "grid_ok m \<Longrightarrow> list_all (obj_ok (<)) (obj_vals m)"
  by (simp_all add: grid_ok_def obj_ok_def)

lemma same_cellsD: "same_cells s0 m \<Longrightarrow> grid_get m vm i = None \<longleftrightarrow> open_cell_at s0 vm i = None"
  by (simp add: same_cells_def)

lemma same_cells_merge:
  assumes "same_cells s0 m" "same_cells s0 u"
  shows "same_cells s0 (merge_rows m u)"
  unfolding same_cells_def
proof (intro conjI allI)
  have u: "grid_ok u" using assms(2) by (simp add: same_cells_def)
  show "grid_ok (merge_rows m u)" using assms(1) by (simp add: same_cells_def grid_ok_merge)
  fix vm i
  show "(grid_get (merge_rows m u) vm i = None) = (open_cell_at s0 vm i = None)"
    using same_cellsD [OF assms(1), of vm i] same_cellsD [OF assms(2), of vm i] grid_ok_distinct [OF u]
    by (cases "grid_get u vm i") (auto simp: grid_get_merge)
qed

lemma same_cells_clear: "same_cells s0 m \<Longrightarrow> same_cells s0 u \<Longrightarrow> same_cells s0 (clear_overrides u m)"
  using grid_ok_distinct(1) [of u] by (auto simp: same_cells_def clear_overrides_ok grid_get_clear_overrides)

definition dialog_inv :: "bulk_state \<Rightarrow> bulk_state \<Rightarrow> bool" where
  "dialog_inv s0 s \<longleftrightarrow>
     bk_vms s = bk_vms s0 \<and> bk_selected s = bk_selected s0 \<and> bk_existingIPs s = open_grid s0 ce_existing \<and>
     same_cells s0 (bk_editIPs s) \<and> same_cells s0 (bk_preserveIp s) \<and> same_cells s0 (bk_overrides s) \<and>
     same_cells s0 (bk_status s)"

lemma set_verdict_simps [simp]:
  "bk_vms (set_verdict vm i v s) = bk_vms s" "bk_selected (set_verdict vm i v s) = bk_selected s"
  "bk_existingIPs (set_verdict vm i v s) = bk_existingIPs s" "bk_editIPs (set_verdict vm i v s) = bk_editIPs s"
  "bk_preserveIp (set_verdict vm i v s) = bk_preserveIp s" "bk_overrides (set_verdict vm i v s) = bk_overrides s"
  "bk_preserveMac (set_verdict vm i v s) = bk_preserveMac s" "bk_open (set_verdict vm i v s) = bk_open s"
  "bk_toasts (set_verdict vm i v s) = bk_toasts s" "bk_formVms (set_verdict vm i v s) = bk_formVms s"
  "bk_status (set_verdict vm i v s) = grid_set vm i (fst v) (bk_status s)"
  "bk_reports (set_verdict vm i v s) = bk_reports s"
  by (simp_all add: set_verdict_def)

lemma dialog_invariant: "dialog s0 s \<Longrightarrow> dialog_inv s0 s"
proof (induction rule: dialog.induct)
  case opened
  then show ?case by (simp add: dialog_inv_def handleOpenBulkIPAssignment_def)
next
  case (preserve_ip s vm i b)
  then have "open_cell_at s0 vm i \<noteq> None" unfolding dialog_inv_def by (metis same_cellsD)
  with preserve_ip.IH show ?case
    by (simp add: dialog_inv_def handleBulkPreserveIpChange_def Let_def same_cells_set)
next
  case (preserve_mac s vm i b)
  then show ?case by (simp add: dialog_inv_def handleBulkPreserveMacChange_def)
next
  case (typed s vm i t)
  then have "open_cell_at s0 vm i \<noteq> None" unfolding dialog_inv_def by (metis same_cellsD)
  with typed.IH show ?case
    by (simp add: dialog_inv_def handleBulkIpChange_def Let_def same_cells_set)
next
  case (cleared s)
  then show ?case
    by (simp add: dialog_inv_def handleClearAllIPs_def buildClearAllIpsUpdate_def Let_def same_cells_merge same_cells_clear)
qed

lemma getExistingIp_dialog:
  "dialog s0 s \<Longrightarrow> getExistingIp s vm i = (case open_cell_at s0 vm i of None \<Rightarrow> [] | Some c \<Rightarrow> ce_existing c)"
  using dialog_invariant [of s0 s]
  by (simp add: dialog_inv_def getExistingIp_def open_grid_get split: option.split)

lemma handleClose_simps [simp]:
  "bk_vms (handleCloseBulkEditDialog s) = bk_vms s" "bk_formVms (handleCloseBulkEditDialog s) = bk_formVms s"
  "bk_open (handleCloseBulkEditDialog s) = False" "bk_toasts (handleCloseBulkEditDialog s) = bk_toasts s"
  by (simp_all add: handleCloseBulkEditDialog_def)

lemma finish_apply_rows:
  "bk_vms (finish_apply render ips clears s) =
     map (assigned_row render (applyClearsToAssignedIpsMap (buildAssignedIpsPerVm ips) clears)) (bk_vms render)"
  by (simp add: finish_apply_def applied_toast_def show_toast_def applyIpAssignmentsToRows_def updateVmRowsAndForm_def)

text \<open>The cell of an interface of a selected machine, and what the dialog knows of its address.\<close>

lemma dialog_cell:
  assumes "vm \<in> set (bk_vms s0)" "distinct (map vd_id (bk_vms s0))" "vd_id vm \<in> set (bk_selected s0)"
    and "vd_networkInterfaces vm = Some nics" "i < length nics"
  shows "open_cell_at s0 (vd_id vm) i = Some (open_cell_of (bk_originalIPs s0) vm i (nic_text (nics ! i)))"
  using assms find_distinct [OF assms(2,1)] by (simp add: open_cell_at_def open_cells_get)

lemma nic_text_blank: "js_trim (nic_text nic) = [] \<longleftrightarrow> filter (\<lambda>v. js_trim v \<noteq> []) (nic_ips nic) = []"
proof
  have join: "js_trim v \<noteq> [] \<Longrightarrow> js_trim (v @ w) \<noteq> []" "js_trim v \<noteq> [] \<Longrightarrow> js_trim (w @ v) \<noteq> []" for v w
    by (auto simp: js_trim_nil_iff js_blank_def)
  have "js_trim (js_join sep vs) \<noteq> []" if "vs \<noteq> []" "list_all (\<lambda>v. js_trim v \<noteq> []) vs" for vs sep
    using that by (cases vs; cases "tl vs") (auto simp: join)
  then show "js_trim (nic_text nic) = [] \<Longrightarrow> filter (\<lambda>v. js_trim v \<noteq> []) (nic_ips nic) = []"
    unfolding nic_text_def by (metis (no_types, lifting) list_all_iff mem_Collect_eq set_filter)
  show "filter (\<lambda>v. js_trim v \<noteq> []) (nic_ips nic) = [] \<Longrightarrow> js_trim (nic_text nic) = []"
    by (simp add: nic_text_def)
qed

text \<open>What the effect records is never blank, and stays.\<close>

definition originals_filled :: "string grid \<Rightarrow> bool" where
  "originals_filled m \<longleftrightarrow> (\<forall>vm i t. grid_get m vm i = Some t \<longrightarrow> js_trim t \<noteq> [])"

lemma record_original_filled: "originals_filled m \<Longrightarrow> originals_filled (record_original vm c m)"
  by (auto simp: originals_filled_def record_original_def)

lemma record_vm_filled:
  assumes "originals_filled m" shows "originals_filled (record_vm vm m)"
proof -
  have "originals_filled m \<Longrightarrow> originals_filled (fold (record_original v) cs m)" for v cs m
    by (induction cs arbitrary: m) (auto simp: record_original_filled)
  moreover have "originals_filled (if map_of m (vd_id vm) = None then sobj_set (vd_id vm) [] m else m)"
    using assms by (auto simp: originals_filled_def grid_get_set_row)
  ultimately show ?thesis by (simp add: record_vm_def)
qed

lemma originals_effect_filled: "originals_filled (bk_originalIPs s) \<Longrightarrow> originals_filled (bk_originalIPs (originals_effect s))"
proof -
  have "originals_filled m \<Longrightarrow> originals_filled (fold record_vm vms m)" for vms m
    by (induction vms arbitrary: m) (auto simp: record_vm_filled)
  then show "originals_filled (bk_originalIPs s) \<Longrightarrow> originals_filled (bk_originalIPs (originals_effect s))"
    by (simp add: originals_effect_def)
qed

lemma known_address:
  assumes "originals_filled (bk_originalIPs s0)" "dialog s0 s"
    and "vm \<in> set (bk_vms s0)" "distinct (map vd_id (bk_vms s0))" "vd_id vm \<in> set (bk_selected s0)"
    and "vd_networkInterfaces vm = Some nics" "i < length nics" "list_all (\<lambda>ip. js_trim ip \<noteq> []) (nic_ips (nics ! i))"
    and blank: "js_trim (getExistingIp s (vd_id vm) i) = []"
  shows "nic_ips (nics ! i) = []"
proof -
  have "getExistingIp s (vd_id vm) i =
      (case grid_get (bk_originalIPs s0) (vd_id vm) i of Some t \<Rightarrow> t | None \<Rightarrow> nic_text (nics ! i))"
    by (simp add: getExistingIp_dialog [OF assms(2)] dialog_cell [OF assms(3-7)] open_cell_of_def)
  with blank assms(1) have "js_trim (nic_text (nics ! i)) = []"
    by (auto simp: originals_filled_def split: option.splits)
  then have "filter (\<lambda>v. js_trim v \<noteq> []) (nic_ips (nics ! i)) = []" by (simp only: nic_text_blank)
  moreover have "filter (\<lambda>v. js_trim v \<noteq> []) (nic_ips (nics ! i)) = nic_ips (nics ! i)"
    using assms(8) by (simp add: filter_id_conv list_all_iff)
  ultimately show ?thesis by simp
qed

lemma apply_without_check:
  assumes "\<not> hasBulkIpValidationErrors s" "collectIpsToApply s \<noteq> [] \<or> collectIpsToClear s \<noteq> []"
  shows "bk_vms (handleApplyBulkIPs None s) = map (assigned_row s (assignment s)) (bk_vms s)"
  using assms by (auto simp: handleApplyBulkIPs_def validateRequiredIpsForPreserveEnabled_def Let_def finish_apply_rows assignment_def)

text \<open>The row of an interface after an apply.\<close>

lemma applied_row:
  assumes "originals_filled (bk_originalIPs s0)" "dialog s0 s"
    and "vm \<in> set (bk_vms s0)" "distinct (map vd_id (bk_vms s0))" "vd_id vm \<in> set (bk_selected s0)"
    and "vd_networkInterfaces vm = Some nics" "i < length nics" "list_all (\<lambda>ip. js_trim ip \<noteq> []) (nic_ips (nics ! i))"
  defines "row \<equiv> assigned_row s (assignment s) vm"
  shows "vd_id row = vd_id vm"
    and "nic_ips (the (vd_networkInterfaces row) ! i) =
           cell_result (getPreserveIpFlag s (vd_id vm) i) (getExistingIp s (vd_id vm) i)
             (str_or (grid_get (bk_editIPs s) (vd_id vm) i) []) (nic_ips (nics ! i))"
    and "(map_of (list_or (vd_preserveIp row)) i \<noteq> Some False) = getPreserveIpFlag s (vd_id vm) i"
    and "\<exists>v. grid_get (bk_overrides s) (vd_id vm) i = Some v \<and>
           nic_preserve_ip (the (vd_networkInterfaces row) ! i) = Some (ovr_preserveIP v)"
proof -
  note inv = dialog_invariant [OF assms(2)]
  have cell: "open_cell_at s0 (vd_id vm) i \<noteq> None" using dialog_cell [OF assms(3-7)] by simp
  obtain t where t: "grid_get (bk_editIPs s) (vd_id vm) i = Some t"
    using inv cell unfolding dialog_inv_def by (metis same_cellsD not_None_eq)
  obtain p where p: "grid_get (bk_preserveIp s) (vd_id vm) i = Some p"
    using inv cell unfolding dialog_inv_def by (metis same_cellsD not_None_eq)
  obtain v where v: "grid_get (bk_overrides s) (vd_id vm) i = Some v"
    using inv cell unfolding dialog_inv_def by (metis same_cellsD not_None_eq)
  obtain r where r: "map_of (bk_preserveIp s) (vd_id vm) = Some r" "map_of r i = Some p"
    using p by (auto simp: grid_get_def split: option.splits)
  have o: "map_of (bk_overrides s) (vd_id vm) \<noteq> None" using v by (auto simp: grid_get_def split: option.splits)
  note row = assigned_row_in [OF o r(1) assms(6), of "assignment s", folded row_def]
  show "vd_id row = vd_id vm" by (rule row(1))
  have nic: "the (vd_networkInterfaces row) ! i =
      assigned_nic s (vd_id vm) (map_of (assignment s) (vd_id vm)) i (nics ! i)"
    using assms(7) by (simp add: row(3) nth_enumerate_eq)
  have ok: "grid_ok (bk_editIPs s)" using inv by (simp add: dialog_inv_def same_cells_def)
  show "nic_ips (the (vd_networkInterfaces row) ! i) =
           cell_result (getPreserveIpFlag s (vd_id vm) i) (getExistingIp s (vd_id vm) i)
             (str_or (grid_get (bk_editIPs s) (vd_id vm) i) []) (nic_ips (nics ! i))"
    unfolding nic using assigned_nic_ips [OF ok t known_address [OF assms(1-8)]] t by simp
  show "(map_of (list_or (vd_preserveIp row)) i \<noteq> Some False) = getPreserveIpFlag s (vd_id vm) i"
    using r p by (simp add: row(2) getPreserveIpFlag_def)
  show "\<exists>v. grid_get (bk_overrides s) (vd_id vm) i = Some v \<and>
           nic_preserve_ip (the (vd_networkInterfaces row) ! i) = Some (ovr_preserveIP v)"
    using v by (simp add: nic assigned_nic_flags)
qed

section \<open>The check of the server\<close>

definition flat_ok :: "bool list \<Rightarrow> nat \<Rightarrow> bool" where
  "flat_ok isValid k = (k < length isValid \<and> isValid ! k)"

definition key_ok :: "(string \<times> (bool \<times> string option)) list \<Rightarrow> string \<Rightarrow> bool" where
  "key_ok m k = (case map_of m k of None \<Rightarrow> True | Some (ok, _) \<Rightarrow> ok)"

lemma verdict_map_ok:
  "key_ok (verdict_map flat isValid reason) k \<longleftrightarrow>
     (\<forall>j < length flat. cell_key (flat ! j) = k \<longrightarrow> flat_ok isValid j)"
proof -
  define step where "step = (\<lambda>(index, item) m.
        let ok = (index < length isValid \<and> isValid ! index);
            why = (if index < length reason then Some (reason ! index) else None)
        in case map_of m (cell_key item) of
             None \<Rightarrow> m @ [(cell_key item, (ok, if ok then None else why))]
           | Some (curOk, _) \<Rightarrow>
               (if curOk \<and> \<not> ok then AList.update (cell_key item) (False, why) m else m))"
  have one: "key_ok (step (j, c) m) k' \<longleftrightarrow> key_ok m k' \<and> (cell_key c = k' \<longrightarrow> flat_ok isValid j)" for j c m k'
    by (auto simp: step_def key_ok_def flat_ok_def Let_def update_conv' map_add_def split: option.splits prod.splits)
  have "key_ok (fold step xs m) k \<longleftrightarrow> key_ok m k \<and> (\<forall>(j, c) \<in> set xs. cell_key c = k \<longrightarrow> flat_ok isValid j)" for xs m
    by (induction xs arbitrary: m) (auto simp: one)
  from this [of "enumerate 0 flat" "[]"] show ?thesis
    by (auto simp: verdict_map_def step_def [symmetric] key_ok_def in_set_enumerate_eq)
qed

lemma flatten_cells:
  "fst ` set (map (\<lambda>c. (cell_key c, ())) (flattenBulkIps ips)) = cell_key ` set ips"
proof -
  have "cell_key (c \<lparr> be_ip := t \<rparr>) = cell_key c" for c t by (simp add: cell_key_def)
  then have "cell_key ` set (let parsed = parseIpList (be_ip c) in if length parsed = 0 then [c \<lparr> be_ip := [] \<rparr>]
      else map (\<lambda>ip. c \<lparr> be_ip := ip \<rparr>) parsed) = {cell_key c}" for c
    by (auto simp: Let_def image_iff) (metis in_set_conv_nth length_greater_0_conv nth_mem)
  then show ?thesis by (induction ips) (auto simp: flattenBulkIps_def image_Un image_image)
qed

lemma any_cell_refused:
  "list_ex (\<lambda>c. \<not> cell_ok (verdict_map (flattenBulkIps ips) isValid reason) c) ips \<longleftrightarrow>
     (\<exists>j < length (flattenBulkIps ips). \<not> flat_ok isValid j)"
proof -
  have keys: "cell_key ` set (flattenBulkIps ips) = cell_key ` set ips"
    using flatten_cells [of ips] by (simp add: image_image)
  have "cell_ok m c = key_ok m (cell_key c)" for m c by (simp add: cell_ok_def key_ok_def)
  then have "list_ex (\<lambda>c. \<not> cell_ok (verdict_map (flattenBulkIps ips) isValid reason) c) ips \<longleftrightarrow>
      (\<exists>k \<in> cell_key ` set ips. \<exists>j < length (flattenBulkIps ips). cell_key (flattenBulkIps ips ! j) = k \<and> \<not> flat_ok isValid j)"
    by (auto simp: list_ex_iff verdict_map_ok)
  also have "\<dots> \<longleftrightarrow> (\<exists>j < length (flattenBulkIps ips). \<not> flat_ok isValid j)"
    unfolding keys [symmetric] by (auto simp: image_iff)
  finally show ?thesis .
qed

lemma fold_verdicts [simp]:
  "bk_vms (fold (\<lambda>c. set_verdict (f c) (g c) (h c)) cs s) = bk_vms s"
  "bk_open (fold (\<lambda>c. set_verdict (f c) (g c) (h c)) cs s) = bk_open s"
  "bk_toasts (fold (\<lambda>c. set_verdict (f c) (g c) (h c)) cs s) = bk_toasts s"
  "bk_formVms (fold (\<lambda>c. set_verdict (f c) (g c) (h c)) cs s) = bk_formVms s"
  by (induction cs arbitrary: s) simp_all

lemma required_simps [simp]:
  "fst (validateRequiredIpsForPreserveEnabled s)"
  "bk_vms (snd (validateRequiredIpsForPreserveEnabled s)) = bk_vms s"
  "bk_open (snd (validateRequiredIpsForPreserveEnabled s)) = bk_open s"
  "bk_toasts (snd (validateRequiredIpsForPreserveEnabled s)) = bk_toasts s"
  "bk_formVms (snd (validateRequiredIpsForPreserveEnabled s)) = bk_formVms s"
proof -
  have "bk_vms (fold (\<lambda>c t. if P c then set_verdict (f c) (g c) (h c) t else t) cs s) = bk_vms s \<and>
        bk_open (fold (\<lambda>c t. if P c then set_verdict (f c) (g c) (h c) t else t) cs s) = bk_open s \<and>
        bk_toasts (fold (\<lambda>c t. if P c then set_verdict (f c) (g c) (h c) t else t) cs s) = bk_toasts s \<and>
        bk_formVms (fold (\<lambda>c t. if P c then set_verdict (f c) (g c) (h c) t else t) cs s) = bk_formVms s"
    for P f g h and cs :: "BulkIpEdit list" and s
    by (induction cs arbitrary: s) simp_all
  then show "bk_vms (snd (validateRequiredIpsForPreserveEnabled s)) = bk_vms s"
    "bk_open (snd (validateRequiredIpsForPreserveEnabled s)) = bk_open s"
    "bk_toasts (snd (validateRequiredIpsForPreserveEnabled s)) = bk_toasts s"
    "bk_formVms (snd (validateRequiredIpsForPreserveEnabled s)) = bk_formVms s"
    by (simp_all add: validateRequiredIpsForPreserveEnabled_def)
qed (simp add: validateRequiredIpsForPreserveEnabled_def)

lemma checked_apply_results:
  assumes "check (map be_ip (flattenBulkIps ips)) = IpResults isValid reason"
  shows "bk_vms (checked_apply check render ips clears s) =
     (if \<forall>j < length (flattenBulkIps ips). flat_ok isValid j
      then map (assigned_row render (applyClearsToAssignedIpsMap (buildAssignedIpsPerVm ips) clears)) (bk_vms render)
      else bk_vms s)"
    and "bk_open (checked_apply check render ips clears s) =
     ((\<exists>j < length (flattenBulkIps ips). \<not> flat_ok isValid j) \<and> bk_open s)"
proof -
  let ?m = "verdict_map (flattenBulkIps ips) isValid reason"
  have all: "filter (cell_ok ?m) ips = ips" if "\<not> list_ex (\<lambda>c. \<not> cell_ok ?m c) ips"
    using that by (simp add: list_ex_iff filter_id_conv)
  have close: "bk_open (finish_apply render ips clears t) = False" for t by (simp add: finish_apply_def)
  show "bk_vms (checked_apply check render ips clears s) =
     (if \<forall>j < length (flattenBulkIps ips). flat_ok isValid j
      then map (assigned_row render (applyClearsToAssignedIpsMap (buildAssignedIpsPerVm ips) clears)) (bk_vms render)
      else bk_vms s)"
    using any_cell_refused [of ips isValid reason] all
    by (auto simp: checked_apply_def assms Let_def finish_apply_rows setBulkStatusForIps_def)
  show "bk_open (checked_apply check render ips clears s) =
     ((\<exists>j < length (flattenBulkIps ips). \<not> flat_ok isValid j) \<and> bk_open s)"
    using any_cell_refused [of ips isValid reason] all
    by (auto simp: checked_apply_def assms Let_def close setBulkStatusForIps_def)
qed

section \<open>When an apply changes the rows\<close>

text \<open>The server accepts the addresses of an apply when it has a verdict for each of them and every verdict is good.\<close>

definition server_accepts :: "ip_check \<Rightarrow> nat \<Rightarrow> bool" where
  "server_accepts answer n =
     (case answer of IpResults isValid _ \<Rightarrow> (\<forall>j < n. flat_ok isValid j) | IpUnavailable _ \<Rightarrow> False | IpError \<Rightarrow> False)"

text \<open>An apply goes through when there is nothing to write or to clear, or when no cell is marked as invalid and the server,
  where there is one to ask, accepts the addresses.\<close>

definition apply_goes_through :: "(string list \<Rightarrow> ip_check) option \<Rightarrow> bulk_state \<Rightarrow> bool" where
  "apply_goes_through check s \<longleftrightarrow>
     (let flat = flattenBulkIps (collectIpsToApply s)
      in collectIpsToApply s = [] \<and> collectIpsToClear s = [] \<or>
         \<not> hasBulkIpValidationErrors s \<and>
         (case check of None \<Rightarrow> True | Some c \<Rightarrow> server_accepts (c (map be_ip flat)) (length flat)))"

definition written_rows :: "bulk_state \<Rightarrow> VmDataWithFlavor list" where
  "written_rows s =
     map (if collectIpsToApply s \<noteq> [] \<or> collectIpsToClear s \<noteq> [] then assigned_row s (assignment s)
          else if hasBulkOverrideChanges s then overrides_row s else flags_row s) (bk_vms s)"

lemma checked_apply_refused:
  assumes "check (map be_ip (flattenBulkIps ips)) = IpUnavailable msg \<or> check (map be_ip (flattenBulkIps ips)) = IpError"
  shows "bk_vms (checked_apply check render ips clears s) = bk_vms s"
    and "bk_open (checked_apply check render ips clears s) = bk_open s"
  using assms by (auto simp: checked_apply_def Let_def show_toast_def markBulkValidationFailure_def setBulkStatusForIps_def)

lemma apply_rows:
  "bk_vms (handleApplyBulkIPs check s) = (if apply_goes_through check s then written_rows s else bk_vms s)"
  "\<not> apply_goes_through check s \<Longrightarrow> bk_open (handleApplyBulkIPs check s) = bk_open s"
proof -
  obtain s1 where v: "validateRequiredIpsForPreserveEnabled s = (True, s1)" "bk_vms s1 = bk_vms s" "bk_open s1 = bk_open s"
    using required_simps [of s] by (cases "validateRequiredIpsForPreserveEnabled s") auto
  let ?ips = "collectIpsToApply s" and ?clears = "collectIpsToClear s"
  have "bk_vms (handleApplyBulkIPs check s) = (if apply_goes_through check s then written_rows s else bk_vms s) \<and>
        (\<not> apply_goes_through check s \<longrightarrow> bk_open (handleApplyBulkIPs check s) = bk_open s)"
  proof (cases "?ips = [] \<and> ?clears = [] \<or> hasBulkIpValidationErrors s \<or> check = None")
    case True
    then show ?thesis
      using v by (auto simp: handleApplyBulkIPs_def Let_def apply_goes_through_def written_rows_def show_toast_def
          applyOverrideChangesOnly_def applyPreserveFlagsOnly_def updateVmRowsAndForm_def finish_apply_rows assignment_def)
  next
    case False
    then obtain c where c: "check = Some c" by auto
    let ?run = "checked_apply c s ?ips ?clears (s1 \<lparr> bk_assigning := True \<rparr>)"
    have run: "handleApplyBulkIPs check s = ?run \<lparr> bk_assigning := False \<rparr>"
      using False v(1) c by (auto simp: handleApplyBulkIPs_def Let_def)
    have goes: "apply_goes_through check s =
        server_accepts (c (map be_ip (flattenBulkIps ?ips))) (length (flattenBulkIps ?ips))"
      using False c by (auto simp: apply_goes_through_def Let_def)
    have wr: "written_rows s = map (assigned_row s (applyClearsToAssignedIpsMap (buildAssignedIpsPerVm ?ips) ?clears)) (bk_vms s)"
      using False by (auto simp: written_rows_def assignment_def)
    show ?thesis
    proof (cases "c (map be_ip (flattenBulkIps ?ips))")
      case (IpResults isValid reason)
      show ?thesis
        using checked_apply_results [of c ?ips isValid reason s ?clears "s1 \<lparr> bk_assigning := True \<rparr>", OF IpResults]
        unfolding run goes wr by (auto simp: v(2,3) IpResults server_accepts_def)
    qed (use checked_apply_refused [of c ?ips] v(2,3) in \<open>simp_all add: run goes server_accepts_def\<close>)
  qed
  then show "bk_vms (handleApplyBulkIPs check s) = (if apply_goes_through check s then written_rows s else bk_vms s)"
    "\<not> apply_goes_through check s \<Longrightarrow> bk_open (handleApplyBulkIPs check s) = bk_open s" by blast+
qed

section \<open>Properties\<close>

text \<open>The row of an interface after an apply that goes through, for a machine of the dialog.\<close>

lemma written_row:
  assumes "originals_filled (bk_originalIPs s0)" "dialog s0 s"
    and "vm \<in> set (bk_vms s0)" "distinct (map vd_id (bk_vms s0))" "vd_id vm \<in> set (bk_selected s0)"
    and "vd_networkInterfaces vm = Some nics" "i < length nics" "list_all (\<lambda>ip. js_trim ip \<noteq> []) (nic_ips (nics ! i))"
  shows "\<exists>row \<in> set (written_rows s). vd_id row = vd_id vm \<and>
     nic_ips (the (vd_networkInterfaces row) ! i) =
       cell_result (getPreserveIpFlag s (vd_id vm) i) (getExistingIp s (vd_id vm) i)
         (str_or (grid_get (bk_editIPs s) (vd_id vm) i) []) (nic_ips (nics ! i)) \<and>
     (map_of (list_or (vd_preserveIp row)) i \<noteq> Some False) = getPreserveIpFlag s (vd_id vm) i"
proof -
  note inv = dialog_invariant [OF assms(2)]
  have vm: "vm \<in> set (bk_vms s)" using inv assms(3) by (simp add: dialog_inv_def)
  show ?thesis
  proof (cases "collectIpsToApply s \<noteq> [] \<or> collectIpsToClear s \<noteq> []")
    case True
    then have "assigned_row s (assignment s) vm \<in> set (written_rows s)" using vm by (simp add: written_rows_def)
    then show ?thesis using applied_row [OF assms(1-8)] by blast
  next
    case False
    have cell: "open_cell_at s0 (vd_id vm) i \<noteq> None" using dialog_cell [OF assms(3-7)] by simp
    obtain t where t: "grid_get (bk_editIPs s) (vd_id vm) i = Some t"
      using inv cell unfolding dialog_inv_def by (metis same_cellsD not_None_eq)
    obtain p where p: "grid_get (bk_preserveIp s) (vd_id vm) i = Some p"
      using inv cell unfolding dialog_inv_def by (metis same_cellsD not_None_eq)
    obtain v where v: "grid_get (bk_overrides s) (vd_id vm) i = Some v"
      using inv cell unfolding dialog_inv_def by (metis same_cellsD not_None_eq)
    obtain r where r: "map_of (bk_preserveIp s) (vd_id vm) = Some r" "map_of r i = Some p"
      using p by (auto simp: grid_get_def split: option.splits)
    obtain q where q: "map_of (bk_overrides s) (vd_id vm) = Some q"
      using v by (auto simp: grid_get_def split: option.splits)
    have ok: "grid_ok (bk_editIPs s)" using inv by (simp add: dialog_inv_def same_cells_def)
    let ?c = "\<lparr> be_vmName = vd_id vm, be_interfaceIndex = i, be_ip = t \<rparr>"
    have mem: "?c \<in> set (edit_cells s)" using t grid_cells_iff [OF ok, of ?c] by simp
    have "\<not> cell_applied s ?c" "\<not> cell_cleared s ?c"
      using False mem by (auto simp: collectIpsToApply_def collectIpsToClear_def filter_empty_conv)
    then have same: "cell_result (getPreserveIpFlag s (vd_id vm) i) (getExistingIp s (vd_id vm) i)
         (str_or (grid_get (bk_editIPs s) (vd_id vm) i) []) (nic_ips (nics ! i)) = nic_ips (nics ! i)"
      using t known_address [OF assms(1-8)]
      by (auto simp: cell_result_def cell_applied_def cell_cleared_def Let_def)
    have flag: "(map_of r i \<noteq> Some False) = getPreserveIpFlag s (vd_id vm) i"
      using r(2) p by (simp add: getPreserveIpFlag_def)
    let ?f = "if hasBulkOverrideChanges s then overrides_row s else flags_row s"
    have "?f vm \<in> set (written_rows s)" using False vm by (auto simp: written_rows_def)
    moreover have "vd_id (?f vm) = vd_id vm \<and> vd_preserveIp (?f vm) = Some r \<and>
        nic_ips (the (vd_networkInterfaces (?f vm)) ! i) = nic_ips (nics ! i)"
      using assms(6,7) r(1) q by (auto simp: overrides_row_def flags_row_def Let_def nth_enumerate_eq split: option.splits)
    ultimately show ?thesis unfolding same using flag by auto
  qed
qed

text \<open>C12: whatever the operator does in the dialog, with or without a server to ask: when the apply goes through, an interface
  of a selected machine has the addresses that were typed, if preservation is off for it or the text is not the known
  address that the dialog offers; it has none if preservation is off and the text is empty; and its row keeps the addresses it
  had if preservation is on and the text is empty or the known address, which after an earlier assignment is not the
  address of the row. The flag of the machine is the one of the dialog. When an address is marked as invalid, or the server
  refuses one or fails, no row changes and the dialog stays as it is. The addresses of the rows and the recorded ones are
  not blank, and the machines have different identifiers.\<close>

theorem bulk_apply_meets_intent:
  assumes "originals_filled (bk_originalIPs s0)" "dialog s0 s"
    and "vm \<in> set (bk_vms s0)" "distinct (map vd_id (bk_vms s0))" "vd_id vm \<in> set (bk_selected s0)"
    and "vd_networkInterfaces vm = Some nics" "i < length nics" "list_all (\<lambda>ip. js_trim ip \<noteq> []) (nic_ips (nics ! i))"
    and shown: "grid_get (bk_editIPs s) (vd_id vm) i = Some shown"
  shows "(apply_goes_through check s \<longrightarrow>
      (\<exists>row \<in> set (bk_vms (handleApplyBulkIPs check s)).
         vd_id row = vd_id vm \<and>
         (parseIpList (js_trim shown) \<noteq> [] \<and>
            (\<not> getPreserveIpFlag s (vd_id vm) i \<or> js_trim shown \<noteq> js_trim (getExistingIp s (vd_id vm) i)) \<longrightarrow>
          nic_ips (the (vd_networkInterfaces row) ! i) = parseIpList (js_trim shown)) \<and>
         (js_trim shown = [] \<and> \<not> getPreserveIpFlag s (vd_id vm) i \<longrightarrow>
          nic_ips (the (vd_networkInterfaces row) ! i) = []) \<and>
         (getPreserveIpFlag s (vd_id vm) i \<and> (js_trim shown = [] \<or> js_trim shown = js_trim (getExistingIp s (vd_id vm) i)) \<longrightarrow>
          nic_ips (the (vd_networkInterfaces row) ! i) = nic_ips (nics ! i)) \<and>
         (map_of (list_or (vd_preserveIp row)) i \<noteq> Some False) = getPreserveIpFlag s (vd_id vm) i)) \<and>
     (\<not> apply_goes_through check s \<longrightarrow>
        bk_vms (handleApplyBulkIPs check s) = bk_vms s0 \<and> bk_open (handleApplyBulkIPs check s) = bk_open s)"
proof -
  have vms: "bk_vms s = bk_vms s0" using dialog_invariant [OF assms(2)] by (simp add: dialog_inv_def)
  obtain row where row: "row \<in> set (written_rows s)" "vd_id row = vd_id vm"
      "nic_ips (the (vd_networkInterfaces row) ! i) =
         cell_result (getPreserveIpFlag s (vd_id vm) i) (getExistingIp s (vd_id vm) i) shown (nic_ips (nics ! i))"
      "(map_of (list_or (vd_preserveIp row)) i \<noteq> Some False) = getPreserveIpFlag s (vd_id vm) i"
    using written_row [OF assms(1-8)] shown by auto
  show ?thesis
    using apply_rows [where check = check and s = s] row
    by (intro conjI impI) (auto simp: vms cell_result_def intro!: bexI [of _ row])
qed

definition bulk_vm :: VmDataWithFlavor where
  "bulk_vm = VmData.extend (blank_vm ''vm-1'' ''web'')
     \<lparr> vf_flavor = None, vf_flavorName = None, vf_flavorNotFound = None, vf_ipValidationStatus = None,
       vf_ipValidationMessage = None, vf_powerState = None \<rparr>"

definition bulk_nic :: "string \<Rightarrow> string list \<Rightarrow> vm_nic" where
  "bulk_nic mac ips = \<lparr> nic_mac = mac, nic_network = ''VM Network'', nic_ips = ips, nic_preserve_ip = None,
     nic_preserve_mac = None \<rparr>"

definition bulk_form :: "VmDataWithFlavor \<Rightarrow> bulk_state" where
  "bulk_form vm =
     \<lparr> bk_vms = [vm], bk_formVms = [], bk_selected = [vd_id vm], bk_open = False, bk_editIPs = [], bk_preserveIp = [],
       bk_preserveMac = [], bk_currentIPs = [], bk_existingIPs = [], bk_originalIPs = [], bk_status = [], bk_messages = [],
       bk_assigning = False, bk_overrides = [], bk_toasts = [], bk_reports = [] \<rparr>"

definition two_nics :: VmDataWithFlavor where
  "two_nics = bulk_vm \<lparr> vd_vmState := Some ''running'',
     vd_networkInterfaces := Some [bulk_nic ''m0'' [''10.0.0.4''], bulk_nic ''m1'' [''10.0.0.5'']] \<rparr>"

definition sample_dialog :: bulk_state where
  "sample_dialog = handleBulkIpChange ''vm-1'' 1 '' 10.0.0.9 ''
     (handleBulkPreserveIpChange ''vm-1'' 1 False (handleOpenBulkIPAssignment (bulk_form two_nics)))"

lemma sample_dialog_reached: "dialog (bulk_form two_nics) sample_dialog"
proof -
  have "bk_selected (bulk_form two_nics) \<noteq> []" by code_simp
  moreover have "grid_get (bk_editIPs (handleOpenBulkIPAssignment (bulk_form two_nics))) ''vm-1'' 1 \<noteq> None" by code_simp
  moreover have "grid_get (bk_editIPs (handleBulkPreserveIpChange ''vm-1'' 1 False
      (handleOpenBulkIPAssignment (bulk_form two_nics)))) ''vm-1'' 1 \<noteq> None" by code_simp
  ultimately show ?thesis unfolding sample_dialog_def by (intro dialog.intros)
qed

lemma bulk_form_simps [simp]:
  "bk_vms (bulk_form vm) = [vm]" "bk_selected (bulk_form vm) = [vd_id vm]" "bk_originalIPs (bulk_form vm) = []"
  by (simp_all add: bulk_form_def)

lemma originals_filled_Nil [simp]: "originals_filled []"
  by (simp add: originals_filled_def)

theorem bulk_apply_meets_intent_witness:
  "(\<exists>row \<in> set (bk_vms (handleApplyBulkIPs (Some (\<lambda>_. IpResults [True] [[]])) sample_dialog)).
     vd_id row = ''vm-1'' \<and> nic_ips (the (vd_networkInterfaces row) ! 1) = [''10.0.0.9'']) \<and>
   bk_vms (handleApplyBulkIPs (Some (\<lambda>_. IpError)) sample_dialog) = [two_nics]"
proof -
  have facts: "vd_id two_nics = ''vm-1''" "apply_goes_through (Some (\<lambda>_. IpResults [True] [[]])) sample_dialog"
    "\<not> apply_goes_through (Some (\<lambda>_. IpError)) sample_dialog" "parseIpList (js_trim '' 10.0.0.9 '') = [''10.0.0.9'']"
    "\<not> getPreserveIpFlag sample_dialog ''vm-1'' 1" "grid_get (bk_editIPs sample_dialog) ''vm-1'' 1 = Some '' 10.0.0.9 ''"
    by code_simp+
  have nics: "vd_networkInterfaces two_nics = Some [bulk_nic ''m0'' [''10.0.0.4''], bulk_nic ''m1'' [''10.0.0.5'']]"
    by (simp add: two_nics_def)
  have plain: "list_all (\<lambda>ip. js_trim ip \<noteq> []) (nic_ips ([bulk_nic ''m0'' [''10.0.0.4''], bulk_nic ''m1'' [''10.0.0.5'']] ! 1))"
    by code_simp
  show ?thesis
    using bulk_apply_meets_intent [OF _ sample_dialog_reached _ _ _ nics _ plain, of "'' 10.0.0.9 ''" "Some (\<lambda>_. IpResults [True] [[]])"]
      bulk_apply_meets_intent [OF _ sample_dialog_reached _ _ _ nics _ plain, of "'' 10.0.0.9 ''" "Some (\<lambda>_. IpError)"] facts
    by (auto simp: bulk_nic_def)
qed

lemma clear_all_cells:
  assumes "dialog s0 s" "open_cell_at s0 vm i \<noteq> None"
  shows "grid_get (bk_editIPs (handleClearAllIPs s)) vm i = Some []"
    and "\<not> getPreserveIpFlag (handleClearAllIPs s) vm i"
    and "\<exists>b. grid_get (bk_overrides (handleClearAllIPs s)) vm i = Some \<lparr> ovr_preserveIP = False, ovr_preserveMAC = b \<rparr>"
proof -
  note inv = dialog_invariant [OF assms(1)]
  have ok: "grid_ok (bk_editIPs s)" using inv by (simp add: dialog_inv_def same_cells_def)
  obtain t where t: "grid_get (bk_editIPs s) vm i = Some t"
    using inv assms(2) unfolding dialog_inv_def by (metis same_cellsD not_None_eq)
  have u: "distinct (map fst (obj_map (obj_map f) (bk_editIPs s)))"
    "list_all (obj_ok (<)) (obj_vals (obj_map (obj_map f) (bk_editIPs s)))" for f :: "string \<Rightarrow> 'b"
    using grid_ok_distinct [of "obj_map (obj_map f) (bk_editIPs s)"] ok by simp_all
  show "grid_get (bk_editIPs (handleClearAllIPs s)) vm i = Some []"
    using t by (simp add: handleClearAllIPs_def buildClearAllIpsUpdate_def Let_def)
  show "\<not> getPreserveIpFlag (handleClearAllIPs s) vm i"
    using t by (simp add: getPreserveIpFlag_def handleClearAllIPs_def buildClearAllIpsUpdate_def Let_def grid_get_merge [OF u])
  show "\<exists>b. grid_get (bk_overrides (handleClearAllIPs s)) vm i = Some \<lparr> ovr_preserveIP = False, ovr_preserveMAC = b \<rparr>"
    using t by (simp add: handleClearAllIPs_def buildClearAllIpsUpdate_def Let_def grid_get_clear_overrides [OF u(1)])
qed

lemma clear_all_texts:
  assumes "dialog s0 s"
  shows "collectIpsToApply (handleClearAllIPs s) = []" "\<not> hasBulkIpValidationErrors (handleClearAllIPs s)"
proof -
  have inv: "dialog_inv s0 (handleClearAllIPs s)" by (rule dialog_invariant [OF dialog.cleared [OF assms]])
  then have ok: "grid_ok (bk_editIPs (handleClearAllIPs s))" "grid_ok (bk_status (handleClearAllIPs s))"
    by (simp_all add: dialog_inv_def same_cells_def)
  have "be_ip c = []" if "c \<in> set (edit_cells (handleClearAllIPs s))" for c
    using that grid_cells_iff [OF ok(1)]
    by (auto simp: handleClearAllIPs_def buildClearAllIpsUpdate_def Let_def)
  then show "collectIpsToApply (handleClearAllIPs s) = []"
    by (auto simp: collectIpsToApply_def filter_empty_conv cell_applied_def Let_def)
  show "\<not> hasBulkIpValidationErrors (handleClearAllIPs s)"
    unfolding hasBulkIpValidationErrors_def grid_any_iff [OF ok(2)]
    by (auto simp: handleClearAllIPs_def buildClearAllIpsUpdate_def Let_def)
qed

lemma overrides_row_in:
  assumes "map_of (bk_overrides s) (vd_id vm) = Some r" "map_of r i = Some v" "map_of (bk_preserveIp s) (vd_id vm) = Some row"
    and "vd_networkInterfaces vm = Some nics" "i < length nics"
  shows "vd_id (overrides_row s vm) = vd_id vm" "vd_preserveIp (overrides_row s vm) = Some row"
    "nic_ips (the (vd_networkInterfaces (overrides_row s vm)) ! i) = nic_ips (nics ! i)"
    "nic_preserve_ip (the (vd_networkInterfaces (overrides_row s vm)) ! i) = Some (ovr_preserveIP v)"
  using assms by (simp_all add: overrides_row_def nth_enumerate_eq)

lemma cleared_row:
  assumes "originals_filled (bk_originalIPs s0)" "dialog s0 s"
    and "vm \<in> set (bk_vms s0)" "distinct (map vd_id (bk_vms s0))" "vd_id vm \<in> set (bk_selected s0)"
    and "vd_networkInterfaces vm = Some nics" "i < length nics" "list_all (\<lambda>ip. js_trim ip \<noteq> []) (nic_ips (nics ! i))"
  shows "\<exists>row \<in> set (written_rows (handleClearAllIPs s)).
     vd_id row = vd_id vm \<and> nic_ips (the (vd_networkInterfaces row) ! i) = [] \<and>
     nic_preserve_ip (the (vd_networkInterfaces row) ! i) = Some False \<and>
     map_of (list_or (vd_preserveIp row)) i = Some False"
proof -
  let ?c = "handleClearAllIPs s"
  have d: "dialog s0 ?c" by (rule dialog.cleared [OF assms(2)])
  have cell: "open_cell_at s0 (vd_id vm) i \<noteq> None" using dialog_cell [OF assms(3-7)] by simp
  note texts = clear_all_texts [OF assms(2)]
  note cells = clear_all_cells [OF assms(2) cell]
  have vms: "bk_vms ?c = bk_vms s0" using dialog_invariant [OF d] by (simp add: dialog_inv_def)
  obtain b where b: "grid_get (bk_overrides ?c) (vd_id vm) i = Some \<lparr> ovr_preserveIP = False, ovr_preserveMAC = b \<rparr>"
    using cells(3) by blast
  have flag: "grid_get (bk_preserveIp ?c) (vd_id vm) i = Some False"
    using cells(2) by (simp add: getPreserveIpFlag_def)
  show ?thesis
  proof (cases "collectIpsToClear ?c = []")
    case False
    note row = applied_row [OF assms(1) d assms(3-8)]
    have "assigned_row ?c (assignment ?c) vm \<in> set (written_rows ?c)"
      using False assms(3) by (simp add: vms written_rows_def)
    moreover have "map_of (list_or (vd_preserveIp (assigned_row ?c (assignment ?c) vm))) i = Some False"
      using row(3) cells(2) by simp
    ultimately show ?thesis
      using row(1,2,4) b cells(1,2) by (intro bexI) (auto simp: cell_result_def)
  next
    case True
    obtain r where r: "map_of (bk_overrides ?c) (vd_id vm) = Some r" "map_of r i = Some \<lparr> ovr_preserveIP = False, ovr_preserveMAC = b \<rparr>"
      using b by (auto simp: grid_get_def split: option.splits)
    obtain p where p: "map_of (bk_preserveIp ?c) (vd_id vm) = Some p" "map_of p i = Some False"
      using flag by (auto simp: grid_get_def split: option.splits)
    have ok: "grid_ok (bk_overrides ?c)" "grid_ok (bk_editIPs ?c)"
      using dialog_invariant [OF d] by (simp_all add: dialog_inv_def same_cells_def)
    have "hasBulkOverrideChanges ?c"
      using b unfolding hasBulkOverrideChanges_def grid_any_iff [OF ok(1)] by (metis nic_override.select_convs(1))
    then have mem: "overrides_row ?c vm \<in> set (written_rows ?c)"
      using True texts(1) assms(3) by (simp add: written_rows_def vms)
    have "\<lparr> be_vmName = vd_id vm, be_interfaceIndex = i, be_ip = [] \<rparr> \<in> set (edit_cells ?c)"
      using cells(1) grid_cells_iff [OF ok(2), of "\<lparr> be_vmName = vd_id vm, be_interfaceIndex = i, be_ip = [] \<rparr>"] by simp
    then have "js_trim (getExistingIp ?c (vd_id vm) i) = []"
      using True cells(2) by (force simp: collectIpsToClear_def filter_empty_conv cell_cleared_def)
    then have "nic_ips (nics ! i) = []" by (rule known_address [OF assms(1) d assms(3-8)])
    with overrides_row_in [OF r p(1) assms(6,7)] p(2) mem show ?thesis by (intro bexI) auto
  qed
qed

text \<open>C14: "Clear All" and an apply that goes through (the server is asked about an empty list of addresses where credentials are
  set and there is an address to clear) empty every interface of the selected machines and turn the preservation of the
  address off, in the flags of the machine and in those of the interface, whatever was edited before. When the server cannot
  be asked, nothing is cleared: no row changes.\<close>

theorem clear_all_clears:
  assumes "originals_filled (bk_originalIPs s0)" "dialog s0 s"
    and "vm \<in> set (bk_vms s0)" "distinct (map vd_id (bk_vms s0))" "vd_id vm \<in> set (bk_selected s0)"
    and "vd_networkInterfaces vm = Some nics" "i < length nics" "list_all (\<lambda>ip. js_trim ip \<noteq> []) (nic_ips (nics ! i))"
  shows "((\<forall>c. check = Some c \<and> collectIpsToClear (handleClearAllIPs s) \<noteq> [] \<longrightarrow>
             (\<exists>isValid reason. c [] = IpResults isValid reason)) \<longrightarrow>
      (\<exists>row \<in> set (bk_vms (handleApplyBulkIPs check (handleClearAllIPs s))).
         vd_id row = vd_id vm \<and> nic_ips (the (vd_networkInterfaces row) ! i) = [] \<and>
         nic_preserve_ip (the (vd_networkInterfaces row) ! i) = Some False \<and>
         map_of (list_or (vd_preserveIp row)) i = Some False)) \<and>
     (\<forall>c. check = Some c \<and> collectIpsToClear (handleClearAllIPs s) \<noteq> [] \<and> (\<nexists>isValid reason. c [] = IpResults isValid reason) \<longrightarrow>
        bk_vms (handleApplyBulkIPs check (handleClearAllIPs s)) = bk_vms s0)"
proof -
  let ?c = "handleClearAllIPs s"
  have d: "dialog s0 ?c" by (rule dialog.cleared [OF assms(2)])
  have cell: "open_cell_at s0 (vd_id vm) i \<noteq> None" using dialog_cell [OF assms(3-7)] by simp
  note texts = clear_all_texts [OF assms(2)]
  have vms: "bk_vms ?c = bk_vms s0" using dialog_invariant [OF d] by (simp add: dialog_inv_def)
  have goes: "apply_goes_through check ?c \<longleftrightarrow>
      (\<forall>c. check = Some c \<and> collectIpsToClear ?c \<noteq> [] \<longrightarrow> (\<exists>isValid reason. c [] = IpResults isValid reason))"
    by (auto simp: apply_goes_through_def texts flattenBulkIps_def server_accepts_def split: option.split ip_check.splits)
  have "\<exists>row \<in> set (written_rows ?c). vd_id row = vd_id vm \<and> nic_ips (the (vd_networkInterfaces row) ! i) = [] \<and>
         nic_preserve_ip (the (vd_networkInterfaces row) ! i) = Some False \<and> map_of (list_or (vd_preserveIp row)) i = Some False"
    by (rule cleared_row [OF assms])
  then show ?thesis
    using apply_rows(1) [of check ?c] goes unfolding vms by auto
qed

theorem clear_all_clears_witness:
  "(\<exists>row \<in> set (bk_vms (handleApplyBulkIPs (Some (\<lambda>_. IpResults [] [])) (handleClearAllIPs sample_dialog))).
     vd_id row = ''vm-1'' \<and> nic_ips (the (vd_networkInterfaces row) ! 0) = []) \<and>
   bk_vms (handleApplyBulkIPs (Some (\<lambda>_. IpError)) (handleClearAllIPs sample_dialog)) = [two_nics]"
proof -
  have id: "vd_id two_nics = ''vm-1''" "collectIpsToClear (handleClearAllIPs sample_dialog) \<noteq> []" by code_simp+
  have nics: "vd_networkInterfaces two_nics = Some [bulk_nic ''m0'' [''10.0.0.4''], bulk_nic ''m1'' [''10.0.0.5'']]"
    by (simp add: two_nics_def)
  have plain: "list_all (\<lambda>ip. js_trim ip \<noteq> []) (nic_ips ([bulk_nic ''m0'' [''10.0.0.4''], bulk_nic ''m1'' [''10.0.0.5'']] ! 0))"
    by code_simp
  show ?thesis
    using clear_all_clears [OF _ sample_dialog_reached _ _ _ nics _ plain, of "Some (\<lambda>_. IpResults [] [])"]
      clear_all_clears [OF _ sample_dialog_reached _ _ _ nics _ plain, of "Some (\<lambda>_. IpError)"] id
    by auto
qed

text \<open>turning the preservation off for one interface and applying leaves the flag of that interface on: the override that was
  taken when the dialog opened wins over the flag the operator set, while the flags of the machine follow it.\<close>

theorem interface_flag_stays_stale:
  fixes s0 vm i
  defines "s \<equiv> handleBulkPreserveIpChange (vd_id vm) i False (handleOpenBulkIPAssignment s0)"
  assumes "originals_filled (bk_originalIPs s0)"
    and "vm \<in> set (bk_vms s0)" "distinct (map vd_id (bk_vms s0))" "vd_id vm \<in> set (bk_selected s0)"
    and "vd_networkInterfaces vm = Some nics" "i < length nics" "list_all (\<lambda>ip. js_trim ip \<noteq> []) (nic_ips (nics ! i))"
    and "vd_vmState vm = Some ''running''" "map_of (list_or (vd_preserveIp vm)) i \<noteq> Some False"
    and "\<not> hasBulkIpValidationErrors s" "collectIpsToApply s \<noteq> [] \<or> collectIpsToClear s \<noteq> []"
  shows "\<exists>row \<in> set (bk_vms (handleApplyBulkIPs None s)).
     vd_id row = vd_id vm \<and> map_of (list_or (vd_preserveIp row)) i = Some False \<and>
     nic_preserve_ip (the (vd_networkInterfaces row) ! i) = Some True"
proof -
  have sel: "bk_selected s0 \<noteq> []" using assms(5) by auto
  note opened = dialog.opened [OF sel]
  have cell: "open_cell_at s0 (vd_id vm) i = Some (open_cell_of (bk_originalIPs s0) vm i (nic_text (nics ! i)))"
    by (rule dialog_cell [OF assms(3-7)])
  have "grid_get (bk_editIPs (handleOpenBulkIPAssignment s0)) (vd_id vm) i \<noteq> None"
    using sel cell by (simp add: handleOpenBulkIPAssignment_def open_grid_get)
  from dialog.preserve_ip [OF opened this, of False] have d: "dialog s0 s" by (simp only: s_def)
  have over: "grid_get (bk_overrides s) (vd_id vm) i =
      Some \<lparr> ovr_preserveIP = True, ovr_preserveMAC = (map_of (list_or (vd_preserveMac vm)) i \<noteq> Some False) \<rparr>"
    using sel cell assms(9,10)
    by (simp add: s_def handleBulkPreserveIpChange_def Let_def handleOpenBulkIPAssignment_def open_grid_get open_cell_of_def)
  have flag: "\<not> getPreserveIpFlag s (vd_id vm) i"
    by (simp add: s_def getPreserveIpFlag_def handleBulkPreserveIpChange_def Let_def)
  note row = applied_row [OF assms(2) d assms(3-8)]
  have "assigned_row s (assignment s) vm \<in> set (bk_vms (handleApplyBulkIPs None s))"
    using apply_without_check [OF assms(11,12)] dialog_invariant [OF d] assms(3) by (simp add: dialog_inv_def)
  with row(1,3,4) over flag show ?thesis by (intro bexI) auto
qed

theorem interface_flag_stays_stale_witness:
  "\<exists>row \<in> set (bk_vms (handleApplyBulkIPs None (handleBulkPreserveIpChange ''vm-1'' 1 False (handleOpenBulkIPAssignment (bulk_form two_nics))))).
     nic_preserve_ip (the (vd_networkInterfaces row) ! 1) = Some True"
proof -
  have id: "vd_id two_nics = ''vm-1''" "vd_vmState two_nics = Some ''running''"
    "map_of (list_or (vd_preserveIp two_nics)) 1 \<noteq> Some False"
    "\<not> hasBulkIpValidationErrors (handleBulkPreserveIpChange ''vm-1'' 1 False (handleOpenBulkIPAssignment (bulk_form two_nics)))"
    "collectIpsToApply (handleBulkPreserveIpChange ''vm-1'' 1 False (handleOpenBulkIPAssignment (bulk_form two_nics))) \<noteq> []"
    by code_simp+
  have nics: "vd_networkInterfaces two_nics = Some [bulk_nic ''m0'' [''10.0.0.4''], bulk_nic ''m1'' [''10.0.0.5'']]"
    by (simp add: two_nics_def)
  have plain: "list_all (\<lambda>ip. js_trim ip \<noteq> []) (nic_ips ([bulk_nic ''m0'' [''10.0.0.4''], bulk_nic ''m1'' [''10.0.0.5'']] ! 1))"
    by code_simp
  show ?thesis
    using interface_flag_stays_stale [OF _ _ _ _ nics _ plain id(2,3), of "bulk_form two_nics"] id(4,5)
    by (auto simp: id(1))
qed

text \<open>An address that was assigned earlier stays when preservation is turned back on: the dialog shows the recorded address
  again, and the apply takes the text for the address the row already has. The row of this machine has 10.0.0.9, its
  recorded address is 10.0.0.5.\<close>

definition reassigned_form :: bulk_state where
  "reassigned_form = (bulk_form (bulk_vm \<lparr> vd_vmState := Some ''running'', vd_preserveIp := Some [(0, False)],
       vd_networkInterfaces := Some [bulk_nic ''m0'' [''10.0.0.9'']] \<rparr>))
     \<lparr> bk_originalIPs := [(''vm-1'', [(0, ''10.0.0.5'')])] \<rparr>"

lemma toggled_back_keeps_assigned:
  "let s = handleBulkPreserveIpChange ''vm-1'' 0 True (handleOpenBulkIPAssignment reassigned_form);
       after = handleApplyBulkIPs None s
   in grid_get (bk_editIPs s) ''vm-1'' 0 = Some ''10.0.0.5'' \<and>
      map (\<lambda>vm. map nic_ips (list_or (vd_networkInterfaces vm))) (bk_vms after) = [[[''10.0.0.9'']]] \<and>
      map vd_preserveIp (bk_vms after) = [Some [(0, True)]]"
  by code_simp

text \<open>the check of the server decides about all addresses together: when it accepts every one, the rows become what they
  become without a check; when it refuses one, or answers about fewer, no row changes and the dialog stays open.\<close>

theorem bulk_check_all_or_nothing:
  assumes "\<not> hasBulkIpValidationErrors s" "collectIpsToApply s \<noteq> [] \<or> collectIpsToClear s \<noteq> []"
    and "check (map be_ip (flattenBulkIps (collectIpsToApply s))) = IpResults isValid reason"
  shows "bk_vms (handleApplyBulkIPs (Some check) s) =
           (if \<forall>j < length (flattenBulkIps (collectIpsToApply s)). flat_ok isValid j
            then bk_vms (handleApplyBulkIPs None s) else bk_vms s) \<and>
         bk_open (handleApplyBulkIPs (Some check) s) =
           ((\<exists>j < length (flattenBulkIps (collectIpsToApply s)). \<not> flat_ok isValid j) \<and> bk_open s)"
proof -
  obtain s1 where v: "validateRequiredIpsForPreserveEnabled s = (True, s1)" "bk_vms s1 = bk_vms s" "bk_open s1 = bk_open s"
    using required_simps [of s] by (cases "validateRequiredIpsForPreserveEnabled s") auto
  have run: "handleApplyBulkIPs (Some check) s =
      checked_apply check s (collectIpsToApply s) (collectIpsToClear s) (s1 \<lparr> bk_assigning := True \<rparr>) \<lparr> bk_assigning := False \<rparr>"
    using assms(1,2) v(1) by (auto simp: handleApplyBulkIPs_def Let_def)
  note res = checked_apply_results [of check "collectIpsToApply s" isValid reason, OF assms(3)]
  show ?thesis
    unfolding run apply_without_check [OF assms(1,2)] by (auto simp: res v(2,3) assignment_def)
qed

theorem bulk_check_all_or_nothing_witness:
  "bk_vms (handleApplyBulkIPs (Some (\<lambda>_. IpResults [False] [''in use''])) sample_dialog) = bk_vms sample_dialog"
proof -
  have facts: "\<not> hasBulkIpValidationErrors sample_dialog" "collectIpsToApply sample_dialog \<noteq> []"
    "length (flattenBulkIps (collectIpsToApply sample_dialog)) = 1" by code_simp+
  then show ?thesis
    using bulk_check_all_or_nothing [of sample_dialog "\<lambda>_. IpResults [False] [''in use'']" "[False]" "[''in use'']"]
    by (auto simp: flat_ok_def dest: spec [of _ 0])
qed

text \<open>an address that is typed for a machine without interfaces is dropped: the row keeps its address, and the operator is
  told that the change was applied.\<close>

theorem typed_address_dropped_without_interfaces:
  assumes "vm \<in> set (bk_vms s)" "vd_networkInterfaces vm = None"
    and "\<not> hasBulkIpValidationErrors s" "collectIpsToApply s \<noteq> []"
  shows "(\<exists>row \<in> set (bk_vms (handleApplyBulkIPs None s)). vd_id row = vd_id vm \<and> vd_ipAddress row = vd_ipAddress vm) \<and>
         (\<exists>message. bk_toasts (handleApplyBulkIPs None s) = bk_toasts s @ [(message, ''success'')])"
proof
  have "assigned_row s (assignment s) vm \<in> set (bk_vms (handleApplyBulkIPs None s))"
    using apply_without_check [OF assms(3)] assms(1,4) by simp
  moreover have "vd_id (assigned_row s a vm) = vd_id vm \<and> vd_ipAddress (assigned_row s a vm) = vd_ipAddress vm" for a
    using assms(2) by (simp add: assigned_row_def Let_def)
  ultimately show "\<exists>row \<in> set (bk_vms (handleApplyBulkIPs None s)). vd_id row = vd_id vm \<and> vd_ipAddress row = vd_ipAddress vm"
    by blast
  obtain s1 where v: "validateRequiredIpsForPreserveEnabled s = (True, s1)" "bk_toasts s1 = bk_toasts s"
    using required_simps [of s] by (cases "validateRequiredIpsForPreserveEnabled s") auto
  show "\<exists>message. bk_toasts (handleApplyBulkIPs None s) = bk_toasts s @ [(message, ''success'')]"
    using assms(3,4) v by (simp add: handleApplyBulkIPs_def Let_def finish_apply_def applied_toast_def show_toast_def
        applyIpAssignmentsToRows_def updateVmRowsAndForm_def)
qed

definition bare_dialog :: bulk_state where
  "bare_dialog = handleBulkIpChange ''vm-1'' 0 ''10.0.0.9'' (handleOpenBulkIPAssignment (bulk_form bulk_vm))"

theorem typed_address_dropped_without_interfaces_witness:
  "\<exists>row \<in> set (bk_vms (handleApplyBulkIPs None bare_dialog)). vd_ipAddress row = None"
proof -
  have facts: "vd_networkInterfaces bulk_vm = None" "vd_ipAddress bulk_vm = None"
    "\<not> hasBulkIpValidationErrors bare_dialog" "collectIpsToApply bare_dialog \<noteq> []" by code_simp+
  have "bulk_vm \<in> set (bk_vms bare_dialog)"
    by (simp add: bare_dialog_def handleBulkIpChange_def Let_def handleOpenBulkIPAssignment_def)
  then show ?thesis using typed_address_dropped_without_interfaces [OF _ facts(1,3,4)] facts(2) by auto
qed

text \<open>a machine that does not run is opened without preservation and with all the addresses of an interface marked as
  valid, although the dialog refuses the same text when it is typed: several addresses without preservation.\<close>

theorem powered_off_opens_unchecked:
  assumes "vm \<in> set (bk_vms s0)" "distinct (map vd_id (bk_vms s0))" "vd_id vm \<in> set (bk_selected s0)"
    and "vd_networkInterfaces vm = Some nics" "i < length nics"
    and "vd_vmState vm \<noteq> Some ''running''" "hasMultipleIpEntries (nic_text (nics ! i))"
  shows "grid_get (bk_status (handleOpenBulkIPAssignment s0)) (vd_id vm) i = Some CellValid \<and>
     grid_get (bk_status (handleBulkIpChange (vd_id vm) i (nic_text (nics ! i)) (handleOpenBulkIPAssignment s0))) (vd_id vm) i =
       Some CellInvalid \<and>
     grid_get (bk_editIPs (handleOpenBulkIPAssignment s0)) (vd_id vm) i = Some (nic_text (nics ! i))"
proof -
  have sel: "bk_selected s0 \<noteq> []" using assms(3) by auto
  have shown: "js_trim (nic_text (nics ! i)) \<noteq> []"
    using assms(7) by (auto simp: hasMultipleIpEntries_def parseIpList_def Let_def)
  note cell = dialog_cell [OF assms(1-5)]
  show ?thesis
    using sel cell assms(6,7) shown
    by (simp add: handleOpenBulkIPAssignment_def open_grid_get open_cell_of_def ce_edit_def handleBulkIpChange_def Let_def
        getPreserveIpFlag_def typed_verdict_def)
qed

definition stopped_vm :: VmDataWithFlavor where
  "stopped_vm = bulk_vm \<lparr> vd_vmState := Some ''stopped'', vd_networkInterfaces := Some [bulk_nic ''m0'' [''10.0.0.4'', ''10.0.0.5'']] \<rparr>"

theorem powered_off_opens_unchecked_witness:
  "grid_get (bk_status (handleOpenBulkIPAssignment (bulk_form stopped_vm))) ''vm-1'' 0 = Some CellValid"
proof -
  have facts: "vd_id stopped_vm = ''vm-1''" "vd_vmState stopped_vm \<noteq> Some ''running''"
    "hasMultipleIpEntries (nic_text ([bulk_nic ''m0'' [''10.0.0.4'', ''10.0.0.5'']] ! 0))" by code_simp+
  have nics: "vd_networkInterfaces stopped_vm = Some [bulk_nic ''m0'' [''10.0.0.4'', ''10.0.0.5'']]"
    by (simp add: stopped_vm_def)
  show ?thesis
    using powered_off_opens_unchecked [OF _ _ _ nics _ facts(2,3), of "bulk_form stopped_vm"] facts(1) by simp
qed

text \<open>a check that fails other than with status 500 leaves every cell it was asked about in the state of being validated, with
  the dialog open and nothing shown to the operator.\<close>

theorem failed_check_stays_validating:
  assumes "\<not> hasBulkIpValidationErrors s" "collectIpsToApply s \<noteq> []"
    and "check (map be_ip (flattenBulkIps (collectIpsToApply s))) = IpError" "c \<in> set (collectIpsToApply s)"
  shows "grid_get (bk_status (handleApplyBulkIPs (Some check) s)) (be_vmName c) (be_interfaceIndex c) = Some CellValidating \<and>
         bk_open (handleApplyBulkIPs (Some check) s) = bk_open s \<and> bk_toasts (handleApplyBulkIPs (Some check) s) = bk_toasts s"
proof -
  obtain s1 where v: "validateRequiredIpsForPreserveEnabled s = (True, s1)" "bk_open s1 = bk_open s" "bk_toasts s1 = bk_toasts s"
    using required_simps [of s] by (cases "validateRequiredIpsForPreserveEnabled s") auto
  have marked: "c \<in> set cs \<or> grid_get m (be_vmName c) (be_interfaceIndex c) = Some x \<Longrightarrow>
      grid_get (fold (\<lambda>c. grid_set (be_vmName c) (be_interfaceIndex c) x) cs m) (be_vmName c) (be_interfaceIndex c) = Some x"
    for x :: cell_status and cs m
    by (induction cs arbitrary: m) auto
  show ?thesis using assms v marked [OF disjI1 [OF assms(4)]]
    by (simp add: handleApplyBulkIPs_def Let_def checked_apply_def setBulkStatusForIps_def)
qed

theorem failed_check_stays_validating_witness:
  "grid_get (bk_status (handleApplyBulkIPs (Some (\<lambda>_. IpError)) sample_dialog)) ''vm-1'' 1 = Some CellValidating"
proof -
  have facts: "\<not> hasBulkIpValidationErrors sample_dialog" "collectIpsToApply sample_dialog \<noteq> []"
    "\<lparr> be_vmName = ''vm-1'', be_interfaceIndex = 1, be_ip = ''10.0.0.9'' \<rparr> \<in> set (collectIpsToApply sample_dialog)" by code_simp+
  show ?thesis using failed_check_stays_validating [OF facts(1,2) refl facts(3)] by simp
qed

end
