(* ===== verification/Bulk_Ip_Rolling.thy ===== *)
theory Bulk_Ip_Rolling
  imports Bulk_Ip_Edit
begin

text \<open>
  The dialog of the rolling migration that edits the addresses of the selected machines:
  \<open>ui/src/features/migration/hooks/useBulkIPHandlers.ts\<close>. Other than the standard form it writes to the machines of the
  cluster at once, one patch per interface, all sent together. The address check and the answers to the patches are
  arguments; an apply also returns the patches it sent, in the order it sent them.
\<close>

section \<open>State\<close>

record rolling_state =
  rl_vms :: "VM list"
  rl_selected :: "string list"
  rl_open :: bool
  rl_editIPs :: "string grid"
  rl_preserveIp :: "bool grid"
  rl_preserveMac :: "bool grid"
  rl_existingIPs :: "string grid"
  rl_status :: "cell_status grid"
  rl_messages :: "string grid"
  rl_assigning :: bool
  rl_reports :: "string list"

definition rl_hasBulkIpValidationErrors :: "rolling_state \<Rightarrow> bool" where
  "rl_hasBulkIpValidationErrors s = grid_any (\<lambda>st. st = CellInvalid) (rl_status s)"

definition rl_hasBulkIpsToApply :: "rolling_state \<Rightarrow> bool" where
  "rl_hasBulkIpsToApply s =
     (grid_any (\<lambda>ip. js_trim ip \<noteq> []) (rl_editIPs s) \<or> grid_any (\<lambda>f. \<not> f) (rl_preserveIp s) \<or>
      grid_any (\<lambda>f. \<not> f) (rl_preserveMac s))"

definition rl_preserves :: "rolling_state \<Rightarrow> string \<Rightarrow> nat \<Rightarrow> bool" where
  "rl_preserves s vm i = (grid_get (rl_preserveIp s) vm i \<noteq> Some False)"

definition rl_existing :: "rolling_state \<Rightarrow> string \<Rightarrow> nat \<Rightarrow> string" where
  "rl_existing s vm i = str_or (grid_get (rl_existingIPs s) vm i) []"

definition rl_verdict :: "string \<Rightarrow> nat \<Rightarrow> cell_status \<times> string \<Rightarrow> rolling_state \<Rightarrow> rolling_state" where
  "rl_verdict vm i v s =
     s \<lparr> rl_status := grid_set vm i (fst v) (rl_status s), rl_messages := grid_set vm i (snd v) (rl_messages s) \<rparr>"

section \<open>Opening, closing and editing\<close>

definition rl_handleClose :: "rolling_state \<Rightarrow> rolling_state" where
  "rl_handleClose s =
     s \<lparr> rl_open := False, rl_editIPs := [], rl_preserveIp := [], rl_preserveMac := [], rl_existingIPs := [],
         rl_status := [], rl_messages := [] \<rparr>"

definition rl_cells :: "VM \<Rightarrow> (nat \<times> string) list" where
  "rl_cells vm =
     (if nonempty_opt (vm_networkInterfaces vm)
      then map (\<lambda>(i, nic). (i, nic_text nic)) (enumerate 0 (list_or (vm_networkInterfaces vm)))
      else [(0, extractFirstIPv4 (if vm_ip vm \<noteq> [] \<and> vm_ip vm \<noteq> em_dash then vm_ip vm else []))])"

definition rl_grid :: "rolling_state \<Rightarrow> (VM \<Rightarrow> nat \<Rightarrow> string \<Rightarrow> 'v) \<Rightarrow> 'v grid" where
  "rl_grid s f =
     fold (\<lambda>vmId m. case find (\<lambda>v. vm_id v = vmId) (rl_vms s) of
                       None \<Rightarrow> m
                     | Some vm \<Rightarrow> sobj_set (vm_id vm) (map (\<lambda>(i, t). (i, f vm i t)) (rl_cells vm)) m)
       (rl_selected s) []"

definition rl_opening_flag :: "VM \<Rightarrow> nat \<Rightarrow> bool" where
  "rl_opening_flag vm i =
     (if vm_powerState vm \<noteq> ''powered-on'' then False else map_of (list_or (vm_preserveIp vm)) i \<noteq> Some False)"

definition rl_handleOpen :: "rolling_state \<Rightarrow> rolling_state" where
  "rl_handleOpen s =
     (if length (rl_selected s) = 0 then s
      else s \<lparr> rl_editIPs := rl_grid s (\<lambda>vm i t. t), rl_preserveIp := rl_grid s (\<lambda>vm i t. rl_opening_flag vm i),
               rl_preserveMac := rl_grid s (\<lambda>vm i t. map_of (list_or (vm_preserveMac vm)) i \<noteq> Some False),
               rl_existingIPs := rl_grid s (\<lambda>vm i t. t),
               rl_status := rl_grid s (\<lambda>vm i t. if t \<noteq> [] then CellValid else CellEmpty),
               rl_messages := [], rl_open := True \<rparr>)"

definition rl_handlePreserveIpChange :: "string \<Rightarrow> nat \<Rightarrow> bool \<Rightarrow> rolling_state \<Rightarrow> rolling_state" where
  "rl_handlePreserveIpChange vm i flag s =
     (let s1 = s \<lparr> rl_preserveIp := grid_set vm i flag (rl_preserveIp s) \<rparr>
      in if flag
         then (if js_trim (rl_existing s vm i) \<noteq> []
               then rl_verdict vm i (CellValid, []) (s1 \<lparr> rl_editIPs := grid_set vm i (rl_existing s vm i) (rl_editIPs s1) \<rparr>)
               else s1)
         else rl_verdict vm i (assigned_verdict (js_trim (str_or (grid_get (rl_editIPs s) vm i) []))) s1)"

definition rl_handlePreserveMacChange :: "string \<Rightarrow> nat \<Rightarrow> bool \<Rightarrow> rolling_state \<Rightarrow> rolling_state" where
  "rl_handlePreserveMacChange vm i flag s = s \<lparr> rl_preserveMac := grid_set vm i flag (rl_preserveMac s) \<rparr>"

text \<open>A text that is accepted is marked empty here, not valid.\<close>

definition rl_typed_verdict :: "bool \<Rightarrow> string \<Rightarrow> cell_status \<times> string" where
  "rl_typed_verdict preserveIp ip =
     (if js_trim ip = [] then (CellEmpty, [])
      else if \<not> preserveIp \<and> hasMultipleIpEntries ip then (CellInvalid, multiple_message)
      else if \<not> isValidIPAddressList (js_trim ip) then (CellInvalid, format_message)
      else (CellEmpty, []))"

definition rl_handleIpChange :: "string \<Rightarrow> nat \<Rightarrow> string \<Rightarrow> rolling_state \<Rightarrow> rolling_state" where
  "rl_handleIpChange vm i ip s =
     rl_verdict vm i (rl_typed_verdict (rl_preserves s vm i) ip) (s \<lparr> rl_editIPs := grid_set vm i ip (rl_editIPs s) \<rparr>)"

definition rl_handleClearAll :: "rolling_state \<Rightarrow> rolling_state" where
  "rl_handleClearAll s =
     s \<lparr> rl_editIPs := obj_map (obj_map (\<lambda>_. [])) (rl_editIPs s),
         rl_status := obj_map (obj_map (\<lambda>_. CellEmpty)) (rl_editIPs s), rl_messages := [] \<rparr>"

section \<open>Apply\<close>

datatype vm_patch = PatchNics string "vm_nic list" | PatchAssignedIp string string

definition rl_missing :: "rolling_state \<Rightarrow> BulkIpEdit \<Rightarrow> bool" where
  "rl_missing s c =
     (rl_preserves s (be_vmName c) (be_interfaceIndex c) \<and> js_trim (rl_existing s (be_vmName c) (be_interfaceIndex c)) = [] \<and>
      js_trim (be_ip c) = [])"

definition rl_applied :: "rolling_state \<Rightarrow> BulkIpEdit \<Rightarrow> bool" where
  "rl_applied s c =
     (let existing = js_trim (rl_existing s (be_vmName c) (be_interfaceIndex c)); ip = js_trim (be_ip c)
      in ip \<noteq> [] \<and> \<not> (rl_preserves s (be_vmName c) (be_interfaceIndex c) \<and> existing \<noteq> [] \<and> ip = existing))"

definition rl_cleared :: "rolling_state \<Rightarrow> BulkIpEdit \<Rightarrow> bool" where
  "rl_cleared s c =
     (\<not> rl_preserves s (be_vmName c) (be_interfaceIndex c) \<and> js_trim (be_ip c) = [] \<and>
      js_trim (rl_existing s (be_vmName c) (be_interfaceIndex c)) \<noteq> [])"

definition rl_toApply :: "rolling_state \<Rightarrow> BulkIpEdit list" where
  "rl_toApply s = map (\<lambda>c. c \<lparr> be_ip := js_trim (be_ip c) \<rparr>) (filter (rl_applied s) (grid_cells (rl_editIPs s)))"

definition rl_toClear :: "rolling_state \<Rightarrow> BulkIpEdit list" where
  "rl_toClear s = filter (rl_cleared s) (grid_cells (rl_editIPs s))"

definition rl_with_flags :: "rolling_state \<Rightarrow> VM \<Rightarrow> VM" where
  "rl_with_flags s vm =
     (let vm1 = (case map_of (rl_preserveIp s) (vm_id vm) of None \<Rightarrow> vm | Some row \<Rightarrow> vm \<lparr> vm_preserveIp := Some row \<rparr>)
      in case map_of (rl_preserveMac s) (vm_id vm) of None \<Rightarrow> vm1 | Some row \<Rightarrow> vm1 \<lparr> vm_preserveMac := Some row \<rparr>)"

definition set_ips :: "nat \<Rightarrow> string list \<Rightarrow> vm_nic list \<Rightarrow> vm_nic list" where
  "set_ips i ips nics = (if i < length nics then nics[i := (nics ! i) \<lparr> nic_ips := ips \<rparr>] else nics)"

definition typed_ips :: "string \<Rightarrow> string list" where
  "typed_ips ip = (if js_trim ip \<noteq> [] then parseIpList ip else [])"

text \<open>The patch of one interface: \<open>None\<close> when the machine is not in the table.\<close>

definition patch_of :: "rolling_state \<Rightarrow> BulkIpEdit \<Rightarrow> string list \<Rightarrow> string \<Rightarrow> vm_patch option" where
  "patch_of s c ips assigned =
     (case find (\<lambda>v. vm_id v = be_vmName c) (rl_vms s) of
        None \<Rightarrow> None
      | Some vm \<Rightarrow>
          (if be_interfaceIndex c < length (list_or (vm_networkInterfaces vm))
           then Some (PatchNics (vm_id vm) (set_ips (be_interfaceIndex c) ips (list_or (vm_networkInterfaces vm))))
           else Some (PatchAssignedIp (be_vmName c) assigned)))"

definition update_patch :: "rolling_state \<Rightarrow> BulkIpEdit \<Rightarrow> vm_patch option" where
  "update_patch s c = patch_of s c (typed_ips (be_ip c)) (be_ip c)"

definition clear_patch :: "rolling_state \<Rightarrow> BulkIpEdit \<Rightarrow> vm_patch option" where
  "clear_patch s c = patch_of s c (typed_ips (rl_existing s (be_vmName c) (be_interfaceIndex c))) []"

text \<open>The answer to a patch: \<open>None\<close> when it is accepted, otherwise the message of the error.\<close>

type_synonym patch_api = "vm_patch \<Rightarrow> string option"

definition patch_error :: "patch_api \<Rightarrow> vm_patch option \<Rightarrow> string option" where
  "patch_error api p = (case p of None \<Rightarrow> Some ''VM not found'' | Some q \<Rightarrow> api q)"

definition mark_failed :: "patch_api \<Rightarrow> BulkIpEdit \<times> vm_patch option \<Rightarrow> rolling_state \<Rightarrow> rolling_state" where
  "mark_failed api cp s =
     (case patch_error api (snd cp) of
        None \<Rightarrow> s
      | Some e \<Rightarrow> rl_verdict (be_vmName (fst cp)) (be_interfaceIndex (fst cp)) (CellInvalid, e) s)"

definition rl_row :: "rolling_state \<Rightarrow> BulkIpEdit list \<Rightarrow> BulkIpEdit list \<Rightarrow> VM \<Rightarrow> VM" where
  "rl_row s validIPs clears vm =
     (let updates = filter (\<lambda>c. be_vmName c = vm_id vm) validIPs; vmClears = filter (\<lambda>c. be_vmName c = vm_id vm) clears
      in if updates = [] \<and> vmClears = [] \<and> map_of (rl_preserveIp s) (vm_id vm) = None \<and> map_of (rl_preserveMac s) (vm_id vm) = None
         then vm
         else (case vm_networkInterfaces vm of
                 Some nics \<Rightarrow>
                   (let nics1 = fold (\<lambda>c. set_ips (be_interfaceIndex c) (typed_ips (be_ip c))) updates nics;
                        nics2 = fold (\<lambda>c. set_ips (be_interfaceIndex c) []) vmClears nics1;
                        allIPs = display_ips nics2
                    in rl_with_flags s (vm \<lparr> vm_networkInterfaces := Some nics2,
                                             vm_ip := (if allIPs \<noteq> [] then allIPs else em_dash) \<rparr>))
               | None \<Rightarrow>
                   (let ip1 = (case updates of [] \<Rightarrow> vm_ip vm | c # _ \<Rightarrow> be_ip c)
                    in rl_with_flags s (vm \<lparr> vm_ip :=
                         (if list_ex (\<lambda>c. be_interfaceIndex c = 0) vmClears then em_dash else ip1) \<rparr>))))"

text \<open>The patches and the rows, once the check has accepted every address.\<close>

definition rl_patch_all ::
  "patch_api \<Rightarrow> rolling_state \<Rightarrow> BulkIpEdit list \<Rightarrow> BulkIpEdit list \<Rightarrow> rolling_state \<Rightarrow> rolling_state \<times> vm_patch list" where
  "rl_patch_all api render validIPs clears s =
     (let jobs = map (\<lambda>c. (c, update_patch render c)) validIPs @ map (\<lambda>c. (c, clear_patch render c)) clears;
          sent = List.map_filter snd jobs;
          s1 = fold (mark_failed api) jobs s
      in if list_ex (\<lambda>j. patch_error api (snd j) \<noteq> None) jobs then (s1, sent)
         else (rl_handleClose (s1 \<lparr> rl_vms := map (rl_row render validIPs clears) (rl_vms s1) \<rparr>), sent))"

definition rl_checked ::
  "(string list \<Rightarrow> ip_check) \<Rightarrow> patch_api \<Rightarrow> rolling_state \<Rightarrow> BulkIpEdit list \<Rightarrow> BulkIpEdit list \<Rightarrow> rolling_state \<Rightarrow>
   rolling_state \<times> vm_patch list" where
  "rl_checked check api render ips clears s =
     (let flat = flattenBulkIps ips;
          s1 = s \<lparr> rl_status := fold (\<lambda>c. grid_set (be_vmName c) (be_interfaceIndex c) CellValidating) ips (rl_status s) \<rparr>
      in case (if length flat > 0 then check (map be_ip flat) else IpResults [] []) of
           IpResults isValid reason \<Rightarrow>
             (let m = verdict_map flat isValid reason;
                  s2 = fold (\<lambda>c. rl_verdict (be_vmName c) (be_interfaceIndex c) (cell_verdict m c)) ips s1
              in if list_ex (\<lambda>c. \<not> cell_ok m c) ips then (s2, [])
                 else rl_patch_all api render (filter (cell_ok m) ips) clears s2)
         | IpUnavailable _ \<Rightarrow> (s1 \<lparr> rl_reports := rl_reports s1 @ [''bulk-ip-validation-assignment''] \<rparr>, [])
         | IpError \<Rightarrow> (s1 \<lparr> rl_reports := rl_reports s1 @ [''bulk-ip-validation-assignment''] \<rparr>, []))"

definition rl_handleApply :: "(string list \<Rightarrow> ip_check) option \<Rightarrow> patch_api \<Rightarrow> rolling_state \<Rightarrow> rolling_state \<times> vm_patch list" where
  "rl_handleApply check api s =
     (if list_ex (rl_missing s) (grid_cells (rl_editIPs s))
      then (fold (\<lambda>c. rl_verdict (be_vmName c) (be_interfaceIndex c) (CellInvalid, ''IP is required when Preserve IP is enabled''))
              (filter (rl_missing s) (grid_cells (rl_editIPs s))) s, [])
      else if rl_toApply s = [] \<and> rl_toClear s = []
      then (rl_handleClose (s \<lparr> rl_vms := map (rl_with_flags s) (rl_vms s) \<rparr>), [])
      else (case check of
              None \<Rightarrow> (s \<lparr> rl_assigning := False \<rparr>, [])
            | Some c \<Rightarrow>
                (case rl_checked c api s (rl_toApply s) (rl_toClear s) (s \<lparr> rl_assigning := True \<rparr>) of
                   (s1, sent) \<Rightarrow> (s1 \<lparr> rl_assigning := False \<rparr>, sent))))"

section \<open>What an apply does\<close>

lemma rl_verdict_simps [simp]:
  "rl_vms (rl_verdict vm i v s) = rl_vms s" "rl_open (rl_verdict vm i v s) = rl_open s"
  by (simp_all add: rl_verdict_def)

lemma rl_verdict_folds [simp]:
  "rl_vms (fold (\<lambda>c. rl_verdict (f c) (g c) (h c)) cs s) = rl_vms s"
  "rl_open (fold (\<lambda>c. rl_verdict (f c) (g c) (h c)) cs s) = rl_open s"
  by (induction cs arbitrary: s) simp_all

lemma mark_failed_folds [simp]:
  "rl_vms (fold (mark_failed api) js s) = rl_vms s" "rl_open (fold (mark_failed api) js s) = rl_open s"
  by (induction js arbitrary: s) (simp_all add: mark_failed_def split: option.split)

lemma length_set_ips [simp]: "length (set_ips i ips nics) = length nics"
  by (simp add: set_ips_def)

lemma length_set_ips_fold [simp]: "length (fold (\<lambda>c. set_ips (f c) (g c)) cs nics) = length nics"
  by (induction cs arbitrary: nics) simp_all

lemma set_ips_nth: "j < length nics \<Longrightarrow> nic_ips (set_ips i ips nics ! j) = (if i = j then ips else nic_ips (nics ! j))"
  by (simp add: set_ips_def nth_list_update)

lemma fold_set_ips_other:
  "j < length nics \<Longrightarrow> \<forall>c \<in> set cs. f c \<noteq> j \<Longrightarrow>
   nic_ips (fold (\<lambda>c. set_ips (f c) (g c)) cs nics ! j) = nic_ips (nics ! j)"
  by (induction cs arbitrary: nics) (simp_all add: set_ips_nth)

lemma fold_set_ips:
  "j < length nics \<Longrightarrow> c \<in> set cs \<Longrightarrow> f c = j \<Longrightarrow> \<forall>d \<in> set cs. f d = j \<longrightarrow> g d = x \<Longrightarrow>
   nic_ips (fold (\<lambda>c. set_ips (f c) (g c)) cs nics ! j) = x"
proof (induction cs arbitrary: nics c)
  case (Cons d cs)
  show ?case
  proof (cases "\<exists>e \<in> set cs. f e = j")
    case True
    then obtain e where "e \<in> set cs" "f e = j" by blast
    then show ?thesis using Cons.IH [of "set_ips (f d) (g d) nics" e] Cons.prems(1,4) by simp
  next
    case False
    then have "f d = j" using Cons.prems(2,3) by auto
    then show ?thesis using False Cons.prems(1,4) by (simp add: fold_set_ips_other set_ips_nth)
  qed
qed simp

text \<open>A check that accepts every address.\<close>

definition accepts :: "(string list \<Rightarrow> ip_check) \<Rightarrow> bool" where
  "accepts check \<longleftrightarrow>
     (\<forall>ips. \<exists>isValid reason. check ips = IpResults isValid reason \<and> (\<forall>j < length ips. flat_ok isValid j))"

lemma rl_apply_accepted:
  assumes "accepts check" "\<not> list_ex (rl_missing s) (grid_cells (rl_editIPs s))" "rl_toApply s \<noteq> [] \<or> rl_toClear s \<noteq> []"
  obtains s2 where "rl_vms s2 = rl_vms s" "rl_open s2 = rl_open s"
    "rl_handleApply (Some check) api s =
       (case rl_patch_all api s (rl_toApply s) (rl_toClear s) s2 of (s3, sent) \<Rightarrow> (s3 \<lparr> rl_assigning := False \<rparr>, sent))"
proof -
  let ?flat = "flattenBulkIps (rl_toApply s)"
  obtain isValid reason where r: "(if length ?flat > 0 then check (map be_ip ?flat) else IpResults [] []) = IpResults isValid reason"
    "\<forall>j < length ?flat. flat_ok isValid j"
  proof (cases "length ?flat > 0")
    case True
    with assms(1) that show thesis unfolding accepts_def by (metis length_map)
  qed (use that in auto)
  let ?m = "verdict_map ?flat isValid reason"
  have ok: "\<not> list_ex (\<lambda>c. \<not> cell_ok ?m c) (rl_toApply s)" using any_cell_refused r(2) by simp
  then have all: "filter (cell_ok ?m) (rl_toApply s) = rl_toApply s" by (simp add: list_ex_iff filter_id_conv)
  define s1 where "s1 = s \<lparr> rl_assigning := True,
      rl_status := fold (\<lambda>c. grid_set (be_vmName c) (be_interfaceIndex c) CellValidating) (rl_toApply s) (rl_status s) \<rparr>"
  define s2 where "s2 = fold (\<lambda>c. rl_verdict (be_vmName c) (be_interfaceIndex c) (cell_verdict ?m c)) (rl_toApply s) s1"
  have "rl_vms s2 = rl_vms s" "rl_open s2 = rl_open s" by (simp_all add: s2_def s1_def)
  moreover have "rl_checked check api s (rl_toApply s) (rl_toClear s) (s \<lparr> rl_assigning := True \<rparr>) =
      rl_patch_all api s (rl_toApply s) (rl_toClear s) s2"
    unfolding rl_checked_def Let_def r(1) using ok all by (simp add: s1_def s2_def)
  then have "rl_handleApply (Some check) api s =
      (case rl_patch_all api s (rl_toApply s) (rl_toClear s) s2 of (s3, sent) \<Rightarrow> (s3 \<lparr> rl_assigning := False \<rparr>, sent))"
    using assms(2,3) by (auto simp: rl_handleApply_def)
  ultimately show thesis by (rule that)
qed

lemma rl_with_flags_simps [simp]:
  "vm_id (rl_with_flags s vm) = vm_id vm" "vm_networkInterfaces (rl_with_flags s vm) = vm_networkInterfaces vm"
  "vm_ip (rl_with_flags s vm) = vm_ip vm"
  by (simp_all add: rl_with_flags_def Let_def split: option.split)

lemma rl_row_id [simp]: "vm_id (rl_row s ips clears vm) = vm_id vm"
  by (simp add: rl_row_def Let_def split: option.split)

lemma rl_cell_unique:
  assumes "grid_ok (rl_editIPs s)" "c \<in> set (rl_toApply s)" "d \<in> set (rl_toApply s)"
    "be_vmName c = be_vmName d" "be_interfaceIndex c = be_interfaceIndex d"
  shows "c = d"
  using assms by (auto simp: rl_toApply_def grid_cells_iff)

lemma rl_not_both:
  assumes "grid_ok (rl_editIPs s)" "c \<in> set (rl_toApply s)" "d \<in> set (rl_toClear s)"
  shows "\<not> (be_vmName c = be_vmName d \<and> be_interfaceIndex c = be_interfaceIndex d)"
  using assms by (auto simp: rl_toApply_def rl_toClear_def grid_cells_iff rl_applied_def rl_cleared_def Let_def)

text \<open>The interfaces of a row after a successful apply.\<close>

lemma rl_row_ips:
  assumes "grid_ok (rl_editIPs s)" "c \<in> set (rl_toApply s)" "be_vmName c = vm_id vm"
    and "vm_networkInterfaces vm = Some nics" "be_interfaceIndex c < length nics"
  shows "\<exists>new. vm_networkInterfaces (rl_row s (rl_toApply s) (rl_toClear s) vm) = Some new \<and> length new = length nics \<and>
     nic_ips (new ! be_interfaceIndex c) = typed_ips (be_ip c)"
proof -
  let ?updates = "filter (\<lambda>c. be_vmName c = vm_id vm) (rl_toApply s)"
  let ?clears = "filter (\<lambda>c. be_vmName c = vm_id vm) (rl_toClear s)"
  let ?nics1 = "fold (\<lambda>c. set_ips (be_interfaceIndex c) (typed_ips (be_ip c))) ?updates nics"
  let ?nics2 = "fold (\<lambda>c. set_ips (be_interfaceIndex c) []) ?clears ?nics1"
  have c: "c \<in> set ?updates" using assms(2,3) by simp
  then have "?updates \<noteq> []" by (metis empty_iff empty_set)
  then have new: "vm_networkInterfaces (rl_row s (rl_toApply s) (rl_toClear s) vm) = Some ?nics2"
    by (simp add: rl_row_def Let_def assms(4))
  have only: "\<forall>d \<in> set ?updates. be_interfaceIndex d = be_interfaceIndex c \<longrightarrow> typed_ips (be_ip d) = typed_ips (be_ip c)"
    using rl_cell_unique [OF assms(1) _ assms(2)] assms(3) by auto
  have "nic_ips (?nics1 ! be_interfaceIndex c) = typed_ips (be_ip c)"
    by (rule fold_set_ips [OF assms(5) c refl only])
  moreover have "be_interfaceIndex d \<noteq> be_interfaceIndex c" if "d \<in> set ?clears" for d
    using that rl_not_both [OF assms(1,2), of d] assms(3) by auto
  ultimately show ?thesis using new assms(5) by (simp add: fold_set_ips_other)
qed

lemma rl_patch_all_sent:
  "set (snd (rl_patch_all api render ips clears s)) =
     {p. \<exists>c \<in> set ips. update_patch render c = Some p} \<union> {p. \<exists>c \<in> set clears. clear_patch render c = Some p}"
proof -
  have "set (List.map_filter f xs) = {y. \<exists>x \<in> set xs. f x = Some y}" for f :: "BulkIpEdit \<times> vm_patch option \<Rightarrow> vm_patch option" and xs
    by (induction xs) (auto simp: map_filter_simps split: option.split)
  note sent = this
  show ?thesis unfolding rl_patch_all_def Let_def by (simp add: sent bex_Un Collect_disj_eq)
qed

lemma rl_patch_all_rows:
  "rl_vms (fst (rl_patch_all api render ips clears s)) =
     (if list_ex (\<lambda>c. patch_error api (update_patch render c) \<noteq> None) ips \<or>
         list_ex (\<lambda>c. patch_error api (clear_patch render c) \<noteq> None) clears
      then rl_vms s else map (rl_row render ips clears) (rl_vms s))"
  by (simp add: rl_patch_all_def Let_def list_ex_iff rl_handleClose_def bex_Un image_iff)

lemma rl_patch_all_open:
  "list_ex (\<lambda>c. patch_error api (update_patch render c) \<noteq> None) ips \<Longrightarrow>
   rl_open (fst (rl_patch_all api render ips clears s)) = rl_open s"
  by (auto simp: rl_patch_all_def Let_def list_ex_iff bex_Un image_iff simp del: not_None_eq)

lemma rl_handleClearAll_simps:
  "rl_editIPs (rl_handleClearAll s) = obj_map (obj_map (\<lambda>_. [])) (rl_editIPs s)"
  by (simp add: rl_handleClearAll_def)

lemma rl_handleClearAll_keeps [simp]:
  "rl_preserves (rl_handleClearAll s) vm i = rl_preserves s vm i" "rl_existing (rl_handleClearAll s) vm i = rl_existing s vm i"
  "rl_vms (rl_handleClearAll s) = rl_vms s"
  by (simp_all add: rl_preserves_def rl_existing_def rl_handleClearAll_def)

lemma cleared_cell:
  assumes "c \<in> set (grid_cells (obj_map (obj_map (\<lambda>_. [])) m))"
  shows "\<exists>d \<in> set (grid_cells m). be_vmName c = be_vmName d \<and> be_interfaceIndex c = be_interfaceIndex d \<and> be_ip c = []"
  using assms by (force simp: grid_cells_def obj_map_def)

section \<open>Properties\<close>

lemma patch_of_nics:
  assumes "patch_of s c ips a = Some (PatchNics w ns)" "vm \<in> set (rl_vms s)" "distinct (map vm_id (rl_vms s))" "vm_id vm = w"
    and "vm_networkInterfaces vm = Some nics"
  shows "be_vmName c = w \<and> be_interfaceIndex c < length nics \<and> ns = set_ips (be_interfaceIndex c) ips nics"
proof -
  obtain v where v: "find (\<lambda>v. vm_id v = be_vmName c) (rl_vms s) = Some v" "vm_id v = w"
    "be_interfaceIndex c < length (list_or (vm_networkInterfaces v))"
    "ns = set_ips (be_interfaceIndex c) ips (list_or (vm_networkInterfaces v))"
    using assms(1) by (auto simp: patch_of_def split: option.splits if_splits)
  have "v \<in> set (rl_vms s)" "vm_id v = be_vmName c" using find_SomeD [OF v(1)] by simp_all
  moreover from this have "v = vm" using assms(2-4) v(2) by (metis find_distinct option.inject)
  ultimately show ?thesis using v assms(5) by simp
qed

text \<open>When every patch is accepted, the rows of the table change as the edits say.\<close>

lemma rl_all_accepted:
  assumes "\<And>p. api p = None"
    and "\<forall>e \<in> set ips \<union> set clears. be_vmName e \<in> vm_id ` set (rl_vms s)"
  shows "rl_vms (fst (rl_patch_all api s ips clears t)) = map (rl_row s ips clears) (rl_vms t)"
proof -
  have "patch_error api (patch_of s e x a) = None" if e: "be_vmName e \<in> vm_id ` set (rl_vms s)" for e x a
  proof -
    from e obtain v where "v \<in> set (rl_vms s)" "vm_id v = be_vmName e" by auto
    then have "find (\<lambda>v. vm_id v = be_vmName e) (rl_vms s) \<noteq> None" by (auto simp: find_None_iff)
    then show ?thesis by (auto simp: patch_error_def patch_of_def assms(1))
  qed
  then show ?thesis
    using assms(2) by (auto simp: rl_patch_all_rows list_ex_iff update_patch_def clear_patch_def)
qed

text \<open>two interfaces of one machine that are given new addresses in one apply are sent as two patches, each the whole list of
  interfaces with only one of the addresses: none of them is what the table then shows, so that whichever patch the server
  applies last, one of the two addresses is not on the machine.\<close>

theorem rolling_two_interfaces_lose_one:
  assumes "grid_ok (rl_editIPs s)" "accepts check" "\<And>p. api p = None"
    and "\<not> list_ex (rl_missing s) (grid_cells (rl_editIPs s))"
    and "vm \<in> set (rl_vms s)" "distinct (map vm_id (rl_vms s))" "vm_networkInterfaces vm = Some nics"
    and "c \<in> set (rl_toApply s)" "be_vmName c = vm_id vm" "be_interfaceIndex c < length nics"
    and "d \<in> set (rl_toApply s)" "be_vmName d = vm_id vm" "be_interfaceIndex d < length nics"
    and "be_interfaceIndex c \<noteq> be_interfaceIndex d"
    and "typed_ips (be_ip c) \<noteq> nic_ips (nics ! be_interfaceIndex c)" "typed_ips (be_ip d) \<noteq> nic_ips (nics ! be_interfaceIndex d)"
    and known: "\<forall>e \<in> set (rl_toApply s) \<union> set (rl_toClear s). be_vmName e \<in> vm_id ` set (rl_vms s)"
  shows "\<exists>row \<in> set (rl_vms (fst (rl_handleApply (Some check) api s))). vm_id row = vm_id vm \<and>
     (\<forall>ns. PatchNics (vm_id vm) ns \<in> set (snd (rl_handleApply (Some check) api s)) \<longrightarrow> vm_networkInterfaces row \<noteq> Some ns)"
proof -
  have "rl_toApply s \<noteq> [] \<or> rl_toClear s \<noteq> []" using assms(8) by auto
  from rl_apply_accepted [OF assms(2,4) this, of api] obtain s2 where s2: "rl_vms s2 = rl_vms s" "rl_open s2 = rl_open s"
    "rl_handleApply (Some check) api s =
       (case rl_patch_all api s (rl_toApply s) (rl_toClear s) s2 of (s3, sent) \<Rightarrow> (s3 \<lparr> rl_assigning := False \<rparr>, sent))" .
  let ?row = "rl_row s (rl_toApply s) (rl_toClear s) vm"
  have "rl_vms (fst (rl_handleApply (Some check) api s)) = map (rl_row s (rl_toApply s) (rl_toClear s)) (rl_vms s)"
    using rl_all_accepted [where api = api and t = s2, OF assms(3) known] s2 by (simp split: prod.splits)
  with assms(5) have mem: "?row \<in> set (rl_vms (fst (rl_handleApply (Some check) api s)))" by simp
  obtain new where new: "vm_networkInterfaces ?row = Some new"
    "nic_ips (new ! be_interfaceIndex c) = typed_ips (be_ip c)" "nic_ips (new ! be_interfaceIndex d) = typed_ips (be_ip d)"
    using rl_row_ips [OF assms(1,8,9,7,10)] rl_row_ips [OF assms(1,11,12,7,13)] by auto
  have "Some ns \<noteq> Some new" if "PatchNics (vm_id vm) ns \<in> set (snd (rl_handleApply (Some check) api s))" for ns
  proof
    assume "Some ns = Some new"
    have "PatchNics (vm_id vm) ns \<in> set (snd (rl_patch_all api s (rl_toApply s) (rl_toClear s) s2))"
      using that by (simp add: s2(3) split: prod.splits)
    then obtain e ips a where e: "patch_of s e ips a = Some (PatchNics (vm_id vm) ns)"
      unfolding rl_patch_all_sent update_patch_def clear_patch_def by blast
    from patch_of_nics [OF e assms(5,6) refl assms(7)] have ns: "ns = set_ips (be_interfaceIndex e) ips nics" by blast
    have "be_interfaceIndex e = be_interfaceIndex c"
      using new(2) assms(10,15) \<open>Some ns = Some new\<close> by (auto simp: ns set_ips_nth split: if_splits)
    moreover have "be_interfaceIndex e = be_interfaceIndex d"
      using new(3) assms(13,16) \<open>Some ns = Some new\<close> by (auto simp: ns set_ips_nth split: if_splits)
    ultimately show False using assms(14) by simp
  qed
  with mem new(1) show ?thesis by (intro bexI [of _ ?row]) auto
qed

definition rolling_vm :: VM where
  "rolling_vm =
     \<lparr> vm_id = ''vm-1'', vm_name = ''web'', vm_ip = ''10.0.0.4'', vm_esxHost = ''esx1'', vm_networks = None, vm_datastores = None,
       vm_cpu = None, vm_memory = None, vm_powerState = ''powered-on'', vm_osFamily = None, vm_flavor = None,
       vm_targetFlavorId = None, vm_ipValidationStatus = None, vm_ipValidationMessage = None,
       vm_networkInterfaces = Some [bulk_nic ''m0'' [''10.0.0.4''], bulk_nic ''m1'' [''10.0.0.5'']],
       vm_preserveIp = None, vm_preserveMac = None \<rparr>"

definition rolling_form :: rolling_state where
  "rolling_form =
     \<lparr> rl_vms = [rolling_vm], rl_selected = [''vm-1''], rl_open = False, rl_editIPs = [], rl_preserveIp = [], rl_preserveMac = [],
       rl_existingIPs = [], rl_status = [], rl_messages = [], rl_assigning = False, rl_reports = [] \<rparr>"

definition one_edit :: rolling_state where
  "one_edit = rl_handleIpChange ''vm-1'' 0 ''10.0.0.8'' (rl_handleOpen rolling_form)"

definition two_edits :: rolling_state where
  "two_edits = rl_handleIpChange ''vm-1'' 1 ''10.0.0.9'' one_edit"

definition accept_all :: "string list \<Rightarrow> ip_check" where
  "accept_all ips = IpResults (map (\<lambda>_. True) ips) []"

lemma accept_all [simp]: "accepts accept_all"
  by (simp add: accepts_def accept_all_def flat_ok_def)

lemma rl_grid_ok: "grid_ok (rl_grid s f)"
proof -
  have "obj_ok (<) (map (\<lambda>(i, t). (i, f vm i t)) (rl_cells vm))" for vm
  proof -
    have "map fst (rl_cells vm) = (if nonempty_opt (vm_networkInterfaces vm)
        then [0..<length (list_or (vm_networkInterfaces vm))] else [0])"
      using map_fst_keyed [of "\<lambda>_. nic_text" "enumerate 0 (list_or (vm_networkInterfaces vm))"]
        map_fst_enumerate [of 0 "list_or (vm_networkInterfaces vm)"]
      unfolding rl_cells_def by simp
    then show ?thesis unfolding obj_ok_def map_fst_keyed by (simp add: not_less)
  qed
  then have "grid_ok m \<Longrightarrow> grid_ok (fold (\<lambda>vmId m. case find (\<lambda>v. vm_id v = vmId) (rl_vms s) of None \<Rightarrow> m
      | Some vm \<Rightarrow> sobj_set (vm_id vm) (map (\<lambda>(i, t). (i, f vm i t)) (rl_cells vm)) m) ids m)" for ids m
  proof (induction ids arbitrary: m)
    case (Cons x ids)
    then have "grid_ok (case find (\<lambda>v. vm_id v = x) (rl_vms s) of None \<Rightarrow> m
      | Some vm \<Rightarrow> sobj_set (vm_id vm) (map (\<lambda>(i, t). (i, f vm i t)) (rl_cells vm)) m)"
      by (auto split: option.split intro!: grid_ok_sobj_set)
    then show ?case using Cons by simp
  qed simp
  then show ?thesis by (simp add: rl_grid_def)
qed

lemma edits_grid_ok: "grid_ok (rl_editIPs one_edit)" "grid_ok (rl_editIPs two_edits)"
  by (simp_all add: two_edits_def one_edit_def rl_handleIpChange_def rl_verdict_def rl_handleOpen_def rolling_form_def
      grid_ok_set rl_grid_ok)

lemma edits_rows: "rl_vms one_edit = [rolling_vm]" "rl_vms two_edits = [rolling_vm]"
  by (simp_all add: two_edits_def one_edit_def rl_handleIpChange_def rl_handleOpen_def rolling_form_def)

theorem rolling_two_interfaces_lose_one_witness:
  "\<exists>row \<in> set (rl_vms (fst (rl_handleApply (Some accept_all) (\<lambda>_. None) two_edits))).
     \<forall>ns. PatchNics ''vm-1'' ns \<in> set (snd (rl_handleApply (Some accept_all) (\<lambda>_. None) two_edits)) \<longrightarrow>
       vm_networkInterfaces row \<noteq> Some ns"
proof -
  let ?c = "\<lparr> be_vmName = ''vm-1'', be_interfaceIndex = 0, be_ip = ''10.0.0.8'' \<rparr>"
  let ?d = "\<lparr> be_vmName = ''vm-1'', be_interfaceIndex = 1, be_ip = ''10.0.0.9'' \<rparr>"
  have sets: "rl_toApply two_edits = [?c, ?d]" "rl_toClear two_edits = []"
    "\<not> list_ex (rl_missing two_edits) (grid_cells (rl_editIPs two_edits))"
    "typed_ips ''10.0.0.8'' = [''10.0.0.8'']" "typed_ips ''10.0.0.9'' = [''10.0.0.9'']" by code_simp+
  have nics: "vm_id rolling_vm = ''vm-1''"
    "vm_networkInterfaces rolling_vm = Some [bulk_nic ''m0'' [''10.0.0.4''], bulk_nic ''m1'' [''10.0.0.5'']]"
    by (simp_all add: rolling_vm_def)
  have "\<exists>row \<in> set (rl_vms (fst (rl_handleApply (Some accept_all) (\<lambda>_. None) two_edits))). vm_id row = vm_id rolling_vm \<and>
     (\<forall>ns. PatchNics (vm_id rolling_vm) ns \<in> set (snd (rl_handleApply (Some accept_all) (\<lambda>_. None) two_edits)) \<longrightarrow>
       vm_networkInterfaces row \<noteq> Some ns)"
    by (rule rolling_two_interfaces_lose_one [OF edits_grid_ok(2) accept_all refl sets(3) _ _ nics(2), where c = ?c and d = ?d])
      (simp_all add: edits_rows sets nics(1) bulk_nic_def)
  then show ?thesis unfolding nics(1) by blast
qed

lemma fold_same: "(\<And>n. F c (F c n) = F c n) \<Longrightarrow> cs \<noteq> [] \<Longrightarrow> \<forall>d \<in> set cs. d = c \<Longrightarrow> fold F cs n = F c n"
proof (induction cs arbitrary: n)
  case (Cons d cs)
  then show ?case by (cases "cs = []") auto
qed simp

text \<open>a machine with one edited interface is shown as it was sent: the patch of its interfaces is the list of the row.\<close>

theorem rolling_single_edit_consistent:
  assumes "grid_ok (rl_editIPs s)" "accepts check" "\<And>p. api p = None"
    and "\<not> list_ex (rl_missing s) (grid_cells (rl_editIPs s))"
    and "vm \<in> set (rl_vms s)" "distinct (map vm_id (rl_vms s))" "vm_networkInterfaces vm = Some nics"
    and "c \<in> set (rl_toApply s)" "be_vmName c = vm_id vm" "be_interfaceIndex c < length nics"
    and only: "\<forall>e \<in> set (rl_toApply s). be_vmName e = vm_id vm \<longrightarrow> e = c" "\<forall>e \<in> set (rl_toClear s). be_vmName e \<noteq> vm_id vm"
    and known: "\<forall>e \<in> set (rl_toApply s) \<union> set (rl_toClear s). be_vmName e \<in> vm_id ` set (rl_vms s)"
  shows "\<exists>row \<in> set (rl_vms (fst (rl_handleApply (Some check) api s))). vm_id row = vm_id vm \<and>
     (\<exists>ns. vm_networkInterfaces row = Some ns \<and>
        nic_ips (ns ! be_interfaceIndex c) = typed_ips (be_ip c) \<and>
        {ms. PatchNics (vm_id vm) ms \<in> set (snd (rl_handleApply (Some check) api s))} = {ns})"
proof -
  have "rl_toApply s \<noteq> [] \<or> rl_toClear s \<noteq> []" using assms(8) by auto
  from rl_apply_accepted [OF assms(2,4) this, of api] obtain s2 where s2: "rl_vms s2 = rl_vms s" "rl_open s2 = rl_open s"
    "rl_handleApply (Some check) api s =
       (case rl_patch_all api s (rl_toApply s) (rl_toClear s) s2 of (s3, sent) \<Rightarrow> (s3 \<lparr> rl_assigning := False \<rparr>, sent))" .
  let ?row = "rl_row s (rl_toApply s) (rl_toClear s) vm"
  let ?ns = "set_ips (be_interfaceIndex c) (typed_ips (be_ip c)) nics"
  let ?updates = "filter (\<lambda>c. be_vmName c = vm_id vm) (rl_toApply s)"
  have rows: "rl_vms (fst (rl_handleApply (Some check) api s)) = map (rl_row s (rl_toApply s) (rl_toClear s)) (rl_vms s)"
    using rl_all_accepted [where api = api and t = s2, OF assms(3) known] s2 by (simp split: prod.splits)
  have "?updates \<noteq> []" using assms(8,9) by (metis (mono_tags, lifting) filter_empty_conv)
  moreover have "\<forall>d \<in> set ?updates. d = c" using only(1) by simp
  moreover have "set_ips (be_interfaceIndex c) ips (set_ips (be_interfaceIndex c) ips n) = set_ips (be_interfaceIndex c) ips n"
    for ips n by (simp add: set_ips_def)
  ultimately have "fold (\<lambda>c. set_ips (be_interfaceIndex c) (typed_ips (be_ip c))) ?updates nics = ?ns"
    by (intro fold_same)
  moreover have "filter (\<lambda>c. be_vmName c = vm_id vm) (rl_toClear s) = []" using only(2) by (simp add: filter_empty_conv)
  ultimately have row: "vm_networkInterfaces ?row = Some ?ns"
    using \<open>?updates \<noteq> []\<close> assms(7) by (simp add: rl_row_def Let_def)
  have sent: "set (snd (rl_handleApply (Some check) api s)) =
     {p. \<exists>c \<in> set (rl_toApply s). update_patch s c = Some p} \<union> {p. \<exists>c \<in> set (rl_toClear s). clear_patch s c = Some p}"
    using rl_patch_all_sent [of api s "rl_toApply s" "rl_toClear s" s2] by (simp add: s2(3) case_prod_beta)
  have "find (\<lambda>v. vm_id v = be_vmName c) (rl_vms s) = Some vm"
    using find_distinct [OF assms(6,5)] assms(9) by simp
  then have mine: "update_patch s c = Some (PatchNics (vm_id vm) ?ns)"
    using assms(7,10) by (simp add: update_patch_def patch_of_def)
  have "PatchNics (vm_id vm) ms \<in> set (snd (rl_handleApply (Some check) api s)) \<longleftrightarrow> ms = ?ns" for ms
  proof
    assume "ms = ?ns"
    then show "PatchNics (vm_id vm) ms \<in> set (snd (rl_handleApply (Some check) api s))"
      using mine assms(8) unfolding sent by blast
  next
    assume "PatchNics (vm_id vm) ms \<in> set (snd (rl_handleApply (Some check) api s))"
    then consider e where "e \<in> set (rl_toApply s)" "update_patch s e = Some (PatchNics (vm_id vm) ms)"
      | e where "e \<in> set (rl_toClear s)" "clear_patch s e = Some (PatchNics (vm_id vm) ms)"
      unfolding sent by blast
    then show "ms = ?ns"
    proof cases
      case (1 e)
      then have "be_vmName e = vm_id vm"
        using patch_of_nics [OF _ assms(5,6) refl assms(7)] unfolding update_patch_def by blast
      with only(1) 1 mine show ?thesis by simp
    next
      case (2 e)
      then have "be_vmName e = vm_id vm"
        using patch_of_nics [OF _ assms(5,6) refl assms(7)] unfolding clear_patch_def by blast
      with only(2) 2 show ?thesis by blast
    qed
  qed
  with rows row assms(5,10) show ?thesis
    by (intro bexI [of _ ?row]) (auto simp: set_ips_nth)
qed

theorem rolling_single_edit_consistent_witness:
  "\<exists>row \<in> set (rl_vms (fst (rl_handleApply (Some accept_all) (\<lambda>_. None) one_edit))). vm_id row = ''vm-1'' \<and>
     (\<exists>ns. vm_networkInterfaces row = Some ns \<and> nic_ips (ns ! 0) = [''10.0.0.8''] \<and>
        {ms. PatchNics ''vm-1'' ms \<in> set (snd (rl_handleApply (Some accept_all) (\<lambda>_. None) one_edit))} = {ns})"
proof -
  let ?c = "\<lparr> be_vmName = ''vm-1'', be_interfaceIndex = 0, be_ip = ''10.0.0.8'' \<rparr>"
  have sets: "rl_toApply one_edit = [?c]" "rl_toClear one_edit = []"
    "\<not> list_ex (rl_missing one_edit) (grid_cells (rl_editIPs one_edit))"
    "typed_ips ''10.0.0.8'' = [''10.0.0.8'']" by code_simp+
  have nics: "vm_id rolling_vm = ''vm-1''"
    "vm_networkInterfaces rolling_vm = Some [bulk_nic ''m0'' [''10.0.0.4''], bulk_nic ''m1'' [''10.0.0.5'']]"
    by (simp_all add: rolling_vm_def)
  have "\<exists>row \<in> set (rl_vms (fst (rl_handleApply (Some accept_all) (\<lambda>_. None) one_edit))). vm_id row = vm_id rolling_vm \<and>
     (\<exists>ns. vm_networkInterfaces row = Some ns \<and> nic_ips (ns ! be_interfaceIndex ?c) = typed_ips (be_ip ?c) \<and>
        {ms. PatchNics (vm_id rolling_vm) ms \<in> set (snd (rl_handleApply (Some accept_all) (\<lambda>_. None) one_edit))} = {ns})"
    by (rule rolling_single_edit_consistent [OF edits_grid_ok(1) accept_all refl sets(3) _ _ nics(2), where c = ?c])
      (simp_all add: edits_rows sets nics(1))
  then show ?thesis by (simp add: sets(4) nics(1))
qed

text \<open>A refused patch. The patches are sent together, so the others are sent and applied all the same.\<close>

text \<open>when one patch of an apply is refused, the dialog stays open and no row of the table changes, although every other
  patch was sent: the rows then show addresses that the machines of the cluster no longer have.\<close>

theorem rolling_refused_patch_keeps_rows:
  assumes "accepts check" "\<not> list_ex (rl_missing s) (grid_cells (rl_editIPs s))"
    and "c \<in> set (rl_toApply s)" "patch_error api (update_patch s c) \<noteq> None"
  shows "rl_vms (fst (rl_handleApply (Some check) api s)) = rl_vms s \<and>
     rl_open (fst (rl_handleApply (Some check) api s)) = rl_open s \<and>
     set (snd (rl_handleApply (Some check) api s)) =
       {p. \<exists>e \<in> set (rl_toApply s). update_patch s e = Some p} \<union> {p. \<exists>e \<in> set (rl_toClear s). clear_patch s e = Some p}"
proof -
  have "rl_toApply s \<noteq> [] \<or> rl_toClear s \<noteq> []" using assms(3) by auto
  from rl_apply_accepted [OF assms(1,2) this, of api] obtain s2 where s2: "rl_vms s2 = rl_vms s" "rl_open s2 = rl_open s"
    "rl_handleApply (Some check) api s =
       (case rl_patch_all api s (rl_toApply s) (rl_toClear s) s2 of (s3, sent) \<Rightarrow> (s3 \<lparr> rl_assigning := False \<rparr>, sent))" .
  have refused: "list_ex (\<lambda>c. patch_error api (update_patch s c) \<noteq> None) (rl_toApply s)"
    using assms(3,4) unfolding list_ex_iff by blast
  have "rl_vms (fst (rl_patch_all api s (rl_toApply s) (rl_toClear s) s2)) = rl_vms s2"
    using refused unfolding rl_patch_all_rows by simp
  moreover have "rl_open (fst (rl_patch_all api s (rl_toApply s) (rl_toClear s) s2)) = rl_open s2"
    using refused by (rule rl_patch_all_open)
  ultimately show ?thesis
    using s2 rl_patch_all_sent [of api s "rl_toApply s" "rl_toClear s" s2] by (simp add: case_prod_beta)
qed

theorem rolling_refused_patch_keeps_rows_witness:
  "rl_vms (fst (rl_handleApply (Some accept_all) (\<lambda>_. Some ''conflict'') two_edits)) = [rolling_vm] \<and>
   rl_open (fst (rl_handleApply (Some accept_all) (\<lambda>_. Some ''conflict'') two_edits))"
proof -
  let ?c = "\<lparr> be_vmName = ''vm-1'', be_interfaceIndex = 0, be_ip = ''10.0.0.8'' \<rparr>"
  let ?d = "\<lparr> be_vmName = ''vm-1'', be_interfaceIndex = 1, be_ip = ''10.0.0.9'' \<rparr>"
  have sets: "\<not> list_ex (rl_missing two_edits) (grid_cells (rl_editIPs two_edits))" "rl_toApply two_edits = [?c, ?d]"
    "rl_open two_edits" by code_simp+
  have c: "?c \<in> set (rl_toApply two_edits)" by (simp add: sets)
  have e: "patch_error (\<lambda>_. Some ''conflict'') (update_patch two_edits ?c) \<noteq> None"
    by (simp add: patch_error_def split: option.split)
  show ?thesis
    using rolling_refused_patch_keeps_rows [OF accept_all sets(1) c e] sets(3) by (simp add: edits_rows)
qed

text \<open>"Clear All" of this dialog empties the fields and leaves the preservation of the addresses on, so that an apply
  after it sends no patch and changes no address and no interface of the table, whatever addresses the machines have.\<close>

theorem rolling_clear_all_keeps:
  assumes "\<And>c. c \<in> set (grid_cells (rl_editIPs s)) \<Longrightarrow>
      rl_preserves s (be_vmName c) (be_interfaceIndex c) \<and> js_trim (rl_existing s (be_vmName c) (be_interfaceIndex c)) \<noteq> []"
  shows "snd (rl_handleApply check api (rl_handleClearAll s)) = [] \<and>
     \<not> rl_open (fst (rl_handleApply check api (rl_handleClearAll s))) \<and>
     map vm_networkInterfaces (rl_vms (fst (rl_handleApply check api (rl_handleClearAll s)))) = map vm_networkInterfaces (rl_vms s) \<and>
     map vm_ip (rl_vms (fst (rl_handleApply check api (rl_handleClearAll s)))) = map vm_ip (rl_vms s)"
proof -
  let ?s = "rl_handleClearAll s"
  have cell: "be_ip c = [] \<and> rl_preserves ?s (be_vmName c) (be_interfaceIndex c) \<and>
      js_trim (rl_existing ?s (be_vmName c) (be_interfaceIndex c)) \<noteq> []"
    if c: "c \<in> set (grid_cells (rl_editIPs ?s))" for c
  proof -
    from cleared_cell [OF c [unfolded rl_handleClearAll_simps]] obtain d where d: "d \<in> set (grid_cells (rl_editIPs s))"
      "be_vmName c = be_vmName d" "be_interfaceIndex c = be_interfaceIndex d" "be_ip c = []" by blast
    then show ?thesis using assms [OF d(1)] by simp
  qed
  have none: "\<not> list_ex (rl_missing ?s) (grid_cells (rl_editIPs ?s))" "rl_toApply ?s = []" "rl_toClear ?s = []"
    using cell by (auto simp: list_ex_iff rl_missing_def rl_toApply_def rl_toClear_def rl_applied_def rl_cleared_def filter_empty_conv)
  show ?thesis by (simp add: rl_handleApply_def none rl_handleClose_def)
qed

theorem rolling_clear_all_keeps_witness:
  "snd (rl_handleApply None (\<lambda>_. None) (rl_handleClearAll (rl_handleOpen rolling_form))) = []"
proof -
  let ?s = "rl_handleOpen rolling_form"
  have "list_all (\<lambda>c. rl_preserves ?s (be_vmName c) (be_interfaceIndex c) \<and>
      js_trim (rl_existing ?s (be_vmName c) (be_interfaceIndex c)) \<noteq> []) (grid_cells (rl_editIPs ?s))"
    by code_simp
  then have "c \<in> set (grid_cells (rl_editIPs ?s)) \<Longrightarrow>
      rl_preserves ?s (be_vmName c) (be_interfaceIndex c) \<and> js_trim (rl_existing ?s (be_vmName c) (be_interfaceIndex c)) \<noteq> []" for c
    unfolding list_all_iff by blast
  from rolling_clear_all_keeps [OF this] show ?thesis by blast
qed

end
