(* ===== verification/Rolling_Data.thy ===== *)
theory Rolling_Data
  imports Retry_Migration Bulk_Ip_Edit
begin

text \<open>
  The data of the rolling form: \<open>ui/src/features/migration/hooks/useRollingFormData.ts\<close>, \<open>useHostConfigHandlers.ts\<close>
  and the effect of \<open>pages/RollingMigrationForm.tsx\<close> that names the host configurations. The hosts and the machines of
  the chosen cluster are loaded by requests that are answered in any order; the requests in flight are part of the state.
\<close>

section \<open>Hosts\<close>

record ESXHost =
  eh_id :: string
  eh_name :: string
  eh_ip :: string
  eh_bmcIp :: string
  eh_maasState :: string
  eh_vms :: nat
  eh_state :: string
  eh_pcdHostConfigName :: "string option"
  eh_pcdHostConfigId :: "string option"

record VMwareHost =
  vh_name :: string
  vh_specName :: string
  vh_hostConfigId :: "string option"
  vh_vmCount :: "nat option"
  vh_state :: "string option"

record PCDHostConfig =
  hc_id :: string
  hc_name :: string

definition mapped_host :: "VMwareHost \<Rightarrow> ESXHost" where
  "mapped_host h =
     \<lparr> eh_id = vh_name h, eh_name = vh_specName h, eh_ip = [], eh_bmcIp = [], eh_maasState = ''Unknown'',
       eh_vms = (case vh_vmCount h of None \<Rightarrow> 0 | Some n \<Rightarrow> n), eh_state = str_or (vh_state h) ''Active'',
       eh_pcdHostConfigName = None, eh_pcdHostConfigId = vh_hostConfigId h \<rparr>"

text \<open>The effect that names the configuration a host has on the server; \<open>configs\<close> are those of the destination.\<close>

definition config_of :: "PCDHostConfig list \<Rightarrow> ESXHost \<Rightarrow> PCDHostConfig option" where
  "config_of configs host =
     (if str_truthy (eh_pcdHostConfigId host) then find (\<lambda>c. Some (hc_id c) = eh_pcdHostConfigId host) configs else None)"

definition needs_name :: "PCDHostConfig list \<Rightarrow> ESXHost \<Rightarrow> bool" where
  "needs_name configs host =
     (case config_of configs host of None \<Rightarrow> False | Some c \<Rightarrow> eh_pcdHostConfigName host \<noteq> Some (hc_name c))"

definition named_host :: "PCDHostConfig list \<Rightarrow> ESXHost \<Rightarrow> ESXHost" where
  "named_host configs host =
     (case config_of configs host of
        None \<Rightarrow> host
      | Some c \<Rightarrow> (if eh_pcdHostConfigName host \<noteq> Some (hc_name c)
                   then host \<lparr> eh_pcdHostConfigName := Some (hc_name c) \<rparr> else host))"

definition name_effect :: "PCDHostConfig list \<Rightarrow> ESXHost list \<Rightarrow> ESXHost list" where
  "name_effect configs hosts =
     (if length configs = 0 then hosts
      else if length hosts = 0 then hosts
      else if \<not> list_ex (needs_name configs) hosts then hosts
      else map (named_host configs) hosts)"

section \<open>useHostConfigHandlers\<close>

record host_dialog =
  hd_open :: bool
  hd_selected :: string
  hd_hosts :: "ESXHost list"
  hd_touched :: bool

definition handleOpenPcdHostConfigDialog :: "host_dialog \<Rightarrow> host_dialog" where
  "handleOpenPcdHostConfigDialog s = s \<lparr> hd_open := True \<rparr>"

definition handleClosePcdHostConfigDialog :: "host_dialog \<Rightarrow> host_dialog" where
  "handleClosePcdHostConfigDialog s = s \<lparr> hd_open := False, hd_selected := [] \<rparr>"

definition handlePcdHostConfigChange :: "string \<Rightarrow> host_dialog \<Rightarrow> host_dialog" where
  "handlePcdHostConfigChange configId s = s \<lparr> hd_selected := configId \<rparr>"

definition handleApplyPcdHostConfig :: "PCDHostConfig list \<Rightarrow> host_dialog \<Rightarrow> host_dialog" where
  "handleApplyPcdHostConfig configs s =
     (if hd_selected s = [] then handleClosePcdHostConfigDialog s
      else (let pcdConfigName = (case find (\<lambda>c. hc_id c = hd_selected s) configs of
                                   Some c \<Rightarrow> hc_name c | None \<Rightarrow> hd_selected s)
            in handleClosePcdHostConfigDialog
                 (s \<lparr> hd_touched := True, hd_hosts := map (eh_pcdHostConfigName_update (\<lambda>_. Some pcdConfigName)) (hd_hosts s) \<rparr>)))"

definition handleIndividualHostConfigChange :: "string \<Rightarrow> string \<Rightarrow> host_dialog \<Rightarrow> host_dialog" where
  "handleIndividualHostConfigChange hostId configName s =
     s \<lparr> hd_touched := True,
         hd_hosts := map (\<lambda>h. if eh_id h = hostId then h \<lparr> eh_pcdHostConfigName := Some configName \<rparr> else h) (hd_hosts s) \<rparr>"

section \<open>Machines\<close>

definition rolling_row :: "VMwareMachine \<Rightarrow> VM" where
  "rolling_row machine =
     (let vm = vx_vm machine; targetFlavorId = str_or (vx_targetFlavorId machine) [];
          allIPs = (if nonempty_opt (vw_networkInterfaces vm) then display_ips (list_or (vw_networkInterfaces vm))
                    else str_or (vw_ipAddress vm) (str_or (vw_assignedIp vm) em_dash))
      in \<lparr> vm_id = vx_name machine, vm_name = (if vw_name vm \<noteq> [] then vw_name vm else vx_name machine),
           vm_ip = (if allIPs \<noteq> [] then allIPs else em_dash),
           vm_esxHost = str_or (lookup_label (vx_labels machine) ''vjailbreak.k8s.pf9.io/esxi-name'') [],
           vm_networks = vw_networks vm, vm_datastores = vw_datastores vm,
           vm_cpu = Some (vw_cpu vm), vm_memory = Some (vw_memory vm),
           vm_powerState = (if vx_powerState machine = ''running'' then ''powered-on'' else ''powered-off''),
           vm_osFamily = vw_osFamily vm,
           vm_flavor = Some (if targetFlavorId \<noteq> [] then targetFlavorId else ''auto-assign''),
           vm_targetFlavorId = Some targetFlavorId,
           vm_ipValidationStatus = Some IpPending, vm_ipValidationMessage = Some [],
           vm_networkInterfaces = vw_networkInterfaces vm, vm_preserveIp = None, vm_preserveMac = None \<rparr>)"

definition in_cluster :: "string \<Rightarrow> VMwareMachine \<Rightarrow> bool" where
  "in_cluster clusterName machine =
     (lookup_label (vx_labels machine) ''vjailbreak.k8s.pf9.io/vmware-cluster'' = Some clusterName)"

definition cluster_rows :: "string \<Rightarrow> VMwareMachine list \<Rightarrow> VM list" where
  "cluster_rows clusterName machines = map rolling_row (filter (in_cluster clusterName) machines)"

text \<open>The place of the host of a machine: the index of the last host with its name, 999 when there is none.\<close>

definition host_index :: "ESXHost list \<Rightarrow> VM \<Rightarrow> nat" where
  "host_index hosts vm =
     (case map_of (rev (map (\<lambda>(i, h). (eh_id h, i)) (enumerate 0 hosts))) (vm_esxHost vm) of None \<Rightarrow> 999 | Some i \<Rightarrow> i)"

definition by_host :: "ESXHost list \<Rightarrow> VM \<Rightarrow> VM \<Rightarrow> int" where
  "by_host hosts a b = int (host_index hosts a) - int (host_index hosts b)"

definition sort_effect :: "ESXHost list \<Rightarrow> VM list \<Rightarrow> VM list" where
  "sort_effect hosts vms = (if length hosts > 0 \<and> length vms > 0 then js_sort (by_host hosts) vms else vms)"

section \<open>Loading the cluster\<close>

text \<open>A request in flight, with what its answer needs of the render that sent it.\<close>

datatype load =
    LoadHosts string
  | LoadVms string string "string list"

record rolling_data =
  ro_cluster :: string
  ro_configs :: "PCDHostConfig list"
  ro_hosts :: "ESXHost list"
  ro_vms :: "VM list"
  ro_selected :: "string list"
  ro_loads :: "load list"

definition source_cluster_name :: "SourceDataItem list \<Rightarrow> string \<Rightarrow> string" where
  "source_cluster_name sourceData clusterId =
     (case find (\<lambda>item. sd_credName item = cred_of_cluster_id clusterId) sourceData of
        None \<Rightarrow> []
      | Some item \<Rightarrow> (case find (\<lambda>c. sc_id c = clusterId) (sd_clusters item) of None \<Rightarrow> [] | Some c \<Rightarrow> sc_name c))"

text \<open>Choosing a cluster: the effect on it calls \<open>fetchClusterHosts\<close> and \<open>fetchClusterVMs\<close> up to their requests.\<close>

definition choose_cluster :: "SourceDataItem list \<Rightarrow> string \<Rightarrow> rolling_data \<Rightarrow> rolling_data" where
  "choose_cluster sourceData clusterId s =
     (let s1 = s \<lparr> ro_cluster := clusterId \<rparr>; name = source_cluster_name sourceData clusterId
      in if clusterId = [] then s1
         else if name = [] then s1 \<lparr> ro_hosts := [], ro_vms := [] \<rparr>
         else s1 \<lparr> ro_loads := ro_loads s1 @ [LoadHosts name, LoadVms (cred_of_cluster_id clusterId) name (ro_selected s1)] \<rparr>)"

text \<open>New hosts: the names of their configurations and the order of the machines follow by the effects.\<close>

definition set_hosts :: "ESXHost list \<Rightarrow> rolling_data \<Rightarrow> rolling_data" where
  "set_hosts hosts s =
     s \<lparr> ro_hosts := name_effect (ro_configs s) hosts, ro_vms := sort_effect hosts (ro_vms s) \<rparr>"

definition hosts_answer :: "VMwareHost list option \<Rightarrow> rolling_data \<Rightarrow> rolling_data" where
  "hosts_answer items s = (case items of None \<Rightarrow> s | Some hs \<Rightarrow> set_hosts (map mapped_host hs) s)"

text \<open>The selection is cleaned from the one of the render that sent the request, and written only if it shrinks.\<close>

definition vms_answer :: "string \<Rightarrow> string list \<Rightarrow> VMwareMachine list option \<Rightarrow> rolling_data \<Rightarrow> rolling_data" where
  "vms_answer clusterName selectedVMs items s =
     (case items of
        None \<Rightarrow> s \<lparr> ro_vms := [] \<rparr>
      | Some machines \<Rightarrow>
          (let mappedVMs = cluster_rows clusterName machines;
               cleanedSelection = filter (\<lambda>vmId. vmId \<in> set (map vm_id mappedVMs)) selectedVMs
           in s \<lparr> ro_vms := mappedVMs,
                  ro_selected := (if length cleanedSelection \<noteq> length selectedVMs then cleanedSelection else ro_selected s) \<rparr>))"

text \<open>The server: the hosts of a cluster and the machines of a credential, or a failure.\<close>

record inventory =
  inv_hosts :: "string \<Rightarrow> VMwareHost list option"
  inv_machines :: "string \<Rightarrow> VMwareMachine list option"

fun answer :: "inventory \<Rightarrow> load \<Rightarrow> rolling_data \<Rightarrow> rolling_data" where
  "answer srv (LoadHosts name) s = hosts_answer (inv_hosts srv name) s"
| "answer srv (LoadVms cred name sel) s = vms_answer name sel (inv_machines srv cred) s"

text \<open>The answer to the request at place \<open>i\<close> of those in flight.\<close>

definition answer_at :: "inventory \<Rightarrow> nat \<Rightarrow> rolling_data \<Rightarrow> rolling_data" where
  "answer_at srv i s =
     (if i < length (ro_loads s)
      then answer srv (ro_loads s ! i) (s \<lparr> ro_loads := take i (ro_loads s) @ drop (Suc i) (ro_loads s) \<rparr>) else s)"

text \<open>What the table should show for a cluster.\<close>

definition rows_of :: "inventory \<Rightarrow> SourceDataItem list \<Rightarrow> string \<Rightarrow> VM list" where
  "rows_of srv sourceData clusterId =
     (case inv_machines srv (cred_of_cluster_id clusterId) of
        None \<Rightarrow> [] | Some machines \<Rightarrow> cluster_rows (source_cluster_name sourceData clusterId) machines)"

text \<open>Histories in which the requests are answered in the order they were sent, over clusters of the catalogue.\<close>

inductive ordered_loads :: "inventory \<Rightarrow> SourceDataItem list \<Rightarrow> rolling_data \<Rightarrow> rolling_data \<Rightarrow> bool"
  for srv sourceData s0 where
  start: "ordered_loads srv sourceData s0 s0"
| choose: "ordered_loads srv sourceData s0 s \<Longrightarrow> clusterId \<noteq> [] \<Longrightarrow> source_cluster_name sourceData clusterId \<noteq> [] \<Longrightarrow>
     ordered_loads srv sourceData s0 (choose_cluster sourceData clusterId s)"
| answer: "ordered_loads srv sourceData s0 s \<Longrightarrow> ro_loads s \<noteq> [] \<Longrightarrow> ordered_loads srv sourceData s0 (answer_at srv 0 s)"
| select: "ordered_loads srv sourceData s0 s \<Longrightarrow> ordered_loads srv sourceData s0 (s \<lparr> ro_selected := ids \<rparr>)"
| hosts: "ordered_loads srv sourceData s0 s \<Longrightarrow> ordered_loads srv sourceData s0 (set_hosts hs s)"

section \<open>The names of the configurations\<close>

lemma config_of_update [simp]: "config_of configs (h \<lparr> eh_pcdHostConfigName := n \<rparr>) = config_of configs h"
  by (simp add: config_of_def)

lemma named_host_simps [simp]:
  "eh_id (named_host configs h) = eh_id h" "config_of configs (named_host configs h) = config_of configs h"
  "\<not> needs_name configs (named_host configs h)"
  by (simp_all add: named_host_def needs_name_def split: option.split)

lemma needs_name_iff: "needs_name configs h \<longleftrightarrow> named_host configs h \<noteq> h"
proof -
  have "h \<lparr> eh_pcdHostConfigName := n \<rparr> \<noteq> h" if "eh_pcdHostConfigName h \<noteq> n" for n
    using that by (metis ESXHost.select_convs(8) ESXHost.surjective ESXHost.update_convs(8))
  then show ?thesis by (simp add: named_host_def needs_name_def split: option.split)
qed

text \<open>The guards of the effect only save work.\<close>

lemma name_effect_map: "name_effect configs hosts = map (named_host configs) hosts"
proof -
  have "map (named_host configs) hosts = hosts" if "\<forall>h \<in> set hosts. \<not> needs_name configs h"
    using that by (simp add: needs_name_iff map_idI)
  moreover have "configs = [] \<Longrightarrow> \<forall>h \<in> set hosts. \<not> needs_name configs h"
    by (simp add: needs_name_def config_of_def split: option.split)
  ultimately show ?thesis by (auto simp: name_effect_def list_ex_iff)
qed

text \<open>The edits of the operator, each followed by the effect.\<close>

datatype host_edit = EditHost string string | EditAll string

fun edit_hosts :: "PCDHostConfig list \<Rightarrow> host_edit \<Rightarrow> ESXHost list \<Rightarrow> ESXHost list" where
  "edit_hosts configs (EditHost hostId name) hosts =
     name_effect configs (hd_hosts (handleIndividualHostConfigChange hostId name
       \<lparr> hd_open = False, hd_selected = [], hd_hosts = hosts, hd_touched = True \<rparr>))"
| "edit_hosts configs (EditAll configId) hosts =
     name_effect configs (hd_hosts (handleApplyPcdHostConfig configs (handlePcdHostConfigChange configId
       (handleOpenPcdHostConfigDialog \<lparr> hd_open = False, hd_selected = [], hd_hosts = hosts, hd_touched = True \<rparr>))))"

text \<open>What an edit means for a host, and what a history of edits means.\<close>

fun edit_name :: "PCDHostConfig list \<Rightarrow> string \<Rightarrow> host_edit \<Rightarrow> string option \<Rightarrow> string option" where
  "edit_name configs hostId (EditHost i name) n = (if i = hostId then Some name else n)"
| "edit_name configs hostId (EditAll configId) n =
     (if configId = [] then n
      else Some (case find (\<lambda>c. hc_id c = configId) configs of Some c \<Rightarrow> hc_name c | None \<Rightarrow> configId))"

definition final_host :: "PCDHostConfig list \<Rightarrow> host_edit list \<Rightarrow> ESXHost \<Rightarrow> ESXHost" where
  "final_host configs es h =
     h \<lparr> eh_pcdHostConfigName := (case config_of configs h of
           Some c \<Rightarrow> Some (hc_name c)
         | None \<Rightarrow> fold (edit_name configs (eh_id h)) es (eh_pcdHostConfigName h)) \<rparr>"

lemma named_host_alt:
  "named_host configs h =
     h \<lparr> eh_pcdHostConfigName := (case config_of configs h of Some c \<Rightarrow> Some (hc_name c) | None \<Rightarrow> eh_pcdHostConfigName h) \<rparr>"
  by (auto simp: named_host_def split: option.split)

lemma edit_hosts_map:
  "edit_hosts configs e hosts =
     map (\<lambda>h. named_host configs (h \<lparr> eh_pcdHostConfigName := edit_name configs (eh_id h) e (eh_pcdHostConfigName h) \<rparr>)) hosts"
  by (cases e) (auto simp: name_effect_map handleIndividualHostConfigChange_def handleApplyPcdHostConfig_def Let_def
      handlePcdHostConfigChange_def handleOpenPcdHostConfigDialog_def handleClosePcdHostConfigDialog_def cong: option.case_cong)

text \<open>a host that has a configuration of the destination on the server keeps the name of that configuration, whatever the
  operator chooses for it; a host without one has what the operator chose last.\<close>

theorem host_edits_result:
  "fold (edit_hosts configs) es (name_effect configs hosts) = map (final_host configs es) hosts"
proof -
  have step: "fold (edit_hosts configs) es (map (named_host configs) hs) = map (final_host configs es) hs" for hs
  proof (induction es arbitrary: hs)
    case Nil
    show ?case by (auto simp: final_host_def named_host_alt split: option.split)
  next
    case (Cons e es)
    let ?edited = "\<lambda>h. h \<lparr> eh_pcdHostConfigName := edit_name configs (eh_id h) e (eh_pcdHostConfigName h) \<rparr>"
    have "edit_hosts configs e (map (named_host configs) hs) = map (named_host configs) (map (?edited \<circ> named_host configs) hs)"
      by (simp add: edit_hosts_map)
    then have "fold (edit_hosts configs) (e # es) (map (named_host configs) hs) =
        map (final_host configs es) (map (?edited \<circ> named_host configs) hs)"
      using Cons.IH [of "map (?edited \<circ> named_host configs) hs"] by simp
    also have "\<dots> = map (final_host configs (e # es)) hs"
      by (auto simp: final_host_def named_host_alt split: option.split)
    finally show ?case .
  qed
  then show ?thesis by (simp add: name_effect_map)
qed

text \<open>the effect that names the configurations settles: run on its own result it changes nothing, so that the render it
  causes is the last.\<close>

theorem name_effect_settles:
  "name_effect configs (name_effect configs hosts) = name_effect configs hosts \<and>
   \<not> list_ex (needs_name configs) (name_effect configs hosts)"
proof -
  have "named_host configs (named_host configs h) = named_host configs h" for h
    using needs_name_iff [of configs "named_host configs h"] by simp
  then show ?thesis by (simp add: name_effect_map list_ex_iff)
qed

section \<open>The order of the machines\<close>

interpretation by_host: js_comparator "\<lambda>_. True" "by_host hosts" for hosts
  by unfold_locales (auto simp: by_host_def)

lemma sort_effect_idem [simp]: "sort_effect hosts (sort_effect hosts vms) = sort_effect hosts vms"
  using js_sort_sorted_id [OF by_host.sorted_js_sort, of vms hosts] by (simp add: sort_effect_def list_all_iff)

lemma sort_effect_named [simp]: "sort_effect (name_effect configs hosts) = sort_effect hosts"
proof -
  have "map (\<lambda>(i, h). (eh_id h, i)) (enumerate n (map (named_host configs) hosts)) = map (\<lambda>(i, h). (eh_id h, i)) (enumerate n hosts)" for n
    by (induction hosts arbitrary: n) auto
  then have "host_index (map (named_host configs) hosts) = host_index hosts" by (simp add: host_index_def fun_eq_iff)
  then have "by_host (map (named_host configs) hosts) = by_host hosts" by (simp add: by_host_def fun_eq_iff)
  then show ?thesis by (intro ext) (simp add: name_effect_map sort_effect_def)
qed

lemma set_sort_effect [simp]: "set (sort_effect hosts vms) = set vms" "mset (sort_effect hosts vms) = mset vms"
  by (simp_all add: sort_effect_def)

lemma map_of_enumerated:
  "distinct (map f xs) \<Longrightarrow> i < length xs \<Longrightarrow> map_of (rev (map (\<lambda>(i, h). (f h, i)) (enumerate n xs))) (f (xs ! i)) = Some (n + i)"
proof (induction xs arbitrary: n i)
  case (Cons x xs)
  show ?case
  proof (cases i)
    case 0
    have "f x \<notin> f ` set xs" using Cons.prems(1) by simp
    then have "map_of (rev (map (\<lambda>(i, h). (f h, i)) (enumerate (Suc n) xs))) (f x) = None"
      by (force simp: map_of_eq_None_iff in_set_enumerate_eq)
    then show ?thesis by (simp add: 0 map_add_def)
  next
    case (Suc j)
    then show ?thesis using Cons.IH [of j "Suc n"] Cons.prems by (simp add: map_add_def)
  qed
qed simp

lemma map_of_enumerated_None:
  "k \<notin> f ` set xs \<Longrightarrow> map_of (rev (map (\<lambda>(i, h). (f h, i)) (enumerate n xs))) k = None"
  by (force simp: map_of_eq_None_iff in_set_enumerate_eq)

text \<open>when the hosts arrive, the machines of the table are put in the order of their hosts, and for at most 999 hosts the
  machines of no known host come last; none is lost or added, and machines of one host keep their order.\<close>

theorem machines_follow_hosts:
  assumes "distinct (map eh_id hosts)" "hosts \<noteq> []" "length hosts \<le> 999"
  shows "mset (sort_effect hosts vms) = mset vms \<and>
     sorted_wrt (\<lambda>a b. (eh_id ` set hosts \<inter> {vm_esxHost b} = {} \<or> vm_esxHost a \<in> eh_id ` set hosts) \<and>
        (\<forall>i j. i < length hosts \<longrightarrow> j < length hosts \<longrightarrow> vm_esxHost a = eh_id (hosts ! i) \<longrightarrow>
           vm_esxHost b = eh_id (hosts ! j) \<longrightarrow> i \<le> j)) (sort_effect hosts vms) \<and>
     filter (\<lambda>vm. vm_esxHost vm = h) (sort_effect hosts vms) = filter (\<lambda>vm. vm_esxHost vm = h) vms"
proof (intro conjI)
  show "mset (sort_effect hosts vms) = mset vms" by simp
  have place: "host_index hosts vm = i" if "i < length hosts" "vm_esxHost vm = eh_id (hosts ! i)" for vm i
    using map_of_enumerated [OF assms(1) that(1), of 0] that(2) by (simp add: host_index_def)
  have known: "vm_esxHost vm \<in> eh_id ` set hosts \<longleftrightarrow> host_index hosts vm < 999" for vm
  proof
    assume "vm_esxHost vm \<in> eh_id ` set hosts"
    then obtain i where "i < length hosts" "vm_esxHost vm = eh_id (hosts ! i)" by (auto simp: in_set_conv_nth)
    then show "host_index hosts vm < 999" using place assms(3) by fastforce
  next
    assume "host_index hosts vm < 999"
    then show "vm_esxHost vm \<in> eh_id ` set hosts"
      using map_of_enumerated_None [of "vm_esxHost vm" eh_id hosts 0]
      by (cases "vm_esxHost vm \<in> eh_id ` set hosts") (simp_all add: host_index_def)
  qed
  have "sorted_wrt (\<lambda>a b. by_host hosts a b \<le> 0) (sort_effect hosts vms)"
    using by_host.sorted_js_sort [of vms hosts] assms(2) by (auto simp: sort_effect_def list_all_iff)
  then show "sorted_wrt (\<lambda>a b. (eh_id ` set hosts \<inter> {vm_esxHost b} = {} \<or> vm_esxHost a \<in> eh_id ` set hosts) \<and>
        (\<forall>i j. i < length hosts \<longrightarrow> j < length hosts \<longrightarrow> vm_esxHost a = eh_id (hosts ! i) \<longrightarrow>
           vm_esxHost b = eh_id (hosts ! j) \<longrightarrow> i \<le> j)) (sort_effect hosts vms)"
  proof (rule sorted_wrt_mono_rel [rotated])
    fix a b
    assume "by_host hosts a b \<le> 0"
    then have le: "host_index hosts a \<le> host_index hosts b" by (simp add: by_host_def)
    then have "vm_esxHost b \<in> eh_id ` set hosts \<Longrightarrow> vm_esxHost a \<in> eh_id ` set hosts" by (simp add: known)
    with le place show "(eh_id ` set hosts \<inter> {vm_esxHost b} = {} \<or> vm_esxHost a \<in> eh_id ` set hosts) \<and>
        (\<forall>i j. i < length hosts \<longrightarrow> j < length hosts \<longrightarrow> vm_esxHost a = eh_id (hosts ! i) \<longrightarrow>
           vm_esxHost b = eh_id (hosts ! j) \<longrightarrow> i \<le> j)" by auto
  qed
  have "filter (\<lambda>vm. vm_esxHost vm = h) (sort_ins (by_host hosts) x xs) =
      (if vm_esxHost x = h then x # filter (\<lambda>vm. vm_esxHost vm = h) xs else filter (\<lambda>vm. vm_esxHost vm = h) xs)" for x xs
    by (induction xs) (auto simp: by_host_def host_index_def)
  then have "filter (\<lambda>vm. vm_esxHost vm = h) (js_sort (by_host hosts) vms) = filter (\<lambda>vm. vm_esxHost vm = h) vms"
    by (induction vms) (simp_all add: js_sort_def)
  then show "filter (\<lambda>vm. vm_esxHost vm = h) (sort_effect hosts vms) = filter (\<lambda>vm. vm_esxHost vm = h) vms"
    by (simp add: sort_effect_def)
qed

definition sample_host :: "string \<Rightarrow> ESXHost" where
  "sample_host i = mapped_host \<lparr> vh_name = i, vh_specName = i, vh_hostConfigId = None, vh_vmCount = None, vh_state = None \<rparr>"

definition cluster_machine :: "string \<Rightarrow> string \<Rightarrow> VMwareMachine" where
  "cluster_machine i cluster =
     \<lparr> vx_name = i, vx_labels = Some [(''vjailbreak.k8s.pf9.io/vmware-cluster'', cluster)], vx_annotations = None,
       vx_vm = \<lparr> vw_name = i, vw_vmid = None, vw_ipAddress = Some ''10.0.0.4'', vw_networks = None, vw_datastores = None,
                 vw_memory = 1, vw_cpu = 1, vw_disks = None, vw_osFamily = None, vw_networkInterfaces = None,
                 vw_clusterName = None, vw_assignedIp = None,
                 vw_rdmDisks = None, vw_tags = None, vw_customAttributes = None \<rparr>,
       vx_targetFlavorId = None, vx_migrated = False, vx_powerState = ''running'' \<rparr>"

definition sample_rows :: "VM list" where
  "sample_rows =
     [(rolling_row (cluster_machine ''vm-1'' ''a'')) \<lparr> vm_esxHost := ''esx2'' \<rparr>,
      (rolling_row (cluster_machine ''vm-2'' ''a'')) \<lparr> vm_esxHost := ''esx1'' \<rparr>]"

theorem machines_follow_hosts_witness:
  "filter (\<lambda>vm. vm_esxHost vm = ''esx1'') (sort_effect [sample_host ''esx1'', sample_host ''esx2''] sample_rows) =
   filter (\<lambda>vm. vm_esxHost vm = ''esx1'') sample_rows"
proof -
  have "distinct (map eh_id [sample_host ''esx1'', sample_host ''esx2''])" "[sample_host ''esx1'', sample_host ''esx2''] \<noteq> []"
    "length [sample_host ''esx1'', sample_host ''esx2''] \<le> 999"
    by (simp_all add: sample_host_def mapped_host_def)
  from machines_follow_hosts [OF this, of sample_rows "''esx1''"] show ?thesis by blast
qed

section \<open>Which cluster the table shows\<close>

definition vm_load :: "load \<Rightarrow> bool" where
  "vm_load l = (case l of LoadHosts _ \<Rightarrow> False | LoadVms _ _ _ \<Rightarrow> True)"

lemma vm_load_simps [simp]: "\<not> vm_load (LoadHosts n)" "vm_load (LoadVms c n sel)"
  by (simp_all add: vm_load_def)

lemma choose_resolved:
  "clusterId \<noteq> [] \<Longrightarrow> source_cluster_name sourceData clusterId \<noteq> [] \<Longrightarrow>
   choose_cluster sourceData clusterId s =
     s \<lparr> ro_cluster := clusterId,
         ro_loads := ro_loads s @ [LoadHosts (source_cluster_name sourceData clusterId),
           LoadVms (cred_of_cluster_id clusterId) (source_cluster_name sourceData clusterId) (ro_selected s)] \<rparr>"
  by (simp add: choose_cluster_def Let_def)

lemma hosts_answer_simps [simp]:
  "ro_cluster (hosts_answer items s) = ro_cluster s" "ro_loads (hosts_answer items s) = ro_loads s"
  "mset (ro_vms (hosts_answer items s)) = mset (ro_vms s)"
  by (simp_all add: hosts_answer_def set_hosts_def split: option.split)

lemma vms_answer_simps [simp]:
  "ro_cluster (vms_answer n sel items s) = ro_cluster s" "ro_loads (vms_answer n sel items s) = ro_loads s"
  "ro_vms (vms_answer n sel items s) = (case items of None \<Rightarrow> [] | Some machines \<Rightarrow> cluster_rows n machines)"
  by (simp_all add: vms_answer_def Let_def split: option.split)

definition load_inv :: "inventory \<Rightarrow> SourceDataItem list \<Rightarrow> rolling_data \<Rightarrow> bool" where
  "load_inv srv sourceData s \<longleftrightarrow>
     (case rev (filter vm_load (ro_loads s)) of
        [] \<Rightarrow> ro_cluster s = [] \<or> mset (ro_vms s) = mset (rows_of srv sourceData (ro_cluster s))
      | l # _ \<Rightarrow> (\<exists>sel. l = LoadVms (cred_of_cluster_id (ro_cluster s)) (source_cluster_name sourceData (ro_cluster s)) sel))"

lemma load_inv_answer:
  assumes "load_inv srv sourceData s" "ro_loads s = l # ls"
  shows "load_inv srv sourceData (answer srv l (s \<lparr> ro_loads := ls \<rparr>))"
proof (cases l)
  case (LoadHosts n)
  then show ?thesis using assms by (simp add: load_inv_def split: list.splits)
next
  case (LoadVms c n sel)
  show ?thesis
  proof (cases "rev (filter vm_load ls)")
    case Nil
    then show ?thesis using assms LoadVms by (auto simp: load_inv_def rows_of_def)
  next
    case (Cons k ks)
    then show ?thesis using assms LoadVms by (auto simp: load_inv_def)
  qed
qed

lemma ordered_loads_inv: "ordered_loads srv sourceData s0 s \<Longrightarrow> load_inv srv sourceData s0 \<Longrightarrow> load_inv srv sourceData s"
proof (induction rule: ordered_loads.induct)
  case (choose s clusterId)
  then show ?case by (simp add: choose_resolved load_inv_def)
next
  case (answer s)
  then obtain l ls where "ro_loads s = l # ls" by (cases "ro_loads s") auto
  then show ?case using load_inv_answer answer by (simp add: answer_at_def)
next
  case (select s ids)
  then show ?case by (simp add: load_inv_def split: list.splits)
next
  case (hosts s hs)
  then show ?case by (simp add: load_inv_def set_hosts_def split: list.splits)
qed

text \<open>C7: as long as the requests are answered in the order they were sent, the table shows the machines of the chosen cluster
  whenever no request for machines is in flight, through any choices, selections and changes of the hosts.\<close>

theorem ordered_loads_show_cluster:
  assumes "ordered_loads srv sourceData s0 s" "ro_cluster s0 = []" "ro_loads s0 = []"
    and "ro_cluster s \<noteq> []" "\<not> list_ex vm_load (ro_loads s)"
  shows "mset (ro_vms s) = mset (rows_of srv sourceData (ro_cluster s))"
proof -
  have "filter vm_load (ro_loads s) = []" using assms(5) by (simp add: list_ex_iff filter_empty_conv)
  then show ?thesis using ordered_loads_inv [OF assms(1)] assms(2-4) by (simp add: load_inv_def)
qed

text \<open>Two clusters of one credential.\<close>

definition two_clusters :: "SourceDataItem list" where
  "two_clusters =
     [\<lparr> sd_credName = ''vc'', sd_datacenter = ''dc'', sd_vcenterName = ''vc'',
        sd_clusters = [\<lparr> sc_id = ''vc:dc:a'', sc_name = ''a'', sc_displayName = ''A'' \<rparr>,
                       \<lparr> sc_id = ''vc:dc:b'', sc_name = ''b'', sc_displayName = ''B'' \<rparr>] \<rparr>]"

definition sample_inventory :: inventory where
  "sample_inventory =
     \<lparr> inv_hosts = (\<lambda>_. Some []), inv_machines = (\<lambda>_. Some [cluster_machine ''vm-1'' ''a'', cluster_machine ''vm-2'' ''b'']) \<rparr>"

definition empty_rolling :: rolling_data where
  "empty_rolling = \<lparr> ro_cluster = [], ro_configs = [], ro_hosts = [], ro_vms = [], ro_selected = [], ro_loads = [] \<rparr>"

lemma two_clusters_names:
  "source_cluster_name two_clusters ''vc:dc:a'' \<noteq> []" "source_cluster_name two_clusters ''vc:dc:b'' \<noteq> []"
  by code_simp+

theorem ordered_loads_show_cluster_witness:
  "mset (ro_vms (answer_at sample_inventory 0 (answer_at sample_inventory 0 (choose_cluster two_clusters ''vc:dc:b'' empty_rolling)))) =
   mset (rows_of sample_inventory two_clusters ''vc:dc:b'')"
proof -
  let ?s1 = "choose_cluster two_clusters ''vc:dc:b'' empty_rolling"
  let ?s = "answer_at sample_inventory 0 (answer_at sample_inventory 0 ?s1)"
  have s1: "ro_loads ?s1 \<noteq> []" "ro_loads (answer_at sample_inventory 0 ?s1) \<noteq> []" by code_simp+
  have "ordered_loads sample_inventory two_clusters empty_rolling ?s"
    by (intro ordered_loads.answer ordered_loads.choose ordered_loads.start two_clusters_names s1) simp
  moreover have "ro_cluster ?s = ''vc:dc:b''" "\<not> list_ex vm_load (ro_loads ?s)" by code_simp+
  ultimately show ?thesis
    using ordered_loads_show_cluster [of sample_inventory two_clusters empty_rolling ?s] by (simp add: empty_rolling_def)
qed

text \<open>when the machines of the cluster that was chosen first are answered last, the table shows them under the cluster that was
  chosen second, and nothing is in flight that would replace them.\<close>

theorem late_answer_shows_other_cluster:
  assumes "a \<noteq> []" "source_cluster_name sourceData a \<noteq> []" "b \<noteq> []" "source_cluster_name sourceData b \<noteq> []"
    and "ro_loads s0 = []"
    and "s = answer_at srv 1 (answer_at srv 3 (choose_cluster sourceData b (choose_cluster sourceData a s0)))"
  shows "ro_cluster s = b \<and> ro_vms s = rows_of srv sourceData a \<and> \<not> list_ex vm_load (ro_loads s)"
  using assms by (simp add: choose_resolved answer_at_def rows_of_def)

definition crossed_answers :: rolling_data where
  "crossed_answers =
     answer_at sample_inventory 1 (answer_at sample_inventory 3
       (choose_cluster two_clusters ''vc:dc:b'' (choose_cluster two_clusters ''vc:dc:a'' empty_rolling)))"

theorem late_answer_shows_other_cluster_witness:
  "ro_cluster crossed_answers = ''vc:dc:b'' \<and> map vm_id (ro_vms crossed_answers) = [''vm-1'']"
proof -
  have idle: "ro_loads empty_rolling = []" "''vc:dc:a'' \<noteq> []" "''vc:dc:b'' \<noteq> []" by (simp_all add: empty_rolling_def)
  have "map vm_id (rows_of sample_inventory two_clusters ''vc:dc:a'') = [''vm-1'']" by code_simp
  with late_answer_shows_other_cluster
    [OF idle(2) two_clusters_names(1) idle(3) two_clusters_names(2) idle(1) crossed_answers_def] show ?thesis by metis
qed

text \<open>the selection after the machines arrive: when every machine selected at the time of the request still exists, it is the
  selection of the moment, new machines that do not exist included; otherwise it is the old selection without the missing ones, and what
  was selected in between is lost.\<close>

theorem selection_after_load:
  "ro_selected (vms_answer name old (Some machines) s) =
     (if set old \<subseteq> vm_id ` set (cluster_rows name machines) then ro_selected s
      else filter (\<lambda>i. i \<in> vm_id ` set (cluster_rows name machines)) old)"
proof -
  let ?P = "\<lambda>i. i \<in> vm_id ` set (cluster_rows name machines)"
  have "length (filter ?P old) = length old \<longleftrightarrow> (\<forall>x \<in> set old. ?P x)"
  proof
    assume same: "length (filter ?P old) = length old"
    show "\<forall>x \<in> set old. ?P x"
      using length_filter_less [of _ old ?P] unfolding same by blast
  next
    assume "\<forall>x \<in> set old. ?P x"
    then show "length (filter ?P old) = length old" by (metis filter_True)
  qed
  then have "length (filter ?P old) = length old \<longleftrightarrow> set old \<subseteq> vm_id ` set (cluster_rows name machines)" by blast
  then show ?thesis by (simp add: vms_answer_def Let_def)
qed

end
