(* ===== verification/Rolling_Form.thy ===== *)
theory Rolling_Form
  imports Rolling_Data Form_Validation
begin

text \<open>
  When the rolling form may be submitted: \<open>ui/src/features/migration/hooks/useRollingFormValidation.ts\<close>, with the
  networks, the datastores and the counts that \<open>pages/RollingMigrationForm.tsx\<close> computes for it. The messages that the
  memoised values set beside their result are part of the result here.
\<close>

section \<open>The form\<close>

record RollingFormParams =
  rf_vmwareCluster :: "string option"
  rf_pcdCluster :: "string option"
  rf_networkMappings :: "ResourceMap list option"
  rf_storageMappings :: "ResourceMap list option"
  rf_arrayCredsMappings :: "ResourceMap list option"
  rf_securityGroups :: "string list option"
  rf_serverGroup :: "string option"
  rf_dataCopyMethod :: "string option"
  rf_dataCopyStartTime :: "string option"
  rf_cutoverOption :: "string option"
  rf_cutoverStartTime :: "string option"
  rf_cutoverEndTime :: "string option"
  rf_postMigrationScript :: "string option"
  rf_osFamily :: "string option"
  rf_storageCopyMethod :: "string option"
  rf_proxyVMRef :: "string option"
  rf_postMigrationAction :: "PostMigrationAction option"
  rf_postMigrationActionSuffix :: "string option"
  rf_postMigrationActionFolderName :: "string option"
  rf_useGPU :: "bool option"
  rf_disconnectSourceNetwork :: "bool option"
  rf_dataOnly :: "bool option"
  rf_fallbackToDHCP :: "bool option"
  rf_networkPersistence :: "bool option"
  rf_preserveSourceTags :: "bool option"
  rf_customMetadata :: "KeyValuePair list option"

record RollingOptions =
  rso_dataCopyMethod :: "bool option"
  rso_dataCopyStartTime :: "bool option"
  rso_cutoverOption :: "bool option"
  rso_postMigrationScript :: "bool option"
  rso_osFamily :: "bool option"
  rso_useGPU :: "bool option"
  rso_postMigrationAction :: "SelectedPostAction option"

record TouchedSections =
  ts_sourceDestination :: bool
  ts_baremetal :: bool
  ts_hosts :: bool
  ts_vms :: bool
  ts_mapResources :: bool
  ts_security :: bool
  ts_tagsMetadata :: bool
  ts_options :: bool

record rolling_input =
  rv_params :: RollingFormParams
  rv_fieldErrors :: "string sobj"
  rv_options :: RollingOptions
  rv_selectedVMs :: "string list"
  rv_vms :: "VM list"
  rv_hosts :: "ESXHost list"
  rv_osAssignments :: "string sobj"
  rv_maasConfig :: "string option"
  rv_submitting :: bool
  rv_touched :: TouchedSections
  rv_networkMappingError :: string
  rv_storageMappingError :: string

section \<open>What the selected machines use\<close>

definition rolling_selected :: "rolling_input \<Rightarrow> VM list" where
  "rolling_selected v = filter (\<lambda>vm. vm_id vm \<in> set (rv_selectedVMs v)) (rv_vms v)"

text \<open>\<open>sort()\<close> without a comparator compares by code units. The networks keep their duplicates, the datastores do not.\<close>

definition rolling_networks :: "rolling_input \<Rightarrow> string list" where
  "rolling_networks v =
     (if length (rv_vms v) = 0 \<or> length (rv_selectedVMs v) = 0 then []
      else js_sort code_unit_compare
        (concat (map (\<lambda>vm. list_or (vm_networks vm)) (filter (\<lambda>vm. vm_networks vm \<noteq> None) (rolling_selected v)))))"

definition rolling_datastores :: "rolling_input \<Rightarrow> string list" where
  "rolling_datastores v =
     (if length (rv_vms v) = 0 \<or> length (rv_selectedVMs v) = 0 then []
      else js_sort code_unit_compare (js_uniq
        (concat (map (\<lambda>vm. list_or (vm_datastores vm)) (filter (\<lambda>vm. vm_datastores vm \<noteq> None) (rolling_selected v))))))"

definition rolling_unmappedNetworks :: "rolling_input \<Rightarrow> nat" where
  "rolling_unmappedNetworks v =
     length (filter (\<lambda>n. \<not> maps_source (list_or (rf_networkMappings (rv_params v))) n) (js_uniq (rolling_networks v)))"

definition rolling_unmappedStorage :: "rolling_input \<Rightarrow> nat" where
  "rolling_unmappedStorage v =
     length (filter (\<lambda>d. \<not> maps_source (list_or (rf_storageMappings (rv_params v))) d) (rolling_datastores v))"

section \<open>The three checks with a message\<close>

text \<open>A check: whether there is an error, the items without what is required, and the message.\<close>

type_synonym 'a check_result = "bool \<times> 'a list \<times> string"

definition plural_s :: "nat \<Rightarrow> string" where
  "plural_s n = (if n = 1 then [] else ''s'')"

definition esxHostMappingStatus :: "ESXHost list \<Rightarrow> nat \<times> nat \<times> bool" where
  "esxHostMappingStatus hosts =
     (let mapped = length (filter (\<lambda>h. str_truthy (eh_pcdHostConfigName h)) hosts)
      in (mapped, length hosts, mapped = length hosts))"

definition without_ip :: "VM \<Rightarrow> bool" where
  "without_ip vm = (vm_ip vm = em_dash \<or> vm_ip vm = [])"

definition vmIpValidation :: "rolling_input \<Rightarrow> VM check_result" where
  "vmIpValidation v =
     (if length (rv_selectedVMs v) = 0 then (True, [], ''Please select VMs to assign IP addresses.'')
      else (let requiring = filter (\<lambda>vm. vmHasInterface (vm_networks vm) (vm_networkInterfaces vm)) (rolling_selected v);
                missing = filter without_ip requiring
            in if length missing > 0
               then (True, missing,
                     ''Cannot proceed with Migration: '' @ nat_str (length missing) @ '' selected VM'' @ plural_s (length missing) @
                     '' with network interfaces do not have IP addresses assigned. '' @
                     ''Please assign IP addresses to all selected VMs before continuing.'')
               else (False, [], [])))"

definition esxHostConfigValidation :: "rolling_input \<Rightarrow> ESXHost check_result" where
  "esxHostConfigValidation v =
     (if length (rv_hosts v) = 0 then (True, [], ''Please select VMs to migrate.'')
      else (let missing = filter (\<lambda>h. \<not> str_truthy (eh_pcdHostConfigName h)) (rv_hosts v)
            in if length missing > 0
               then (True, missing,
                     ''Cannot proceed with Migration: '' @ nat_str (length missing) @ '' ESXi host'' @ plural_s (length missing) @
                     '' do not have Host Config assigned. Please assign Host Config to all ESXi hosts before continuing.'')
               else (False, [], [])))"

definition without_os :: "string sobj \<Rightarrow> VM \<Rightarrow> bool" where
  "without_os assignments vm =
     (let assignedOS = map_of assignments (vm_id vm);
          currentOS = (if str_truthy assignedOS then assignedOS else vm_osFamily vm)
      in vm_powerState vm = ''powered-off'' \<and> (\<not> str_truthy currentOS \<or> currentOS = Some ''Unknown''))"

definition osValidation :: "rolling_input \<Rightarrow> VM check_result" where
  "osValidation v =
     (if length (rv_selectedVMs v) = 0 then (True, [], ''Please select VMs to assign OS.'')
      else (let missing = filter (without_os (rv_osAssignments v)) (rolling_selected v)
            in if length missing > 0
               then (True, missing,
                     ''Cannot proceed with Migration: '' @ nat_str (length missing) @ '' powered-off VM'' @ plural_s (length missing) @
                     '' do not have Operating System assigned. '' @
                     ''Please assign OS to all powered-off VMs before continuing.'')
               else (False, [], [])))"

section \<open>The migration options\<close>

definition rolling_postAction :: "RollingOptions \<Rightarrow> bool" where
  "rolling_postAction so =
     (case rso_postMigrationAction so of
        None \<Rightarrow> False
      | Some a \<Rightarrow> bool_or (sp_suffix a) \<or> bool_or (sp_folderName a) \<or> bool_or (sp_renameVm a) \<or> bool_or (sp_moveToFolder a))"

definition rolling_anyOption :: "RollingOptions \<Rightarrow> bool" where
  "rolling_anyOption so =
     (bool_or (rso_dataCopyMethod so) \<or> bool_or (rso_dataCopyStartTime so) \<or> bool_or (rso_cutoverOption so) \<or>
      bool_or (rso_postMigrationScript so) \<or> bool_or (rso_osFamily so) \<or> bool_or (rso_useGPU so) \<or> rolling_postAction so)"

definition rolling_dataCopyMethodOk :: "rolling_input \<Rightarrow> bool" where
  "rolling_dataCopyMethodOk v =
     (\<not> bool_or (rso_dataCopyMethod (rv_options v)) \<or> str_truthy (rf_dataCopyMethod (rv_params v)))"

definition rolling_dataCopyStartTimeOk :: "rolling_input \<Rightarrow> bool" where
  "rolling_dataCopyStartTimeOk v =
     (\<not> bool_or (rso_dataCopyStartTime (rv_options v)) \<or>
      (real_text (rf_dataCopyStartTime (rv_params v)) \<and> \<not> field_error (rv_fieldErrors v) ''dataCopyStartTime''))"

definition rolling_cutoverOk :: "rolling_input \<Rightarrow> bool" where
  "rolling_cutoverOk v =
     (let p = rv_params v; fe = rv_fieldErrors v
      in if \<not> bool_or (rso_cutoverOption (rv_options v)) then True
         else str_truthy (rf_cutoverOption p) \<and> \<not> field_error fe ''cutoverOption'' \<and>
              (rf_cutoverOption p \<noteq> Some CUTOVER_TIME_WINDOW \<or>
               (str_truthy (rf_cutoverStartTime p) \<and> str_truthy (rf_cutoverEndTime p) \<and>
                \<not> field_error fe ''cutoverStartTime'' \<and> \<not> field_error fe ''cutoverEndTime'')))"

definition rolling_postMigrationScriptOk :: "rolling_input \<Rightarrow> bool" where
  "rolling_postMigrationScriptOk v =
     (\<not> bool_or (rso_postMigrationScript (rv_options v)) \<or>
      (str_truthy (rf_postMigrationScript (rv_params v)) \<and> \<not> field_error (rv_fieldErrors v) ''postMigrationScript''))"

definition rolling_osFamilyOk :: "rolling_input \<Rightarrow> bool" where
  "rolling_osFamilyOk v = (\<not> bool_or (rso_osFamily (rv_options v)) \<or> str_truthy (rf_osFamily (rv_params v)))"

definition rolling_pcdOptionsOk :: "rolling_input \<Rightarrow> bool" where
  "rolling_pcdOptionsOk v = (\<not> bool_or (rso_useGPU (rv_options v)) \<or> rf_useGPU (rv_params v) \<noteq> None)"

definition rolling_postMigrationActionOk :: "rolling_input \<Rightarrow> bool" where
  "rolling_postMigrationActionOk v =
     (if \<not> rolling_postAction (rv_options v) then True
      else (case rso_postMigrationAction (rv_options v) of
              None \<Rightarrow> False
            | Some a \<Rightarrow>
                bool_or (sp_renameVm a) \<or> bool_or (sp_moveToFolder a) \<or>
                \<not> bool_or (sp_suffix a) \<or> str_truthy (rf_postMigrationActionSuffix (rv_params v)) \<or>
                \<not> bool_or (sp_folderName a) \<or> str_truthy (rf_postMigrationActionFolderName (rv_params v))))"

definition rolling_optionsConfigured :: "rolling_input \<Rightarrow> bool" where
  "rolling_optionsConfigured v =
     (if \<not> rolling_anyOption (rv_options v) then False
      else rolling_dataCopyStartTimeOk v \<and> rolling_cutoverOk v \<and> rolling_postMigrationScriptOk v \<and> rolling_osFamilyOk v \<and>
           rolling_pcdOptionsOk v \<and> rolling_postMigrationActionOk v)"

section \<open>Whether the form may be submitted\<close>

definition rolling_storageComplete :: "rolling_input \<Rightarrow> bool" where
  "rolling_storageComplete v =
     (let p = rv_params v
      in if rf_storageCopyMethod p = Some ''HotAdd'' then str_truthy (rf_proxyVMRef p)
         else if rf_storageCopyMethod p = Some ''StorageAcceleratedCopy''
         then list_all (maps_source (list_or (rf_arrayCredsMappings p))) (rolling_datastores v)
         else list_all (maps_source (list_or (rf_storageMappings p))) (rolling_datastores v))"

definition rolling_mappingsValid :: "rolling_input \<Rightarrow> bool" where
  "rolling_mappingsValid v =
     (\<not> (list_ex (\<lambda>n. \<not> maps_source (list_or (rf_networkMappings (rv_params v))) n) (rolling_networks v) \<or>
         \<not> rolling_storageComplete v))"

definition rolling_optionsValidated :: "rolling_input \<Rightarrow> bool" where
  "rolling_optionsValidated v =
     (\<not> rolling_anyOption (rv_options v) \<or>
      (rolling_dataCopyMethodOk v \<and> rolling_dataCopyStartTimeOk v \<and> rolling_cutoverOk v \<and> rolling_postMigrationScriptOk v \<and>
       rolling_osFamilyOk v \<and> rolling_pcdOptionsOk v \<and> rolling_postMigrationActionOk v))"

definition isSubmitDisabled :: "rolling_input \<Rightarrow> bool" where
  "isSubmitDisabled v =
     (let p = rv_params v;
          basicRequirementsMissing =
            (\<not> str_truthy (rf_vmwareCluster p) \<or> \<not> str_truthy (rf_pcdCluster p) \<or> rv_maasConfig v = None \<or>
             length (rv_selectedVMs v) = 0 \<or> rv_submitting v)
      in basicRequirementsMissing \<or> \<not> rolling_mappingsValid v \<or> \<not> rolling_optionsValidated v \<or>
         fst (esxHostConfigValidation v) \<or> fst (vmIpValidation v) \<or> fst (osValidation v))"

section \<open>The sections\<close>

definition rolling_step3HasErrors :: "rolling_input \<Rightarrow> bool" where
  "rolling_step3HasErrors v = (ts_hosts (rv_touched v) \<and> snd (snd (esxHostConfigValidation v)) \<noteq> [])"

definition rolling_step4HasErrors :: "rolling_input \<Rightarrow> bool" where
  "rolling_step4HasErrors v =
     (ts_vms (rv_touched v) \<and> (snd (snd (vmIpValidation v)) \<noteq> [] \<or> snd (snd (osValidation v)) \<noteq> []))"

definition rolling_step5HasErrors :: "rolling_input \<Rightarrow> bool" where
  "rolling_step5HasErrors v =
     (ts_mapResources (rv_touched v) \<and> (rv_networkMappingError v \<noteq> [] \<or> rv_storageMappingError v \<noteq> []))"

definition rolling_step6HasErrors :: "rolling_input \<Rightarrow> bool" where
  "rolling_step6HasErrors v =
     (let so = rv_options v; p = rv_params v; fe = rv_fieldErrors v
      in ts_options (rv_touched v) \<and>
         (bool_or (rso_dataCopyStartTime so) \<and> field_error fe ''dataCopyStartTime'' \<or>
          bool_or (rso_cutoverOption so) \<and>
            (field_error fe ''cutoverOption'' \<or>
             rf_cutoverOption p = Some CUTOVER_TIME_WINDOW \<and>
               (field_error fe ''cutoverStartTime'' \<or> field_error fe ''cutoverEndTime'')) \<or>
          bool_or (rso_postMigrationScript so) \<and> field_error fe ''postMigrationScript''))"

definition rolling_sections :: "rolling_input \<Rightarrow> (string \<times> nav_status) list" where
  "rolling_sections v =
     (let p = rv_params v; t = rv_touched v;
          attention_first = (\<lambda>errors complete. if errors then NavAttention else if complete then NavComplete else NavIncomplete)
      in [(''source-destination'', nav_of (ts_sourceDestination t \<and> str_truthy (rf_vmwareCluster p) \<and> str_truthy (rf_pcdCluster p)) False),
          (''baremetal'', nav_of (ts_baremetal t \<and> rv_maasConfig v \<noteq> None) False),
          (''hosts'', attention_first (rolling_step3HasErrors v)
             (ts_hosts t \<and> length (rv_hosts v) > 0 \<and> snd (snd (esxHostMappingStatus (rv_hosts v))))),
          (''vms'', attention_first (rolling_step4HasErrors v) (ts_vms t \<and> length (rv_selectedVMs v) > 0)),
          (''map-resources'', attention_first (rolling_step5HasErrors v)
             (ts_mapResources t \<and> (length (rolling_networks v) > 0 \<or> length (rolling_datastores v) > 0) \<and>
              list_all (maps_source (list_or (rf_networkMappings p))) (rolling_networks v) \<and> rolling_storageComplete v)),
          (''security'', nav_of (ts_security t) False),
          (''tags-metadata'', nav_of (bool_or (rf_preserveSourceTags p) \<or>
             list_ex (\<lambda>row. js_trim (kv_key row) \<noteq> []) (list_or (rf_customMetadata p))) False),
          (''options'', attention_first (rolling_step6HasErrors v)
             (ts_options t \<and>
              (rolling_optionsConfigured v \<or>
               bool_or (rf_disconnectSourceNetwork p) \<or> bool_or (rf_fallbackToDHCP p) \<or> bool_or (rf_networkPersistence p)) \<and>
              \<not> rolling_step6HasErrors v))])"

section \<open>What the checks say\<close>

lemma known_concat:
  "set (concat (map (\<lambda>x. list_or (f x)) (filter (\<lambda>x. f x \<noteq> None) xs))) = (\<Union>x \<in> set xs. set (list_or (f x)))"
proof (induction xs)
  case (Cons x xs)
  then show ?case by (cases "f x") simp_all
qed simp

lemma uses_networks:
  "rv_selectedVMs v \<noteq> [] \<Longrightarrow> set (rolling_networks v) = (\<Union>vm \<in> set (rolling_selected v). set (list_or (vm_networks vm)))"
  by (cases "rv_vms v") (simp_all add: rolling_networks_def known_concat rolling_selected_def del: set_concat not_None_eq)

lemma uses_datastores:
  "rv_selectedVMs v \<noteq> [] \<Longrightarrow> set (rolling_datastores v) = (\<Union>vm \<in> set (rolling_selected v). set (list_or (vm_datastores vm)))"
  by (cases "rv_vms v") (simp_all add: rolling_datastores_def known_concat rolling_selected_def del: set_concat not_None_eq)

lemma esx_check: "fst (esxHostConfigValidation v) \<longleftrightarrow> \<not> (rv_hosts v \<noteq> [] \<and> (\<forall>h \<in> set (rv_hosts v). str_truthy (eh_pcdHostConfigName h)))"
  by (auto simp: esxHostConfigValidation_def Let_def filter_empty_conv)

lemma ip_check:
  "fst (vmIpValidation v) \<longleftrightarrow> \<not> (rv_selectedVMs v \<noteq> [] \<and> (\<forall>vm \<in> set (rolling_selected v).
     vmHasInterface (vm_networks vm) (vm_networkInterfaces vm) \<longrightarrow> \<not> without_ip vm))"
  by (auto simp: vmIpValidation_def Let_def filter_empty_conv)

lemma os_check:
  "fst (osValidation v) \<longleftrightarrow> \<not> (rv_selectedVMs v \<noteq> [] \<and> (\<forall>vm \<in> set (rolling_selected v). \<not> without_os (rv_osAssignments v) vm))"
  by (auto simp: osValidation_def Let_def filter_empty_conv)

text \<open>A check has a message exactly when it has an error.\<close>

lemma check_messages:
  "snd (snd (esxHostConfigValidation v)) \<noteq> [] \<longleftrightarrow> fst (esxHostConfigValidation v)"
  "snd (snd (vmIpValidation v)) \<noteq> [] \<longleftrightarrow> fst (vmIpValidation v)"
  "snd (snd (osValidation v)) \<noteq> [] \<longleftrightarrow> fst (osValidation v)"
  by (simp_all add: esxHostConfigValidation_def vmIpValidation_def osValidation_def Let_def)

lemma all_mapped: "list_all P xs \<longleftrightarrow> (\<forall>x \<in> set xs. P x)"
  by (simp add: list_all_iff)

text \<open>
  The abstract specification of the submit button: a source and a destination, a bare metal configuration, machines, each
  with what it needs, a configuration for every host, a target for everything the machines use, and the chosen options
  filled in.
\<close>

definition rolling_machine_ready :: "rolling_input \<Rightarrow> VM \<Rightarrow> bool" where
  "rolling_machine_ready v vm \<longleftrightarrow>
     (vmHasInterface (vm_networks vm) (vm_networkInterfaces vm) \<longrightarrow> vm_ip vm \<noteq> em_dash \<and> vm_ip vm \<noteq> []) \<and>
     \<not> without_os (rv_osAssignments v) vm \<and>
     (\<forall>n \<in> set (list_or (vm_networks vm)). maps_source (list_or (rf_networkMappings (rv_params v))) n) \<and>
     (\<forall>d \<in> set (list_or (vm_datastores vm)).
        rf_storageCopyMethod (rv_params v) = Some ''HotAdd'' \<or>
        (if rf_storageCopyMethod (rv_params v) = Some ''StorageAcceleratedCopy''
         then maps_source (list_or (rf_arrayCredsMappings (rv_params v))) d
         else maps_source (list_or (rf_storageMappings (rv_params v))) d))"

definition rolling_ready :: "rolling_input \<Rightarrow> bool" where
  "rolling_ready v \<longleftrightarrow>
     str_truthy (rf_vmwareCluster (rv_params v)) \<and> str_truthy (rf_pcdCluster (rv_params v)) \<and> rv_maasConfig v \<noteq> None \<and>
     \<not> rv_submitting v \<and> rv_selectedVMs v \<noteq> [] \<and>
     (\<forall>vm \<in> set (rv_vms v). vm_id vm \<in> set (rv_selectedVMs v) \<longrightarrow> rolling_machine_ready v vm) \<and>
     rv_hosts v \<noteq> [] \<and> (\<forall>h \<in> set (rv_hosts v). str_truthy (eh_pcdHostConfigName h)) \<and>
     (rf_storageCopyMethod (rv_params v) = Some ''HotAdd'' \<longrightarrow> str_truthy (rf_proxyVMRef (rv_params v))) \<and>
     rolling_optionsValidated v"

lemma enabled_iff_ready: "\<not> isSubmitDisabled v \<longleftrightarrow> rolling_ready v"
proof (cases "rv_selectedVMs v = []")
  case False
  have sel: "set (rolling_selected v) = {vm \<in> set (rv_vms v). vm_id vm \<in> set (rv_selectedVMs v)}"
    by (auto simp: rolling_selected_def)
  have net: "list_ex (\<lambda>n. \<not> maps_source ms n) (rolling_networks v) \<longleftrightarrow>
      \<not> (\<forall>vm \<in> set (rolling_selected v). \<forall>n \<in> set (list_or (vm_networks vm)). maps_source ms n)" for ms
    using uses_networks [OF False] by (auto simp: list_ex_iff)
  have st: "rolling_storageComplete v \<longleftrightarrow>
      (rf_storageCopyMethod (rv_params v) = Some ''HotAdd'' \<longrightarrow> str_truthy (rf_proxyVMRef (rv_params v))) \<and>
      (\<forall>vm \<in> set (rolling_selected v). \<forall>d \<in> set (list_or (vm_datastores vm)).
        rf_storageCopyMethod (rv_params v) = Some ''HotAdd'' \<or>
        (if rf_storageCopyMethod (rv_params v) = Some ''StorageAcceleratedCopy''
         then maps_source (list_or (rf_arrayCredsMappings (rv_params v))) d
         else maps_source (list_or (rf_storageMappings (rv_params v))) d))"
    using uses_datastores [OF False] unfolding rolling_storageComplete_def Let_def all_mapped by (auto simp: Ball_def)
  have ready: "(\<forall>vm \<in> set (rv_vms v). vm_id vm \<in> set (rv_selectedVMs v) \<longrightarrow> rolling_machine_ready v vm) \<longleftrightarrow>
      (\<forall>vm \<in> set (rolling_selected v). rolling_machine_ready v vm)"
    by (auto simp: sel)
  have machines: "(\<forall>vm \<in> set (rolling_selected v). rolling_machine_ready v vm) \<longleftrightarrow>
      \<not> fst (vmIpValidation v) \<and> \<not> fst (osValidation v) \<and>
      (\<forall>vm \<in> set (rolling_selected v). \<forall>n \<in> set (list_or (vm_networks vm)). maps_source (list_or (rf_networkMappings (rv_params v))) n) \<and>
      (\<forall>vm \<in> set (rolling_selected v). \<forall>d \<in> set (list_or (vm_datastores vm)).
        rf_storageCopyMethod (rv_params v) = Some ''HotAdd'' \<or>
        (if rf_storageCopyMethod (rv_params v) = Some ''StorageAcceleratedCopy''
         then maps_source (list_or (rf_arrayCredsMappings (rv_params v))) d
         else maps_source (list_or (rf_storageMappings (rv_params v))) d))"
    unfolding ip_check os_check rolling_machine_ready_def without_ip_def using False by blast
  show ?thesis
    unfolding isSubmitDisabled_def rolling_ready_def Let_def rolling_mappingsValid_def net ready machines st esx_check
    using False by (auto simp del: str_truthy_simps)
qed (simp add: isSubmitDisabled_def rolling_ready_def Let_def)

text \<open>C5: the button of the rolling form is enabled exactly when the form is ready.\<close>

theorem rolling_enabled_iff_ready: "\<not> isSubmitDisabled v \<longleftrightarrow> rolling_ready v"
  by (rule enabled_iff_ready)

text \<open>a form that can be submitted shows the sections the operator has been in as complete, as far as the submit has left no
  mapping error and the selected machines use some network or datastore.\<close>

theorem rolling_enabled_sections_complete:
  assumes "\<not> isSubmitDisabled v" "rv_networkMappingError v = []" "rv_storageMappingError v = []"
    and "rolling_networks v \<noteq> [] \<or> rolling_datastores v \<noteq> []"
    and "rv_touched v = \<lparr> ts_sourceDestination = True, ts_baremetal = True, ts_hosts = True, ts_vms = True,
                            ts_mapResources = True, ts_security = True, ts_tagsMetadata = True, ts_options = opts \<rparr>"
  shows "map snd (take 6 (rolling_sections v)) = replicate 6 NavComplete"
proof -
  have ok: "str_truthy (rf_vmwareCluster (rv_params v))" "str_truthy (rf_pcdCluster (rv_params v))" "rv_maasConfig v \<noteq> None"
    "\<not> fst (esxHostConfigValidation v)" "\<not> fst (vmIpValidation v)" "\<not> fst (osValidation v)" "rv_selectedVMs v \<noteq> []"
    "rolling_storageComplete v" "list_all (maps_source (list_or (rf_networkMappings (rv_params v)))) (rolling_networks v)"
    using assms(1) unfolding isSubmitDisabled_def rolling_mappingsValid_def Let_def by (auto simp: list_all_iff list_ex_iff)
  have "filter (\<lambda>h. str_truthy (eh_pcdHostConfigName h)) (rv_hosts v) = rv_hosts v" "rv_hosts v \<noteq> []"
    using ok(4) unfolding esx_check by simp_all
  then have hosts: "snd (snd (esxHostMappingStatus (rv_hosts v)))" "rv_hosts v \<noteq> []"
    by (simp_all add: esxHostMappingStatus_def Let_def)
  have "\<not> rolling_step3HasErrors v" "\<not> rolling_step4HasErrors v" "\<not> rolling_step5HasErrors v"
    using ok assms(2,3) check_messages [of v] by (auto simp: rolling_step3HasErrors_def rolling_step4HasErrors_def rolling_step5HasErrors_def)
  with ok hosts assms(4,5) show ?thesis
    by (simp add: rolling_sections_def Let_def nav_of_def eval_nat_numeral del: str_truthy_simps not_None_eq)
qed

text \<open>A form that is ready.\<close>

definition no_rolling_params :: RollingFormParams where
  "no_rolling_params =
     \<lparr> rf_vmwareCluster = None, rf_pcdCluster = None, rf_networkMappings = None, rf_storageMappings = None,
       rf_arrayCredsMappings = None, rf_securityGroups = None, rf_serverGroup = None, rf_dataCopyMethod = None,
       rf_dataCopyStartTime = None, rf_cutoverOption = None, rf_cutoverStartTime = None, rf_cutoverEndTime = None,
       rf_postMigrationScript = None, rf_osFamily = None, rf_storageCopyMethod = None, rf_proxyVMRef = None,
       rf_postMigrationAction = None, rf_postMigrationActionSuffix = None, rf_postMigrationActionFolderName = None,
       rf_useGPU = None, rf_disconnectSourceNetwork = None, rf_dataOnly = None, rf_fallbackToDHCP = None,
       rf_networkPersistence = None, rf_preserveSourceTags = None, rf_customMetadata = None \<rparr>"

definition ready_vm :: VM where
  "ready_vm =
     \<lparr> vm_id = ''vm-1'', vm_name = ''web'', vm_ip = ''10.0.0.4'', vm_esxHost = ''esx1'', vm_networks = Some [''VM Network''],
       vm_datastores = Some [''ds1''], vm_cpu = None, vm_memory = None, vm_powerState = ''powered-on'', vm_osFamily = None,
       vm_flavor = None, vm_targetFlavorId = None, vm_ipValidationStatus = None, vm_ipValidationMessage = None,
       vm_networkInterfaces = Some [bulk_nic ''m0'' [''10.0.0.4'']], vm_preserveIp = Some [(0, False)], vm_preserveMac = None \<rparr>"

definition ready_rolling :: rolling_input where
  "ready_rolling =
     \<lparr> rv_params = no_rolling_params
         \<lparr> rf_vmwareCluster := Some ''vc:dc:a'', rf_pcdCluster := Some ''pcd'',
           rf_networkMappings := Some [\<lparr> rm_source = ''VM Network'', rm_target = ''net'' \<rparr>],
           rf_storageMappings := Some [\<lparr> rm_source = ''ds1'', rm_target = ''ceph'' \<rparr>] \<rparr>,
       rv_fieldErrors = [],
       rv_options = \<lparr> rso_dataCopyMethod = None, rso_dataCopyStartTime = None, rso_cutoverOption = None,
                      rso_postMigrationScript = None, rso_osFamily = None, rso_useGPU = None, rso_postMigrationAction = None \<rparr>,
       rv_selectedVMs = [''vm-1''], rv_vms = [ready_vm],
       rv_hosts = [(sample_host ''esx1'') \<lparr> eh_pcdHostConfigName := Some ''hc'' \<rparr>],
       rv_osAssignments = [], rv_maasConfig = Some ''bm'', rv_submitting = False,
       rv_touched = \<lparr> ts_sourceDestination = True, ts_baremetal = True, ts_hosts = True, ts_vms = True,
                      ts_mapResources = True, ts_security = True, ts_tagsMetadata = True, ts_options = False \<rparr>,
       rv_networkMappingError = [], rv_storageMappingError = [] \<rparr>"

lemma ready_rolling_enabled: "\<not> isSubmitDisabled ready_rolling"
  by code_simp

theorem rolling_enabled_sections_complete_witness:
  "map snd (take 6 (rolling_sections ready_rolling)) = replicate 6 NavComplete"
proof -
  have "rolling_networks ready_rolling \<noteq> []" by code_simp
  then show ?thesis
    using rolling_enabled_sections_complete [OF ready_rolling_enabled, of False] by (simp add: ready_rolling_def)
qed

text \<open>When the machines fail to load, the selection stays while the table is emptied; the checks pass over machines they do not find.\<close>

lemma failed_load_keeps_submit:
  assumes "\<not> isSubmitDisabled v" "ro_selected s = rv_selectedVMs v"
    and "w = v \<lparr> rv_vms := ro_vms (vms_answer name old None s), rv_selectedVMs := ro_selected (vms_answer name old None s) \<rparr>"
  shows "\<not> isSubmitDisabled w \<and> rolling_selected w = []"
proof -
  have w: "w = v \<lparr> rv_vms := [], rv_selectedVMs := rv_selectedVMs v \<rparr>" using assms(2,3) by (simp add: vms_answer_def)
  have "rolling_ready v" using assms(1) enabled_iff_ready by blast
  moreover have "rolling_optionsValidated w = rolling_optionsValidated v"
    by (simp add: w rolling_optionsValidated_def rolling_dataCopyMethodOk_def rolling_dataCopyStartTimeOk_def
        rolling_cutoverOk_def rolling_postMigrationScriptOk_def rolling_osFamilyOk_def rolling_pcdOptionsOk_def
        rolling_postMigrationActionOk_def cong: option.case_cong)
  ultimately have "rolling_ready w" by (simp add: w rolling_ready_def)
  then show ?thesis using enabled_iff_ready [of w] by (simp add: w rolling_selected_def)
qed

end
