(* ===== verification/Rolling_Submit.thy ===== *)
theory Rolling_Submit
  imports Rolling_Form Api_Action
begin

text \<open>
  Starting a rolling conversion: \<open>ui/src/features/migration/hooks/useRollingFormSubmit.ts\<close> with
  \<open>api/rolling-migration-plans/helpers.ts\<close> and \<open>api/migration-templates/helpers.ts\<close>, as an action over the API
  server. Analytics, the console and the error reports are left out; names that are generated at random are not part of
  the requests, since the server's answer gives the name of each resource.
\<close>

section \<open>createRollingMigrationPlanJson\<close>

record RollingStrategy =
  ys_type :: "string option"
  ys_adminInitiatedCutOver :: "bool option"
  ys_healthCheckPort :: string
  ys_performHealthChecks :: bool
  ys_dataCopyStart :: "string option"
  ys_vmCutoverStart :: "string option"
  ys_vmCutoverEnd :: "string option"
  ys_dataOnly :: "bool option"

record ClusterMapping =
  cm_vmwareClusterName :: string
  cm_pcdClusterName :: string

text \<open>The parameters that the function names. The caller passes one more, which the function does not read.\<close>

record RollingPlanParams =
  yp_clusterName :: string
  yp_vms :: "string list"
  yp_clusterMapping :: "ClusterMapping list"
  yp_bmConfigRef :: string
  yp_firstBootScript :: "string option"
  yp_migrationStrategy :: "RollingStrategy option"
  yp_migrationTemplate :: "string option"
  yp_preserveSourceTags :: "bool option"
  yp_customMetadata :: "string sobj option"

record RollingPlanCall = RollingPlanParams +
  yp_networkOverridesPerVM :: "NetworkOverride list sobj option"

record RollingPlanSpec =
  yz_clusterSequence :: "(string \<times> string list) list"
  yz_clusterMapping :: "ClusterMapping list"
  yz_bmConfigRef :: string
  yz_firstBootScript :: "string option"
  yz_migrationStrategy :: "RollingStrategy option"
  yz_migrationTemplate :: "string option"
  yz_preserveSourceTags :: "bool option"
  yz_customMetadata :: "string sobj option"

definition createRollingMigrationPlanJson :: "'a RollingPlanParams_scheme \<Rightarrow> RollingPlanSpec" where
  "createRollingMigrationPlanJson p =
     \<lparr> yz_clusterSequence = [(yp_clusterName p, yp_vms p)], yz_clusterMapping = yp_clusterMapping p,
       yz_bmConfigRef = yp_bmConfigRef p, yz_firstBootScript = only_truthy (yp_firstBootScript p),
       yz_migrationStrategy = yp_migrationStrategy p, yz_migrationTemplate = only_truthy (yp_migrationTemplate p),
       yz_preserveSourceTags = yp_preserveSourceTags p,
       yz_customMetadata = (if nonempty_opt (yp_customMetadata p) then yp_customMetadata p else None) \<rparr>"

section \<open>The template\<close>

record RollingTemplateSpec =
  yt_networkMapping :: string
  yt_storageMapping :: "string option"
  yt_vmwareRef :: string
  yt_openstackRef :: string
  yt_targetPCDClusterName :: "string option"
  yt_useGPUFlavor :: bool

definition createMigrationTemplateJson ::
  "string \<Rightarrow> string option \<Rightarrow> string \<Rightarrow> string \<Rightarrow> string option \<Rightarrow> RollingTemplateSpec" where
  "createMigrationTemplateJson networkMapping storageMapping vmwareRef openstackRef pcdName =
     \<lparr> yt_networkMapping = networkMapping, yt_storageMapping = only_truthy storageMapping, yt_vmwareRef = vmwareRef,
       yt_openstackRef = openstackRef, yt_targetPCDClusterName = only_truthy pcdName, yt_useGPUFlavor = False \<rparr>"

section \<open>The input of the hook and the requests\<close>

record rolling_submit =
  ry_params :: RollingFormParams
  ry_options :: RollingOptions
  ry_selectedVMs :: "string list"
  ry_vms :: "VM list"
  ry_maasConfig :: "string option"
  ry_hosts :: "ESXHost list"
  ry_configs :: "PCDHostConfig list"
  ry_sourceData :: "SourceDataItem list"
  ry_pcdData :: "PcdDataItem list"
  ry_networks :: "string list"
  ry_datastores :: "string list"
  ry_vmwareCredName :: string
  ry_pcdCredName :: string

datatype rolling_request =
    PatchHost string string
  | PostRollingNetworks "ResourceMap list"
  | PostRollingStorages "ResourceMap list"
  | PostRollingArrays "ResourceMap list"
  | PostRollingTemplate RollingTemplateSpec
  | PatchRollingTemplate string TemplatePatch
  | PostRollingPlan RollingPlanSpec

section \<open>What is computed from the form\<close>

definition rolling_method :: "RollingFormParams \<Rightarrow> string" where
  "rolling_method p = str_or (rf_storageCopyMethod p) ''normal''"

definition submitted_vms :: "rolling_submit \<Rightarrow> VM list" where
  "submitted_vms i = filter (\<lambda>vm. vm_id vm \<in> set (ry_selectedVMs i)) (ry_vms i)"

definition rolling_override_indices :: "VM \<Rightarrow> nat list" where
  "rolling_override_indices vm =
     js_uniq (obj_keys (list_or (vm_preserveIp vm)) @ obj_keys (list_or (vm_preserveMac vm)) @
              obj_keys (nicAssignedIps (vm_networkInterfaces vm)))"

definition rolling_override_at :: "VM \<Rightarrow> nat \<Rightarrow> NetworkOverride" where
  "rolling_override_at vm i =
     (let preserveIP = (map_of (list_or (vm_preserveIp vm)) i \<noteq> Some False);
          preserveMAC = (map_of (list_or (vm_preserveMac vm)) i \<noteq> Some False);
          userAssigned = (if \<not> preserveIP then map_of (nicAssignedIps (vm_networkInterfaces vm)) i else None)
      in \<lparr> no_interfaceIndex = i, no_preserveIP = preserveIP, no_preserveMAC = preserveMAC,
           no_UserAssignedIP = only_truthy userAssigned \<rparr>)"

definition rolling_overrides :: "VM list \<Rightarrow> NetworkOverride list sobj" where
  "rolling_overrides vms =
     fold (\<lambda>vm m. if rolling_override_indices vm = [] then m
                  else sobj_set (vm_name vm) (js_sort by_interface (map (rolling_override_at vm) (rolling_override_indices vm))) m)
       vms []"

definition selected_pcd :: "rolling_submit \<Rightarrow> PcdDataItem option" where
  "selected_pcd i = find (\<lambda>p. pc_id p = str_or (rf_pcdCluster (ry_params i)) []) (ry_pcdData i)"

definition host_config_id :: "PCDHostConfig list \<Rightarrow> ESXHost \<Rightarrow> string" where
  "host_config_id configs host =
     (case find (\<lambda>c. Some (hc_name c) = eh_pcdHostConfigName host) configs of
        Some c \<Rightarrow> hc_id c | None \<Rightarrow> str_or (eh_pcdHostConfigName host) [])"

definition host_patches :: "rolling_submit \<Rightarrow> rolling_request list" where
  "host_patches i =
     map (\<lambda>h. PatchHost (eh_id h) (host_config_id (ry_configs i) h))
       (filter (\<lambda>h. host_config_id (ry_configs i) h \<noteq> [])
          (filter (\<lambda>h. str_truthy (eh_pcdHostConfigName h)) (ry_hosts i)))"

definition rolling_strategy :: "rolling_submit \<Rightarrow> RollingStrategy" where
  "rolling_strategy i =
     (let p = ry_params i; so = ry_options i;
          timeWindow = (bool_or (rso_cutoverOption so) \<and> rf_cutoverOption p = Some CUTOVER_TIME_WINDOW)
      in \<lparr> ys_type = (if bool_or (rso_dataCopyMethod so) then rf_dataCopyMethod p else Some ''cold''),
           ys_adminInitiatedCutOver = map_option (\<lambda>b. b \<and> rf_cutoverOption p = Some CUTOVER_ADMIN_INITIATED) (rso_cutoverOption so),
           ys_healthCheckPort = ''443'', ys_performHealthChecks = False,
           ys_dataCopyStart = when_some (bool_or (rso_dataCopyStartTime so)) (only_truthy (rf_dataCopyStartTime p)),
           ys_vmCutoverStart = when_some timeWindow (only_truthy (rf_cutoverStartTime p)),
           ys_vmCutoverEnd = when_some timeWindow (only_truthy (rf_cutoverEndTime p)),
           ys_dataOnly = (if bool_or (rf_dataOnly p) then Some True else None) \<rparr>)"

definition rolling_plan_call :: "rolling_submit \<Rightarrow> string \<Rightarrow> RollingPlanCall" where
  "rolling_plan_call i templateName =
     (let clusterName = source_cluster_name (ry_sourceData i) (str_or (rf_vmwareCluster (ry_params i)) []);
          overrides = rolling_overrides (submitted_vms i)
      in \<lparr> yp_clusterName = clusterName, yp_vms = map vm_name (submitted_vms i),
           yp_clusterMapping =
             [\<lparr> cm_vmwareClusterName = clusterName,
                cm_pcdClusterName = (case selected_pcd i of None \<Rightarrow> [] | Some p \<Rightarrow> pc_name p) \<rparr>],
           yp_bmConfigRef = str_or (ry_maasConfig i) [], yp_firstBootScript = None,
           yp_migrationStrategy = Some (rolling_strategy i), yp_migrationTemplate = Some templateName,
           yp_preserveSourceTags = Some (bool_or (rf_preserveSourceTags (ry_params i))),
           yp_customMetadata = customMetadataToRecord (rf_customMetadata (ry_params i)),
           yp_networkOverridesPerVM = (if length (obj_keys overrides) > 0 then Some overrides else None) \<rparr>)"

definition rolling_template_patch :: "rolling_submit \<Rightarrow> string \<Rightarrow> string option \<Rightarrow> string option \<Rightarrow> TemplatePatch" where
  "rolling_template_patch i networkMapping storageMapping arrayMapping =
     (let method = rolling_method (ry_params i)
      in \<lparr> tp_networkMapping = Some networkMapping, tp_storageCopyMethod = method,
           tp_proxyVMRef = (if method = ''HotAdd'' then only_truthy (rf_proxyVMRef (ry_params i)) else None),
           tp_storageMapping = (if method \<noteq> ''StorageAcceleratedCopy'' then only_truthy storageMapping else None),
           tp_arrayCredsMapping = (if method = ''StorageAcceleratedCopy'' then only_truthy arrayMapping else None) \<rparr>)"

section \<open>handleSubmit\<close>

record rolling_view =
  rw_submitting :: bool
  rw_networkMappingError :: string
  rw_storageMappingError :: string
  rw_alert :: "string option"
  rw_closed :: bool
  rw_path :: "string option"

text \<open>The checks before the first request: what they set when they refuse.\<close>

definition rolling_refusal :: "rolling_submit \<Rightarrow> (rolling_view \<Rightarrow> rolling_view) option" where
  "rolling_refusal i =
     (let p = ry_params i; method = rolling_method p
      in if length (ry_selectedVMs i) > 0
         then (if list_ex (\<lambda>n. \<not> maps_source (list_or (rf_networkMappings p)) n) (ry_networks i)
               then Some (\<lambda>v. v \<lparr> rw_networkMappingError := ''All networks from selected VMs must be mapped'', rw_submitting := False \<rparr>)
               else if method = ''StorageAcceleratedCopy'' \<and>
                       list_ex (\<lambda>d. \<not> maps_source (list_or (rf_arrayCredsMappings p)) d) (ry_datastores i)
               then Some (\<lambda>v. v \<lparr> rw_storageMappingError := ''All datastores from selected VMs must be mapped'', rw_submitting := False \<rparr>)
               else if method \<noteq> ''StorageAcceleratedCopy'' \<and>
                       list_ex (\<lambda>d. \<not> maps_source (list_or (rf_storageMappings p)) d) (ry_datastores i)
               then Some (\<lambda>v. v \<lparr> rw_storageMappingError := ''All datastores from selected VMs must be mapped'', rw_submitting := False \<rparr>)
               else if method = ''HotAdd'' \<and> \<not> str_truthy (rf_proxyVMRef p)
               then Some (\<lambda>v. v \<lparr> rw_storageMappingError :=
                      ''Please select a vJailbreak Proxy VM to use for Accelerated Copy data copy'', rw_submitting := False \<rparr>)
               else None)
         else if str_truthy (rf_vmwareCluster p) \<and> str_truthy (rf_pcdCluster p)
         then Some (\<lambda>v. v \<lparr> rw_alert := Some ''Please select at least one VM to migrate'', rw_submitting := False \<rparr>)
         else None)"

text \<open>The hosts are patched one after the other; a host that is refused is skipped.\<close>

fun patch_hosts :: "rolling_request server \<Rightarrow> rolling_request list \<Rightarrow> (rolling_request, unit) action" where
  "patch_hosts srv [] = give ()"
| "patch_hosts srv (r # rs) = and_then (await_caught srv r) (\<lambda>_. patch_hosts srv rs)"

text \<open>The storage step gives the names of the storage mapping and of the array mapping.\<close>

definition rolling_storage_step ::
  "rolling_request server \<Rightarrow> rolling_submit \<Rightarrow> (rolling_request, string option \<times> string option) action" where
  "rolling_storage_step srv i =
     (if rolling_method (ry_params i) = ''StorageAcceleratedCopy''
      then and_then (await srv (PostRollingArrays (list_or (rf_arrayCredsMappings (ry_params i))))) (\<lambda>n. give (None, Some n))
      else and_then (await srv (PostRollingStorages (list_or (rf_storageMappings (ry_params i))))) (\<lambda>n. give (Some n, None)))"

definition rolling_template_step ::
  "rolling_request server \<Rightarrow> rolling_submit \<Rightarrow> string \<Rightarrow> string option \<Rightarrow> string option \<Rightarrow> string \<Rightarrow> (rolling_request, unit) action" where
  "rolling_template_step srv i net st arr templateName =
     (if templateName \<noteq> []
      then and_then (await srv (PatchRollingTemplate templateName (rolling_template_patch i net st arr))) (\<lambda>_. give ())
      else give ())"

definition rolling_template_spec :: "rolling_submit \<Rightarrow> string \<Rightarrow> string option \<Rightarrow> RollingTemplateSpec" where
  "rolling_template_spec i net st =
     createMigrationTemplateJson net st (ry_vmwareCredName i) (ry_pcdCredName i) (map_option pc_name (selected_pcd i))"

definition create_rolling ::
  "rolling_request server \<Rightarrow> rolling_submit \<Rightarrow> string \<Rightarrow> string option \<times> string option \<Rightarrow> (rolling_request, unit) action" where
  "create_rolling srv i net names =
     (case names of (st, arr) \<Rightarrow>
        and_then (await srv (PostRollingTemplate (rolling_template_spec i net st))) (\<lambda>templateName.
        and_then (rolling_template_step srv i net st arr templateName) (\<lambda>_.
        and_then (await srv (PostRollingPlan (createRollingMigrationPlanJson (rolling_plan_call i templateName)))) (\<lambda>_.
        give ()))))"

definition perform_rolling :: "rolling_request server \<Rightarrow> rolling_submit \<Rightarrow> (rolling_request, unit) action" where
  "perform_rolling srv i =
     and_then (patch_hosts srv (host_patches i)) (\<lambda>_.
     and_then (await srv (PostRollingNetworks (list_or (rf_networkMappings (ry_params i))))) (\<lambda>net.
     and_then (rolling_storage_step srv i) (create_rolling srv i net)))"

definition rolling_handleSubmit ::
  "rolling_request server \<Rightarrow> rolling_submit \<Rightarrow> rolling_request api_run \<Rightarrow> rolling_view \<Rightarrow> rolling_request api_run \<times> rolling_view" where
  "rolling_handleSubmit srv i s v =
     (let v0 = v \<lparr> rw_submitting := True \<rparr>
      in case rolling_refusal i of
           Some refuse \<Rightarrow> (s, refuse v0)
         | None \<Rightarrow>
             (case perform_rolling srv i s of
                (Returns _, s1) \<Rightarrow> (s1, v0 \<lparr> rw_closed := True, rw_path := Some ''/dashboard/cluster-conversions'', rw_submitting := False \<rparr>)
              | (Throws e, s1) \<Rightarrow>
                  (s1, v0 \<lparr> rw_alert := Some (''Failed to submit rolling migration plan: '' @ e), rw_submitting := False \<rparr>)))"

definition rolling_handleClose :: "rolling_view \<Rightarrow> rolling_view" where
  "rolling_handleClose v = (if \<not> rw_submitting v then v \<lparr> rw_closed := True \<rparr> else v)"

section \<open>The script of a submit\<close>

text \<open>
  What a submit sends, in order; \<open>name r\<close> is the name the server gives to the resource of the request \<open>r\<close>.
\<close>

definition rolling_storage_request :: "rolling_submit \<Rightarrow> rolling_request" where
  "rolling_storage_request i =
     (if rolling_method (ry_params i) = ''StorageAcceleratedCopy''
      then PostRollingArrays (list_or (rf_arrayCredsMappings (ry_params i)))
      else PostRollingStorages (list_or (rf_storageMappings (ry_params i))))"

definition rolling_storage_names :: "(rolling_request \<Rightarrow> string) \<Rightarrow> rolling_submit \<Rightarrow> string option \<times> string option" where
  "rolling_storage_names name i =
     (if rolling_method (ry_params i) = ''StorageAcceleratedCopy'' then (None, Some (name (rolling_storage_request i)))
      else (Some (name (rolling_storage_request i)), None))"

definition rolling_script :: "(rolling_request \<Rightarrow> string) \<Rightarrow> rolling_submit \<Rightarrow> rolling_request list" where
  "rolling_script name i =
     (let networks = PostRollingNetworks (list_or (rf_networkMappings (ry_params i)));
          (st, arr) = rolling_storage_names name i;
          template = PostRollingTemplate (rolling_template_spec i (name networks) st)
      in host_patches i @ [networks, rolling_storage_request i, template] @
         (if name template = [] then []
          else [PatchRollingTemplate (name template) (rolling_template_patch i (name networks) st arr)]) @
         [PostRollingPlan (createRollingMigrationPlanJson (rolling_plan_call i (name template)))])"

text \<open>The configuration of a host may be refused: the host is skipped.\<close>

definition is_host_patch :: "rolling_request \<Rightarrow> bool" where
  "is_host_patch r = (case r of PatchHost _ _ \<Rightarrow> True | _ \<Rightarrow> False)"

lemma runs_hosts: "list_all is_host_patch rs \<Longrightarrow> runs srv is_host_patch (patch_hosts srv rs) rs ()"
proof (induction rs)
  case (Cons r rs)
  then have "runs srv is_host_patch (await_caught srv r) [r] ()" "runs srv is_host_patch (patch_hosts srv rs) rs ()"
    by (simp_all add: runs_caught)
  from runs_then [OF this(1), of "\<lambda>_. patch_hosts srv rs", OF this(2)] show ?case by simp
qed (simp add: runs_give)

lemma host_patches_only: "list_all is_host_patch (host_patches i)"
  by (simp add: host_patches_def list_all_iff is_host_patch_def)

lemma runs_rolling_storage:
  assumes "names_answers srv name"
  shows "runs srv is_host_patch (rolling_storage_step srv i) [rolling_storage_request i] (rolling_storage_names name i)"
proof -
  have "\<not> is_host_patch (rolling_storage_request i)" by (simp add: is_host_patch_def rolling_storage_request_def)
  note step = runs_await_give [of srv name is_host_patch "rolling_storage_request i" "\<lambda>n. (None :: string option, Some n)", OF assms this]
    runs_await_give [of srv name is_host_patch "rolling_storage_request i" "\<lambda>n. (Some n, None :: string option)", OF assms this]
  show ?thesis
    using step
    by (cases "rolling_method (ry_params i) = ''StorageAcceleratedCopy''")
      (simp_all add: rolling_storage_step_def rolling_storage_request_def rolling_storage_names_def)
qed

lemma runs_rolling_template:
  assumes "names_answers srv name"
  shows "runs srv is_host_patch (rolling_template_step srv i net st arr t)
     (if t = [] then [] else [PatchRollingTemplate t (rolling_template_patch i net st arr)]) ()"
proof (cases "t = []")
  case True
  then show ?thesis by (simp add: rolling_template_step_def runs_give)
next
  case False
  have "\<not> is_host_patch (PatchRollingTemplate t (rolling_template_patch i net st arr))" by (simp add: is_host_patch_def)
  from runs_await_give [of srv name is_host_patch "PatchRollingTemplate t (rolling_template_patch i net st arr)" "\<lambda>_. ()", OF assms this] False
  show ?thesis by (simp add: rolling_template_step_def)
qed

lemma runs_create:
  assumes "names_answers srv name"
  shows "runs srv is_host_patch (create_rolling srv i net (st, arr))
     (let t = name (PostRollingTemplate (rolling_template_spec i net st))
      in [PostRollingTemplate (rolling_template_spec i net st)] @
         (if t = [] then [] else [PatchRollingTemplate t (rolling_template_patch i net st arr)]) @
         [PostRollingPlan (createRollingMigrationPlanJson (rolling_plan_call i t))]) ()"
proof -
  define plan where "plan t = PostRollingPlan (createRollingMigrationPlanJson (rolling_plan_call i t))" for t
  have plan: "runs srv is_host_patch (and_then (await srv (plan t)) (\<lambda>_. give ())) [plan t] ()" for t
    using runs_await_give [OF assms, of is_host_patch "plan t" "\<lambda>_. ()"] by (simp add: plan_def is_host_patch_def)
  have "runs srv is_host_patch
      (and_then (rolling_template_step srv i net st arr t) (\<lambda>_. and_then (await srv (plan t)) (\<lambda>_. give ())))
      ((if t = [] then [] else [PatchRollingTemplate t (rolling_template_patch i net st arr)]) @ [plan t]) ()" for t
    by (rule runs_then [OF runs_rolling_template [OF assms]]) (rule plan)
  from runs_then [OF runs_await [OF assms, of is_host_patch "PostRollingTemplate (rolling_template_spec i net st)"],
      of "\<lambda>t. and_then (rolling_template_step srv i net st arr t) (\<lambda>_. and_then (await srv (plan t)) (\<lambda>_. give ()))", OF _ this]
  show ?thesis by (simp add: Let_def plan_def create_rolling_def is_host_patch_def)
qed

lemma runs_rolling:
  assumes "names_answers srv name"
  shows "runs srv is_host_patch (perform_rolling srv i) (rolling_script name i) ()"
proof -
  let ?net = "PostRollingNetworks (list_or (rf_networkMappings (ry_params i)))"
  obtain st arr where names: "rolling_storage_names name i = (st, arr)" by (cases "rolling_storage_names name i")
  have create: "runs srv is_host_patch (create_rolling srv i net (rolling_storage_names name i))
     (let t = name (PostRollingTemplate (rolling_template_spec i net st))
      in [PostRollingTemplate (rolling_template_spec i net st)] @
         (if t = [] then [] else [PatchRollingTemplate t (rolling_template_patch i net st arr)]) @
         [PostRollingPlan (createRollingMigrationPlanJson (rolling_plan_call i t))]) ()" for net
    unfolding names by (rule runs_create [OF assms])
  note storage = runs_then [OF runs_rolling_storage [OF assms, of i], of "create_rolling srv i net" for net, OF create]
  have net: "runs srv is_host_patch (await srv ?net) [?net] (name ?net)"
    by (rule runs_await [OF assms]) (simp add: is_host_patch_def)
  note networks = runs_then [OF net, of "\<lambda>net. and_then (rolling_storage_step srv i) (create_rolling srv i net)", OF storage]
  show ?thesis
    using runs_then [OF runs_hosts [OF host_patches_only [of i]],
        of srv "\<lambda>_. and_then (await srv ?net) (\<lambda>net. and_then (rolling_storage_step srv i) (create_rolling srv i net))", OF networks]
    by (simp add: perform_rolling_def rolling_script_def names Let_def)
qed

text \<open>C6: a submit of the rolling form that passes the checks sends its script (the configurations of the hosts, the mappings, the
  template, its patch unless the template came without a name, and the plan, each under the names of those before it) up to
  and including the first request that is refused, the configurations of the hosts apart, which may be refused. It closes
  the form exactly when no other request is refused, and has then sent the whole script; otherwise it shows an error and the
  form stays open. In either case it ends. The server names what it creates.\<close>

theorem rolling_submit_follows_script:
  assumes "names_answers srv name" "rolling_refusal i = None" "rw_alert v = None" "\<not> rw_closed v"
    and "rolling_handleSubmit srv i s v = (s1, w)"
    and "sent_until srv is_host_patch (length (rr_requests s)) (rolling_script name i) = (sent, through)"
  shows "rr_requests s1 = rr_requests s @ sent \<and> rw_closed w = through \<and>
     (rw_alert w = None) = through \<and> (through \<longrightarrow> sent = rolling_script name i) \<and> \<not> rw_submitting w"
proof -
  have run: "rr_requests (snd (perform_rolling srv i s)) = rr_requests s @ sent"
    "if through then fst (perform_rolling srv i s) = Returns () else \<exists>e. fst (perform_rolling srv i s) = Throws e"
    using runs_rolling [OF assms(1), of i] assms(6) unfolding runs_def by (auto dest!: spec [of _ s])
  have "through \<longrightarrow> sent = rolling_script name i" using sent_through assms(6) by metis
  then show ?thesis
    using run assms(2-5)
    by (cases "perform_rolling srv i s"; cases "fst (perform_rolling srv i s)") (auto simp: rolling_handleSubmit_def Let_def split: if_splits)
qed

definition ready_submit :: rolling_submit where
  "ready_submit =
     \<lparr> ry_params = rv_params ready_rolling, ry_options = rv_options ready_rolling, ry_selectedVMs = rv_selectedVMs ready_rolling,
       ry_vms = rv_vms ready_rolling, ry_maasConfig = rv_maasConfig ready_rolling, ry_hosts = rv_hosts ready_rolling,
       ry_configs = [\<lparr> hc_id = ''1'', hc_name = ''hc'' \<rparr>], ry_sourceData = two_clusters,
       ry_pcdData = [\<lparr> pc_id = ''pcd'', pc_name = ''PCD'', pc_openstackCredName = ''os'', pc_tenantName = ''t'' \<rparr>],
       ry_networks = rolling_networks ready_rolling, ry_datastores = rolling_datastores ready_rolling,
       ry_vmwareCredName = ''vc'', ry_pcdCredName = ''os'' \<rparr>"

definition named_server :: "rolling_request server" where
  "named_server n r = (Done ''x'', 5)"

definition idle_rolling :: "rolling_request api_run" where
  "idle_rolling = \<lparr> rr_requests = [], rr_now = 0 \<rparr>"

definition open_rolling :: rolling_view where
  "open_rolling =
     \<lparr> rw_submitting = False, rw_networkMappingError = [], rw_storageMappingError = [], rw_alert = None, rw_closed = False, rw_path = None \<rparr>"

lemma named_server_names: "names_answers named_server (\<lambda>_. ''x'')"
  by (simp add: names_answers_def named_server_def)

lemma ready_submit_accepted: "rolling_refusal ready_submit = None"
  by code_simp

theorem rolling_submit_follows_script_witness:
  "rr_requests (fst (rolling_handleSubmit named_server ready_submit idle_rolling open_rolling)) = rolling_script (\<lambda>_. ''x'') ready_submit"
proof -
  let ?r = "rolling_handleSubmit named_server ready_submit idle_rolling open_rolling"
  let ?u = "sent_until named_server is_host_patch (length (rr_requests idle_rolling)) (rolling_script (\<lambda>_. ''x'') ready_submit)"
  have opened: "rw_alert open_rolling = None" "\<not> rw_closed open_rolling" by (simp_all add: open_rolling_def)
  have "rw_closed (snd ?r)" by code_simp
  with rolling_submit_follows_script [OF named_server_names ready_submit_accepted opened, of idle_rolling "fst ?r" "snd ?r" "fst ?u" "snd ?u"]
  show ?thesis by (simp add: idle_rolling_def)
qed

section \<open>What a submit leaves out\<close>

lemma submitted_map:
  assumes "\<And>vm. vm_id (f vm) = vm_id vm"
  shows "submitted_vms (i \<lparr> ry_vms := map f (ry_vms i) \<rparr>) = map f (submitted_vms i)"
  by (simp add: submitted_vms_def filter_map comp_def assms)

lemma same_submit:
  assumes "rf_networkMappings (ry_params j) = rf_networkMappings (ry_params i)" "rolling_refusal j = rolling_refusal i"
    and "host_patches j = host_patches i" "rolling_storage_step srv j = rolling_storage_step srv i"
    and "rolling_template_spec j = rolling_template_spec i" "rolling_template_step srv j = rolling_template_step srv i"
    and "\<And>t. createRollingMigrationPlanJson (rolling_plan_call j t) = createRollingMigrationPlanJson (rolling_plan_call i t)"
  shows "rolling_handleSubmit srv j s v = rolling_handleSubmit srv i s v"
proof -
  have "create_rolling srv j = create_rolling srv i" by (intro ext) (simp add: create_rolling_def assms)
  then have "perform_rolling srv j = perform_rolling srv i" by (simp add: perform_rolling_def assms)
  then show ?thesis by (simp only: rolling_handleSubmit_def assms(2))
qed

text \<open>the overrides of the networks are computed and passed on, but the plan is built without them: what a submit sends and shows
  does not depend on which addresses the operator preserves or assigns, nor on anything else of a row but its identity and name.\<close>

theorem rolling_plan_drops_overrides:
  assumes "\<And>vm. vm_id (f vm) = vm_id vm" "\<And>vm. vm_name (f vm) = vm_name vm"
  shows "rolling_handleSubmit srv (i \<lparr> ry_vms := map f (ry_vms i) \<rparr>) s v = rolling_handleSubmit srv i s v"
proof -
  let ?j = "i \<lparr> ry_vms := map f (ry_vms i) \<rparr>"
  have "createRollingMigrationPlanJson (rolling_plan_call ?j t) = createRollingMigrationPlanJson (rolling_plan_call i t)" for t
    unfolding rolling_plan_call_def Let_def submitted_map [OF assms(1)]
    by (simp add: createRollingMigrationPlanJson_def rolling_strategy_def selected_pcd_def comp_def assms(2))
  moreover have "rolling_refusal ?j = rolling_refusal i" by (simp add: rolling_refusal_def Let_def cong: if_cong)
  moreover have "host_patches ?j = host_patches i" by (simp add: host_patches_def)
  moreover have "rolling_storage_step srv ?j = rolling_storage_step srv i" by (simp add: rolling_storage_step_def)
  moreover have "rolling_template_spec ?j = rolling_template_spec i"
    by (intro ext) (simp add: rolling_template_spec_def selected_pcd_def)
  moreover have "rolling_template_step srv ?j = rolling_template_step srv i"
    by (intro ext) (simp add: rolling_template_step_def rolling_template_patch_def Let_def cong: if_cong)
  ultimately show ?thesis by (intro same_submit) simp_all
qed

theorem rolling_plan_drops_overrides_witness:
  "rolling_overrides (submitted_vms ready_submit) \<noteq> [] \<and>
   rolling_handleSubmit named_server
     (ready_submit \<lparr> ry_vms := map (\<lambda>vm. vm \<lparr> vm_preserveIp := None, vm_networkInterfaces := None \<rparr>) (ry_vms ready_submit) \<rparr>)
     idle_rolling open_rolling =
   rolling_handleSubmit named_server ready_submit idle_rolling open_rolling"
proof (intro conjI)
  show "rolling_overrides (submitted_vms ready_submit) \<noteq> []" by code_simp
qed (rule rolling_plan_drops_overrides, simp_all)

text \<open>the security groups, the server group, the script, the operating system, the GPU flavour and the network options of the
  form have no effect on what a submit sends: the plan and the template have no place for them.\<close>

theorem rolling_ignores_options:
  "rolling_handleSubmit srv (i \<lparr> ry_params := (ry_params i)
      \<lparr> rf_securityGroups := securityGroups, rf_serverGroup := serverGroup, rf_postMigrationScript := script,
        rf_osFamily := osFamily, rf_useGPU := useGPU, rf_disconnectSourceNetwork := disconnect,
        rf_fallbackToDHCP := dhcp, rf_networkPersistence := persistence, rf_postMigrationAction := action \<rparr> \<rparr>) s v =
   rolling_handleSubmit srv i s v"
proof -
  let ?j = "i \<lparr> ry_params := (ry_params i)
      \<lparr> rf_securityGroups := securityGroups, rf_serverGroup := serverGroup, rf_postMigrationScript := script,
        rf_osFamily := osFamily, rf_useGPU := useGPU, rf_disconnectSourceNetwork := disconnect,
        rf_fallbackToDHCP := dhcp, rf_networkPersistence := persistence, rf_postMigrationAction := action \<rparr> \<rparr>"
  have "rolling_plan_call ?j = rolling_plan_call i"
    by (intro ext) (simp add: rolling_plan_call_def Let_def submitted_vms_def rolling_strategy_def selected_pcd_def)
  moreover have "rolling_refusal ?j = rolling_refusal i" by (simp add: rolling_refusal_def rolling_method_def Let_def cong: if_cong)
  moreover have "host_patches ?j = host_patches i" by (simp add: host_patches_def)
  moreover have "rolling_storage_step srv ?j = rolling_storage_step srv i" by (simp add: rolling_storage_step_def rolling_method_def)
  moreover have "rolling_template_spec ?j = rolling_template_spec i"
    by (intro ext) (simp add: rolling_template_spec_def selected_pcd_def)
  moreover have "rolling_template_step srv ?j = rolling_template_step srv i"
    by (intro ext) (simp add: rolling_template_step_def rolling_template_patch_def rolling_method_def Let_def cong: if_cong)
  ultimately show ?thesis by (intro same_submit) simp_all
qed

section \<open>The button and the checks of the submit\<close>

text \<open>What the page passes to the submit: the values the button was computed from.\<close>

definition page_submit :: "rolling_input \<Rightarrow> rolling_submit \<Rightarrow> rolling_submit" where
  "page_submit v i =
     i \<lparr> ry_params := rv_params v, ry_options := rv_options v, ry_selectedVMs := rv_selectedVMs v, ry_vms := rv_vms v,
         ry_maasConfig := rv_maasConfig v, ry_hosts := rv_hosts v, ry_networks := rolling_networks v,
         ry_datastores := rolling_datastores v \<rparr>"

lemma enabled_refusal:
  assumes "\<not> isSubmitDisabled v"
  shows "rolling_refusal (page_submit v i) = None \<longleftrightarrow>
     \<not> (rf_storageCopyMethod (rv_params v) = Some ''HotAdd'' \<and>
        list_ex (\<lambda>d. \<not> maps_source (list_or (rf_storageMappings (rv_params v))) d) (rolling_datastores v))"
proof -
  have ok: "rv_selectedVMs v \<noteq> []" "rolling_storageComplete v"
    "\<not> list_ex (\<lambda>n. \<not> maps_source (list_or (rf_networkMappings (rv_params v))) n) (rolling_networks v)"
    using assms unfolding isSubmitDisabled_def rolling_mappingsValid_def Let_def by auto
  have copied: "rolling_method (rv_params v) = m \<longleftrightarrow> rf_storageCopyMethod (rv_params v) = Some m"
    if "m \<noteq> ''normal''" "m \<noteq> []" for m
    using that by (cases "rf_storageCopyMethod (rv_params v)") (auto simp: rolling_method_def str_or_def str_truthy_def)
  show ?thesis
    using ok unfolding rolling_refusal_def page_submit_def Let_def rolling_storageComplete_def
    by (auto simp: copied list_ex_iff list_all_iff split: if_splits)
qed

text \<open>a submit of an enabled form is not refused by the checks of the submit, with one exception: with the hot-add copy the button asks
  only for the proxy machine, while the submit asks for a target of every datastore and refuses.\<close>

theorem rolling_enabled_accepted:
  assumes "\<not> isSubmitDisabled v"
  shows "rolling_refusal (page_submit v i) = None \<longleftrightarrow>
     \<not> (rf_storageCopyMethod (rv_params v) = Some ''HotAdd'' \<and>
        list_ex (\<lambda>d. \<not> maps_source (list_or (rf_storageMappings (rv_params v))) d) (rolling_datastores v))"
  using assms by (rule enabled_refusal)

theorem rolling_enabled_accepted_witness:
  "rolling_refusal (page_submit (ready_rolling \<lparr> rv_params := (rv_params ready_rolling)
     \<lparr> rf_storageCopyMethod := Some ''HotAdd'', rf_proxyVMRef := Some ''proxy'', rf_storageMappings := None \<rparr> \<rparr>) ready_submit) \<noteq> None"
proof -
  let ?v = "ready_rolling \<lparr> rv_params := (rv_params ready_rolling)
     \<lparr> rf_storageCopyMethod := Some ''HotAdd'', rf_proxyVMRef := Some ''proxy'', rf_storageMappings := None \<rparr> \<rparr>"
  have "\<not> isSubmitDisabled ?v" by code_simp
  moreover have "list_ex (\<lambda>d. \<not> maps_source (list_or (rf_storageMappings (rv_params ?v))) d) (rolling_datastores ?v)" by code_simp
  moreover have "rf_storageCopyMethod (rv_params ?v) = Some ''HotAdd''" by simp
  ultimately show ?thesis using rolling_enabled_accepted [of ?v ready_submit] by metis
qed

text \<open>C13: when the machines of the cluster fail to load, a form that could be submitted still can be, and unless it uses the hot-add copy
  with a datastore that has no target it sends a plan without any machine.\<close>

theorem failed_load_submits_empty_plan:
  assumes "\<not> isSubmitDisabled v" "ro_selected s = rv_selectedVMs v"
    and "w = v \<lparr> rv_vms := ro_vms (vms_answer name old None s), rv_selectedVMs := ro_selected (vms_answer name old None s) \<rparr>"
  shows "\<not> isSubmitDisabled w \<and> rolling_refusal (page_submit w i) = None \<and>
     yz_clusterSequence (createRollingMigrationPlanJson (rolling_plan_call (page_submit w i) t)) =
       [(source_cluster_name (ry_sourceData i) (str_or (rf_vmwareCluster (rv_params v)) []), [])]"
proof -
  have w: "rv_vms w = []" "rv_params w = rv_params v" using assms(3) by (simp_all add: vms_answer_def)
  have enabled: "\<not> isSubmitDisabled w" using failed_load_keeps_submit [OF assms] by blast
  moreover have "rolling_refusal (page_submit w i) = None"
    using enabled_refusal [OF enabled] by (simp add: rolling_datastores_def w)
  moreover have "submitted_vms (page_submit w i) = []" by (simp add: submitted_vms_def page_submit_def w)
  ultimately show ?thesis
    by (simp add: createRollingMigrationPlanJson_def rolling_plan_call_def Let_def w page_submit_def del: str_or_nil_eq)
qed

theorem failed_load_submits_empty_plan_witness:
  "\<not> isSubmitDisabled (ready_rolling
     \<lparr> rv_vms := ro_vms (vms_answer ''a'' [] None (empty_rolling \<lparr> ro_selected := [''vm-1''] \<rparr>)),
       rv_selectedVMs := ro_selected (vms_answer ''a'' [] None (empty_rolling \<lparr> ro_selected := [''vm-1''] \<rparr>)) \<rparr>)"
proof -
  have "ro_selected (empty_rolling \<lparr> ro_selected := [''vm-1''] \<rparr>) = rv_selectedVMs ready_rolling" by (simp add: ready_rolling_def)
  from failed_load_submits_empty_plan [OF ready_rolling_enabled this refl] show ?thesis by blast
qed

end
