(* ===== verification/Machine_List.thy ===== *)
theory Machine_List
  imports Retry_Migration
begin

text \<open>
  The machines the migration form offers: \<open>ui/src/api/rdm-disks/rdmDiskUtils.ts\<close> (the rows with their shared
  raw disks) and the query of \<open>ui/src/hooks/api/useVMwareMachinesQuery.ts\<close> (the machines of the chosen cluster).
  A raw disk comes with the name of its resource; the three lists a query fetches are its arguments.
\<close>

section \<open>Shared raw disks\<close>

definition hasSharedRdmDisks :: "VMwareMachine \<Rightarrow> bool" where
  "hasSharedRdmDisks vm = nonempty_opt (vw_rdmDisks (vx_vm vm))"

text \<open>The map of the disks by name: of two entries with one name the later stays, a failed request gives the empty map.\<close>

definition fetchRdmDisksMap :: "(string \<times> RdmDisk) list option \<Rightarrow> string \<Rightarrow> RdmDisk option" where
  "fetchRdmDisksMap answer = (case answer of None \<Rightarrow> Map.empty | Some disks \<Rightarrow> map_of (rev disks))"

definition dependent_names :: "(string \<Rightarrow> RdmDisk option) \<Rightarrow> VMwareVM \<Rightarrow> string list" where
  "dependent_names disks vm =
     js_uniq (concat (map (\<lambda>n. case disks n of
                                 None \<Rightarrow> []
                               | Some d \<Rightarrow> filter (\<lambda>owner. owner \<noteq> vw_name vm) (rd_ownerVMs d))
                          (list_or (vw_rdmDisks vm))))"

definition getRdmDependencies :: "VMwareMachine \<Rightarrow> (string \<Rightarrow> RdmDisk option) \<Rightarrow> VMwareMachine list \<Rightarrow> string list" where
  "getRdmDependencies vm disks allMachines =
     map (\<lambda>dep. case find (\<lambda>m. vw_name (vx_vm m) = dep) allMachines of
                  Some m \<Rightarrow> if str_truthy (vw_vmid (vx_vm m)) then machine_key (vx_vm m) else dep
                | None \<Rightarrow> dep)
         (dependent_names disks (vx_vm vm))"

text \<open>The row of a machine: \<open>mapToVmData\<close> with its tags and what it shares.\<close>

record RdmVmData = VmData +
  rv_rdmDisks :: "string list"
  rv_rdmDependencies :: "string list"

definition mapToVmDataWithRdm :: "VMwareMachine list \<Rightarrow> (string \<Rightarrow> RdmDisk option) \<Rightarrow> RdmVmData list" where
  "mapToVmDataWithRdm machines disks =
     map (\<lambda>machine.
            VmData.extend
              ((mapToVmData machine)
                 \<lparr> vd_hasSharedRdm := Some (hasSharedRdmDisks machine), vd_tags := vw_tags (vx_vm machine),
                   vd_customAttributes := vw_customAttributes (vx_vm machine) \<rparr>)
              (RdmVmData.fields (list_or (vw_rdmDisks (vx_vm machine))) (getRdmDependencies machine disks machines)))
         machines"

text \<open>The machines that have to be chosen with the chosen ones: the result, what is missing, and the groups.\<close>

definition getRdmRequiredSelections ::
  "string list \<Rightarrow> RdmVmData list \<Rightarrow> string list \<times> string list \<times> string list sobj" where
  "getRdmRequiredSelections selectedVmIds allVms =
     (let vmsWithRdm = filter (\<lambda>vm. bool_or (vd_hasSharedRdm vm) \<and> rv_rdmDependencies vm \<noteq> []) allVms;
          chosen = filter (\<lambda>vm. vd_id vm \<in> set selectedVmIds) vmsWithRdm;
          rdmGroups = fold (\<lambda>vm. sobj_set (''rdm-group-'' @ vd_id vm) (vd_id vm # rv_rdmDependencies vm)) chosen [];
          required = js_uniq (selectedVmIds @ concat (map (\<lambda>vm. vd_id vm # rv_rdmDependencies vm) chosen))
      in (required, filter (\<lambda>i. i \<notin> set selectedVmIds) required, rdmGroups))"

section \<open>The machines of a cluster\<close>

text \<open>The chosen cluster \<open>credential:datacenter:cluster\<close> gives both names or neither.\<close>

definition cluster_parts :: "string option \<Rightarrow> string option \<times> string option" where
  "cluster_parts vmwareCluster =
     (if str_truthy vmwareCluster
      then (case split_on (CHR '':'') (the vmwareCluster) of
              [cred, dc, cluster] \<Rightarrow> (Some cluster, Some dc)
            | _ \<Rightarrow> (None, None))
      else (None, None))"

definition cluster_matches :: "string \<Rightarrow> string \<Rightarrow> VMwareClusterRes \<Rightarrow> bool" where
  "cluster_matches clusterName datacenterName cluster =
     ((\<not> str_truthy (cl_datacenterAnnotation cluster) \<or> cl_datacenterAnnotation cluster = Some datacenterName) \<and>
      (cl_specName cluster = clusterName \<or> cl_name cluster = clusterName))"

definition machines_of_cluster ::
  "string option \<times> string option \<Rightarrow> VMwareClusterRes list \<Rightarrow> VMwareMachine list \<Rightarrow> VMwareMachine list" where
  "machines_of_cluster parts clusters machines =
     (case parts of
        (Some clusterName, Some datacenterName) \<Rightarrow>
          if clusterName = [] \<or> datacenterName = [] \<or> starts_with clusterName ''no-cluster-'' then machines
          else (case find (cluster_matches clusterName datacenterName) clusters of
                  Some c \<Rightarrow> if cl_name c = [] then machines
                            else filter (\<lambda>m. lookup_label (vx_labels m) ''vjailbreak.k8s.pf9.io/vmware-cluster'' = Some (cl_name c))
                                   machines
                | None \<Rightarrow> machines)
      | _ \<Rightarrow> machines)"

definition vmware_machines_query ::
  "bool \<Rightarrow> string option \<Rightarrow> VMwareMachine list \<Rightarrow> (string \<times> RdmDisk) list option \<Rightarrow> VMwareClusterRes list \<Rightarrow> RdmVmData list" where
  "vmware_machines_query areCredsValidated vmwareCluster machines disks clusters =
     (if \<not> areCredsValidated then []
      else mapToVmDataWithRdm (machines_of_cluster (cluster_parts vmwareCluster) clusters machines) (fetchRdmDisksMap disks))"

section \<open>What the list holds\<close>

lemma rdm_row_fields [simp]:
  "vd_id (VmData.extend v (RdmVmData.fields a b)) = vd_id v" "rv_rdmDependencies (VmData.extend v (RdmVmData.fields a b)) = b"
  by (simp_all add: VmData.extend_def RdmVmData.fields_def)

lemma mapped_ids: "map vd_id (mapToVmDataWithRdm machines disks) = map (\<lambda>m. machine_key (vx_vm m)) machines"
  by (simp add: mapToVmDataWithRdm_def comp_def mapToVmData_def Let_def blank_vm_def)

lemma split_cluster_id:
  assumes "CHR '':'' \<notin> set cred" "CHR '':'' \<notin> set dc" "CHR '':'' \<notin> set name"
  shows "split_on (CHR '':'') (cluster_id cred dc name) = [cred, dc, name]"
  using assms by (simp add: cluster_id_def split_on_append split_on_single)

text \<open>a chosen cluster lists exactly the machines that carry its label, in the order of the server, provided no other cluster
  of the datacenter has its name; the names of the catalogue are parsed back from its identifier.\<close>

theorem cluster_lists_its_machines:
  assumes "CHR '':'' \<notin> set cred" "CHR '':'' \<notin> set dc" "CHR '':'' \<notin> set (cl_name c)"
    and "dc \<noteq> []" "cl_name c \<noteq> []" "\<not> starts_with (cl_name c) ''no-cluster-''"
    and "c \<in> set clusters" "cl_datacenterAnnotation c = Some dc"
    and "\<And>other. other \<in> set clusters \<Longrightarrow> cluster_matches (cl_name c) dc other \<Longrightarrow> other = c"
  shows "map vd_id (vmware_machines_query True (Some (cluster_id cred dc (cl_name c))) machines disks clusters) =
     map (\<lambda>m. machine_key (vx_vm m))
       (filter (\<lambda>m. lookup_label (vx_labels m) ''vjailbreak.k8s.pf9.io/vmware-cluster'' = Some (cl_name c)) machines)"
proof -
  have "cluster_matches (cl_name c) dc c" using assms(8) by (simp add: cluster_matches_def)
  then have "find (cluster_matches (cl_name c) dc) clusters \<noteq> None"
    using assms(7) by (auto simp: find_None_iff)
  then obtain other where "find (cluster_matches (cl_name c) dc) clusters = Some other" by auto
  then have found: "find (cluster_matches (cl_name c) dc) clusters = Some c" using assms(9) find_SomeD by fastforce
  have "cluster_id cred dc (cl_name c) \<noteq> []" by (simp add: cluster_id_def)
  then show ?thesis using assms(4-6) found
    by (simp add: vmware_machines_query_def mapped_ids machines_of_cluster_def cluster_parts_def split_cluster_id [OF assms(1-3)])
qed

text \<open>A cluster that the list of clusters does not hold shows the machines of every cluster.\<close>

lemma unknown_cluster_lists_all:
  "find (cluster_matches name dc) clusters = None \<Longrightarrow> machines_of_cluster (Some name, Some dc) clusters machines = machines"
  by (simp add: machines_of_cluster_def)

lemma required_selection:
  assumes "getRdmRequiredSelections ids vms = (required, missing, groups)"
  shows "set required = set ids \<union>
       (\<Union>vm \<in> {vm \<in> set vms. bool_or (vd_hasSharedRdm vm) \<and> rv_rdmDependencies vm \<noteq> [] \<and> vd_id vm \<in> set ids}.
          insert (vd_id vm) (set (rv_rdmDependencies vm)))" "set missing = set required - set ids" "distinct required"
  using assms by (auto simp: getRdmRequiredSelections_def Let_def)

definition listed_machine :: "string \<Rightarrow> string \<Rightarrow> string list \<Rightarrow> VMwareMachine" where
  "listed_machine n cluster disks =
     \<lparr> vx_name = n, vx_labels = Some [(''vjailbreak.k8s.pf9.io/vmware-cluster'', cluster)], vx_annotations = None,
       vx_vm = \<lparr> vw_name = n, vw_vmid = Some (''vm-'' @ n), vw_ipAddress = None, vw_networks = None, vw_datastores = None,
                 vw_memory = 1, vw_cpu = 1, vw_disks = None, vw_osFamily = None, vw_networkInterfaces = None,
                 vw_clusterName = None, vw_assignedIp = None, vw_rdmDisks = Some disks, vw_tags = None,
                 vw_customAttributes = None \<rparr>,
       vx_targetFlavorId = None, vx_migrated = False, vx_powerState = ''off'' \<rparr>"

definition listed_cluster :: "string \<Rightarrow> VMwareClusterRes" where
  "listed_cluster n = \<lparr> cl_name = n, cl_specName = n @ ''!'', cl_datacenterAnnotation = Some ''dc'' \<rparr>"

theorem cluster_lists_its_machines_witness:
  "map vd_id (vmware_machines_query True (Some (cluster_id ''vc'' ''dc'' ''a''))
      [listed_machine ''1'' ''a'' [], listed_machine ''2'' ''b'' []] None [listed_cluster ''b'', listed_cluster ''a'']) = [''1-1'']"
proof -
  have "map vd_id (vmware_machines_query True (Some (cluster_id ''vc'' ''dc'' (cl_name (listed_cluster ''a''))))
      [listed_machine ''1'' ''a'' [], listed_machine ''2'' ''b'' []] None [listed_cluster ''b'', listed_cluster ''a'']) =
    map (\<lambda>m. machine_key (vx_vm m))
      (filter (\<lambda>m. lookup_label (vx_labels m) ''vjailbreak.k8s.pf9.io/vmware-cluster'' = Some (cl_name (listed_cluster ''a'')))
        [listed_machine ''1'' ''a'' [], listed_machine ''2'' ''b'' []])"
    by (rule cluster_lists_its_machines)
      (auto simp: listed_cluster_def starts_with_def cluster_matches_def)
  moreover have "cl_name (listed_cluster ''a'') = ''a''" by (simp add: listed_cluster_def)
  moreover have "machine_key (vx_vm (listed_machine ''1'' ''a'' [])) = ''1-1''" by code_simp
  ultimately show ?thesis by (simp add: listed_machine_def lookup_label_def)
qed

text \<open>The machines that have to be chosen together are collected one step far: with one disk shared by the first and the
  second machine and another by the second and the third, choosing the first asks for the second but not for the third,
  which the second then asks for.\<close>

definition shared_disk :: "string list \<Rightarrow> RdmDisk" where
  "shared_disk owners = \<lparr> rd_diskName = ''d'', rd_diskSize = 1, rd_displayName = ''d'', rd_importToCinder = None,
     rd_openstackVolumeRef = None, rd_ownerVMs = owners, rd_uuid = ''u'' \<rparr>"

definition disk_chain :: "RdmVmData list" where
  "disk_chain =
     mapToVmDataWithRdm
       [listed_machine ''1'' ''a'' [''d12''], listed_machine ''2'' ''a'' [''d12'', ''d23''], listed_machine ''3'' ''a'' [''d23'']]
       (fetchRdmDisksMap (Some [(''d12'', shared_disk [''1'', ''2'']), (''d23'', shared_disk [''2'', ''3''])]))"

lemma required_selection_not_closed:
  "fst (getRdmRequiredSelections [''1-1''] disk_chain) = [''1-1'', ''2-2'']"
  "fst (getRdmRequiredSelections [''1-1'', ''2-2''] disk_chain) = [''1-1'', ''2-2'', ''3-3'']"
  by code_simp+

end
