(* ===== verification/Vm_Selection.thy ===== *)
theory Vm_Selection
  imports Machine_List Vm_Adapters Form_Validation
begin

text \<open>
  The machine table of the migration form: \<open>ui/src/features/migration/hooks/useVmsSelectionState.ts\<close> (the rows and
  the effects that rebuild them), \<open>useVmSelection.ts\<close> (the selection and what the form learns of it),
  \<open>useOsAssignment.ts\<close>, \<open>useFlavorAssignment.ts\<close> and \<open>useFlavorHandlers.ts\<close> (the assignments that are written to
  the machines). An effect is a function on the state of the hook; it reads the values of the render it belongs
  to, which are an argument where they may differ from the state it updates. A handler that waits for the server
  is two functions: what it does before the wait, and what it does with the answer.
\<close>

section \<open>State\<close>

text \<open>The properties and query results a render reads.\<close>

record vm_inputs =
  ti_vmList :: "VmData list"
  ti_migratedVms :: "string list"
  ti_openstackFlavors :: "OpenStackFlavor list"
  ti_openstackCredName :: "string option"
  ti_retryVmName :: "string option"
  ti_rdmConfigurations :: "RdmConfiguration list"

text \<open>What is written to the machines.\<close>

datatype machine_patch = PatchFlavor string string | PatchOs string string

text \<open>The selection is a JavaScript set: a list without repetitions in the order of insertion. \<open>vs_lastVms\<close> and
  \<open>vs_lastRdm\<close> are the payloads last sent to the form (\<open>None\<close> for the initial mark), compared as values.\<close>

record vm_selection =
  vs_rows :: "VmDataWithFlavor list"
  vs_selected :: "string list"
  vs_lastVms :: "VmDataWithFlavor list option"
  vs_lastRdm :: "RdmConfiguration list option"
  vs_merged :: bool
  vs_formVms :: "VmData list option"
  vs_formRdm :: "RdmConfiguration list option"
  vs_osAssignments :: "string sobj"
  vs_toast :: "(string \<times> string) option"
  vs_patches :: "machine_patch list"

definition row_ids :: "VmDataWithFlavor list \<Rightarrow> string list" where
  "row_ids rows = map vd_id rows"

definition selected_rows :: "VmDataWithFlavor list \<Rightarrow> string list \<Rightarrow> VmDataWithFlavor list" where
  "selected_rows rows selected = filter (\<lambda>vm. vd_id vm \<in> set selected) rows"

definition to_form :: "VmDataWithFlavor list \<Rightarrow> VmData list" where
  "to_form rows = map VmData.truncate rows"

section \<open>The selection\<close>

definition areSetsEqual :: "string list \<Rightarrow> string list \<Rightarrow> bool" where
  "areSetsEqual a b = (length a = length b \<and> list_all (\<lambda>x. x \<in> set b) a)"

definition syncSelectedVmSelection :: "VmDataWithFlavor list \<Rightarrow> vm_selection \<Rightarrow> vm_selection" where
  "syncSelectedVmSelection vms s =
     (if vs_lastVms s = Some vms then s
      else s \<lparr> vs_lastVms := Some vms, vs_formVms := Some (to_form vms) \<rparr>)"

definition syncRdmConfigurations :: "RdmConfiguration list \<Rightarrow> vm_selection \<Rightarrow> vm_selection" where
  "syncRdmConfigurations configs s =
     (if vs_lastRdm s = Some configs then s
      else s \<lparr> vs_lastRdm := Some configs, vs_formRdm := Some configs \<rparr>)"

definition cleaned_selection :: "VmDataWithFlavor list \<Rightarrow> string list \<Rightarrow> string list" where
  "cleaned_selection rows selected = filter (\<lambda>i. i \<in> set (row_ids rows)) selected"

definition clean_effect :: "vm_inputs \<Rightarrow> vm_selection \<Rightarrow> vm_selection \<Rightarrow> vm_selection" where
  "clean_effect i render s =
     (let rows = vs_rows render; selected = vs_selected render; cleaned = cleaned_selection rows selected
      in if rows = [] \<or> areSetsEqual cleaned selected then s
         else (let s1 = syncSelectedVmSelection (selected_rows rows cleaned) (s \<lparr> vs_selected := cleaned \<rparr>)
               in if ti_rdmConfigurations i \<noteq> [] then syncRdmConfigurations (ti_rdmConfigurations i) s1 else s1))"

definition sync_effect :: "vm_inputs \<Rightarrow> vm_selection \<Rightarrow> vm_selection \<Rightarrow> vm_selection" where
  "sync_effect i render s =
     (let vms = selected_rows (vs_rows render) (vs_selected render); s1 = syncSelectedVmSelection vms s
      in if vms \<noteq> [] \<and> ti_rdmConfigurations i \<noteq> [] then syncRdmConfigurations (ti_rdmConfigurations i) s1 else s1)"

definition handleVmSelection :: "vm_inputs \<Rightarrow> string list \<Rightarrow> vm_selection \<Rightarrow> vm_selection" where
  "handleVmSelection i ids s =
     (let newSelection = js_uniq ids
      in if areSetsEqual newSelection (vs_selected s) then s
         else (let s1 = syncSelectedVmSelection (selected_rows (vs_rows s) newSelection) (s \<lparr> vs_selected := newSelection \<rparr>)
               in if ti_rdmConfigurations i \<noteq> [] then syncRdmConfigurations (ti_rdmConfigurations i) s1 else s1))"

text \<open>Closing the form drops the selection.\<close>

definition close_effect :: "bool \<Rightarrow> vm_selection \<Rightarrow> vm_selection" where
  "close_effect open_form s = (if open_form then s else s \<lparr> vs_selected := [] \<rparr>)"

definition isRowSelectable :: "VmDataWithFlavor \<Rightarrow> bool" where
  "isRowSelectable vm = (\<not> bool_or (vd_isMigrated vm))"

definition rowSelectionModelArray :: "vm_selection \<Rightarrow> string list" where
  "rowSelectionModelArray s = filter (\<lambda>i. i \<in> set (row_ids (vs_rows s))) (vs_selected s)"

section \<open>The rows\<close>

definition plan_machines :: "string list list list \<Rightarrow> string list" where
  "plan_machines plans = js_uniq (concat (concat plans))"

definition row_flavor :: "OpenStackFlavor list \<Rightarrow> VmData \<Rightarrow> string" where
  "row_flavor flavors vm =
     (if str_truthy (vd_targetFlavorId vm)
      then (case find (\<lambda>f. Some (fl_id f) = vd_targetFlavorId vm) flavors of
              Some f \<Rightarrow> fl_name f
            | None \<Rightarrow> the (vd_targetFlavorId vm))
      else [])"

definition discovered_ips :: "VmData \<Rightarrow> string" where
  "discovered_ips vm =
     (case vd_networkInterfaces vm of
        Some nics \<Rightarrow> js_join '', '' (filter (\<lambda>ip. ip \<noteq> [] \<and> js_trim ip \<noteq> []) (concat (map nic_ips nics)))
      | None \<Rightarrow> str_or (vd_ipAddress vm) [])"

definition row_ips :: "VmDataWithFlavor option \<Rightarrow> VmData \<Rightarrow> string" where
  "row_ips existing vm =
     (case existing of
        Some e \<Rightarrow> if str_truthy (vd_ipAddress e) \<and> vd_ipAddress e \<noteq> Some em_dash then the (vd_ipAddress e)
                  else discovered_ips vm
      | None \<Rightarrow> discovered_ips vm)"

definition row_nics :: "VmDataWithFlavor option \<Rightarrow> VmData \<Rightarrow> vm_nic list option" where
  "row_nics existing vm =
     normalizeNetworkInterfaces (map_option (map (\<lambda>nic. (nic, IpArray (nic_ips nic))))
       (case existing of
          Some e \<Rightarrow> if nonempty_opt (vd_networkInterfaces e) then vd_networkInterfaces e else vd_networkInterfaces vm
        | None \<Rightarrow> vd_networkInterfaces vm))"

definition kept :: "('e \<Rightarrow> 'v option) \<Rightarrow> 'e option \<Rightarrow> 'v option \<Rightarrow> 'v option" where
  "kept field existing new = (case Option.bind existing field of None \<Rightarrow> new | Some v \<Rightarrow> Some v)"

definition rebuilt_row :: "vm_inputs \<Rightarrow> VmDataWithFlavor option \<Rightarrow> VmData \<Rightarrow> VmDataWithFlavor" where
  "rebuilt_row i existing vm =
     VmData.extend
       (vm \<lparr> vd_ipAddress := Some (if row_ips existing vm = [] then em_dash else row_ips existing vm),
             vd_isMigrated := Some (str_or (vd_vmKey vm) (vd_name vm) \<in> set (ti_migratedVms i) \<or>
                                    vd_name vm \<in> set (ti_migratedVms i) \<or> bool_or (vd_isMigrated vm)),
             vd_osFamily := kept vd_osFamily existing (vd_osFamily vm),
             vd_networkInterfaces := row_nics existing vm,
             vd_preserveIp := kept vd_preserveIp existing (vd_preserveIp vm),
             vd_preserveMac := kept vd_preserveMac existing (vd_preserveMac vm) \<rparr>)
       (VmDataWithFlavor.fields (Some (row_flavor (ti_openstackFlavors i) vm)) None
          (Some (str_truthy (ti_openstackCredName i) \<and>
                 lookup_label (vd_labels vm) (the (ti_openstackCredName i)) = Some ''NOT_FOUND''))
          (Some IpPending) (Some [])
          (Some (if vd_vmState vm = Some ''running'' then ''powered-on'' else ''powered-off'')))"

text \<open>\<open>new Map(prev.map((vm) => [vm.id, vm]))\<close>: of two rows with one id the later is found.\<close>

definition existing_row :: "VmDataWithFlavor list \<Rightarrow> string \<Rightarrow> VmDataWithFlavor option" where
  "existing_row rows = map_of (rev (map (\<lambda>vm. (vd_id vm, vm)) rows))"

definition rebuild_effect :: "vm_inputs \<Rightarrow> vm_selection \<Rightarrow> vm_selection" where
  "rebuild_effect i s =
     s \<lparr> vs_rows := map (\<lambda>vm. rebuilt_row i (existing_row (vs_rows s) (vd_id vm)) vm) (ti_vmList i) \<rparr>"

definition duplicateNames :: "VmDataWithFlavor list \<Rightarrow> string list" where
  "duplicateNames rows = filter (\<lambda>n. length (filter (\<lambda>vm. vd_name vm = n) rows) > 1) (js_uniq (map vd_name rows))"

section \<open>Retry\<close>

definition displayVmsWithFlavor :: "vm_inputs \<Rightarrow> VmDataWithFlavor list \<Rightarrow> VmDataWithFlavor list" where
  "displayVmsWithFlavor i rows =
     (if str_truthy (ti_retryVmName i)
      then map (\<lambda>vm. vm \<lparr> vd_isMigrated := Some False \<rparr>) (filter (\<lambda>vm. Some (vd_name vm) = ti_retryVmName i) rows)
      else rows)"

definition auto_select_effect :: "vm_inputs \<Rightarrow> vm_selection \<Rightarrow> vm_selection \<Rightarrow> vm_selection" where
  "auto_select_effect i render s =
     (if \<not> str_truthy (ti_retryVmName i) then s
      else (case find (\<lambda>vm. Some (vd_name vm) = ti_retryVmName i) (displayVmsWithFlavor i (vs_rows render)) of
              None \<Rightarrow> s
            | Some vm \<Rightarrow> s \<lparr> vs_selected := [vd_id vm] \<rparr>))"

definition mergeNicIpOverrides :: "vm_nic list \<Rightarrow> vm_nic list \<Rightarrow> bool iobj \<Rightarrow> vm_nic list" where
  "mergeNicIpOverrides existing prefill preserveIp =
     map (\<lambda>(i, nic). if map_of preserveIp i \<noteq> Some False then nic
                     else if i < length prefill \<and> nic_ips (prefill ! i) \<noteq> []
                          then nic \<lparr> nic_ips := nic_ips (prefill ! i) \<rparr>
                          else nic)
       (enumerate 0 existing)"

definition merged_row :: "VmData \<Rightarrow> VmDataWithFlavor \<Rightarrow> VmDataWithFlavor" where
  "merged_row prefill existing =
     existing \<lparr> vd_preserveIp := (case vd_preserveIp prefill of None \<Rightarrow> vd_preserveIp existing | p \<Rightarrow> p),
                vd_preserveMac := (case vd_preserveMac prefill of None \<Rightarrow> vd_preserveMac existing | p \<Rightarrow> p),
                vd_networkInterfaces :=
                  Some (mergeNicIpOverrides (list_or (vd_networkInterfaces existing)) (list_or (vd_networkInterfaces prefill))
                          (list_or (vd_preserveIp prefill))) \<rparr>"

fun update_first :: "('a \<Rightarrow> bool) \<Rightarrow> ('a \<Rightarrow> 'a) \<Rightarrow> 'a list \<Rightarrow> 'a list" where
  "update_first P f [] = []"
| "update_first P f (x # xs) = (if P x then f x # xs else x # update_first P f xs)"

text \<open>The machine the prefill put into the form is the first of the form's machines at the time of the render.\<close>

definition prefill_effect :: "vm_inputs \<Rightarrow> VmData option \<Rightarrow> vm_selection \<Rightarrow> vm_selection \<Rightarrow> vm_selection" where
  "prefill_effect i retryPrefillVm render s =
     (case retryPrefillVm of
        None \<Rightarrow> s
      | Some prefill \<Rightarrow>
          if \<not> str_truthy (ti_retryVmName i) \<or> vs_merged s \<or>
             find (\<lambda>vm. Some (vd_name vm) = ti_retryVmName i) (displayVmsWithFlavor i (vs_rows render)) = None
          then s
          else s \<lparr> vs_merged := True,
                   vs_rows := update_first (\<lambda>vm. Some (vd_name vm) = ti_retryVmName i) (merged_row prefill) (vs_rows s) \<rparr>)"

section \<open>Operating systems\<close>

definition os_effect :: "vm_selection \<Rightarrow> vm_selection" where
  "os_effect s =
     (if vs_osAssignments s = [] then s
      else s \<lparr> vs_rows := map (\<lambda>vm. case map_of (vs_osAssignments s) (vd_id vm) of
                                         Some os \<Rightarrow> vm \<lparr> vd_osFamily := Some os \<rparr> | None \<Rightarrow> vm) (vs_rows s) \<rparr>)"

definition os_assign :: "string \<Rightarrow> string \<Rightarrow> vm_selection \<Rightarrow> vm_selection" where
  "os_assign vmId osFamily s =
     s \<lparr> vs_osAssignments := sobj_set vmId osFamily (vs_osAssignments s),
         vs_patches := vs_patches s @
           (case find (\<lambda>vm. vd_id vm = vmId) (vs_rows s) of
              Some vm \<Rightarrow> if str_truthy (vd_vmWareMachineName vm) then [PatchOs (the (vd_vmWareMachineName vm)) osFamily] else []
            | None \<Rightarrow> []) \<rparr>"

definition os_answer :: "string \<Rightarrow> string option \<Rightarrow> vm_selection \<Rightarrow> vm_selection" where
  "os_answer vmId failure s =
     (case failure of
        None \<Rightarrow> s \<lparr> vs_toast := Some (''OS family successfully assigned for VM '' @ in_quotes vmId, ''success'') \<rparr>
      | Some msg \<Rightarrow> s \<lparr> vs_osAssignments := filter (\<lambda>(k, _). k \<noteq> vmId) (vs_osAssignments s),
                       vs_toast := Some (''Failed to assign OS family for VM '' @ in_quotes vmId @ '': '' @ msg, ''error'') \<rparr>)"

section \<open>Flavors\<close>

record flavor_dialog =
  fd_open :: bool
  fd_selected :: string
  fd_updating :: bool
  fd_snackbar :: "(string \<times> string) option"

definition handleOpenFlavorDialog :: "vm_selection \<Rightarrow> flavor_dialog \<Rightarrow> flavor_dialog" where
  "handleOpenFlavorDialog s d = (if vs_selected s = [] then d else d \<lparr> fd_open := True \<rparr>)"

definition handleCloseFlavorDialog :: "flavor_dialog \<Rightarrow> flavor_dialog" where
  "handleCloseFlavorDialog d = d \<lparr> fd_open := False, fd_selected := [] \<rparr>"

definition AUTO_ASSIGN :: string where "AUTO_ASSIGN = ''auto-assign''"

definition flavor_name :: "OpenStackFlavor list \<Rightarrow> string \<Rightarrow> string" where
  "flavor_name flavors selected =
     (if selected = AUTO_ASSIGN then AUTO_ASSIGN
      else (case find (\<lambda>f. fl_id f = selected) flavors of Some f \<Rightarrow> fl_name f | None \<Rightarrow> selected))"

definition flavor_id :: "string \<Rightarrow> string" where
  "flavor_id selected = (if selected = AUTO_ASSIGN then [] else selected)"

definition flavored_row :: "OpenStackFlavor list \<Rightarrow> string \<Rightarrow> VmDataWithFlavor \<Rightarrow> VmDataWithFlavor" where
  "flavored_row flavors selected vm =
     vm \<lparr> vd_targetFlavorId := Some (flavor_id selected),
          vf_flavorName := Some (flavor_name flavors selected),
          vf_flavorNotFound := (if selected = AUTO_ASSIGN then vf_flavorNotFound vm else Some False) \<rparr>"

text \<open>What the handler reads when it is called, kept until the answers are there.\<close>

record flavor_call =
  fc_updatedVms :: "VmDataWithFlavor list"
  fc_selected :: "string list"
  fc_flavor :: string

definition flavor_patches :: "VmData list \<Rightarrow> string list \<Rightarrow> string \<Rightarrow> machine_patch list" where
  "flavor_patches vmList selected flavor =
     concat (map (\<lambda>vmId. case Option.bind (find (\<lambda>vm. vd_id vm = vmId) vmList) vd_vmWareMachineName of
                           None \<Rightarrow> []
                         | Some n \<Rightarrow> if n = [] then [] else [PatchFlavor n (flavor_id flavor)]) selected)"

definition flavor_start ::
  "vm_inputs \<Rightarrow> flavor_dialog \<Rightarrow> vm_selection \<Rightarrow> flavor_call option \<times> flavor_dialog \<times> vm_selection" where
  "flavor_start i d s =
     (if fd_selected d = [] then (None, handleCloseFlavorDialog d, s)
      else (let updated = map (\<lambda>vm. if vd_id vm \<in> set (vs_selected s)
                                     then flavored_row (ti_openstackFlavors i) (fd_selected d) vm else vm) (vs_rows s)
            in (Some \<lparr> fc_updatedVms = updated, fc_selected = vs_selected s, fc_flavor = fd_selected d \<rparr>,
                d \<lparr> fd_updating := True \<rparr>,
                s \<lparr> vs_formVms := Some (to_form (selected_rows updated (vs_selected s))),
                    vs_patches := vs_patches s @ flavor_patches (ti_vmList i) (vs_selected s) (fd_selected d) \<rparr>)))"

definition flavor_answer ::
  "flavor_call \<Rightarrow> bool \<Rightarrow> flavor_dialog \<times> vm_selection \<Rightarrow> flavor_dialog \<times> vm_selection" where
  "flavor_answer c accepted st =
     (let (d, s) = st in
      if accepted
      then (handleCloseFlavorDialog
              (d \<lparr> fd_snackbar := Some (''Successfully '' @
                     (if fc_flavor c = AUTO_ASSIGN then ''cleared flavor assignment for'' else ''assigned flavor to'') @
                     '' '' @ nat_str (length (fc_selected c)) @ '' VM'' @ (if length (fc_selected c) > 1 then ''s'' else []),
                     ''success''), fd_updating := False \<rparr>),
            s \<lparr> vs_rows := fc_updatedVms c, vs_formVms := Some (to_form (selected_rows (fc_updatedVms c) (fc_selected c))) \<rparr>)
      else (d \<lparr> fd_snackbar := Some (''Failed to assign flavor to VMs'', ''error''), fd_updating := False \<rparr>, s))"

section \<open>The rolling form\<close>

text \<open>There the machines are known by the names of their resources, and the rows live in the page.\<close>

record rolling_table =
  rt_rows :: "VM list"
  rt_osAssignments :: "string sobj"
  rt_patches :: "machine_patch list"

definition rolling_os_start :: "string \<Rightarrow> string \<Rightarrow> rolling_table \<Rightarrow> rolling_table" where
  "rolling_os_start vmId osFamily t =
     t \<lparr> rt_osAssignments := sobj_set vmId osFamily (rt_osAssignments t),
         rt_patches := rt_patches t @ [PatchOs vmId osFamily] \<rparr>"

definition rolling_os_answer :: "string \<Rightarrow> string \<Rightarrow> bool \<Rightarrow> rolling_table \<Rightarrow> rolling_table" where
  "rolling_os_answer vmId osFamily accepted t =
     (if accepted
      then t \<lparr> rt_rows := map (\<lambda>v. if vm_id v = vmId then v \<lparr> vm_osFamily := Some osFamily \<rparr> else v) (rt_rows t) \<rparr>
      else t \<lparr> rt_osAssignments := filter (\<lambda>(k, _). k \<noteq> vmId) (rt_osAssignments t) \<rparr>)"

definition rolling_flavored :: "OpenStackFlavor list \<Rightarrow> string \<Rightarrow> VM \<Rightarrow> VM" where
  "rolling_flavored flavors selected vm =
     vm \<lparr> vm_flavor := Some (flavor_name flavors selected), vm_targetFlavorId := Some (flavor_id selected) \<rparr>"

text \<open>One machine: the patch is awaited, then the rows of the call are written.\<close>

definition handleIndividualFlavorChange ::
  "OpenStackFlavor list \<Rightarrow> (machine_patch \<Rightarrow> bool) \<Rightarrow> string \<Rightarrow> string \<Rightarrow> rolling_table \<Rightarrow> rolling_table" where
  "handleIndividualFlavorChange flavors accepts vmId flavorValue t =
     (let p = PatchFlavor vmId (flavor_id flavorValue); t1 = t \<lparr> rt_patches := rt_patches t @ [p] \<rparr>
      in if accepts p
         then t1 \<lparr> rt_rows := map (\<lambda>vm. if vm_id vm = vmId then rolling_flavored flavors flavorValue vm else vm) (rt_rows t) \<rparr>
         else t1)"

text \<open>All chosen machines: every patch is sent, the rows are written only when all of them are accepted. The result says
  whether the machines are fetched again.\<close>

definition rolling_apply_flavor ::
  "OpenStackFlavor list \<Rightarrow> (machine_patch \<Rightarrow> bool) \<Rightarrow> string list \<Rightarrow> flavor_dialog \<times> rolling_table \<Rightarrow>
   bool \<times> flavor_dialog \<times> rolling_table" where
  "rolling_apply_flavor flavors accepts selected st =
     (let (d, t) = st; flavor = fd_selected d in
      if flavor = [] then (False, handleCloseFlavorDialog d, t)
      else (let patches = map (\<lambda>vmId. PatchFlavor vmId (flavor_id flavor)) selected;
                t1 = t \<lparr> rt_patches := rt_patches t @ patches \<rparr>;
                closed = handleCloseFlavorDialog d \<lparr> fd_updating := False \<rparr>
            in if list_all accepts patches
               then (True, closed,
                     t1 \<lparr> rt_rows := map (\<lambda>vm. if vm_id vm \<in> set selected then rolling_flavored flavors flavor vm else vm)
                                       (rt_rows t) \<rparr>)
               else (False, closed, t1)))"

text \<open>The effect that replaces the identifier of a flavor by its name.\<close>

definition rolling_named_flavor :: "OpenStackFlavor list \<Rightarrow> VM \<Rightarrow> VM" where
  "rolling_named_flavor flavors vm =
     (if str_truthy (vm_targetFlavorId vm)
      then (case find (\<lambda>f. Some (fl_id f) = vm_targetFlavorId vm) flavors of
              Some f \<Rightarrow> if vm_flavor vm \<noteq> Some (fl_name f) then vm \<lparr> vm_flavor := Some (fl_name f) \<rparr> else vm
            | None \<Rightarrow> vm)
      else vm)"

definition rolling_flavor_effect :: "OpenStackFlavor list \<Rightarrow> VM list \<Rightarrow> VM list" where
  "rolling_flavor_effect flavors vms =
     (if flavors = [] \<or> vms = [] then vms
      else (let updated = map (rolling_named_flavor flavors) vms
            in if list_ex (\<lambda>(vm, old). vm_flavor vm \<noteq> vm_flavor old) (zip updated vms) then updated else vms))"

definition rollingFilteredSelection :: "VM list \<Rightarrow> string list \<Rightarrow> string list" where
  "rollingFilteredSelection vms selected = filter (\<lambda>i. list_ex (\<lambda>vm. vm_id vm = i) vms) selected"

section \<open>Machines without an address\<close>

definition hasDiscoveredIp :: "string list \<Rightarrow> bool" where
  "hasDiscoveredIp ipAddress = list_ex (\<lambda>ip. js_trim ip \<noteq> []) ipAddress"

definition getMissingInterfaceIpWarnings :: "VmDataWithFlavor list \<Rightarrow> string list" where
  "getMissingInterfaceIpWarnings vms =
     js_uniq (map (\<lambda>vm. if vd_name vm \<noteq> [] then vd_name vm else if vd_id vm \<noteq> [] then vd_id vm else ''Unknown VM'')
       (filter (\<lambda>vm. list_ex (\<lambda>nic. \<not> hasDiscoveredIp (nic_ips nic)) (list_or (vd_networkInterfaces vm)))
         (filter (\<lambda>vm. vf_powerState vm = Some ''powered-on'' \<or> vd_vmState vm = Some ''running'') vms)))"

section \<open>What the form learns\<close>

text \<open>The effects of one render, and every history of the table: the inputs may change at each event. An address dialog
  replaces rows and keeps their identifiers.\<close>

definition flush :: "vm_inputs \<Rightarrow> vm_selection \<Rightarrow> vm_selection" where
  "flush i s = sync_effect i s (clean_effect i s s)"

definition opened_table :: "VmData list option \<Rightarrow> vm_selection" where
  "opened_table form =
     \<lparr> vs_rows = [], vs_selected = [], vs_lastVms = None, vs_lastRdm = None, vs_merged = False, vs_formVms = form,
       vs_formRdm = None, vs_osAssignments = [], vs_toast = None, vs_patches = [] \<rparr>"

inductive table_of :: "vm_selection \<Rightarrow> bool" where
  opened: "table_of (flush i (opened_table form))"
| rebuilt: "table_of s \<Longrightarrow> table_of (flush i (rebuild_effect i s))"
| closed: "table_of s \<Longrightarrow> table_of (flush i (close_effect open_form s))"
| chosen: "table_of s \<Longrightarrow> table_of (flush i (handleVmSelection i ids s))"
| edited: "table_of s \<Longrightarrow> map vd_id rows = map vd_id (vs_rows s) \<Longrightarrow> table_of (flush i (s \<lparr> vs_rows := rows \<rparr>))"
| os_assigned: "table_of s \<Longrightarrow> table_of (flush i (os_effect (os_assign vmId os s)))"
| os_answered: "table_of s \<Longrightarrow> table_of (flush i (os_effect (os_answer vmId failure s)))"
| retried: "table_of s \<Longrightarrow> table_of (flush i (auto_select_effect i s s))"
| prefilled: "table_of s \<Longrightarrow> table_of (flush i (prefill_effect i prefill s s))"
| flavored: "table_of s \<Longrightarrow> flavor_start i d s = (Some c, d', s') \<Longrightarrow>
    table_of (flush i (snd (flavor_answer c True (d', s'))))"

definition form_in_step :: "vm_selection \<Rightarrow> bool" where
  "form_in_step s =
     (vs_formVms s = Some (to_form (selected_rows (vs_rows s) (vs_selected s))) \<and>
      vs_lastVms s = Some (selected_rows (vs_rows s) (vs_selected s)) \<and>
      distinct (vs_selected s) \<and> (vs_rows s \<noteq> [] \<longrightarrow> set (vs_selected s) \<subseteq> set (row_ids (vs_rows s))))"

text \<open>The last payload is what the form holds, unless somebody else wrote to the form.\<close>

definition payload_known :: "vm_selection \<Rightarrow> bool" where
  "payload_known s = (case vs_lastVms s of None \<Rightarrow> True | Some v \<Rightarrow> vs_formVms s = Some (to_form v))"


lemma sync_vms_simps [simp]:
  "vs_rows (syncSelectedVmSelection vms s) = vs_rows s" "vs_selected (syncSelectedVmSelection vms s) = vs_selected s"
  "vs_lastVms (syncSelectedVmSelection vms s) = Some vms" "vs_merged (syncSelectedVmSelection vms s) = vs_merged s"
  "vs_osAssignments (syncSelectedVmSelection vms s) = vs_osAssignments s"
  "payload_known s \<Longrightarrow> vs_formVms (syncSelectedVmSelection vms s) = Some (to_form vms)"
  by (auto simp: syncSelectedVmSelection_def payload_known_def)

lemma sync_rdm_simps [simp]:
  "vs_rows (syncRdmConfigurations c s) = vs_rows s" "vs_selected (syncRdmConfigurations c s) = vs_selected s"
  "vs_lastVms (syncRdmConfigurations c s) = vs_lastVms s" "vs_formVms (syncRdmConfigurations c s) = vs_formVms s"
  "vs_osAssignments (syncRdmConfigurations c s) = vs_osAssignments s" "vs_merged (syncRdmConfigurations c s) = vs_merged s"
  by (simp_all add: syncRdmConfigurations_def)

lemma set_cleaned [simp]: "set (cleaned_selection rows selected) = set selected \<inter> set (row_ids rows)"
  by (auto simp: cleaned_selection_def)

lemma cleaned_selects: "selected_rows rows (cleaned_selection rows selected) = selected_rows rows selected"
  by (auto simp: selected_rows_def row_ids_def intro!: filter_cong)

lemma cleaned_equal_iff:
  "areSetsEqual (cleaned_selection rows selected) selected \<longleftrightarrow> set selected \<subseteq> set (row_ids rows)"
proof
  assume "areSetsEqual (cleaned_selection rows selected) selected"
  then have "length (filter (\<lambda>i. i \<in> set (row_ids rows)) selected) = length selected"
    by (simp add: areSetsEqual_def cleaned_selection_def)
  then show "set selected \<subseteq> set (row_ids rows)" by (auto simp: length_filter_conv_card length_filter_less
      dest: filter_id_conv [THEN iffD1, rotated] length_filter_less order.strict_implies_not_eq)
next
  assume "set selected \<subseteq> set (row_ids rows)"
  then have "cleaned_selection rows selected = selected" by (auto simp: cleaned_selection_def filter_id_conv)
  then show "areSetsEqual (cleaned_selection rows selected) selected" by (simp add: areSetsEqual_def list_all_iff)
qed

lemma flush_simps [simp]:
  "vs_rows (flush i s) = vs_rows s" "vs_osAssignments (flush i s) = vs_osAssignments s" "vs_merged (flush i s) = vs_merged s"
  "vs_selected (flush i s) = (if vs_rows s = [] then vs_selected s else cleaned_selection (vs_rows s) (vs_selected s))"
  "vs_lastVms (flush i s) = Some (selected_rows (vs_rows s) (vs_selected s))"
  "payload_known s \<Longrightarrow> vs_formVms (flush i s) = Some (to_form (selected_rows (vs_rows s) (vs_selected s)))"
proof -
  have same: "cleaned_selection (vs_rows s) (vs_selected s) = vs_selected s" if "set (vs_selected s) \<subseteq> set (row_ids (vs_rows s))"
    using that by (auto simp: cleaned_selection_def filter_id_conv)
  have known: "payload_known (clean_effect i s s)" if "payload_known s"
    using that by (auto simp: clean_effect_def payload_known_def Let_def syncSelectedVmSelection_def split: option.splits)
  show "vs_rows (flush i s) = vs_rows s" "vs_osAssignments (flush i s) = vs_osAssignments s" "vs_merged (flush i s) = vs_merged s"
    "vs_selected (flush i s) = (if vs_rows s = [] then vs_selected s else cleaned_selection (vs_rows s) (vs_selected s))"
    "vs_lastVms (flush i s) = Some (selected_rows (vs_rows s) (vs_selected s))"
    using same by (auto simp: flush_def sync_effect_def clean_effect_def Let_def cleaned_equal_iff)
  show "payload_known s \<Longrightarrow> vs_formVms (flush i s) = Some (to_form (selected_rows (vs_rows s) (vs_selected s)))"
    using known by (auto simp: flush_def sync_effect_def Let_def)
qed

lemma flush_in_step: "payload_known s \<Longrightarrow> distinct (vs_selected s) \<Longrightarrow> form_in_step (flush i s)"
  by (auto simp: form_in_step_def cleaned_selects) (simp_all add: cleaned_selection_def)

lemma event_in_step:
  assumes "form_in_step s" "vs_lastVms t = vs_lastVms s" "vs_formVms t = vs_formVms s"
    and "vs_selected t = vs_selected s \<or> distinct (vs_selected t)"
  shows "form_in_step (flush i t)"
  using assms by (intro flush_in_step) (auto simp: form_in_step_def payload_known_def)

lemma event_simps [simp]:
  "vs_lastVms (rebuild_effect i s) = vs_lastVms s" "vs_formVms (rebuild_effect i s) = vs_formVms s"
  "vs_selected (rebuild_effect i s) = vs_selected s"
  "vs_lastVms (os_effect s) = vs_lastVms s" "vs_formVms (os_effect s) = vs_formVms s" "vs_selected (os_effect s) = vs_selected s"
  "vs_lastVms (os_assign v os s) = vs_lastVms s" "vs_formVms (os_assign v os s) = vs_formVms s"
  "vs_selected (os_assign v os s) = vs_selected s"
  "vs_lastVms (os_answer v f s) = vs_lastVms s" "vs_formVms (os_answer v f s) = vs_formVms s"
  "vs_selected (os_answer v f s) = vs_selected s"
  "vs_lastVms (auto_select_effect i r s) = vs_lastVms s" "vs_formVms (auto_select_effect i r s) = vs_formVms s"
  "vs_lastVms (prefill_effect i p r s) = vs_lastVms s" "vs_formVms (prefill_effect i p r s) = vs_formVms s"
  "vs_selected (prefill_effect i p r s) = vs_selected s"
  by (simp_all add: rebuild_effect_def os_effect_def os_assign_def os_answer_def auto_select_effect_def prefill_effect_def
      split: option.split)

lemma chosen_known:
  assumes "payload_known s" "distinct (vs_selected s)"
  shows "payload_known (handleVmSelection i ids s) \<and> distinct (vs_selected (handleVmSelection i ids s))"
  using assms by (auto simp: handleVmSelection_def Let_def payload_known_def syncSelectedVmSelection_def)

lemma flavored_in_step:
  assumes "flavor_start i d s = (Some c, d', s')" "form_in_step s"
  shows "form_in_step (flush j (snd (flavor_answer c True (d', s'))))"
proof -
  let ?rows = "map (\<lambda>vm. if vd_id vm \<in> set (vs_selected s) then flavored_row (ti_openstackFlavors i) (fd_selected d) vm else vm) (vs_rows s)"
  let ?t = "snd (flavor_answer c True (d', s'))"
  have t: "vs_rows ?t = ?rows" "vs_selected ?t = vs_selected s" "vs_lastVms ?t = vs_lastVms s"
    "vs_formVms ?t = Some (to_form (selected_rows ?rows (vs_selected s)))"
    using assms(1) by (auto simp: flavor_start_def flavor_answer_def Let_def split: if_splits)
  have "vs_formVms (flush j ?t) = Some (to_form (selected_rows ?rows (vs_selected s)))"
    using t by (auto simp: flush_def sync_effect_def clean_effect_def Let_def syncSelectedVmSelection_def cleaned_selects)
  then show ?thesis
    using t assms(2) by (auto simp: form_in_step_def cleaned_selects) (simp_all add: cleaned_selection_def)
qed

lemma in_step_known: "form_in_step s \<Longrightarrow> payload_known s \<and> distinct (vs_selected s)"
  by (simp add: form_in_step_def payload_known_def)


text \<open>The effects settle: another render changes nothing.\<close>

lemma flush_settles:
  assumes "form_in_step s" "vs_lastRdm s = Some (ti_rdmConfigurations i)"
  shows "flush i s = s"
proof -
  have "clean_effect i s s = s" using assms(1) by (auto simp: clean_effect_def Let_def form_in_step_def cleaned_equal_iff)
  then show ?thesis
    using assms by (simp add: flush_def sync_effect_def Let_def syncSelectedVmSelection_def syncRdmConfigurations_def form_in_step_def)
qed

section \<open>Retry through the table\<close>

text \<open>The renders of a retry: the prefilled machine is in the form, the list of machines arrives, the rows are built, the
  machine is selected and the prefill is merged into its row, and the next render tells the form.\<close>

definition form_head :: "vm_selection \<Rightarrow> VmData option" where
  "form_head s = (case vs_formVms s of Some (v # _) \<Rightarrow> Some v | _ \<Rightarrow> None)"

definition retry_table :: "vm_inputs \<Rightarrow> vm_selection \<Rightarrow> vm_selection" where
  "retry_table i s =
     (let s1 = flush i (rebuild_effect i s)
      in flush i (prefill_effect i (form_head s1) s1 (auto_select_effect i s1 s1)))"

definition awaiting_machines :: "VmData \<Rightarrow> vm_selection" where
  "awaiting_machines prefill = (opened_table (Some [prefill])) \<lparr> vs_lastVms := Some [] \<rparr>"

lemma rebuilt_simps [simp]:
  "vd_id (rebuilt_row i e vm) = vd_id vm" "vd_name (rebuilt_row i e vm) = vd_name vm"
  "vd_networkInterfaces (rebuilt_row i None vm) = vd_networkInterfaces vm"
  "vd_preserveIp (rebuilt_row i None vm) = vd_preserveIp vm" "vd_preserveMac (rebuilt_row i None vm) = vd_preserveMac vm"
  by (simp_all add: rebuilt_row_def VmData.extend_def row_nics_def normalizeNetworkInterfaces_def kept_def comp_def
      option.map_comp split: option.split)

lemma flush_writes:
  "vs_lastVms s \<noteq> Some (selected_rows (vs_rows s) (vs_selected s)) \<Longrightarrow>
   vs_formVms (flush i s) = Some (to_form (selected_rows (vs_rows s) (vs_selected s)))"
  by (auto simp: flush_def sync_effect_def clean_effect_def Let_def syncSelectedVmSelection_def cleaned_selects)

lemma flush_selected:
  "vs_selected s = [x] \<Longrightarrow> x \<in> set (row_ids (vs_rows s)) \<Longrightarrow> vs_selected (flush i s) = [x]"
  by (simp add: flush_def sync_effect_def clean_effect_def Let_def cleaned_selection_def areSetsEqual_def)

lemma update_first_found:
  "find P xs = Some x \<Longrightarrow> distinct (map g xs) \<Longrightarrow> (\<And>y. g (f y) = g y) \<Longrightarrow>
   filter (\<lambda>y. g y = g x) (update_first P f xs) = [f x]"
proof (induction xs)
  case (Cons y ys)
  have none: "filter (\<lambda>y. g y = g x) ys = []" if "x = y"
    using that Cons.prems(2) by (auto simp: filter_empty_conv) (metis imageI)
  show ?case
  proof (cases "P y")
    case True
    then show ?thesis using Cons.prems none by simp
  next
    case False
    then have x: "find P ys = Some x" using Cons.prems(1) by simp
    then have "g y \<noteq> g x" using Cons.prems(2) by (auto dest: find_SomeD)
    then show ?thesis using False Cons.IH x Cons.prems(2,3) by simp
  qed
qed simp

lemma find_map: "find P (map f xs) = map_option f (find (P \<circ> f) xs)"
  by (induction xs) auto

lemma find_filter_map:
  "find P (map f (filter P xs)) = map_option f (find P xs)" if "\<And>x. P (f x) = P x"
  using that by (induction xs) auto

lemma retry_table_form:
  assumes retry: "ti_retryVmName i = Some n" "n \<noteq> []" and vm: "find (\<lambda>vm. vd_name vm = n) (ti_vmList i) = Some vm"
    and ids: "distinct (map vd_id (ti_vmList i))"
  shows "vs_formVms (retry_table i (awaiting_machines prefill)) =
     Some [VmData.truncate (merged_row prefill (rebuilt_row i None vm))] \<and>
     vs_selected (retry_table i (awaiting_machines prefill)) = [vd_id vm]"
proof -
  let ?s = "rebuild_effect i (awaiting_machines prefill)"
  let ?rows = "map (rebuilt_row i None) (ti_vmList i)"
  have rows: "vs_rows ?s = ?rows"
    by (simp add: rebuild_effect_def awaiting_machines_def opened_table_def existing_row_def)
  have nonempty: "?rows \<noteq> []" using vm by auto
  let ?s1 = "flush i ?s"
  have sel: "vs_selected ?s = []" "vs_lastVms ?s = Some []" "vs_formVms ?s = Some [prefill]"
    by (simp_all add: awaiting_machines_def opened_table_def)
  have s1: "vs_rows ?s1 = ?rows" "vs_selected ?s1 = []" "vs_formVms ?s1 = Some [prefill]" "\<not> vs_merged ?s1" "vs_lastVms ?s1 = Some []"
    using rows sel nonempty
    by (simp_all add: flush_def sync_effect_def clean_effect_def Let_def syncSelectedVmSelection_def selected_rows_def
        cleaned_selection_def areSetsEqual_def syncRdmConfigurations_def)
      (simp_all add: rebuild_effect_def awaiting_machines_def opened_table_def)
  have row: "find (\<lambda>vm. vd_name vm = n) ?rows = Some (rebuilt_row i None vm)" using vm by (simp add: find_map comp_def)
  have shown: "find (\<lambda>vm. vd_name vm = n) (displayVmsWithFlavor i ?rows) =
      Some ((rebuilt_row i None vm) \<lparr> vd_isMigrated := Some False \<rparr>)"
    using retry row by (simp add: displayVmsWithFlavor_def find_filter_map)
  let ?s2 = "prefill_effect i (form_head ?s1) ?s1 (auto_select_effect i ?s1 ?s1)"
  have s2: "vs_rows ?s2 = update_first (\<lambda>vm. vd_name vm = n) (merged_row prefill) ?rows" "vs_selected ?s2 = [vd_id vm]"
    "vs_lastVms ?s2 = Some []" "vs_formVms ?s2 = Some [prefill]"
    using retry s1 shown by (simp_all add: prefill_effect_def auto_select_effect_def form_head_def)
  have "selected_rows (vs_rows ?s2) (vs_selected ?s2) = [merged_row prefill (rebuilt_row i None vm)]"
    using update_first_found [OF row, of vd_id "merged_row prefill"] ids unfolding s2 selected_rows_def
    by (simp add: comp_def merged_row_def)
  note sel_rows = this
  then have "vs_lastVms ?s2 \<noteq> Some (selected_rows (vs_rows ?s2) (vs_selected ?s2))" unfolding s2(3) by simp
  from flush_writes [OF this, of i] have form2:
    "vs_formVms (flush i ?s2) = Some [VmData.truncate (merged_row prefill (rebuilt_row i None vm))]"
    by (simp only: sel_rows to_form_def list.map)
  have sel2: "vs_selected (flush i ?s2) = [vd_id vm]"
  proof -
    have "merged_row prefill (rebuilt_row i None vm) \<in> set (selected_rows (vs_rows ?s2) (vs_selected ?s2))"
      by (simp only: sel_rows list.set_intros)
    then have "merged_row prefill (rebuilt_row i None vm) \<in> set (vs_rows ?s2)"
      unfolding selected_rows_def by (rule filter_is_subset [THEN subsetD])
    moreover have "vd_id (merged_row prefill (rebuilt_row i None vm)) = vd_id vm" by (simp add: merged_row_def)
    ultimately have "vd_id vm \<in> set (row_ids (vs_rows ?s2))" unfolding row_ids_def by (metis image_eqI set_map)
    then show ?thesis by (rule flush_selected [OF s2(2)])
  qed
  show ?thesis unfolding retry_table_def Let_def using form2 sel2 by blast
qed

lemma merge_restored:
  assumes "distinct (map no_interfaceIndex (list_or ovs))" "vd_preserveIp raw = None"
  shows "mergeNicIpOverrides (list_or (vd_networkInterfaces raw)) (list_or (vd_networkInterfaces (restore_overrides ovs raw)))
           (list_or (vd_preserveIp (restore_overrides ovs raw))) =
         list_or (vd_networkInterfaces (restore_overrides ovs raw))"
proof (cases "nonempty_opt ovs")
  case True
  then obtain os where ovs: "ovs = Some os" "os \<noteq> []" by (cases ovs) auto
  then have d: "distinct (map no_interfaceIndex os)" using assms(1) by simp
  note r = restored_fields [OF ovs(2) d, of raw]
  show ?thesis
    unfolding ovs r(3) list_or_simps
  proof (rule nth_equalityI)
    fix k assume "k < length (mergeNicIpOverrides (list_or (vd_networkInterfaces raw)) (restored_nics os raw)
      (list_or (vd_preserveIp (restore_overrides (Some os) raw))))"
    then have k: "k < length (list_or (vd_networkInterfaces raw))" by (simp add: mergeNicIpOverrides_def)
    then show "mergeNicIpOverrides (list_or (vd_networkInterfaces raw)) (restored_nics os raw)
        (list_or (vd_preserveIp (restore_overrides (Some os) raw))) ! k = restored_nics os raw ! k"
      using override_nics_nth [OF d k] r(1) [of k]
      by (simp add: mergeNicIpOverrides_def nth_enumerate_eq restored_nics_def split: option.split)
  qed (simp add: mergeNicIpOverrides_def)
next
  case False
  then have "restore_overrides ovs raw = raw" by (simp add: restore_overrides_def)
  then show ?thesis using assms(2)
    by (auto simp: mergeNicIpOverrides_def intro!: nth_equalityI simp: nth_enumerate_eq)
qed

lemma vm_overrides_cong:
  "list_or (vd_preserveIp v) = list_or (vd_preserveIp w) \<Longrightarrow> list_or (vd_preserveMac v) = list_or (vd_preserveMac w) \<Longrightarrow>
   list_or (vd_networkInterfaces v) = list_or (vd_networkInterfaces w) \<Longrightarrow> vm_overrides v = vm_overrides w"
  unfolding vm_overrides_def override_indices_def override_at_def [abs_def] nicAssignedIps_def by (simp only:)

text \<open>C18: a retry carries the overrides of the failed plan through the table. The prefill is in the form before the list of
  machines arrives; then the rows are built and synchronized, and the machine is selected and merged with the prefill. At the
  end the machine of the retry is the whole selection, the form holds it alone, and the overrides it would be submitted
  with are those of the failed plan (one that neither preserved nor assigned an address assigns the address of the inventory, if
  there is one) beside overrides that preserve everything for the other interfaces with an address. The list and the prefill
  show the same interfaces, without choices of their own, the identifiers of the list are different, and the overrides of
  the plan are as in the round trip of the overrides.\<close>

theorem retry_overrides_reach_form:
  assumes "ti_retryVmName i = Some n" "n \<noteq> []" "find (\<lambda>vm. vd_name vm = n) (ti_vmList i) = Some vm"
    and "distinct (map vd_id (ti_vmList i))"
    and "ovs \<noteq> []" "distinct (map no_interfaceIndex ovs)"
    and "list_all (override_written (list_or (vd_networkInterfaces vm))) ovs"
    and "vd_networkInterfaces raw = vd_networkInterfaces vm"
    and "vd_preserveIp raw = None" "vd_preserveMac raw = None" "vd_preserveIp vm = None" "vd_preserveMac vm = None"
  shows "vs_selected (retry_table i (awaiting_machines (restore_overrides (Some ovs) raw))) = [vd_id vm] \<and>
     (\<exists>f. vs_formVms (retry_table i (awaiting_machines (restore_overrides (Some ovs) raw))) = Some [f] \<and>
          vd_id f = vd_id vm \<and>
          set (vm_overrides f) = retried_override (list_or (vd_networkInterfaces vm)) ` set ovs \<union>
            default_override ` {i. i < length (list_or (vd_networkInterfaces vm)) \<and>
              nic_assigned (list_or (vd_networkInterfaces vm) ! i) \<noteq> [] \<and> i \<notin> no_interfaceIndex ` set ovs})"
proof -
  let ?f = "VmData.truncate (merged_row (restore_overrides (Some ovs) raw) (rebuilt_row i None vm))"
  have "vm_overrides ?f = vm_overrides (restore_overrides (Some ovs) raw)"
    using merge_restored [of "Some ovs" raw] assms(6,8-12)
    by (intro vm_overrides_cong) (simp_all add: VmData.truncate_def merged_row_def split: option.split)
  moreover have "vd_id ?f = vd_id vm" by (simp add: VmData.truncate_def merged_row_def)
  ultimately show ?thesis
    using retry_table_form [OF assms(1-4)] retry_overrides_set [of ovs raw] assms(5-8) by auto
qed

definition retry_inputs :: "VmData list \<Rightarrow> vm_inputs" where
  "retry_inputs vms =
     \<lparr> ti_vmList = vms, ti_migratedVms = [''web-12''], ti_openstackFlavors = [], ti_openstackCredName = None,
       ti_retryVmName = Some ''web'', ti_rdmConfigurations = [] \<rparr>"

theorem retry_overrides_reach_form_witness:
  "\<exists>f. vs_formVms (retry_table (retry_inputs [blank_vm ''db-1'' ''db'', sample_retry_vm])
          (awaiting_machines (restore_overrides (Some sample_overrides) sample_retry_vm))) = Some [f] \<and>
       vd_id f = ''web-12'' \<and> set sample_overrides \<subseteq> set (vm_overrides f)"
proof -
  have ok: "list_all (override_written (list_or (vd_networkInterfaces sample_retry_vm))) sample_overrides" by code_simp
  have id: "vd_id sample_retry_vm = ''web-12''" by code_simp
  show ?thesis
    using retry_overrides_reach_form [of "retry_inputs [blank_vm ''db-1'' ''db'', sample_retry_vm]" "''web''" sample_retry_vm
        sample_overrides sample_retry_vm, OF _ _ _ _ _ _ ok] id
    by (auto simp: retry_inputs_def sample_retry_vm_def blank_vm_def sample_overrides_def retried_override_def)
qed

text \<open>the table looks for the retried machine by its name. Of two machines with one name it takes the first of the list,
  whichever was prefilled: the retry of the other then migrates the first, with the overrides of the other.\<close>

theorem retry_takes_first_namesake:
  assumes "ti_retryVmName i = Some n" "n \<noteq> []" "ti_vmList i = xs @ vm # ys" "n \<notin> vd_name ` set xs" "vd_name vm = n"
    and "other \<in> set ys" "vd_name other = n" "distinct (map vd_id (ti_vmList i))"
    and "prefill = restore_overrides (Some ovs) other" "ovs \<noteq> []"
  shows "\<exists>f. vs_formVms (retry_table i (awaiting_machines prefill)) = Some [f] \<and> vd_id f = vd_id vm \<and>
             vd_id f \<noteq> vd_id prefill \<and> vd_preserveIp f = vd_preserveIp prefill"
proof -
  have "find (\<lambda>vm. vd_name vm = n) (xs @ vm # ys) = Some vm"
    using assms(4,5) by (induction xs) auto
  then have found: "find (\<lambda>vm. vd_name vm = n) (ti_vmList i) = Some vm" using assms(3) by simp
  have "vd_id other = vd_id prefill" "vd_preserveIp prefill \<noteq> None"
    using assms(9,10) by (auto simp: restore_overrides_def nonempty_opt_def)
  moreover have "vd_id vm \<noteq> vd_id other" using assms(3,6,8) by auto
  ultimately show ?thesis
    using retry_table_form [OF assms(1,2) found assms(8)] by (auto simp: VmData.truncate_def merged_row_def split: option.split)
qed

definition namesake :: VmData where
  "namesake = sample_retry_vm \<lparr> vd_id := ''web-77'' \<rparr>"

theorem retry_takes_first_namesake_witness:
  "\<exists>f. vs_formVms (retry_table (retry_inputs [namesake, sample_retry_vm])
          (awaiting_machines (restore_overrides (Some sample_overrides) sample_retry_vm))) = Some [f] \<and> vd_id f = ''web-77'' \<and>
       vd_preserveIp f = Some [(1, False)]"
proof -
  have names: "vd_name namesake = ''web''" "vd_name sample_retry_vm = ''web''" "vd_id namesake = ''web-77''"
    "vd_id sample_retry_vm = ''web-12''"
    by (simp_all add: namesake_def sample_retry_vm_def blank_vm_def)
  have flags: "vd_preserveIp (restore_overrides (Some sample_overrides) sample_retry_vm) = Some [(1, False)]" by code_simp
  have some: "sample_overrides \<noteq> []" by (simp add: sample_overrides_def)
  show ?thesis
    using retry_takes_first_namesake [of "retry_inputs [namesake, sample_retry_vm]" "''web''" "[]" namesake "[sample_retry_vm]"
        sample_retry_vm _ sample_overrides, OF _ _ _ _ _ _ _ _ refl] names flags some
    by (auto simp: retry_inputs_def)
qed

section \<open>Assignments that the server refuses\<close>

lemma existing_row_unique:
  assumes "distinct (row_ids rows)" "row \<in> set rows"
  shows "existing_row rows (vd_id row) = Some row"
proof -
  have "distinct (map fst (rev (map (\<lambda>vm. (vd_id vm, vm)) rows)))"
    using assms(1) by (simp add: row_ids_def rev_map [symmetric] comp_def)
  then show ?thesis
    unfolding existing_row_def by (rule map_of_is_SomeI) (use assms(2) in \<open>force\<close>)
qed

text \<open>a refused assignment of an operating system leaves its row with the refused value, although the record of the
  assignment is dropped: a machine whose system was not known passes the check of the form, and a refresh keeps it.\<close>

theorem refused_os_stays:
  fixes s :: vm_selection and msg :: string
  assumes "vm \<in> set (vs_rows s)" "os \<noteq> []" "os \<noteq> ''Unknown''" "js_trim os \<noteq> []"
  defines "t \<equiv> os_effect (os_answer (vd_id vm) (Some msg) (os_effect (os_assign (vd_id vm) os s)))"
  shows "map_of (vs_osAssignments t) (vd_id vm) = None \<and>
     (\<exists>row \<in> set (vs_rows t). vd_id row = vd_id vm \<and> vd_osFamily row = Some os \<and> \<not> os_missing (VmData.truncate row)) \<and>
     (\<forall>i new. distinct (row_ids (vs_rows s)) \<longrightarrow> vd_id new = vd_id vm \<longrightarrow> new \<in> set (ti_vmList i) \<longrightarrow>
        (\<exists>row \<in> set (vs_rows (rebuild_effect i t)). vd_id row = vd_id vm \<and> vd_osFamily row = Some os))"
proof -
  let ?s1 = "os_effect (os_assign (vd_id vm) os s)"
  let ?f = "\<lambda>m row. case map_of m (vd_id row) of Some os \<Rightarrow> row \<lparr> vd_osFamily := Some os \<rparr> | None \<Rightarrow> row"
  have assigned: "vs_osAssignments ?s1 = sobj_set (vd_id vm) os (vs_osAssignments s)"
    "vs_rows ?s1 = map (?f (sobj_set (vd_id vm) os (vs_osAssignments s))) (vs_rows s)"
    by (simp_all add: os_effect_def os_assign_def)
  let ?left = "filter (\<lambda>(k, _). k \<noteq> vd_id vm) (vs_osAssignments ?s1)"
  have dropped: "map_of ?left (vd_id vm) = None" by (auto simp: map_of_eq_None_iff)
  have t: "vs_osAssignments t = ?left" "vs_rows t = map (?f ?left) (vs_rows ?s1)"
    by (auto simp: t_def os_effect_def os_answer_def intro!: map_idI [symmetric])
  define row where "row = ?f ?left (?f (sobj_set (vd_id vm) os (vs_osAssignments s)) vm)"
  have "row = vm \<lparr> vd_osFamily := Some os \<rparr>" using dropped by (simp add: row_def)
  moreover have "row \<in> set (vs_rows t)"
    unfolding t(2) assigned(2) set_map row_def by (intro imageI assms(1))
  ultimately have row: "vd_id row = vd_id vm" "vd_osFamily row = Some os" "row \<in> set (vs_rows t)" by simp_all
  have "vd_osFamily (rebuilt_row i (existing_row (vs_rows t) (vd_id new)) new) = Some os"
    if "distinct (row_ids (vs_rows s))" "vd_id new = vd_id vm" for i new
  proof -
    have "map vd_id (vs_rows t) = map vd_id (vs_rows s)"
      unfolding t(2) assigned(2) by (auto split: option.split)
    then have "existing_row (vs_rows t) (vd_id new) = Some row"
      using existing_row_unique [of "vs_rows t" row] that row by (simp add: row_ids_def)
    then show ?thesis using row by (simp add: rebuilt_row_def VmData.extend_def kept_def)
  qed
  moreover have "\<not> os_missing (VmData.truncate row)"
    using row assms(2-4) by (simp add: os_missing_def VmData.truncate_def)
  ultimately show ?thesis using row dropped t(1) by (fastforce simp: rebuild_effect_def)
qed

definition sample_row :: "string \<Rightarrow> VmDataWithFlavor" where
  "sample_row i =
     VmData.extend ((blank_vm i i) \<lparr> vd_vmWareMachineName := Some i, vd_targetFlavorId := Some ''old'' \<rparr>)
       (VmDataWithFlavor.fields None None None None None None)"

definition sample_table :: vm_selection where
  "sample_table = (opened_table (Some [VmData.truncate (sample_row ''a'')]))
     \<lparr> vs_rows := [sample_row ''a'', sample_row ''b''], vs_selected := [''a''], vs_lastVms := Some [sample_row ''a''] \<rparr>"

theorem refused_os_stays_witness:
  "\<exists>row \<in> set (vs_rows (os_effect (os_answer ''a'' (Some ''denied'') (os_effect (os_assign ''a'' ''linuxGuest'' sample_table))))).
     vd_id row = ''a'' \<and> vd_osFamily row = Some ''linuxGuest''"
proof -
  have a: "vd_id (sample_row ''a'') = ''a''" "sample_row ''a'' \<in> set (vs_rows sample_table)"
    by (simp_all add: sample_row_def blank_vm_def VmData.extend_def sample_table_def)
  have "js_trim ''linuxGuest'' \<noteq> []" by code_simp
  with refused_os_stays [OF a(2), of "''linuxGuest''" "''denied''"] show ?thesis unfolding a(1) by fastforce
qed

text \<open>a flavor that the server refuses stays in the form. The handler tells the form before it asks the server; after the
  refusal the table shows the old flavor, the form holds the new one, and no effect of a later render repairs it.\<close>

theorem refused_flavor_stays_in_form:
  assumes "form_in_step s" "flavor_start i d s = (Some c, d', s')" "vm \<in> set (vs_rows s)" "vd_id vm \<in> set (vs_selected s)"
    and "vd_targetFlavorId vm \<noteq> Some (flavor_id (fd_selected d))" "ti_rdmConfigurations i = []"
  defines "t \<equiv> snd (flavor_answer c False (d', s'))"
  shows "vs_rows t = vs_rows s \<and> flush i t = t \<and> \<not> form_in_step t \<and>
     (\<forall>f \<in> set (list_or (vs_formVms t)). vd_targetFlavorId f = Some (flavor_id (fd_selected d)))"
proof -
  let ?g = "\<lambda>vm. if vd_id vm \<in> set (vs_selected s) then flavored_row (ti_openstackFlavors i) (fd_selected d) vm else vm"
  have t: "vs_rows t = vs_rows s" "vs_selected t = vs_selected s" "vs_lastVms t = vs_lastVms s"
    "vs_formVms t = Some (to_form (selected_rows (map ?g (vs_rows s)) (vs_selected s)))"
    using assms(2) by (auto simp: t_def flavor_start_def flavor_answer_def Let_def split: if_splits)
  have flavors: "\<forall>f \<in> set (list_or (vs_formVms t)). vd_targetFlavorId f = Some (flavor_id (fd_selected d))"
    unfolding t by (auto simp: to_form_def selected_rows_def VmData.truncate_def flavored_row_def)
  have settled: "flush i t = t"
    using assms(1,6) t by (auto simp: flush_def sync_effect_def clean_effect_def Let_def syncSelectedVmSelection_def
        form_in_step_def cleaned_equal_iff)
  have "\<not> form_in_step t"
  proof
    assume "form_in_step t"
    then have "list_or (vs_formVms t) = to_form (selected_rows (vs_rows s) (vs_selected s))"
      using t by (simp add: form_in_step_def)
    moreover have "VmData.truncate vm \<in> set (to_form (selected_rows (vs_rows s) (vs_selected s)))"
      using assms(3,4) by (auto simp: to_form_def selected_rows_def)
    ultimately show False using flavors assms(5) by (auto simp: VmData.truncate_def)
  qed
  with t(1) settled flavors show ?thesis by blast
qed

theorem refused_flavor_stays_in_form_witness:
  "let st = flavor_start ((retry_inputs []) \<lparr> ti_retryVmName := None \<rparr>)
              \<lparr> fd_open = True, fd_selected = ''new'', fd_updating = False, fd_snackbar = None \<rparr> sample_table;
       t = snd (flavor_answer (the (fst st)) False (snd st))
   in vs_rows t = vs_rows sample_table \<and> map vd_targetFlavorId (list_or (vs_formVms t)) = [Some ''new'']"
proof -
  let ?i = "(retry_inputs []) \<lparr> ti_retryVmName := None \<rparr>"
  let ?d = "\<lparr> fd_open = True, fd_selected = ''new'', fd_updating = False, fd_snackbar = None \<rparr>"
  have a: "sample_row ''a'' \<in> set (vs_rows sample_table)" "vd_id (sample_row ''a'') \<in> set (vs_selected sample_table)"
    "vd_targetFlavorId (sample_row ''a'') \<noteq> Some (flavor_id (fd_selected ?d))" "ti_rdmConfigurations ?i = []"
    by (simp_all add: sample_row_def blank_vm_def VmData.extend_def sample_table_def flavor_id_def AUTO_ASSIGN_def retry_inputs_def)
  have step: "form_in_step sample_table"
    by (simp add: form_in_step_def sample_table_def opened_table_def selected_rows_def to_form_def row_ids_def sample_row_def
        blank_vm_def VmData.extend_def)
  obtain c d' s' where st: "flavor_start ?i ?d sample_table = (Some c, d', s')" by (simp add: flavor_start_def Let_def)
  have "map vd_targetFlavorId (list_or (vs_formVms (snd (flavor_answer c False (d', s'))))) = [Some ''new'']"
    using st by (auto simp: flavor_start_def flavor_answer_def Let_def sample_table_def opened_table_def selected_rows_def
        to_form_def sample_row_def blank_vm_def VmData.extend_def VmData.truncate_def flavored_row_def flavor_id_def AUTO_ASSIGN_def)
  with refused_flavor_stays_in_form [OF step st a] show ?thesis by (simp add: st Let_def)
qed

section \<open>Refreshing the table\<close>

lemma normalized_id [simp]:
  "normalizeNetworkInterfaces (map_option (map (\<lambda>nic. (nic, IpArray (nic_ips nic)))) nics) = nics"
  by (simp add: normalizeNetworkInterfaces_def comp_def option.map_comp split: option.split)

lemma row_nics_eq:
  "row_nics existing vm =
     (case existing of
        Some e \<Rightarrow> if nonempty_opt (vd_networkInterfaces e) then vd_networkInterfaces e else vd_networkInterfaces vm
      | None \<Rightarrow> vd_networkInterfaces vm)"
  by (simp add: row_nics_def)

text \<open>a refresh takes power state, flavor and migration state from the server, and keeps what the operator assigned to a
  known machine. Addresses and interfaces that were once shown are kept as well, even when the server reports others.\<close>

theorem refresh_keeps_assignments:
  assumes "distinct (row_ids (vs_rows s))" "row \<in> set (vs_rows s)" "new \<in> set (ti_vmList i)" "vd_id new = vd_id row"
  shows "\<exists>row' \<in> set (vs_rows (rebuild_effect i s)). vd_id row' = vd_id row \<and>
     vf_flavor row' = Some (row_flavor (ti_openstackFlavors i) new) \<and> vd_vmState row' = vd_vmState new \<and>
     (vd_osFamily row \<noteq> None \<longrightarrow> vd_osFamily row' = vd_osFamily row) \<and>
     (vd_preserveIp row \<noteq> None \<longrightarrow> vd_preserveIp row' = vd_preserveIp row) \<and>
     (vd_preserveMac row \<noteq> None \<longrightarrow> vd_preserveMac row' = vd_preserveMac row) \<and>
     (nonempty_opt (vd_networkInterfaces row) \<longrightarrow> vd_networkInterfaces row' = vd_networkInterfaces row) \<and>
     (str_truthy (vd_ipAddress row) \<and> vd_ipAddress row \<noteq> Some em_dash \<longrightarrow> vd_ipAddress row' = vd_ipAddress row)"
proof -
  let ?row = "rebuilt_row i (Some row) new"
  have "?row \<in> set (vs_rows (rebuild_effect i s))"
    using existing_row_unique [OF assms(1,2)] assms(3,4) by (force simp: rebuild_effect_def)
  moreover have "vd_ipAddress ?row = vd_ipAddress row" if "str_truthy (vd_ipAddress row)" "vd_ipAddress row \<noteq> Some em_dash"
    using that by (cases "vd_ipAddress row") (auto simp: rebuilt_row_def VmData.extend_def row_ips_def)
  moreover have "vd_networkInterfaces ?row = vd_networkInterfaces row" if "nonempty_opt (vd_networkInterfaces row)"
    using that by (simp add: rebuilt_row_def VmData.extend_def row_nics_eq)
  moreover have "vd_id ?row = vd_id row" "vf_flavor ?row = Some (row_flavor (ti_openstackFlavors i) new)"
    "vd_vmState ?row = vd_vmState new" "vd_osFamily row \<noteq> None \<longrightarrow> vd_osFamily ?row = vd_osFamily row"
    "vd_preserveIp row \<noteq> None \<longrightarrow> vd_preserveIp ?row = vd_preserveIp row"
    "vd_preserveMac row \<noteq> None \<longrightarrow> vd_preserveMac ?row = vd_preserveMac row"
    using assms(4) by (auto simp: rebuilt_row_def VmData.extend_def VmDataWithFlavor.fields_def kept_def split: option.split)
  ultimately show ?thesis by blast
qed

theorem refresh_keeps_assignments_witness:
  "\<exists>row' \<in> set (vs_rows (rebuild_effect (retry_inputs [(blank_vm ''a'' ''a'') \<lparr> vd_ipAddress := Some ''10.0.0.9'' \<rparr>])
       (sample_table \<lparr> vs_rows := [sample_row ''a'' \<lparr> vd_ipAddress := Some ''10.0.0.4'' \<rparr>] \<rparr>))).
     vd_id row' = ''a'' \<and> vd_ipAddress row' = Some ''10.0.0.4''"
proof -
  let ?row = "sample_row ''a'' \<lparr> vd_ipAddress := Some ''10.0.0.4'' \<rparr>"
  let ?new = "(blank_vm ''a'' ''a'') \<lparr> vd_ipAddress := Some ''10.0.0.9'' \<rparr>"
  have "vd_id ?row = ''a''" "vd_id ?new = ''a''" "vd_ipAddress ?row = Some ''10.0.0.4''"
    by (simp_all add: sample_row_def blank_vm_def VmData.extend_def)
  then show ?thesis
    using refresh_keeps_assignments [of "sample_table \<lparr> vs_rows := [?row] \<rparr>" ?row ?new "retry_inputs [?new]"]
    by (fastforce simp: row_ids_def retry_inputs_def em_dash_def)
qed

text \<open>Rebuilding twice is rebuilding once: a render that fires the effect again changes nothing.\<close>

lemma rebuilt_row_cong:
  "row_ips e vm = row_ips e' vm \<Longrightarrow> row_nics e vm = row_nics e' vm \<Longrightarrow>
   kept vd_osFamily e (vd_osFamily vm) = kept vd_osFamily e' (vd_osFamily vm) \<Longrightarrow>
   kept vd_preserveIp e (vd_preserveIp vm) = kept vd_preserveIp e' (vd_preserveIp vm) \<Longrightarrow>
   kept vd_preserveMac e (vd_preserveMac vm) = kept vd_preserveMac e' (vd_preserveMac vm) \<Longrightarrow>
   rebuilt_row i e vm = rebuilt_row i e' vm"
  by (simp add: rebuilt_row_def)

lemma rebuilt_twice: "rebuilt_row i (Some (rebuilt_row i e vm)) vm = rebuilt_row i e vm"
proof -
  have "row_ips (Some (rebuilt_row i e vm)) vm = row_ips e vm"
    by (cases e; cases "vd_ipAddress (the e)")
      (auto simp: row_ips_def rebuilt_row_def VmData.extend_def em_dash_def split: if_splits)
  moreover have "row_nics (Some (rebuilt_row i e vm)) vm = row_nics e vm"
    by (auto simp: row_nics_eq rebuilt_row_def VmData.extend_def split: option.split)
  moreover have "kept vd_osFamily (Some (rebuilt_row i e vm)) (vd_osFamily vm) = kept vd_osFamily e (vd_osFamily vm)"
    "kept vd_preserveIp (Some (rebuilt_row i e vm)) (vd_preserveIp vm) = kept vd_preserveIp e (vd_preserveIp vm)"
    "kept vd_preserveMac (Some (rebuilt_row i e vm)) (vd_preserveMac vm) = kept vd_preserveMac e (vd_preserveMac vm)"
    by (auto simp: kept_def rebuilt_row_def VmData.extend_def split: option.split)
  ultimately show ?thesis by (rule rebuilt_row_cong)
qed

lemma rebuild_idempotent:
  assumes "distinct (map vd_id (ti_vmList i))"
  shows "rebuild_effect i (rebuild_effect i s) = rebuild_effect i s"
proof -
  let ?rows = "vs_rows (rebuild_effect i s)"
  have "distinct (row_ids ?rows)" using assms by (simp add: row_ids_def rebuild_effect_def comp_def)
  then have "existing_row ?rows (vd_id vm) = Some (rebuilt_row i (existing_row (vs_rows s) (vd_id vm)) vm)"
    if "vm \<in> set (ti_vmList i)" for vm
    using that existing_row_unique [of ?rows "rebuilt_row i (existing_row (vs_rows s) (vd_id vm)) vm"]
    by (simp add: rebuild_effect_def)
  then show ?thesis unfolding rebuild_effect_def [of i "rebuild_effect i s"]
    by (simp add: rebuilt_twice rebuild_effect_def cong: map_cong)
qed

lemma rolling_os_refusal_restores:
  "rt_rows (rolling_os_answer vmId os False (rolling_os_start vmId os t)) = rt_rows t \<and>
   map_of (rt_osAssignments (rolling_os_answer vmId os False (rolling_os_start vmId os t))) vmId = None"
  by (auto simp: rolling_os_answer_def rolling_os_start_def map_of_eq_None_iff)

text \<open>In the rolling form one refused flavor of many keeps every row: the accepted ones are written to their machines and not shown.\<close>

lemma partly_refused_flavor_unseen:
  assumes "fd_selected d \<noteq> []" "vmId \<in> set selected" "\<not> accepts (PatchFlavor vmId (flavor_id (fd_selected d)))"
  shows "\<exists>d' t'. rolling_apply_flavor flavors accepts selected (d, t) = (False, d', t') \<and> rt_rows t' = rt_rows t \<and>
     \<not> fd_open d' \<and> (\<forall>m \<in> set selected. PatchFlavor m (flavor_id (fd_selected d)) \<in> set (rt_patches t'))"
  using assms by (force simp: rolling_apply_flavor_def Let_def list_all_iff handleCloseFlavorDialog_def)

lemma rolling_flavor_effect_idem: "rolling_flavor_effect flavors (rolling_flavor_effect flavors vms) = rolling_flavor_effect flavors vms"
proof -
  have named: "rolling_named_flavor flavors (rolling_named_flavor flavors vm) = rolling_named_flavor flavors vm" for vm
    by (auto simp: rolling_named_flavor_def split: option.split)
  show ?thesis by (simp add: rolling_flavor_effect_def Let_def named comp_def)
qed

text \<open>Two machines are listed and both rows are ticked.\<close>

definition two_ticked :: vm_selection where
  "two_ticked =
     (let i = retry_inputs [blank_vm ''db-1'' ''db'', sample_retry_vm]
      in flush i (handleVmSelection i [''db-1'', ''web-12''] (flush i (rebuild_effect i (flush i (opened_table None))))))"


end
