(* ===== verification/Subnet_Check.thy ===== *)
theory Subnet_Check
  imports Vm_Selection
begin

text \<open>
  The check that the addresses of the chosen machines lie in the subnets of the networks they are mapped to:
  \<open>ui/src/features/migration/hooks/useNetworkIPsMap.ts\<close> (the addresses behind every network) and
  \<open>useNetworkSubnetCompatibility.ts\<close> (the requests, made after a pause, whose answers may arrive late and in any
  order). The state holds the timer that runs and the batches in flight, each with the values of the render that
  started it; the answers of the server are an argument. An event is the effect of a render whose inputs changed,
  the timer, or the end of a batch.
\<close>

section \<open>useNetworkIPsMap\<close>

text \<open>\<open>Map.set\<close>: an entry keeps its place, a new one is last.\<close>

abbreviation map_set :: "string \<Rightarrow> 'v \<Rightarrow> 'v sobj \<Rightarrow> 'v sobj" where
  "map_set \<equiv> obj_set (\<lambda>_ _. False)"

definition used_nics :: "VmData \<Rightarrow> string \<Rightarrow> vm_nic list" where
  "used_nics vm network =
     (let matching = filter (\<lambda>nic. nic_network nic = network) (list_or (vd_networkInterfaces vm))
      in if matching \<noteq> [] then matching else list_or (vd_networkInterfaces vm))"

definition vm_network_ips :: "VmData \<Rightarrow> string \<Rightarrow> string list" where
  "vm_network_ips vm network =
     (if nonempty_opt (vd_networkInterfaces vm)
      then concat (map (\<lambda>nic. if nic_preserve_ip nic \<noteq> Some False
                              then filter (\<lambda>ip. ip \<noteq> [] \<and> js_trim ip \<noteq> []) (nic_ips nic) else [])
                     (used_nics vm network))
      else []) @
     (if str_truthy (vd_ipAddress vm) \<and> vd_ipAddress vm \<noteq> Some em_dash \<and> js_trim (the (vd_ipAddress vm)) \<noteq> []
      then filter (\<lambda>ip. ip \<noteq> []) (map js_trim (split_on (CHR '','') (the (vd_ipAddress vm))))
      else [])"

definition machine_networks :: "VmData list \<Rightarrow> (VmData \<times> string) list" where
  "machine_networks vms = concat (map (\<lambda>vm. map (Pair vm) (list_or (vd_networks vm))) vms)"

definition add_network_ips :: "VmData \<times> string \<Rightarrow> string list sobj \<Rightarrow> string list sobj" where
  "add_network_ips entry m =
     (let (vm, network) = entry; ips = list_or (map_of m network) @ vm_network_ips vm network
      in if ips \<noteq> [] then map_set network ips m else m)"

definition useNetworkIPsMap :: "VmData list \<Rightarrow> string list sobj" where
  "useNetworkIPsMap vms = obj_map js_uniq (fold add_network_ips (machine_networks vms) [])"

section \<open>useNetworkSubnetCompatibility\<close>

record subnet_result =
  sr_results :: "(string \<times> bool) list"
  sr_subnet_cidrs :: "string list option"
  sr_all_compatible :: bool

record subnet_request =
  sq_ips :: "string list"
  sq_network_name :: string
  sq_creds_name :: string
  sq_creds_namespace :: "string option"

text \<open>\<open>None\<close> is a request that fails.\<close>

type_synonym subnet_server = "subnet_request \<Rightarrow> subnet_result option"

record subnet_inputs =
  su_mappings :: "ResourceMap list"
  su_credName :: "string option"
  su_credsNamespace :: "string option"
  su_selectedVMs :: "VmData list"
  su_networkIPsMap :: "string list sobj"
  su_openstackNetworks :: "PCDNetworkInfo list"

definition completeMappings :: "subnet_inputs \<Rightarrow> ResourceMap list" where
  "completeMappings i = filter (\<lambda>m. rm_source m \<noteq> [] \<and> rm_target m \<noteq> []) (su_mappings i)"

definition mapping_ips :: "subnet_inputs \<Rightarrow> ResourceMap \<Rightarrow> string list" where
  "mapping_ips i m = list_or (map_of (su_networkIPsMap i) (rm_source m))"

definition isL2Network :: "subnet_inputs \<Rightarrow> ResourceMap \<Rightarrow> bool" where
  "isL2Network i m =
     list_ex (\<lambda>n. pn_name n = rm_target m \<and> ''simple_network'' \<in> set (pn_tags n)) (su_openstackNetworks i)"

definition mismatch_message :: "ResourceMap \<Rightarrow> subnet_result \<Rightarrow> string" where
  "mismatch_message m r =
     (let bad = map fst (filter (\<lambda>(ip, ok). \<not> ok) (sr_results r));
          cidrs = (if nonempty_opt (sr_subnet_cidrs r) then '' ('' @ js_join '', '' (list_or (sr_subnet_cidrs r)) @ '')'' else [])
      in nat_str (length bad) @ '' IP address(es) of the selected VMs ['' @ js_join '', '' bad @
         ''] do not lie within the subnet of destination network '' @ rm_target m @ '' '' @ cidrs @ ''. '' @
         ''Ensure fallback to DHCP is enabled, otherwise it may lead to migration failures'')"

definition mapping_warning :: "subnet_server \<Rightarrow> subnet_inputs \<Rightarrow> ResourceMap \<Rightarrow> string option" where
  "mapping_warning srv i m =
     (if mapping_ips i m = [] \<or> isL2Network i m then None
      else (case srv \<lparr> sq_ips = mapping_ips i m, sq_network_name = rm_target m, sq_creds_name = str_or (su_credName i) [],
                       sq_creds_namespace = su_credsNamespace i \<rparr> of
              None \<Rightarrow> None
            | Some r \<Rightarrow> if sr_all_compatible r then None else Some (mismatch_message m r)))"

text \<open>The warnings of a batch: its mappings are answered in some order.\<close>

definition batch_warnings :: "subnet_server \<Rightarrow> subnet_inputs \<Rightarrow> ResourceMap list \<Rightarrow> string sobj" where
  "batch_warnings srv i order =
     fold (\<lambda>m w. case mapping_warning srv i m of None \<Rightarrow> w | Some msg \<Rightarrow> sobj_set (rm_source m) msg w) order []"

record subnet_state =
  sn_warnings :: "string sobj"
  sn_requestId :: nat
  sn_timer :: "(nat \<times> subnet_inputs) option"
  sn_batches :: "(nat \<times> subnet_inputs) list"

definition nothing_to_check :: "subnet_inputs \<Rightarrow> bool" where
  "nothing_to_check i = (\<not> str_truthy (su_credName i) \<or> completeMappings i = [] \<or> su_selectedVMs i = [])"

text \<open>The effect of a render; the timer of the render before is cleared first.\<close>

definition subnet_effect :: "subnet_inputs \<Rightarrow> subnet_state \<Rightarrow> subnet_state" where
  "subnet_effect i s =
     (let s1 = s \<lparr> sn_timer := None \<rparr>
      in if nothing_to_check i then s1 \<lparr> sn_warnings := [] \<rparr>
         else s1 \<lparr> sn_requestId := Suc (sn_requestId s), sn_timer := Some (Suc (sn_requestId s), i) \<rparr>)"

definition subnet_timer :: "subnet_state \<Rightarrow> subnet_state" where
  "subnet_timer s =
     (case sn_timer s of None \<Rightarrow> s | Some b \<Rightarrow> s \<lparr> sn_timer := None, sn_batches := sn_batches s @ [b] \<rparr>)"

definition subnet_answer :: "subnet_server \<Rightarrow> nat \<Rightarrow> ResourceMap list \<Rightarrow> subnet_state \<Rightarrow> subnet_state" where
  "subnet_answer srv k order s =
     (if k < length (sn_batches s)
      then (let (requestId, i) = sn_batches s ! k; s1 = s \<lparr> sn_batches := take k (sn_batches s) @ drop (Suc k) (sn_batches s) \<rparr>
            in if sn_requestId s \<noteq> requestId then s1 else s1 \<lparr> sn_warnings := batch_warnings srv i order \<rparr>)
      else s)"

text \<open>What triggers the effect: the mappings and their addresses as one string, the networks as another. \<open>sort\<close> without a
  comparator orders by the codes of the characters.\<close>

fun code_before :: "string \<Rightarrow> string \<Rightarrow> bool" where
  "code_before [] b = (b \<noteq> [])"
| "code_before (x # a) [] = False"
| "code_before (x # a) (y # b) = ((of_char x :: nat) < of_char y \<or> (x = y \<and> code_before a b))"

definition by_code :: "string \<Rightarrow> string \<Rightarrow> int" where
  "by_code a b = (if a = b then 0 else if code_before a b then -1 else 1)"

definition mapping_signature :: "string list sobj \<Rightarrow> ResourceMap \<Rightarrow> string" where
  "mapping_signature ipsMap m =
     rm_source m @ ''>'' @ rm_target m @ '':'' @ js_join '','' (js_sort by_code (list_or (map_of ipsMap (rm_source m))))"

definition computeSubnetCheckSignature :: "ResourceMap list \<Rightarrow> string list sobj \<Rightarrow> string" where
  "computeSubnetCheckSignature mappings ipsMap = js_join ''|'' (map (mapping_signature ipsMap) mappings)"

definition networksKey :: "PCDNetworkInfo list \<Rightarrow> string" where
  "networksKey networks =
     js_join '','' (js_sort by_code
       (map (\<lambda>n. pn_name n @ '':'' @ (if ''simple_network'' \<in> set (pn_tags n) then ''1'' else ''0'')) networks))"

section \<open>The addresses behind a network\<close>

lemma fold_network_ips:
  "list_or (map_of (fold add_network_ips entries m) network) =
     list_or (map_of m network) @ concat (map (\<lambda>(vm, n). if n = network then vm_network_ips vm n else []) entries)"
proof (induction entries arbitrary: m)
  case (Cons e entries)
  obtain vm n where e: "e = (vm, n)" by (cases e)
  have "list_or (map_of (add_network_ips e m) network) =
      list_or (map_of m network) @ (if n = network then vm_network_ips vm n else [])"
    by (auto simp: e add_network_ips_def Let_def)
  then show ?case using Cons by (simp add: e)
qed simp

text \<open>the addresses behind a network are those of its machines, each once: of the interfaces on the network (or of all,
  when none is), unless preservation is off, and of the address text of the machine.\<close>

theorem network_ips_exact:
  "set (list_or (map_of (useNetworkIPsMap vms) network)) =
     (\<Union>vm \<in> {vm \<in> set vms. network \<in> set (list_or (vd_networks vm))}. set (vm_network_ips vm network)) \<and>
   distinct (list_or (map_of (useNetworkIPsMap vms) network))"
proof -
  have "list_or (map_of (useNetworkIPsMap vms) network) = js_uniq (list_or (map_of (fold add_network_ips (machine_networks vms) []) network))"
    by (cases "map_of (fold add_network_ips (machine_networks vms) []) network")
      (simp_all add: useNetworkIPsMap_def map_of_obj_map js_uniq_def)
  then show ?thesis
    unfolding fold_network_ips by (auto simp: machine_networks_def split: if_splits)
qed

lemma trim_space [simp]: "js_trim (CHR '' '' # s) = js_trim s"
  by (simp add: js_trim_def js_space_def)

lemma trimmed_parts:
  "ips \<noteq> [] \<Longrightarrow> list_all plain_address ips \<Longrightarrow> map js_trim (split_on (CHR '','') (js_join '', '' ips)) = ips"
proof (induction ips rule: induct_list012)
  case (3 a b ips)
  have space: "map js_trim (split_on (CHR '','') (CHR '' '' # s)) = map js_trim (split_on (CHR '','') s)" for s
    using split_on_nonempty [of "CHR '',''" s] by (cases "split_on (CHR '','') s") (auto simp del: split_on_nonempty)
  show ?case using 3 by (simp add: plain_address_def split_on_append space del: split_on.simps)
qed (simp_all add: plain_address_def split_on_single)

lemma join_part: "w \<in> set ws \<Longrightarrow> set w \<subseteq> set (js_join sep ws)"
  by (induction ws rule: induct_list012) auto

text \<open>a machine whose row lists the addresses of all its interfaces has every one of them checked against every network it
  is on: an address of the second network is behind the first as well.\<close>

theorem other_network_address_checked:
  assumes "vd_networkInterfaces vm = Some nics" "nic \<in> set nics" "ip \<in> set (nic_ips nic)" "plain_address ip"
    and "network \<in> set (list_or (vd_networks vm))" "\<forall>nic \<in> set nics. list_all plain_address (nic_ips nic)"
    and "discovered_ips vm \<noteq> em_dash"
  shows "ip \<in> set (list_or (map_of (useNetworkIPsMap [VmData.truncate (rebuilt_row i None vm)]) network))"
proof -
  let ?row = "VmData.truncate (rebuilt_row i None vm)"
  let ?ips = "concat (map nic_ips nics)"
  have plain: "list_all plain_address ?ips" using assms(6) by (auto simp: list_all_iff)
  then have kept: "filter (\<lambda>ip. ip \<noteq> [] \<and> js_trim ip \<noteq> []) ?ips = ?ips"
    by (auto simp: list_all_iff plain_address_def intro!: filter_True)
  have ip: "ip \<in> set ?ips" using assms(2,3) by auto
  then have ne: "?ips \<noteq> []" by (metis empty_iff list.set(1))
  have shown: "discovered_ips vm = js_join '', '' ?ips" using assms(1) kept by (simp add: discovered_ips_def)
  have nonempty: "js_join '', '' ?ips \<noteq> []"
    using plain by (intro join_nonempty ne) (auto simp: list_all_iff plain_address_def)
  have addr: "vd_ipAddress ?row = Some (js_join '', '' ?ips)" "vd_networks ?row = vd_networks vm"
    using shown nonempty by (simp_all add: rebuilt_row_def VmData.truncate_def VmData.extend_def row_ips_def)
  have split: "map js_trim (split_on (CHR '','') (js_join '', '' ?ips)) = ?ips"
    by (rule trimmed_parts [OF ne plain])
  have "js_trim (js_join '', '' ?ips) \<noteq> []"
  proof
    assume "js_trim (js_join '', '' ?ips) = []"
    then have "js_blank ip" using join_part [OF ip, of "'', ''"] by (auto simp: js_trim_nil_iff js_blank_def list_all_iff)
    then show False using assms(4) by (metis js_trim_nil_iff plain_address_def)
  qed
  then have "ip \<in> set (vm_network_ips ?row network)"
    using ip plain addr nonempty assms(7) shown split
    by (auto simp: vm_network_ips_def str_truthy_def list_all_iff plain_address_def)
  then show ?thesis using network_ips_exact [of "[?row]" network] assms(5) addr by auto
qed

theorem other_network_address_checked_witness:
  "''10.1.0.5'' \<in> set (list_or (map_of (useNetworkIPsMap
     [VmData.truncate (rebuilt_row (retry_inputs []) None
        ((blank_vm ''a'' ''a'') \<lparr> vd_networks := Some [''A'', ''B''],
           vd_networkInterfaces := Some [(retry_nic ''m0'' [''10.0.0.4'']) \<lparr> nic_network := ''A'' \<rparr>,
                                         (retry_nic ''m1'' [''10.1.0.5'']) \<lparr> nic_network := ''B'' \<rparr>] \<rparr>))]) ''A''))"
proof -
  let ?a = "(retry_nic ''m0'' [''10.0.0.4'']) \<lparr> nic_network := ''A'' \<rparr>" and ?b = "(retry_nic ''m1'' [''10.1.0.5'']) \<lparr> nic_network := ''B'' \<rparr>"
  let ?vm = "(blank_vm ''a'' ''a'') \<lparr> vd_networks := Some [''A'', ''B''], vd_networkInterfaces := Some [?a, ?b] \<rparr>"
  have "plain_address ''10.0.0.4''" "plain_address ''10.1.0.5''" by code_simp+
  moreover have "discovered_ips ?vm \<noteq> em_dash" by code_simp
  ultimately show ?thesis
    by (intro other_network_address_checked [where nics = "[?a, ?b]" and nic = ?b]) (simp_all add: retry_nic_def blank_vm_def)
qed

section \<open>Which warnings are shown\<close>

definition no_checks :: subnet_state where
  "no_checks = \<lparr> sn_warnings = [], sn_requestId = 0, sn_timer = None, sn_batches = [] \<rparr>"

text \<open>What happens without a new render: the timer, and the end of a batch whose mappings were answered in any order.\<close>

inductive subnet_event :: "subnet_server \<Rightarrow> subnet_state \<Rightarrow> subnet_state \<Rightarrow> bool" for srv where
  fired: "sn_timer s = Some b \<Longrightarrow> subnet_event srv s (subnet_timer s)"
| answered: "k < length (sn_batches s) \<Longrightarrow> mset order = mset (completeMappings (snd (sn_batches s ! k))) \<Longrightarrow>
    subnet_event srv s (subnet_answer srv k order s)"

text \<open>Every history, with the inputs of the last render.\<close>

inductive subnet_history :: "subnet_server \<Rightarrow> subnet_inputs option \<Rightarrow> subnet_state \<Rightarrow> bool" for srv where
  start: "subnet_history srv None no_checks"
| render: "subnet_history srv l s \<Longrightarrow> subnet_history srv (Some i) (subnet_effect i s)"
| event: "subnet_history srv l s \<Longrightarrow> subnet_event srv s t \<Longrightarrow> subnet_history srv l t"


definition pending_checks :: "subnet_state \<Rightarrow> nat" where
  "pending_checks s = (case sn_timer s of None \<Rightarrow> 0 | Some _ \<Rightarrow> 2) + length (sn_batches s)"

text \<open>Requests are numbered in order; the last one belongs to the last render that had something to check. Until its answer is
  there it is pending; then the warnings are those of its inputs.\<close>

definition in_flight :: "subnet_state \<Rightarrow> (nat \<times> subnet_inputs) list" where
  "in_flight s = sn_batches s @ (case sn_timer s of None \<Rightarrow> [] | Some b \<Rightarrow> [b])"

definition latest_check :: "subnet_server \<Rightarrow> subnet_inputs \<Rightarrow> subnet_state \<Rightarrow> bool" where
  "latest_check srv i s =
     ((\<forall>b \<in> set (in_flight s). fst b \<le> sn_requestId s \<and> (fst b = sn_requestId s \<longrightarrow> snd b = i)) \<and>
      distinct (map fst (in_flight s)) \<and>
      (sn_requestId s \<in> fst ` set (in_flight s) \<or>
       (\<exists>order. mset order = mset (completeMappings i) \<and> sn_warnings s = batch_warnings srv i order)))"

definition numbered :: "subnet_state \<Rightarrow> bool" where
  "numbered s = ((\<forall>b \<in> set (in_flight s). fst b \<le> sn_requestId s) \<and> distinct (map fst (in_flight s)))"

lemma timer_in_flight [simp]: "in_flight (subnet_timer s) = in_flight s" "sn_requestId (subnet_timer s) = sn_requestId s"
  "sn_warnings (subnet_timer s) = sn_warnings s"
  by (simp_all add: in_flight_def subnet_timer_def split: option.split)

lemma answer_in_flight:
  assumes "k < length (sn_batches s)"
  shows "in_flight (subnet_answer srv k order s) = take k (in_flight s) @ drop (Suc k) (in_flight s)"
    and "sn_requestId (subnet_answer srv k order s) = sn_requestId s"
    and "sn_warnings (subnet_answer srv k order s) =
           (if fst (in_flight s ! k) = sn_requestId s then batch_warnings srv (snd (in_flight s ! k)) order else sn_warnings s)"
    and "sn_batches s ! k = in_flight s ! k"
  using assms by (auto simp: in_flight_def subnet_answer_def Let_def nth_append split: prod.splits)

lemma set_without: "set (take k xs @ drop (Suc k) xs) \<subseteq> set xs"
  by (auto dest: in_set_takeD in_set_dropD)

lemma distinct_without: "distinct xs \<Longrightarrow> distinct (take k xs @ drop (Suc k) xs)"
  by (simp add: set_take_disj_set_drop_if_distinct)

lemma latest_event:
  assumes "subnet_event srv s t" "latest_check srv i s"
  shows "latest_check srv i t"
  using assms(1)
proof cases
  case (fired b)
  then show ?thesis using assms(2) by (simp add: latest_check_def)
next
  case (answered k order)
  note 2 = answered
  note a = answer_in_flight(1-3) [OF 2(2), of srv order] answer_in_flight(4) [OF 2(2)]
  let ?q = "in_flight s"
  have "k < length ?q" using 2(2) by (simp add: in_flight_def)
  then have k: "k < length ?q" "?q ! k \<in> set ?q" by simp_all
  have "distinct (map fst (take k ?q @ drop (Suc k) ?q))"
    using distinct_without [of "map fst ?q" k] assms(2) by (simp add: latest_check_def take_map drop_map)
  moreover have "sn_requestId t \<in> fst ` set (in_flight t) \<or>
      (\<exists>order. mset order = mset (completeMappings i) \<and> sn_warnings t = batch_warnings srv i order)"
  proof (cases "fst (?q ! k) = sn_requestId s")
    case True
    then have "snd (?q ! k) = i" using assms(2) k(2) by (auto simp: latest_check_def)
    then show ?thesis using 2 a True by (metis (no_types))
  next
    case False
    have "b \<in> set (take k ?q @ drop (Suc k) ?q)" if "b \<in> set ?q" "fst b = sn_requestId s" for b
      using that False k(1) id_take_nth_drop [OF k(1)] by (metis Un_iff set_append set_ConsD)
    moreover have "sn_warnings t = sn_warnings s" "sn_requestId t = sn_requestId s" using False a 2(1) by simp_all
    moreover have "sn_requestId s \<in> fst ` set ?q \<or>
        (\<exists>order. mset order = mset (completeMappings i) \<and> sn_warnings s = batch_warnings srv i order)"
      using assms(2) by (simp add: latest_check_def)
    ultimately show ?thesis unfolding 2(1) a(1) by force
  qed
  ultimately show ?thesis
    using assms(2) set_without [of k ?q] unfolding latest_check_def 2(1) a(1,2) by blast
qed

lemma history_numbered: "subnet_history srv l s \<Longrightarrow> numbered s"
proof (induction rule: subnet_history.induct)
  case (render l s i)
  have "\<forall>b \<in> set (sn_batches s). fst b \<le> sn_requestId s" "distinct (map fst (sn_batches s))"
    using render.IH by (auto simp: numbered_def in_flight_def)
  then show ?case by (auto simp: numbered_def in_flight_def subnet_effect_def Let_def dest: bspec)
next
  case (event l s t)
  from event.hyps(2) show ?case
  proof cases
    case (fired b)
    then show ?thesis using event.IH by (simp add: numbered_def)
  next
    case 2: (answered k order)
    then show ?thesis
      using event.IH distinct_without [of "map fst (in_flight s)" k] set_without [of k "in_flight s"]
      by (auto simp: numbered_def answer_in_flight(1,2) [OF 2(2)] take_map drop_map dest: in_set_takeD in_set_dropD)
  qed
qed (simp add: no_checks_def numbered_def in_flight_def)

lemma history_latest: "subnet_history srv l s \<Longrightarrow> l = Some i \<Longrightarrow> \<not> nothing_to_check i \<Longrightarrow> latest_check srv i s"
proof (induction arbitrary: i rule: subnet_history.induct)
  case (render l s j)
  then have "\<forall>b \<in> set (sn_batches s). fst b \<le> sn_requestId s" "distinct (map fst (sn_batches s))"
    using history_numbered [OF render.hyps] by (auto simp: numbered_def in_flight_def)
  then show ?case using render.prems
    by (force simp: latest_check_def in_flight_def subnet_effect_def Let_def dest: bspec)
qed (auto intro: latest_event)

definition current_warnings :: "subnet_server \<Rightarrow> subnet_inputs \<Rightarrow> string \<Rightarrow> string option" where
  "current_warnings srv i source =
     Option.bind (find (\<lambda>m. rm_source m = source) (completeMappings i)) (mapping_warning srv i)"

lemma fold_warnings:
  "distinct (map rm_source order) \<Longrightarrow>
   map_of (fold (\<lambda>m w. case mapping_warning srv i m of None \<Rightarrow> w | Some msg \<Rightarrow> sobj_set (rm_source m) msg w) order w) source =
     (case Option.bind (find (\<lambda>m. rm_source m = source) order) (mapping_warning srv i) of
        None \<Rightarrow> map_of w source | Some msg \<Rightarrow> Some msg)"
proof (induction order arbitrary: w)
  case (Cons m order)
  have "find (\<lambda>x. rm_source x = rm_source m) order = None" using Cons.prems by (auto simp: find_None_iff) (metis imageI)
  then show ?case using Cons by (auto split: option.split)
qed simp

lemma batch_lookup:
  assumes "distinct (map rm_source (completeMappings i))" "mset order = mset (completeMappings i)"
  shows "map_of (batch_warnings srv i order) = current_warnings srv i"
proof
  fix source
  have d: "distinct (map rm_source order)"
    using assms by (metis mset_eq_imp_distinct_iff mset_map)
  have same: "set order = set (completeMappings i)" using assms(2) by (rule mset_eq_setD)
  have "find (\<lambda>m. rm_source m = source) order = find (\<lambda>m. rm_source m = source) (completeMappings i)"
  proof (cases "\<exists>m \<in> set order. rm_source m = source")
    case True
    then obtain m where "m \<in> set order" "rm_source m = source" by blast
    then show ?thesis using find_distinct [OF d, of m] find_distinct [OF assms(1), of m] same by simp
  next
    case False
    then have "find (\<lambda>m. rm_source m = source) order = None" "find (\<lambda>m. rm_source m = source) (completeMappings i) = None"
      using same by (auto simp: find_None_iff)
    then show ?thesis by simp
  qed
  then show "map_of (batch_warnings srv i order) source = current_warnings srv i source"
    by (simp add: batch_warnings_def fold_warnings [OF d] current_warnings_def split: option.split)
qed

lemma event_progress: "subnet_event srv s t \<Longrightarrow> pending_checks t < pending_checks s"
  by (cases rule: subnet_event.cases, assumption)
    (auto simp: pending_checks_def subnet_timer_def subnet_answer_def Let_def split: option.splits prod.splits)

lemma event_exists: "pending_checks s > 0 \<Longrightarrow> \<exists>t. subnet_event srv s t"
  by (cases "sn_timer s") (fastforce simp: pending_checks_def intro: subnet_event.intros)+

text \<open>C19: when the inputs stay, and the last ones have something to check (a credential, a complete mapping and a chosen machine) and
  map every source once, the check comes to an end and is right. While something is pending an event can happen, every
  event leaves less pending, and when nothing is pending the warnings are those of the last inputs: no answer to an earlier
  request, however late, replaces them. When the last inputs have nothing to check this is not so: an answer on its way is
  then shown (\<open>warning_after_clear\<close>).\<close>

theorem subnet_check_settles:
  assumes "subnet_history srv (Some i) s" "\<not> nothing_to_check i" "distinct (map rm_source (completeMappings i))"
  shows "(pending_checks s > 0 \<longrightarrow> (\<exists>t. subnet_event srv s t)) \<and>
     (\<forall>t. subnet_event srv s t \<longrightarrow> pending_checks t < pending_checks s) \<and>
     (\<forall>t. (subnet_event srv)\<^sup>*\<^sup>* s t \<longrightarrow> pending_checks t = 0 \<longrightarrow> map_of (sn_warnings t) = current_warnings srv i)"
proof (intro conjI allI impI)
  fix t assume "(subnet_event srv)\<^sup>*\<^sup>* s t" "pending_checks t = 0"
  from this(1) have "latest_check srv i t"
    by (induction rule: rtranclp_induct) (use history_latest [OF assms(1) refl assms(2)] latest_event in blast)+
  moreover have "in_flight t = []"
    using \<open>pending_checks t = 0\<close> by (simp add: pending_checks_def in_flight_def split: option.splits)
  ultimately show "map_of (sn_warnings t) = current_warnings srv i"
    using batch_lookup [OF assms(3)] by (auto simp: latest_check_def)
qed (use event_exists event_progress in blast)+

definition subnet_sample :: subnet_inputs where
  "subnet_sample =
     \<lparr> su_mappings = [\<lparr> rm_source = ''VM Network'', rm_target = ''prod'' \<rparr>], su_credName = Some ''pcd'', su_credsNamespace = None,
       su_selectedVMs = [sample_retry_vm], su_networkIPsMap = [(''VM Network'', [''10.0.0.4''])], su_openstackNetworks = [] \<rparr>"

text \<open>A server that finds no address compatible.\<close>

definition strict_server :: subnet_server where
  "strict_server q = Some \<lparr> sr_results = map (\<lambda>ip. (ip, False)) (sq_ips q), sr_subnet_cidrs = None, sr_all_compatible = False \<rparr>"

theorem subnet_check_settles_witness:
  "map_of (sn_warnings (subnet_answer strict_server 0 (su_mappings subnet_sample) (subnet_timer (subnet_effect subnet_sample no_checks)))) =
   current_warnings strict_server subnet_sample"
proof -
  let ?s = "subnet_effect subnet_sample no_checks"
  let ?t = "subnet_answer strict_server 0 (su_mappings subnet_sample) (subnet_timer ?s)"
  have ready: "\<not> nothing_to_check subnet_sample" "distinct (map rm_source (completeMappings subnet_sample))"
    by (simp_all add: nothing_to_check_def completeMappings_def subnet_sample_def)
  have "subnet_event strict_server ?s (subnet_timer ?s)"
    using ready by (intro subnet_event.fired) (simp add: subnet_effect_def)
  moreover have "subnet_event strict_server (subnet_timer ?s) ?t"
    using ready by (intro subnet_event.answered)
      (simp_all add: subnet_effect_def subnet_timer_def no_checks_def completeMappings_def subnet_sample_def)
  ultimately have "(subnet_event strict_server)\<^sup>*\<^sup>* ?s ?t" by simp
  moreover have "pending_checks ?t = 0"
    using ready by (simp add: pending_checks_def subnet_effect_def subnet_timer_def subnet_answer_def no_checks_def)
  ultimately show ?thesis
    using subnet_check_settles [OF subnet_history.render [OF subnet_history.start] ready, of strict_server] by blast
qed

lemma mismatch_nonblank: "js_trim (mismatch_message m r) \<noteq> []"
  by (simp add: js_trim_nil_iff js_blank_def mismatch_message_def Let_def js_space_def)

lemma shown_mismatch:
  assumes "map_of w k = Some msg" "\<And>m r. js_trim (mismatch_message m r) \<noteq> []" "mapping_warning srv i m = Some msg"
  shows "hasAnySubnetMismatch (Some w)"
proof -
  obtain r where "msg = mismatch_message m r"
    using assms(3) by (auto simp: mapping_warning_def split: if_splits option.splits)
  then have "msg \<noteq> []" "js_trim msg \<noteq> []" using assms(2) [of m r] by auto
  moreover have "msg \<in> set (obj_vals w)" using map_of_SomeD [OF assms(1)] by (force simp: obj_vals_def)
  ultimately show ?thesis by (auto simp: hasAnySubnetMismatch_def list_ex_iff)
qed

lemma join_chars: "c \<in> set (js_join sep ws) \<Longrightarrow> c \<in> set sep \<or> (\<exists>w \<in> set ws. c \<in> set w)"
  by (induction ws rule: induct_list012) auto

text \<open>an answer that arrives after there is nothing left to check is shown all the same: clearing the warnings does not
  give a new number to the check, so the request in flight is still the last one. Nothing is pending then, and the option
  to keep the network configuration stays blocked.\<close>

theorem warning_after_clear:
  assumes "\<not> nothing_to_check i" "nothing_to_check j" "m \<in> set (completeMappings i)" "mapping_warning srv i m = Some msg"
    and "distinct (map rm_source (completeMappings i))"
  shows "\<exists>s. subnet_history srv (Some j) s \<and> pending_checks s = 0 \<and> sn_timer s = None \<and>
     map_of (sn_warnings s) (rm_source m) = Some msg \<and> hasAnySubnetMismatch (Some (sn_warnings s))"
proof -
  let ?s = "subnet_effect j (subnet_timer (subnet_effect i no_checks))"
  let ?t = "subnet_answer srv 0 (completeMappings i) ?s"
  have "subnet_event srv (subnet_effect i no_checks) (subnet_timer (subnet_effect i no_checks))"
    by (rule subnet_event.fired) (use assms(1) in \<open>simp add: subnet_effect_def\<close>)
  from subnet_history.event [OF subnet_history.render [OF subnet_history.start] this]
  have "subnet_history srv (Some j) ?s" by (rule subnet_history.render)
  moreover have batch: "sn_batches ?s = [(1, i)]" "sn_requestId ?s = 1" "sn_timer ?s = None"
    using assms(1,2) by (simp_all add: subnet_effect_def subnet_timer_def no_checks_def)
  then have "subnet_event srv ?s ?t" by (intro subnet_event.answered) simp_all
  ultimately have "subnet_history srv (Some j) ?t" by (rule subnet_history.event)
  moreover have shown: "map_of (sn_warnings ?t) (rm_source m) = Some msg"
    using batch assms(3-5) batch_lookup [OF assms(5) refl, of srv] find_distinct [OF assms(5,3)]
    by (simp add: subnet_answer_def current_warnings_def)
  moreover have "pending_checks ?t = 0" "sn_timer ?t = None"
    using batch by (simp_all add: subnet_answer_def pending_checks_def)
  moreover have "hasAnySubnetMismatch (Some (sn_warnings ?t))"
    using shown mismatch_nonblank assms(4) by (rule shown_mismatch)
  ultimately show ?thesis by blast
qed

theorem warning_after_clear_witness:
  "\<exists>s. subnet_history strict_server (Some (subnet_sample \<lparr> su_mappings := [] \<rparr>)) s \<and> pending_checks s = 0 \<and>
     hasAnySubnetMismatch (Some (sn_warnings s))"
proof -
  let ?m = "\<lparr> rm_source = ''VM Network'', rm_target = ''prod'' \<rparr>"
  have "\<not> nothing_to_check subnet_sample" "nothing_to_check (subnet_sample \<lparr> su_mappings := [] \<rparr>)"
    "?m \<in> set (completeMappings subnet_sample)" "distinct (map rm_source (completeMappings subnet_sample))"
    by (simp_all add: nothing_to_check_def completeMappings_def subnet_sample_def)
  moreover obtain msg where "mapping_warning strict_server subnet_sample ?m = Some msg"
    by (simp add: mapping_warning_def mapping_ips_def isL2Network_def strict_server_def subnet_sample_def)
  ultimately show ?thesis using warning_after_clear by blast
qed

section \<open>What starts a check\<close>

lemma join_inj:
  assumes "js_join [sep] xs = js_join [sep] ys" "\<forall>w \<in> set xs \<union> set ys. sep \<notin> set w \<and> w \<noteq> []"
  shows "xs = ys"
proof (cases "xs = [] \<or> ys = []")
  case True
  have "js_join [sep] zs \<noteq> []" if "zs \<noteq> []" "set zs \<subseteq> set xs \<union> set ys" for zs
    using that assms(2) by (intro join_nonempty) (auto simp: list_all_iff)
  then have "xs = [] \<longleftrightarrow> ys = []" using assms(1) True by (metis Un_upper1 Un_upper2 js_join.simps(1))
  then show ?thesis using True by auto
next
  case False
  then have "split_on sep (js_join [sep] xs) = xs" "split_on sep (js_join [sep] ys) = ys"
    by (intro split_on_join; use assms(2) in \<open>simp add: list_all_iff\<close>)+
  then show ?thesis using assms(1) by metis
qed

text \<open>A name that none of the separators occurs in.\<close>

definition plain_name :: "string \<Rightarrow> bool" where
  "plain_name s = (set s \<inter> {CHR ''|'', CHR ''>'', CHR '':'', CHR '',''} = {})"

lemma first_part: "c \<notin> set a \<Longrightarrow> c \<notin> set b \<Longrightarrow> a @ c # x = b @ c # y \<Longrightarrow> a = b \<and> x = y"
  by (induction a arbitrary: b) (auto simp: Cons_eq_append_conv append_eq_Cons_conv)

definition plain_ips :: "string list \<Rightarrow> bool" where
  "plain_ips ips = (\<forall>ip \<in> set ips. plain_name ip \<and> ip \<noteq> [])"

lemma mapping_signature_inj:
  assumes "mapping_signature p m = mapping_signature q n"
    and "plain_name (rm_source m)" "plain_name (rm_target m)" "plain_name (rm_source n)" "plain_name (rm_target n)"
    and "plain_ips (list_or (map_of p (rm_source m)))" "plain_ips (list_or (map_of q (rm_source n)))"
  shows "m = n \<and> mset (list_or (map_of p (rm_source m))) = mset (list_or (map_of q (rm_source n)))"
proof -
  let ?a = "list_or (map_of p (rm_source m))" and ?b = "list_or (map_of q (rm_source n))"
  have "rm_source m = rm_source n \<and> rm_target m @ CHR '':'' # js_join '','' (js_sort by_code ?a) =
      rm_target n @ CHR '':'' # js_join '','' (js_sort by_code ?b)"
    using assms(1-5) unfolding mapping_signature_def plain_name_def by (intro first_part [where c = "CHR ''>''"]) auto
  moreover from this have "rm_target m = rm_target n \<and> js_join '','' (js_sort by_code ?a) = js_join '','' (js_sort by_code ?b)"
    using assms(2-5) unfolding plain_name_def by (intro first_part [where c = "CHR '':''"]) auto
  moreover from this have "js_sort by_code ?a = js_sort by_code ?b"
    using assms(6,7) by (intro join_inj [of "CHR '',''"]) (auto simp: plain_ips_def plain_name_def)
  then have "mset ?a = mset ?b" by (metis mset_js_sort)
  ultimately show ?thesis by simp
qed

text \<open>inputs with one signature have the same mappings and, up to their order, the same addresses behind each: no change of a
  mapping or of an address goes without a new check, as long as no name contains one of the separators.\<close>

theorem signature_tells_changes:
  assumes "computeSubnetCheckSignature ms p = computeSubnetCheckSignature ns q"
    and "\<forall>m \<in> set ms. plain_name (rm_source m) \<and> plain_name (rm_target m) \<and> plain_ips (list_or (map_of p (rm_source m)))"
    and "\<forall>m \<in> set ns. plain_name (rm_source m) \<and> plain_name (rm_target m) \<and> plain_ips (list_or (map_of q (rm_source m)))"
  shows "ms = ns \<and> (\<forall>m \<in> set ms. mset (list_or (map_of p (rm_source m))) = mset (list_or (map_of q (rm_source m))))"
proof -
  have parts: "CHR ''|'' \<notin> set (mapping_signature r m) \<and> mapping_signature r m \<noteq> []"
    if "plain_name (rm_source m)" "plain_name (rm_target m)" "plain_ips (list_or (map_of r (rm_source m)))" for r m
    using that by (auto simp: mapping_signature_def plain_name_def plain_ips_def dest!: join_chars)
  have "map (mapping_signature p) ms = map (mapping_signature q) ns"
    using assms parts unfolding computeSubnetCheckSignature_def by (intro join_inj [of "CHR ''|''"]) auto
  then show ?thesis using assms(2,3)
  proof (induction ms arbitrary: ns)
    case (Cons m ms)
    then obtain n ns' where ns: "ns = n # ns'" by (cases ns) auto
    then have "m = n \<and> mset (list_or (map_of p (rm_source m))) = mset (list_or (map_of q (rm_source n)))"
      using Cons.prems by (intro mapping_signature_inj) auto
    moreover have "ms = ns' \<and> (\<forall>m \<in> set ms. mset (list_or (map_of p (rm_source m))) = mset (list_or (map_of q (rm_source m))))"
      using Cons ns by (intro Cons.IH) auto
    ultimately show ?case using ns by auto
  qed simp
qed

theorem signature_tells_changes_witness:
  "computeSubnetCheckSignature [\<lparr> rm_source = ''a'', rm_target = ''b'' \<rparr>] [(''a'', [''10.0.0.4'', ''10.0.0.5''])] =
   computeSubnetCheckSignature [\<lparr> rm_source = ''a'', rm_target = ''b'' \<rparr>] [(''a'', [''10.0.0.5'', ''10.0.0.4''])] \<and>
   mset [''10.0.0.4'', ''10.0.0.5''] = mset [''10.0.0.5'', ''10.0.0.4'']"
proof -
  let ?ms = "[\<lparr> rm_source = ''a'', rm_target = ''b'' \<rparr>]"
  let ?p = "[(''a'', [''10.0.0.4'', ''10.0.0.5''])]" and ?q = "[(''a'', [''10.0.0.5'', ''10.0.0.4''])]"
  have same: "computeSubnetCheckSignature ?ms ?p = computeSubnetCheckSignature ?ms ?q" by code_simp
  from signature_tells_changes [OF this] same show ?thesis by (simp add: plain_name_def plain_ips_def)
qed

end
