(* ===== verification/Form_Sync.thy ===== *)
theory Form_Sync
  imports Form_Types
begin

text \<open>
  The two copies of the options of a form: the parameters of the page and the values of the form library. The hooks
  \<open>ui/src/features/migration/hooks/useFormSync.ts\<close> and \<open>useRollingFormSync.ts\<close> keep them together, each with an
  effect from the parameters to the form and seven effects back. A commit runs the effects whose dependencies
  changed since the commit before, in the order of the source, all with the values of one render; what they set is
  seen by the next render.
\<close>

section \<open>State\<close>

text \<open>The parameters the hooks read; the values of the form library are \<open>MigrationDrawerRHFValues\<close>.\<close>

record sync_params =
  yp_securityGroups :: "string list option"
  yp_serverGroup :: "string option"
  yp_dataCopyStartTime :: "string option"
  yp_cutoverStartTime :: "string option"
  yp_cutoverEndTime :: "string option"
  yp_postMigrationAction :: "PostMigrationAction option"

record sync_state =
  sy_params :: sync_params
  sy_rhf :: MigrationDrawerRHFValues
  sy_before :: "(sync_params \<times> MigrationDrawerRHFValues) option"

text \<open>The options that let a suffix and a folder through.\<close>

record sync_options =
  yo_renameVm :: bool
  yo_moveToFolder :: bool

definition action_suffix :: "PostMigrationAction option \<Rightarrow> string" where
  "action_suffix a = (case Option.bind a pm_suffix of None \<Rightarrow> [] | Some s \<Rightarrow> s)"

definition action_folder :: "PostMigrationAction option \<Rightarrow> string" where
  "action_folder a = (case Option.bind a pm_folderName of None \<Rightarrow> [] | Some s \<Rightarrow> s)"

text \<open>\<open>stringArrayEqual\<close> of two arrays that are there.\<close>

definition stringArrayEqual :: "string list \<Rightarrow> string list \<Rightarrow> bool" where
  "stringArrayEqual a b = (length a = length b \<and> list_all2 (=) a b)"

lemma stringArrayEqual_eq [simp]: "stringArrayEqual a b = (a = b)"
  by (auto simp: stringArrayEqual_def list.rel_eq)

definition nullish :: "string option \<Rightarrow> string" where
  "nullish v = (case v of None \<Rightarrow> [] | Some s \<Rightarrow> s)"

section \<open>From the parameters to the form\<close>

definition rhf_of :: "sync_params \<Rightarrow> MigrationDrawerRHFValues" where
  "rhf_of p =
     \<lparr> rhf_securityGroups = list_or (yp_securityGroups p), rhf_serverGroup = nullish (yp_serverGroup p),
       rhf_dataCopyStartTime = nullish (yp_dataCopyStartTime p), rhf_cutoverStartTime = nullish (yp_cutoverStartTime p),
       rhf_cutoverEndTime = nullish (yp_cutoverEndTime p),
       rhf_postMigrationActionSuffix = action_suffix (yp_postMigrationAction p),
       rhf_postMigrationActionFolderName = action_folder (yp_postMigrationAction p) \<rparr>"

text \<open>Every value that differs is set, so that all of them are equal afterwards.\<close>

definition to_form_effect :: "sync_params \<Rightarrow> MigrationDrawerRHFValues \<Rightarrow> MigrationDrawerRHFValues" where
  "to_form_effect p r =
     (let n = rhf_of p; set_value = (\<lambda>same upd x. if same then x else upd x)
      in (set_value (rhf_postMigrationActionFolderName r = rhf_postMigrationActionFolderName n)
            (rhf_postMigrationActionFolderName_update (\<lambda>_. rhf_postMigrationActionFolderName n)) \<circ>
          set_value (rhf_postMigrationActionSuffix r = rhf_postMigrationActionSuffix n)
            (rhf_postMigrationActionSuffix_update (\<lambda>_. rhf_postMigrationActionSuffix n)) \<circ>
          set_value (rhf_cutoverEndTime r = rhf_cutoverEndTime n) (rhf_cutoverEndTime_update (\<lambda>_. rhf_cutoverEndTime n)) \<circ>
          set_value (rhf_cutoverStartTime r = rhf_cutoverStartTime n) (rhf_cutoverStartTime_update (\<lambda>_. rhf_cutoverStartTime n)) \<circ>
          set_value (rhf_dataCopyStartTime r = rhf_dataCopyStartTime n)
            (rhf_dataCopyStartTime_update (\<lambda>_. rhf_dataCopyStartTime n)) \<circ>
          set_value (rhf_serverGroup r = rhf_serverGroup n) (rhf_serverGroup_update (\<lambda>_. rhf_serverGroup n)) \<circ>
          set_value (stringArrayEqual (rhf_securityGroups r) (rhf_securityGroups n)) (rhf_securityGroups_update (\<lambda>_. rhf_securityGroups n))) r)"

lemma to_form_effect_eq: "to_form_effect p r = rhf_of p"
  by (cases r) (simp add: to_form_effect_def Let_def rhf_of_def)

section \<open>From the form to the parameters\<close>

text \<open>An effect runs in a commit when a value it depends on is new.\<close>

definition fires :: "(sync_params \<Rightarrow> 'a) \<Rightarrow> (MigrationDrawerRHFValues \<Rightarrow> 'b) \<Rightarrow> sync_state \<Rightarrow> bool" where
  "fires f g s =
     (case sy_before s of None \<Rightarrow> True
      | Some (p, r) \<Rightarrow> f p \<noteq> f (sy_params s) \<or> g r \<noteq> g (sy_rhf s))"

definition trimmed :: "string \<Rightarrow> string" where
  "trimmed v = (if js_trim v \<noteq> [] then js_trim v else [])"

text \<open>\<open>{...postMigrationAction, suffix}\<close>: of nothing an action with this field alone.\<close>

definition empty_action :: PostMigrationAction where
  "empty_action = \<lparr> pm_suffix = None, pm_folderName = None, pm_renameVm = None, pm_moveToFolder = None \<rparr>"

definition spread_action :: "PostMigrationAction option \<Rightarrow> PostMigrationAction" where
  "spread_action a = (case a of None \<Rightarrow> empty_action | Some x \<Rightarrow> x)"

text \<open>The write of a text: the value of the render is compared with the parameter of the render.\<close>

definition write_text ::
  "(sync_params \<Rightarrow> string option) \<Rightarrow> ((string option \<Rightarrow> string option) \<Rightarrow> sync_params \<Rightarrow> sync_params) \<Rightarrow>
   (MigrationDrawerRHFValues \<Rightarrow> string) \<Rightarrow> (string \<Rightarrow> string) \<Rightarrow> sync_state \<Rightarrow> sync_params \<Rightarrow> sync_params" where
  "write_text get upd value_of clean s p =
     (let next_text = clean (value_of (sy_rhf s))
      in if fires get value_of s \<and> nullish (get (sy_params s)) \<noteq> next_text then upd (\<lambda>_. Some next_text) p else p)"

definition write_groups :: "sync_state \<Rightarrow> sync_params \<Rightarrow> sync_params" where
  "write_groups s p =
     (if fires yp_securityGroups rhf_securityGroups s \<and>
         \<not> stringArrayEqual (list_or (yp_securityGroups (sy_params s))) (rhf_securityGroups (sy_rhf s))
      then p \<lparr> yp_securityGroups := Some (rhf_securityGroups (sy_rhf s)) \<rparr> else p)"

text \<open>The suffix and the folder are written into the action of the render; \<open>stored\<close> is what an empty text becomes.
  The option that lets it through is among the dependencies of the effect and stays as it is.\<close>

definition write_suffix :: "(string \<Rightarrow> string option) \<Rightarrow> bool \<Rightarrow> sync_state \<Rightarrow> sync_params \<Rightarrow> sync_params" where
  "write_suffix stored enabled s p =
     (let next_text = trimmed (rhf_postMigrationActionSuffix (sy_rhf s)); action = yp_postMigrationAction (sy_params s)
      in if fires yp_postMigrationAction rhf_postMigrationActionSuffix s \<and> enabled \<and> action_suffix action \<noteq> next_text
         then p \<lparr> yp_postMigrationAction := Some ((spread_action action) \<lparr> pm_suffix := stored next_text \<rparr>) \<rparr> else p)"

definition write_folder :: "(string \<Rightarrow> string option) \<Rightarrow> bool \<Rightarrow> sync_state \<Rightarrow> sync_params \<Rightarrow> sync_params" where
  "write_folder stored enabled s p =
     (let next_text = trimmed (rhf_postMigrationActionFolderName (sy_rhf s)); action = yp_postMigrationAction (sy_params s)
      in if fires yp_postMigrationAction rhf_postMigrationActionFolderName s \<and> enabled \<and> action_folder action \<noteq> next_text
         then p \<lparr> yp_postMigrationAction := Some ((spread_action action) \<lparr> pm_folderName := stored next_text \<rparr>) \<rparr> else p)"

definition write_back ::
  "(string \<Rightarrow> string) \<Rightarrow> (string \<Rightarrow> string option) \<Rightarrow> sync_options \<Rightarrow> sync_state \<Rightarrow> sync_params" where
  "write_back clean stored opts s =
     (write_text yp_serverGroup yp_serverGroup_update rhf_serverGroup id s \<circ>
      write_groups s \<circ>
      write_folder stored (yo_moveToFolder opts) s \<circ>
      write_suffix stored (yo_renameVm opts) s \<circ>
      write_text yp_cutoverEndTime yp_cutoverEndTime_update rhf_cutoverEndTime clean s \<circ>
      write_text yp_cutoverStartTime yp_cutoverStartTime_update rhf_cutoverStartTime clean s \<circ>
      write_text yp_dataCopyStartTime yp_dataCopyStartTime_update rhf_dataCopyStartTime clean s) (sy_params s)"

section \<open>A commit\<close>

definition reads_params :: "sync_params \<Rightarrow> sync_params" where
  "reads_params p = p"

definition to_form_fires :: "sync_state \<Rightarrow> bool" where
  "to_form_fires s = fires reads_params (\<lambda>_. ()) s"

text \<open>The standard form: when the first effect changed a value of the form, the others of the same commit hold still.\<close>

definition useFormSync :: "sync_options \<Rightarrow> sync_state \<Rightarrow> sync_state" where
  "useFormSync opts s =
     (let r = (if to_form_fires s then to_form_effect (sy_params s) (sy_rhf s) else sy_rhf s);
          suppress = (r \<noteq> sy_rhf s)
      in \<lparr> sy_params = (if suppress then sy_params s
                        else write_back id (\<lambda>v. if v \<noteq> [] then Some v else None) opts s),
           sy_rhf = r, sy_before = Some (sy_params s, sy_rhf s) \<rparr>)"

definition useRollingFormSync :: "sync_options \<Rightarrow> sync_state \<Rightarrow> sync_state" where
  "useRollingFormSync opts s =
     \<lparr> sy_params = write_back trimmed Some opts s,
       sy_rhf = (if to_form_fires s then to_form_effect (sy_params s) (sy_rhf s) else sy_rhf s),
       sy_before = Some (sy_params s, sy_rhf s) \<rparr>"

text \<open>A commit that changed something is followed by another render and commit.\<close>

definition commit_quiet :: "(sync_state \<Rightarrow> sync_state) \<Rightarrow> sync_state \<Rightarrow> bool" where
  "commit_quiet commit s = (sy_params (commit s) = sy_params s \<and> sy_rhf (commit s) = sy_rhf s)"

section \<open>Commits that follow each other\<close>

lemma trimmed_eq [simp]: "trimmed v = js_trim v"
  by (simp add: trimmed_def)

lemma action_text_simps [simp]:
  "action_suffix (Some (x \<lparr> pm_suffix := v \<rparr>)) = nullish v"
  "action_suffix (Some (x \<lparr> pm_folderName := v \<rparr>)) = action_suffix (Some x)"
  "action_folder (Some (x \<lparr> pm_folderName := v \<rparr>)) = nullish v"
  "action_folder (Some (x \<lparr> pm_suffix := v \<rparr>)) = action_folder (Some x)"
  "action_suffix (Some (spread_action a)) = action_suffix a"
  "action_folder (Some (spread_action a)) = action_folder a"
  by (simp_all add: action_suffix_def action_folder_def nullish_def spread_action_def empty_action_def
        split: option.splits)

lemma nullish_simps [simp]: "nullish None = []" "nullish (Some v) = v"
  by (simp_all add: nullish_def)

lemma rhf_of_simps [simp]:
  "rhf_securityGroups (rhf_of p) = list_or (yp_securityGroups p)" "rhf_serverGroup (rhf_of p) = nullish (yp_serverGroup p)"
  "rhf_dataCopyStartTime (rhf_of p) = nullish (yp_dataCopyStartTime p)"
  "rhf_cutoverStartTime (rhf_of p) = nullish (yp_cutoverStartTime p)"
  "rhf_cutoverEndTime (rhf_of p) = nullish (yp_cutoverEndTime p)"
  "rhf_postMigrationActionSuffix (rhf_of p) = action_suffix (yp_postMigrationAction p)"
  "rhf_postMigrationActionFolderName (rhf_of p) = action_folder (yp_postMigrationAction p)"
  by (simp_all add: rhf_of_def)

text \<open>A form that shows the parameters, with nothing to trim where an effect is about to run.\<close>

definition echo_free :: "sync_state \<Rightarrow> bool" where
  "echo_free s =
     (sy_rhf s = rhf_of (sy_params s) \<and>
      (fires yp_postMigrationAction rhf_postMigrationActionSuffix s \<longrightarrow>
         js_trim (action_suffix (yp_postMigrationAction (sy_params s))) = action_suffix (yp_postMigrationAction (sy_params s))) \<and>
      (fires yp_postMigrationAction rhf_postMigrationActionFolderName s \<longrightarrow>
         js_trim (action_folder (yp_postMigrationAction (sy_params s))) = action_folder (yp_postMigrationAction (sy_params s))))"

lemma echo_free_writes_nothing:
  assumes "echo_free s"
  shows "write_back id stored opts s = sy_params s"
  using assms by (auto simp: echo_free_def write_back_def write_text_def write_groups_def write_suffix_def
      write_folder_def Let_def)

lemma echo_free_quiet:
  assumes "echo_free s"
  shows "commit_quiet (useFormSync opts) s"
  using assms by (simp add: commit_quiet_def useFormSync_def Let_def to_form_effect_eq echo_free_writes_nothing)
    (simp add: echo_free_def)

abbreviation stored_text :: "string \<Rightarrow> string option" where
  "stored_text v \<equiv> (if v \<noteq> [] then Some v else None)"

lemma stored_text_read [simp]: "nullish (stored_text v) = v"
  by simp

text \<open>When the form shows the parameters, the only thing a commit can still write is an action with its text trimmed.\<close>

lemma shown_write:
  assumes "sy_rhf s = rhf_of (sy_params s)"
  obtains "write_back id stored_text opts s = sy_params s"
  | a where "write_back id stored_text opts s = sy_params s \<lparr> yp_postMigrationAction := a \<rparr>"
      "action_suffix a \<noteq> action_suffix (yp_postMigrationAction (sy_params s)) \<Longrightarrow> js_trim (action_suffix a) = action_suffix a"
      "action_folder a \<noteq> action_folder (yp_postMigrationAction (sy_params s)) \<Longrightarrow> js_trim (action_folder a) = action_folder a"
      "action_suffix a \<noteq> action_suffix (yp_postMigrationAction (sy_params s)) \<or>
       action_folder a \<noteq> action_folder (yp_postMigrationAction (sy_params s))"
proof -
  let ?p = "sy_params s"
  let ?a = "yp_postMigrationAction ?p"
  have texts: "write_back id stored_text opts s =
      write_folder stored_text (yo_moveToFolder opts) s (write_suffix stored_text (yo_renameVm opts) s ?p)"
    using assms by (simp add: write_back_def write_text_def write_groups_def Let_def)
  have suffix: "write_suffix stored_text (yo_renameVm opts) s ?p = ?p \<or>
      (write_suffix stored_text (yo_renameVm opts) s ?p =
         ?p \<lparr> yp_postMigrationAction := Some ((spread_action ?a) \<lparr> pm_suffix := stored_text (js_trim (action_suffix ?a)) \<rparr>) \<rparr> \<and>
       action_suffix ?a \<noteq> js_trim (action_suffix ?a))"
    using assms by (auto simp: write_suffix_def Let_def)
  show thesis
  proof (cases "write_folder stored_text (yo_moveToFolder opts) s =
      (\<lambda>p. p \<lparr> yp_postMigrationAction := Some ((spread_action ?a) \<lparr> pm_folderName := stored_text (js_trim (action_folder ?a)) \<rparr>) \<rparr>) \<and>
      action_folder ?a \<noteq> js_trim (action_folder ?a)")
    case True
    have "write_back id stored_text opts s =
        ?p \<lparr> yp_postMigrationAction := Some ((spread_action ?a) \<lparr> pm_folderName := stored_text (js_trim (action_folder ?a)) \<rparr>) \<rparr>"
      using texts True suffix by auto
    then show thesis
      by (rule that(2)) (use True True [THEN conjunct2, THEN not_sym] in \<open>simp_all add: stored_text_read del: nullish_simps\<close>)
  next
    case False
    then have "write_folder stored_text (yo_moveToFolder opts) s p = p" for p
      using assms by (auto simp: write_folder_def Let_def fun_eq_iff)
    then have wb: "write_back id stored_text opts s = write_suffix stored_text (yo_renameVm opts) s ?p"
      using texts by simp
    show thesis
      using suffix
    proof
      assume "write_suffix stored_text (yo_renameVm opts) s ?p = ?p"
      then show thesis
        using wb that(1) by simp
    next
      assume s: "write_suffix stored_text (yo_renameVm opts) s ?p =
         ?p \<lparr> yp_postMigrationAction := Some ((spread_action ?a) \<lparr> pm_suffix := stored_text (js_trim (action_suffix ?a)) \<rparr>) \<rparr> \<and>
       action_suffix ?a \<noteq> js_trim (action_suffix ?a)"
      show thesis
        by (rule that(2), unfold wb, rule s [THEN conjunct1])
          (use s s [THEN conjunct2, THEN not_sym] in \<open>simp_all add: stored_text_read del: nullish_simps\<close>)
    qed
  qed
qed

lemma shown_settles:
  assumes "sy_rhf s = rhf_of (sy_params s)"
  shows "commit_quiet (useFormSync opts) s \<or> echo_free (useFormSync opts (useFormSync opts s))"
proof -
  let ?f = "useFormSync opts"
  let ?q = "write_back id stored_text opts s"
  have step: "?f s = \<lparr> sy_params = ?q, sy_rhf = rhf_of (sy_params s), sy_before = Some (sy_params s, sy_rhf s) \<rparr>"
    using assms by (simp add: useFormSync_def Let_def to_form_effect_eq)
  show ?thesis
  proof (rule shown_write [OF assms, of opts])
    assume "?q = sy_params s"
    then show ?thesis
      using step assms by (simp add: commit_quiet_def)
  next
    fix a
    assume q: "?q = sy_params s \<lparr> yp_postMigrationAction := a \<rparr>"
      and trimmed: "action_suffix a \<noteq> action_suffix (yp_postMigrationAction (sy_params s)) \<Longrightarrow> js_trim (action_suffix a) = action_suffix a"
        "action_folder a \<noteq> action_folder (yp_postMigrationAction (sy_params s)) \<Longrightarrow> js_trim (action_folder a) = action_folder a"
      and changed: "action_suffix a \<noteq> action_suffix (yp_postMigrationAction (sy_params s)) \<or>
        action_folder a \<noteq> action_folder (yp_postMigrationAction (sy_params s))"
    have new: "rhf_of ?q \<noteq> rhf_of (sy_params s)" "?q \<noteq> sy_params s"
      using changed q by (auto simp: rhf_of_def dest: arg_cong [where f = yp_postMigrationAction])
    have "?f (?f s) = \<lparr> sy_params = ?q, sy_rhf = rhf_of ?q, sy_before = Some (?q, rhf_of (sy_params s)) \<rparr>"
      using new unfolding step
      by (simp add: useFormSync_def Let_def to_form_effect_eq to_form_fires_def fires_def reads_params_def)
    then have "echo_free (?f (?f s))"
      using trimmed q by (simp add: echo_free_def fires_def)
    then show ?thesis ..
  qed
qed

lemma commit_before: "sy_before (useFormSync opts s) = Some (sy_params s, sy_rhf s)"
  by (simp add: useFormSync_def Let_def)

lemma unchanged_quiet:
  assumes "sy_before s = Some (sy_params s, sy_rhf s)"
  shows "commit_quiet (useFormSync opts) s"
proof -
  have "\<not> to_form_fires s"
    using assms by (simp add: to_form_fires_def fires_def)
  moreover have "write_back id stored_text opts s = sy_params s"
    using assms by (simp add: write_back_def write_text_def write_groups_def write_suffix_def write_folder_def fires_def Let_def)
  ultimately show ?thesis
    by (simp add: commit_quiet_def useFormSync_def Let_def)
qed

lemma quiet_next:
  assumes "commit_quiet (useFormSync opts) s"
  shows "sy_params (useFormSync opts s) = sy_params s" "sy_rhf (useFormSync opts s) = sy_rhf s"
    "commit_quiet (useFormSync opts) (useFormSync opts s)"
proof -
  show keeps: "sy_params (useFormSync opts s) = sy_params s" "sy_rhf (useFormSync opts s) = sy_rhf s"
    using assms by (simp_all add: commit_quiet_def)
  show "commit_quiet (useFormSync opts) (useFormSync opts s)"
    by (rule unchanged_quiet) (simp add: commit_before keeps)
qed

lemma quiet_stays:
  assumes "commit_quiet (useFormSync opts) s"
  shows "sy_params ((useFormSync opts ^^ n) s) = sy_params s \<and> sy_rhf ((useFormSync opts ^^ n) s) = sy_rhf s \<and>
    commit_quiet (useFormSync opts) ((useFormSync opts ^^ n) s)"
  by (induction n) (use assms quiet_next in auto)

text \<open>A change the first effect does not see is written; afterwards the first effect sees it.\<close>

lemma shown_soon:
  "commit_quiet (useFormSync opts) s \<or>
   (\<exists>n\<le>2. let t = (useFormSync opts ^^ n) s in sy_rhf t = rhf_of (sy_params t))"
proof -
  let ?f = "useFormSync opts"
  have fired: "sy_rhf t = rhf_of (sy_params t) \<or> sy_rhf (?f t) = rhf_of (sy_params (?f t))" if "to_form_fires t" for t
    using that by (simp add: useFormSync_def Let_def to_form_effect_eq)
  show ?thesis
  proof (cases "to_form_fires s")
    case True
    from fired [OF this] show ?thesis
    proof
      assume "sy_rhf s = rhf_of (sy_params s)"
      then have "let t = (?f ^^ 0) s in sy_rhf t = rhf_of (sy_params t)"
        by simp
      then show ?thesis
        by blast
    next
      assume "sy_rhf (?f s) = rhf_of (sy_params (?f s))"
      then have "let t = (?f ^^ 1) s in sy_rhf t = rhf_of (sy_params t)"
        by simp
      then show ?thesis
        using one_le_numeral by blast
    qed
  next
    case False
    then have keeps: "sy_rhf (?f s) = sy_rhf s"
      by (simp add: useFormSync_def Let_def)
    show ?thesis
    proof (cases "sy_params (?f s) = sy_params s")
      case True
      then show ?thesis
        using keeps by (simp add: commit_quiet_def)
    next
      case changed: False
      then have "to_form_fires (?f s)"
        by (simp add: to_form_fires_def fires_def reads_params_def commit_before not_sym)
      from fired [OF this] have "(let t = (?f ^^ 1) s in sy_rhf t = rhf_of (sy_params t)) \<or>
          (let t = (?f ^^ 2) s in sy_rhf t = rhf_of (sy_params t))"
        by (simp add: numeral_2_eq_2 Let_def)
      then show ?thesis
        using one_le_numeral order_refl by blast
    qed
  qed
qed

text \<open>C20: liveness of the standard form: whatever the parameters, the values of the form and the previous commit are, after
  at most four commits nothing is written any more, in either direction, and it stays so.\<close>

theorem standard_sync_settles:
  "\<exists>n\<le>4. \<forall>m. let t = (useFormSync opts ^^ n) s; u = (useFormSync opts ^^ m) t
     in commit_quiet (useFormSync opts) u \<and> sy_params u = sy_params t \<and> sy_rhf u = sy_rhf t"
proof -
  let ?f = "useFormSync opts"
  have "\<exists>n\<le>4. commit_quiet ?f ((?f ^^ n) s)"
  proof (cases "commit_quiet ?f s")
    case True
    then have "commit_quiet ?f ((?f ^^ 0) s)"
      by simp
    then show ?thesis
      by blast
  next
    case False
    then obtain n where n: "n \<le> 2" "sy_rhf ((?f ^^ n) s) = rhf_of (sy_params ((?f ^^ n) s))"
      using shown_soon [of opts s] by (auto simp: Let_def)
    from shown_settles [OF n(2), of opts] show ?thesis
    proof
      assume "commit_quiet ?f ((?f ^^ n) s)"
      then show ?thesis
        using n(1) by (intro exI [of _ n]) simp
    next
      assume "echo_free (?f (?f ((?f ^^ n) s)))"
      then have "commit_quiet ?f ((?f ^^ (n + 2)) s)"
        using echo_free_quiet by simp
      then show ?thesis
        using n(1) by (intro exI [of _ "n + 2"]) simp
    qed
  qed
  then obtain n where "n \<le> 4" "commit_quiet ?f ((?f ^^ n) s)"
    by blast
  then show ?thesis
    using quiet_stays [of opts "(?f ^^ n) s"] unfolding Let_def by blast
qed

section \<open>Who wins\<close>

text \<open>What a change of the parameters alone leaves: the form still shows the old ones.\<close>

definition after_change :: "sync_params \<Rightarrow> sync_params \<Rightarrow> sync_state" where
  "after_change p q = \<lparr> sy_params = q, sy_rhf = rhf_of p, sy_before = Some (p, rhf_of p) \<rparr>"

definition trimmed_action :: "sync_params \<Rightarrow> bool" where
  "trimmed_action p =
     (js_trim (action_suffix (yp_postMigrationAction p)) = action_suffix (yp_postMigrationAction p) \<and>
      js_trim (action_folder (yp_postMigrationAction p)) = action_folder (yp_postMigrationAction p))"

lemma change_shown:
  "sy_rhf (useFormSync opts (after_change p q)) = rhf_of q"
  "rhf_of p \<noteq> rhf_of q \<Longrightarrow> sy_params (useFormSync opts (after_change p q)) = q"
  "trimmed_action q \<Longrightarrow> sy_params (useFormSync opts (after_change p q)) = q"
proof -
  show rhf: "sy_rhf (useFormSync opts (after_change p q)) = rhf_of q"
    by (auto simp: useFormSync_def Let_def to_form_effect_eq to_form_fires_def fires_def reads_params_def after_change_def)
  show suppressed: "sy_params (useFormSync opts (after_change p q)) = q" if "rhf_of p \<noteq> rhf_of q"
    using that by (auto simp: useFormSync_def Let_def to_form_effect_eq to_form_fires_def fires_def reads_params_def
        after_change_def)
  show "sy_params (useFormSync opts (after_change p q)) = q" if "trimmed_action q"
  proof (cases "rhf_of p = rhf_of q")
    case True
    have "echo_free (after_change p q)"
      using True that by (simp add: echo_free_def after_change_def trimmed_action_def)
    from quiet_next(1) [OF echo_free_quiet [OF this]] show ?thesis
      by (simp add: after_change_def)
  qed (use suppressed in simp)
qed

lemma change_stays:
  assumes "trimmed_action q" "0 < n"
  shows "sy_params ((useFormSync opts ^^ n) (after_change p q)) = q"
    and "sy_rhf ((useFormSync opts ^^ n) (after_change p q)) = rhf_of q"
proof -
  let ?t = "useFormSync opts (after_change p q)"
  have t: "sy_params ?t = q" "sy_rhf ?t = rhf_of q"
    using change_shown assms(1) by blast+
  have "echo_free ?t"
    using t assms(1) by (simp add: echo_free_def trimmed_action_def)
  note still = quiet_stays [OF echo_free_quiet [OF this]]
  obtain m where "n = Suc m"
    using assms(2) gr0_implies_Suc by blast
  then show "sy_params ((useFormSync opts ^^ n) (after_change p q)) = q"
    "sy_rhf ((useFormSync opts ^^ n) (after_change p q)) = rhf_of q"
    using still [of m opts] t by (simp_all add: funpow_swap1)
qed

text \<open>in the standard form a change of the parameters from outside wins: from the next commit on the form shows it
  and the parameters keep it.\<close>

theorem standard_change_wins:
  assumes "trimmed_action q" "0 < n"
  shows "let s = (useFormSync opts ^^ n) (after_change p q) in sy_params s = q \<and> sy_rhf s = rhf_of q"
  using change_stays [OF assms] by (simp add: Let_def)

text \<open>In the rolling form nothing holds the effects back, and both directions write the values of the same render.\<close>

definition trimmed_form :: "MigrationDrawerRHFValues \<Rightarrow> bool" where
  "trimmed_form r =
     list_all (\<lambda>v. js_trim v = v)
       [rhf_dataCopyStartTime r, rhf_cutoverStartTime r, rhf_cutoverEndTime r, rhf_postMigrationActionSuffix r,
        rhf_postMigrationActionFolderName r]"

definition same_action :: "MigrationDrawerRHFValues \<Rightarrow> MigrationDrawerRHFValues \<Rightarrow> bool" where
  "same_action a b =
     (rhf_postMigrationActionSuffix a = rhf_postMigrationActionSuffix b \<and>
      rhf_postMigrationActionFolderName a = rhf_postMigrationActionFolderName b)"

text \<open>The form shows \<open>a\<close>, the parameters say \<open>b\<close>, and one commit earlier the parameters said \<open>a\<close>.\<close>

definition swapping :: "MigrationDrawerRHFValues \<Rightarrow> MigrationDrawerRHFValues \<Rightarrow> sync_state \<Rightarrow> bool" where
  "swapping a b s =
     (sy_rhf s = a \<and> rhf_of (sy_params s) = b \<and>
      (case sy_before s of None \<Rightarrow> False | Some (p, r) \<Rightarrow> rhf_of p = a))"

lemma swapping_fires:
  assumes "swapping a b s"
  shows "g a \<noteq> g b \<Longrightarrow> (\<And>p. g (rhf_of p) = h (f p)) \<Longrightarrow> fires f k s"
proof -
  assume g: "g a \<noteq> g b" "\<And>p. g (rhf_of p) = h (f p)"
  from assms obtain p r where "sy_before s = Some (p, r)" "rhf_of p = a" "rhf_of (sy_params s) = b"
    by (auto simp: swapping_def split: option.splits)
  moreover from this(2,3) g have "f p \<noteq> f (sy_params s)"
    by metis
  ultimately show "fires f k s"
    by (simp add: fires_def)
qed

lemma write_keeps:
  "(\<And>v p. g (upd (\<lambda>_. v) p) = g p) \<Longrightarrow> g (write_text get upd value_of clean s q) = g q"
  "(\<And>v p. g (p \<lparr> yp_securityGroups := v \<rparr>) = g p) \<Longrightarrow> g (write_groups s q) = g q"
  by (simp_all add: write_text_def write_groups_def Let_def)

lemma swap_written:
  assumes s: "swapping a b s" and ok: "trimmed_form a" "same_action a b"
  shows "rhf_of (write_back trimmed Some opts s) = a"
proof -
  let ?p = "sy_params s"
  have shown: "sy_rhf s = a" "rhf_of ?p = b"
    using s by (simp_all add: swapping_def)
  have none: "write_suffix Some e s q = q" "write_folder Some e s q = q" for e q
    using shown ok by (auto simp: write_suffix_def write_folder_def Let_def same_action_def trimmed_form_def)
  have written: "write_back trimmed Some opts s =
      (write_text yp_serverGroup yp_serverGroup_update rhf_serverGroup id s \<circ> write_groups s \<circ>
       write_text yp_cutoverEndTime yp_cutoverEndTime_update rhf_cutoverEndTime trimmed s \<circ>
       write_text yp_cutoverStartTime yp_cutoverStartTime_update rhf_cutoverStartTime trimmed s \<circ>
       write_text yp_dataCopyStartTime yp_dataCopyStartTime_update rhf_dataCopyStartTime trimmed s) ?p"
    by (simp add: write_back_def none)
  have eq: "rhf_securityGroups b = list_or (yp_securityGroups ?p)" "rhf_serverGroup b = nullish (yp_serverGroup ?p)"
    "rhf_dataCopyStartTime b = nullish (yp_dataCopyStartTime ?p)" "rhf_cutoverStartTime b = nullish (yp_cutoverStartTime ?p)"
    "rhf_cutoverEndTime b = nullish (yp_cutoverEndTime ?p)"
    using shown(2) by auto
  have each_text: "nullish (get (write_text get upd value_of clean s q)) = value_of a"
    if "\<And>p. value_of (rhf_of p) = nullish (get p)" "clean (value_of a) = value_of a" "get q = get ?p"
      "\<And>v p. get (upd (\<lambda>_. v) p) = v"
    for get upd value_of clean q
  proof (cases "value_of a = value_of b")
    case True
    then show ?thesis
      using that shown by (auto simp: write_text_def)
  next
    case False
    then show ?thesis
      using that shown swapping_fires [OF s, of value_of nullish get value_of] by (auto simp: write_text_def)
  qed
  have groups: "list_or (yp_securityGroups (write_groups s q)) = rhf_securityGroups a"
    if "yp_securityGroups q = yp_securityGroups ?p" for q
  proof (cases "rhf_securityGroups a = rhf_securityGroups b")
    case True
    then show ?thesis
      using that shown by (auto simp: write_groups_def)
  next
    case False
    then show ?thesis
      using that shown swapping_fires [OF s, of rhf_securityGroups list_or yp_securityGroups rhf_securityGroups]
      by (auto simp: write_groups_def list_or_def)
  qed
  have action: "yp_postMigrationAction (write_back trimmed Some opts s) = yp_postMigrationAction ?p"
    by (simp add: written write_keeps)
  have times: "nullish (yp_dataCopyStartTime (write_back trimmed Some opts s)) = rhf_dataCopyStartTime a"
    "nullish (yp_cutoverStartTime (write_back trimmed Some opts s)) = rhf_cutoverStartTime a"
    "nullish (yp_cutoverEndTime (write_back trimmed Some opts s)) = rhf_cutoverEndTime a"
    "nullish (yp_serverGroup (write_back trimmed Some opts s)) = rhf_serverGroup a"
    using ok(1) by (simp_all add: written write_keeps each_text trimmed_form_def)
  have groups: "list_or (yp_securityGroups (write_back trimmed Some opts s)) = rhf_securityGroups a"
    by (simp add: written write_keeps groups)
  show ?thesis
    using action times groups eq ok(2) shown
    by (intro MigrationDrawerRHFValues.equality) (auto simp: same_action_def)
qed

lemma swap_step:
  assumes "swapping a b s" "a \<noteq> b" "trimmed_form a" "same_action a b"
  shows "swapping b a (useRollingFormSync opts s)"
proof -
  have "to_form_fires s"
    using assms(1,2) by (auto simp: swapping_def to_form_fires_def fires_def reads_params_def split: option.splits)
  then have "useRollingFormSync opts s =
      \<lparr> sy_params = write_back trimmed Some opts s, sy_rhf = b, sy_before = Some (sy_params s, sy_rhf s) \<rparr>"
    using assms(1) by (simp add: useRollingFormSync_def to_form_effect_eq swapping_def)
  then show ?thesis
    using swap_written [OF assms(1,3,4)] assms(1) by (simp add: swapping_def)
qed

lemma swap_forever:
  assumes "swapping a b s" "a \<noteq> b" "trimmed_form a" "trimmed_form b" "same_action a b"
  shows "(if even n then swapping a b else swapping b a) ((useRollingFormSync opts ^^ n) s)"
proof (induction n)
  case (Suc n)
  have "same_action b a"
    using assms(5) by (simp add: same_action_def)
  then show ?case
    using Suc swap_step assms by (cases "even n") auto
qed (use assms in simp)

lemma rolling_swaps:
  assumes "rhf_of p \<noteq> rhf_of q" "trimmed_form (rhf_of p)" "trimmed_form (rhf_of q)" "same_action (rhf_of p) (rhf_of q)"
  shows "rhf_of (sy_params ((useRollingFormSync opts ^^ n) (after_change p q))) = rhf_of (if even n then q else p)"
    and "sy_rhf ((useRollingFormSync opts ^^ n) (after_change p q)) = rhf_of (if even n then p else q)"
proof -
  have "swapping (rhf_of p) (rhf_of q) (after_change p q)"
    by (simp add: swapping_def after_change_def)
  from swap_forever [OF this assms, of n opts]
  show "rhf_of (sy_params ((useRollingFormSync opts ^^ n) (after_change p q))) = rhf_of (if even n then q else p)"
    "sy_rhf ((useRollingFormSync opts ^^ n) (after_change p q)) = rhf_of (if even n then p else q)"
    by (auto simp: swapping_def split: if_splits)
qed

lemma rolling_never_quiet:
  assumes "rhf_of p \<noteq> rhf_of q" "trimmed_form (rhf_of p)" "trimmed_form (rhf_of q)" "same_action (rhf_of p) (rhf_of q)"
  shows "\<not> commit_quiet (useRollingFormSync opts) ((useRollingFormSync opts ^^ n) (after_change p q))"
  using rolling_swaps(2) [OF assms, of n opts] rolling_swaps(2) [OF assms, of "Suc n" opts] assms(1)
  by (auto simp: commit_quiet_def split: if_splits)

text \<open>in the rolling form a change of the parameters from outside (times, security groups, server group) never settles: every
  commit swaps the old and the new values between the parameters and the form.\<close>

theorem rolling_sync_swaps_forever:
  assumes "rhf_of p \<noteq> rhf_of q" "trimmed_form (rhf_of p)" "trimmed_form (rhf_of q)" "same_action (rhf_of p) (rhf_of q)"
  shows "let s = (useRollingFormSync opts ^^ n) (after_change p q)
    in rhf_of (sy_params s) = rhf_of (if even n then q else p) \<and> sy_rhf s = rhf_of (if even n then p else q) \<and>
       \<not> commit_quiet (useRollingFormSync opts) s"
  using rolling_swaps [OF assms] rolling_never_quiet [OF assms] by (simp add: Let_def)

section \<open>Edits in the form\<close>

definition after_edit :: "sync_params \<Rightarrow> MigrationDrawerRHFValues \<Rightarrow> sync_state" where
  "after_edit p r = \<lparr> sy_params = p, sy_rhf = r, sy_before = Some (p, rhf_of p) \<rparr>"

lemma edit_not_to_form: "\<not> to_form_fires (after_edit p r)"
  by (simp add: to_form_fires_def fires_def after_edit_def)

text \<open>in the standard form an edit of the suffix changes nothing but the suffix of the action, trimmed, and only while
  renaming is chosen; an edit of a time is written as it is.\<close>

theorem standard_edit_reaches_params:
  "sy_params (useFormSync opts (after_edit p ((rhf_of p) \<lparr> rhf_postMigrationActionSuffix := v \<rparr>))) =
     (if yo_renameVm opts \<and> v \<noteq> action_suffix (yp_postMigrationAction p) \<and> js_trim v \<noteq> action_suffix (yp_postMigrationAction p)
      then p \<lparr> yp_postMigrationAction :=
                 Some ((spread_action (yp_postMigrationAction p)) \<lparr> pm_suffix := stored_text (js_trim v) \<rparr>) \<rparr>
      else p)"
  "sy_params (useFormSync opts (after_edit p ((rhf_of p) \<lparr> rhf_cutoverStartTime := v \<rparr>))) =
     (if v \<noteq> nullish (yp_cutoverStartTime p) then p \<lparr> yp_cutoverStartTime := Some v \<rparr> else p)"
  by (auto simp: useFormSync_def Let_def edit_not_to_form)
    (auto simp: after_edit_def write_back_def write_text_def write_groups_def write_suffix_def write_folder_def fires_def
      Let_def)

text \<open>Suffix and folder edited before the same commit: both effects write the action of that render, the second wins.\<close>

lemma two_action_edits_lose_one:
  assumes "yo_renameVm opts" "yo_moveToFolder opts"
    "js_trim v \<noteq> action_suffix (yp_postMigrationAction p)" "js_trim w \<noteq> action_folder (yp_postMigrationAction p)"
    "v \<noteq> action_suffix (yp_postMigrationAction p)" "w \<noteq> action_folder (yp_postMigrationAction p)"
  shows "sy_params (useFormSync opts (after_edit p ((rhf_of p) \<lparr> rhf_postMigrationActionSuffix := v,
      rhf_postMigrationActionFolderName := w \<rparr>))) =
    p \<lparr> yp_postMigrationAction :=
          Some ((spread_action (yp_postMigrationAction p)) \<lparr> pm_folderName := stored_text (js_trim w) \<rparr>) \<rparr>"
proof -
  let ?r = "(rhf_of p) \<lparr> rhf_postMigrationActionSuffix := v, rhf_postMigrationActionFolderName := w \<rparr>"
  have "sy_params (useFormSync opts (after_edit p ?r)) = write_back id stored_text opts (after_edit p ?r)"
    by (simp add: useFormSync_def Let_def edit_not_to_form)
  also have "\<dots> = write_folder stored_text (yo_moveToFolder opts) (after_edit p ?r)
      (write_suffix stored_text (yo_renameVm opts) (after_edit p ?r) p)"
    by (simp add: write_back_def write_text_def write_groups_def after_edit_def Let_def)
  also have "write_suffix stored_text (yo_renameVm opts) (after_edit p ?r) p =
      p \<lparr> yp_postMigrationAction := Some ((spread_action (yp_postMigrationAction p)) \<lparr> pm_suffix := stored_text (js_trim v) \<rparr>) \<rparr>"
    using assms by (simp add: write_suffix_def after_edit_def fires_def Let_def not_sym)
  also have "write_folder stored_text (yo_moveToFolder opts) (after_edit p ?r) \<dots> =
      p \<lparr> yp_postMigrationAction := Some ((spread_action (yp_postMigrationAction p)) \<lparr> pm_folderName := stored_text (js_trim w) \<rparr>) \<rparr>"
    using assms by (simp add: write_folder_def after_edit_def fires_def Let_def not_sym)
  finally show ?thesis .
qed

section \<open>Witnesses\<close>

definition sample_sync :: sync_params where
  "sample_sync =
     \<lparr> yp_securityGroups = Some [''default''], yp_serverGroup = None, yp_dataCopyStartTime = None,
       yp_cutoverStartTime = Some ''2025-01-01T10:00'', yp_cutoverEndTime = None,
       yp_postMigrationAction = Some (empty_action \<lparr> pm_suffix := Some ''_moved'' \<rparr>) \<rparr>"

definition sample_options :: sync_options where
  "sample_options = \<lparr> yo_renameVm = True, yo_moveToFolder = False \<rparr>"

text \<open>The cold copy method clears the cutover time: the standard form follows, the rolling form swaps.\<close>

lemma standard_change_wins_witness:
  "let q = sample_sync \<lparr> yp_cutoverStartTime := Some [] \<rparr>; s = (useFormSync sample_options ^^ 3) (after_change sample_sync q)
   in sy_params s = q \<and> sy_rhf s = rhf_of q \<and> rhf_cutoverStartTime (rhf_of q) = []"
proof -
  let ?q = "sample_sync \<lparr> yp_cutoverStartTime := Some [] \<rparr>"
  have "trimmed_action ?q"
    by code_simp
  from standard_change_wins [OF this, of 3 sample_options sample_sync] show ?thesis
    by (simp add: Let_def)
qed

lemma rolling_sync_swaps_forever_witness:
  "let q = sample_sync \<lparr> yp_cutoverStartTime := Some [] \<rparr>; s = (useRollingFormSync sample_options ^^ 1000) (after_change sample_sync q)
   in nullish (yp_cutoverStartTime (sy_params s)) = [] \<and> rhf_cutoverStartTime (sy_rhf s) = ''2025-01-01T10:00'' \<and>
      \<not> commit_quiet (useRollingFormSync sample_options) s"
proof -
  let ?q = "sample_sync \<lparr> yp_cutoverStartTime := Some [] \<rparr>"
  have times: "rhf_cutoverStartTime (rhf_of sample_sync) = ''2025-01-01T10:00''" "rhf_cutoverStartTime (rhf_of ?q) = []"
    by code_simp+
  then have "rhf_of sample_sync \<noteq> rhf_of ?q"
    by (metis list.distinct(1))
  moreover have "trimmed_form (rhf_of sample_sync)" "trimmed_form (rhf_of ?q)" "same_action (rhf_of sample_sync) (rhf_of ?q)"
    by code_simp+
  ultimately have *: "let s = (useRollingFormSync sample_options ^^ 1000) (after_change sample_sync ?q)
    in rhf_of (sy_params s) = rhf_of ?q \<and> sy_rhf s = rhf_of sample_sync \<and>
       \<not> commit_quiet (useRollingFormSync sample_options) s"
    using rolling_sync_swaps_forever [of sample_sync ?q 1000 sample_options] by simp
  then have "nullish (yp_cutoverStartTime (sy_params ((useRollingFormSync sample_options ^^ 1000) (after_change sample_sync ?q)))) = []"
    unfolding rhf_of_simps(4) [symmetric] Let_def using times(2) by metis
  then show ?thesis
    using * times(1) by (simp add: Let_def)
qed

end
