(* ===== verification/Migration_Options.thy ===== *)
theory Migration_Options
  imports Form_Sync Form_Validation Js_Regex
begin

text \<open>
  The step of the migration options, \<open>ui/src/features/migration/steps/MigrationOptionsAlt.tsx\<close>: its handlers, its six
  effects and the warnings about the script. The handlers write to three places, the parameters, the selected options
  and the values of the form library; the effects write to the first two. What the effects are to maintain is
  \<open>options_consistent\<close>; it holds in every settled state of every history of the step.
\<close>

section \<open>The script\<close>

text \<open>Letters in either case, the beginning of the text, a word boundary, and a search in the whole text.\<close>

fun re_word_i :: "string \<Rightarrow> re" where
  "re_word_i [] p = [p]"
| "re_word_i (c # w) p = re_seq (re_char (\<lambda>x. lower_char x = lower_char c)) (re_word_i w) p"

definition re_start :: re where
  "re_start p = (if fst p = [] then [p] else [])"

definition word_char :: "char \<Rightarrow> bool" where
  "word_char c = (c \<in> set ''ABCDEFGHIJKLMNOPQRSTUVWXYZabcdefghijklmnopqrstuvwxyz0123456789_'')"

definition re_boundary :: re where
  "re_boundary p =
     (let (d, r) = p; before = (case d of [] \<Rightarrow> False | c # _ \<Rightarrow> word_char c); after = (case r of [] \<Rightarrow> False | c # _ \<Rightarrow> word_char c)
      in if before \<noteq> after then [p] else [])"

fun re_search :: "re \<Rightarrow> string \<Rightarrow> string \<Rightarrow> bool" where
  "re_search re d [] = (re (d, []) \<noteq> [])"
| "re_search re d (c # r) = (re (d, c # r) \<noteq> [] \<or> re_search re (c # d) r)"

definition re_line :: re where
  "re_line = re_seq (re_alt re_start (re_char (\<lambda>c. c = CHR 0x0A))) (re_star js_space)"

definition hasBashShebang :: "string \<Rightarrow> bool" where
  "hasBashShebang s =
     re_search (re_seq re_line (re_seq (re_word_i ''#!/bin/'') (re_seq (re_opt (re_word_i ''ba'')) (re_word_i ''sh'')))) [] s"

definition hasPowerShellSyntax :: "string \<Rightarrow> bool" where
  "hasPowerShellSyntax s =
     re_search
       (re_alt (re_seq re_boundary (re_seq (re_word ''Write-Host'') re_boundary))
         (re_alt (re_seq re_boundary (re_seq (re_word ''Throw'') re_boundary))
           (re_alt (re_seq re_boundary (re_seq (re_word ''Set-ExecutionPolicy'') re_boundary))
             (re_seq (re_char (\<lambda>c. c = CHR ''$''))
               (re_seq (re_char (\<lambda>c. word_char c \<and> \<not> digit_char c)) (re_star word_char)))))) [] s"

definition has_tag :: "string \<Rightarrow> string \<Rightarrow> bool" where
  "has_tag tag s =
     re_search (re_seq re_line (re_seq (re_alt (re_word ''//'') (re_word ''#'')) (re_seq (re_star js_space) (re_word_i tag)))) [] s"

definition hasLinuxTag :: "string \<Rightarrow> bool" where
  "hasLinuxTag = has_tag ''LINUX-SCRIPT:''"

definition hasWindowsTag :: "string \<Rightarrow> bool" where
  "hasWindowsTag = has_tag ''WINDOWS-SCRIPT:''"

definition os_is :: "string \<Rightarrow> string \<Rightarrow> VmData \<Rightarrow> bool" where
  "os_is a b vm = (case vd_osFamily vm of None \<Rightarrow> False | Some os \<Rightarrow> os \<noteq> [] \<and> (js_lower os = a \<or> js_lower os = b))"

definition hasWindowsVMSelected :: "FormValues \<Rightarrow> bool" where
  "hasWindowsVMSelected p = list_ex (os_is ''windows'' ''windowsguest'') (list_or (fv_vms p))"

definition hasLinuxVMSelected :: "FormValues \<Rightarrow> bool" where
  "hasLinuxVMSelected p = list_ex (os_is ''linux'' ''linuxguest'') (list_or (fv_vms p))"

datatype script_warning = NoWarning | MixedUntagged | BashOnWindows | PowerShellOnLinux

definition postMigrationScriptWarning :: "FormValues \<Rightarrow> SelectedMigrationOptions \<Rightarrow> script_warning" where
  "postMigrationScriptWarning p so =
     (let s = str_or (fv_postMigrationScript p) []; windows = hasWindowsVMSelected p; linux = hasLinuxVMSelected p
      in if \<not> bool_or (so_postMigrationScript so) then NoWarning
         else if windows \<and> linux \<and> js_trim s \<noteq> [] \<and> \<not> hasLinuxTag s \<and> \<not> hasWindowsTag s then MixedUntagged
         else if windows \<and> \<not> linux \<and> hasBashShebang s then BashOnWindows
         else if \<not> windows \<and> linux \<and> hasPowerShellSyntax s then PowerShellOnLinux
         else NoWarning)"

section \<open>State\<close>

text \<open>What the step is given besides the parameters and the selection.\<close>

record option_props =
  op_skipDefaultSeeding :: bool
  op_defaultMethod :: "string option"
  op_syncInterval :: "string option"
  op_hasSubnetMismatch :: bool
  op_hasPreserveIpDisabled :: bool
  op_isPCD :: bool
  op_openstackNetworks :: "PCDNetworkInfo list"

type_synonym option_render = "option_props \<times> FormValues \<times> SelectedMigrationOptions"

record option_state =
  ot_props :: option_props
  ot_params :: FormValues
  ot_selected :: SelectedMigrationOptions
  ot_rhf :: MigrationDrawerRHFValues
  ot_before :: "option_render option"

definition now :: "option_state \<Rightarrow> option_render" where
  "now s = (ot_props s, ot_params s, ot_selected s)"

definition isStorageAcceleratedCopy :: "FormValues \<Rightarrow> bool" where
  "isStorageAcceleratedCopy p = (fv_storageCopyMethod p = Some ''StorageAcceleratedCopy'')"

definition isHotAdd :: "FormValues \<Rightarrow> bool" where
  "isHotAdd p = (fv_storageCopyMethod p = Some ''HotAdd'')"

definition isPowerOffThenCopy :: "FormValues \<Rightarrow> bool" where
  "isPowerOffThenCopy p = (str_or (fv_dataCopyMethod p) ''cold'' = ''cold'')"

definition disableNetworkPersistence :: "option_props \<Rightarrow> bool" where
  "disableNetworkPersistence pr = (op_hasSubnetMismatch pr \<or> op_hasPreserveIpDisabled pr)"

definition hasSimpleNetworkTag :: "PCDNetworkInfo \<Rightarrow> bool" where
  "hasSimpleNetworkTag n = (''simple_network'' \<in> set (pn_tags n))"

definition hasSelectedLayer2Network :: "ResourceMap list option \<Rightarrow> PCDNetworkInfo list \<Rightarrow> bool" where
  "hasSelectedLayer2Network mappings networks =
     (let targets = filter (\<lambda>t. t \<noteq> []) (map rm_target (list_or mappings))
      in list_ex (\<lambda>n. pn_name n \<in> set targets \<and> hasSimpleNetworkTag n) networks)"

section \<open>Effects\<close>

text \<open>\<open>f\<close> reads the dependencies of an effect.\<close>

definition dep_changed :: "(option_render \<Rightarrow> 'a) \<Rightarrow> option_state \<Rightarrow> bool" where
  "dep_changed f s = (case ot_before s of None \<Rightarrow> True | Some r \<Rightarrow> f r \<noteq> f (now s))"

abbreviation method_deps :: "option_render \<Rightarrow> string option \<times> string option \<times> bool" where
  "method_deps \<equiv> \<lambda>(pr, p, so). (op_defaultMethod pr, fv_dataCopyMethod p, op_skipDefaultSeeding pr)"

abbreviation cutover_deps :: "option_render \<Rightarrow> string option \<times> bool" where
  "cutover_deps \<equiv> \<lambda>(pr, p, so). (fv_cutoverOption p, op_skipDefaultSeeding pr)"

abbreviation accelerated_deps ::
  "option_render \<Rightarrow> bool \<times> bool option \<times> bool option \<times> bool option \<times> bool option" where
  "accelerated_deps \<equiv> \<lambda>(pr, p, so).
     (isStorageAcceleratedCopy p, so_cutoverOption so, so_dataCopyMethod so, so_dataCopyStartTime so, so_periodicSyncEnabled so)"

abbreviation hot_add_deps :: "option_render \<Rightarrow> bool" where
  "hot_add_deps \<equiv> \<lambda>(pr, p, so). isHotAdd p"

abbreviation cold_deps :: "option_render \<Rightarrow> bool \<times> string option \<times> bool option \<times> bool option" where
  "cold_deps \<equiv> \<lambda>(pr, p, so). (isPowerOffThenCopy p, fv_dataCopyMethod p, so_cutoverOption so, so_periodicSyncEnabled so)"

abbreviation persistence_deps :: "option_render \<Rightarrow> bool \<times> bool option" where
  "persistence_deps \<equiv> \<lambda>(pr, p, so). (disableNetworkPersistence pr, fv_networkPersistence p)"

text \<open>Each effect reads the render \<open>s\<close> and adds its writes to those of the effects before it.\<close>

definition seed_method :: "option_state \<Rightarrow> FormValues \<Rightarrow> FormValues" where
  "seed_method s p =
     (if dep_changed method_deps s \<and> \<not> op_skipDefaultSeeding (ot_props s) \<and> \<not> str_truthy (fv_dataCopyMethod (ot_params s))
      then p \<lparr> fv_dataCopyMethod := Some (str_or (op_defaultMethod (ot_props s)) ''cold'') \<rparr> else p)"

definition seed_cutover :: "option_state \<Rightarrow> FormValues \<Rightarrow> FormValues" where
  "seed_cutover s p =
     (if dep_changed cutover_deps s \<and> \<not> op_skipDefaultSeeding (ot_props s) \<and> \<not> str_truthy (fv_cutoverOption (ot_params s))
      then p \<lparr> fv_cutoverOption := Some CUTOVER_IMMEDIATE \<rparr> else p)"

definition accelerated_fires :: "option_state \<Rightarrow> bool" where
  "accelerated_fires s = (dep_changed accelerated_deps s \<and> isStorageAcceleratedCopy (ot_params s))"

definition accelerated_params :: "option_state \<Rightarrow> FormValues \<Rightarrow> FormValues" where
  "accelerated_params s p =
     (if accelerated_fires s
      then p \<lparr> fv_dataCopyStartTime := Some [], fv_cutoverStartTime := Some [], fv_cutoverEndTime := Some [],
               fv_periodicSyncInterval := Some [] \<rparr>
      else p)"

definition unselect :: "bool option \<Rightarrow> bool option \<Rightarrow> bool option" where
  "unselect shown v = (if bool_or shown then Some False else v)"

definition accelerated_selected :: "option_state \<Rightarrow> SelectedMigrationOptions \<Rightarrow> SelectedMigrationOptions" where
  "accelerated_selected s so =
     (let r = ot_selected s
      in if accelerated_fires s
         then so \<lparr> so_dataCopyMethod := unselect (so_dataCopyMethod r) (so_dataCopyMethod so),
                   so_dataCopyStartTime := unselect (so_dataCopyStartTime r) (so_dataCopyStartTime so),
                   so_cutoverOption := unselect (so_cutoverOption r) (so_cutoverOption so),
                   so_periodicSyncEnabled := unselect (so_periodicSyncEnabled r) (so_periodicSyncEnabled so) \<rparr>
         else so)"

definition hot_add_effect :: "option_state \<Rightarrow> FormValues \<Rightarrow> FormValues" where
  "hot_add_effect s p =
     (if dep_changed hot_add_deps s \<and> isHotAdd (ot_params s) \<and>
         fv_dataCopyMethod (ot_params s) \<noteq> Some ''cold'' \<and> fv_dataCopyMethod (ot_params s) \<noteq> Some ''mock''
      then p \<lparr> fv_dataCopyMethod := Some ''cold'' \<rparr> else p)"

definition cold_fires :: "option_state \<Rightarrow> bool" where
  "cold_fires s =
     (dep_changed cold_deps s \<and> fv_dataCopyMethod (ot_params s) \<noteq> None \<and> isPowerOffThenCopy (ot_params s))"

definition cold_params :: "option_state \<Rightarrow> FormValues \<Rightarrow> FormValues" where
  "cold_params s p =
     (if cold_fires s
      then p \<lparr> fv_periodicSyncInterval := Some [], fv_cutoverStartTime := Some [], fv_cutoverEndTime := Some [] \<rparr> else p)"

definition cold_selected :: "option_state \<Rightarrow> SelectedMigrationOptions \<Rightarrow> SelectedMigrationOptions" where
  "cold_selected s so =
     (let r = ot_selected s
      in if cold_fires s
         then so \<lparr> so_cutoverOption := unselect (so_cutoverOption r) (so_cutoverOption so),
                   so_periodicSyncEnabled := unselect (so_periodicSyncEnabled r) (so_periodicSyncEnabled so) \<rparr>
         else so)"

definition persistence_effect :: "option_state \<Rightarrow> FormValues \<Rightarrow> FormValues" where
  "persistence_effect s p =
     (if dep_changed persistence_deps s \<and> disableNetworkPersistence (ot_props s) \<and> bool_or (fv_networkPersistence (ot_params s))
      then p \<lparr> fv_networkPersistence := Some False \<rparr> else p)"

text \<open>A commit: the effects in the order of the source, all with the render of the commit.\<close>

definition option_commit :: "option_state \<Rightarrow> option_state" where
  "option_commit s =
     s \<lparr> ot_params :=
           (persistence_effect s \<circ> cold_params s \<circ> hot_add_effect s \<circ> accelerated_params s \<circ> seed_cutover s \<circ>
            seed_method s) (ot_params s),
         ot_selected := (cold_selected s \<circ> accelerated_selected s) (ot_selected s),
         ot_before := Some (now s) \<rparr>"

definition settled :: "option_state \<Rightarrow> bool" where
  "settled s = (ot_before s = Some (now s))"

definition mounted :: "option_props \<Rightarrow> FormValues \<Rightarrow> SelectedMigrationOptions \<Rightarrow> MigrationDrawerRHFValues \<Rightarrow> option_state" where
  "mounted pr p so r = \<lparr> ot_props = pr, ot_params = p, ot_selected = so, ot_rhf = r, ot_before = None \<rparr>"

section \<open>Handlers\<close>

datatype option_click =
    ClickDataCopyMethod
  | ChooseDataCopyMethod string
  | ClickNetworkRisk
  | ClickDataCopyStart
  | ClickCutover
  | ChooseCutover string
  | ClickPeriodicSync
  | TypeInterval string
  | ClickRename
  | ClickFolder
  | ClickDataOnly
  | ClickDisconnect
  | ClickDhcp
  | ClickPersistence
  | ClickGpu
  | ClickTools
  | ClickScript
  | TypeScript string

definition cutover_shown :: "FormValues \<Rightarrow> bool" where
  "cutover_shown p = (\<not> isStorageAcceleratedCopy p \<and> \<not> isPowerOffThenCopy p)"

text \<open>What is rendered and not disabled.\<close>

fun click_enabled :: "option_click \<Rightarrow> option_state \<Rightarrow> bool" where
  "click_enabled ClickDataCopyMethod s = (\<not> isStorageAcceleratedCopy (ot_params s))"
| "click_enabled (ChooseDataCopyMethod v) s =
     (\<not> isStorageAcceleratedCopy (ot_params s) \<and> (bool_or (so_dataCopyMethod (ot_selected s)) \<or> isHotAdd (ot_params s)) \<and>
      v \<in> {''cold'', ''hot'', ''mock''} \<and> \<not> (isHotAdd (ot_params s) \<and> v \<noteq> ''cold'' \<and> v \<noteq> ''mock''))"
| "click_enabled ClickNetworkRisk s =
     (\<not> isStorageAcceleratedCopy (ot_params s) \<and> fv_dataCopyMethod (ot_params s) = Some ''mock'')"
| "click_enabled ClickDataCopyStart s = (\<not> isStorageAcceleratedCopy (ot_params s))"
| "click_enabled ClickCutover s = cutover_shown (ot_params s)"
| "click_enabled (ChooseCutover v) s =
     (cutover_shown (ot_params s) \<and> bool_or (so_cutoverOption (ot_selected s)) \<and>
      v \<in> {CUTOVER_IMMEDIATE, CUTOVER_ADMIN_INITIATED, CUTOVER_TIME_WINDOW})"
| "click_enabled ClickPeriodicSync s =
     (cutover_shown (ot_params s) \<and> bool_or (so_cutoverOption (ot_selected s)) \<and>
      fv_cutoverOption (ot_params s) = Some CUTOVER_ADMIN_INITIATED)"
| "click_enabled (TypeInterval v) s =
     (cutover_shown (ot_params s) \<and> bool_or (so_cutoverOption (ot_selected s)) \<and>
      fv_cutoverOption (ot_params s) = Some CUTOVER_ADMIN_INITIATED \<and> bool_or (so_periodicSyncEnabled (ot_selected s)))"
| "click_enabled ClickDisconnect s = (\<not> bool_or (fv_dataOnly (ot_params s)))"
| "click_enabled ClickDhcp s =
     (\<not> hasSelectedLayer2Network (fv_networkMappings (ot_params s)) (op_openstackNetworks (ot_props s)) \<and>
      \<not> bool_or (fv_dataOnly (ot_params s)))"
| "click_enabled ClickPersistence s = (\<not> disableNetworkPersistence (ot_props s) \<and> \<not> bool_or (fv_dataOnly (ot_params s)))"
| "click_enabled ClickGpu s = op_isPCD (ot_props s)"
| "click_enabled (TypeScript v) s = bool_or (so_postMigrationScript (ot_selected s))"
| "click_enabled _ s = True"

abbreviation put_param :: "(FormValues \<Rightarrow> FormValues) \<Rightarrow> option_state \<Rightarrow> option_state" where
  "put_param f \<equiv> ot_params_update f"

abbreviation put_option :: "(SelectedMigrationOptions \<Rightarrow> SelectedMigrationOptions) \<Rightarrow> option_state \<Rightarrow> option_state" where
  "put_option f \<equiv> ot_selected_update f"

abbreviation put_value :: "(MigrationDrawerRHFValues \<Rightarrow> MigrationDrawerRHFValues) \<Rightarrow> option_state \<Rightarrow> option_state" where
  "put_value f \<equiv> ot_rhf_update f"

text \<open>\<open>{...selectedMigrationOptions.postMigrationAction, ...}\<close>\<close>

definition spread_selected :: "SelectedPostAction option \<Rightarrow> SelectedPostAction" where
  "spread_selected a =
     (case a of None \<Rightarrow> \<lparr> sp_suffix = None, sp_folderName = None, sp_renameVm = None, sp_moveToFolder = None \<rparr> | Some x \<Rightarrow> x)"

definition clickRename :: "option_state \<Rightarrow> option_state" where
  "clickRename s =
     (let a = so_postMigrationAction (ot_selected s); pa = fv_postMigrationAction (ot_params s);
          isChecked = \<not> (case a of None \<Rightarrow> False | Some x \<Rightarrow> bool_or (sp_renameVm x));
          suffix = str_or (Option.bind pa pm_suffix) ''_migrated_to_pcd''
      in s \<lparr> ot_rhf := (ot_rhf s) \<lparr> rhf_postMigrationActionSuffix := if isChecked then suffix else [] \<rparr>,
             ot_selected := (ot_selected s) \<lparr> so_postMigrationAction :=
               Some ((spread_selected a) \<lparr> sp_renameVm := Some isChecked, sp_suffix := Some isChecked \<rparr>) \<rparr>,
             ot_params := (ot_params s) \<lparr> fv_postMigrationAction :=
               Some ((spread_action pa) \<lparr> pm_renameVm := Some isChecked,
                 pm_suffix := if isChecked then Some suffix else None \<rparr>) \<rparr> \<rparr>)"

definition clickFolder :: "option_state \<Rightarrow> option_state" where
  "clickFolder s =
     (let a = so_postMigrationAction (ot_selected s); pa = fv_postMigrationAction (ot_params s);
          isChecked = \<not> (case a of None \<Rightarrow> False | Some x \<Rightarrow> bool_or (sp_moveToFolder x));
          folder = str_or (Option.bind pa pm_folderName) ''vjailbreakedVMs''
      in s \<lparr> ot_rhf := (ot_rhf s) \<lparr> rhf_postMigrationActionFolderName := if isChecked then folder else [] \<rparr>,
             ot_selected := (ot_selected s) \<lparr> so_postMigrationAction :=
               Some ((spread_selected a) \<lparr> sp_moveToFolder := Some isChecked, sp_folderName := Some isChecked \<rparr>) \<rparr>,
             ot_params := (ot_params s) \<lparr> fv_postMigrationAction :=
               Some ((spread_action pa) \<lparr> pm_moveToFolder := Some isChecked,
                 pm_folderName := if isChecked then Some folder else None \<rparr>) \<rparr> \<rparr>)"

text \<open>The boxes of the cutover: unticking one takes back what it allowed.\<close>

definition clickDataCopyMethod :: "option_state \<Rightarrow> option_state" where
  "clickDataCopyMethod s =
     (let isChecked = \<not> bool_or (so_dataCopyMethod (ot_selected s));
          s1 = put_option (so_dataCopyMethod_update (\<lambda>_. Some isChecked)) s
      in if isChecked then s1
         else put_param (\<lambda>p. p \<lparr> fv_dataCopyMethod := Some ''cold'', fv_acknowledgeNetworkConflictRisk := Some False \<rparr>) s1)"

definition chooseDataCopyMethod :: "string \<Rightarrow> option_state \<Rightarrow> option_state" where
  "chooseDataCopyMethod v s =
     (let s1 = put_param (fv_dataCopyMethod_update (\<lambda>_. Some v)) s
      in if v \<noteq> ''mock'' then put_param (fv_acknowledgeNetworkConflictRisk_update (\<lambda>_. Some False)) s1 else s1)"

definition clickDataCopyStart :: "option_state \<Rightarrow> option_state" where
  "clickDataCopyStart s =
     (let isChecked = \<not> bool_or (so_dataCopyStartTime (ot_selected s));
          s1 = put_option (so_dataCopyStartTime_update (\<lambda>_. Some isChecked)) s
      in if isChecked then s1
         else put_value (rhf_dataCopyStartTime_update (\<lambda>_. [])) (put_param (fv_dataCopyStartTime_update (\<lambda>_. Some [])) s1))"

definition clickCutover :: "option_state \<Rightarrow> option_state" where
  "clickCutover s =
     (let isChecked = \<not> bool_or (so_cutoverOption (ot_selected s));
          s1 = put_option (so_cutoverOption_update (\<lambda>_. Some isChecked)) s
      in if isChecked then s1
         else put_value (\<lambda>r. r \<lparr> rhf_cutoverStartTime := [], rhf_cutoverEndTime := [] \<rparr>)
                (put_param (\<lambda>p. p \<lparr> fv_cutoverOption := Some CUTOVER_IMMEDIATE, fv_cutoverStartTime := Some [],
                                     fv_cutoverEndTime := Some [], fv_periodicSyncInterval := Some [] \<rparr>)
                  (put_option (so_periodicSyncEnabled_update (\<lambda>_. Some False)) s1)))"

definition clickPeriodicSync :: "option_state \<Rightarrow> option_state" where
  "clickPeriodicSync s =
     (let isChecked = \<not> bool_or (so_periodicSyncEnabled (ot_selected s))
      in put_param (fv_periodicSyncInterval_update (\<lambda>_. if isChecked then op_syncInterval (ot_props s) else Some []))
           (put_option (so_periodicSyncEnabled_update (\<lambda>_. Some isChecked)) s))"

definition clickScript :: "option_state \<Rightarrow> option_state" where
  "clickScript s =
     (let isChecked = \<not> bool_or (so_postMigrationScript (ot_selected s));
          s1 = put_option (so_postMigrationScript_update (\<lambda>_. Some isChecked)) s
      in if isChecked then s1 else put_param (fv_postMigrationScript_update (\<lambda>_. Some [])) s1)"

definition toggled :: "bool option \<Rightarrow> bool option" where
  "toggled v = Some (\<not> bool_or v)"

fun click :: "option_click \<Rightarrow> option_state \<Rightarrow> option_state" where
  "click ClickDataCopyMethod s = clickDataCopyMethod s"
| "click (ChooseDataCopyMethod v) s = chooseDataCopyMethod v s"
| "click ClickNetworkRisk s = put_param (fv_acknowledgeNetworkConflictRisk_update toggled) s"
| "click ClickDataCopyStart s = clickDataCopyStart s"
| "click ClickCutover s = clickCutover s"
| "click (ChooseCutover v) s = put_param (fv_cutoverOption_update (\<lambda>_. Some v)) s"
| "click ClickPeriodicSync s = clickPeriodicSync s"
| "click (TypeInterval v) s = put_param (fv_periodicSyncInterval_update (\<lambda>_. Some (js_trim v))) s"
| "click ClickRename s = clickRename s"
| "click ClickFolder s = clickFolder s"
| "click ClickDataOnly s = put_param (fv_dataOnly_update toggled) s"
| "click ClickDisconnect s = put_param (fv_disconnectSourceNetwork_update toggled) s"
| "click ClickDhcp s = put_param (fv_fallbackToDHCP_update toggled) s"
| "click ClickPersistence s = put_param (fv_networkPersistence_update toggled) s"
| "click ClickGpu s =
     (let isChecked = \<not> bool_or (fv_useGPU (ot_params s))
      in put_param (fv_useGPU_update (\<lambda>_. Some isChecked)) (put_option (so_useGPU_update (\<lambda>_. Some isChecked)) s))"
| "click ClickTools s = put_param (fv_removeVMwareTools_update toggled) s"
| "click ClickScript s = clickScript s"
| "click (TypeScript v) s = put_param (fv_postMigrationScript_update (\<lambda>_. Some v)) s"

text \<open>The pickers of the times; a time goes through the form library into the parameters.\<close>

datatype option_time = DataCopyTime | CutoverStart | CutoverEnd

fun picker_shown :: "option_time \<Rightarrow> option_state \<Rightarrow> bool" where
  "picker_shown DataCopyTime s =
     (\<not> isStorageAcceleratedCopy (ot_params s) \<and> bool_or (so_dataCopyStartTime (ot_selected s)))"
| "picker_shown _ s =
     (cutover_shown (ot_params s) \<and> bool_or (so_cutoverOption (ot_selected s)) \<and>
      fv_cutoverOption (ot_params s) = Some CUTOVER_TIME_WINDOW)"

fun pick_time :: "option_time \<Rightarrow> string \<Rightarrow> option_state \<Rightarrow> option_state" where
  "pick_time DataCopyTime v s =
     put_value (rhf_dataCopyStartTime_update (\<lambda>_. v)) (put_param (fv_dataCopyStartTime_update (\<lambda>_. Some v)) s)"
| "pick_time CutoverStart v s =
     put_value (rhf_cutoverStartTime_update (\<lambda>_. v)) (put_param (fv_cutoverStartTime_update (\<lambda>_. Some v)) s)"
| "pick_time CutoverEnd v s =
     put_value (rhf_cutoverEndTime_update (\<lambda>_. v)) (put_param (fv_cutoverEndTime_update (\<lambda>_. Some v)) s)"

section \<open>Consistency\<close>

definition options_cleared :: "FormValues \<Rightarrow> bool" where
  "options_cleared p =
     (fv_periodicSyncInterval p = Some [] \<and> fv_cutoverStartTime p = Some [] \<and> fv_cutoverEndTime p = Some [])"

definition seeded :: "option_render \<Rightarrow> bool" where
  "seeded = (\<lambda>(pr, p, so). op_skipDefaultSeeding pr \<or> (str_truthy (fv_dataCopyMethod p) \<and> str_truthy (fv_cutoverOption p)))"

definition accelerated_clear :: "option_render \<Rightarrow> bool" where
  "accelerated_clear = (\<lambda>(pr, p, so). isStorageAcceleratedCopy p \<longrightarrow>
     \<not> bool_or (so_dataCopyMethod so) \<and> \<not> bool_or (so_dataCopyStartTime so) \<and> \<not> bool_or (so_cutoverOption so) \<and>
     \<not> bool_or (so_periodicSyncEnabled so) \<and> fv_dataCopyStartTime p = Some [] \<and> options_cleared p)"

definition hot_add_method :: "option_render \<Rightarrow> bool" where
  "hot_add_method = (\<lambda>(pr, p, so). isHotAdd p \<longrightarrow> fv_dataCopyMethod p \<in> {Some ''cold'', Some ''mock''})"

definition cold_clear :: "option_render \<Rightarrow> bool" where
  "cold_clear = (\<lambda>(pr, p, so). fv_dataCopyMethod p \<noteq> None \<and> isPowerOffThenCopy p \<longrightarrow>
     \<not> bool_or (so_cutoverOption so) \<and> \<not> bool_or (so_periodicSyncEnabled so) \<and> options_cleared p)"

definition persistence_off :: "option_render \<Rightarrow> bool" where
  "persistence_off = (\<lambda>(pr, p, so). disableNetworkPersistence pr \<longrightarrow> \<not> bool_or (fv_networkPersistence p))"

definition options_consistent :: "option_render \<Rightarrow> bool" where
  "options_consistent r = (seeded r \<and> accelerated_clear r \<and> hot_add_method r \<and> cold_clear r \<and> persistence_off r)"

text \<open>Every history of the step. The operator acts on a settled state; the settings, the networks and the check of the
  subnets arrive at any time, and so do edits of other steps, of which the copy method is the one that matters here.\<close>

inductive options_history :: "option_state \<Rightarrow> bool" where
  opened: "options_history (mounted pr p so r)"
| committed: "options_history s \<Longrightarrow> options_history (option_commit s)"
| clicked: "options_history s \<Longrightarrow> settled s \<Longrightarrow> click_enabled c s \<Longrightarrow> options_history (click c s)"
| picked: "options_history s \<Longrightarrow> settled s \<Longrightarrow> picker_shown t s \<Longrightarrow> options_history (pick_time t v s)"
| informed: "options_history s \<Longrightarrow> settled s \<Longrightarrow> options_history (s \<lparr> ot_props := pr \<rparr>)"
| copy_chosen: "options_history s \<Longrightarrow> settled s \<Longrightarrow>
    options_history (put_param (fv_storageCopyMethod_update (\<lambda>_. v)) s)"

section \<open>What a commit writes\<close>

definition seeds_method :: "option_state \<Rightarrow> bool" where
  "seeds_method s =
     (dep_changed method_deps s \<and> \<not> op_skipDefaultSeeding (ot_props s) \<and> \<not> str_truthy (fv_dataCopyMethod (ot_params s)))"

definition forces_cold :: "option_state \<Rightarrow> bool" where
  "forces_cold s =
     (dep_changed hot_add_deps s \<and> isHotAdd (ot_params s) \<and>
      fv_dataCopyMethod (ot_params s) \<noteq> Some ''cold'' \<and> fv_dataCopyMethod (ot_params s) \<noteq> Some ''mock'')"

lemmas effect_defs = seed_method_def seed_cutover_def accelerated_params_def hot_add_effect_def cold_params_def
  persistence_effect_def

lemma effect_keeps [simp]:
  "fv_cutoverOption (seed_method s p) = fv_cutoverOption p" "fv_dataCopyStartTime (seed_method s p) = fv_dataCopyStartTime p"
  "fv_cutoverStartTime (seed_method s p) = fv_cutoverStartTime p" "fv_cutoverEndTime (seed_method s p) = fv_cutoverEndTime p"
  "fv_periodicSyncInterval (seed_method s p) = fv_periodicSyncInterval p" "fv_networkPersistence (seed_method s p) = fv_networkPersistence p"
  "fv_storageCopyMethod (seed_method s p) = fv_storageCopyMethod p"
  "fv_dataCopyMethod (seed_cutover s p) = fv_dataCopyMethod p" "fv_dataCopyStartTime (seed_cutover s p) = fv_dataCopyStartTime p"
  "fv_cutoverStartTime (seed_cutover s p) = fv_cutoverStartTime p" "fv_cutoverEndTime (seed_cutover s p) = fv_cutoverEndTime p"
  "fv_periodicSyncInterval (seed_cutover s p) = fv_periodicSyncInterval p" "fv_networkPersistence (seed_cutover s p) = fv_networkPersistence p"
  "fv_storageCopyMethod (seed_cutover s p) = fv_storageCopyMethod p"
  "fv_dataCopyMethod (accelerated_params s p) = fv_dataCopyMethod p" "fv_cutoverOption (accelerated_params s p) = fv_cutoverOption p"
  "fv_networkPersistence (accelerated_params s p) = fv_networkPersistence p" "fv_storageCopyMethod (accelerated_params s p) = fv_storageCopyMethod p"
  "fv_cutoverOption (hot_add_effect s p) = fv_cutoverOption p" "fv_dataCopyStartTime (hot_add_effect s p) = fv_dataCopyStartTime p"
  "fv_cutoverStartTime (hot_add_effect s p) = fv_cutoverStartTime p" "fv_cutoverEndTime (hot_add_effect s p) = fv_cutoverEndTime p"
  "fv_periodicSyncInterval (hot_add_effect s p) = fv_periodicSyncInterval p" "fv_networkPersistence (hot_add_effect s p) = fv_networkPersistence p"
  "fv_storageCopyMethod (hot_add_effect s p) = fv_storageCopyMethod p"
  "fv_dataCopyMethod (cold_params s p) = fv_dataCopyMethod p" "fv_cutoverOption (cold_params s p) = fv_cutoverOption p"
  "fv_dataCopyStartTime (cold_params s p) = fv_dataCopyStartTime p" "fv_networkPersistence (cold_params s p) = fv_networkPersistence p"
  "fv_storageCopyMethod (cold_params s p) = fv_storageCopyMethod p"
  "fv_dataCopyMethod (persistence_effect s p) = fv_dataCopyMethod p" "fv_cutoverOption (persistence_effect s p) = fv_cutoverOption p"
  "fv_dataCopyStartTime (persistence_effect s p) = fv_dataCopyStartTime p" "fv_cutoverStartTime (persistence_effect s p) = fv_cutoverStartTime p"
  "fv_cutoverEndTime (persistence_effect s p) = fv_cutoverEndTime p" "fv_periodicSyncInterval (persistence_effect s p) = fv_periodicSyncInterval p"
  "fv_storageCopyMethod (persistence_effect s p) = fv_storageCopyMethod p"
  by (simp_all add: effect_defs)

lemma commit_props [simp]:
  "ot_props (option_commit s) = ot_props s" "ot_before (option_commit s) = Some (now s)" "ot_rhf (option_commit s) = ot_rhf s"
  by (simp_all add: option_commit_def)

lemma commit_method:
  "fv_dataCopyMethod (ot_params (option_commit s)) =
     (if forces_cold s then Some ''cold''
      else if seeds_method s then Some (str_or (op_defaultMethod (ot_props s)) ''cold'')
      else fv_dataCopyMethod (ot_params s))"
  by (simp add: option_commit_def) (simp add: seed_method_def hot_add_effect_def seeds_method_def forces_cold_def)

lemma commit_cutover:
  "fv_cutoverOption (ot_params (option_commit s)) =
     (if dep_changed cutover_deps s \<and> \<not> op_skipDefaultSeeding (ot_props s) \<and> \<not> str_truthy (fv_cutoverOption (ot_params s))
      then Some CUTOVER_IMMEDIATE else fv_cutoverOption (ot_params s))"
  by (simp add: option_commit_def) (simp add: seed_cutover_def)

lemma commit_times:
  "fv_dataCopyStartTime (ot_params (option_commit s)) =
     (if accelerated_fires s then Some [] else fv_dataCopyStartTime (ot_params s))"
  "fv_cutoverStartTime (ot_params (option_commit s)) =
     (if accelerated_fires s \<or> cold_fires s then Some [] else fv_cutoverStartTime (ot_params s))"
  "fv_cutoverEndTime (ot_params (option_commit s)) =
     (if accelerated_fires s \<or> cold_fires s then Some [] else fv_cutoverEndTime (ot_params s))"
  "fv_periodicSyncInterval (ot_params (option_commit s)) =
     (if accelerated_fires s \<or> cold_fires s then Some [] else fv_periodicSyncInterval (ot_params s))"
  by (simp_all add: option_commit_def) (simp_all add: cold_params_def accelerated_params_def)

lemma commit_persistence:
  "fv_networkPersistence (ot_params (option_commit s)) =
     (if dep_changed persistence_deps s \<and> disableNetworkPersistence (ot_props s) \<and>
         bool_or (fv_networkPersistence (ot_params s))
      then Some False else fv_networkPersistence (ot_params s))"
  by (simp add: option_commit_def) (simp add: persistence_effect_def)

lemma commit_flags:
  "so_dataCopyMethod (ot_selected (option_commit s)) =
     (if accelerated_fires s then unselect (so_dataCopyMethod (ot_selected s)) (so_dataCopyMethod (ot_selected s))
      else so_dataCopyMethod (ot_selected s))"
  "so_dataCopyStartTime (ot_selected (option_commit s)) =
     (if accelerated_fires s then unselect (so_dataCopyStartTime (ot_selected s)) (so_dataCopyStartTime (ot_selected s))
      else so_dataCopyStartTime (ot_selected s))"
  "so_cutoverOption (ot_selected (option_commit s)) =
     (if accelerated_fires s \<or> cold_fires s then unselect (so_cutoverOption (ot_selected s)) (so_cutoverOption (ot_selected s))
      else so_cutoverOption (ot_selected s))"
  "so_periodicSyncEnabled (ot_selected (option_commit s)) =
     (if accelerated_fires s \<or> cold_fires s
      then unselect (so_periodicSyncEnabled (ot_selected s)) (so_periodicSyncEnabled (ot_selected s))
      else so_periodicSyncEnabled (ot_selected s))"
  by (simp_all add: option_commit_def cold_selected_def accelerated_selected_def unselect_def Let_def)

lemma unselect_same: "unselect v v = v \<longleftrightarrow> \<not> bool_or v" "bool_or (unselect v v) = False"
  by (auto simp: unselect_def js_defs)

lemma commit_copy_method [simp]: "fv_storageCopyMethod (ot_params (option_commit s)) = fv_storageCopyMethod (ot_params s)"
  by (simp add: option_commit_def)

lemma commit_kinds [simp]:
  "isStorageAcceleratedCopy (ot_params (option_commit s)) = isStorageAcceleratedCopy (ot_params s)"
  "isHotAdd (ot_params (option_commit s)) = isHotAdd (ot_params s)"
  by (simp_all add: isStorageAcceleratedCopy_def isHotAdd_def)

lemma dep_after_commit:
  "dep_changed f (option_commit s) \<longleftrightarrow> f (now s) \<noteq> f (now (option_commit s))"
  by (simp add: dep_changed_def)

lemma dep_settled: "settled s \<Longrightarrow> \<not> dep_changed f s"
  by (simp add: settled_def dep_changed_def)

text \<open>An effect that will not run has nothing left to do.\<close>

definition method_clause :: "option_render \<Rightarrow> bool" where
  "method_clause = (\<lambda>(pr, p, so). op_skipDefaultSeeding pr \<or> str_truthy (fv_dataCopyMethod p))"

definition cutover_clause :: "option_render \<Rightarrow> bool" where
  "cutover_clause = (\<lambda>(pr, p, so). op_skipDefaultSeeding pr \<or> str_truthy (fv_cutoverOption p))"

definition effects_pending :: "option_state \<Rightarrow> bool" where
  "effects_pending s =
     ((dep_changed method_deps s \<or> method_clause (now s)) \<and> (dep_changed cutover_deps s \<or> cutover_clause (now s)) \<and>
      (dep_changed accelerated_deps s \<or> accelerated_clear (now s)) \<and> (dep_changed hot_add_deps s \<or> hot_add_method (now s)) \<and>
      (dep_changed cold_deps s \<or> cold_clear (now s)) \<and> (dep_changed persistence_deps s \<or> persistence_off (now s)))"

lemma commit_method_clause:
  assumes "dep_changed method_deps s \<or> method_clause (now s)"
  shows "dep_changed method_deps (option_commit s) \<or> method_clause (now (option_commit s))"
proof (cases "seeds_method s \<or> forces_cold s")
  case True
  then have "str_truthy (fv_dataCopyMethod (ot_params (option_commit s)))"
    by (auto simp: commit_method js_defs split: option.splits)
  then show ?thesis
    by (simp add: method_clause_def now_def)
next
  case False
  then show ?thesis
    using assms by (auto simp: method_clause_def now_def commit_method seeds_method_def)
qed

lemma commit_cutover_clause:
  assumes "dep_changed cutover_deps s \<or> cutover_clause (now s)"
  shows "dep_changed cutover_deps (option_commit s) \<or> cutover_clause (now (option_commit s))"
  using assms by (auto simp: cutover_clause_def now_def commit_cutover cutover_defs)

lemma commit_hot_add_clause:
  assumes "dep_changed hot_add_deps s \<or> hot_add_method (now s)"
  shows "dep_changed hot_add_deps (option_commit s) \<or> hot_add_method (now (option_commit s))"
  using assms by (auto simp: hot_add_method_def now_def commit_method forces_cold_def seeds_method_def)

lemma commit_persistence_clause:
  assumes "dep_changed persistence_deps s \<or> persistence_off (now s)"
  shows "dep_changed persistence_deps (option_commit s) \<or> persistence_off (now (option_commit s))"
  using assms by (auto simp: persistence_off_def now_def commit_persistence)

lemma commit_accelerated_clause:
  assumes "dep_changed accelerated_deps s \<or> accelerated_clear (now s)"
  shows "accelerated_clear (now (option_commit s))"
proof (cases "accelerated_fires s")
  case True
  then show ?thesis
    by (simp add: accelerated_clear_def now_def commit_times commit_flags unselect_same options_cleared_def)
next
  case False
  then show ?thesis
    using assms by (auto simp: accelerated_clear_def now_def commit_times commit_flags unselect_same options_cleared_def
        accelerated_fires_def)
qed

text \<open>The cold effect looks at the method of its render; a method that is new in this commit is seen by the next.\<close>

lemma commit_cold_clause:
  assumes "dep_changed cold_deps s \<or> cold_clear (now s)"
  shows "dep_changed cold_deps (option_commit s) \<or> cold_clear (now (option_commit s))"
proof (cases "fv_dataCopyMethod (ot_params (option_commit s)) = fv_dataCopyMethod (ot_params s)")
  case same: True
  then have kind: "isPowerOffThenCopy (ot_params (option_commit s)) = isPowerOffThenCopy (ot_params s)"
    by (simp add: isPowerOffThenCopy_def)
  show ?thesis
  proof (cases "cold_fires s")
    case True
    then show ?thesis
      by (simp add: cold_clear_def now_def commit_times commit_flags unselect_same options_cleared_def)
  next
    case False
    then show ?thesis
      using assms same kind by (auto simp: cold_clear_def now_def commit_times commit_flags unselect_same options_cleared_def
          cold_fires_def)
  qed
next
  case False
  from not_sym [OF this] show ?thesis
    by (simp add: dep_after_commit now_def)
qed

lemma commit_pending:
  assumes "effects_pending s"
  shows "effects_pending (option_commit s)"
  using assms unfolding effects_pending_def
  by (elim conjE, intro conjI commit_method_clause commit_cutover_clause commit_hot_add_clause commit_cold_clause
      commit_persistence_clause disjI2 [OF commit_accelerated_clause])

section \<open>Every history is consistent when it rests\<close>

lemma settled_pending:
  assumes "effects_pending s" "settled s"
  shows "method_clause (now s)" "cutover_clause (now s)" "accelerated_clear (now s)" "hot_add_method (now s)"
    "cold_clear (now s)" "persistence_off (now s)" "options_consistent (now s)"
proof -
  show "method_clause (now s)" "cutover_clause (now s)" "accelerated_clear (now s)" "hot_add_method (now s)"
    "cold_clear (now s)" "persistence_off (now s)"
    using assms by (simp_all add: effects_pending_def dep_settled)
  then show "options_consistent (now s)"
    by (auto simp: options_consistent_def seeded_def method_clause_def cutover_clause_def split: prod.splits)
qed

text \<open>After a change of a settled state an effect runs when one of its dependencies is touched; otherwise its clause must
  survive the change.\<close>

lemma changed_pending:
  assumes "settled s" "ot_before s' = ot_before s"
    and "method_deps (now s) \<noteq> method_deps (now s') \<or> method_clause (now s')"
    and "cutover_deps (now s) \<noteq> cutover_deps (now s') \<or> cutover_clause (now s')"
    and "accelerated_deps (now s) \<noteq> accelerated_deps (now s') \<or> accelerated_clear (now s')"
    and "hot_add_deps (now s) \<noteq> hot_add_deps (now s') \<or> hot_add_method (now s')"
    and "cold_deps (now s) \<noteq> cold_deps (now s') \<or> cold_clear (now s')"
    and "persistence_deps (now s) \<noteq> persistence_deps (now s') \<or> persistence_off (now s')"
  shows "effects_pending s'"
  using assms(3-8) unfolding effects_pending_def
  by (simp only: dep_changed_def assms(2) assms(1) [unfolded settled_def] option.case)

lemmas clause_defs = method_clause_def cutover_clause_def accelerated_clear_def hot_add_method_def cold_clear_def
  persistence_off_def

lemmas click_defs = clickDataCopyMethod_def chooseDataCopyMethod_def clickDataCopyStart_def clickCutover_def
  clickPeriodicSync_def clickScript_def clickRename_def clickFolder_def toggled_def

lemma clauses_at:
  assumes "effects_pending s" "settled s"
  shows "op_skipDefaultSeeding (ot_props s) \<or> str_truthy (fv_dataCopyMethod (ot_params s))"
    "op_skipDefaultSeeding (ot_props s) \<or> str_truthy (fv_cutoverOption (ot_params s))"
    "isHotAdd (ot_params s) \<Longrightarrow> fv_dataCopyMethod (ot_params s) = Some ''cold'' \<or> fv_dataCopyMethod (ot_params s) = Some ''mock''"
    "disableNetworkPersistence (ot_props s) \<Longrightarrow> \<not> bool_or (fv_networkPersistence (ot_params s))"
    "isStorageAcceleratedCopy (ot_params s) \<Longrightarrow> \<not> bool_or (so_dataCopyMethod (ot_selected s)) \<and>
       \<not> bool_or (so_dataCopyStartTime (ot_selected s)) \<and> \<not> bool_or (so_cutoverOption (ot_selected s)) \<and>
       \<not> bool_or (so_periodicSyncEnabled (ot_selected s)) \<and> fv_dataCopyStartTime (ot_params s) = Some [] \<and>
       options_cleared (ot_params s)"
    "fv_dataCopyMethod (ot_params s) \<noteq> None \<Longrightarrow> isPowerOffThenCopy (ot_params s) \<Longrightarrow>
       \<not> bool_or (so_cutoverOption (ot_selected s)) \<and> \<not> bool_or (so_periodicSyncEnabled (ot_selected s)) \<and>
       options_cleared (ot_params s)"
  using settled_pending [OF assms] by (auto simp: clause_defs now_def)

lemma kind_updates [simp]:
  "isStorageAcceleratedCopy (fv_dataCopyMethod_update g p) = isStorageAcceleratedCopy p" "isHotAdd (fv_dataCopyMethod_update g p) = isHotAdd p"
  "isStorageAcceleratedCopy (fv_acknowledgeNetworkConflictRisk_update h p) = isStorageAcceleratedCopy p" "isHotAdd (fv_acknowledgeNetworkConflictRisk_update h p) = isHotAdd p"
  "isStorageAcceleratedCopy (fv_dataCopyStartTime_update g p) = isStorageAcceleratedCopy p" "isHotAdd (fv_dataCopyStartTime_update g p) = isHotAdd p"
  "isStorageAcceleratedCopy (fv_cutoverOption_update g p) = isStorageAcceleratedCopy p" "isHotAdd (fv_cutoverOption_update g p) = isHotAdd p"
  "isStorageAcceleratedCopy (fv_cutoverStartTime_update g p) = isStorageAcceleratedCopy p" "isHotAdd (fv_cutoverStartTime_update g p) = isHotAdd p"
  "isStorageAcceleratedCopy (fv_cutoverEndTime_update g p) = isStorageAcceleratedCopy p" "isHotAdd (fv_cutoverEndTime_update g p) = isHotAdd p"
  "isStorageAcceleratedCopy (fv_periodicSyncInterval_update g p) = isStorageAcceleratedCopy p" "isHotAdd (fv_periodicSyncInterval_update g p) = isHotAdd p"
  "isStorageAcceleratedCopy (fv_postMigrationAction_update k p) = isStorageAcceleratedCopy p" "isHotAdd (fv_postMigrationAction_update k p) = isHotAdd p"
  "isStorageAcceleratedCopy (fv_dataOnly_update h p) = isStorageAcceleratedCopy p" "isHotAdd (fv_dataOnly_update h p) = isHotAdd p"
  "isStorageAcceleratedCopy (fv_disconnectSourceNetwork_update h p) = isStorageAcceleratedCopy p" "isHotAdd (fv_disconnectSourceNetwork_update h p) = isHotAdd p"
  "isStorageAcceleratedCopy (fv_fallbackToDHCP_update h p) = isStorageAcceleratedCopy p" "isHotAdd (fv_fallbackToDHCP_update h p) = isHotAdd p"
  "isStorageAcceleratedCopy (fv_networkPersistence_update h p) = isStorageAcceleratedCopy p" "isHotAdd (fv_networkPersistence_update h p) = isHotAdd p"
  "isStorageAcceleratedCopy (fv_useGPU_update h p) = isStorageAcceleratedCopy p" "isHotAdd (fv_useGPU_update h p) = isHotAdd p"
  "isStorageAcceleratedCopy (fv_removeVMwareTools_update h p) = isStorageAcceleratedCopy p" "isHotAdd (fv_removeVMwareTools_update h p) = isHotAdd p"
  "isStorageAcceleratedCopy (fv_postMigrationScript_update g p) = isStorageAcceleratedCopy p" "isHotAdd (fv_postMigrationScript_update g p) = isHotAdd p"
  "isPowerOffThenCopy (fv_acknowledgeNetworkConflictRisk_update h p) = isPowerOffThenCopy p"
  "isPowerOffThenCopy (fv_dataCopyStartTime_update g p) = isPowerOffThenCopy p"
  "isPowerOffThenCopy (fv_cutoverOption_update g p) = isPowerOffThenCopy p"
  "isPowerOffThenCopy (fv_cutoverStartTime_update g p) = isPowerOffThenCopy p"
  "isPowerOffThenCopy (fv_cutoverEndTime_update g p) = isPowerOffThenCopy p"
  "isPowerOffThenCopy (fv_periodicSyncInterval_update g p) = isPowerOffThenCopy p"
  "isPowerOffThenCopy (fv_postMigrationAction_update k p) = isPowerOffThenCopy p"
  "isPowerOffThenCopy (fv_dataOnly_update h p) = isPowerOffThenCopy p"
  "isPowerOffThenCopy (fv_disconnectSourceNetwork_update h p) = isPowerOffThenCopy p"
  "isPowerOffThenCopy (fv_fallbackToDHCP_update h p) = isPowerOffThenCopy p"
  "isPowerOffThenCopy (fv_networkPersistence_update h p) = isPowerOffThenCopy p"
  "isPowerOffThenCopy (fv_useGPU_update h p) = isPowerOffThenCopy p"
  "isPowerOffThenCopy (fv_removeVMwareTools_update h p) = isPowerOffThenCopy p"
  "isPowerOffThenCopy (fv_postMigrationScript_update g p) = isPowerOffThenCopy p"
  "isPowerOffThenCopy (fv_storageCopyMethod_update g p) = isPowerOffThenCopy p"
  by (simp_all add: isStorageAcceleratedCopy_def isHotAdd_def isPowerOffThenCopy_def)

lemma cleared_updates [simp]:
  "options_cleared (fv_dataCopyMethod_update g p) = options_cleared p"
  "options_cleared (fv_acknowledgeNetworkConflictRisk_update h p) = options_cleared p"
  "options_cleared (fv_dataCopyStartTime_update g p) = options_cleared p"
  "options_cleared (fv_cutoverOption_update g p) = options_cleared p"
  "options_cleared (fv_postMigrationAction_update k p) = options_cleared p"
  "options_cleared (fv_dataOnly_update h p) = options_cleared p"
  "options_cleared (fv_disconnectSourceNetwork_update h p) = options_cleared p"
  "options_cleared (fv_fallbackToDHCP_update h p) = options_cleared p"
  "options_cleared (fv_networkPersistence_update h p) = options_cleared p"
  "options_cleared (fv_useGPU_update h p) = options_cleared p"
  "options_cleared (fv_removeVMwareTools_update h p) = options_cleared p"
  "options_cleared (fv_postMigrationScript_update g p) = options_cleared p"
  "options_cleared (fv_storageCopyMethod_update g p) = options_cleared p"
  by (simp_all add: options_cleared_def)

lemma click_before: "ot_before (click c s) = ot_before s"
  by (cases c) (simp_all add: click_defs Let_def)

lemma click_pending:
  assumes "effects_pending s" "settled s" "click_enabled c s"
  shows "effects_pending (click c s)"
proof (rule changed_pending [OF assms(2) click_before])
  note clauses = clauses_at [OF assms(1,2)]
  show "method_deps (now s) \<noteq> method_deps (now (click c s)) \<or> method_clause (now (click c s))"
    using clauses(1) assms(3) by (cases c) (auto simp: now_def method_clause_def click_defs Let_def)
  show "cutover_deps (now s) \<noteq> cutover_deps (now (click c s)) \<or> cutover_clause (now (click c s))"
    using clauses(2) assms(3) by (cases c) (auto simp: now_def cutover_clause_def click_defs Let_def cutover_defs)
  show "hot_add_deps (now s) \<noteq> hot_add_deps (now (click c s)) \<or> hot_add_method (now (click c s))"
    using clauses(3) assms(3) by (cases c) (auto simp: now_def hot_add_method_def click_defs Let_def)
  show "persistence_deps (now s) \<noteq> persistence_deps (now (click c s)) \<or> persistence_off (now (click c s))"
    using clauses(4) assms(3) by (cases c) (auto simp: now_def persistence_off_def click_defs Let_def)
  show "accelerated_deps (now s) \<noteq> accelerated_deps (now (click c s)) \<or> accelerated_clear (now (click c s))"
    using clauses(5) assms(3)
    by (cases c) (auto simp: now_def accelerated_clear_def click_defs Let_def cutover_shown_def options_cleared_def)
  show "cold_deps (now s) \<noteq> cold_deps (now (click c s)) \<or> cold_clear (now (click c s))"
    using clauses(6) assms(3)
    by (cases c) (auto simp: now_def cold_clear_def click_defs Let_def cutover_shown_def options_cleared_def)
qed

lemma pick_pending:
  assumes "effects_pending s" "settled s" "picker_shown t s"
  shows "effects_pending (pick_time t v s)"
proof (rule changed_pending [OF assms(2)])
  note clauses = clauses_at [OF assms(1,2)]
  show "ot_before (pick_time t v s) = ot_before s"
    by (cases t) simp_all
  show "accelerated_deps (now s) \<noteq> accelerated_deps (now (pick_time t v s)) \<or> accelerated_clear (now (pick_time t v s))"
    using clauses(5) assms(3) by (cases t) (auto simp: now_def accelerated_clear_def cutover_shown_def)
  show "cold_deps (now s) \<noteq> cold_deps (now (pick_time t v s)) \<or> cold_clear (now (pick_time t v s))"
    using clauses(6) assms(3) by (cases t) (auto simp: now_def cold_clear_def cutover_shown_def)
qed (cases t; use clauses_at [OF assms(1,2)] in \<open>auto simp: now_def method_clause_def cutover_clause_def
       hot_add_method_def persistence_off_def\<close>)+

lemma informed_pending:
  assumes "effects_pending s" "settled s"
  shows "effects_pending (s \<lparr> ot_props := pr \<rparr>)"
  by (rule changed_pending [OF assms(2)])
    (use clauses_at [OF assms] in \<open>auto simp: now_def clause_defs\<close>)

lemma copy_pending:
  assumes "effects_pending s" "settled s"
  shows "effects_pending (put_param (fv_storageCopyMethod_update (\<lambda>_. v)) s)"
  by (rule changed_pending [OF assms(2)])
    (use clauses_at [OF assms] in \<open>auto simp: now_def clause_defs\<close>)

lemma history_pending: "options_history s \<Longrightarrow> effects_pending s"
proof (induction rule: options_history.induct)
  case (opened pr p so r)
  show ?case
    by (simp add: effects_pending_def dep_changed_def mounted_def)
qed (blast intro: commit_pending click_pending pick_pending informed_pending copy_pending)+

text \<open>C21: whatever the operator does and whenever settings and checks arrive, a state in which no effect is due is consistent:
  defaults are there, an accelerated or cold copy has no cutover options left, the hot-add copy is cold or mock, and a
  network persistence that is not allowed is off.\<close>

theorem settled_options_consistent:
  assumes "options_history s" "settled s"
  shows "options_consistent (now s)"
  using settled_pending(7) [OF history_pending] assms by blast

section \<open>The effects come to rest\<close>

text \<open>What is left to write: a value that is written gets a smaller weight.\<close>

definition method_weight :: "string option \<Rightarrow> nat" where
  "method_weight v = of_bool (\<not> str_truthy v) + of_bool (v \<noteq> Some ''cold'' \<and> v \<noteq> Some ''mock'')"

definition seed_weight :: "string option \<Rightarrow> nat" where
  "seed_weight v = of_bool (\<not> str_truthy v)"

definition clear_weight :: "string option \<Rightarrow> nat" where
  "clear_weight v = of_bool (v \<noteq> Some [])"

definition flag_weight :: "bool option \<Rightarrow> nat" where
  "flag_weight v = of_bool (bool_or v)"

definition left_to_write :: "option_state \<Rightarrow> nat" where
  "left_to_write s =
     (let p = ot_params s; so = ot_selected s
      in method_weight (fv_dataCopyMethod p) + seed_weight (fv_cutoverOption p) +
         clear_weight (fv_dataCopyStartTime p) + clear_weight (fv_cutoverStartTime p) + clear_weight (fv_cutoverEndTime p) +
         clear_weight (fv_periodicSyncInterval p) + flag_weight (fv_networkPersistence p) +
         flag_weight (so_dataCopyMethod so) + flag_weight (so_dataCopyStartTime so) +
         flag_weight (so_cutoverOption so) + flag_weight (so_periodicSyncEnabled so))"

definition shrinks :: "('a \<Rightarrow> nat) \<Rightarrow> 'a \<Rightarrow> 'a \<Rightarrow> bool" where
  "shrinks w old new = (new = old \<or> w new < w old)"

lemma shrinks_if [intro]: "(b \<Longrightarrow> shrinks w v x) \<Longrightarrow> (\<not> b \<Longrightarrow> shrinks w v y) \<Longrightarrow> shrinks w v (if b then x else y)"
  by simp

lemma shrinks_values [simp]:
  "shrinks w v v" "shrinks clear_weight x (Some [])" "shrinks flag_weight b (unselect b b)"
  "bool_or b \<Longrightarrow> shrinks flag_weight b (Some False)"
  by (auto simp: shrinks_def clear_weight_def flag_weight_def unselect_def)

lemma commit_shrinks:
  "shrinks method_weight (fv_dataCopyMethod (ot_params s)) (fv_dataCopyMethod (ot_params (option_commit s)))"
  "shrinks seed_weight (fv_cutoverOption (ot_params s)) (fv_cutoverOption (ot_params (option_commit s)))"
  "shrinks clear_weight (fv_dataCopyStartTime (ot_params s)) (fv_dataCopyStartTime (ot_params (option_commit s)))"
  "shrinks clear_weight (fv_cutoverStartTime (ot_params s)) (fv_cutoverStartTime (ot_params (option_commit s)))"
  "shrinks clear_weight (fv_cutoverEndTime (ot_params s)) (fv_cutoverEndTime (ot_params (option_commit s)))"
  "shrinks clear_weight (fv_periodicSyncInterval (ot_params s)) (fv_periodicSyncInterval (ot_params (option_commit s)))"
  "shrinks flag_weight (fv_networkPersistence (ot_params s)) (fv_networkPersistence (ot_params (option_commit s)))"
  "shrinks flag_weight (so_dataCopyMethod (ot_selected s)) (so_dataCopyMethod (ot_selected (option_commit s)))"
  "shrinks flag_weight (so_dataCopyStartTime (ot_selected s)) (so_dataCopyStartTime (ot_selected (option_commit s)))"
  "shrinks flag_weight (so_cutoverOption (ot_selected s)) (so_cutoverOption (ot_selected (option_commit s)))"
  "shrinks flag_weight (so_periodicSyncEnabled (ot_selected s)) (so_periodicSyncEnabled (ot_selected (option_commit s)))"
proof -
  let ?m = "fv_dataCopyMethod (ot_params s)"
  have "shrinks method_weight ?m (Some ''cold'')" if "forces_cold s"
    using that by (simp add: shrinks_def method_weight_def forces_cold_def)
  moreover have "shrinks method_weight ?m (Some (str_or (op_defaultMethod (ot_props s)) ''cold''))" if "seeds_method s"
    using that by (auto simp: shrinks_def method_weight_def seeds_method_def js_defs split: option.splits)
  ultimately show "shrinks method_weight ?m (fv_dataCopyMethod (ot_params (option_commit s)))"
    by (simp add: commit_method)
  show "shrinks seed_weight (fv_cutoverOption (ot_params s)) (fv_cutoverOption (ot_params (option_commit s)))"
    by (auto simp: commit_cutover shrinks_def seed_weight_def cutover_defs)
qed (simp_all add: commit_times commit_persistence commit_flags shrinks_if)

lemma shrinks_le: "shrinks w old new \<Longrightarrow> w new \<le> w old"
  by (auto simp: shrinks_def)

lemma shrinks_same: "shrinks w old new \<Longrightarrow> w old \<le> w new \<Longrightarrow> new = old"
  by (auto simp: shrinks_def)

lemma commit_progress:
  assumes "left_to_write s \<le> left_to_write (option_commit s)"
  shows "\<not> dep_changed method_deps (option_commit s) \<and> \<not> dep_changed cutover_deps (option_commit s) \<and>
    \<not> dep_changed accelerated_deps (option_commit s) \<and> \<not> dep_changed hot_add_deps (option_commit s) \<and>
    \<not> dep_changed cold_deps (option_commit s) \<and> \<not> dep_changed persistence_deps (option_commit s)"
proof -
  note le = commit_shrinks [of s, THEN shrinks_le]
  note same = commit_shrinks [of s, THEN shrinks_same]
  have "fv_dataCopyMethod (ot_params (option_commit s)) = fv_dataCopyMethod (ot_params s)"
    by (rule same(1)) (use assms le in \<open>simp add: left_to_write_def Let_def\<close>)
  moreover have "fv_cutoverOption (ot_params (option_commit s)) = fv_cutoverOption (ot_params s)"
    by (rule same(2)) (use assms le in \<open>simp add: left_to_write_def Let_def\<close>)
  moreover have "fv_networkPersistence (ot_params (option_commit s)) = fv_networkPersistence (ot_params s)"
    by (rule same(7)) (use assms le in \<open>simp add: left_to_write_def Let_def\<close>)
  moreover have "so_dataCopyMethod (ot_selected (option_commit s)) = so_dataCopyMethod (ot_selected s)"
    by (rule same(8)) (use assms le in \<open>simp add: left_to_write_def Let_def\<close>)
  moreover have "so_dataCopyStartTime (ot_selected (option_commit s)) = so_dataCopyStartTime (ot_selected s)"
    by (rule same(9)) (use assms le in \<open>simp add: left_to_write_def Let_def\<close>)
  moreover have "so_cutoverOption (ot_selected (option_commit s)) = so_cutoverOption (ot_selected s)"
    by (rule same(10)) (use assms le in \<open>simp add: left_to_write_def Let_def\<close>)
  moreover have "so_periodicSyncEnabled (ot_selected (option_commit s)) = so_periodicSyncEnabled (ot_selected s)"
    by (rule same(11)) (use assms le in \<open>simp add: left_to_write_def Let_def\<close>)
  ultimately show ?thesis
    by (simp add: dep_after_commit now_def isPowerOffThenCopy_def)
qed

text \<open>A commit in which no effect is due writes nothing, and leaves a settled state as it is.\<close>

lemma idle_commit:
  assumes "\<not> dep_changed method_deps s \<and> \<not> dep_changed cutover_deps s \<and> \<not> dep_changed accelerated_deps s \<and>
    \<not> dep_changed hot_add_deps s \<and> \<not> dep_changed cold_deps s \<and> \<not> dep_changed persistence_deps s"
  shows "ot_params (option_commit s) = ot_params s" "ot_selected (option_commit s) = ot_selected s"
    "settled (option_commit s)"
proof -
  show keeps: "ot_params (option_commit s) = ot_params s" "ot_selected (option_commit s) = ot_selected s"
    using assms by (simp_all add: option_commit_def effect_defs cold_selected_def accelerated_selected_def Let_def
        accelerated_fires_def cold_fires_def)
  show "settled (option_commit s)"
    using keeps by (simp add: settled_def now_def)
qed

lemma settled_commit: "settled s \<Longrightarrow> option_commit s = s"
  using idle_commit(1,2) [of s] by (simp add: dep_settled) (cases s; simp add: option_commit_def settled_def)

lemma settles_after: "\<exists>n\<le>left_to_write s + 2. settled ((option_commit ^^ n) s)"
proof (induction "left_to_write s" arbitrary: s rule: less_induct)
  case less
  show ?case
  proof (cases "left_to_write (option_commit s) < left_to_write s")
    case True
    from less [OF this] obtain n where n: "n \<le> left_to_write (option_commit s) + 2"
      "settled ((option_commit ^^ n) (option_commit s))"
      by blast
    have "settled ((option_commit ^^ Suc n) s)"
      using n(2) by (simp add: funpow_swap1)
    then show ?thesis
      using n(1) True by (intro exI [of _ "Suc n"]) simp
  next
    case False
    then have "settled (option_commit (option_commit s))"
      using idle_commit(3) commit_progress by (meson not_less)
    then have "settled ((option_commit ^^ 2) s)"
      by (simp add: numeral_2_eq_2)
    then show ?thesis
      by (intro exI [of _ 2]) simp
  qed
qed

lemma left_bound: "left_to_write s \<le> 12"
  by (simp add: left_to_write_def Let_def method_weight_def seed_weight_def clear_weight_def flag_weight_def of_bool_def)

text \<open>C22: from every state the effects of the step come to rest, after at most fourteen commits, and then nothing changes any
  more: no two of them undo each other.\<close>

theorem option_effects_settle:
  "\<exists>n\<le>14. let t = (option_commit ^^ n) s in settled t \<and> option_commit t = t"
proof -
  obtain n where "n \<le> left_to_write s + 2" "settled ((option_commit ^^ n) s)"
    using settles_after by blast
  then show ?thesis
    using left_bound [of s] settled_commit unfolding Let_def by (intro exI [of _ n]) auto
qed

section \<open>The three copies\<close>

text \<open>What the hooks of the form synchronisation see of the parameters.\<close>

definition sync_of :: "FormValues \<Rightarrow> sync_params" where
  "sync_of p =
     \<lparr> yp_securityGroups = fv_securityGroups p, yp_serverGroup = fv_serverGroup p,
       yp_dataCopyStartTime = fv_dataCopyStartTime p, yp_cutoverStartTime = fv_cutoverStartTime p,
       yp_cutoverEndTime = fv_cutoverEndTime p, yp_postMigrationAction = fv_postMigrationAction p \<rparr>"

definition form_shows :: "option_state \<Rightarrow> bool" where
  "form_shows s = (ot_rhf s = rhf_of (sync_of (ot_params s)))"

lemma action_flags [simp]:
  "action_suffix (Some (x \<lparr> pm_renameVm := b \<rparr>)) = action_suffix (Some x)"
  "action_folder (Some (x \<lparr> pm_renameVm := b \<rparr>)) = action_folder (Some x)"
  "action_suffix (Some (x \<lparr> pm_moveToFolder := b \<rparr>)) = action_suffix (Some x)"
  "action_folder (Some (x \<lparr> pm_moveToFolder := b \<rparr>)) = action_folder (Some x)"
  by (simp_all add: action_suffix_def action_folder_def)

text \<open>every handler that changes an option in the parameters changes it in the values of the form as well, so that a click
  or a picked time never starts an exchange between the two.\<close>

theorem clicks_keep_form_shown:
  assumes "form_shows s"
  shows "form_shows (click c s) \<and> form_shows (pick_time t v s)"
proof
  show "form_shows (click c s)"
    using assms by (cases c) (auto simp: form_shows_def click_defs Let_def sync_of_def rhf_of_def)
  show "form_shows (pick_time t v s)"
    using assms by (cases t) (auto simp: form_shows_def sync_of_def rhf_of_def)
qed

text \<open>The effects write the parameters alone.\<close>

lemma cold_choice_clears:
  assumes "settled s" "\<not> isPowerOffThenCopy (ot_params s)" "\<not> isStorageAcceleratedCopy (ot_params s)"
  shows "sync_of (ot_params (option_commit (click (ChooseDataCopyMethod ''cold'') s))) =
    (sync_of (ot_params s)) \<lparr> yp_cutoverStartTime := Some [], yp_cutoverEndTime := Some [] \<rparr>"
proof -
  let ?t = "click (ChooseDataCopyMethod ''cold'') s"
  have t: "isPowerOffThenCopy (ot_params ?t)" "fv_dataCopyMethod (ot_params ?t) = Some ''cold''"
    by (simp_all add: chooseDataCopyMethod_def Let_def isPowerOffThenCopy_def js_defs)
  have "fv_dataCopyMethod (ot_params s) \<noteq> Some ''cold''"
    using assms(2) by (auto simp: isPowerOffThenCopy_def js_defs)
  then have "dep_changed cold_deps ?t"
    using assms(1) t by (simp add: dep_changed_def settled_def click_before now_def del: click.simps)
  then have "cold_fires ?t"
    using t by (simp add: cold_fires_def del: click.simps)
  then show ?thesis
    using assms(3) by (simp add: sync_of_def commit_times option_commit_def effect_defs chooseDataCopyMethod_def Let_def
        accelerated_fires_def)
qed

text \<open>the cold copy chosen after a cutover time was set. The effect clears the times of the parameters. The standard form
  shows the cleared times from the next commit on; the rolling form never comes to rest.\<close>

theorem cold_choice_in_both_forms:
  assumes "settled s" "\<not> isPowerOffThenCopy (ot_params s)" "\<not> isStorageAcceleratedCopy (ot_params s)"
    and "str_truthy (fv_cutoverStartTime (ot_params s))" "trimmed_form (rhf_of (sync_of (ot_params s)))"
  shows "let p = sync_of (ot_params s); q = sync_of (ot_params (option_commit (click (ChooseDataCopyMethod ''cold'') s)))
    in (\<forall>n. \<not> commit_quiet (useRollingFormSync opts) ((useRollingFormSync opts ^^ n) (after_change p q))) \<and>
       (\<forall>n. rhf_cutoverStartTime (sy_rhf ((useFormSync opts ^^ Suc n) (after_change p q))) = [] \<and>
            sy_params ((useFormSync opts ^^ Suc n) (after_change p q)) = q)"
proof -
  let ?p = "sync_of (ot_params s)"
  let ?q = "?p \<lparr> yp_cutoverStartTime := Some [], yp_cutoverEndTime := Some [] \<rparr>"
  have q: "sync_of (ot_params (option_commit (click (ChooseDataCopyMethod ''cold'') s))) = ?q"
    by (rule cold_choice_clears [OF assms(1-3)])
  have "rhf_cutoverStartTime (rhf_of ?p) \<noteq> rhf_cutoverStartTime (rhf_of ?q)"
    using assms(4) by (auto simp: sync_of_def js_defs split: option.splits)
  then have new: "rhf_of ?p \<noteq> rhf_of ?q"
    by metis
  have ok: "trimmed_form (rhf_of ?q)" "same_action (rhf_of ?p) (rhf_of ?q)" "trimmed_action ?q"
    using assms(5) by (simp_all add: trimmed_form_def same_action_def trimmed_action_def)
  show ?thesis
    unfolding q Let_def
    using rolling_never_quiet [OF new assms(5) ok(1,2)] change_stays [OF ok(3)] by (simp del: funpow.simps)
qed

section \<open>The default method\<close>

lemma chosen_method_stays:
  assumes "fv_dataCopyMethod (ot_params s) = Some ''cold''"
  shows "fv_dataCopyMethod (ot_params ((option_commit ^^ n) s)) = Some ''cold''"
  by (induction n) (use assms in \<open>simp_all add: commit_method forces_cold_def seeds_method_def\<close>)

text \<open>the configured method is the default only when the settings are there before the first commit. Otherwise the form
  chooses the cold copy itself and, when they arrive, takes that for a choice.\<close>

theorem late_default_ignored:
  assumes "\<not> op_skipDefaultSeeding pr" "\<not> str_truthy (fv_dataCopyMethod p)" "\<not> isHotAdd p" "d \<noteq> []"
  shows "let early = option_commit (mounted (pr \<lparr> op_defaultMethod := Some d \<rparr>) p so r);
             late = (option_commit (mounted (pr \<lparr> op_defaultMethod := None \<rparr>) p so r)) \<lparr> ot_props := pr \<lparr> op_defaultMethod := Some d \<rparr> \<rparr>
         in fv_dataCopyMethod (ot_params early) = Some d \<and>
            (\<forall>n. fv_dataCopyMethod (ot_params ((option_commit ^^ n) late)) = Some ''cold'')"
proof -
  have "fv_dataCopyMethod (ot_params (option_commit (mounted (pr \<lparr> op_defaultMethod := v \<rparr>) p so r))) = Some (str_or v ''cold'')"
    for v
    using assms(1-3) by (simp add: commit_method forces_cold_def seeds_method_def mounted_def dep_changed_def)
  then show ?thesis
    using assms(4) by (auto simp: Let_def intro!: chosen_method_stays)
qed

section \<open>A hidden field\<close>

lemma chosen_cutover_commit:
  assumes "settled s" "v \<noteq> []"
  defines "t \<equiv> click (ChooseCutover v) s"
  shows "so_periodicSyncEnabled (ot_selected (option_commit t)) = so_periodicSyncEnabled (ot_selected s)"
    "fv_periodicSyncInterval (ot_params (option_commit t)) = fv_periodicSyncInterval (ot_params s)"
    "fv_cutoverOption (ot_params (option_commit t)) = Some v"
  using assms by (simp_all add: commit_flags commit_times commit_cutover accelerated_fires_def cold_fires_def dep_changed_def
      settled_def now_def)

lemma enabled_empty_interval_blocks:
  assumes "so_periodicSyncEnabled (vi_selected v) = Some True" "fv_periodicSyncInterval (vi_params v) = Some []"
  shows "disableSubmit lc v"
proof -
  have "(''periodicSyncEnabled'', True) \<in> set (option_entries (vi_selected v))"
    using assms(1) by (simp add: option_entries_def Let_def)
  moreover have "\<not> option_validated (vi_params v) (vi_fieldErrors v) (''periodicSyncEnabled'', True)"
    using assms(2) by (simp add: option_validated_def)
  ultimately have "\<not> migrationOptionValidated v"
    by (auto simp: migrationOptionValidated_def list_all_iff)
  then show ?thesis
    by (simp add: disableSubmit_def Let_def)
qed

text \<open>the interval of the periodic sync emptied and then another cutover chosen: the field is no longer shown, the option
  stays selected, and the form cannot be submitted.\<close>

theorem hidden_interval_blocks_submit:
  assumes "settled s" "click_enabled (ChooseCutover CUTOVER_IMMEDIATE) s"
    and "so_periodicSyncEnabled (ot_selected s) = Some True" "fv_periodicSyncInterval (ot_params s) = Some []"
    and "vi_params v = ot_params (option_commit (click (ChooseCutover CUTOVER_IMMEDIATE) s))"
    and "vi_selected v = ot_selected (option_commit (click (ChooseCutover CUTOVER_IMMEDIATE) s))"
  shows "disableSubmit lc v \<and>
    \<not> click_enabled (TypeInterval x) (option_commit (click (ChooseCutover CUTOVER_IMMEDIATE) s)) \<and>
    \<not> click_enabled ClickPeriodicSync (option_commit (click (ChooseCutover CUTOVER_IMMEDIATE) s))"
proof -
  have "CUTOVER_IMMEDIATE \<noteq> []"
    by (simp add: cutover_defs)
  note after = chosen_cutover_commit [OF assms(1) this]
  have "disableSubmit lc v"
    by (rule enabled_empty_interval_blocks) (use after assms in simp_all)
  then show ?thesis
    using after(3) by (simp add: cutover_defs del: click.simps)
qed

section \<open>Scripts\<close>

text \<open>The pattern for PowerShell takes every variable of a shell for PowerShell.\<close>

lemma search_later: "re_search re (rev p @ d) s \<Longrightarrow> re_search re d (p @ s)"
  by (induction p arbitrary: d) auto

lemma search_here: "re (d, s) \<noteq> [] \<Longrightarrow> re_search re d s"
  by (cases s) auto

lemma star_reads: "re_star P p \<noteq> []"
  by (induction P p rule: re_star.induct) auto

lemma alt_reads: "re_alt a b p \<noteq> [] \<longleftrightarrow> a p \<noteq> [] \<or> b p \<noteq> []"
  by (simp add: re_alt_def)

lemma shell_variable_is_powershell:
  assumes "word_char c" "\<not> digit_char c"
  shows "hasPowerShellSyntax (a @ CHR ''$'' # c # b)"
  unfolding hasPowerShellSyntax_def
proof (rule search_later, rule search_here, unfold alt_reads, intro disjI2)
  show "re_seq (re_char (\<lambda>c. c = CHR ''$'')) (re_seq (re_char (\<lambda>c. word_char c \<and> \<not> digit_char c)) (re_star word_char))
      (rev a @ [], CHR ''$'' # c # b) \<noteq> []"
    using assms star_reads [of word_char] by (simp add: re_seq_def re_char_def)
qed

text \<open>a script with a variable of the shell is reported as PowerShell for machines that run Linux alone, whatever its first
  line says.\<close>

theorem shell_variable_warned:
  assumes "so_postMigrationScript so = Some True" "hasLinuxVMSelected p" "\<not> hasWindowsVMSelected p"
    and "fv_postMigrationScript p = Some (a @ CHR ''$'' # c # b)" "word_char c" "\<not> digit_char c"
  shows "postMigrationScriptWarning p so = PowerShellOnLinux"
  using assms shell_variable_is_powershell [OF assms(5,6), of a b]
  by (simp add: postMigrationScriptWarning_def Let_def js_defs)

section \<open>Witnesses\<close>

definition plain_props :: option_props where
  "plain_props =
     \<lparr> op_skipDefaultSeeding = False, op_defaultMethod = Some ''hot'', op_syncInterval = None, op_hasSubnetMismatch = False,
       op_hasPreserveIpDisabled = False, op_isPCD = True, op_openstackNetworks = [] \<rparr>"

definition opened_options :: option_state where
  "opened_options = (option_commit ^^ 2) (mounted plain_props empty_form DEFAULT_MIGRATION_OPTIONS (rhf_of (sync_of empty_form)))"

text \<open>The operator chooses a cutover window and its beginning.\<close>

definition window_options :: option_state where
  "window_options =
     (let s1 = option_commit (click ClickCutover opened_options);
          s2 = option_commit (click (ChooseCutover CUTOVER_TIME_WINDOW) s1)
      in option_commit (pick_time CutoverStart ''2025-01-01T10:00'' s2))"

lemma window_options_values:
  "settled opened_options" "click_enabled ClickCutover opened_options" "settled (option_commit (click ClickCutover opened_options))"
  "click_enabled (ChooseCutover CUTOVER_TIME_WINDOW) (option_commit (click ClickCutover opened_options))"
  "settled window_options" "fv_cutoverStartTime (ot_params window_options) = Some ''2025-01-01T10:00''"
  "fv_dataCopyMethod (ot_params window_options) = Some ''hot''" "\<not> isStorageAcceleratedCopy (ot_params window_options)"
  "trimmed_form (rhf_of (sync_of (ot_params window_options)))" "form_shows window_options"
  by code_simp+

lemma opened_history: "options_history opened_options"
  unfolding opened_options_def numeral_2_eq_2 funpow.simps comp_def id_def
  by (intro options_history.opened options_history.committed)

lemma window_history: "options_history window_options"
proof -
  let ?s1 = "option_commit (click ClickCutover opened_options)"
  let ?s2 = "option_commit (click (ChooseCutover CUTOVER_TIME_WINDOW) ?s1)"
  have s1: "options_history ?s1"
    using opened_history window_options_values(1,2) by (blast intro: options_history.intros)
  then have "options_history ?s2"
    using window_options_values(3,4) by (blast intro: options_history.intros)
  moreover have "settled ?s2" "picker_shown CutoverStart ?s2"
    by code_simp+
  ultimately show ?thesis
    unfolding window_options_def Let_def by (blast intro: options_history.intros)
qed

theorem settled_options_consistent_witness:
  "options_consistent (now window_options) \<and> so_cutoverOption (ot_selected window_options) = Some True"
proof
  show "options_consistent (now window_options)"
    by (rule settled_options_consistent [OF window_history window_options_values(5)])
  show "so_cutoverOption (ot_selected window_options) = Some True"
    by code_simp
qed

theorem clicks_keep_form_shown_witness:
  "form_shows (click ClickRename window_options) \<and>
   rhf_postMigrationActionSuffix (ot_rhf (click ClickRename window_options)) = ''_migrated_to_pcd''"
proof
  show "form_shows (click ClickRename window_options)"
    using clicks_keep_form_shown [OF window_options_values(10), of ClickRename CutoverEnd "[]"] by blast
  show "rhf_postMigrationActionSuffix (ot_rhf (click ClickRename window_options)) = ''_migrated_to_pcd''"
    by code_simp
qed

theorem cold_choice_in_both_forms_witness:
  "let p = sync_of (ot_params window_options);
       q = sync_of (ot_params (option_commit (click (ChooseDataCopyMethod ''cold'') window_options)))
   in yp_cutoverStartTime p = Some ''2025-01-01T10:00'' \<and>
      \<not> commit_quiet (useRollingFormSync sample_options) ((useRollingFormSync sample_options ^^ 100) (after_change p q)) \<and>
      sy_params ((useFormSync sample_options ^^ Suc 99) (after_change p q)) = q"
proof -
  have "\<not> isPowerOffThenCopy (ot_params window_options)" "str_truthy (fv_cutoverStartTime (ot_params window_options))"
    using window_options_values(6,7) by (simp_all add: isPowerOffThenCopy_def js_defs)
  from cold_choice_in_both_forms [OF window_options_values(5) this(1) window_options_values(8) this(2) window_options_values(9),
      of sample_options]
  have both: "(\<forall>n. \<not> commit_quiet (useRollingFormSync sample_options) ((useRollingFormSync sample_options ^^ n)
        (after_change (sync_of (ot_params window_options))
          (sync_of (ot_params (option_commit (click (ChooseDataCopyMethod ''cold'') window_options))))))) \<and>
      (\<forall>n. sy_params ((useFormSync sample_options ^^ Suc n)
        (after_change (sync_of (ot_params window_options))
          (sync_of (ot_params (option_commit (click (ChooseDataCopyMethod ''cold'') window_options)))))) =
        sync_of (ot_params (option_commit (click (ChooseDataCopyMethod ''cold'') window_options))))"
    unfolding Let_def by blast
  moreover have "yp_cutoverStartTime (sync_of (ot_params window_options)) = Some ''2025-01-01T10:00''"
    using window_options_values(6) by (simp add: sync_of_def)
  ultimately show ?thesis
    unfolding Let_def by blast
qed

theorem late_default_ignored_witness:
  "let early = option_commit (mounted (plain_props \<lparr> op_defaultMethod := Some ''hot'' \<rparr>) empty_form DEFAULT_MIGRATION_OPTIONS
         (rhf_of (sync_of empty_form)));
       late = (option_commit (mounted (plain_props \<lparr> op_defaultMethod := None \<rparr>) empty_form DEFAULT_MIGRATION_OPTIONS
         (rhf_of (sync_of empty_form)))) \<lparr> ot_props := plain_props \<lparr> op_defaultMethod := Some ''hot'' \<rparr> \<rparr>
   in fv_dataCopyMethod (ot_params early) = Some ''hot'' \<and>
      (\<forall>n. fv_dataCopyMethod (ot_params ((option_commit ^^ n) late)) = Some ''cold'')"
  by (rule late_default_ignored) (simp_all add: plain_props_def empty_form_def isHotAdd_def)

text \<open>An administrator's cutover with a periodic sync whose interval was emptied.\<close>

definition emptied_options :: option_state where
  "emptied_options =
     (let s1 = option_commit (click ClickCutover opened_options);
          s2 = option_commit (click (ChooseCutover CUTOVER_ADMIN_INITIATED) s1);
          s3 = option_commit (click ClickPeriodicSync s2)
      in option_commit (click (TypeInterval []) s3))"

definition emptied_input :: "validation_input \<Rightarrow> validation_input" where
  "emptied_input v =
     v \<lparr> vi_params := ot_params (option_commit (click (ChooseCutover CUTOVER_IMMEDIATE) emptied_options)),
         vi_selected := ot_selected (option_commit (click (ChooseCutover CUTOVER_IMMEDIATE) emptied_options)) \<rparr>"

theorem hidden_interval_blocks_submit_witness:
  "\<forall>lc v. disableSubmit lc (emptied_input v) \<and>
     \<not> click_enabled (TypeInterval ''5m'') (option_commit (click (ChooseCutover CUTOVER_IMMEDIATE) emptied_options))"
proof (intro allI)
  fix lc v
  have "settled emptied_options" "click_enabled (ChooseCutover CUTOVER_IMMEDIATE) emptied_options"
    "so_periodicSyncEnabled (ot_selected emptied_options) = Some True" "fv_periodicSyncInterval (ot_params emptied_options) = Some []"
    by code_simp+
  from hidden_interval_blocks_submit [OF this, of "emptied_input v" lc "''5m''"]
  show "disableSubmit lc (emptied_input v) \<and>
     \<not> click_enabled (TypeInterval ''5m'') (option_commit (click (ChooseCutover CUTOVER_IMMEDIATE) emptied_options))"
    by (simp add: emptied_input_def del: click.simps)
qed

theorem shell_variable_warned_witness:
  "postMigrationScriptWarning
     (empty_form \<lparr> fv_vms := Some [(blank_vm ''a'' ''a'') \<lparr> vd_osFamily := Some ''linuxGuest'' \<rparr>],
        fv_postMigrationScript := Some (''#!/bin/bash echo '' @ CHR ''$'' # CHR ''H'' # ''OME'') \<rparr>)
     (DEFAULT_MIGRATION_OPTIONS \<lparr> so_postMigrationScript := Some True \<rparr>) = PowerShellOnLinux \<and>
   hasBashShebang (''#!/bin/bash echo '' @ CHR ''$'' # CHR ''H'' # ''OME'')"
proof
  let ?p = "empty_form \<lparr> fv_vms := Some [(blank_vm ''a'' ''a'') \<lparr> vd_osFamily := Some ''linuxGuest'' \<rparr>],
        fv_postMigrationScript := Some (''#!/bin/bash echo '' @ CHR ''$'' # CHR ''H'' # ''OME'') \<rparr>"
  have "hasLinuxVMSelected ?p" "\<not> hasWindowsVMSelected ?p" "word_char (CHR ''H'')" "\<not> digit_char (CHR ''H'')"
    by code_simp+
  then show "postMigrationScriptWarning ?p (DEFAULT_MIGRATION_OPTIONS \<lparr> so_postMigrationScript := Some True \<rparr>) = PowerShellOnLinux"
    by (intro shell_variable_warned [where a = "''#!/bin/bash echo ''" and c = "CHR ''H''" and b = "''OME''"]) simp_all
  show "hasBashShebang (''#!/bin/bash echo '' @ CHR ''$'' # CHR ''H'' # ''OME'')"
    by code_simp
qed

end
