(* ===== verification/Settings_Values.thy ===== *)
theory Settings_Values
  imports Js_Regex Ip_Validation
begin

text \<open>
  The values of the settings page, \<open>ui/src/features/globalSettings/helpers.ts\<close> and \<open>validators.ts\<close> and the checks of
  \<open>components/GlobalSettingsPage.tsx\<close>: numbers and flags read from a config map, durations, time servers, hosts and the
  entries of the proxy exceptions. \<open>shared/components/forms/IntervalField.tsx\<close> checks durations as well.
\<close>

section \<open>Numbers\<close>

text \<open>What a number field holds: nothing, a whole number, or a decimal fraction \<open>m / 10^k\<close> whose last digit is not zero.\<close>

datatype field_number = EmptyNumber | Whole int | Fraction int nat

fun decimal :: "int \<Rightarrow> nat \<Rightarrow> field_number" where
  "decimal m 0 = Whole m"
| "decimal m (Suc k) = (if m mod 10 = 0 then decimal (m div 10) k else Fraction m (Suc k))"

definition scaled :: "int \<Rightarrow> int \<Rightarrow> field_number" where
  "scaled m s = (if 0 \<le> s then Whole (m * 10 ^ nat s) else decimal m (nat (- s)))"

text \<open>\<open>Number(text)\<close>; \<open>None\<close> is a number that is not finite. Decimal literals are taken exactly, doubles round them beyond
  fifteen digits.\<close>

definition hex_val :: "char \<Rightarrow> int option" where
  "hex_val c = map_of (zip ''0123456789abcdef'' [0..15]) (lower_char c)"

definition radix_number :: "int \<Rightarrow> string \<Rightarrow> field_number option" where
  "radix_number b ds =
     (if ds \<noteq> [] \<and> list_all (\<lambda>c. case hex_val c of None \<Rightarrow> False | Some v \<Rightarrow> v < b) ds
      then Some (Whole (foldl (\<lambda>n c. b * n + the (hex_val c)) 0 ds)) else None)"

definition take_sign :: "string \<Rightarrow> int \<times> string" where
  "take_sign s =
     (case s of c # r \<Rightarrow> if c = CHR ''-'' then (- 1, r) else if c = CHR ''+'' then (1, r) else (1, s) | [] \<Rightarrow> (1, s))"

definition take_exponent :: "string \<Rightarrow> int option" where
  "take_exponent s =
     (case s of
        [] \<Rightarrow> Some 0
      | c # r \<Rightarrow>
          (let (sign, ds) = take_sign r
           in if (c = CHR ''e'' \<or> c = CHR ''E'') \<and> ds \<noteq> [] \<and> list_all digit_char ds then Some (sign * digits_val ds) else None))"

definition decimal_number :: "string \<Rightarrow> field_number option" where
  "decimal_number s =
     (let (sign, t) = take_sign s;
          ds = takeWhile digit_char t; r = dropWhile digit_char t;
          (fs, r2) = (case r of c # q \<Rightarrow> if c = CHR ''.'' then (takeWhile digit_char q, dropWhile digit_char q) else ([], r)
                      | [] \<Rightarrow> ([], r))
      in if ds = [] \<and> fs = [] then None
         else map_option (\<lambda>e. scaled (sign * digits_val (ds @ fs)) (e - int (length fs))) (take_exponent r2))"

definition too_large :: "field_number \<Rightarrow> bool" where
  "too_large n = (case n of Whole i \<Rightarrow> 2 ^ 1024 \<le> abs i | _ \<Rightarrow> False)"

definition js_Number :: "string \<Rightarrow> field_number option" where
  "js_Number v =
     (let t = js_trim v;
          n = (case t of
                 [] \<Rightarrow> Some (Whole 0)
               | c # d # r \<Rightarrow>
                   if c = CHR ''0'' \<and> lower_char d = CHR ''x'' then radix_number 16 r
                   else if c = CHR ''0'' \<and> lower_char d = CHR ''o'' then radix_number 8 r
                   else if c = CHR ''0'' \<and> lower_char d = CHR ''b'' then radix_number 2 r
                   else decimal_number t
               | _ \<Rightarrow> decimal_number t)
      in case n of None \<Rightarrow> None | Some x \<Rightarrow> if too_large x then None else Some x)"

text \<open>\<open>String(number)\<close>, for numbers below \<open>10^21\<close> and fractions not too small.\<close>

definition num_string :: "field_number \<Rightarrow> string" where
  "num_string n =
     (case n of
        EmptyNumber \<Rightarrow> []
      | Whole i \<Rightarrow> int_str i
      | Fraction m k \<Rightarrow>
          (let ds = nat_str (nat (abs m)); padded = replicate (Suc k - length ds) (CHR ''0'') @ ds; cut = length padded - k
           in (if m < 0 then ''-'' else []) @ take cut padded @ ''.'' @ drop cut padded))"

definition whole_in :: "int \<Rightarrow> field_number \<Rightarrow> bool" where
  "whole_in low n = (case n of Whole i \<Rightarrow> low \<le> i | _ \<Rightarrow> False)"

section \<open>Reading a config map\<close>

datatype config_value = ConfigText string | ConfigNumber field_number | ConfigBool bool

definition parseBool :: "config_value option \<Rightarrow> bool \<Rightarrow> bool" where
  "parseBool v fallback =
     (case v of Some (ConfigText s) \<Rightarrow> js_lower s = ''true'' | Some (ConfigBool b) \<Rightarrow> b | _ \<Rightarrow> fallback)"

definition parseNum :: "config_value option \<Rightarrow> field_number \<Rightarrow> field_number" where
  "parseNum v fallback =
     (case v of
        Some (ConfigText s) \<Rightarrow> (case js_Number s of None \<Rightarrow> fallback | Some n \<Rightarrow> n)
      | Some (ConfigNumber n) \<Rightarrow> n
      | _ \<Rightarrow> fallback)"

definition parseText :: "config_value option \<Rightarrow> string \<Rightarrow> string" where
  "parseText v fallback = (case v of Some (ConfigText s) \<Rightarrow> s | _ \<Rightarrow> fallback)"

definition bool_string :: "bool \<Rightarrow> string" where
  "bool_string b = (if b then ''true'' else ''false'')"

section \<open>Durations\<close>

text \<open>An optional group of the pattern: digits and the letter of the unit.\<close>

definition take_unit :: "char \<Rightarrow> string \<Rightarrow> int option \<times> string" where
  "take_unit u s =
     (let ds = takeWhile digit_char s
      in case dropWhile digit_char s of
           c # r \<Rightarrow> if ds \<noteq> [] \<and> c = u then (Some (digits_val ds), r) else (None, s)
         | [] \<Rightarrow> (None, s))"

definition match_duration :: "string \<Rightarrow> (int option \<times> int option \<times> int option) option" where
  "match_duration s =
     (let (h, r) = take_unit (CHR ''h'') s; (m, q) = take_unit (CHR ''m'') r; (x, t) = take_unit (CHR ''s'') q
      in if t = [] then Some (h, m, x) else None)"

definition unit_value :: "int option \<Rightarrow> int" where
  "unit_value v = (case v of None \<Rightarrow> 0 | Some n \<Rightarrow> n)"

text \<open>Five minutes are compared in seconds; the code divides the seconds by sixty, which is exact at five minutes.\<close>

definition duration_error :: "string \<Rightarrow> string option" where
  "duration_error t =
     (case match_duration t of
        None \<Rightarrow> Some ''Use duration format like 5m, 1h30m, 5m30s (units: h,m,s).''
      | Some (h, m, x) \<Rightarrow>
          if 3600 * unit_value h + 60 * unit_value m + unit_value x < 300
          then Some ''Interval must be at least 5 minutes'' else None)"

definition parseInterval :: "string \<Rightarrow> string option" where
  "parseInterval val =
     (let t = js_trim val in if t = [] then Some ''Periodic Sync is required'' else duration_error t)"

text \<open>The check of the interval field, which lets an empty text pass.\<close>

definition interval_validate :: "string \<Rightarrow> string option" where
  "interval_validate val = (let t = js_trim val in if t = [] then None else duration_error t)"

section \<open>Hosts\<close>

definition alnum_char :: "char \<Rightarrow> bool" where
  "alnum_char c = (c \<in> set ''ABCDEFGHIJKLMNOPQRSTUVWXYZabcdefghijklmnopqrstuvwxyz0123456789'')"

definition label_char :: "char \<Rightarrow> bool" where
  "label_char c = (alnum_char c \<or> c = CHR ''-'')"

definition host_char :: "char \<Rightarrow> bool" where
  "host_char c = (label_char c \<or> c = CHR ''.'')"

definition ends_with :: "char \<Rightarrow> string \<Rightarrow> bool" where
  "ends_with c s = (s \<noteq> [] \<and> last s = c)"

definition good_label :: "string \<Rightarrow> bool" where
  "good_label w =
     (if w = [] then False else if 63 < length w then False else if \<not> list_all label_char w then False
      else if hd w = CHR ''-'' \<or> ends_with (CHR ''-'') w then False else True)"

text \<open>One to three digits four times, and what they say.\<close>

definition quad_shape :: "string \<Rightarrow> bool" where
  "quad_shape v =
     (let ps = split_on (CHR ''.'') v
      in length ps = 4 \<and> list_all (\<lambda>p. p \<noteq> [] \<and> length p \<le> 3 \<and> list_all digit_char p) ps)"

definition isValidNtpServer :: "string \<Rightarrow> bool" where
  "isValidNtpServer value =
     (let v = js_trim value
      in if v = [] then False
         else if str_includes v ''://'' \<or> str_includes v ''/'' then False
         else if quad_shape v then list_all (\<lambda>p. digits_val p \<le> 255) (split_on (CHR ''.'') v)
         else if \<not> list_all host_char v then False
         else if hd v = CHR ''.'' \<or> ends_with (CHR ''.'') v \<or> str_includes v ''..'' then False
         else list_all good_label (split_on (CHR ''.'') v))"

text \<open>The languages of the two patterns for hosts.\<close>

definition fqdn_label :: "string \<Rightarrow> bool" where
  "fqdn_label w = (w \<noteq> [] \<and> length w \<le> 63 \<and> alnum_char (hd w) \<and> alnum_char (last w) \<and> list_all label_char w)"

definition fqdnRegex :: "string \<Rightarrow> bool" where
  "fqdnRegex v = (let ls = split_on (CHR ''.'') v in 2 \<le> length ls \<and> list_all fqdn_label ls)"

definition strict_octet :: "string \<Rightarrow> bool" where
  "strict_octet w =
     (w \<noteq> [] \<and> length w \<le> 3 \<and> list_all digit_char w \<and> digits_val w \<le> 255 \<and> (hd w = CHR ''0'' \<longrightarrow> length w = 1))"

definition ipv4Regex :: "string \<Rightarrow> bool" where
  "ipv4Regex v = (let ls = split_on (CHR ''.'') v in length ls = 4 \<and> list_all strict_octet ls)"

definition isValidHost :: "string \<Rightarrow> bool" where
  "isValidHost v = (fqdnRegex v \<or> ipv4Regex v)"

definition with_scheme :: "string \<Rightarrow> bool" where
  "with_scheme v = (starts_with (js_lower v) ''http://'' \<or> starts_with (js_lower v) ''https://'')"

text \<open>\<open>/^(.+)\\/(\\d{1,2})$/\<close>: the text before the last slash and the one or two digits after it.\<close>

definition match_cidr :: "string \<Rightarrow> (string \<times> string) option" where
  "match_cidr v =
     (let bits = rev (takeWhile digit_char (rev v)); r = dropWhile digit_char (rev v)
      in case r of
           c # ip \<Rightarrow> if c = CHR ''/'' \<and> bits \<noteq> [] \<and> length bits \<le> 2 \<and> ip \<noteq> [] \<and> CHR 0x0A \<notin> set ip
                       then Some (rev ip, bits) else None
         | [] \<Rightarrow> None)"

definition good_cidr :: "string \<Rightarrow> bool" where
  "good_cidr v = (case match_cidr v of None \<Rightarrow> False | Some (ip, bits) \<Rightarrow> ipv4Regex ip \<and> digits_val bits \<le> 32)"

definition strip_prefix :: "string \<Rightarrow> string \<Rightarrow> string" where
  "strip_prefix p v = (if starts_with v p then drop (length p) v else v)"

definition isValidNoProxyEntry :: "string \<Rightarrow> bool" where
  "isValidNoProxyEntry v =
     (if v = [] then False else if with_scheme v then False else if ipv4Regex v then True else if good_cidr v then True
      else if v = ''localhost'' then True
      else (let hostname = strip_prefix ''.'' (strip_prefix ''*.'' v)
            in if hostname = [] then False
               else if \<not> list_all host_char hostname then False
               else if hd hostname = CHR ''-'' \<or> ends_with (CHR ''-'') hostname then False
               else if str_includes hostname ''..'' then False
               else list_all good_label (split_on (CHR ''.'') hostname)))"

definition normalizeNoProxy :: "string \<Rightarrow> string" where
  "normalizeNoProxy v = js_join '','' (filter (\<lambda>x. x \<noteq> []) (map js_trim (split_on (CHR '','') v)))"

section \<open>The durations that pass\<close>

text \<open>A group as it is written: nothing, or digits and the letter of the unit.\<close>

definition unit_text :: "char \<Rightarrow> string option \<Rightarrow> string" where
  "unit_text u v = (case v of None \<Rightarrow> [] | Some ds \<Rightarrow> ds @ [u])"

definition unit_digits :: "string option \<Rightarrow> bool" where
  "unit_digits v = (case v of None \<Rightarrow> True | Some ds \<Rightarrow> ds \<noteq> [] \<and> list_all digit_char ds)"

abbreviation duration_text :: "string option \<Rightarrow> string option \<Rightarrow> string option \<Rightarrow> string" where
  "duration_text h m x \<equiv> unit_text (CHR ''h'') h @ unit_text (CHR ''m'') m @ unit_text (CHR ''s'') x"

lemma digit_not_unit [simp]: "\<not> digit_char (CHR ''h'')" "\<not> digit_char (CHR ''m'')" "\<not> digit_char (CHR ''s'')"
  by (simp_all add: digit_char_def)

definition unit_ahead :: "char \<Rightarrow> string \<Rightarrow> bool" where
  "unit_ahead u s = (takeWhile digit_char s \<noteq> [] \<and> (\<exists>r. dropWhile digit_char s = u # r))"

lemma take_unit_skip: "\<not> unit_ahead u s \<Longrightarrow> take_unit u s = (None, s)"
  by (auto simp: take_unit_def unit_ahead_def Let_def split: list.splits)

lemma take_unit_text:
  assumes "unit_digits v" "\<not> digit_char u" "v = None \<Longrightarrow> \<not> unit_ahead u s"
  shows "take_unit u (unit_text u v @ s) = (map_option digits_val v, s)"
proof (cases v)
  case None
  with assms(3) show ?thesis
    by (simp add: unit_text_def take_unit_skip)
next
  case (Some ds)
  with assms(1) have "\<forall>c \<in> set ds. digit_char c" "ds \<noteq> []"
    by (auto simp: unit_digits_def list_all_iff)
  then show ?thesis
    using Some assms(2) by (simp add: unit_text_def take_unit_def Let_def)
qed

lemma take_unit_read:
  obtains v where "unit_digits v" "s = unit_text u v @ snd (take_unit u s)" "fst (take_unit u s) = map_option digits_val v"
proof (cases "unit_ahead u s")
  case True
  then obtain r where r: "dropWhile digit_char s = u # r" "takeWhile digit_char s \<noteq> []"
    by (auto simp: unit_ahead_def)
  then have "s = takeWhile digit_char s @ u # r"
    by (metis takeWhile_dropWhile_id)
  then show ?thesis
    using r by (intro that [of "Some (takeWhile digit_char s)"])
      (auto simp: unit_digits_def unit_text_def take_unit_def Let_def list_all_iff dest: set_takeWhileD)
next
  case False
  then show ?thesis
    by (intro that [of None]) (simp_all add: unit_digits_def unit_text_def take_unit_skip)
qed

text \<open>What follows a group does not begin like the group.\<close>

lemma unit_ahead_text:
  assumes "unit_digits v" "u \<noteq> w" "\<not> digit_char w" "\<not> unit_ahead u s"
  shows "\<not> unit_ahead u (unit_text w v @ s)"
proof (cases v)
  case (Some ds)
  with assms(1) have "\<forall>c \<in> set ds. digit_char c"
    by (auto simp: unit_digits_def list_all_iff)
  then show ?thesis
    using Some assms(2,3) by (simp add: unit_text_def unit_ahead_def)
qed (use assms(4) in \<open>simp add: unit_text_def\<close>)

lemma unit_ahead_Nil [simp]: "\<not> unit_ahead u []"
  by (simp add: unit_ahead_def)

lemma match_duration_text:
  assumes "unit_digits h" "unit_digits m" "unit_digits x"
  shows "match_duration (duration_text h m x) =
    Some (map_option digits_val h, map_option digits_val m, map_option digits_val x)"
proof -
  have x: "take_unit (CHR ''s'') (unit_text (CHR ''s'') x @ []) = (map_option digits_val x, [])"
    by (rule take_unit_text) (use assms(3) in simp_all)
  have m: "take_unit (CHR ''m'') (unit_text (CHR ''m'') m @ unit_text (CHR ''s'') x @ []) =
      (map_option digits_val m, unit_text (CHR ''s'') x @ [])"
    by (rule take_unit_text [OF assms(2)]) (simp_all add: unit_ahead_text [OF assms(3)] del: append_Nil2)
  have h: "take_unit (CHR ''h'') (unit_text (CHR ''h'') h @ unit_text (CHR ''m'') m @ unit_text (CHR ''s'') x @ []) =
      (map_option digits_val h, unit_text (CHR ''m'') m @ unit_text (CHR ''s'') x @ [])"
    by (rule take_unit_text [OF assms(1)]) (simp_all add: unit_ahead_text [OF assms(2)] unit_ahead_text [OF assms(3)]
        del: append_Nil2)
  show ?thesis
    using x m h by (simp add: match_duration_def)
qed

lemma match_duration_read:
  assumes "match_duration t = Some (a, b, c)"
  obtains h m x where "unit_digits h" "unit_digits m" "unit_digits x" "t = duration_text h m x"
    "a = map_option digits_val h" "b = map_option digits_val m" "c = map_option digits_val x"
proof -
  obtain h where h: "unit_digits h" "t = unit_text (CHR ''h'') h @ snd (take_unit (CHR ''h'') t)"
    "fst (take_unit (CHR ''h'') t) = map_option digits_val h"
    by (rule take_unit_read)
  let ?r = "snd (take_unit (CHR ''h'') t)"
  obtain m where m: "unit_digits m" "?r = unit_text (CHR ''m'') m @ snd (take_unit (CHR ''m'') ?r)"
    "fst (take_unit (CHR ''m'') ?r) = map_option digits_val m"
    by (rule take_unit_read)
  let ?q = "snd (take_unit (CHR ''m'') ?r)"
  obtain x where x: "unit_digits x" "?q = unit_text (CHR ''s'') x @ snd (take_unit (CHR ''s'') ?q)"
    "fst (take_unit (CHR ''s'') ?q) = map_option digits_val x"
    by (rule take_unit_read)
  have "snd (take_unit (CHR ''s'') ?q) = []" "a = fst (take_unit (CHR ''h'') t)" "b = fst (take_unit (CHR ''m'') ?r)"
    "c = fst (take_unit (CHR ''s'') ?q)"
    using assms by (auto simp: match_duration_def Let_def split: prod.splits if_splits)
  then show ?thesis
    using that [OF h(1) m(1) x(1)] h m x by auto
qed

definition duration_seconds :: "string option \<Rightarrow> string option \<Rightarrow> string option \<Rightarrow> int" where
  "duration_seconds h m x =
     3600 * unit_value (map_option digits_val h) + 60 * unit_value (map_option digits_val m) + unit_value (map_option digits_val x)"

text \<open>C30: the settings accept exactly the texts of hours, minutes and seconds, in this order and each at most once, that last
  five minutes or more; the interval field of the migration form accepts the same and the empty text.\<close>

theorem interval_accepted_iff:
  "(parseInterval val = None \<longleftrightarrow>
      (\<exists>h m x. unit_digits h \<and> unit_digits m \<and> unit_digits x \<and> js_trim val = duration_text h m x \<and> 300 \<le> duration_seconds h m x)) \<and>
   interval_validate val = (if js_trim val = [] then None else parseInterval val)"
proof -
  have "(duration_error t = None) = (\<exists>h m x. unit_digits h \<and> unit_digits m \<and> unit_digits x \<and> t = duration_text h m x \<and>
      300 \<le> duration_seconds h m x)" for t
  proof
    assume none: "duration_error t = None"
    then obtain a b c where match: "match_duration t = Some (a, b, c)"
      by (auto simp: duration_error_def split: option.splits)
    then obtain h m x where "unit_digits h" "unit_digits m" "unit_digits x" "t = duration_text h m x"
      "a = map_option digits_val h" "b = map_option digits_val m" "c = map_option digits_val x"
      by (rule match_duration_read)
    moreover from this none match have "300 \<le> duration_seconds h m x"
      by (simp add: duration_error_def duration_seconds_def split: if_splits)
    ultimately show "\<exists>h m x. unit_digits h \<and> unit_digits m \<and> unit_digits x \<and> t = duration_text h m x \<and> 300 \<le> duration_seconds h m x"
      by blast
  next
    assume "\<exists>h m x. unit_digits h \<and> unit_digits m \<and> unit_digits x \<and> t = duration_text h m x \<and> 300 \<le> duration_seconds h m x"
    then show "duration_error t = None"
      by (auto simp: duration_error_def match_duration_text duration_seconds_def)
  qed
  moreover have "\<not> (\<exists>h m x. [] = duration_text h m x \<and> 300 \<le> duration_seconds h m x)"
    by (auto simp: unit_text_def duration_seconds_def unit_value_def split: option.splits)
  ultimately show ?thesis
    by (auto simp: parseInterval_def interval_validate_def Let_def)
qed

section \<open>The hosts that pass\<close>

lemma split_snoc_sep: "split_on sep (s @ [sep]) = split_on sep s @ [[]]"
  by (induction s) (auto split: list.splits)

lemma split_last_sep: "ends_with sep s \<Longrightarrow> [] \<in> set (split_on sep s)"
  using split_snoc_sep [of sep "butlast s"] by (auto simp: ends_with_def)

lemma split_twice_sep: "[] \<in> set (tl (split_on sep (a @ sep # sep # b)))"
proof (induction a)
  case (Cons d a)
  then show ?case
    by (cases "split_on sep (a @ sep # sep # b)") auto
qed simp

lemma str_includes_parts: "str_includes s t \<Longrightarrow> \<exists>a b. s = a @ t @ b"
proof (induction s)
  case (Cons c s)
  show ?case
  proof (cases "starts_with (c # s) t")
    case True
    then have "c # s = [] @ t @ drop (length t) (c # s)"
      by (metis append_Nil append_take_drop_id starts_with_def)
    then show ?thesis
      by blast
  next
    case False
    with Cons obtain a b where "s = a @ t @ b"
      by auto
    then show ?thesis
      by (metis append_Cons)
  qed
qed simp

lemma good_label_iff:
  "good_label w \<longleftrightarrow> w \<noteq> [] \<and> length w \<le> 63 \<and> list_all label_char w \<and> hd w \<noteq> CHR ''-'' \<and> last w \<noteq> CHR ''-''"
  by (auto simp: good_label_def ends_with_def)

text \<open>Labels that are not empty leave no room for a dot at either end or for two in a row.\<close>

lemma good_labels_plain:
  assumes "list_all good_label (split_on (CHR ''.'') v)"
  shows "v \<noteq> []" "list_all host_char v" "hd v \<noteq> CHR ''.''" "\<not> ends_with (CHR ''.'') v" "\<not> str_includes v ''..''"
    "CHR ''/'' \<notin> set v"
proof -
  have none: "[] \<notin> set (split_on (CHR ''.'') v)"
    using assms by (auto simp: list_all_iff good_label_iff)
  then show "v \<noteq> []"
    by auto
  then show "hd v \<noteq> CHR ''.''"
    using none by (cases v) auto
  show "\<not> ends_with (CHR ''.'') v"
    using none split_last_sep by blast
  show "\<not> str_includes v ''..''"
  proof
    assume "str_includes v ''..''"
    then obtain a b where "v = a @ CHR ''.'' # CHR ''.'' # b"
      using str_includes_parts by fastforce
    then show False
      using none split_twice_sep [of "CHR ''.''" a b] by (metis list.sel(2) list.set_sel(2))
  qed
  show chars: "list_all host_char v"
  proof (subst split_on_chars [where sep = "CHR ''.''"])
    show "host_char (CHR ''.'')"
      by (simp add: host_char_def)
    show "list_all (list_all (\<lambda>c. c = CHR ''.'' \<or> host_char c)) (split_on (CHR ''.'') v)"
      using assms by (auto simp: list_all_iff good_label_iff host_char_def)
  qed
  have "\<not> host_char (CHR ''/'')"
    by code_simp
  then show "CHR ''/'' \<notin> set v"
    using chars by (auto simp: list_all_iff)
qed

lemma no_slash_no_scheme: "CHR ''/'' \<notin> set v \<Longrightarrow> \<not> str_includes v ''://'' \<and> \<not> str_includes v ''/''"
  by (auto dest!: str_includes_parts)

lemma quad_no_slash:
  assumes "quad_shape v"
  shows "CHR ''/'' \<notin> set v"
proof -
  have "list_all (list_all digit_char) (split_on (CHR ''.'') v)"
    using assms by (auto simp: quad_shape_def Let_def list_all_iff)
  then have "list_all (\<lambda>c. c = CHR ''.'' \<or> digit_char c) v"
    by (subst split_on_chars [where sep = "CHR ''.''"]) (auto simp: list_all_iff)
  then show ?thesis
    by (auto simp: list_all_iff digit_char_def)
qed

text \<open>a time server is accepted exactly when it is a dotted quad up to 255 or, not being one, consists of labels as host names
  have them; the six other conditions of the code follow from these.\<close>

theorem ntp_server_accepted_iff:
  "isValidNtpServer value \<longleftrightarrow>
     (let v = js_trim value; parts = split_on (CHR ''.'') v
      in if quad_shape v then list_all (\<lambda>p. digits_val p \<le> 255) parts else list_all good_label parts)"
proof -
  let ?v = "js_trim value"
  have "?v \<noteq> []" if "quad_shape ?v"
    using that by (auto simp: quad_shape_def)
  then show ?thesis
    using good_labels_plain [of ?v] no_slash_no_scheme [of ?v] quad_no_slash [of ?v]
    by (auto simp: isValidNtpServer_def Let_def)
qed

section \<open>Numbers survive\<close>

lemma digits_trim:
  assumes "list_all digit_char s"
  shows "js_trim s = s"
proof -
  have "list_all (\<lambda>c. \<not> js_space c) ''0123456789''"
    by code_simp
  then have "\<not> js_space c" if "c \<in> set s" for c
    using assms that unfolding list_all_iff digit_char_def by blast
  then show ?thesis
    by (intro js_trim_id) (meson hd_in_set last_in_set)
qed

lemma decimal_digits:
  assumes "list_all digit_char s" "s \<noteq> []"
  shows "decimal_number s = Some (Whole (digits_val s))"
proof -
  have sign: "take_sign s = (1, s)"
    using assms by (cases s) (auto simp: take_sign_def digit_char_def)
  have "takeWhile digit_char s = s" "dropWhile digit_char s = []"
    using assms(1) by (simp_all add: list_all_iff)
  note tw = this
  show ?thesis
    using assms(2) by (simp add: decimal_number_def take_exponent_def scaled_def Let_def tw sign)
qed

lemma digits_not_letters:
  "list_all (\<lambda>c. lower_char c \<noteq> CHR ''x'' \<and> lower_char c \<noteq> CHR ''o'' \<and> lower_char c \<noteq> CHR ''b'') ''0123456789''"
  by code_simp

lemma js_Number_whole:
  assumes "0 \<le> n" "n < 2 ^ 1024"
  shows "js_Number (int_str n) = Some (Whole n)"
proof -
  let ?s = "nat_str (nat n)"
  have digits: "list_all digit_char ?s" "?s \<noteq> []"
    by (simp_all add: nat_str_digits)
  have letters: "lower_char c \<noteq> CHR ''x'' \<and> lower_char c \<noteq> CHR ''o'' \<and> lower_char c \<noteq> CHR ''b''" if "digit_char c" for c
    using that digits_not_letters unfolding digit_char_def list_all_iff by blast
  have "decimal_number ?s = Some (Whole n)"
    using decimal_digits [OF digits] assms(1) by simp
  moreover have "\<not> too_large (Whole n)"
    using assms by (simp add: too_large_def)
  moreover have "int_str n = ?s"
    using assms(1) by (simp add: int_str_def)
  moreover have "js_trim ?s = ?s"
    by (rule digits_trim [OF digits(1)])
  ultimately have number: "decimal_number ?s = Some (Whole n)" "\<not> too_large (Whole n)" "int_str n = ?s" "js_trim ?s = ?s"
    by blast+
  show ?thesis
  proof (cases ?s)
    case Nil
    then show ?thesis
      using digits(2) by simp
  next
    case (Cons c ds)
    then show ?thesis
      using number letters digits(1) by (cases ds) (simp_all add: js_Number_def)
  qed
qed

lemma parseNum_string: "0 \<le> n \<Longrightarrow> n < 2 ^ 1024 \<Longrightarrow> parseNum (Some (ConfigText (num_string (Whole n)))) d = Whole n"
  by (simp add: parseNum_def num_string_def js_Number_whole)

lemma parseBool_string [simp]: "parseBool (Some (ConfigText (bool_string b))) d = b"
  by (cases b) (simp_all add: parseBool_def bool_string_def js_lower_def lower_char_def)

text \<open>An empty text is a number for JavaScript: the fallback is not taken.\<close>

lemma parseNum_blank: "parseNum (Some (ConfigText [])) d = Whole 0"
  by (simp add: parseNum_def js_Number_def too_large_def)

end
