(* ===== verification/Settings_Grammar.thy ===== *)
theory Settings_Grammar
  imports Settings_Values
begin

text \<open>
  The texts that the checks of the settings page mean to accept, as grammars: hosts, addresses, time servers, exceptions of the
  proxy and durations, each built from its parts. The lemmas show that the checks of \<open>Settings_Values\<close>, which take a text
  apart, accept exactly these.
\<close>

section \<open>The grammars\<close>

text \<open>A label of a host name: 1 to 63 letters, digits and dashes, with no dash at either end. A host name of at least \<open>k\<close> labels.\<close>

definition host_label :: "string \<Rightarrow> bool" where
  "host_label w = (w \<noteq> [] \<and> length w \<le> 63 \<and> list_all label_char w \<and> hd w \<noteq> CHR ''-'' \<and> last w \<noteq> CHR ''-'')"

definition hostname_text :: "nat \<Rightarrow> string \<Rightarrow> bool" where
  "hostname_text k v \<longleftrightarrow> (\<exists>ws. k \<le> length ws \<and> list_all host_label ws \<and> v = js_join ''.'' ws)"

text \<open>Four numbers up to 255 in decimal, without leading zeros; such an address with a prefix length up to 32.\<close>

definition ipv4_text :: "string \<Rightarrow> bool" where
  "ipv4_text v \<longleftrightarrow> (\<exists>ns. length ns = 4 \<and> list_all (\<lambda>n. n \<le> 255) ns \<and> v = js_join ''.'' (map nat_str ns))"

definition cidr_text :: "string \<Rightarrow> bool" where
  "cidr_text v \<longleftrightarrow>
     (\<exists>ip bits. ipv4_text ip \<and> bits \<noteq> [] \<and> length bits \<le> 2 \<and> list_all digit_char bits \<and> digits_val bits \<le> 32 \<and>
        v = ip @ ''/'' @ bits)"

text \<open>A time server: four groups of one to three digits, each up to 255, or a host name that is not four such groups.\<close>

definition digit_groups :: "string list \<Rightarrow> bool" where
  "digit_groups ps = (length ps = 4 \<and> list_all (\<lambda>p. p \<noteq> [] \<and> length p \<le> 3 \<and> list_all digit_char p) ps)"

definition time_server_text :: "string \<Rightarrow> bool" where
  "time_server_text v \<longleftrightarrow>
     (\<exists>ps. digit_groups ps \<and> list_all (\<lambda>p. digits_val p \<le> 255) ps \<and> v = js_join ''.'' ps) \<or>
     hostname_text 1 v \<and> (\<nexists>ps. digit_groups ps \<and> v = js_join ''.'' ps)"

text \<open>An exception of the proxy: an address, a range of addresses, or a host name, after a star or a dot or both.\<close>

definition exception_text :: "string \<Rightarrow> bool" where
  "exception_text v \<longleftrightarrow>
     ipv4_text v \<or> cidr_text v \<or> (\<exists>p h. p \<in> {[], ''.'', ''*.'', ''*..''} \<and> hostname_text 1 h \<and> v = p @ h)"

text \<open>A duration of at least five minutes.\<close>

definition interval_text :: "string \<Rightarrow> bool" where
  "interval_text v \<longleftrightarrow>
     (\<exists>h m x. unit_digits h \<and> unit_digits m \<and> unit_digits x \<and> v = duration_text h m x \<and> 300 \<le> duration_seconds h m x)"

section \<open>Host names\<close>

lemma dot_no_label [simp]: "\<not> label_char (CHR ''.'')" "\<not> label_char (CHR ''/'')" "\<not> label_char (CHR ''*'')"
  "\<not> digit_char (CHR ''.'')" "\<not> digit_char (CHR ''/'')"
  by code_simp+

lemma host_label_no_dot: "host_label w \<Longrightarrow> CHR ''.'' \<notin> set w"
  by (auto simp: host_label_def list_all_iff)

lemma hostname_iff:
  assumes "1 \<le> k"
  shows "hostname_text k v \<longleftrightarrow> k \<le> length (split_on (CHR ''.'') v) \<and> list_all host_label (split_on (CHR ''.'') v)"
proof
  assume "hostname_text k v"
  then obtain ws where ws: "k \<le> length ws" "list_all host_label ws" "v = js_join ''.'' ws"
    by (auto simp: hostname_text_def)
  moreover have "split_on (CHR ''.'') (js_join ''.'' ws) = ws"
    using ws assms host_label_no_dot by (intro split_on_join) (auto simp: list_all_iff)
  ultimately show "k \<le> length (split_on (CHR ''.'') v) \<and> list_all host_label (split_on (CHR ''.'') v)" by simp
next
  assume "k \<le> length (split_on (CHR ''.'') v) \<and> list_all host_label (split_on (CHR ''.'') v)"
  then show "hostname_text k v"
    unfolding hostname_text_def by (intro exI [of _ "split_on (CHR ''.'') v"]) (simp add: js_join_split)
qed

lemma alnum_dash: "label_char c \<Longrightarrow> alnum_char c \<longleftrightarrow> c \<noteq> CHR ''-''"
proof -
  have "\<not> alnum_char (CHR ''-'')" by code_simp
  then show "label_char c \<Longrightarrow> alnum_char c \<longleftrightarrow> c \<noteq> CHR ''-''" by (auto simp: label_char_def)
qed

lemma fqdn_label_host: "fqdn_label = host_label"
proof
  fix w
  have "label_char (hd w) \<and> label_char (last w)" if "w \<noteq> []" "list_all label_char w" using that by (simp add: list_all_iff)
  then show "fqdn_label w = host_label w"
    unfolding fqdn_label_def host_label_def using alnum_dash [of "hd w"] alnum_dash [of "last w"] by blast
qed

lemma good_label_host: "good_label = host_label"
  by (simp add: fun_eq_iff good_label_iff host_label_def)

lemma fqdn_text: "fqdnRegex v \<longleftrightarrow> hostname_text 2 v"
  by (simp add: fqdnRegex_def Let_def fqdn_label_host hostname_iff)

lemma hostname_one: "hostname_text 1 v \<longleftrightarrow> list_all good_label (split_on (CHR ''.'') v)"
  using hostname_iff [of 1 v] by (simp add: good_label_host Suc_le_eq)

section \<open>Addresses\<close>

lemma octet_small: "n \<le> 255 \<Longrightarrow> strict_octet (nat_str n)"
proof -
  have "list_all (\<lambda>n. strict_octet (nat_str n)) [0..<256]" by code_simp
  then show "n \<le> 255 \<Longrightarrow> strict_octet (nat_str n)" by (simp add: list_all_iff)
qed

lemma nat_str_snoc: "0 < k \<Longrightarrow> d < 10 \<Longrightarrow> nat_str (10 * k + d) = nat_str k @ [digit_of d]"
  by (subst nat_str.simps) simp

lemma digits_no_zero:
  "list_all digit_char w \<Longrightarrow> w \<noteq> [] \<Longrightarrow> (hd w = CHR ''0'' \<longrightarrow> length w = 1) \<Longrightarrow> nat_str (nat (digits_val w)) = w"
proof (induction w rule: rev_induct)
  case (snoc c w)
  show ?case
  proof (cases "w = []")
    case True
    then show ?thesis using snoc.prems by (simp add: digits_val_def nat_str.simps [of "nat (digit_val c)"] nat_less_iff)
  next
    case False
    then have w: "nat_str (nat (digits_val w)) = w" "hd w \<noteq> CHR ''0''" using snoc by auto
    have pos: "0 < nat (digits_val w)"
    proof (rule ccontr)
      assume "\<not> 0 < nat (digits_val w)"
      then have "nat_str 0 = w" using w(1) by simp
      then have "w = ''0''" by (simp add: nat_str.simps [of 0] digit_of_def)
      then show False using w(2) by simp
    qed
    have "nat (digits_val (w @ [c])) = 10 * nat (digits_val w) + nat (digit_val c)"
      using pos by (simp add: nat_add_distrib nat_mult_distrib)
    moreover have "nat (digit_val c) < 10" by (simp add: nat_less_iff)
    ultimately show ?thesis using pos w(1) snoc.prems(1) by (simp add: nat_str_snoc)
  qed
qed simp

lemma strict_octet_iff: "strict_octet w \<longleftrightarrow> (\<exists>n \<le> 255. w = nat_str n)"
proof
  assume oct: "strict_octet w"
  then have "nat_str (nat (digits_val w)) = w" by (intro digits_no_zero) (auto simp: strict_octet_def)
  moreover have "nat (digits_val w) \<le> 255" using oct by (simp add: strict_octet_def nat_le_iff)
  ultimately show "\<exists>n \<le> 255. w = nat_str n" by metis
qed (auto simp: octet_small)

lemma nat_str_no_dot: "CHR ''.'' \<notin> set (nat_str n)"
  using nat_str_digits [of n] by (auto simp: list_all_iff)

lemma digits_no_dot: "\<forall>x \<in> set w. digit_char x \<Longrightarrow> CHR ''.'' \<notin> set w"
  by (metis dot_no_label(4))

lemma ipv4_iff: "ipv4Regex v \<longleftrightarrow> ipv4_text v"
proof
  assume v: "ipv4Regex v"
  let ?ns = "map (\<lambda>w. nat (digits_val w)) (split_on (CHR ''.'') v)"
  have octets: "nat_str (nat (digits_val w)) = w" "nat (digits_val w) \<le> 255" if "w \<in> set (split_on (CHR ''.'') v)" for w
    using v that by (auto simp: ipv4Regex_def Let_def list_all_iff strict_octet_iff)
  then have "map nat_str ?ns = split_on (CHR ''.'') v" by (simp add: comp_def map_idI)
  then have "v = js_join ''.'' (map nat_str ?ns)" by (simp only: js_join_split)
  then show "ipv4_text v"
    unfolding ipv4_text_def using v octets by (intro exI [of _ ?ns]) (simp add: ipv4Regex_def Let_def list_all_iff)
next
  assume "ipv4_text v"
  then obtain ns where ns: "length ns = 4" "list_all (\<lambda>n. n \<le> 255) ns" "v = js_join ''.'' (map nat_str ns)"
    by (auto simp: ipv4_text_def)
  have "split_on (CHR ''.'') v = map nat_str ns"
    unfolding ns(3) using ns(1) by (intro split_on_join) (auto simp: list_all_iff nat_str_no_dot)
  then show "ipv4Regex v" using ns(1,2) by (simp add: ipv4Regex_def list_all_iff octet_small)
qed

lemma host_iff: "isValidHost v \<longleftrightarrow> hostname_text 2 v \<or> ipv4_text v"
  by (simp add: isValidHost_def fqdn_text ipv4_iff)

lemma ipv4_chars:
  assumes "ipv4_text v"
  shows "v \<noteq> []" "list_all (\<lambda>c. c = CHR ''.'' \<or> digit_char c) v"
proof -
  have v: "ipv4Regex v" using assms by (simp add: ipv4_iff)
  then show "v \<noteq> []" by (auto simp: ipv4Regex_def)
  have "list_all (list_all digit_char) (split_on (CHR ''.'') v)"
    using v by (auto simp: ipv4Regex_def Let_def list_all_iff strict_octet_def)
  then show "list_all (\<lambda>c. c = CHR ''.'' \<or> digit_char c) v"
    by (subst split_on_chars [where sep = "CHR ''.''"]) (auto simp: list_all_iff)
qed

section \<open>Time servers\<close>

lemma groups_iff: "(\<exists>ps. digit_groups ps \<and> P ps \<and> v = js_join ''.'' ps) \<longleftrightarrow> quad_shape v \<and> P (split_on (CHR ''.'') v)"
proof
  assume "\<exists>ps. digit_groups ps \<and> P ps \<and> v = js_join ''.'' ps"
  then obtain ps where ps: "digit_groups ps" "P ps" "v = js_join ''.'' ps" by blast
  moreover have "split_on (CHR ''.'') v = ps"
    unfolding ps(3)
  proof (intro split_on_join)
    show "ps \<noteq> []" using ps(1) by (auto simp: digit_groups_def)
    show "list_all (\<lambda>w. CHR ''.'' \<notin> set w) ps"
      unfolding list_all_iff using ps(1) digits_no_dot by (simp add: digit_groups_def list_all_iff)
  qed
  ultimately show "quad_shape v \<and> P (split_on (CHR ''.'') v)"
    by (simp add: quad_shape_def digit_groups_def)
next
  assume "quad_shape v \<and> P (split_on (CHR ''.'') v)"
  then show "\<exists>ps. digit_groups ps \<and> P ps \<and> v = js_join ''.'' ps"
    by (intro exI [of _ "split_on (CHR ''.'') v"]) (simp add: quad_shape_def Let_def digit_groups_def js_join_split)
qed

lemma time_server_iff: "isValidNtpServer v \<longleftrightarrow> time_server_text (js_trim v)"
  using groups_iff [of "\<lambda>_. True" "js_trim v"] groups_iff [of "list_all (\<lambda>p. digits_val p \<le> 255)" "js_trim v"]
  by (auto simp: ntp_server_accepted_iff time_server_text_def hostname_one [unfolded One_nat_def] Let_def)

section \<open>Exceptions\<close>

lemma match_cidr_text:
  assumes "list_all digit_char bits" "bits \<noteq> []" "length bits \<le> 2" "ip \<noteq> []" "CHR 0x0A \<notin> set ip"
  shows "match_cidr (ip @ ''/'' @ bits) = Some (ip, bits)"
proof -
  have digits: "digit_char c" if "c \<in> set (rev bits)" for c using assms(1) that by (simp add: list_all_iff)
  have "takeWhile digit_char (rev bits @ CHR ''/'' # rev ip) = rev bits @ takeWhile digit_char (CHR ''/'' # rev ip)"
    "dropWhile digit_char (rev bits @ CHR ''/'' # rev ip) = dropWhile digit_char (CHR ''/'' # rev ip)"
    by (rule takeWhile_append2 dropWhile_append2; rule digits; assumption)+
  then have "takeWhile digit_char (rev bits @ CHR ''/'' # rev ip) = rev bits"
    "dropWhile digit_char (rev bits @ CHR ''/'' # rev ip) = CHR ''/'' # rev ip"
    by simp_all
  then show ?thesis using assms by (simp add: match_cidr_def)
qed

lemma match_cidr_read:
  assumes "match_cidr v = Some (ip, bits)"
  shows "v = ip @ ''/'' @ bits" "bits \<noteq> []" "length bits \<le> 2" "list_all digit_char bits"
proof -
  let ?b = "takeWhile digit_char (rev v)" and ?r = "dropWhile digit_char (rev v)"
  obtain c rest where r: "?r = c # rest" "c = CHR ''/''" "ip = rev rest" "bits = rev ?b" "bits \<noteq> []" "length bits \<le> 2"
    using assms by (auto simp: match_cidr_def Let_def split: list.splits if_splits)
  have "rev v = ?b @ ?r" by simp
  then have "v = rev ?r @ rev ?b" by (metis rev_append rev_rev_ident)
  then show "v = ip @ ''/'' @ bits" using r by simp
  show "bits \<noteq> []" "length bits \<le> 2" by (rule r)+
  show "list_all digit_char bits" unfolding r(4) by (auto simp: list_all_iff dest: set_takeWhileD)
qed

lemma ipv4_lacks: "ipv4_text v \<Longrightarrow> \<not> digit_char c \<Longrightarrow> c \<noteq> CHR ''.'' \<Longrightarrow> c \<notin> set v"
  using ipv4_chars(2) unfolding list_all_iff by blast

lemma newline_no_ip: "ipv4_text ip \<Longrightarrow> CHR 0x0A \<notin> set ip"
proof (rule ipv4_lacks)
  show "\<not> digit_char (CHR 0x0A)" by code_simp
qed simp_all

lemma cidr_iff: "good_cidr v \<longleftrightarrow> cidr_text v"
proof
  assume "good_cidr v"
  then obtain ip bits where m: "match_cidr v = Some (ip, bits)" "ipv4_text ip" "digits_val bits \<le> 32"
    by (auto simp: good_cidr_def ipv4_iff split: option.splits)
  then show "cidr_text v" using match_cidr_read [OF m(1)] unfolding cidr_text_def by blast
next
  assume "cidr_text v"
  then obtain ip bits where v: "ipv4_text ip" "bits \<noteq> []" "length bits \<le> 2" "list_all digit_char bits" "digits_val bits \<le> 32"
    "v = ip @ ''/'' @ bits" unfolding cidr_text_def by blast
  then show "good_cidr v"
    using match_cidr_text [OF v(4,2,3)] ipv4_chars(1) newline_no_ip by (simp add: good_cidr_def ipv4_iff)
qed

lemma with_scheme_colon:
  assumes "with_scheme v" shows "CHR '':'' \<in> set v"
proof -
  have part: "starts_with s t \<Longrightarrow> c \<in> set t \<Longrightarrow> c \<in> set s" for s t :: string and c
    by (metis in_set_takeD starts_with_def)
  have "CHR '':'' \<in> set (js_lower v)"
    using assms part [of "js_lower v" _ "CHR '':''"] unfolding with_scheme_def by fastforce
  then obtain c where "c \<in> set v" "lower_char c = CHR '':''" by (auto simp: js_lower_def)
  moreover have "\<forall>c. lower_char c = CHR '':'' \<longrightarrow> c = CHR '':''" by (simp add: lower_char_def)
  ultimately show ?thesis by metis
qed

lemma colon_outside [simp]: "\<not> host_char (CHR '':'')" "\<not> digit_char (CHR '':'')" "\<not> label_char (CHR '':'')"
  by code_simp+

lemma hostname_facts:
  assumes "hostname_text 1 h"
  shows "h \<noteq> []" "list_all host_char h" "hd h \<noteq> CHR ''-''" "\<not> ends_with (CHR ''-'') h" "\<not> str_includes h ''..''"
    "hd h \<noteq> CHR ''.''" "hd h \<noteq> CHR ''*''"
proof -
  have labels: "list_all good_label (split_on (CHR ''.'') h)" using assms by (simp only: hostname_one)
  note plain = good_labels_plain [OF labels]
  show "h \<noteq> []" "list_all host_char h" "\<not> str_includes h ''..''" "hd h \<noteq> CHR ''.''" by (rule plain)+
  have "host_char (hd h)" using plain(1,2) by (simp add: list_all_iff)
  moreover have "\<not> host_char (CHR ''*'')" by code_simp
  ultimately show "hd h \<noteq> CHR ''*''" by metis
  obtain w ws where ws: "split_on (CHR ''.'') h = w # ws" using split_on_nonempty by (metis list.exhaust)
  have joined: "h = js_join ''.'' (w # ws)" using js_join_split [of "CHR ''.''" h] ws by simp
  have w: "w \<noteq> []" "hd w \<noteq> CHR ''-''" using labels by (simp_all add: ws good_label_iff)
  have "hd h = hd w" unfolding joined using w(1) by (cases ws; cases w) simp_all
  then show "hd h \<noteq> CHR ''-''" using w(2) by simp
  show "\<not> ends_with (CHR ''-'') h"
  proof
    assume "ends_with (CHR ''-'') h"
    then have h: "h = butlast h @ ''-''" "h \<noteq> []" by (auto simp: ends_with_def) (metis append_butlast_last_id)
    have "\<exists>x. last (split_on (CHR ''.'') (v @ ''-'')) = x @ ''-''" for v
    proof (induction v)
      case (Cons c v)
      then obtain x where x: "last (split_on (CHR ''.'') (v @ ''-'')) = x @ ''-''" by blast
      obtain y ys where "split_on (CHR ''.'') (v @ ''-'') = y # ys" using split_on_nonempty by (metis list.exhaust)
      with x show ?case by (cases ys) auto
    qed simp
    then obtain x where "last (split_on (CHR ''.'') h) = x @ ''-''" using h by metis
    moreover have "good_label (last (split_on (CHR ''.'') h))"
      using labels by (simp add: list_all_iff)
    ultimately show False by (simp add: good_label_iff)
  qed
qed

lemma strip_prefix_skip: "\<not> starts_with v p \<Longrightarrow> strip_prefix p v = v"
  by (simp add: strip_prefix_def)

lemma strip_prefix_parts: "\<exists>q \<in> {[], p}. v = q @ strip_prefix p v"
  by (auto simp: strip_prefix_def starts_with_def) (metis append_take_drop_id)

lemma stripped:
  assumes "p \<in> {[], ''.'', ''*.'', ''*..''}" "hostname_text 1 h"
  shows "strip_prefix ''.'' (strip_prefix ''*.'' (p @ h)) = h"
proof -
  obtain c r where h: "h = c # r" "c \<noteq> CHR ''.''" "c \<noteq> CHR ''*''"
    using hostname_facts(1,6,7) [OF assms(2)] by (cases h) auto
  then show ?thesis using assms(1) by (auto simp: strip_prefix_def starts_with_def)
qed

lemma hostname_entry:
  assumes "p \<in> {[], ''.'', ''*.'', ''*..''}" "hostname_text 1 h"
  shows "isValidNoProxyEntry (p @ h)"
proof -
  note h = hostname_facts [OF assms(2)]
  have "CHR '':'' \<notin> set (p @ h)" using assms(1) h(2) by (auto simp: list_all_iff)
  then have "\<not> with_scheme (p @ h)" using with_scheme_colon by blast
  moreover have "list_all good_label (split_on (CHR ''.'') h)" using assms(2) by (simp only: hostname_one)
  ultimately show ?thesis
    using h by (simp add: isValidNoProxyEntry_def stripped [OF assms] Let_def)
qed

lemma no_proxy_entry_iff: "isValidNoProxyEntry v \<longleftrightarrow> exception_text v"
proof
  assume v: "isValidNoProxyEntry v"
  show "exception_text v"
  proof (cases "ipv4Regex v \<or> good_cidr v")
    case True
    then show ?thesis by (auto simp: exception_text_def ipv4_iff cidr_iff)
  next
    case False
    have "\<exists>p h. p \<in> {[], ''.'', ''*.'', ''*..''} \<and> hostname_text 1 h \<and> v = p @ h"
    proof (cases "v = ''localhost''")
      case True
      moreover have "list_all good_label (split_on (CHR ''.'') ''localhost'')" by code_simp
      ultimately show ?thesis by (intro exI [of _ "[]"] exI [of _ v]) (simp add: hostname_one [unfolded One_nat_def])
    next
      case F: False
      let ?h = "strip_prefix ''.'' (strip_prefix ''*.'' v)"
      obtain q where q: "q \<in> {[], ''*.''}" "v = q @ strip_prefix ''*.'' v" using strip_prefix_parts by blast
      obtain p where p: "p \<in> {[], ''.''}" "strip_prefix ''*.'' v = p @ ?h" using strip_prefix_parts by blast
      have "hostname_text 1 ?h"
        using v False F by (simp add: isValidNoProxyEntry_def Let_def hostname_one [unfolded One_nat_def] split: if_splits)
      moreover have "v = (q @ p) @ ?h" using q(2) p(2) by simp
      moreover have "q @ p \<in> {[], ''.'', ''*.'', ''*..''}" using q(1) p(1) by auto
      ultimately show ?thesis by blast
    qed
    then show ?thesis by (simp only: exception_text_def) blast
  qed
next
  assume "exception_text v"
  then consider "ipv4_text v" | "cidr_text v" | p h where "p \<in> {[], ''.'', ''*.'', ''*..''}" "hostname_text 1 h" "v = p @ h"
    unfolding exception_text_def by blast
  then show "isValidNoProxyEntry v"
  proof cases
    case 1
    have "CHR '':'' \<notin> set v" by (rule ipv4_lacks [OF 1]) simp_all
    then show ?thesis
      using 1 ipv4_chars(1) [OF 1] with_scheme_colon by (auto simp: isValidNoProxyEntry_def ipv4_iff)
  next
    case 2
    then obtain ip bits where v: "ipv4_text ip" "list_all digit_char bits" "v = ip @ ''/'' @ bits"
      unfolding cidr_text_def by blast
    have "CHR '':'' \<notin> set ip" by (rule ipv4_lacks [OF v(1)]) simp_all
    moreover have "CHR '':'' \<notin> set bits" using v(2) colon_outside(2) unfolding list_all_iff by blast
    ultimately have "CHR '':'' \<notin> set v" by (simp add: v(3))
    then have "\<not> with_scheme v" using with_scheme_colon by blast
    moreover have "v \<noteq> []" by (simp add: v(3))
    ultimately show ?thesis using 2 by (simp add: isValidNoProxyEntry_def cidr_iff)
  qed (simp add: hostname_entry)
qed

section \<open>Durations\<close>

lemma duration_error_iff: "duration_error t = None \<longleftrightarrow> interval_text t"
proof
  assume none: "duration_error t = None"
  then obtain a b c where match: "match_duration t = Some (a, b, c)"
    by (auto simp: duration_error_def split: option.splits)
  then obtain h m x where "unit_digits h" "unit_digits m" "unit_digits x" "t = duration_text h m x"
    "a = map_option digits_val h" "b = map_option digits_val m" "c = map_option digits_val x"
    by (rule match_duration_read)
  moreover from this none match have "300 \<le> duration_seconds h m x"
    by (simp add: duration_error_def duration_seconds_def split: if_splits)
  ultimately show "interval_text t" unfolding interval_text_def by blast
next
  assume "interval_text t"
  then show "duration_error t = None"
    by (auto simp: interval_text_def duration_error_def match_duration_text duration_seconds_def)
qed

lemma parseInterval_iff: "parseInterval val = None \<longleftrightarrow> interval_text (js_trim val)"
proof -
  have "\<not> interval_text []"
    by (auto simp: interval_text_def unit_text_def duration_seconds_def unit_value_def split: option.splits)
  then show ?thesis by (auto simp: parseInterval_def Let_def duration_error_iff)
qed

end
