(* ===== verification/Settings_Page.thy ===== *)
theory Settings_Page
  imports Settings_Grammar
begin

text \<open>
  The form of the settings page, \<open>ui/src/features/globalSettings/helpers.ts\<close> and the checks of
  \<open>components/GlobalSettingsPage.tsx\<close>: the form, its validation, what is written to the config map and to the environment
  of the proxy, and the tabs. The parser of URLs and the data base of timezones belong to the browser; they are arguments.
\<close>

section \<open>The form\<close>

datatype proxy_scheme = Http | Https

fun scheme_str :: "proxy_scheme \<Rightarrow> string" where
  "scheme_str Http = ''http''"
| "scheme_str Https = ''https''"

record proxy_state =
  px_enabled :: bool
  px_http_scheme :: proxy_scheme
  px_http_host :: string
  px_http_port :: string
  px_https_scheme :: proxy_scheme
  px_https_host :: string
  px_https_port :: string
  px_no_proxy :: string

record SettingsForm =
  sg_CHANGED_BLOCKS_COPY_ITERATION_THRESHOLD :: field_number
  sg_PERIODIC_SYNC_INTERVAL :: string
  sg_VM_ACTIVE_WAIT_INTERVAL_SECONDS :: field_number
  sg_VM_ACTIVE_WAIT_RETRY_LIMIT :: field_number
  sg_DEFAULT_MIGRATION_METHOD :: string
  sg_VCENTER_SCAN_CONCURRENCY_LIMIT :: field_number
  sg_CLEANUP_VOLUMES_AFTER_CONVERT_FAILURE :: bool
  sg_CLEANUP_PORTS_AFTER_MIGRATION_FAILURE :: bool
  sg_POPULATE_VMWARE_MACHINE_FLAVORS :: bool
  sg_VOLUME_AVAILABLE_WAIT_INTERVAL_SECONDS :: field_number
  sg_VOLUME_AVAILABLE_WAIT_RETRY_LIMIT :: field_number
  sg_VCENTER_LOGIN_RETRY_LIMIT :: field_number
  sg_OPENSTACK_CREDS_REQUEUE_AFTER_MINUTES :: field_number
  sg_VMWARE_CREDS_REQUEUE_AFTER_MINUTES :: field_number
  sg_VALIDATE_RDM_OWNER_VMS :: bool
  sg_AUTO_FSTAB_UPDATE :: bool
  sg_DEFAULT_NETWORK_PERSISTENCE :: bool
  sg_DEPLOYMENT_NAME :: string
  sg_TIMEZONE :: string
  sg_NTP_SERVERS :: string
  sg_HTTP_TIMEOUT_SECONDS :: field_number
  sg_AGENT_HOST_ENTRIES :: string
  sg_proxy :: proxy_state

definition DEFAULTS :: SettingsForm where
  "DEFAULTS =
     \<lparr> sg_CHANGED_BLOCKS_COPY_ITERATION_THRESHOLD = Whole 20, sg_PERIODIC_SYNC_INTERVAL = ''1h'',
       sg_VM_ACTIVE_WAIT_INTERVAL_SECONDS = Whole 20, sg_VM_ACTIVE_WAIT_RETRY_LIMIT = Whole 15,
       sg_DEFAULT_MIGRATION_METHOD = ''cold'', sg_VCENTER_SCAN_CONCURRENCY_LIMIT = Whole 10,
       sg_CLEANUP_VOLUMES_AFTER_CONVERT_FAILURE = False, sg_CLEANUP_PORTS_AFTER_MIGRATION_FAILURE = False,
       sg_POPULATE_VMWARE_MACHINE_FLAVORS = True, sg_VOLUME_AVAILABLE_WAIT_INTERVAL_SECONDS = Whole 10,
       sg_VOLUME_AVAILABLE_WAIT_RETRY_LIMIT = Whole 15, sg_VCENTER_LOGIN_RETRY_LIMIT = Whole 5,
       sg_OPENSTACK_CREDS_REQUEUE_AFTER_MINUTES = Whole 60, sg_VMWARE_CREDS_REQUEUE_AFTER_MINUTES = Whole 60,
       sg_VALIDATE_RDM_OWNER_VMS = True, sg_AUTO_FSTAB_UPDATE = True, sg_DEFAULT_NETWORK_PERSISTENCE = False,
       sg_DEPLOYMENT_NAME = ''vJailbreak'', sg_TIMEZONE = [], sg_NTP_SERVERS = [], sg_HTTP_TIMEOUT_SECONDS = Whole 30,
       sg_AGENT_HOST_ENTRIES = [],
       sg_proxy = \<lparr> px_enabled = False, px_http_scheme = Http, px_http_host = [], px_http_port = [],
         px_https_scheme = Http, px_https_host = [], px_https_port = [], px_no_proxy = ''localhost,127.0.0.1'' \<rparr> \<rparr>"

section \<open>The config map\<close>

definition toConfigMapData :: "SettingsForm \<Rightarrow> string sobj" where
  "toConfigMapData f =
     [(''CHANGED_BLOCKS_COPY_ITERATION_THRESHOLD'', num_string (sg_CHANGED_BLOCKS_COPY_ITERATION_THRESHOLD f)),
      (''PERIODIC_SYNC_INTERVAL'', sg_PERIODIC_SYNC_INTERVAL f),
      (''VM_ACTIVE_WAIT_INTERVAL_SECONDS'', num_string (sg_VM_ACTIVE_WAIT_INTERVAL_SECONDS f)),
      (''VM_ACTIVE_WAIT_RETRY_LIMIT'', num_string (sg_VM_ACTIVE_WAIT_RETRY_LIMIT f)),
      (''DEFAULT_MIGRATION_METHOD'', sg_DEFAULT_MIGRATION_METHOD f),
      (''VCENTER_SCAN_CONCURRENCY_LIMIT'', num_string (sg_VCENTER_SCAN_CONCURRENCY_LIMIT f)),
      (''CLEANUP_VOLUMES_AFTER_CONVERT_FAILURE'', bool_string (sg_CLEANUP_VOLUMES_AFTER_CONVERT_FAILURE f)),
      (''CLEANUP_PORTS_AFTER_MIGRATION_FAILURE'', bool_string (sg_CLEANUP_PORTS_AFTER_MIGRATION_FAILURE f)),
      (''POPULATE_VMWARE_MACHINE_FLAVORS'', bool_string (sg_POPULATE_VMWARE_MACHINE_FLAVORS f)),
      (''VOLUME_AVAILABLE_WAIT_INTERVAL_SECONDS'', num_string (sg_VOLUME_AVAILABLE_WAIT_INTERVAL_SECONDS f)),
      (''VOLUME_AVAILABLE_WAIT_RETRY_LIMIT'', num_string (sg_VOLUME_AVAILABLE_WAIT_RETRY_LIMIT f)),
      (''VCENTER_LOGIN_RETRY_LIMIT'', num_string (sg_VCENTER_LOGIN_RETRY_LIMIT f)),
      (''OPENSTACK_CREDS_REQUEUE_AFTER_MINUTES'', num_string (sg_OPENSTACK_CREDS_REQUEUE_AFTER_MINUTES f)),
      (''VMWARE_CREDS_REQUEUE_AFTER_MINUTES'', num_string (sg_VMWARE_CREDS_REQUEUE_AFTER_MINUTES f)),
      (''VALIDATE_RDM_OWNER_VMS'', bool_string (sg_VALIDATE_RDM_OWNER_VMS f)),
      (''AUTO_FSTAB_UPDATE'', bool_string (sg_AUTO_FSTAB_UPDATE f)),
      (''DEFAULT_NETWORK_PERSISTENCE'', bool_string (sg_DEFAULT_NETWORK_PERSISTENCE f)),
      (''DEPLOYMENT_NAME'', sg_DEPLOYMENT_NAME f), (''TIMEZONE'', sg_TIMEZONE f), (''NTP_SERVERS'', sg_NTP_SERVERS f),
      (''HTTP_TIMEOUT_SECONDS'', num_string (sg_HTTP_TIMEOUT_SECONDS f)), (''AGENT_HOST_ENTRIES'', sg_AGENT_HOST_ENTRIES f)]"

text \<open>The proxy is not in the config map; the form starts from the defaults.\<close>

definition fromConfigMapData :: "(string \<Rightarrow> config_value option) \<Rightarrow> SettingsForm" where
  "fromConfigMapData d =
     \<lparr> sg_CHANGED_BLOCKS_COPY_ITERATION_THRESHOLD =
         parseNum (d ''CHANGED_BLOCKS_COPY_ITERATION_THRESHOLD'') (sg_CHANGED_BLOCKS_COPY_ITERATION_THRESHOLD DEFAULTS),
       sg_PERIODIC_SYNC_INTERVAL = parseText (d ''PERIODIC_SYNC_INTERVAL'') (sg_PERIODIC_SYNC_INTERVAL DEFAULTS),
       sg_VM_ACTIVE_WAIT_INTERVAL_SECONDS =
         parseNum (d ''VM_ACTIVE_WAIT_INTERVAL_SECONDS'') (sg_VM_ACTIVE_WAIT_INTERVAL_SECONDS DEFAULTS),
       sg_VM_ACTIVE_WAIT_RETRY_LIMIT = parseNum (d ''VM_ACTIVE_WAIT_RETRY_LIMIT'') (sg_VM_ACTIVE_WAIT_RETRY_LIMIT DEFAULTS),
       sg_DEFAULT_MIGRATION_METHOD =
         (if d ''DEFAULT_MIGRATION_METHOD'' = Some (ConfigText ''cold'') then ''cold'' else ''hot''),
       sg_VCENTER_SCAN_CONCURRENCY_LIMIT =
         parseNum (d ''VCENTER_SCAN_CONCURRENCY_LIMIT'') (sg_VCENTER_SCAN_CONCURRENCY_LIMIT DEFAULTS),
       sg_CLEANUP_VOLUMES_AFTER_CONVERT_FAILURE =
         parseBool (d ''CLEANUP_VOLUMES_AFTER_CONVERT_FAILURE'') (sg_CLEANUP_VOLUMES_AFTER_CONVERT_FAILURE DEFAULTS),
       sg_CLEANUP_PORTS_AFTER_MIGRATION_FAILURE =
         parseBool (d ''CLEANUP_PORTS_AFTER_MIGRATION_FAILURE'') (sg_CLEANUP_PORTS_AFTER_MIGRATION_FAILURE DEFAULTS),
       sg_POPULATE_VMWARE_MACHINE_FLAVORS =
         parseBool (d ''POPULATE_VMWARE_MACHINE_FLAVORS'') (sg_POPULATE_VMWARE_MACHINE_FLAVORS DEFAULTS),
       sg_VOLUME_AVAILABLE_WAIT_INTERVAL_SECONDS =
         parseNum (d ''VOLUME_AVAILABLE_WAIT_INTERVAL_SECONDS'') (sg_VOLUME_AVAILABLE_WAIT_INTERVAL_SECONDS DEFAULTS),
       sg_VOLUME_AVAILABLE_WAIT_RETRY_LIMIT =
         parseNum (d ''VOLUME_AVAILABLE_WAIT_RETRY_LIMIT'') (sg_VOLUME_AVAILABLE_WAIT_RETRY_LIMIT DEFAULTS),
       sg_VCENTER_LOGIN_RETRY_LIMIT = parseNum (d ''VCENTER_LOGIN_RETRY_LIMIT'') (sg_VCENTER_LOGIN_RETRY_LIMIT DEFAULTS),
       sg_OPENSTACK_CREDS_REQUEUE_AFTER_MINUTES =
         parseNum (d ''OPENSTACK_CREDS_REQUEUE_AFTER_MINUTES'') (sg_OPENSTACK_CREDS_REQUEUE_AFTER_MINUTES DEFAULTS),
       sg_VMWARE_CREDS_REQUEUE_AFTER_MINUTES =
         parseNum (d ''VMWARE_CREDS_REQUEUE_AFTER_MINUTES'') (sg_VMWARE_CREDS_REQUEUE_AFTER_MINUTES DEFAULTS),
       sg_VALIDATE_RDM_OWNER_VMS = parseBool (d ''VALIDATE_RDM_OWNER_VMS'') (sg_VALIDATE_RDM_OWNER_VMS DEFAULTS),
       sg_AUTO_FSTAB_UPDATE = parseBool (d ''AUTO_FSTAB_UPDATE'') (sg_AUTO_FSTAB_UPDATE DEFAULTS),
       sg_DEFAULT_NETWORK_PERSISTENCE =
         parseBool (d ''DEFAULT_NETWORK_PERSISTENCE'') (sg_DEFAULT_NETWORK_PERSISTENCE DEFAULTS),
       sg_DEPLOYMENT_NAME = parseText (d ''DEPLOYMENT_NAME'') (sg_DEPLOYMENT_NAME DEFAULTS),
       sg_TIMEZONE = parseText (d ''TIMEZONE'') (sg_TIMEZONE DEFAULTS),
       sg_NTP_SERVERS = parseText (d ''NTP_SERVERS'') (sg_NTP_SERVERS DEFAULTS),
       sg_HTTP_TIMEOUT_SECONDS = parseNum (d ''HTTP_TIMEOUT_SECONDS'') (sg_HTTP_TIMEOUT_SECONDS DEFAULTS),
       sg_AGENT_HOST_ENTRIES = parseText (d ''AGENT_HOST_ENTRIES'') [],
       sg_proxy = sg_proxy DEFAULTS \<rparr>"

text \<open>The data of a config map are texts.\<close>

definition config_text :: "string sobj \<Rightarrow> string \<Rightarrow> config_value option" where
  "config_text d k = map_option ConfigText (map_of d k)"

section \<open>The proxy\<close>

text \<open>What \<open>new URL(text)\<close> gives, or nothing when it throws.\<close>

record parsed_url =
  ur_protocol :: string
  ur_hostname :: string
  ur_port :: string

type_synonym url_parser = "string \<Rightarrow> parsed_url option"

record env_data =
  en_http_proxy :: "string option"
  en_https_proxy :: "string option"
  en_no_proxy :: "string option"

definition validateProxyUrl :: "url_parser \<Rightarrow> string \<Rightarrow> string option" where
  "validateProxyUrl url val =
     (let trimmed = js_trim val
      in if trimmed = [] then None
         else case url trimmed of
           None \<Rightarrow> Some ''Enter a valid URL (e.g. http://proxy.local:3128)''
         | Some u \<Rightarrow> if ur_protocol u \<noteq> ''http:'' \<and> ur_protocol u \<noteq> ''https:''
                     then Some ''Proxy must start with http:// or https://'' else None)"

definition parseProxyParts :: "url_parser \<Rightarrow> string option \<Rightarrow> proxy_scheme \<times> string \<times> string" where
  "parseProxyParts url v =
     (if \<not> str_truthy v then (Http, [], [])
      else case url (the v) of
        None \<Rightarrow> (Http, [], [])
      | Some u \<Rightarrow>
          (let scheme = (if ur_protocol u = ''https:'' then Https else Http);
               defaultPort = (if scheme = Https then ''443'' else ''80'')
           in (scheme, ur_hostname u, if ur_port u \<noteq> [] then ur_port u else defaultPort)))"

definition deriveProxyState :: "url_parser \<Rightarrow> SettingsForm \<Rightarrow> env_data option \<Rightarrow> proxy_state" where
  "deriveProxyState url base env =
     (let httpProxy = Option.bind env en_http_proxy; httpsProxy = Option.bind env en_https_proxy;
          (s, h, p) = parseProxyParts url httpProxy; (ss, hs, ps) = parseProxyParts url httpsProxy
      in \<lparr> px_enabled = (str_truthy httpProxy \<or> str_truthy httpsProxy), px_http_scheme = s, px_http_host = h,
           px_http_port = p, px_https_scheme = ss, px_https_host = hs, px_https_port = ps,
           px_no_proxy = (case Option.bind env en_no_proxy of None \<Rightarrow> px_no_proxy (sg_proxy base) | Some v \<Rightarrow> v) \<rparr>)"

definition applyProxyState :: "SettingsForm \<Rightarrow> proxy_state \<Rightarrow> SettingsForm" where
  "applyProxyState form proxyState = form \<lparr> sg_proxy := proxyState \<rparr>"

definition proxy_url :: "bool \<Rightarrow> proxy_scheme \<Rightarrow> string \<Rightarrow> string \<Rightarrow> string" where
  "proxy_url enabled scheme host port =
     (if enabled \<and> js_trim host \<noteq> [] \<and> js_trim port \<noteq> []
      then scheme_str scheme @ ''://'' @ js_trim host @ '':'' @ js_trim port else [])"

definition buildEnvPayload :: "SettingsForm \<Rightarrow> env_data" where
  "buildEnvPayload form =
     (let p = sg_proxy form
      in \<lparr> en_http_proxy = Some (proxy_url (px_enabled p) (px_http_scheme p) (px_http_host p) (px_http_port p)),
           en_https_proxy = Some (proxy_url (px_enabled p) (px_https_scheme p) (px_https_host p) (px_https_port p)),
           en_no_proxy = Some (normalizeNoProxy (js_trim (px_no_proxy p))) \<rparr>)"

section \<open>Validation\<close>

text \<open>An error is put under the name of its field.\<close>

type_synonym field_errors = "string sobj"

abbreviation put_error :: "string \<Rightarrow> string \<Rightarrow> field_errors \<Rightarrow> field_errors" where
  "put_error \<equiv> obj_set (\<lambda>_ _. False)"

definition error_if :: "bool \<Rightarrow> string \<Rightarrow> string \<Rightarrow> field_errors \<Rightarrow> field_errors" where
  "error_if b k m e = (if b then put_error k m e else e)"

definition threshold_ok :: "field_number \<Rightarrow> bool" where
  "threshold_ok n = (case n of Whole i \<Rightarrow> 1 \<le> i \<and> i \<le> 20 | _ \<Rightarrow> False)"

definition number_errors :: "SettingsForm \<Rightarrow> field_errors \<Rightarrow> field_errors" where
  "number_errors f =
     error_if (\<not> whole_in 1 (sg_HTTP_TIMEOUT_SECONDS f)) ''HTTP_TIMEOUT_SECONDS'' ''Enter an integer >= 1.'' \<circ>
     error_if (\<not> whole_in 0 (sg_VCENTER_LOGIN_RETRY_LIMIT f)) ''VCENTER_LOGIN_RETRY_LIMIT'' ''Enter an integer >= 0.'' \<circ>
     fold (\<lambda>(k, n). error_if (\<not> whole_in 1 n) k ''Enter an integer >= 1.'')
       [(''VM_ACTIVE_WAIT_INTERVAL_SECONDS'', sg_VM_ACTIVE_WAIT_INTERVAL_SECONDS f),
        (''VM_ACTIVE_WAIT_RETRY_LIMIT'', sg_VM_ACTIVE_WAIT_RETRY_LIMIT f),
        (''VCENTER_SCAN_CONCURRENCY_LIMIT'', sg_VCENTER_SCAN_CONCURRENCY_LIMIT f),
        (''VOLUME_AVAILABLE_WAIT_INTERVAL_SECONDS'', sg_VOLUME_AVAILABLE_WAIT_INTERVAL_SECONDS f),
        (''VOLUME_AVAILABLE_WAIT_RETRY_LIMIT'', sg_VOLUME_AVAILABLE_WAIT_RETRY_LIMIT f),
        (''OPENSTACK_CREDS_REQUEUE_AFTER_MINUTES'', sg_OPENSTACK_CREDS_REQUEUE_AFTER_MINUTES f),
        (''VMWARE_CREDS_REQUEUE_AFTER_MINUTES'', sg_VMWARE_CREDS_REQUEUE_AFTER_MINUTES f)]"

definition leading_errors :: "SettingsForm \<Rightarrow> field_errors \<Rightarrow> field_errors" where
  "leading_errors f =
     error_if (sg_DEFAULT_MIGRATION_METHOD f \<noteq> ''hot'' \<and> sg_DEFAULT_MIGRATION_METHOD f \<noteq> ''cold'')
       ''DEFAULT_MIGRATION_METHOD'' ''Must be 'hot' or 'cold'.'' \<circ>
     (\<lambda>e. case parseInterval (js_trim (sg_PERIODIC_SYNC_INTERVAL f)) of None \<Rightarrow> e
          | Some m \<Rightarrow> put_error ''PERIODIC_SYNC_INTERVAL'' m e) \<circ>
     error_if (\<not> threshold_ok (sg_CHANGED_BLOCKS_COPY_ITERATION_THRESHOLD f)) ''CHANGED_BLOCKS_COPY_ITERATION_THRESHOLD''
       ''Enter an integer between 1 and 20 (inclusive).''"

definition ntp_entries :: "string \<Rightarrow> string list" where
  "ntp_entries raw =
     filter (\<lambda>x. x \<noteq> []) (map js_trim (concat (map (split_on (CHR '','')) (split_on (CHR 0x0A) raw))))"

definition name_errors :: "SettingsForm \<Rightarrow> field_errors \<Rightarrow> field_errors" where
  "name_errors f e =
     (let dn = js_trim (sg_DEPLOYMENT_NAME f)
      in if dn = [] then put_error ''DEPLOYMENT_NAME'' ''Required.'' e
         else error_if (63 < length dn) ''DEPLOYMENT_NAME'' ''Must be 63 characters or fewer.'' e)"

definition time_errors :: "(string \<Rightarrow> bool) \<Rightarrow> SettingsForm \<Rightarrow> field_errors \<Rightarrow> field_errors" where
  "time_errors timezone_known f =
     (\<lambda>e. if js_trim (sg_NTP_SERVERS f) = [] then e
          else case find (\<lambda>x. \<not> isValidNtpServer x) (ntp_entries (sg_NTP_SERVERS f)) of
            None \<Rightarrow> e
          | Some x \<Rightarrow> put_error ''NTP_SERVERS''
              (''Invalid NTP server '' @ [CHR 0x22] @ x @ [CHR 0x22] @ ''. Use hostnames or IPv4 addresses, separated by commas or new lines.'') e) \<circ>
     error_if (js_trim (sg_TIMEZONE f) \<noteq> [] \<and> \<not> timezone_known (js_trim (sg_TIMEZONE f))) ''TIMEZONE''
       ''Select a timezone from the list.''"

definition no_proxy_errors :: "SettingsForm \<Rightarrow> field_errors \<Rightarrow> field_errors" where
  "no_proxy_errors f e =
     (let noProxy = js_trim (px_no_proxy (sg_proxy f)); entries = map js_trim (split_on (CHR '','') noProxy)
      in if noProxy = [] then e
         else if [] \<in> set entries
         then put_error ''NO_PROXY'' (''Remove empty entries. Use a comma-separated list '' @
                ''(e.g. localhost,127.0.0.1,.example.com,10.0.0.0/8).'') e
         else case find (\<lambda>x. \<not> isValidNoProxyEntry x) entries of
                None \<Rightarrow> e
              | Some x \<Rightarrow> put_error ''NO_PROXY'' (''Invalid no_proxy entry: '' @ [CHR 0x22] @ x @ [CHR 0x22] @
                  ''. Use hosts/domains/IPs or IPv4 CIDRs (no http:// or https://).'') e)"

definition port_ok :: "string \<Rightarrow> bool" where
  "port_ok v = (case js_Number v of Some (Whole n) \<Rightarrow> 1 \<le> n \<and> n \<le> 65535 | _ \<Rightarrow> False)"

definition validateHostPort ::
  "url_parser \<Rightarrow> string \<Rightarrow> string \<Rightarrow> string \<Rightarrow> string \<Rightarrow> proxy_scheme \<Rightarrow> field_errors \<Rightarrow> field_errors" where
  "validateHostPort url hostKey portKey hostVal portVal scheme e =
     (if hostVal = [] \<and> portVal = [] then e
      else (let e1 = (if hostVal = [] then put_error hostKey (js_upper (scheme_str scheme) @ '' proxy server is required when proxy is enabled.'') e
                      else if with_scheme hostVal
                      then put_error hostKey ''Enter only the FQDN or IPv4 address (or paste the full URL and it will auto-fill).'' e
                      else error_if (\<not> isValidHost hostVal) hostKey ''Enter a valid FQDN (with at least one dot) or IPv4 address.'' e);
                e2 = (if portVal = [] then put_error portKey (js_upper (scheme_str scheme) @ '' proxy port is required when proxy is enabled.'') e1
                      else error_if (\<not> port_ok portVal) portKey ''Enter a valid TCP port between 1 and 65535.'' e1)
            in if map_of e2 hostKey \<noteq> None \<or> map_of e2 portKey \<noteq> None then e2
               else case validateProxyUrl url (scheme_str scheme @ ''://'' @ hostVal @ '':'' @ portVal) of
                      None \<Rightarrow> e2
                    | Some m \<Rightarrow> put_error hostKey m e2))"

definition proxy_errors :: "url_parser \<Rightarrow> SettingsForm \<Rightarrow> field_errors \<Rightarrow> field_errors" where
  "proxy_errors url f e =
     (let p = sg_proxy f
      in if \<not> px_enabled p then e
         else validateHostPort url ''PROXY_HTTPS_HOST'' ''PROXY_HTTPS_PORT'' (js_trim (px_https_host p)) (js_trim (px_https_port p))
                (px_https_scheme p)
                (validateHostPort url ''PROXY_HTTP_HOST'' ''PROXY_HTTP_PORT'' (js_trim (px_http_host p)) (js_trim (px_http_port p))
                  (px_http_scheme p) e))"

text \<open>The flags are booleans by their type, and the schemes one of two.\<close>

definition buildErrors :: "url_parser \<Rightarrow> (string \<Rightarrow> bool) \<Rightarrow> SettingsForm \<Rightarrow> field_errors" where
  "buildErrors url timezone_known f =
     (proxy_errors url f \<circ> no_proxy_errors f \<circ> time_errors timezone_known f \<circ> name_errors f \<circ> number_errors f \<circ> leading_errors f) []"

section \<open>Tabs\<close>

datatype settings_tab = General | Intervals | Network | Advanced | Hosts | Vddk | Ai

fun TAB_FIELD_KEYS :: "settings_tab \<Rightarrow> string list" where
  "TAB_FIELD_KEYS General =
     [''DEPLOYMENT_NAME'', ''TIMEZONE'', ''CHANGED_BLOCKS_COPY_ITERATION_THRESHOLD'', ''PERIODIC_SYNC_INTERVAL'']"
| "TAB_FIELD_KEYS Intervals =
     [''VM_ACTIVE_WAIT_INTERVAL_SECONDS'', ''VM_ACTIVE_WAIT_RETRY_LIMIT'', ''VOLUME_AVAILABLE_WAIT_INTERVAL_SECONDS'',
      ''VOLUME_AVAILABLE_WAIT_RETRY_LIMIT'', ''VCENTER_LOGIN_RETRY_LIMIT'', ''VCENTER_SCAN_CONCURRENCY_LIMIT'']"
| "TAB_FIELD_KEYS Network =
     [''PROXY_ENABLED'', ''PROXY_HTTP_SCHEME'', ''PROXY_HTTP_HOST'', ''PROXY_HTTP_PORT'', ''PROXY_HTTPS_SCHEME'',
      ''PROXY_HTTPS_HOST'', ''PROXY_HTTPS_PORT'', ''NO_PROXY'']"
| "TAB_FIELD_KEYS Advanced =
     [''OPENSTACK_CREDS_REQUEUE_AFTER_MINUTES'', ''VMWARE_CREDS_REQUEUE_AFTER_MINUTES'', ''DEFAULT_MIGRATION_METHOD'',
      ''NTP_SERVERS'', ''HTTP_TIMEOUT_SECONDS'', ''CLEANUP_VOLUMES_AFTER_CONVERT_FAILURE'',
      ''CLEANUP_PORTS_AFTER_MIGRATION_FAILURE'', ''POPULATE_VMWARE_MACHINE_FLAVORS'', ''VALIDATE_RDM_OWNER_VMS'',
      ''AUTO_FSTAB_UPDATE'', ''DEFAULT_NETWORK_PERSISTENCE'']"
| "TAB_FIELD_KEYS Hosts = [''AGENT_HOST_ENTRIES'']"
| "TAB_FIELD_KEYS Vddk = []"
| "TAB_FIELD_KEYS Ai = []"

definition TAB_ORDER :: "settings_tab list" where
  "TAB_ORDER = [General, Intervals, Network, Advanced, Hosts, Vddk, Ai]"

definition tabHasError :: "field_errors \<Rightarrow> settings_tab \<Rightarrow> bool" where
  "tabHasError e tab = list_ex (\<lambda>k. str_truthy (map_of e k)) (TAB_FIELD_KEYS tab)"

section \<open>What passes the validation\<close>

lemma error_if_nil [simp]: "error_if b k m e = [] \<longleftrightarrow> \<not> b \<and> e = []"
  by (simp add: error_if_def)

lemma octet_no_slash: "strict_octet w \<Longrightarrow> list_all host_char w"
  unfolding strict_octet_def list_all_iff host_char_def label_char_def alnum_char_def digit_char_def by auto

lemma valid_host_chars:
  assumes "isValidHost v"
  shows "v \<noteq> []" "list_all host_char v"
proof -
  have dot: "host_char (CHR ''.'')"
    by (simp add: host_char_def)
  have parts: "list_all (list_all host_char) (split_on (CHR ''.'') v)" "2 \<le> length (split_on (CHR ''.'') v)"
    using assms octet_no_slash
    by (auto simp: isValidHost_def fqdnRegex_def ipv4Regex_def Let_def list_all_iff fqdn_label_def host_char_def)
  then show "list_all host_char v"
    using split_on_chars [where sep = "CHR ''.''" and P = host_char and s = v] dot by (auto simp: list_all_iff)
  show "v \<noteq> []"
    using parts(2) by auto
qed

lemma slash_not_host [simp]: "\<not> host_char (CHR ''/'')" "\<not> host_char (CHR '':'')"
  by code_simp+

lemma slash_lower: "CHR ''/'' \<in> set (js_lower v) \<Longrightarrow> CHR ''/'' \<in> set v"
proof (induction v)
  case (Cons c v)
  have "\<forall>c. lower_char c = CHR ''/'' \<longrightarrow> c = CHR ''/''"
    by (simp add: lower_char_def)
  with Cons show ?case
    by (auto simp: js_lower_def)
qed (simp add: js_lower_def)

lemma starts_with_elem: "starts_with s t \<Longrightarrow> c \<in> set t \<Longrightarrow> c \<in> set s"
  by (metis in_set_takeD starts_with_def)

lemma valid_host_no_scheme: "isValidHost v \<Longrightarrow> \<not> with_scheme v"
proof
  assume "isValidHost v" "with_scheme v"
  then have "CHR ''/'' \<in> set (js_lower v)"
    unfolding with_scheme_def by (auto elim!: starts_with_elem)
  then show False
    using valid_host_chars(2) [OF \<open>isValidHost v\<close>] slash_lower [of v] by (auto simp: list_all_iff)
qed

lemma port_not_empty: "port_ok p \<Longrightarrow> p \<noteq> []"
  by (auto simp: port_ok_def js_Number_def too_large_def)

lemma trimmed_last:
  assumes "js_trim p = p" "p \<noteq> []"
  shows "\<not> js_space (last p)"
proof -
  have "rev p = dropWhile js_space (rev (dropWhile js_space p))"
    using assms(1) by (metis js_trim_def rev_rev_ident)
  then have "\<not> js_space (hd (rev p))"
    using assms(2) by (metis hd_dropWhile rev_is_Nil_conv)
  with assms(2) show ?thesis
    by (simp add: hd_rev)
qed

lemma url_trim:
  assumes "js_trim p = p" "p \<noteq> []"
  shows "js_trim (scheme_str c @ ''://'' @ h @ '':'' @ p) = scheme_str c @ ''://'' @ h @ '':'' @ p"
proof (intro js_trim_id disjI2 conjI)
  show "\<not> js_space (hd (scheme_str c @ ''://'' @ h @ '':'' @ p))"
    by (cases c) (simp_all add: js_space_def)
  show "\<not> js_space (last (scheme_str c @ ''://'' @ h @ '':'' @ p))"
    using trimmed_last [OF assms] assms(2) by simp
qed

text \<open>What the two lines of a proxy have to be: both empty, or a host and a port that make an address the browser reads.\<close>

definition host_port_valid :: "url_parser \<Rightarrow> proxy_scheme \<Rightarrow> string \<Rightarrow> string \<Rightarrow> bool" where
  "host_port_valid url c h p =
     (h = [] \<and> p = [] \<or>
      isValidHost h \<and> port_ok p \<and>
      (case url (scheme_str c @ ''://'' @ h @ '':'' @ p) of None \<Rightarrow> False | Some u \<Rightarrow> ur_protocol u \<in> {''http:'', ''https:''}))"

lemma validateHostPort_nil:
  assumes "js_trim p = p"
  shows "validateHostPort url hk pk h p c e = [] \<longleftrightarrow> host_port_valid url c h p \<and> e = []"
proof (cases "e = [] \<and> h \<noteq> [] \<and> p \<noteq> []")
  case True
  then show ?thesis
    using url_trim [OF assms, of c h] valid_host_no_scheme [of h]
    by (auto simp: validateHostPort_def host_port_valid_def error_if_def validateProxyUrl_def Let_def split: option.splits)
next
  case False
  then show ?thesis
    using port_not_empty [of p] valid_host_chars(1) [of h]
    by (auto simp: validateHostPort_def host_port_valid_def error_if_def Let_def split: option.splits)
qed

definition proxy_valid :: "url_parser \<Rightarrow> proxy_state \<Rightarrow> bool" where
  "proxy_valid url p =
     (px_enabled p \<longrightarrow>
      host_port_valid url (px_http_scheme p) (js_trim (px_http_host p)) (js_trim (px_http_port p)) \<and>
      host_port_valid url (px_https_scheme p) (js_trim (px_https_host p)) (js_trim (px_https_port p)))"

lemma proxy_errors_nil: "proxy_errors url f e = [] \<longleftrightarrow> proxy_valid url (sg_proxy f) \<and> e = []"
  by (auto simp: proxy_errors_def proxy_valid_def validateHostPort_nil Let_def)

definition no_proxy_valid :: "string \<Rightarrow> bool" where
  "no_proxy_valid v = (js_trim v = [] \<or> list_all isValidNoProxyEntry (map js_trim (split_on (CHR '','') (js_trim v))))"

lemma find_errors [simp]:
  "(case find (\<lambda>x. \<not> P x) xs of None \<Rightarrow> e | Some x \<Rightarrow> put_error k (m x) e) = [] \<longleftrightarrow> list_all P xs \<and> e = []"
  by (induction xs) auto

lemma no_proxy_errors_nil: "no_proxy_errors f e = [] \<longleftrightarrow> no_proxy_valid (px_no_proxy (sg_proxy f)) \<and> e = []"
proof -
  let ?xs = "map js_trim (split_on (CHR '','') (js_trim (px_no_proxy (sg_proxy f))))"
  have "[] \<notin> set ?xs" if "list_all isValidNoProxyEntry ?xs"
    using that unfolding list_all_iff by (metis isValidNoProxyEntry_def)
  then show ?thesis
    by (auto simp: no_proxy_errors_def no_proxy_valid_def Let_def simp del: list.pred_map set_map)
qed

lemma blank_entries: "js_trim raw = [] \<Longrightarrow> ntp_entries raw = []"
proof -
  have subset: "set w \<subseteq> set s" if "w \<in> set (split_on sep s)" for sep w s
    using that split_on_chars [where sep = sep and P = "\<lambda>c. c = sep \<or> c \<in> set s" and s = s] split_on_parts [of w sep s]
    by (auto simp: list_all_iff)
  assume "js_trim raw = []"
  then have "\<forall>c \<in> set raw. js_space c"
    by (simp add: js_trim_nil_iff js_blank_def list_all_iff)
  then have "js_trim w = []" if "v \<in> set (split_on (CHR 0x0A) raw)" "w \<in> set (split_on (CHR '','') v)" for v w
    using subset [OF that(1)] subset [OF that(2)] by (auto simp: js_trim_nil_iff js_blank_def list_all_iff)
  then show ?thesis
    by (auto simp: ntp_entries_def filter_empty_conv)
qed

lemma time_errors_nil:
  "time_errors known f e = [] \<longleftrightarrow>
     (js_trim (sg_TIMEZONE f) = [] \<or> known (js_trim (sg_TIMEZONE f))) \<and> list_all isValidNtpServer (ntp_entries (sg_NTP_SERVERS f)) \<and> e = []"
  by (auto simp: time_errors_def blank_entries)

lemma number_errors_nil:
  "number_errors f e = [] \<longleftrightarrow>
     list_all (whole_in 1)
       [sg_VM_ACTIVE_WAIT_INTERVAL_SECONDS f, sg_VM_ACTIVE_WAIT_RETRY_LIMIT f, sg_VCENTER_SCAN_CONCURRENCY_LIMIT f,
        sg_VOLUME_AVAILABLE_WAIT_INTERVAL_SECONDS f, sg_VOLUME_AVAILABLE_WAIT_RETRY_LIMIT f,
        sg_OPENSTACK_CREDS_REQUEUE_AFTER_MINUTES f, sg_VMWARE_CREDS_REQUEUE_AFTER_MINUTES f, sg_HTTP_TIMEOUT_SECONDS f] \<and>
     whole_in 0 (sg_VCENTER_LOGIN_RETRY_LIMIT f) \<and> e = []"
  by (auto simp: number_errors_def)

lemma name_errors_nil:
  "name_errors f e = [] \<longleftrightarrow> js_trim (sg_DEPLOYMENT_NAME f) \<noteq> [] \<and> length (js_trim (sg_DEPLOYMENT_NAME f)) \<le> 63 \<and> e = []"
  by (auto simp: name_errors_def Let_def)

lemma leading_errors_nil:
  "leading_errors f e = [] \<longleftrightarrow>
     sg_DEFAULT_MIGRATION_METHOD f \<in> {''hot'', ''cold''} \<and> parseInterval (sg_PERIODIC_SYNC_INTERVAL f) = None \<and>
     threshold_ok (sg_CHANGED_BLOCKS_COPY_ITERATION_THRESHOLD f) \<and> e = []"
  by (auto simp: leading_errors_def parseInterval_def Let_def split: option.splits)

definition settings_numbers :: "SettingsForm \<Rightarrow> field_number list" where
  "settings_numbers f =
     [sg_CHANGED_BLOCKS_COPY_ITERATION_THRESHOLD f, sg_VM_ACTIVE_WAIT_INTERVAL_SECONDS f, sg_VM_ACTIVE_WAIT_RETRY_LIMIT f,
      sg_VCENTER_SCAN_CONCURRENCY_LIMIT f, sg_VOLUME_AVAILABLE_WAIT_INTERVAL_SECONDS f, sg_VOLUME_AVAILABLE_WAIT_RETRY_LIMIT f,
      sg_VCENTER_LOGIN_RETRY_LIMIT f, sg_OPENSTACK_CREDS_REQUEUE_AFTER_MINUTES f, sg_VMWARE_CREDS_REQUEUE_AFTER_MINUTES f,
      sg_HTTP_TIMEOUT_SECONDS f]"

lemma whole_weaken: "whole_in 1 n \<Longrightarrow> whole_in 0 n" "threshold_ok n \<Longrightarrow> whole_in 0 n"
  by (cases n; simp add: whole_in_def threshold_ok_def)+

text \<open>
  What a valid form is, by the grammars of \<open>Settings_Grammar\<close> and without the checks of the code: whole numbers in their ranges, a
  duration of five minutes or more, one of the two methods, a name of 1 to 63 characters, a timezone that is known if there
  is one, entries of the time servers and of the exceptions that belong to their grammars, and for each line of an enabled
  proxy nothing or a host with a port from 1 to 65535 that the browser reads as an address of one of the two schemes.
\<close>

definition at_least :: "int \<Rightarrow> field_number \<Rightarrow> bool" where
  "at_least low n \<longleftrightarrow> (\<exists>i. n = Whole i \<and> low \<le> i)"

definition proxy_line_text :: "url_parser \<Rightarrow> proxy_scheme \<Rightarrow> string \<Rightarrow> string \<Rightarrow> bool" where
  "proxy_line_text url c h p \<longleftrightarrow>
     h = [] \<and> p = [] \<or>
     (hostname_text 2 h \<or> ipv4_text h) \<and> (\<exists>n. js_Number p = Some (Whole n) \<and> 1 \<le> n \<and> n \<le> 65535) \<and>
     (\<exists>u. url (scheme_str c @ ''://'' @ h @ '':'' @ p) = Some u \<and> ur_protocol u \<in> {''http:'', ''https:''})"

definition settings_valid :: "url_parser \<Rightarrow> (string \<Rightarrow> bool) \<Rightarrow> SettingsForm \<Rightarrow> bool" where
  "settings_valid url timezone_known f \<longleftrightarrow>
     (\<exists>i. sg_CHANGED_BLOCKS_COPY_ITERATION_THRESHOLD f = Whole i \<and> 1 \<le> i \<and> i \<le> 20) \<and>
     interval_text (js_trim (sg_PERIODIC_SYNC_INTERVAL f)) \<and>
     sg_DEFAULT_MIGRATION_METHOD f \<in> {''hot'', ''cold''} \<and>
     at_least 1 (sg_VM_ACTIVE_WAIT_INTERVAL_SECONDS f) \<and> at_least 1 (sg_VM_ACTIVE_WAIT_RETRY_LIMIT f) \<and>
     at_least 1 (sg_VCENTER_SCAN_CONCURRENCY_LIMIT f) \<and> at_least 1 (sg_VOLUME_AVAILABLE_WAIT_INTERVAL_SECONDS f) \<and>
     at_least 1 (sg_VOLUME_AVAILABLE_WAIT_RETRY_LIMIT f) \<and> at_least 1 (sg_OPENSTACK_CREDS_REQUEUE_AFTER_MINUTES f) \<and>
     at_least 1 (sg_VMWARE_CREDS_REQUEUE_AFTER_MINUTES f) \<and> at_least 1 (sg_HTTP_TIMEOUT_SECONDS f) \<and>
     at_least 0 (sg_VCENTER_LOGIN_RETRY_LIMIT f) \<and>
     1 \<le> length (js_trim (sg_DEPLOYMENT_NAME f)) \<and> length (js_trim (sg_DEPLOYMENT_NAME f)) \<le> 63 \<and>
     js_trim (sg_TIMEZONE f) \<in> {tz. tz = [] \<or> timezone_known tz} \<and>
     (\<forall>line \<in> set (split_on (CHR 0x0A) (sg_NTP_SERVERS f)). \<forall>part \<in> set (split_on (CHR '','') line).
        js_trim part = [] \<or> time_server_text (js_trim part)) \<and>
     (js_trim (px_no_proxy (sg_proxy f)) = [] \<or>
      (\<forall>part \<in> set (split_on (CHR '','') (js_trim (px_no_proxy (sg_proxy f)))). exception_text (js_trim part))) \<and>
     (px_enabled (sg_proxy f) \<longrightarrow>
        proxy_line_text url (px_http_scheme (sg_proxy f)) (js_trim (px_http_host (sg_proxy f))) (js_trim (px_http_port (sg_proxy f))) \<and>
        proxy_line_text url (px_https_scheme (sg_proxy f)) (js_trim (px_https_host (sg_proxy f))) (js_trim (px_https_port (sg_proxy f))))"

lemma threshold_iff: "threshold_ok n \<longleftrightarrow> (\<exists>i. n = Whole i \<and> 1 \<le> i \<and> i \<le> 20)"
  by (cases n) (simp_all add: threshold_ok_def)

lemma whole_in_iff: "whole_in low n \<longleftrightarrow> at_least low n"
  by (cases n) (simp_all add: whole_in_def at_least_def)

lemma port_iff: "port_ok p \<longleftrightarrow> (\<exists>n. js_Number p = Some (Whole n) \<and> 1 \<le> n \<and> n \<le> 65535)"
  by (auto simp: port_ok_def split: option.splits field_number.splits)

lemma proxy_line_iff: "host_port_valid url c h p \<longleftrightarrow> proxy_line_text url c h p"
  by (auto simp: host_port_valid_def proxy_line_text_def host_iff port_iff split: option.splits)

lemma time_servers_iff:
  "list_all isValidNtpServer (ntp_entries raw) \<longleftrightarrow>
     (\<forall>line \<in> set (split_on (CHR 0x0A) raw). \<forall>part \<in> set (split_on (CHR '','') line).
        js_trim part = [] \<or> time_server_text (js_trim part))"
proof -
  have entries: "list_all P (filter Q (map g xs)) \<longleftrightarrow> (\<forall>x \<in> set xs. Q (g x) \<longrightarrow> P (g x))"
    for P Q :: "string \<Rightarrow> bool" and g :: "string \<Rightarrow> string" and xs
    by (auto simp: list_all_iff)
  show ?thesis unfolding ntp_entries_def entries by (auto simp: time_server_iff)
qed

lemma exceptions_iff:
  "no_proxy_valid v \<longleftrightarrow> js_trim v = [] \<or> (\<forall>part \<in> set (split_on (CHR '','') (js_trim v)). exception_text (js_trim part))"
  by (simp add: no_proxy_valid_def list_all_iff no_proxy_entry_iff)

lemma settings_valid_checks:
  "settings_valid url timezone_known f \<longleftrightarrow>
     threshold_ok (sg_CHANGED_BLOCKS_COPY_ITERATION_THRESHOLD f) \<and> parseInterval (sg_PERIODIC_SYNC_INTERVAL f) = None \<and>
     sg_DEFAULT_MIGRATION_METHOD f \<in> {''hot'', ''cold''} \<and>
     list_all (whole_in 1)
        [sg_VM_ACTIVE_WAIT_INTERVAL_SECONDS f, sg_VM_ACTIVE_WAIT_RETRY_LIMIT f, sg_VCENTER_SCAN_CONCURRENCY_LIMIT f,
         sg_VOLUME_AVAILABLE_WAIT_INTERVAL_SECONDS f, sg_VOLUME_AVAILABLE_WAIT_RETRY_LIMIT f,
         sg_OPENSTACK_CREDS_REQUEUE_AFTER_MINUTES f, sg_VMWARE_CREDS_REQUEUE_AFTER_MINUTES f, sg_HTTP_TIMEOUT_SECONDS f] \<and>
     whole_in 0 (sg_VCENTER_LOGIN_RETRY_LIMIT f) \<and>
     js_trim (sg_DEPLOYMENT_NAME f) \<noteq> [] \<and> length (js_trim (sg_DEPLOYMENT_NAME f)) \<le> 63 \<and>
     (js_trim (sg_TIMEZONE f) = [] \<or> timezone_known (js_trim (sg_TIMEZONE f))) \<and>
     list_all isValidNtpServer (ntp_entries (sg_NTP_SERVERS f)) \<and>
     no_proxy_valid (px_no_proxy (sg_proxy f)) \<and> proxy_valid url (sg_proxy f)"
  unfolding settings_valid_def threshold_iff parseInterval_iff whole_in_iff time_servers_iff exceptions_iff proxy_valid_def
    proxy_line_iff
  by (simp only: list.pred_inject simp_thms mem_Collect_eq conj_assoc length_0_conv [symmetric]) (simp add: Suc_le_eq)

lemma no_errors_valid: "buildErrors url timezone_known f = [] \<longleftrightarrow> settings_valid url timezone_known f"
  by (auto simp: buildErrors_def settings_valid_checks Let_def proxy_errors_nil no_proxy_errors_nil time_errors_nil name_errors_nil
      number_errors_nil leading_errors_nil)

text \<open>C24: the checks of the page leave no error exactly for the valid forms, which are described by grammars and ranges and without
  any of the checks: a duration of hours, minutes and seconds of five minutes or more, whole numbers in their ranges, a name of 1
  to 63 characters, a known timezone or none, time servers that are addresses or host names, exceptions that are addresses,
  ranges or host names, and, with the proxy enabled, two lines that are each empty or a host of two or more labels or an
  address, with a port, that the parser of the browser reads. How the browser reads a number and an address, and which
  timezones it knows, are its own.\<close>

theorem buildErrors_refines: "buildErrors url timezone_known f = [] \<longleftrightarrow> settings_valid url timezone_known f"
  by (rule no_errors_valid)

lemma no_errors_typed:
  assumes "buildErrors url timezone_known f = []"
  shows "list_all (whole_in 0) (settings_numbers f)" "sg_DEFAULT_MIGRATION_METHOD f \<in> {''hot'', ''cold''}"
  using assms
  by (auto simp: buildErrors_def settings_numbers_def whole_weaken proxy_errors_nil no_proxy_errors_nil time_errors_nil
      name_errors_nil number_errors_nil leading_errors_nil)

section \<open>Where the errors are shown\<close>

definition shown :: "field_errors \<Rightarrow> bool" where
  "shown e = (\<forall>(k, m) \<in> set e. k \<in> set (concat (map TAB_FIELD_KEYS TAB_ORDER)) \<and> m \<noteq> [])"

lemma shown_put: "k \<in> set (concat (map TAB_FIELD_KEYS TAB_ORDER)) \<Longrightarrow> m \<noteq> [] \<Longrightarrow> shown e \<Longrightarrow> shown (put_error k m e)"
  using set_obj_set_subset [of "\<lambda>_ _. False" k m e] by (auto simp: shown_def)

lemma shown_if: "k \<in> set (concat (map TAB_FIELD_KEYS TAB_ORDER)) \<Longrightarrow> m \<noteq> [] \<Longrightarrow> shown e \<Longrightarrow> shown (error_if b k m e)"
  by (simp add: error_if_def shown_put)

lemmas shown_intros = shown_put shown_if

lemma shown_leading: "shown e \<Longrightarrow> shown (leading_errors f e)"
  by (auto simp: leading_errors_def TAB_ORDER_def parseInterval_def duration_error_def Let_def split: option.splits if_splits
      intro!: shown_intros)

lemma shown_number: "shown e \<Longrightarrow> shown (number_errors f e)"
  by (simp add: number_errors_def TAB_ORDER_def shown_intros)

lemma shown_name: "shown e \<Longrightarrow> shown (name_errors f e)"
  by (simp add: name_errors_def TAB_ORDER_def shown_intros Let_def)

lemma shown_time: "shown e \<Longrightarrow> shown (time_errors known f e)"
  by (auto simp: time_errors_def TAB_ORDER_def split: option.splits intro!: shown_intros)

lemma shown_no_proxy: "shown e \<Longrightarrow> shown (no_proxy_errors f e)"
  by (auto simp: no_proxy_errors_def TAB_ORDER_def Let_def split: option.splits intro!: shown_intros)

lemma shown_host_port:
  assumes "hk \<in> set (TAB_FIELD_KEYS Network)" "pk \<in> set (TAB_FIELD_KEYS Network)" "shown e"
  shows "shown (validateHostPort url hk pk h p c e)"
proof -
  have "k \<in> set (concat (map TAB_FIELD_KEYS TAB_ORDER))" if "k \<in> set (TAB_FIELD_KEYS Network)" for k
    using that by (auto simp: TAB_ORDER_def)
  note shown = this [OF assms(1), THEN shown_put] this [OF assms(2), THEN shown_put]
    this [OF assms(1), THEN shown_if] this [OF assms(2), THEN shown_if]
  have "m \<noteq> []" if "validateProxyUrl url v = Some m" for m v
    using that by (auto simp: validateProxyUrl_def Let_def split: option.splits if_splits)
  with assms(3) show ?thesis
    by (auto simp: validateHostPort_def Let_def simp del: TAB_FIELD_KEYS.simps split: option.splits intro!: shown)
qed

text \<open>every error of the settings form is shown on exactly one tab: the names under which errors are put are all fields of
  tabs, no field is on two tabs, and a tab is marked exactly when one of its fields has an error.\<close>

theorem errors_on_one_tab:
  "fst ` set (buildErrors url timezone_known f) \<subseteq> set (concat (map TAB_FIELD_KEYS TAB_ORDER)) \<and>
   distinct (concat (map TAB_FIELD_KEYS TAB_ORDER)) \<and>
   (\<forall>t. tabHasError (buildErrors url timezone_known f) t \<longleftrightarrow>
      set (TAB_FIELD_KEYS t) \<inter> fst ` set (buildErrors url timezone_known f) \<noteq> {})"
proof -
  let ?e = "buildErrors url timezone_known f"
  have shown: "shown ?e"
    by (auto simp: buildErrors_def proxy_errors_def Let_def shown_def [of "[]"]
        intro!: shown_host_port shown_no_proxy shown_time shown_name shown_number shown_leading)
  have truthy: "str_truthy (map_of ?e k) \<longleftrightarrow> k \<in> fst ` set ?e" for k
  proof (cases "map_of ?e k")
    case None
    then have "k \<notin> fst ` set ?e"
      by (simp add: map_of_eq_None_iff)
    then show ?thesis
      unfolding None str_truthy_def by simp
  next
    case (Some m)
    then have "(k, m) \<in> set ?e"
      by (rule map_of_SomeD)
    with shown Some show ?thesis
      by (force simp: shown_def str_truthy_def)
  qed
  have "fst ` set ?e \<subseteq> set (concat (map TAB_FIELD_KEYS TAB_ORDER))"
    using shown by (auto simp: shown_def simp del: set_concat)
  moreover have "distinct (concat (map TAB_FIELD_KEYS TAB_ORDER))"
    by (simp add: TAB_ORDER_def)
  moreover have "tabHasError ?e t \<longleftrightarrow> set (TAB_FIELD_KEYS t) \<inter> fst ` set ?e \<noteq> {}" for t
    unfolding tabHasError_def list_ex_iff truthy by blast
  ultimately show ?thesis
    by blast
qed

section \<open>Saved and loaded\<close>

definition merged_settings :: "string sobj \<Rightarrow> SettingsForm \<Rightarrow> string sobj" where
  "merged_settings existing f =
     filter (\<lambda>(k, v). k \<noteq> ''NTP_ENABLED'') (obj_merge (\<lambda>_ _. False) existing (toConfigMapData f))"

lemma map_of_drop: "map_of (filter (\<lambda>(k, v). k \<noteq> a) m) k = (if k = a then None else map_of m k)"
  by (induction m) auto

lemma config_keys_distinct: "distinct (map fst (toConfigMapData f))"
  by (simp add: toConfigMapData_def)

lemma map_of_rev_distinct: "distinct (map fst m) \<Longrightarrow> map_of (rev m) = map_of m"
  by (simp add: map_of_inject_set rev_map [symmetric])

lemma merged_lookup:
  "config_text (merged_settings existing f) k =
     (if k = ''NTP_ENABLED'' then None
      else case map_of (toConfigMapData f) k of None \<Rightarrow> config_text existing k | Some v \<Rightarrow> Some (ConfigText v))"
proof -
  have "map_of (rev (toConfigMapData f)) = map_of (toConfigMapData f)"
    by (rule map_of_rev_distinct [OF config_keys_distinct])
  then show ?thesis
    by (cases "map_of (toConfigMapData f) k")
      (simp_all only: config_text_def merged_settings_def map_of_drop map_of_obj_merge map_add_def option.case option.map if_cancel
        split: if_split, simp_all)
qed

text \<open>Whole numbers up to \<open>10^21\<close> are written without an exponent.\<close>

definition plain_number :: "field_number \<Rightarrow> bool" where
  "plain_number n = (case n of Whole i \<Rightarrow> 0 \<le> i \<and> i < 10 ^ 21 | _ \<Rightarrow> False)"

lemma parse_plain: "plain_number n \<Longrightarrow> parseNum (Some (ConfigText (num_string n))) d = n"
proof -
  have "(10 :: int) ^ 21 \<le> 2 ^ 1024"
    by simp
  then show "plain_number n \<Longrightarrow> ?thesis"
    by (cases n) (auto simp: plain_number_def parseNum_string)
qed

lemma valid_whole: "settings_valid url timezone_known f \<Longrightarrow> list_all (whole_in 0) (settings_numbers f)"
  by (simp add: settings_valid_checks settings_numbers_def whole_weaken)

lemma valid_plain:
  assumes "settings_valid url timezone_known f" "list_all (\<lambda>n. \<forall>i. n = Whole i \<longrightarrow> i < 10 ^ 21) (settings_numbers f)"
  shows "list_all plain_number (settings_numbers f)"
proof -
  have "plain_number n" if "whole_in 0 n" "\<forall>i. n = Whole i \<longrightarrow> i < 10 ^ 21" for n
    using that by (cases n) (simp_all add: whole_in_def plain_number_def)
  then show ?thesis
    using valid_whole [OF assms(1)] assms(2) by (simp add: list_all_iff)
qed

lemma saved_lookup:
  assumes "(k, v) \<in> set (toConfigMapData f)" "k \<noteq> ''NTP_ENABLED''"
  shows "config_text (merged_settings existing f) k = Some (ConfigText v)"
  using assms map_of_is_SomeI [OF config_keys_distinct assms(1)] by (simp add: merged_lookup)

lemma loads_saved:
  assumes "list_all plain_number (settings_numbers f)" "sg_DEFAULT_MIGRATION_METHOD f \<in> {''hot'', ''cold''}"
    "\<And>k v. (k, v) \<in> set (toConfigMapData f) \<Longrightarrow> d k = Some (ConfigText v)"
  shows "fromConfigMapData d = f \<lparr> sg_proxy := sg_proxy DEFAULTS \<rparr>"
proof -
  have "\<forall>(k, v) \<in> set (toConfigMapData f). d k = Some (ConfigText v)"
    using assms(3) by blast
  then have found: "list_all (\<lambda>(k, v). d k = Some (ConfigText v)) (toConfigMapData f)"
    by (simp add: list_all_iff)
  show ?thesis
    using found [unfolded toConfigMapData_def list.pred_inject prod.case] assms(1) assms(2)
    by (simp only: fromConfigMapData_def) (auto simp: settings_numbers_def parse_plain parseText_def)
qed

text \<open>C25: what the page writes to its config map it reads back: after a save of a valid form whose numbers are below 10 to the
  21st (larger ones are written with an exponent), the form that is loaded is the saved one except for the proxy, which is not
  kept in the config map and comes back as it is by default; of the entries that the page does not write, that of a former
  release, NTP_ENABLED, is removed and every other one is kept.\<close>

theorem save_load_roundtrip:
  assumes "settings_valid url timezone_known f" "list_all (\<lambda>n. \<forall>i. n = Whole i \<longrightarrow> i < 10 ^ 21) (settings_numbers f)"
  shows "fromConfigMapData (config_text (merged_settings existing f)) = f \<lparr> sg_proxy := sg_proxy DEFAULTS \<rparr> \<and>
    config_text (merged_settings existing f) |` (- fst ` set (toConfigMapData f)) =
      ((config_text existing)(''NTP_ENABLED'' := None)) |` (- fst ` set (toConfigMapData f))"
proof
  have "''NTP_ENABLED'' \<notin> fst ` set (toConfigMapData f)"
    by (simp add: toConfigMapData_def)
  then have "k \<noteq> ''NTP_ENABLED''" if "(k, v) \<in> set (toConfigMapData f)" for k v
    using that by force
  then show "fromConfigMapData (config_text (merged_settings existing f)) = f \<lparr> sg_proxy := sg_proxy DEFAULTS \<rparr>"
    using assms(1) by (intro loads_saved valid_plain [OF assms] saved_lookup) (simp_all add: settings_valid_checks)
  have "map_of (toConfigMapData f) k = None" if "k \<notin> fst ` set (toConfigMapData f)" for k
    using that by (simp add: map_of_eq_None_iff)
  then show "config_text (merged_settings existing f) |` (- fst ` set (toConfigMapData f)) =
      ((config_text existing)(''NTP_ENABLED'' := None)) |` (- fst ` set (toConfigMapData f))"
    by (simp add: restrict_map_def fun_eq_iff merged_lookup)
qed

text \<open>A form with a change, saved over a config map with a foreign entry and a former one.\<close>

theorem save_load_roundtrip_witness:
  "fromConfigMapData (config_text (merged_settings [(''NTP_ENABLED'', ''true''), (''OTHER'', ''x''), (''TIMEZONE'', ''UTC'')]
     (DEFAULTS \<lparr> sg_HTTP_TIMEOUT_SECONDS := Whole 45 \<rparr>))) = DEFAULTS \<lparr> sg_HTTP_TIMEOUT_SECONDS := Whole 45 \<rparr>"
proof -
  let ?f = "DEFAULTS \<lparr> sg_HTTP_TIMEOUT_SECONDS := Whole 45 \<rparr>"
  have "buildErrors (\<lambda>_. None) (\<lambda>_. False) ?f = []"
    by code_simp
  then have "settings_valid (\<lambda>_. None) (\<lambda>_. False) ?f"
    using no_errors_valid by blast
  moreover have "list_all (\<lambda>n. \<forall>i. n = Whole i \<longrightarrow> i < 10 ^ 21) (settings_numbers ?f)"
    by (simp add: settings_numbers_def DEFAULTS_def)
  ultimately show ?thesis
    using save_load_roundtrip [of "\<lambda>_. None" "\<lambda>_. False" ?f] by simp
qed

text \<open>a config map without data loads the defaults, but for the migration method: without an entry the page reads \<open>hot\<close>, where
  its defaults say \<open>cold\<close>, so a save of the untouched page writes \<open>hot\<close>.\<close>

theorem empty_config_loads:
  "fromConfigMapData (config_text []) = DEFAULTS \<lparr> sg_DEFAULT_MIGRATION_METHOD := ''hot'' \<rparr> \<and>
   sg_DEFAULT_MIGRATION_METHOD DEFAULTS = ''cold'' \<and>
   map_of (merged_settings [] (fromConfigMapData (config_text []))) ''DEFAULT_MIGRATION_METHOD'' = Some ''hot''"
proof -
  have form: "fromConfigMapData (config_text []) = DEFAULTS \<lparr> sg_DEFAULT_MIGRATION_METHOD := ''hot'' \<rparr>"
    by (simp add: fromConfigMapData_def config_text_def parseNum_def parseBool_def parseText_def DEFAULTS_def)
  have "map_of (merged_settings [] (DEFAULTS \<lparr> sg_DEFAULT_MIGRATION_METHOD := ''hot'' \<rparr>)) ''DEFAULT_MIGRATION_METHOD'' = Some ''hot''"
    by code_simp
  with form show ?thesis
    by (simp add: DEFAULTS_def)
qed

section \<open>The proxy is read back\<close>

text \<open>Hosts that the parser of URLs leaves as they are but for the case of their letters: dotted quads, and names whose last label
  begins with a letter and none of whose labels is encoded.\<close>

definition plain_host :: "string \<Rightarrow> bool" where
  "plain_host h =
     (ipv4Regex h \<or>
      fqdnRegex h \<and> (let ls = split_on (CHR ''.'') h
        in \<not> digit_char (hd (last ls)) \<and> list_all (\<lambda>w. \<not> starts_with (js_lower w) ''xn--'') ls))"

definition default_port :: "proxy_scheme \<Rightarrow> int" where
  "default_port c = (if c = Https then 443 else 80)"

text \<open>What the standard says of the parser: scheme, host in lower-case letters, and the port unless it is that of the scheme.\<close>

definition url_law :: "url_parser \<Rightarrow> bool" where
  "url_law url =
     (\<forall>c h n. plain_host h \<and> 1 \<le> n \<and> n \<le> 65535 \<longrightarrow>
        url (scheme_str c @ ''://'' @ h @ '':'' @ int_str n) =
          Some \<lparr> ur_protocol = scheme_str c @ '':'', ur_hostname = js_lower h,
            ur_port = (if n = default_port c then [] else int_str n) \<rparr>)"

text \<open>A line of the proxy is empty or has a host of this kind and a port in its shortest form.\<close>

definition plain_line :: "string \<Rightarrow> string \<Rightarrow> bool" where
  "plain_line h p =
     (js_trim h = [] \<and> js_trim p = [] \<or> plain_host (js_trim h) \<and> (\<exists>n. 1 \<le> n \<and> n \<le> 65535 \<and> js_trim p = int_str n))"

definition line_read :: "proxy_scheme \<Rightarrow> string \<Rightarrow> string \<Rightarrow> proxy_scheme \<times> string \<times> string" where
  "line_read c h p = (if js_trim h = [] then (Http, [], []) else (c, js_lower (js_trim h), js_trim p))"

lemma int_str_default: "int_str n = (if c = Https then ''443'' else ''80'')" if "n = default_port c"
  using that by (cases c) (simp_all add: default_port_def, code_simp+)

lemma int_str_nonempty [simp]: "int_str n \<noteq> []" "[] \<noteq> int_str n"
  by (simp_all add: int_str_def eq_commute [of "[]"])

lemma plain_lineI: "plain_host (js_trim h) \<Longrightarrow> js_trim p = int_str n \<Longrightarrow> 1 \<le> n \<Longrightarrow> n \<le> 65535 \<Longrightarrow> plain_line h p"
  by (auto simp: plain_line_def)

lemma plain_line_host: "plain_line h p \<Longrightarrow> js_trim h = [] \<longleftrightarrow> js_trim p = []"
proof -
  have "h \<noteq> []" if "plain_host h" for h
    using that valid_host_chars(1) [of h] by (auto simp: plain_host_def isValidHost_def)
  then show "plain_line h p \<Longrightarrow> js_trim h = [] \<longleftrightarrow> js_trim p = []"
    by (auto simp: plain_line_def)
qed

lemma parse_proxy_line:
  assumes "url_law url" "plain_line h p"
  shows "parseProxyParts url (Some (proxy_url True c h p)) = line_read c h p"
proof (cases "js_trim h = []")
  case True
  then show ?thesis
    by (simp add: proxy_url_def parseProxyParts_def line_read_def str_truthy_def)
next
  case False
  then obtain n where n: "plain_host (js_trim h)" "1 \<le> n" "n \<le> 65535" "js_trim p = int_str n"
    using assms(2) by (auto simp: plain_line_def)
  then have "url (scheme_str c @ ''://'' @ js_trim h @ '':'' @ int_str n) =
      Some \<lparr> ur_protocol = scheme_str c @ '':'', ur_hostname = js_lower (js_trim h),
        ur_port = (if n = default_port c then [] else int_str n) \<rparr>"
    using assms(1) by (simp add: url_law_def)
  moreover have "proxy_url True c h p = scheme_str c @ ''://'' @ js_trim h @ '':'' @ int_str n"
    using False n(4) by (simp add: proxy_url_def)
  ultimately show ?thesis
    using False n(4) int_str_default [of n c]
    by (cases c) (auto simp: parseProxyParts_def line_read_def str_truthy_def Let_def)
qed


text \<open>A parser for the addresses the page writes.\<close>

definition sample_url :: url_parser where
  "sample_url v =
     (let c = (if starts_with v ''https://'' then Https else Http);
          r = drop (length (scheme_str c) + 3) v;
          h = takeWhile (\<lambda>x. x \<noteq> CHR '':'') r; p = drop (Suc (length h)) r
      in Some \<lparr> ur_protocol = scheme_str c @ '':'', ur_hostname = js_lower h,
           ur_port = (if p = int_str (default_port c) then [] else p) \<rparr>)"

lemma sample_url_law: "url_law sample_url"
proof -
  have "sample_url (scheme_str c @ ''://'' @ h @ '':'' @ int_str n) =
      Some \<lparr> ur_protocol = scheme_str c @ '':'', ur_hostname = js_lower h,
        ur_port = (if n = default_port c then [] else int_str n) \<rparr>"
    if "plain_host h" "1 \<le> n" for c h n
  proof -
    have "isValidHost h"
      using that(1) by (auto simp: plain_host_def isValidHost_def)
    from valid_host_chars(2) [OF this] have "\<forall>x \<in> set h. x \<noteq> CHR '':''"
      by (auto simp: list_all_iff)
    then have host: "takeWhile (\<lambda>x. x \<noteq> CHR '':'') (h @ CHR '':'' # p) = h" for p
      by (simp add: takeWhile_append2)
    let ?v = "scheme_str c @ ''://'' @ h @ '':'' @ int_str n"
    have read: "(if starts_with ?v ''https://'' then Https else Http) = c"
      "drop (length (scheme_str c) + 3) ?v = h @ CHR '':'' # int_str n"
      by (cases c; simp add: starts_with_def)+
    have "int_str n = int_str (default_port c) \<longleftrightarrow> n = default_port c"
      using that(2) by (cases c) (auto simp: int_str_def default_port_def dest!: arg_cong [where f = digits_val])
    then show ?thesis
      unfolding sample_url_def Let_def read host by simp
  qed
  then show ?thesis
    by (simp add: url_law_def)
qed


end
