(* ===== verification/Settings_Save.thy ===== *)
theory Settings_Save
  imports Settings_Page
begin

text \<open>
  Loading and saving the settings, the controller of \<open>ui/src/features/globalSettings/components/GlobalSettingsPage.tsx\<close>: the
  requests in their order and the state of the page after them.
\<close>

section \<open>Loading and saving\<close>

text \<open>The notices that are left when a handler has returned. The code has one more, for a failure between the config map and
  the time settings, where every failure is caught before.\<close>

datatype settings_notice = FixErrors | SavedProxyFailed | TimeApplied | SettingsSaved | NothingApplied | TimeNotApplied

record settings_page =
  gp_form :: SettingsForm
  gp_initial :: SettingsForm
  gp_errors :: field_errors
  gp_loading :: bool
  gp_saving :: bool
  gp_notice :: "settings_notice option"
  gp_proxyUpdateSuccess :: bool

text \<open>The answers of the server; \<open>None\<close> and \<open>False\<close> are requests that fail. The environment may be there without data.\<close>

record settings_api =
  sa_getSettings :: "string sobj option"
  sa_putSettings :: "string sobj \<Rightarrow> bool"
  sa_injectEnv :: "env_data \<Rightarrow> bool"
  sa_applyTime :: bool
  sa_getEnv :: "env_data option option"

datatype settings_request = GetSettings | PutSettings "string sobj" | InjectEnv env_data | ApplyTime | GetEnv

definition fetchSettings :: "url_parser \<Rightarrow> (string \<Rightarrow> bool) \<Rightarrow> settings_api \<Rightarrow> settings_page \<Rightarrow> settings_page" where
  "fetchSettings url timezone_known api s =
     (case sa_getSettings api of
        None \<Rightarrow> s \<lparr> gp_loading := False \<rparr>
      | Some d \<Rightarrow>
          (let base = fromConfigMapData (config_text d);
               tz = js_trim (sg_TIMEZONE base);
               normalizedBase = (if tz = [] \<or> timezone_known tz then base else base \<lparr> sg_TIMEZONE := [] \<rparr>);
               merged = applyProxyState normalizedBase (deriveProxyState url base (Option.bind (sa_getEnv api) id))
           in s \<lparr> gp_form := merged, gp_initial := merged, gp_errors := buildErrors url timezone_known merged,
                  gp_loading := False \<rparr>))"

definition onResetDefaults :: "bool \<Rightarrow> settings_page \<Rightarrow> settings_page" where
  "onResetDefaults isTimeSettingsDisabled s =
     s \<lparr> gp_form := (if isTimeSettingsDisabled
                     then DEFAULTS \<lparr> sg_TIMEZONE := sg_TIMEZONE (gp_form s), sg_NTP_SERVERS := sg_NTP_SERVERS (gp_form s) \<rparr>
                     else DEFAULTS) \<rparr>"

definition proxyChanged :: "settings_page \<Rightarrow> bool" where
  "proxyChanged s = (sg_proxy (gp_form s) \<noteq> sg_proxy (gp_initial s))"

definition timeSettingsChanged :: "settings_page \<Rightarrow> bool" where
  "timeSettingsChanged s =
     (sg_TIMEZONE (gp_form s) \<noteq> sg_TIMEZONE (gp_initial s) \<or> sg_NTP_SERVERS (gp_form s) \<noteq> sg_NTP_SERVERS (gp_initial s))"

text \<open>The form after a save: with changed proxy settings they are read back.\<close>

definition next_form :: "url_parser \<Rightarrow> settings_api \<Rightarrow> settings_page \<Rightarrow> SettingsForm" where
  "next_form url api s =
     (if proxyChanged s
      then (case sa_getEnv api of
              None \<Rightarrow> gp_form s
            | Some env \<Rightarrow> applyProxyState (gp_form s) (deriveProxyState url (gp_form s) env))
      else gp_form s)"

definition saved_page :: "url_parser \<Rightarrow> (string \<Rightarrow> bool) \<Rightarrow> settings_api \<Rightarrow> settings_page \<Rightarrow> settings_page" where
  "saved_page url timezone_known api s =
     (let f = next_form url api s; envFailed = (\<not> sa_injectEnv api (buildEnvPayload (gp_form s)))
      in s \<lparr> gp_form := f, gp_initial := f, gp_errors := buildErrors url timezone_known f, gp_saving := False,
             gp_notice := Some (if envFailed then SavedProxyFailed
                                else if timeSettingsChanged s then TimeApplied else SettingsSaved),
             gp_proxyUpdateSuccess := (\<not> envFailed \<and> proxyChanged s) \<rparr>)"

text \<open>A save: the requests in their order, and the page when the handler returns. A failure leaves the form as it is.\<close>

definition failed_page :: "settings_notice \<Rightarrow> settings_page \<Rightarrow> settings_page" where
  "failed_page n s = s \<lparr> gp_saving := False, gp_notice := Some n, gp_proxyUpdateSuccess := False \<rparr>"

definition onSave ::
  "url_parser \<Rightarrow> (string \<Rightarrow> bool) \<Rightarrow> settings_api \<Rightarrow> settings_page \<Rightarrow> settings_page \<times> settings_request list" where
  "onSave url timezone_known api s0 =
     (let errors = buildErrors url timezone_known (gp_form s0); s = s0 \<lparr> gp_errors := errors, gp_proxyUpdateSuccess := False \<rparr>
      in if errors \<noteq> [] then (s \<lparr> gp_notice := Some FixErrors \<rparr>, [])
         else case sa_getSettings api of
           None \<Rightarrow> (failed_page NothingApplied s, [GetSettings])
         | Some existing \<Rightarrow>
             (let d = merged_settings existing (gp_form s); env = buildEnvPayload (gp_form s)
              in if \<not> sa_putSettings api d then (failed_page NothingApplied s, [GetSettings, PutSettings d])
                 else if timeSettingsChanged s \<and> \<not> sa_applyTime api
                 then (failed_page TimeNotApplied s, [GetSettings, PutSettings d, InjectEnv env, ApplyTime])
                 else (saved_page url timezone_known api s,
                       [GetSettings, PutSettings d, InjectEnv env] @ (if timeSettingsChanged s then [ApplyTime] else []) @
                       (if proxyChanged s then [GetEnv] else []))))"

section \<open>What a save leaves\<close>

definition start_page :: settings_page where
  "start_page =
     \<lparr> gp_form = DEFAULTS, gp_initial = DEFAULTS, gp_errors = [], gp_loading = True, gp_saving = False, gp_notice = None,
       gp_proxyUpdateSuccess = False \<rparr>"

lemmas onSave_defs = onSave_def Let_def failed_page_def saved_page_def

text \<open>C28: the notice \<open>No changes were applied\<close> is true: when a save ends with it no request of the save has changed anything
  (the only one that could is the put of the config map, and it failed), and the form and what it is compared with are as before.\<close>

theorem nothing_applied_is_true:
  assumes "gp_notice (fst (onSave url timezone_known api s)) = Some NothingApplied"
  shows "list_all (\<lambda>r. case r of GetSettings \<Rightarrow> True | PutSettings d \<Rightarrow> \<not> sa_putSettings api d | _ \<Rightarrow> False)
      (snd (onSave url timezone_known api s)) \<and>
    gp_form (fst (onSave url timezone_known api s)) = gp_form s \<and>
    gp_initial (fst (onSave url timezone_known api s)) = gp_initial s"
  using assms by (auto simp: onSave_defs split: option.splits if_splits)

definition failing_api :: settings_api where
  "failing_api = \<lparr> sa_getSettings = Some [], sa_putSettings = (\<lambda>_. False), sa_injectEnv = (\<lambda>_. True), sa_applyTime = True,
     sa_getEnv = Some None \<rparr>"

theorem nothing_applied_is_true_witness:
  "length (snd (onSave (\<lambda>_. None) (\<lambda>_. True) failing_api start_page)) = 2 \<and>
   gp_initial (fst (onSave (\<lambda>_. None) (\<lambda>_. True) failing_api start_page)) = DEFAULTS"
proof -
  let ?r = "onSave (\<lambda>_. None) (\<lambda>_. True) failing_api start_page"
  have "gp_notice (fst ?r) = Some NothingApplied" "length (snd ?r) = 2"
    by code_simp+
  then show ?thesis
    using nothing_applied_is_true [of "\<lambda>_. None" "\<lambda>_. True" failing_api start_page] by (simp add: start_page_def)
qed

text \<open>after a failure to apply the time settings the next save applies them again, whatever else it does: the form still differs
  from what it is compared with.\<close>

theorem failed_time_applied_again:
  assumes "gp_notice (fst (onSave url timezone_known api s)) = Some TimeNotApplied"
    "sa_getSettings api' = Some existing" "\<And>d. sa_putSettings api' d"
  shows "ApplyTime \<in> set (snd (onSave url timezone_known api' (fst (onSave url timezone_known api s))))"
proof -
  let ?s' = "fst (onSave url timezone_known api s)"
  have kept: "gp_form ?s' = gp_form s" "gp_initial ?s' = gp_initial s" "timeSettingsChanged s"
    "buildErrors url timezone_known (gp_form s) = []"
    using assms(1) by (auto simp: onSave_defs timeSettingsChanged_def split: option.splits if_splits)
  then have "timeSettingsChanged (?s' \<lparr> gp_errors := [], gp_proxyUpdateSuccess := False \<rparr>)"
    by (simp add: timeSettingsChanged_def)
  then show ?thesis
    using kept assms(2,3) unfolding onSave_def [of url timezone_known api' ?s'] Let_def by simp
qed

text \<open>C29: a refused update of the proxy, in a save whose other requests are granted, loses what the user has entered. The environment is
  as it was when the page read its proxy from it. When the environment is read again, the form shows the old proxy; only
  the exceptions stay as they were entered, when the environment has none. When it cannot be read, the form keeps what was
  entered. In either case nothing counts as changed any more, so that the next save does not read the environment, and the
  warning asks to try again.\<close>

theorem failed_proxy_edits_lost:
  assumes "buildErrors url timezone_known (gp_form s) = []" "sa_getSettings api = Some existing" "\<And>d. sa_putSettings api d"
    "timeSettingsChanged s \<Longrightarrow> sa_applyTime api" "\<not> sa_injectEnv api (buildEnvPayload (gp_form s))" "proxyChanged s"
    "sg_proxy (gp_initial s) = deriveProxyState url base env"
  shows "let s' = fst (onSave url timezone_known api s); old = sg_proxy (gp_initial s); entered = sg_proxy (gp_form s)
    in gp_notice s' = Some SavedProxyFailed \<and> \<not> proxyChanged s' \<and> \<not> timeSettingsChanged s' \<and>
       (sa_getEnv api = Some env \<longrightarrow>
          sg_proxy (gp_form s') =
            (if Option.bind env en_no_proxy = None then old \<lparr> px_no_proxy := px_no_proxy entered \<rparr> else old)) \<and>
       (sa_getEnv api = None \<longrightarrow> gp_form s' = gp_form s)"
proof -
  have again: "deriveProxyState url f env = (if Option.bind env en_no_proxy = None
      then sg_proxy (gp_initial s) \<lparr> px_no_proxy := px_no_proxy (sg_proxy f) \<rparr> else sg_proxy (gp_initial s))" for f
    unfolding assms(7) by (auto simp: deriveProxyState_def Let_def split: prod.split)
  have "proxyChanged (s \<lparr> gp_errors := e, gp_proxyUpdateSuccess := b \<rparr>) = proxyChanged s"
    "timeSettingsChanged (s \<lparr> gp_errors := e, gp_proxyUpdateSuccess := b \<rparr>) = timeSettingsChanged s" for e b
    by (simp_all add: proxyChanged_def timeSettingsChanged_def)
  then show ?thesis
    using assms(1-6)
    by (auto simp: onSave_defs next_form_def applyProxyState_def proxyChanged_def timeSettingsChanged_def again split: option.splits)
qed

definition working_api :: settings_api where
  "working_api = \<lparr> sa_getSettings = Some [], sa_putSettings = (\<lambda>_. True), sa_injectEnv = (\<lambda>_. True), sa_applyTime = True,
     sa_getEnv = Some None \<rparr>"

theorem failed_time_applied_again_witness:
  "ApplyTime \<in> set (snd (onSave (\<lambda>_. None) (\<lambda>_. True) working_api
     (fst (onSave (\<lambda>_. None) (\<lambda>_. True) (working_api \<lparr> sa_applyTime := False \<rparr>)
       (start_page \<lparr> gp_form := DEFAULTS \<lparr> sg_NTP_SERVERS := ''ntp.example.com'' \<rparr> \<rparr>)))))"
proof (rule failed_time_applied_again)
  show "gp_notice (fst (onSave (\<lambda>_. None) (\<lambda>_. True) (working_api \<lparr> sa_applyTime := False \<rparr>)
       (start_page \<lparr> gp_form := DEFAULTS \<lparr> sg_NTP_SERVERS := ''ntp.example.com'' \<rparr> \<rparr>))) = Some TimeNotApplied"
    by code_simp
qed (simp_all add: working_api_def)

text \<open>A proxy entered on a page without one.\<close>

definition proxied :: SettingsForm where
  "proxied = DEFAULTS \<lparr> sg_proxy := sg_proxy DEFAULTS \<lparr> px_enabled := True, px_http_host := ''proxy.example.com'', px_http_port := ''3128'' \<rparr> \<rparr>"

theorem failed_proxy_edits_lost_witness:
  "let s' = fst (onSave sample_url (\<lambda>_. True) (working_api \<lparr> sa_injectEnv := (\<lambda>_. False) \<rparr>) (start_page \<lparr> gp_form := proxied \<rparr>))
   in gp_notice s' = Some SavedProxyFailed \<and> sg_proxy (gp_form s') = sg_proxy DEFAULTS \<and> \<not> proxyChanged s'"
proof -
  let ?s = "start_page \<lparr> gp_form := proxied \<rparr>"
  have ok: "buildErrors sample_url (\<lambda>_. True) (gp_form ?s) = []" "sg_proxy DEFAULTS = deriveProxyState sample_url DEFAULTS None"
    by code_simp+
  have changed: "proxyChanged ?s"
    by code_simp
  show ?thesis
    using failed_proxy_edits_lost [OF ok(1), of "working_api \<lparr> sa_injectEnv := (\<lambda>_. False) \<rparr>" "[]" DEFAULTS None] changed ok(2)
    by (simp add: working_api_def timeSettingsChanged_def start_page_def proxied_def Let_def)
qed

text \<open>after a failed load the page shows its defaults, and a save writes them over what is stored, with an empty proxy.\<close>

theorem failed_load_overwrites:
  assumes "sa_getSettings api = None" "sa_getSettings api' = Some existing"
  shows "let s = fetchSettings url timezone_known api start_page; rs = snd (onSave url timezone_known api' s)
    in gp_form s = DEFAULTS \<and> gp_errors s = [] \<and> gp_loading s = False \<and>
       PutSettings (merged_settings existing DEFAULTS) \<in> set rs \<and>
       (sa_putSettings api' (merged_settings existing DEFAULTS) \<longrightarrow> InjectEnv (buildEnvPayload DEFAULTS) \<in> set rs)"
proof -
  have "buildErrors url timezone_known DEFAULTS = []"
    by code_simp
  then show ?thesis
    using assms by (simp add: fetchSettings_def start_page_def onSave_defs)
qed

theorem failed_load_overwrites_witness:
  "InjectEnv (buildEnvPayload DEFAULTS) \<in> set (snd (onSave sample_url (\<lambda>_. True)
     (working_api \<lparr> sa_getSettings := Some [(''HTTP_TIMEOUT_SECONDS'', ''90'')] \<rparr>)
     (fetchSettings sample_url (\<lambda>_. True) (working_api \<lparr> sa_getSettings := None \<rparr>) start_page)))"
  using failed_load_overwrites [of "working_api \<lparr> sa_getSettings := None \<rparr>"
      "working_api \<lparr> sa_getSettings := Some [(''HTTP_TIMEOUT_SECONDS'', ''90'')] \<rparr>" "[(''HTTP_TIMEOUT_SECONDS'', ''90'')]"
      sample_url "\<lambda>_. True"]
  by (simp add: working_api_def Let_def)

section \<open>The page while it is used\<close>

text \<open>Loading, a change of any field, going back to the defaults, saving.\<close>

inductive settings_step :: "url_parser \<Rightarrow> (string \<Rightarrow> bool) \<Rightarrow> settings_page \<Rightarrow> settings_page \<Rightarrow> bool"
  for url timezone_known where
  load: "settings_step url timezone_known s (fetchSettings url timezone_known api s)"
| change: "settings_step url timezone_known s (s \<lparr> gp_form := f, gp_errors := buildErrors url timezone_known f \<rparr>)"
| defaults: "settings_step url timezone_known s (onResetDefaults b s)"
| save: "settings_step url timezone_known s (fst (onSave url timezone_known api s))"

definition typed_settings :: "SettingsForm \<Rightarrow> bool" where
  "typed_settings f =
     (list_all (\<lambda>n. n \<noteq> EmptyNumber) (settings_numbers f) \<and> sg_DEFAULT_MIGRATION_METHOD f \<in> {''hot'', ''cold''})"

lemma decimal_filled: "decimal m k \<noteq> EmptyNumber"
  by (induction m k rule: decimal.induct) auto

lemma radix_filled: "radix_number b s \<noteq> Some EmptyNumber"
  by (simp add: radix_number_def)

lemma decimal_number_filled: "decimal_number s \<noteq> Some EmptyNumber"
  by (simp add: decimal_number_def scaled_def decimal_filled Let_def split: prod.split)

lemma finite_filled:
  "n \<noteq> Some EmptyNumber \<Longrightarrow> (case n of None \<Rightarrow> None | Some x \<Rightarrow> if too_large x then None else Some x) \<noteq> Some EmptyNumber"
  by (cases n) simp_all

lemma js_Number_filled: "js_Number s \<noteq> Some EmptyNumber"
  unfolding js_Number_def Let_def
  by (rule finite_filled) (simp add: radix_filled decimal_number_filled split: list.split)

lemma parseNum_filled: "d \<noteq> EmptyNumber \<Longrightarrow> parseNum (config_text m k) d \<noteq> EmptyNumber"
  using js_Number_filled by (auto simp: parseNum_def config_text_def split: option.splits)

lemma typed_default: "typed_settings DEFAULTS"
  by (simp add: typed_settings_def settings_numbers_def DEFAULTS_def)

lemma typed_loaded: "typed_settings (fromConfigMapData (config_text m))"
  by (simp add: typed_settings_def settings_numbers_def fromConfigMapData_def parseNum_filled DEFAULTS_def)

lemma typed_proxy [simp]: "typed_settings (f \<lparr> sg_proxy := p \<rparr>) = typed_settings f"
  by (simp add: typed_settings_def settings_numbers_def)

lemma typed_timezone [simp]: "typed_settings (f \<lparr> sg_TIMEZONE := p \<rparr>) = typed_settings f"
  by (simp add: typed_settings_def settings_numbers_def)

lemma typed_checked: "buildErrors url timezone_known f = [] \<Longrightarrow> typed_settings f"
  using no_errors_typed [of url timezone_known f] by (auto simp: typed_settings_def list_all_iff whole_in_def)

lemma typed_saved:
  "typed_settings (gp_initial s) \<Longrightarrow> typed_settings (gp_initial (fst (onSave url timezone_known api s)))"
  by (auto simp: onSave_defs next_form_def applyProxyState_def dest: typed_checked split: option.splits)

text \<open>C27: whatever the user enters and whichever requests fail, the settings that the page takes for stored are typed: each of their
  numbers is a number and the migration method one of the two.\<close>

theorem stored_settings_typed:
  assumes "(settings_step url timezone_known)\<^sup>*\<^sup>* start_page s"
  shows "typed_settings (gp_initial s)"
  using assms
proof (induction rule: rtranclp_induct)
  case base
  then show ?case
    by (simp add: start_page_def typed_default)
next
  case (step s t)
  from step(2,3) show ?case
    by (induction rule: settings_step.induct)
      (auto simp: fetchSettings_def onResetDefaults_def applyProxyState_def Let_def typed_loaded typed_saved split: option.splits)
qed

theorem stored_settings_typed_witness:
  "typed_settings (gp_initial (fst (onSave sample_url (\<lambda>_. True) working_api
     (start_page \<lparr> gp_form := proxied, gp_errors := buildErrors sample_url (\<lambda>_. True) proxied \<rparr>))))"
proof (rule stored_settings_typed [of sample_url "\<lambda>_. True"])
  show "(settings_step sample_url (\<lambda>_. True))\<^sup>*\<^sup>* start_page (fst (onSave sample_url (\<lambda>_. True) working_api
     (start_page \<lparr> gp_form := proxied, gp_errors := buildErrors sample_url (\<lambda>_. True) proxied \<rparr>)))"
    by (rule converse_rtranclp_into_rtranclp, rule settings_step.change, rule r_into_rtranclp, rule settings_step.save)
qed

end
