(* ===== verification/Host_Entries.thy ===== *)
theory Host_Entries
  imports Settings_Values
begin

text \<open>
  The host entries of the agents, \<open>ui/src/features/globalSettings/components/HostEntriesTab.tsx\<close>: a table of addresses and host
  names with one row at a time being added or edited. The value of the tab is the text that \<open>JSON.stringify\<close> makes of the
  entries; the model has the entries themselves.
\<close>

section \<open>Entries and their checks\<close>

record host_entry =
  he_ip :: string
  he_hostnames :: "string list"

record row_state =
  rw_ip :: string
  rw_hostnamesRaw :: string

definition EMPTY_ROW :: row_state where
  "EMPTY_ROW = \<lparr> rw_ip = [], rw_hostnamesRaw = [] \<rparr>"

definition hex_or_colon :: "char \<Rightarrow> bool" where
  "hex_or_colon c = (c \<in> set ''0123456789abcdefABCDEF:'')"

definition isValidIP :: "string \<Rightarrow> bool" where
  "isValidIP ip = (quad_shape (js_trim ip) \<or> js_trim ip \<noteq> [] \<and> list_all hex_or_colon (js_trim ip))"

definition isValidHostname :: "string \<Rightarrow> bool" where
  "isValidHostname h = (h \<noteq> [] \<and> alnum_char (hd h) \<and> alnum_char (last h) \<and> list_all host_char h)"

definition row_hostnames :: "row_state \<Rightarrow> string list" where
  "row_hostnames row = filter (\<lambda>h. h \<noteq> []) (map js_trim (split_on (CHR '','') (rw_hostnamesRaw row)))"

datatype row_error = IpRequired | InvalidIp | NoHostname | InvalidHostname string | DuplicateIp string

definition has_duplicate :: "string \<Rightarrow> host_entry list \<Rightarrow> nat option \<Rightarrow> bool" where
  "has_duplicate ip entries editingIdx = list_ex (\<lambda>i. he_ip (entries ! i) = ip \<and> Some i \<noteq> editingIdx) [0..<length entries]"

definition validateRow :: "row_state \<Rightarrow> host_entry list \<Rightarrow> nat option \<Rightarrow> row_error option" where
  "validateRow row entries editingIdx =
     (let ip = js_trim (rw_ip row); hostnames = row_hostnames row
      in if ip = [] then Some IpRequired
         else if \<not> isValidIP ip then Some InvalidIp
         else if hostnames = [] then Some NoHostname
         else case find (\<lambda>h. \<not> isValidHostname h) hostnames of
                Some bad \<Rightarrow> Some (InvalidHostname bad)
              | None \<Rightarrow> if has_duplicate ip entries editingIdx then Some (DuplicateIp ip) else None)"

section \<open>The tab\<close>

record hosts_tab =
  ht_entries :: "host_entry list"
  ht_adding :: bool
  ht_addRow :: row_state
  ht_addError :: "row_error option"
  ht_editingIdx :: "nat option"
  ht_editRow :: row_state
  ht_editError :: "row_error option"

definition handleAddStart :: "hosts_tab \<Rightarrow> hosts_tab" where
  "handleAddStart s = s \<lparr> ht_adding := True, ht_addRow := EMPTY_ROW, ht_addError := None \<rparr>"

definition row_entry :: "row_state \<Rightarrow> host_entry" where
  "row_entry row = \<lparr> he_ip = js_trim (rw_ip row), he_hostnames = row_hostnames row \<rparr>"

definition handleAddConfirm :: "hosts_tab \<Rightarrow> hosts_tab" where
  "handleAddConfirm s =
     (case validateRow (ht_addRow s) (ht_entries s) None of
        Some err \<Rightarrow> s \<lparr> ht_addError := Some err \<rparr>
      | None \<Rightarrow> s \<lparr> ht_entries := ht_entries s @ [row_entry (ht_addRow s)], ht_adding := False, ht_addRow := EMPTY_ROW,
                   ht_addError := None \<rparr>)"

definition handleAddCancel :: "hosts_tab \<Rightarrow> hosts_tab" where
  "handleAddCancel s = s \<lparr> ht_adding := False, ht_addRow := EMPTY_ROW, ht_addError := None \<rparr>"

definition handleEditStart :: "nat \<Rightarrow> hosts_tab \<Rightarrow> hosts_tab" where
  "handleEditStart idx s =
     s \<lparr> ht_editingIdx := Some idx,
       ht_editRow := \<lparr> rw_ip = he_ip (ht_entries s ! idx), rw_hostnamesRaw = js_join '', '' (he_hostnames (ht_entries s ! idx)) \<rparr>,
       ht_editError := None \<rparr>"

definition handleEditConfirm :: "hosts_tab \<Rightarrow> hosts_tab" where
  "handleEditConfirm s =
     (case ht_editingIdx s of
        None \<Rightarrow> s
      | Some idx \<Rightarrow>
          (case validateRow (ht_editRow s) (ht_entries s) (Some idx) of
             Some err \<Rightarrow> s \<lparr> ht_editError := Some err \<rparr>
           | None \<Rightarrow> s \<lparr> ht_entries := (ht_entries s)[idx := row_entry (ht_editRow s)], ht_editingIdx := None,
                        ht_editRow := EMPTY_ROW, ht_editError := None \<rparr>))"

definition handleEditCancel :: "hosts_tab \<Rightarrow> hosts_tab" where
  "handleEditCancel s = s \<lparr> ht_editingIdx := None, ht_editRow := EMPTY_ROW, ht_editError := None \<rparr>"

definition handleDelete :: "nat \<Rightarrow> hosts_tab \<Rightarrow> hosts_tab" where
  "handleDelete idx s = s \<lparr> ht_entries := take idx (ht_entries s) @ drop (Suc idx) (ht_entries s) \<rparr>"

text \<open>What can be clicked or typed: the buttons and fields as they are rendered. A value from outside replaces the entries.\<close>

datatype hosts_click =
    AddStart | AddType row_state | AddConfirm | AddCancel
  | EditStart nat | EditType row_state | EditConfirm | EditCancel | Delete nat

definition idle :: "bool \<Rightarrow> hosts_tab \<Rightarrow> bool" where
  "idle disabled s = (\<not> disabled \<and> \<not> ht_adding s \<and> ht_editingIdx s = None)"

definition edit_row_shown :: "hosts_tab \<Rightarrow> bool" where
  "edit_row_shown s = (case ht_editingIdx s of None \<Rightarrow> False | Some i \<Rightarrow> i < length (ht_entries s))"

fun hosts_enabled :: "bool \<Rightarrow> hosts_tab \<Rightarrow> hosts_click \<Rightarrow> bool" where
  "hosts_enabled disabled s AddStart = idle disabled s"
| "hosts_enabled disabled s (AddType row) = (ht_adding s \<and> \<not> disabled)"
| "hosts_enabled disabled s AddConfirm = ht_adding s"
| "hosts_enabled disabled s AddCancel = ht_adding s"
| "hosts_enabled disabled s (EditStart i) = (i < length (ht_entries s) \<and> idle disabled s)"
| "hosts_enabled disabled s (EditType row) = (edit_row_shown s \<and> \<not> disabled)"
| "hosts_enabled disabled s EditConfirm = edit_row_shown s"
| "hosts_enabled disabled s EditCancel = edit_row_shown s"
| "hosts_enabled disabled s (Delete i) = (i < length (ht_entries s) \<and> idle disabled s)"

fun hosts_apply :: "hosts_click \<Rightarrow> hosts_tab \<Rightarrow> hosts_tab" where
  "hosts_apply AddStart s = handleAddStart s"
| "hosts_apply (AddType row) s = s \<lparr> ht_addRow := row \<rparr>"
| "hosts_apply AddConfirm s = handleAddConfirm s"
| "hosts_apply AddCancel s = handleAddCancel s"
| "hosts_apply (EditStart i) s = handleEditStart i s"
| "hosts_apply (EditType row) s = s \<lparr> ht_editRow := row \<rparr>"
| "hosts_apply EditConfirm s = handleEditConfirm s"
| "hosts_apply EditCancel s = handleEditCancel s"
| "hosts_apply (Delete i) s = handleDelete i s"

definition hosts_tab_for :: "host_entry list \<Rightarrow> hosts_tab" where
  "hosts_tab_for entries =
     \<lparr> ht_entries = entries, ht_adding = False, ht_addRow = EMPTY_ROW, ht_addError = None, ht_editingIdx = None,
       ht_editRow = EMPTY_ROW, ht_editError = None \<rparr>"

section \<open>The table stays in order\<close>

definition entry_ok :: "host_entry \<Rightarrow> bool" where
  "entry_ok e = (isValidIP (he_ip e) \<and> js_trim (he_ip e) = he_ip e \<and> he_hostnames e \<noteq> [] \<and> list_all isValidHostname (he_hostnames e))"

definition table_ok :: "host_entry list \<Rightarrow> bool" where
  "table_ok es = (list_all entry_ok es \<and> distinct (map he_ip es))"

lemma has_duplicate_none: "has_duplicate ip es None \<longleftrightarrow> ip \<in> set (map he_ip es)"
  by (force simp: has_duplicate_def list_ex_iff in_set_conv_nth)

lemma has_duplicate_some: "has_duplicate ip es (Some k) \<longleftrightarrow> (\<exists>i < length es. i \<noteq> k \<and> he_ip (es ! i) = ip)"
  by (auto simp: has_duplicate_def list_ex_iff)

lemma find_refused:
  "(case find (\<lambda>x. \<not> P x) xs of None \<Rightarrow> r | Some x \<Rightarrow> Some (f x)) = None \<longleftrightarrow> list_all P xs \<and> r = None"
  by (induction xs) auto

lemma valid_ip_trim [simp]: "isValidIP (js_trim ip) = isValidIP ip" "isValidIP ip \<Longrightarrow> js_trim ip \<noteq> []"
  by (auto simp: isValidIP_def quad_shape_def)

lemma validateRow_none:
  "validateRow row es k = None \<longleftrightarrow> entry_ok (row_entry row) \<and> \<not> has_duplicate (he_ip (row_entry row)) es k"
  by (auto simp: validateRow_def entry_ok_def row_entry_def Let_def find_refused)

lemma table_ok_update:
  assumes "table_ok es" "entry_ok e" "\<not> has_duplicate (he_ip e) es (Some k)"
  shows "table_ok (es[k := e])"
proof -
  have "list_all entry_ok (es[k := e])"
    using assms(1,2) by (auto simp: table_ok_def list_all_iff dest!: set_update_subset_insert [THEN subsetD])
  moreover have "he_ip e \<notin> set (map he_ip es) - {map he_ip es ! k}"
    using assms(3) unfolding has_duplicate_some by (auto simp: in_set_conv_nth) (metis nth_map)
  then have "distinct (map he_ip (es[k := e]))"
    using assms(1) by (simp only: map_update) (rule distinct_list_update, simp_all add: table_ok_def)
  ultimately show ?thesis
    by (simp add: table_ok_def)
qed

lemma table_ok_delete: "table_ok es \<Longrightarrow> table_ok (take k es @ drop (Suc k) es)"
proof (cases "k < length es")
  case True
  assume "table_ok es"
  then have "table_ok (take k es @ es ! k # drop (Suc k) es)"
    using id_take_nth_drop [OF True] by simp
  then show ?thesis
    by (auto simp: table_ok_def)
qed simp

lemma table_ok_add: "table_ok es \<Longrightarrow> entry_ok e \<Longrightarrow> \<not> has_duplicate (he_ip e) es None \<Longrightarrow> table_ok (es @ [e])"
  by (simp add: table_ok_def has_duplicate_none)

inductive hosts_step :: "hosts_tab \<Rightarrow> hosts_tab \<Rightarrow> bool" where
  "hosts_enabled disabled s c \<Longrightarrow> hosts_step s (hosts_apply c s)"

definition tab_ok :: "hosts_tab \<Rightarrow> bool" where
  "tab_ok s = (table_ok (ht_entries s) \<and> (ht_editingIdx s = None \<or> edit_row_shown s \<and> \<not> ht_adding s))"

lemma tab_ok_apply:
  assumes "tab_ok s" "hosts_enabled disabled s c"
  shows "tab_ok (hosts_apply c s)"
proof (cases c)
  case AddConfirm
  then show ?thesis
    using assms by (auto simp: tab_ok_def handleAddConfirm_def edit_row_shown_def validateRow_none table_ok_add split: option.splits)
next
  case EditConfirm
  then show ?thesis
    using assms by (auto simp: tab_ok_def handleEditConfirm_def edit_row_shown_def validateRow_none table_ok_update split: option.splits)
qed (use assms in \<open>auto simp: tab_ok_def idle_def edit_row_shown_def handleAddStart_def handleAddCancel_def handleEditStart_def
      handleEditCancel_def handleDelete_def table_ok_delete\<close>)

text \<open>C31: whatever is clicked and typed in the tab of host entries, every row of the table has an address and host names that pass
  the checks and no address appears twice, and a row that is edited is there and no other is added meanwhile.\<close>

theorem hosts_table_invariant:
  assumes "table_ok entries" "hosts_step\<^sup>*\<^sup>* (hosts_tab_for entries) s"
  shows "table_ok (ht_entries s) \<and> (ht_editingIdx s = None \<or> edit_row_shown s \<and> \<not> ht_adding s)"
proof -
  have "tab_ok s"
    using assms(2)
  proof (induction rule: rtranclp_induct)
    case base
    show ?case
      using assms(1) by (simp add: tab_ok_def hosts_tab_for_def)
  next
    case (step s t)
    then show ?case
      by (auto elim!: hosts_step.cases intro: tab_ok_apply)
  qed
  then show ?thesis
    by (simp add: tab_ok_def)
qed

text \<open>An entry is added.\<close>

theorem hosts_table_invariant_witness:
  "table_ok (ht_entries (hosts_apply AddConfirm (hosts_apply (AddType \<lparr> rw_ip = '' 10.0.0.7 '', rw_hostnamesRaw = ''vc.corp.local, vc'' \<rparr>)
     (hosts_apply AddStart (hosts_tab_for [\<lparr> he_ip = ''10.0.0.6'', he_hostnames = [''esx''] \<rparr>])))))"
proof -
  let ?s = "hosts_tab_for [\<lparr> he_ip = ''10.0.0.6'', he_hostnames = [''esx''] \<rparr>]"
  let ?a = "hosts_apply AddStart ?s"
  let ?b = "hosts_apply (AddType \<lparr> rw_ip = '' 10.0.0.7 '', rw_hostnamesRaw = ''vc.corp.local, vc'' \<rparr>) ?a"
  have "hosts_step ?s ?a" "hosts_step ?a ?b" "hosts_step ?b (hosts_apply AddConfirm ?b)"
    by (rule hosts_step.intros [where disabled = False], code_simp)+
  then have "hosts_step\<^sup>*\<^sup>* ?s (hosts_apply AddConfirm ?b)"
    by (meson converse_rtranclp_into_rtranclp r_into_rtranclp)
  moreover have "table_ok [\<lparr> he_ip = ''10.0.0.6'', he_hostnames = [''esx''] \<rparr>]"
    by code_simp
  ultimately show ?thesis
    using hosts_table_invariant by blast
qed

text \<open>A row that is opened and closed unchanged.\<close>

lemma host_char_plain: "\<not> js_space c" if "host_char c"
  using that by (auto simp: host_char_def label_char_def alnum_char_def js_space_def)

lemma comma_not_host [simp]: "\<not> host_char (CHR '','')"
  by code_simp

lemma name_plain:
  assumes "isValidHostname w"
  shows "js_trim w = w" "CHR '','' \<notin> set w" "w \<noteq> []"
proof -
  have "\<forall>c \<in> set w. host_char c" and filled: "w \<noteq> []"
    using assms by (simp_all add: isValidHostname_def list_all_iff)
  then show "js_trim w = w" "CHR '','' \<notin> set w"
    using host_char_plain by (auto intro!: js_trim_id)
  show "w \<noteq> []"
    by (rule filled)
qed

lemma host_trim_space: "js_trim (CHR '' '' # w) = js_trim w"
  by (simp add: js_trim_def js_space_def)

lemma split_space: "map js_trim (split_on (CHR '','') (CHR '' '' # s)) = map js_trim (split_on (CHR '','') s)"
  using split_on_nonempty [of "CHR '',''" s] by (auto simp: host_trim_space split: list.splits)

lemma names_split:
  "ws \<noteq> [] \<Longrightarrow> list_all isValidHostname ws \<Longrightarrow> map js_trim (split_on (CHR '','') (js_join '', '' ws)) = ws"
  by (induction ws rule: induct_list012)
    (simp_all add: name_plain split_on_single split_on_append split_space del: split_on.simps)

text \<open>an entry that is opened for editing and confirmed unchanged leaves the table as it was, and the row is closed without an
  error: the host names are written with commas and read back.\<close>

theorem edit_unchanged_roundtrip:
  assumes "table_ok entries" "i < length entries"
  shows "handleEditConfirm (handleEditStart i (hosts_tab_for entries)) = hosts_tab_for entries"
proof -
  let ?e = "entries ! i"
  let ?row = "\<lparr> rw_ip = he_ip ?e, rw_hostnamesRaw = js_join '', '' (he_hostnames ?e) \<rparr>"
  have ok: "entry_ok ?e"
    using assms by (simp add: table_ok_def list_all_length)
  then have "filter (\<lambda>h. h \<noteq> []) (he_hostnames ?e) = he_hostnames ?e"
    by (simp add: entry_ok_def list_all_iff name_plain filter_id_conv)
  with ok have row: "row_entry ?row = ?e"
    by (simp add: row_entry_def row_hostnames_def entry_ok_def names_split)
  have "\<not> has_duplicate (he_ip ?e) entries (Some i)"
    using assms by (auto simp: has_duplicate_some table_ok_def distinct_conv_nth)
  then have "validateRow ?row entries (Some i) = None"
    using ok by (simp add: validateRow_none row)
  then show ?thesis
    by (simp add: handleEditStart_def handleEditConfirm_def hosts_tab_for_def row)
qed

theorem edit_unchanged_roundtrip_witness:
  "handleEditConfirm (handleEditStart 0 (hosts_tab_for [\<lparr> he_ip = ''10.0.0.6'', he_hostnames = [''esx.corp.local'', ''esx''] \<rparr>])) =
   hosts_tab_for [\<lparr> he_ip = ''10.0.0.6'', he_hostnames = [''esx.corp.local'', ''esx''] \<rparr>]"
proof (rule edit_unchanged_roundtrip)
  show "table_ok [\<lparr> he_ip = ''10.0.0.6'', he_hostnames = [''esx.corp.local'', ''esx''] \<rparr>]"
    by code_simp
qed simp

section \<open>What goes wrong\<close>

text \<open>The settings are reset to their defaults while a row is edited: the row is gone with its buttons, and the others stay
  disabled until the tab is left.\<close>

theorem reset_while_editing_stuck:
  "\<not> hosts_enabled disabled (handleEditStart i (hosts_tab_for entries) \<lparr> ht_entries := [] \<rparr>) c"
  by (cases c) (simp_all add: handleEditStart_def hosts_tab_for_def idle_def edit_row_shown_def)

text \<open>Any digits, letters up to f and colons are an address, and so are quads beyond 255.\<close>

theorem odd_addresses_pass: "isValidIP ''cafe'' \<and> isValidIP '':::'' \<and> isValidIP ''7'' \<and> isValidIP ''999.999.999.999''"
  by code_simp

end
