(* ===== verification/Log_Stream.thy ===== *)
theory Log_Stream
  imports Js_Prelude
begin

text \<open>
  The streams of logs, \<open>ui/src/hooks/useDirectPodLogs.ts\<close> and \<open>useDeploymentLogs.ts\<close>: the chunks that arrive are cut into
  lines, lines that are known are dropped, and the last lines are kept; the stream of a pod is taken up again after it ends.
\<close>

section \<open>Lines\<close>

definition MAX_LOG_LINES :: nat where
  "MAX_LOG_LINES = 5000"

record log_lines =
  ll_logs :: "string list"
  ll_seen :: "string set"

text \<open>The update of the lines: the oldest are cut off and are no longer known.\<close>

definition append_logs :: "string list \<Rightarrow> log_lines \<Rightarrow> log_lines" where
  "append_logs lines s =
     (let newLogs = ll_logs s @ lines; n = length newLogs - MAX_LOG_LINES; seen = ll_seen s \<union> set lines
      in if MAX_LOG_LINES < length newLogs
         then \<lparr> ll_logs = drop n newLogs, ll_seen = seen - set (take n newLogs) \<rparr>
         else \<lparr> ll_logs = newLogs, ll_seen = seen \<rparr>)"

definition new_lines :: "string list \<Rightarrow> log_lines \<Rightarrow> log_lines" where
  "new_lines lines s =
     (let uniqueLines = filter (\<lambda>l. l \<notin> ll_seen s) (filter (\<lambda>l. js_trim l \<noteq> []) lines)
      in if uniqueLines = [] then s else append_logs uniqueLines s)"

text \<open>A chunk, and the end of the stream. The first component is the buffer, the line that is not complete yet.\<close>

definition read_chunk :: "string \<Rightarrow> string \<times> log_lines \<Rightarrow> string \<times> log_lines" where
  "read_chunk chunk bs =
     (let parts = split_on (CHR 0x0A) (fst bs @ chunk) in (last parts, new_lines (butlast parts) (snd bs)))"

definition read_end :: "string \<times> log_lines \<Rightarrow> log_lines" where
  "read_end bs =
     (let remainingLine = js_trim (fst bs)
      in if remainingLine \<noteq> [] \<and> remainingLine \<notin> ll_seen (snd bs) then append_logs [remainingLine] (snd bs) else snd bs)"

definition no_logs :: log_lines where
  "no_logs = \<lparr> ll_logs = [], ll_seen = {} \<rparr>"

section \<open>The lines of a stream\<close>

lemma split_on_app:
  "split_on sep (a @ b) = butlast (split_on sep a) @ split_on sep (last (split_on sep a) @ b)"
proof (induction a)
  case (Cons c a)
  obtain w ws where w: "split_on sep a = w # ws"
    using split_on_nonempty [of sep a] by (cases "split_on sep a") auto
  obtain v vs where v: "split_on sep (w @ b) = v # vs"
    using split_on_nonempty [of sep "w @ b"] by (cases "split_on sep (w @ b)") auto
  show ?case
    using Cons.IH w v by (cases "c = sep"; cases ws) auto
qed simp

definition keep_last :: "string list \<Rightarrow> string list" where
  "keep_last xs = drop (length xs - MAX_LOG_LINES) xs"

lemma keep_last_app: "keep_last (keep_last xs @ ys) = keep_last (xs @ ys)"
proof (cases "length xs \<le> MAX_LOG_LINES")
  case False
  then have "length xs - MAX_LOG_LINES + MAX_LOG_LINES = length xs"
    by simp
  then show ?thesis
    by (simp add: keep_last_def add.commute)
qed (simp add: keep_last_def)

lemma append_logs_keep: "ll_logs (append_logs xs s) = keep_last (ll_logs s @ xs)"
  by (simp add: append_logs_def keep_last_def Let_def)

lemma rest_known: "S \<subseteq> set zs \<Longrightarrow> S - set (take n zs) \<subseteq> set (drop n zs)"
  by (metis Diff_subset_conv append_take_drop_id set_append)

lemma append_seen: "ll_seen s \<subseteq> set (ll_logs s) \<Longrightarrow> ll_seen (append_logs xs s) \<subseteq> set (ll_logs (append_logs xs s))"
  using rest_known [of "ll_seen s \<union> set xs" "ll_logs s @ xs" "length (ll_logs s) + length xs - MAX_LOG_LINES"]
  by (simp add: append_logs_def Let_def subset_insertI2 le_supI1)

definition known_ok :: "log_lines \<Rightarrow> bool" where
  "known_ok s = (ll_seen s \<subseteq> set (ll_logs s) \<and> length (ll_logs s) \<le> MAX_LOG_LINES)"

lemma known_append: "known_ok s \<Longrightarrow> known_ok (append_logs xs s)"
  using append_seen [of s xs] by (simp add: known_ok_def append_logs_keep keep_last_def)

lemma known_chunk: "known_ok s \<Longrightarrow> known_ok (snd (read_chunk chunk (b, s)))"
  by (simp add: read_chunk_def new_lines_def Let_def known_append)

lemma known_end: "known_ok s \<Longrightarrow> known_ok (read_end (b, s))"
  by (simp add: read_end_def Let_def known_append)

text \<open>The lines that are complete after some chunks, and the rest.\<close>

abbreviation complete_lines :: "string \<Rightarrow> string list" where
  "complete_lines t \<equiv> filter (\<lambda>l. js_trim l \<noteq> []) (butlast (split_on (CHR 0x0A) t))"

lemma complete_lines_app:
  "complete_lines (a @ b) = complete_lines a @ complete_lines (last (split_on (CHR 0x0A) a) @ b)"
  "last (split_on (CHR 0x0A) (a @ b)) = last (split_on (CHR 0x0A) (last (split_on (CHR 0x0A) a) @ b))"
  by (simp_all add: split_on_app [of "CHR 0x0A" a b] butlast_append)

lemma new_lines_fresh:
  assumes "set (filter (\<lambda>l. js_trim l \<noteq> []) ls) \<inter> ll_seen s = {}"
  shows "ll_logs (new_lines ls s) = (if filter (\<lambda>l. js_trim l \<noteq> []) ls = [] then ll_logs s
           else keep_last (ll_logs s @ filter (\<lambda>l. js_trim l \<noteq> []) ls))"
    "ll_seen (new_lines ls s) \<subseteq> ll_seen s \<union> set (filter (\<lambda>l. js_trim l \<noteq> []) ls)"
proof -
  have fresh: "filter (\<lambda>l. l \<notin> ll_seen s) (filter (\<lambda>l. js_trim l \<noteq> []) ls) = filter (\<lambda>l. js_trim l \<noteq> []) ls"
    using assms by (auto simp: filter_id_conv simp del: filter_filter)
  show "ll_logs (new_lines ls s) = (if filter (\<lambda>l. js_trim l \<noteq> []) ls = [] then ll_logs s
           else keep_last (ll_logs s @ filter (\<lambda>l. js_trim l \<noteq> []) ls))"
    unfolding new_lines_def fresh Let_def by (simp add: append_logs_keep)
  show "ll_seen (new_lines ls s) \<subseteq> ll_seen s \<union> set (filter (\<lambda>l. js_trim l \<noteq> []) ls)"
    unfolding new_lines_def fresh Let_def append_logs_def by auto
qed

lemma chunks_lines:
  assumes "distinct (complete_lines (b @ concat chunks))" "set (complete_lines (b @ concat chunks)) \<inter> ll_seen s = {}"
    "length (ll_logs s) \<le> MAX_LOG_LINES" "CHR 0x0A \<notin> set b"
  shows "fst (fold read_chunk chunks (b, s)) = last (split_on (CHR 0x0A) (b @ concat chunks)) \<and>
    ll_logs (snd (fold read_chunk chunks (b, s))) = keep_last (ll_logs s @ complete_lines (b @ concat chunks))"
  using assms
proof (induction chunks arbitrary: b s)
  case Nil
  then show ?case
    by (simp add: split_on_single keep_last_def)
next
  case (Cons c cs)
  let ?b = "last (split_on (CHR 0x0A) (b @ c))"
  let ?s = "new_lines (butlast (split_on (CHR 0x0A) (b @ c))) s"
  have lines: "complete_lines (b @ c @ concat cs) = complete_lines (b @ c) @ complete_lines (?b @ concat cs)"
    using complete_lines_app(1) [of "b @ c" "concat cs"] by simp
  note fresh = new_lines_fresh [of "butlast (split_on (CHR 0x0A) (b @ c))" s]
  have none: "set (complete_lines (b @ c)) \<inter> ll_seen s = {}"
    using Cons.prems(2) lines by auto
  have logs: "ll_logs ?s = keep_last (ll_logs s @ complete_lines (b @ c))"
    using fresh(1) [OF none] Cons.prems(3) by (auto simp: keep_last_def)
  have "distinct (complete_lines (?b @ concat cs))" "set (complete_lines (?b @ concat cs)) \<inter> ll_seen ?s = {}"
    using Cons.prems(1,2) fresh(2) [OF none] lines by auto
  moreover have "length (ll_logs ?s) \<le> MAX_LOG_LINES"
    by (simp add: logs keep_last_def)
  moreover have "CHR 0x0A \<notin> set ?b"
    by (rule split_on_parts [OF last_in_set]) simp
  ultimately have "fst (fold read_chunk cs (?b, ?s)) = last (split_on (CHR 0x0A) (?b @ concat cs)) \<and>
      ll_logs (snd (fold read_chunk cs (?b, ?s))) = keep_last (ll_logs ?s @ complete_lines (?b @ concat cs))"
    by (rule Cons.IH)
  moreover have "read_chunk c (b, s) = (?b, ?s)"
    by (simp add: read_chunk_def Let_def)
  ultimately show ?case
    using complete_lines_app(2) [of "b @ c" "concat cs"] lines logs by (simp add: keep_last_app)
qed

text \<open>A whole stream.\<close>

definition stream_logs :: "string list \<Rightarrow> log_lines \<Rightarrow> log_lines" where
  "stream_logs chunks s = read_end (fold read_chunk chunks ([], s))"

definition text_lines :: "string \<Rightarrow> string list" where
  "text_lines t =
     (let rest = js_trim (last (split_on (CHR 0x0A) t)) in complete_lines t @ (if rest = [] then [] else [rest]))"

lemma chunks_seen:
  assumes "distinct (complete_lines (b @ concat chunks))" "set (complete_lines (b @ concat chunks)) \<inter> ll_seen s = {}"
  shows "ll_seen (snd (fold read_chunk chunks (b, s))) \<subseteq> ll_seen s \<union> set (complete_lines (b @ concat chunks))"
  using assms
proof (induction chunks arbitrary: b s)
  case (Cons c cs)
  let ?b = "last (split_on (CHR 0x0A) (b @ c))"
  let ?s = "new_lines (butlast (split_on (CHR 0x0A) (b @ c))) s"
  have lines: "complete_lines (b @ c @ concat cs) = complete_lines (b @ c) @ complete_lines (?b @ concat cs)"
    using complete_lines_app(1) [of "b @ c" "concat cs"] by simp
  then have none: "set (complete_lines (b @ c)) \<inter> ll_seen s = {}"
    using Cons.prems(2) by auto
  note fresh = new_lines_fresh(2) [OF none]
  then have "ll_seen (snd (fold read_chunk cs (?b, ?s))) \<subseteq> ll_seen ?s \<union> set (complete_lines (?b @ concat cs))"
    using Cons.prems lines by (intro Cons.IH) auto
  moreover have "read_chunk c (b, s) = (?b, ?s)"
    by (simp add: read_chunk_def Let_def)
  ultimately show ?case
    using fresh lines by auto
qed simp

text \<open>the lines of a stream do not depend on how its text is cut into chunks: when no line repeats another or one that is known, the
  log afterwards consists of the last 5000 of the former lines and those of the text that are not blank.\<close>

theorem log_lines_of_text:
  assumes "distinct (text_lines (concat chunks))" "set (text_lines (concat chunks)) \<inter> ll_seen s = {}"
    "length (ll_logs s) \<le> MAX_LOG_LINES"
  shows "ll_logs (stream_logs chunks s) = keep_last (ll_logs s @ text_lines (concat chunks))"
proof -
  let ?t = "concat chunks"
  let ?rest = "js_trim (last (split_on (CHR 0x0A) ?t))"
  have prems: "distinct (complete_lines ([] @ ?t))" "set (complete_lines ([] @ ?t)) \<inter> ll_seen s = {}"
    using assms(1,2) by (auto simp: text_lines_def Let_def split: if_splits)
  have lines: "fst (fold read_chunk chunks ([], s)) = last (split_on (CHR 0x0A) ?t)"
    "ll_logs (snd (fold read_chunk chunks ([], s))) = keep_last (ll_logs s @ complete_lines ?t)"
    using chunks_lines [OF prems assms(3)] by simp_all
  have "?rest \<notin> ll_seen (snd (fold read_chunk chunks ([], s)))" if "?rest \<noteq> []"
    using chunks_seen [OF prems] assms(1,2) that by (auto simp: text_lines_def Let_def)
  then show ?thesis
    using lines by (auto simp: stream_logs_def read_end_def text_lines_def Let_def append_logs_keep keep_last_app)
qed

theorem log_lines_of_text_witness:
  "ll_logs (stream_logs [''ab'', ''c'' @ [CHR 0x0A] @ ''de'', ''f''] no_logs) = keep_last [''abc'', ''def'']"
proof -
  let ?t = "''abc'' @ [CHR 0x0A] @ ''def''"
  have lines: "text_lines ?t = [''abc'', ''def'']"
    by code_simp
  then show ?thesis
    using log_lines_of_text [of "[''ab'', ''c'' @ [CHR 0x0A] @ ''de'', ''f'']" no_logs] by (simp add: no_logs_def)
qed

text \<open>A line that repeats another is shown or not, as the chunks are cut.\<close>

theorem repeated_line_depends_on_chunks:
  "ll_logs (stream_logs [''x'' @ [CHR 0x0A] @ ''x'' @ [CHR 0x0A]] no_logs) = [''x'', ''x''] \<and>
   ll_logs (stream_logs [''x'' @ [CHR 0x0A], ''x'' @ [CHR 0x0A]] no_logs) = [''x'']"
  by (simp add: stream_logs_def read_chunk_def new_lines_def append_logs_def read_end_def no_logs_def MAX_LOG_LINES_def Let_def
      js_trim_def js_space_def)

section \<open>The stream of a pod\<close>

definition INITIAL_RECONNECT_DELAY_MS :: nat where "INITIAL_RECONNECT_DELAY_MS = 5000"
definition MAX_RECONNECT_DELAY_MS :: nat where "MAX_RECONNECT_DELAY_MS = 30000"
definition MAX_RETRIES :: int where "MAX_RETRIES = 5"

datatype stream_error = MaxRetries | StreamError string

text \<open>The connection of the present call: waiting for the answer, with or without the history, or reading, with its buffer.\<close>

datatype connection = Connecting bool | Streaming string

record pod_stream =
  ps_enabled :: bool
  ps_follow :: bool
  ps_lines :: log_lines
  ps_isLoading :: bool
  ps_error :: "stream_error option"
  ps_connection :: "connection option"
  ps_aborted :: nat
  ps_timer :: "nat option"
  ps_retryCount :: int
  ps_hasInitiallyLoaded :: bool

text \<open>\<open>ps_enabled\<close> is the condition of the code: enabled, with a pod and a namespace. \<open>ps_aborted\<close> counts the aborted calls that
  have not noticed yet.\<close>

definition stream_cleanup :: "pod_stream \<Rightarrow> pod_stream" where
  "stream_cleanup s =
     s \<lparr> ps_aborted := ps_aborted s + (case ps_connection s of Some (Connecting _) \<Rightarrow> 1 | _ \<Rightarrow> 0), ps_connection := None,
       ps_timer := None, ps_retryCount := 0 \<rparr>"

definition queueReconnect :: "bool \<Rightarrow> pod_stream \<Rightarrow> pod_stream" where
  "queueReconnect transientError s =
     (if \<not> ps_enabled s \<or> \<not> transientError then s
      else if MAX_RETRIES \<le> ps_retryCount s then s \<lparr> ps_error := Some MaxRetries \<rparr>
      else s \<lparr> ps_timer := Some (min (INITIAL_RECONNECT_DELAY_MS * 2 ^ nat (ps_retryCount s)) MAX_RECONNECT_DELAY_MS),
             ps_retryCount := ps_retryCount s + 1 \<rparr>)"

definition stream_connect :: "pod_stream \<Rightarrow> pod_stream" where
  "stream_connect s =
     (if \<not> ps_enabled s then s
      else stream_cleanup s \<lparr> ps_isLoading := True, ps_error := None, ps_connection := Some (Connecting (\<not> ps_hasInitiallyLoaded s)) \<rparr>)"

text \<open>The answer, chunks, the end, a failure while waiting or reading, and the return of an aborted call.\<close>

definition stream_opened :: "bool \<Rightarrow> pod_stream \<Rightarrow> pod_stream" where
  "stream_opened history s =
     s \<lparr> ps_hasInitiallyLoaded := (history \<or> ps_hasInitiallyLoaded s), ps_isLoading := False, ps_retryCount := 0,
       ps_connection := Some (Streaming []) \<rparr>"

definition stream_chunk :: "string \<Rightarrow> string \<Rightarrow> pod_stream \<Rightarrow> pod_stream" where
  "stream_chunk buffer chunk s =
     (let (b, l) = read_chunk chunk (buffer, ps_lines s) in s \<lparr> ps_connection := Some (Streaming b), ps_lines := l \<rparr>)"

definition stream_ended :: "string \<Rightarrow> pod_stream \<Rightarrow> pod_stream" where
  "stream_ended buffer s =
     (let s1 = s \<lparr> ps_lines := read_end (buffer, ps_lines s), ps_connection := None \<rparr>
      in if ps_follow s then queueReconnect True s1 else s1)"

definition stream_failed :: "string \<Rightarrow> pod_stream \<Rightarrow> pod_stream" where
  "stream_failed msg s =
     (let isTransient = (\<not> str_includes msg ''not found'' \<and> \<not> str_includes msg ''unauthorized'');
          s1 = s \<lparr> ps_isLoading := False, ps_error := Some (StreamError msg), ps_connection := None \<rparr>
      in if ps_follow s then queueReconnect isTransient s1 else s1)"

definition stream_aborted :: "pod_stream \<Rightarrow> pod_stream" where
  "stream_aborted s = s \<lparr> ps_aborted := ps_aborted s - 1, ps_isLoading := False \<rparr>"

definition stream_timer :: "pod_stream \<Rightarrow> pod_stream" where
  "stream_timer s = stream_connect (s \<lparr> ps_timer := None, ps_retryCount := ps_retryCount s - 1 \<rparr>)"

definition clear_stream :: "pod_stream \<Rightarrow> pod_stream" where
  "clear_stream s = s \<lparr> ps_lines := no_logs, ps_hasInitiallyLoaded := False, ps_retryCount := 0 \<rparr>"

definition stream_reconnect :: "pod_stream \<Rightarrow> pod_stream" where
  "stream_reconnect s = stream_connect (clear_stream s)"

text \<open>A render with other arguments: the cleanup of the effect, the lines are cleared for another pod or session, and the effect.\<close>

definition stream_props :: "bool \<Rightarrow> bool \<Rightarrow> bool \<Rightarrow> pod_stream \<Rightarrow> pod_stream" where
  "stream_props isEnabled follow other s =
     (let s1 = stream_cleanup s \<lparr> ps_enabled := isEnabled, ps_follow := follow \<rparr>; s2 = (if other then clear_stream s1 else s1)
      in if isEnabled then stream_connect s2 else stream_cleanup s2 \<lparr> ps_isLoading := False, ps_error := None \<rparr>)"

inductive stream_step :: "pod_stream \<Rightarrow> pod_stream \<Rightarrow> bool" where
  opened: "ps_connection s = Some (Connecting h) \<Longrightarrow> stream_step s (stream_opened h s)"
| chunk: "ps_connection s = Some (Streaming b) \<Longrightarrow> stream_step s (stream_chunk b c s)"
| ended: "ps_connection s = Some (Streaming b) \<Longrightarrow> stream_step s (stream_ended b s)"
| failed: "ps_connection s \<noteq> None \<Longrightarrow> stream_step s (stream_failed msg s)"
| aborted: "0 < ps_aborted s \<Longrightarrow> stream_step s (stream_aborted s)"
| timer: "ps_timer s \<noteq> None \<Longrightarrow> stream_step s (stream_timer s)"
| reconnect: "stream_step s (stream_reconnect s)"
| props: "stream_step s (stream_props isEnabled follow other s)"

definition new_stream :: pod_stream where
  "new_stream =
     \<lparr> ps_enabled = False, ps_follow = True, ps_lines = no_logs, ps_isLoading = False, ps_error = None, ps_connection = None,
       ps_aborted = 0, ps_timer = None, ps_retryCount = 0, ps_hasInitiallyLoaded = False \<rparr>"

definition stream_ok :: "pod_stream \<Rightarrow> bool" where
  "stream_ok s =
     (known_ok (ps_lines s) \<and> ps_error s \<noteq> Some MaxRetries \<and> (ps_connection s \<noteq> None \<longrightarrow> ps_enabled s) \<and>
      (ps_timer s = None \<and> ps_retryCount s = 0 \<or>
       ps_enabled s \<and> ps_connection s = None \<and> ps_timer s = Some 5000 \<and> ps_retryCount s = 1))"

lemmas stream_defs = stream_cleanup_def queueReconnect_def stream_connect_def stream_opened_def stream_chunk_def stream_ended_def
  stream_failed_def stream_aborted_def stream_timer_def clear_stream_def stream_reconnect_def stream_props_def

lemma known_none [simp]: "known_ok no_logs"
  by (simp add: known_ok_def no_logs_def)

lemma stream_ok_step: "stream_step s t \<Longrightarrow> stream_ok s \<Longrightarrow> stream_ok t"
proof (induction rule: stream_step.induct)
  case (chunk s b c)
  then show ?case
    using known_chunk [of "ps_lines s" c b] by (auto simp: stream_ok_def stream_defs split: prod.splits)
next
  case (ended s b)
  then show ?case
    using known_end [of "ps_lines s" b]
    by (auto simp: stream_ok_def stream_defs Let_def MAX_RETRIES_def INITIAL_RECONNECT_DELAY_MS_def MAX_RECONNECT_DELAY_MS_def)
qed (auto simp: stream_ok_def stream_defs Let_def MAX_RETRIES_def INITIAL_RECONNECT_DELAY_MS_def MAX_RECONNECT_DELAY_MS_def)

lemma stream_ok_new: "stream_ok new_stream"
  by (simp add: stream_ok_def new_stream_def)

lemma stream_ok_reachable: "stream_step\<^sup>*\<^sup>* new_stream s \<Longrightarrow> stream_ok s"
  by (induction rule: rtranclp_induct) (simp_all add: stream_ok_step stream_ok_new)

text \<open>C38: the log of a pod never has more than 5000 lines, and the lines that count as known are among those shown.\<close>

theorem pod_log_bounded:
  assumes "stream_step\<^sup>*\<^sup>* new_stream s"
  shows "length (ll_logs (ps_lines s)) \<le> 5000 \<and> ll_seen (ps_lines s) \<subseteq> set (ll_logs (ps_lines s))"
  using stream_ok_reachable [OF assms] by (simp add: stream_ok_def known_ok_def MAX_LOG_LINES_def)

definition shown_pod :: pod_stream where
  "shown_pod = stream_props True True True new_stream"

lemma shown_pod_step: "stream_step new_stream shown_pod"
  unfolding shown_pod_def by (rule stream_step.props)

theorem pod_log_bounded_witness:
  "ll_seen (ps_lines (stream_chunk [] ''line'' (stream_opened True shown_pod))) \<subseteq>
   set (ll_logs (ps_lines (stream_chunk [] ''line'' (stream_opened True shown_pod))))"
proof -
  have "stream_step shown_pod (stream_opened True shown_pod)"
    by (rule stream_step.opened) code_simp
  moreover have "stream_step (stream_opened True shown_pod) (stream_chunk [] ''line'' (stream_opened True shown_pod))"
    by (rule stream_step.chunk) (simp add: stream_opened_def)
  ultimately have "stream_step\<^sup>*\<^sup>* new_stream (stream_chunk [] ''line'' (stream_opened True shown_pod))"
    using shown_pod_step by (meson converse_rtranclp_into_rtranclp r_into_rtranclp)
  then show ?thesis
    using pod_log_bounded by blast
qed

text \<open>C37: the stream of a pod that is followed is taken up again for ever, after five seconds each time. Whatever has happened, when
  the stream ends, or the call or the stream fails with another message than that of something not found or not
  authorized, a call is due in 5000 milliseconds, and when they are over the stream connects anew: connecting resets the
  count of the retries, so that the delay never grows and the limit of five is never reached. After one of the two failures,
  and when the stream is not followed, no call is due.\<close>

theorem retries_never_exhausted:
  assumes "stream_step\<^sup>*\<^sup>* new_stream s"
  shows "ps_error s \<noteq> Some MaxRetries \<and>
    (\<forall>b. ps_connection s = Some (Streaming b) \<longrightarrow> ps_timer (stream_ended b s) = (if ps_follow s then Some 5000 else None)) \<and>
    (\<forall>msg. ps_connection s \<noteq> None \<longrightarrow> ps_timer (stream_failed msg s) =
       (if ps_follow s \<and> \<not> str_includes msg ''not found'' \<and> \<not> str_includes msg ''unauthorized'' then Some 5000 else None)) \<and>
    (ps_timer s \<noteq> None \<longrightarrow> ps_timer s = Some 5000 \<and>
       ps_connection (stream_timer s) = Some (Connecting (\<not> ps_hasInitiallyLoaded s)) \<and> ps_error (stream_timer s) = None)"
  using stream_ok_reachable [OF assms]
  by (auto simp: stream_ok_def stream_defs Let_def MAX_RETRIES_def INITIAL_RECONNECT_DELAY_MS_def MAX_RECONNECT_DELAY_MS_def)

theorem retries_never_exhausted_witness:
  "ps_timer (stream_failed ''timeout'' (stream_timer (stream_failed ''reset'' shown_pod))) = Some 5000"
proof -
  let ?s = "stream_failed ''reset'' shown_pod"
  have "stream_step shown_pod ?s"
    by (rule stream_step.failed) code_simp
  moreover have "stream_step ?s (stream_timer ?s)"
    by (rule stream_step.timer) code_simp
  ultimately have "stream_step\<^sup>*\<^sup>* new_stream (stream_timer ?s)"
    using shown_pod_step by (meson converse_rtranclp_into_rtranclp r_into_rtranclp)
  moreover have "ps_connection (stream_timer ?s) \<noteq> None" "ps_follow (stream_timer ?s)"
    "\<not> str_includes ''timeout'' ''not found''" "\<not> str_includes ''timeout'' ''unauthorized''"
    by code_simp+
  ultimately show ?thesis
    using retries_never_exhausted [of "stream_timer ?s"] by simp
qed

text \<open>A call that is aborted while it waits ends the loading that its successor has begun.\<close>

theorem aborted_call_ends_loading:
  "let s = stream_reconnect shown_pod
   in ps_connection s = Some (Connecting True) \<and> ps_isLoading s \<and> stream_step s (stream_aborted s) \<and> \<not> ps_isLoading (stream_aborted s)"
proof -
  have "0 < ps_aborted (stream_reconnect shown_pod)"
    by code_simp
  then have "stream_step (stream_reconnect shown_pod) (stream_aborted (stream_reconnect shown_pod))"
    by (rule stream_step.aborted)
  moreover have "ps_connection (stream_reconnect shown_pod) = Some (Connecting True)" "ps_isLoading (stream_reconnect shown_pod)"
    "\<not> ps_isLoading (stream_aborted (stream_reconnect shown_pod))"
    by code_simp+
  ultimately show ?thesis
    by (simp add: Let_def)
qed

section \<open>The streams of a deployment\<close>

text \<open>One stream per pod, with the pod, whether its history was asked for, and the buffer, and one log for all; a stream that fails
  sets the error and is not taken up again. \<open>ds_pending\<close> are the requests for the pods of a deployment that are not answered;
  they cannot be aborted.\<close>

datatype deployment_error = NoPods string | DeploymentError string

record deployment_stream =
  ds_deployment :: string
  ds_enabled :: bool
  ds_lines :: log_lines
  ds_isLoading :: bool
  ds_error :: "deployment_error option"
  ds_pending :: "string list"
  ds_open :: "(string \<times> bool \<times> string) list"
  ds_hasInitiallyLoaded :: bool

definition deployment_cleanup :: "deployment_stream \<Rightarrow> deployment_stream" where
  "deployment_cleanup s = s \<lparr> ds_open := [] \<rparr>"

definition deployment_connect :: "deployment_stream \<Rightarrow> deployment_stream" where
  "deployment_connect s =
     (if \<not> ds_enabled s then s
      else deployment_cleanup s \<lparr> ds_isLoading := True, ds_error := None, ds_pending := ds_pending s @ [ds_deployment s] \<rparr>)"

definition deployment_pods :: "string \<Rightarrow> string + string list \<Rightarrow> deployment_stream \<Rightarrow> deployment_stream" where
  "deployment_pods deployment answer s =
     (let s1 = s \<lparr> ds_pending := remove1 deployment (ds_pending s), ds_isLoading := False \<rparr>
      in case answer of
           Inl msg \<Rightarrow> s1 \<lparr> ds_error := Some (DeploymentError msg) \<rparr>
         | Inr pods \<Rightarrow>
             if pods = [] then s1 \<lparr> ds_error := Some (NoPods deployment) \<rparr>
             else s1 \<lparr> ds_hasInitiallyLoaded := True,
                    ds_open := ds_open s @ map (\<lambda>p. (p, \<not> ds_hasInitiallyLoaded s, [])) pods \<rparr>)"

definition deployment_chunk :: "nat \<Rightarrow> string \<Rightarrow> deployment_stream \<Rightarrow> deployment_stream" where
  "deployment_chunk i c s =
     (let (p, h, buffer) = ds_open s ! i; (b, l) = read_chunk c (buffer, ds_lines s)
      in s \<lparr> ds_open := (ds_open s)[i := (p, h, b)], ds_lines := l \<rparr>)"

definition drop_stream :: "nat \<Rightarrow> deployment_stream \<Rightarrow> deployment_stream" where
  "drop_stream i s = s \<lparr> ds_open := take i (ds_open s) @ drop (Suc i) (ds_open s) \<rparr>"

definition deployment_ended :: "nat \<Rightarrow> deployment_stream \<Rightarrow> deployment_stream" where
  "deployment_ended i s = drop_stream i (s \<lparr> ds_lines := read_end (snd (snd (ds_open s ! i)), ds_lines s) \<rparr>)"

definition deployment_failed :: "nat \<Rightarrow> string \<Rightarrow> deployment_stream \<Rightarrow> deployment_stream" where
  "deployment_failed i msg s = drop_stream i (s \<lparr> ds_error := Some (DeploymentError msg) \<rparr>)"

definition clear_deployment :: "deployment_stream \<Rightarrow> deployment_stream" where
  "clear_deployment s = s \<lparr> ds_lines := no_logs, ds_hasInitiallyLoaded := False \<rparr>"

definition deployment_reconnect :: "deployment_stream \<Rightarrow> deployment_stream" where
  "deployment_reconnect s = deployment_connect (clear_deployment s)"

definition deployment_props :: "string \<Rightarrow> bool \<Rightarrow> bool \<Rightarrow> deployment_stream \<Rightarrow> deployment_stream" where
  "deployment_props deployment isEnabled session s =
     (let s1 = deployment_cleanup s \<lparr> ds_enabled := isEnabled, ds_deployment := deployment \<rparr>;
          s2 = (if session \<or> deployment \<noteq> ds_deployment s then clear_deployment s1 else s1)
      in if isEnabled then deployment_connect s2 else deployment_cleanup s2 \<lparr> ds_isLoading := False, ds_error := None \<rparr>)"

inductive deployment_step :: "deployment_stream \<Rightarrow> deployment_stream \<Rightarrow> bool" where
  pods: "d \<in> set (ds_pending s) \<Longrightarrow> deployment_step s (deployment_pods d answer s)"
| chunk: "i < length (ds_open s) \<Longrightarrow> deployment_step s (deployment_chunk i c s)"
| ended: "i < length (ds_open s) \<Longrightarrow> deployment_step s (deployment_ended i s)"
| failed: "i < length (ds_open s) \<Longrightarrow> deployment_step s (deployment_failed i msg s)"
| reconnect: "deployment_step s (deployment_reconnect s)"
| props: "deployment_step s (deployment_props deployment isEnabled session s)"

definition new_deployment_stream :: deployment_stream where
  "new_deployment_stream =
     \<lparr> ds_deployment = [], ds_enabled = False, ds_lines = no_logs, ds_isLoading = False, ds_error = None, ds_pending = [],
       ds_open = [], ds_hasInitiallyLoaded = False \<rparr>"

lemmas deployment_defs = deployment_cleanup_def deployment_connect_def deployment_pods_def deployment_chunk_def drop_stream_def
  deployment_ended_def deployment_failed_def clear_deployment_def deployment_reconnect_def deployment_props_def

text \<open>the log of a deployment is bounded in the same way, whatever its streams deliver in whatever order.\<close>

theorem deployment_log_bounded:
  assumes "deployment_step\<^sup>*\<^sup>* new_deployment_stream s"
  shows "length (ll_logs (ds_lines s)) \<le> 5000 \<and> ll_seen (ds_lines s) \<subseteq> set (ll_logs (ds_lines s))"
proof -
  have "known_ok (ds_lines s)"
    using assms
  proof (induction rule: rtranclp_induct)
    case base
    show ?case
      by (simp add: new_deployment_stream_def)
  next
    case (step s t)
    from step(2,3) show ?case
    proof (induction rule: deployment_step.induct)
      case (chunk i s c)
      then show ?case
        using known_chunk [of "ds_lines s" c "snd (snd (ds_open s ! i))"]
        by (simp add: deployment_chunk_def split: prod.splits) (metis snd_conv)
    qed (auto simp: deployment_defs Let_def known_end split: sum.splits)
  qed
  then show ?thesis
    by (simp add: known_ok_def MAX_LOG_LINES_def)
qed

text \<open>The pods of a deployment that arrive after another was chosen are streamed into the log of the other.\<close>

theorem late_pods_mix_logs:
  "let s = deployment_props ''b'' True False (deployment_props ''a'' True False new_deployment_stream);
       t = deployment_chunk 0 (''line of a'' @ [CHR 0x0A]) (deployment_pods ''a'' (Inr [''pod-a'']) s)
   in ''a'' \<in> set (ds_pending s) \<and> ds_deployment t = ''b'' \<and> ll_logs (ds_lines t) = [''line of a'']"
  by (simp add: deployment_defs new_deployment_stream_def Let_def read_chunk_def new_lines_def append_logs_def no_logs_def
      MAX_LOG_LINES_def js_trim_def js_space_def)

end
