(* ===== verification/Status_Monitor.thy ===== *)
theory Status_Monitor
  imports Migration_Phase
begin

text \<open>
  The monitors that report how migrations end, \<open>ui/src/hooks/useStatusMonitor.ts\<close>, \<open>useMigrationStatusMonitor.ts\<close> and
  \<open>useRollingMigrationsStatusMonitor.ts\<close>: trackers of the phases seen last, and the reports that are sent. Both monitors are one
  algorithm over different phases.
\<close>

section \<open>Trackers\<close>

record 'p tracker =
  tr_previousPhase :: "'p option"
  tr_lastReportedPhase :: "'p option"

type_synonym 'p trackers = "string \<Rightarrow> 'p tracker option"

definition autoCleanup :: "string option list \<Rightarrow> 'p trackers \<Rightarrow> 'p trackers" where
  "autoCleanup activeNames t = t |` {n. Some n \<in> set activeNames \<and> n \<noteq> []}"

text \<open>What is reported: an event for the analytics and, of a failure, an error with the phase before, the message and the reason.\<close>

record 'p report =
  rp_name :: string
  rp_currentPhase :: 'p
  rp_error :: "('p option \<times> string \<times> string) option"

text \<open>One resource of the list, with its phase and the details if it has failed.\<close>

record 'p resource =
  rs_name :: "string option"
  rs_phase :: "'p option"
  rs_details :: "string \<times> string"

definition watch :: "'p \<Rightarrow> 'p \<Rightarrow> 'p option \<Rightarrow> 'p tracker option \<Rightarrow> 'p tracker \<times> 'p option" where
  "watch failed succeeded currentPhase tracker =
     (case tracker of
        None \<Rightarrow> (\<lparr> tr_previousPhase = currentPhase, tr_lastReportedPhase = None \<rparr>, None)
      | Some t \<Rightarrow>
          if tr_previousPhase t = currentPhase then (t, None)
          else if tr_lastReportedPhase t = currentPhase then (t, None)
          else if currentPhase \<in> {Some failed, Some succeeded}
          then (\<lparr> tr_previousPhase = currentPhase, tr_lastReportedPhase = currentPhase \<rparr>, currentPhase)
          else (t \<lparr> tr_previousPhase := currentPhase \<rparr>, None))"

definition monitor_one ::
  "'p \<Rightarrow> 'p \<Rightarrow> 'p resource \<Rightarrow> 'p trackers \<times> 'p report list \<Rightarrow> 'p trackers \<times> 'p report list" where
  "monitor_one failed succeeded r st =
     (case rs_name r of
        None \<Rightarrow> st
      | Some n \<Rightarrow>
          if n = [] then st
          else (let (t, reported) = watch failed succeeded (rs_phase r) (fst st n)
                in ((fst st)(n \<mapsto> t),
                    snd st @ (case reported of None \<Rightarrow> []
                      | Some p \<Rightarrow> [\<lparr> rp_name = n, rp_currentPhase = p,
                          rp_error = (if p = failed then Some (Option.bind (fst st n) tr_previousPhase, rs_details r) else None) \<rparr>]))))"

definition monitor_effect ::
  "'p \<Rightarrow> 'p \<Rightarrow> 'p resource list \<Rightarrow> 'p trackers \<times> 'p report list \<Rightarrow> 'p trackers \<times> 'p report list" where
  "monitor_effect failed succeeded resources st =
     (if resources = [] then st
      else fold (monitor_one failed succeeded) resources (autoCleanup (map rs_name resources) (fst st), snd st))"

text \<open>The event is built when the name of the region has been looked up, from the tracker as it is then.\<close>

definition event_previousPhase :: "'p trackers \<Rightarrow> 'p report \<Rightarrow> 'p option" where
  "event_previousPhase later r = Option.bind (later (rp_name r)) tr_previousPhase"

section \<open>The two monitors\<close>

text \<open>The condition with the latest time, the first of several.\<close>

definition latest_condition :: "condition \<Rightarrow> condition list \<Rightarrow> condition" where
  "latest_condition c cs = foldl (\<lambda>latest current. if num_gt (cond_ms current) (cond_ms latest) then current else latest) c cs"

definition getErrorDetails :: "migration \<Rightarrow> string \<times> string" where
  "getErrorDetails m =
     (let latest = (case mig_conditions m of [] \<Rightarrow> None | c # cs \<Rightarrow> Some (latest_condition c cs))
      in (str_or (Option.bind latest c_message) (''Migration '' @ (case mig_phase m of None \<Rightarrow> ''undefined'' | Some p \<Rightarrow> phase_str p)),
          str_or (map_option c_reason latest) ''Unknown''))"

definition useMigrationStatusMonitor :: "migration list \<Rightarrow> Phase trackers \<times> Phase report list \<Rightarrow> Phase trackers \<times> Phase report list" where
  "useMigrationStatusMonitor migrations =
     monitor_effect Failed Succeeded
       (map (\<lambda>m. \<lparr> rs_name = Some (m_name m), rs_phase = mig_phase m, rs_details = getErrorDetails m \<rparr>) migrations)"

record rolling_status =
  rg_name :: string
  rg_phase :: "string option"
  rg_migrationMessage :: "string option"

definition useRollingMigrationsStatusMonitor ::
  "rolling_status list \<Rightarrow> string trackers \<times> string report list \<Rightarrow> string trackers \<times> string report list" where
  "useRollingMigrationsStatusMonitor plans =
     monitor_effect ''Failed'' ''Succeeded''
       (map (\<lambda>p. \<lparr> rs_name = Some (rg_name p), rs_phase = rg_phase p,
              rs_details = (str_or (rg_migrationMessage p)
                (''Rolling Migration Plan '' @ (case rg_phase p of None \<Rightarrow> ''undefined'' | Some s \<Rightarrow> s)), str_or (rg_phase p) []) \<rparr>) plans)"

section \<open>Each end is reported\<close>

text \<open>The reports of one resource, and what they are for its phases alone.\<close>

definition reported :: "string \<Rightarrow> 'p report list \<Rightarrow> 'p list" where
  "reported n rs = map rp_currentPhase (filter (\<lambda>r. rp_name r = n) rs)"

fun watch_all :: "'p \<Rightarrow> 'p \<Rightarrow> 'p tracker option \<Rightarrow> 'p option list \<Rightarrow> 'p list" where
  "watch_all failed succeeded t [] = []"
| "watch_all failed succeeded t (p # ps) =
     (case watch failed succeeded p t of (t', r) \<Rightarrow> (case r of None \<Rightarrow> [] | Some x \<Rightarrow> [x]) @ watch_all failed succeeded (Some t') ps)"

lemma reported_simps [simp]: "reported n [] = []" "reported n (xs @ ys) = reported n xs @ reported n ys"
  by (simp_all add: reported_def)

lemma monitor_one_other: "Some n \<noteq> rs_name r \<Longrightarrow>
  fst (monitor_one f s r st) n = fst st n \<and> reported n (snd (monitor_one f s r st)) = reported n (snd st)"
  by (auto simp: monitor_one_def reported_def Let_def split: option.splits prod.splits)

lemma fold_monitor_other: "Some n \<notin> set (map rs_name rs) \<Longrightarrow>
  fst (fold (monitor_one f s) rs st) n = fst st n \<and> reported n (snd (fold (monitor_one f s) rs st)) = reported n (snd st)"
  by (induction rs arbitrary: st) (simp_all add: monitor_one_other)

lemma monitor_one_same:
  assumes "rs_name r = Some n" "n \<noteq> []" "watch f s (rs_phase r) (fst st n) = (t, x)"
  shows "fst (monitor_one f s r st) n = Some t \<and>
    reported n (snd (monitor_one f s r st)) = reported n (snd st) @ (case x of None \<Rightarrow> [] | Some p \<Rightarrow> [p])"
  using assms by (auto simp: monitor_one_def reported_def split: option.splits)

text \<open>The resource is in every list, once, and its phases are those given.\<close>

definition listed :: "string \<Rightarrow> 'p option \<Rightarrow> 'p resource list \<Rightarrow> bool" where
  "listed n p rs = (distinct (map rs_name rs) \<and> list_ex (\<lambda>r. rs_name r = Some n \<and> rs_phase r = p) rs)"

lemma monitor_effect_listed:
  assumes "listed n p rs" "n \<noteq> []" "watch f s p (fst st n) = (t, x)"
  shows "fst (monitor_effect f s rs st) n = Some t \<and>
    reported n (snd (monitor_effect f s rs st)) = reported n (snd st) @ (case x of None \<Rightarrow> [] | Some p \<Rightarrow> [p])"
proof -
  obtain r where r: "r \<in> set rs" "rs_name r = Some n" "rs_phase r = p"
    using assms(1) by (auto simp: listed_def list_ex_iff)
  then obtain as bs where rs: "rs = as @ r # bs"
    by (meson split_list)
  have others: "Some n \<notin> set (map rs_name as)" "Some n \<notin> set (map rs_name bs)"
    using assms(1) r(2) by (auto simp: listed_def rs)
  let ?st = "(autoCleanup (map rs_name rs) (fst st), snd st)"
  have "fst ?st n = fst st n"
    using r assms(2) by (force simp: autoCleanup_def restrict_map_def)
  then have "watch f s (rs_phase r) (fst (fold (monitor_one f s) as ?st) n) = (t, x)"
    using fold_monitor_other [OF others(1), of f s ?st] assms(3) r(3) by simp
  from monitor_one_same [OF r(2) assms(2) this] show ?thesis
    using fold_monitor_other [OF others(1), of f s ?st]
      fold_monitor_other [OF others(2), of f s "monitor_one f s r (fold (monitor_one f s) as ?st)"]
    by (simp add: monitor_effect_def rs)
qed

lemma monitor_history:
  assumes "list_all2 (listed n) ps history" "n \<noteq> []"
  shows "reported n (snd (fold (monitor_effect f s) history st)) = reported n (snd st) @ watch_all f s (fst st n) ps"
  using assms(1)
proof (induction ps history arbitrary: st rule: list_all2_induct)
  case (Cons p ps rs history)
  obtain t x where w: "watch f s p (fst st n) = (t, x)"
    by fastforce
  from monitor_effect_listed [OF Cons(1) assms(2) this] Cons.IH [of "monitor_effect f s rs st"] show ?case
    by (simp add: w)
qed simp

lemma watch_reports:
  assumes "watch f s p (Some t) = (t', x)"
  shows "x = None \<and> tr_lastReportedPhase t' = tr_lastReportedPhase t \<or>
    (\<exists>y \<in> {f, s}. x = Some y \<and> tr_lastReportedPhase t' = Some y \<and> tr_lastReportedPhase t \<noteq> Some y)"
  using assms by (auto simp: watch_def split: if_splits)

lemma watch_all_alternates:
  "distinct_adj (case tr_lastReportedPhase t of None \<Rightarrow> watch_all f s (Some t) ps | Some y \<Rightarrow> y # watch_all f s (Some t) ps) \<and>
   set (watch_all f s (Some t) ps) \<subseteq> {f, s}"
proof (induction ps arbitrary: t)
  case (Cons p ps)
  obtain t' x where w: "watch f s p (Some t) = (t', x)"
    by fastforce
  show ?case
    using watch_reports [OF w] Cons.IH [of t'] by (auto simp: w split: option.splits)
qed (simp split: option.splits)

text \<open>C36: for a migration that stays in the list the monitor sends exactly the reports that its own phases give, whatever else is in the
  list; they are of success and failure, and no two in a row are the same.\<close>

theorem monitor_reports:
  assumes "list_all2 (listed n) phases history" "n \<noteq> []"
  shows "reported n (snd (fold (monitor_effect failed succeeded) history (Map.empty, []))) = watch_all failed succeeded None phases \<and>
    distinct_adj (watch_all failed succeeded None phases) \<and> set (watch_all failed succeeded None phases) \<subseteq> {failed, succeeded}"
proof -
  have "distinct_adj (watch_all failed succeeded None phases) \<and> set (watch_all failed succeeded None phases) \<subseteq> {failed, succeeded}"
  proof (cases phases)
    case (Cons p ps)
    then show ?thesis
      using watch_all_alternates [where t = "\<lparr> tr_previousPhase = p, tr_lastReportedPhase = None \<rparr>" and f = failed and s = succeeded and ps = ps]
      by (simp add: watch_def)
  qed simp
  then show ?thesis
    using monitor_history [OF assms, of failed succeeded "(Map.empty, [])"] by simp
qed

definition named_phase :: "string \<Rightarrow> 'p \<Rightarrow> 'p resource" where
  "named_phase n p = \<lparr> rs_name = Some n, rs_phase = Some p, rs_details = ([], []) \<rparr>"

theorem monitor_reports_witness:
  "reported ''a'' (snd (fold (monitor_effect Failed Succeeded)
     [[named_phase ''a'' CopyingBlocks, named_phase ''b'' Failed], [named_phase ''b'' Failed, named_phase ''a'' Failed],
      [named_phase ''a'' Failed], [named_phase ''a'' Succeeded]] (Map.empty, []))) = [Failed, Succeeded]"
proof -
  have listed: "list_all2 (listed ''a'') [Some CopyingBlocks, Some Failed, Some Failed, Some Succeeded]
     [[named_phase ''a'' CopyingBlocks, named_phase ''b'' Failed], [named_phase ''b'' Failed, named_phase ''a'' Failed],
      [named_phase ''a'' Failed], [named_phase ''a'' Succeeded]]"
    by (simp add: listed_def named_phase_def)
  have "watch_all Failed Succeeded None [Some CopyingBlocks, Some Failed, Some Failed, Some Succeeded] = [Failed, Succeeded]"
    by code_simp
  then show ?thesis
    using monitor_reports [OF listed, of Failed Succeeded] by simp
qed

section \<open>What is not reported\<close>

text \<open>a change is left out only where the last report says the same or the resource is new: every other change to the failed or
  succeeded phase is reported at once.\<close>

theorem watch_complete:
  "snd (watch failed succeeded (Some p) tracker) = Some p \<longleftrightarrow>
     p \<in> {failed, succeeded} \<and>
     (\<exists>t. tracker = Some t \<and> tr_previousPhase t \<noteq> Some p \<and> tr_lastReportedPhase t \<noteq> Some p)"
  by (auto simp: watch_def split: option.splits)

text \<open>A migration that fails again after it has run again is not reported again; nor is one that had failed when it was first seen,
  nor one that was made anew under its name while the list was empty.\<close>

theorem second_failure_unreported:
  "watch_all Failed Succeeded None [Some CopyingBlocks, Some Failed, Some CopyingBlocks, Some Failed] = [Failed] \<and>
   watch_all Failed Succeeded None [Some Failed] = [] \<and>
   reported ''a'' (snd (fold (monitor_effect Failed Succeeded)
     [[named_phase ''a'' CopyingBlocks], [named_phase ''a'' Failed], [], [named_phase ''a'' CopyingBlocks], [named_phase ''a'' Failed]]
     (Map.empty, []))) = [Failed]"
  by (simp add: watch_def monitor_effect_def monitor_one_def autoCleanup_def named_phase_def reported_def restrict_map_def Let_def)

text \<open>the event of a report names as the phase before it the phase that is reported: the tracker has been brought up to date when the
  event is built.\<close>

theorem event_names_current_phase:
  assumes "listed n (Some p) resources" "n \<noteq> []" "snd (watch failed succeeded (Some p) (fst st n)) = Some p" "rp_name r = n"
  shows "event_previousPhase (fst (monitor_effect failed succeeded resources st)) r = Some p"
proof -
  obtain t x where w: "watch failed succeeded (Some p) (fst st n) = (t, x)"
    by fastforce
  then have "tr_previousPhase t = Some p"
    using assms(3) by (auto simp: watch_def split: option.splits if_splits)
  then show ?thesis
    using monitor_effect_listed [OF assms(1,2) w] assms(4) by (simp add: event_previousPhase_def)
qed

theorem event_names_current_phase_witness:
  "event_previousPhase (fst (monitor_effect Failed Succeeded [named_phase ''a'' Failed]
     ([''a'' \<mapsto> \<lparr> tr_previousPhase = Some CopyingBlocks, tr_lastReportedPhase = None \<rparr>], [])))
     \<lparr> rp_name = ''a'', rp_currentPhase = Failed, rp_error = Some (Some CopyingBlocks, [], []) \<rparr> = Some Failed"
  by (rule event_names_current_phase) (simp_all add: listed_def named_phase_def watch_def)

end
