(* ===== verification/Region_Lookup.thy ===== *)
theory Region_Lookup
  imports Js_Prelude
begin

text \<open>
  The name of the region of a plan, \<open>ui/src/utils/regionNameResolver.ts\<close>: from the plan to its template, from there to the
  credentials and, where they have no label, to their secret. Every level keeps what it has looked up. A lookup that has begun is kept
  as a promise; the model runs lookups one after the other, each against the server as it is then.
\<close>

section \<open>Lookups\<close>

text \<open>The server: \<open>None\<close> is a refused request, \<open>Some None\<close> an object without the field. The keys are a namespace, in which no colon occurs, and a name.\<close>

type_synonym region_key = "string \<times> string"

record region_server =
  rv_planTemplate :: "region_key \<Rightarrow> string option option"
  rv_openstackRef :: "region_key \<Rightarrow> string option option"
  rv_label :: "region_key \<Rightarrow> string option option"
  rv_secretRegion :: "region_key \<Rightarrow> string option option"

record region_caches =
  rc_byPlan :: "region_key \<Rightarrow> string option option"
  rc_byTemplate :: "region_key \<Rightarrow> string option option"
  rc_byOpenstackRef :: "region_key \<Rightarrow> string option option"

definition normalizeRegion :: "string option \<Rightarrow> string option" where
  "normalizeRegion region = (if js_trim (str_or region []) \<noteq> [] then Some (js_trim (the region)) else None)"

definition region_of_ref :: "region_server \<Rightarrow> region_key \<Rightarrow> string option" where
  "region_of_ref srv k =
     (case rv_label srv k of
        None \<Rightarrow> None
      | Some label \<Rightarrow>
          (case normalizeRegion label of
             Some r \<Rightarrow> Some r
           | None \<Rightarrow> Option.bind (rv_secretRegion srv (fst k, snd k @ ''-openstack-secret'')) normalizeRegion))"

definition getRegionNameForOpenstackRef ::
  "region_server \<Rightarrow> string option \<Rightarrow> string \<Rightarrow> region_caches \<Rightarrow> string option \<times> region_caches" where
  "getRegionNameForOpenstackRef srv ref ns c =
     (if \<not> str_truthy ref then (None, c)
      else (let key = (ns, the ref)
            in case rc_byOpenstackRef c key of
                 Some r \<Rightarrow> (r, c)
               | None \<Rightarrow> (region_of_ref srv key, c \<lparr> rc_byOpenstackRef := (rc_byOpenstackRef c)(key \<mapsto> region_of_ref srv key) \<rparr>)))"

definition getRegionNameForMigrationTemplate ::
  "region_server \<Rightarrow> string option \<Rightarrow> string \<Rightarrow> region_caches \<Rightarrow> string option \<times> region_caches" where
  "getRegionNameForMigrationTemplate srv templateName ns c =
     (if \<not> str_truthy templateName then (None, c)
      else (let key = (ns, the templateName)
            in case rc_byTemplate c key of
                 Some r \<Rightarrow> (r, c)
               | None \<Rightarrow>
                   (let (r, c1) = (case rv_openstackRef srv key of
                        None \<Rightarrow> (None, c) | Some ref \<Rightarrow> getRegionNameForOpenstackRef srv ref ns c)
                    in (r, c1 \<lparr> rc_byTemplate := (rc_byTemplate c1)(key \<mapsto> r) \<rparr>))))"

definition getRegionNameForMigrationPlan ::
  "region_server \<Rightarrow> string option \<Rightarrow> string \<Rightarrow> region_caches \<Rightarrow> string option \<times> region_caches" where
  "getRegionNameForMigrationPlan srv planName ns c =
     (if \<not> str_truthy planName then (None, c)
      else (let key = (ns, the planName)
            in case rc_byPlan c key of
                 Some r \<Rightarrow> (r, c)
               | None \<Rightarrow>
                   (let (r, c1) = (case rv_planTemplate srv key of
                        None \<Rightarrow> (None, c) | Some t \<Rightarrow> getRegionNameForMigrationTemplate srv t ns c)
                    in (r, c1 \<lparr> rc_byPlan := (rc_byPlan c1)(key \<mapsto> r) \<rparr>))))"

definition no_regions :: region_caches where
  "no_regions = \<lparr> rc_byPlan = Map.empty, rc_byTemplate = Map.empty, rc_byOpenstackRef = Map.empty \<rparr>"

section \<open>The caches\<close>

text \<open>The region without caches, and that the caches hold nothing else.\<close>

definition ref_region :: "region_server \<Rightarrow> string \<Rightarrow> string option \<Rightarrow> string option" where
  "ref_region srv ns ref = (if str_truthy ref then region_of_ref srv (ns, the ref) else None)"

definition template_region :: "region_server \<Rightarrow> string \<Rightarrow> string option \<Rightarrow> string option" where
  "template_region srv ns t = (if str_truthy t then Option.bind (rv_openstackRef srv (ns, the t)) (ref_region srv ns) else None)"

definition plan_region :: "region_server \<Rightarrow> string \<Rightarrow> string option \<Rightarrow> string option" where
  "plan_region srv ns p = (if str_truthy p then Option.bind (rv_planTemplate srv (ns, the p)) (template_region srv ns) else None)"

definition regions_right :: "region_server \<Rightarrow> region_caches \<Rightarrow> bool" where
  "regions_right srv c =
     ((\<forall>k r. rc_byPlan c k = Some r \<longrightarrow> r = Option.bind (rv_planTemplate srv k) (template_region srv (fst k))) \<and>
      (\<forall>k r. rc_byTemplate c k = Some r \<longrightarrow> r = Option.bind (rv_openstackRef srv k) (ref_region srv (fst k))) \<and>
      (\<forall>k r. rc_byOpenstackRef c k = Some r \<longrightarrow> r = region_of_ref srv k))"

lemma ref_lookup:
  assumes "regions_right srv c"
  shows "\<exists>c1. getRegionNameForOpenstackRef srv ref ns c = (ref_region srv ns ref, c1) \<and> regions_right srv c1"
  using assms by (auto simp: getRegionNameForOpenstackRef_def ref_region_def regions_right_def Let_def split: option.split)

lemma template_lookup:
  assumes "regions_right srv c"
  shows "\<exists>c1. getRegionNameForMigrationTemplate srv t ns c = (template_region srv ns t, c1) \<and> regions_right srv c1"
proof (cases "str_truthy t \<and> rc_byTemplate c (ns, the t) = None")
  case True
  then obtain ref c1 where "(case rv_openstackRef srv (ns, the t) of None \<Rightarrow> (None, c)
      | Some ref \<Rightarrow> getRegionNameForOpenstackRef srv ref ns c) = (template_region srv ns t, c1)" "regions_right srv c1"
    using ref_lookup [OF assms] assms by (cases "rv_openstackRef srv (ns, the t)") (auto simp: template_region_def)
  then show ?thesis
    using True template_region_def [of srv ns t] by (auto simp: getRegionNameForMigrationTemplate_def regions_right_def split: option.splits)
next
  case False
  then show ?thesis
    using assms by (auto simp: getRegionNameForMigrationTemplate_def template_region_def regions_right_def Let_def
        split: option.splits)
qed

lemma plan_lookup:
  assumes "regions_right srv c"
  shows "\<exists>c1. getRegionNameForMigrationPlan srv p ns c = (plan_region srv ns p, c1) \<and> regions_right srv c1"
proof (cases "str_truthy p \<and> rc_byPlan c (ns, the p) = None")
  case True
  then obtain c1 where "(case rv_planTemplate srv (ns, the p) of None \<Rightarrow> (None, c)
      | Some t \<Rightarrow> getRegionNameForMigrationTemplate srv t ns c) = (plan_region srv ns p, c1)" "regions_right srv c1"
    using template_lookup [OF assms] assms by (cases "rv_planTemplate srv (ns, the p)") (auto simp: plan_region_def)
  then show ?thesis
    using True plan_region_def [of srv ns p] by (auto simp: getRegionNameForMigrationPlan_def regions_right_def split: option.splits)
next
  case False
  then show ?thesis
    using assms by (auto simp: getRegionNameForMigrationPlan_def plan_region_def regions_right_def Let_def
        split: option.splits)
qed

text \<open>C40: while the server does not change, the caches are transparent: any sequence of lookups gives what each would give without
  them.\<close>

theorem region_caches_transparent:
  "fst (fold (\<lambda>(p, ns) (rs, c). let (r, c1) = getRegionNameForMigrationPlan srv p ns c in (rs @ [r], c1)) lookups ([], no_regions)) =
    map (\<lambda>(p, ns). plan_region srv ns p) lookups"
proof -
  have "regions_right srv no_regions"
    by (simp add: regions_right_def no_regions_def)
  moreover have "regions_right srv c \<Longrightarrow>
     fst (fold (\<lambda>(p, ns) (rs, c). let (r, c1) = getRegionNameForMigrationPlan srv p ns c in (rs @ [r], c1)) lookups (rs, c)) =
     rs @ map (\<lambda>(p, ns). plan_region srv ns p) lookups" for rs c
  proof (induction lookups arbitrary: rs c)
    case (Cons l ls)
    obtain p ns where l: "l = (p, ns)"
      by (cases l)
    obtain c1 where "getRegionNameForMigrationPlan srv p ns c = (plan_region srv ns p, c1)" "regions_right srv c1"
      using plan_lookup [OF Cons.prems] by blast
    then show ?case
      using Cons.IH [of c1] by (simp add: l)
  qed simp
  ultimately show ?thesis
    by simp
qed

text \<open>a lookup that fails is kept as well: the region of the plan stays unknown after the server has recovered.\<close>

theorem failed_lookup_is_kept:
  assumes "rv_planTemplate srv (ns, p) = None" "p \<noteq> []" "rc_byPlan c (ns, p) = None"
  shows "fst (getRegionNameForMigrationPlan later (Some p) ns (snd (getRegionNameForMigrationPlan srv (Some p) ns c))) = None"
  using assms by (simp add: getRegionNameForMigrationPlan_def str_truthy_def Let_def)

end
