(* ===== verification/Delete_Migrations.thy ===== *)
theory Delete_Migrations
  imports Js_Prelude
begin

text \<open>
  The deletion of migrations, \<open>ui/src/features/migration/hooks/useDeleteMigrations.ts\<close>: the machines are taken out of their
  plans, then the migrations are deleted. The plans are worked on at the same time; each task reads and writes only its own plan
  and migrations, so that the model runs one after the other, and all of them, as \<open>Promise.all\<close> does not stop the others.
\<close>

section \<open>The tasks\<close>

record deletable =
  dm_name :: string
  dm_migrationPlan :: "string option"
  dm_originalVmName :: "string option"
  dm_vmKey :: "string option"
  dm_vmName :: string

definition vm_key :: "deletable \<Rightarrow> string" where
  "vm_key m = str_or (dm_originalVmName m) (str_or (dm_vmKey m) (dm_vmName m))"

text \<open>The sets of the code list their elements as they came.\<close>

definition set_add :: "'a \<Rightarrow> 'a list \<Rightarrow> 'a list" where
  "set_add x xs = (if x \<in> set xs then xs else xs @ [x])"

record plan_task =
  pt_vmsToRemove :: "string list"
  pt_migrationsToDelete :: "string list"

definition no_task :: plan_task where
  "no_task = \<lparr> pt_vmsToRemove = [], pt_migrationsToDelete = [] \<rparr>"

definition add_to_task :: "deletable \<Rightarrow> plan_task \<Rightarrow> plan_task" where
  "add_to_task m t =
     \<lparr> pt_vmsToRemove = set_add (vm_key m) (pt_vmsToRemove t), pt_migrationsToDelete = set_add (dm_name m) (pt_migrationsToDelete t) \<rparr>"

definition group_one :: "deletable \<Rightarrow> plan_task sobj \<times> string list \<Rightarrow> plan_task sobj \<times> string list" where
  "group_one m g =
     (if \<not> str_truthy (dm_migrationPlan m) then (fst g, snd g @ [dm_name m])
      else (let planId = the (dm_migrationPlan m); t = (case map_of (fst g) planId of None \<Rightarrow> no_task | Some t \<Rightarrow> t)
            in (sobj_set planId (add_to_task m t) (fst g), snd g)))"

definition group_by_plan :: "deletable list \<Rightarrow> plan_task sobj \<times> string list" where
  "group_by_plan ms = fold group_one ms ([], [])"

text \<open>The server: plans with the batches of their machines, and migrations; which requests it grants.\<close>

record delete_server =
  sv_plans :: "string \<Rightarrow> string list list option option"
  sv_migrations :: "string set"

record delete_answers =
  da_get :: "string \<Rightarrow> bool"
  da_patch :: "string \<Rightarrow> bool"
  da_delete :: "string \<Rightarrow> bool"

definition delete_names :: "delete_answers \<Rightarrow> string list \<Rightarrow> delete_server \<Rightarrow> delete_server \<times> bool" where
  "delete_names a names s =
     (s \<lparr> sv_migrations := sv_migrations s - {n \<in> set names. da_delete a n} \<rparr>, list_all (da_delete a) names)"

definition first_batch :: "string list list option \<Rightarrow> string list" where
  "first_batch v = (case v of Some (b # _) \<Rightarrow> b | _ \<Rightarrow> [])"

definition run_task :: "delete_answers \<Rightarrow> string \<times> plan_task \<Rightarrow> delete_server \<Rightarrow> delete_server \<times> bool" where
  "run_task a pt s =
     (let (planId, t) = pt
      in case sv_plans s planId of
           None \<Rightarrow> (s, False)
         | Some v \<Rightarrow>
             if \<not> da_get a planId \<or> \<not> da_patch a planId then (s, False)
             else (let updatedVMs = filter (\<lambda>vm. vm \<notin> set (pt_vmsToRemove t)) (first_batch v)
                   in delete_names a (pt_migrationsToDelete t) (s \<lparr> sv_plans := (sv_plans s)(planId \<mapsto> Some [updatedVMs]) \<rparr>)))"

definition run_tasks :: "delete_answers \<Rightarrow> plan_task sobj \<Rightarrow> delete_server \<times> bool \<Rightarrow> delete_server \<times> bool" where
  "run_tasks a tasks st = fold (\<lambda>pt (s, ok). let (s1, ok1) = run_task a pt s in (s1, ok \<and> ok1)) tasks st"

definition deleteMigrations :: "delete_answers \<Rightarrow> deletable list \<Rightarrow> delete_server \<Rightarrow> delete_server \<times> bool" where
  "deleteMigrations a migrations s =
     (let (byPlan, noPlanNames) = group_by_plan migrations; (s1, ok1) = run_tasks a byPlan (s, True);
          (s2, ok2) = delete_names a noPlanNames s1
      in (s2, ok1 \<and> ok2))"

section \<open>What the tasks are\<close>

lemma set_set_add [simp]: "set (set_add x xs) = insert x (set xs)"
  by (auto simp: set_add_def)

definition of_plan :: "string \<Rightarrow> deletable \<Rightarrow> bool" where
  "of_plan p m = (p \<noteq> [] \<and> dm_migrationPlan m = Some p)"

definition task_for :: "deletable list \<Rightarrow> string \<Rightarrow> plan_task option \<Rightarrow> bool" where
  "task_for ms p t =
     (case t of
        None \<Rightarrow> \<not> list_ex (of_plan p) ms
      | Some t \<Rightarrow> list_ex (of_plan p) ms \<and> set (pt_vmsToRemove t) = vm_key ` set (filter (of_plan p) ms) \<and>
                  set (pt_migrationsToDelete t) = dm_name ` set (filter (of_plan p) ms))"

lemma truthy_plan: "str_truthy (dm_migrationPlan m) \<longleftrightarrow> (\<exists>p. of_plan p m)"
  by (auto simp: of_plan_def str_truthy_def split: option.splits)

lemma group_snoc: "group_by_plan (ms @ [m]) = group_one m (group_by_plan ms)"
  by (simp add: group_by_plan_def)

lemma group_distinct: "distinct (map fst (fst (group_by_plan ms)))"
proof -
  have "obj_ok key_before (fst (group_by_plan ms))"
    by (induction ms rule: rev_induct)
      (auto simp: group_by_plan_def [of "[]"] group_snoc group_one_def Let_def skey.ok_Nil skey.ok_set)
  then show ?thesis
    by (simp add: obj_ok_def)
qed

lemma group_no_plan: "set (snd (group_by_plan ms)) = dm_name ` set (filter (\<lambda>m. \<not> str_truthy (dm_migrationPlan m)) ms)"
  by (induction ms rule: rev_induct) (auto simp: group_by_plan_def [of "[]"] group_snoc group_one_def Let_def)

lemma task_for_add:
  assumes "task_for ms p t" "of_plan p m"
  shows "task_for (ms @ [m]) p (Some (add_to_task m (case t of None \<Rightarrow> no_task | Some t \<Rightarrow> t)))"
  using assms by (auto simp: task_for_def add_to_task_def no_task_def list_ex_iff split: option.splits)

lemma task_for_other: "task_for ms p t \<Longrightarrow> \<not> of_plan p m \<Longrightarrow> task_for (ms @ [m]) p t"
  by (auto simp: task_for_def split: option.splits)

lemma group_tasks: "task_for ms p (map_of (fst (group_by_plan ms)) p)"
proof (induction ms rule: rev_induct)
  case Nil
  then show ?case
    by (simp add: group_by_plan_def task_for_def)
next
  case (snoc m ms)
  show ?case
  proof (cases "of_plan p m")
    case True
    then have "str_truthy (dm_migrationPlan m)" "dm_migrationPlan m = Some p"
      using truthy_plan by (auto simp: of_plan_def)
    then show ?thesis
      using task_for_add [OF snoc True] by (simp add: group_snoc group_one_def Let_def)
  next
    case False
    then show ?thesis
      using task_for_other [OF snoc False] by (auto simp: group_snoc group_one_def Let_def of_plan_def str_truthy_def split: option.splits)
  qed
qed

section \<open>What a deletion does\<close>

abbreviation all_granted :: delete_answers where
  "all_granted \<equiv> \<lparr> da_get = (\<lambda>_. True), da_patch = (\<lambda>_. True), da_delete = (\<lambda>_. True) \<rparr>"

lemma run_tasks_granted:
  assumes "distinct (map fst tasks)" "\<forall>p \<in> fst ` set tasks. sv_plans s p \<noteq> None"
  shows "run_tasks all_granted tasks (s, True) =
    (\<lparr> sv_plans = (\<lambda>p. case map_of tasks p of None \<Rightarrow> sv_plans s p
         | Some t \<Rightarrow> Some (Some [filter (\<lambda>vm. vm \<notin> set (pt_vmsToRemove t)) (first_batch (the (sv_plans s p)))])),
       sv_migrations = sv_migrations s - (\<Union>(p, t) \<in> set tasks. set (pt_migrationsToDelete t)) \<rparr>, True)"
  using assms
proof (induction tasks arbitrary: s)
  case (Cons e tasks)
  obtain p t where e: "e = (p, t)"
    by (cases e)
  obtain v where v: "sv_plans s p = Some v"
    using Cons.prems(2) e by auto
  let ?s = "\<lparr> sv_plans = (sv_plans s)(p \<mapsto> Some [filter (\<lambda>vm. vm \<notin> set (pt_vmsToRemove t)) (first_batch v)]),
     sv_migrations = sv_migrations s - set (pt_migrationsToDelete t) \<rparr>"
  have "run_task all_granted e s = (?s, True)"
    by (simp add: run_task_def e v delete_names_def list_all_iff)
  then have "run_tasks all_granted (e # tasks) (s, True) = run_tasks all_granted tasks (?s, True)"
    by (simp add: run_tasks_def)
  also have "\<dots> = (\<lparr> sv_plans = (\<lambda>q. case map_of tasks q of None \<Rightarrow> sv_plans ?s q
         | Some t \<Rightarrow> Some (Some [filter (\<lambda>vm. vm \<notin> set (pt_vmsToRemove t)) (first_batch (the (sv_plans ?s q)))])),
       sv_migrations = sv_migrations ?s - (\<Union>(p, t) \<in> set tasks. set (pt_migrationsToDelete t)) \<rparr>, True)"
    by (rule Cons.IH) (use Cons.prems in auto)
  finally show ?case
    using Cons.prems(1) e v by (auto simp: fun_eq_iff map_of_eq_None_iff image_iff split: option.splits dest: map_of_SomeD)
qed (simp add: run_tasks_def)

lemma tasks_read:
  assumes "(p, t) \<in> set (fst (group_by_plan ms))"
  shows "list_ex (of_plan p) ms" "set (pt_migrationsToDelete t) = dm_name ` set (filter (of_plan p) ms)"
    "set (pt_vmsToRemove t) = vm_key ` set (filter (of_plan p) ms)"
  using group_tasks [of ms p] map_of_is_SomeI [OF group_distinct assms] by (simp_all add: task_for_def)

lemma tasks_made: "list_ex (of_plan p) ms \<Longrightarrow> \<exists>t. (p, t) \<in> set (fst (group_by_plan ms))"
  using group_tasks [of ms p] by (auto simp: task_for_def dest: map_of_SomeD split: option.splits)

lemma tasks_names:
  "(\<Union>(p, t) \<in> set (fst (group_by_plan ms)). set (pt_migrationsToDelete t)) \<union> set (snd (group_by_plan ms)) = dm_name ` set ms"
proof -
  let ?names = "\<Union>(p, t) \<in> set (fst (group_by_plan ms)). set (pt_migrationsToDelete t)"
  have "dm_name m \<in> ?names" if m: "m \<in> set ms" "str_truthy (dm_migrationPlan m)" for m
  proof -
    obtain p where p: "of_plan p m"
      using m(2) truthy_plan by blast
    then obtain t where "(p, t) \<in> set (fst (group_by_plan ms))"
      using m(1) tasks_made [of p ms] by (auto simp: list_ex_iff)
    then show ?thesis
      using m(1) p tasks_read(2) [of p t ms] by auto
  qed
  moreover have "?names \<subseteq> dm_name ` set ms"
    using tasks_read(2) by fastforce
  ultimately show ?thesis
    unfolding group_no_plan by auto
qed

text \<open>C35: when the server grants every request, exactly the chosen migrations are deleted; a plan of one of them afterwards has one
  batch, its first without the machines of the chosen migrations, and the other plans are as before.\<close>

theorem deletion_result:
  assumes "\<And>m p. m \<in> set ms \<Longrightarrow> of_plan p m \<Longrightarrow> sv_plans s p \<noteq> None"
  shows "deleteMigrations all_granted ms s =
    (\<lparr> sv_plans = (\<lambda>p. if list_ex (of_plan p) ms
         then Some (Some [filter (\<lambda>vm. vm \<notin> vm_key ` set (filter (of_plan p) ms)) (first_batch (the (sv_plans s p)))])
         else sv_plans s p),
       sv_migrations = sv_migrations s - dm_name ` set ms \<rparr>, True)"
proof -
  let ?g = "group_by_plan ms"
  have plans: "(case map_of (fst ?g) p of None \<Rightarrow> sv_plans s p
         | Some t \<Rightarrow> Some (Some [filter (\<lambda>vm. vm \<notin> set (pt_vmsToRemove t)) (first_batch (the (sv_plans s p)))])) =
      (if list_ex (of_plan p) ms
       then Some (Some [filter (\<lambda>vm. vm \<notin> vm_key ` set (filter (of_plan p) ms)) (first_batch (the (sv_plans s p)))])
       else sv_plans s p)" for p
    using group_tasks [of ms p] by (cases "map_of (fst ?g) p") (simp_all add: task_for_def)
  have "run_tasks all_granted (fst ?g) (s, True) =
    (\<lparr> sv_plans = (\<lambda>p. case map_of (fst ?g) p of None \<Rightarrow> sv_plans s p
         | Some t \<Rightarrow> Some (Some [filter (\<lambda>vm. vm \<notin> set (pt_vmsToRemove t)) (first_batch (the (sv_plans s p)))])),
       sv_migrations = sv_migrations s - (\<Union>(p, t) \<in> set (fst ?g). set (pt_migrationsToDelete t)) \<rparr>, True)"
    using assms tasks_read(1) by (intro run_tasks_granted group_distinct) (fastforce simp: list_ex_iff)
  moreover have "sv_migrations s - (\<Union>(p, t) \<in> set (fst ?g). set (pt_migrationsToDelete t)) - set (snd ?g) =
      sv_migrations s - dm_name ` set ms"
    unfolding tasks_names [symmetric] by blast
  ultimately show ?thesis
    by (simp add: deleteMigrations_def delete_names_def plans list_all_iff case_prod_unfold)
qed

theorem deletion_result_witness:
  "sv_plans (fst (deleteMigrations all_granted
     [\<lparr> dm_name = ''m1'', dm_migrationPlan = Some ''p'', dm_originalVmName = None, dm_vmKey = Some ''vm1'', dm_vmName = ''VM 1'' \<rparr>]
     \<lparr> sv_plans = [''p'' \<mapsto> Some [[''vm1'', ''vm2'']]], sv_migrations = {''m1'', ''m2''} \<rparr>)) ''p'' = Some (Some [[''vm2'']])"
proof -
  let ?m = "\<lparr> dm_name = ''m1'', dm_migrationPlan = Some ''p'', dm_originalVmName = None, dm_vmKey = Some ''vm1'', dm_vmName = ''VM 1'' \<rparr>"
  let ?s = "\<lparr> sv_plans = [''p'' \<mapsto> Some [[''vm1'', ''vm2'']]], sv_migrations = {''m1'', ''m2''} \<rparr>"
  have "vm_key ?m = ''vm1''" "of_plan ''p'' ?m"
    by code_simp+
  moreover have "sv_plans ?s p \<noteq> None" if "m \<in> set [?m]" "of_plan p m" for m p
    using that by (simp add: of_plan_def)
  note deletion_result [of "[?m]" ?s, OF this]
  ultimately show ?thesis
    by (simp add: first_batch_def)
qed

text \<open>whatever the server answers, a migration stays when the update of its plan is refused: none is deleted whose machine is still in
  its plan.\<close>

theorem refused_plan_keeps_migrations:
  assumes "\<not> da_get a p \<or> \<not> da_patch a p" "n \<in> sv_migrations s" "\<And>m. m \<in> set ms \<Longrightarrow> dm_name m = n \<Longrightarrow> of_plan p m"
  shows "n \<in> sv_migrations (fst (deleteMigrations a ms s)) \<and> sv_plans (fst (deleteMigrations a ms s)) p = sv_plans s p"
proof -
  have one: "(n \<in> sv_migrations s \<longrightarrow> n \<in> sv_migrations (fst (run_task a qt s))) \<and> sv_plans (fst (run_task a qt s)) p = sv_plans s p"
    if "qt \<in> set (fst (group_by_plan ms))" for qt s
  proof (cases "fst qt = p")
    case True
    then show ?thesis
      using assms(1) by (auto simp: run_task_def split: prod.splits option.splits)
  next
    case False
    then have "n \<notin> set (pt_migrationsToDelete (snd qt))"
      using that tasks_read(2) [of "fst qt" "snd qt" ms] assms(3) by (auto simp: of_plan_def)
    then show ?thesis
      using False by (auto simp: run_task_def delete_names_def Let_def split: prod.splits option.splits)
  qed
  have "set ts \<subseteq> set (fst (group_by_plan ms)) \<Longrightarrow>
      (n \<in> sv_migrations s \<longrightarrow> n \<in> sv_migrations (fst (run_tasks a ts (s, ok)))) \<and> sv_plans (fst (run_tasks a ts (s, ok))) p = sv_plans s p"
    for ts ok
  proof (induction ts arbitrary: s ok)
    case (Cons t ts)
    then show ?case
      using one [of t s] by (cases "run_task a t s") (auto simp: run_tasks_def)
  qed (simp add: run_tasks_def)
  note all = this [OF subset_refl]
  have "n \<notin> set (snd (group_by_plan ms))"
    using assms(3) truthy_plan by (auto simp: group_no_plan)
  then show ?thesis
    using all [of True] assms(2) by (auto simp: deleteMigrations_def delete_names_def split: prod.splits)
qed

text \<open>A plan of several batches loses all but its first, machines that were not chosen included.\<close>

theorem other_batches_lost:
  "sv_plans (fst (deleteMigrations all_granted
     [\<lparr> dm_name = ''m1'', dm_migrationPlan = Some ''p'', dm_originalVmName = None, dm_vmKey = Some ''vm1'', dm_vmName = ''VM 1'' \<rparr>]
     \<lparr> sv_plans = [''p'' \<mapsto> Some [[''vm1''], [''vm2'']]], sv_migrations = {''m1'', ''m2''} \<rparr>)) ''p'' = Some (Some [[]])"
  by (simp add: deleteMigrations_def group_by_plan_def group_one_def add_to_task_def set_add_def vm_key_def no_task_def run_tasks_def
      run_task_def delete_names_def first_batch_def str_truthy_def str_or_def Let_def)

end
