(* ===== verification/Rc_File.thy ===== *)
theory Rc_File
  imports Js_Prelude Ip_Validation
begin

text \<open>
  The files with the credentials of OpenStack, \<open>ui/src/utils/openstackRCFileParser.ts\<close>: the lines of a shell script that set
  variables, and which variables have to be there.
\<close>

section \<open>Parsing\<close>

text \<open>\<open>replace(/^export\\s+/gm, '')\<close>: at the start of a line, the word and the blanks after it, which may go on over the ends of lines.\<close>

definition drop_export :: "string \<Rightarrow> string" where
  "drop_export s =
     (let r = drop 6 s
      in if starts_with s ''export'' \<and> r \<noteq> [] \<and> js_space (hd r) then dropWhile js_space r else s)"

lemma drop_export_shorter: "drop_export s \<noteq> s \<Longrightarrow> length (drop_export s) < length s"
proof -
  assume "drop_export s \<noteq> s"
  then have e: "drop_export s = dropWhile js_space (drop 6 s)" and s: "drop 6 s \<noteq> []"
    by (auto simp: drop_export_def Let_def split: if_splits)
  have "length (dropWhile js_space (drop 6 s)) \<le> length (drop 6 s)"
    by (rule length_dropWhile_le)
  also have "\<dots> < length s"
    using s by (cases "length s > 6") auto
  finally show ?thesis
    by (simp add: e)
qed

text \<open>Where a match has taken the end of a line the next line has begun; the pattern is tried there only if the blanks end with it.\<close>

function strip_exports :: "bool \<Rightarrow> string \<Rightarrow> string" where
  "strip_exports line_start s =
     (case s of
        [] \<Rightarrow> []
      | c # r \<Rightarrow>
          if line_start \<and> drop_export s \<noteq> s
          then (let d = drop_export s; taken = take (length s - length d) s
                in if d = [] then [] else strip_exports (last taken = CHR 0x0A \<or> last taken = CHR 0x0D) d)
          else c # strip_exports (c = CHR 0x0A \<or> c = CHR 0x0D) r)"
  by pat_completeness auto

termination
  by (relation "measure (length \<circ> snd)") (auto dest: drop_export_shorter)

declare strip_exports.simps [simp del]

definition unquote :: "string \<Rightarrow> string" where
  "unquote v =
     (if v \<noteq> [] \<and> (hd v = CHR 0x22 \<and> last v = CHR 0x22 \<or> hd v = CHR 0x27 \<and> last v = CHR 0x27) then tl (butlast v) else v)"

definition parse_line :: "string \<Rightarrow> (string \<times> string) option" where
  "parse_line line =
     (let trimmed = js_trim line; key = takeWhile (\<lambda>c. c \<noteq> CHR ''='') trimmed
      in if trimmed = [] then None
         else if hd trimmed = CHR ''#'' then None
         else if CHR ''='' \<notin> set trimmed then None
         else Some (js_trim key, unquote (js_trim (drop (Suc (length key)) trimmed))))"

definition parse_lines :: "string \<Rightarrow> string sobj" where
  "parse_lines content =
     fold (\<lambda>line m. case parse_line line of None \<Rightarrow> m | Some (k, v) \<Rightarrow> sobj_set k v m)
       (split_on (CHR 0x0A) (strip_exports True content)) []"

definition add_alias :: "string \<Rightarrow> string \<Rightarrow> string sobj \<Rightarrow> string sobj" where
  "add_alias alias name m =
     (if str_truthy (map_of m alias) \<and> \<not> str_truthy (map_of m name) then sobj_set name (the (map_of m alias)) m else m)"

definition parseRCFileContent :: "string \<Rightarrow> string sobj" where
  "parseRCFileContent content =
     add_alias ''OS_PROJECT_NAME'' ''OS_TENANT_NAME''
       (add_alias ''OS_PROJECT_DOMAIN_NAME'' ''OS_DOMAIN_NAME'' (parse_lines content))"

section \<open>Validation\<close>

definition COMMON_REQUIRED_FIELDS :: "string list" where
  "COMMON_REQUIRED_FIELDS = [''OS_AUTH_URL'', ''OS_REGION_NAME'', ''OS_TENANT_NAME'']"

definition PASSWORD_AUTH_REQUIRED_FIELDS :: "string list" where
  "PASSWORD_AUTH_REQUIRED_FIELDS = [''OS_USERNAME'', ''OS_PASSWORD'', ''OS_DOMAIN_NAME'']"

definition TOKEN_AUTH_REQUIRED_FIELD :: string where
  "TOKEN_AUTH_REQUIRED_FIELD = ''OS_AUTH_TOKEN''"

definition has_field :: "string sobj \<Rightarrow> string \<Rightarrow> bool" where
  "has_field vars k = (case map_of vars k of None \<Rightarrow> False | Some v \<Rightarrow> js_trim v \<noteq> [])"

definition validateRCFileFields :: "string sobj \<Rightarrow> bool \<times> string list" where
  "validateRCFileFields vars =
     (let missing = filter (\<lambda>k. \<not> has_field vars k) COMMON_REQUIRED_FIELDS;
          hasToken = has_field vars TOKEN_AUTH_REQUIRED_FIELD; hasUsername = has_field vars ''OS_USERNAME'';
          hasPassword = has_field vars ''OS_PASSWORD'';
          missingFields = missing @
            (if hasToken then []
             else if hasUsername \<and> hasPassword then filter (\<lambda>k. \<not> has_field vars k) PASSWORD_AUTH_REQUIRED_FIELDS
             else if hasUsername \<or> hasPassword then [if hasUsername then ''OS_PASSWORD'' else ''OS_USERNAME'']
             else [''OS_AUTH_TOKEN or (OS_USERNAME and OS_PASSWORD)''])
      in (missingFields = [], missingFields))"

text \<open>The result of reading a file, whose content is missing when it cannot be read.\<close>

definition parseRCFile :: "string option \<Rightarrow> string + string sobj" where
  "parseRCFile file =
     (case file of
        None \<Rightarrow> Inl ''Failed to read the file. Please try again.''
      | Some content \<Rightarrow>
          (let vars = parseRCFileContent content; (valid, missingFields) = validateRCFileFields vars
           in if valid then Inr vars else Inl (''Missing required fields: '' @ js_join '', '' missingFields)))"

lemma accepted_fields:
  "fst (validateRCFileFields vars) \<longleftrightarrow>
     has_field vars ''OS_AUTH_URL'' \<and> has_field vars ''OS_REGION_NAME'' \<and> has_field vars ''OS_TENANT_NAME'' \<and>
     (has_field vars ''OS_AUTH_TOKEN'' \<or>
      has_field vars ''OS_USERNAME'' \<and> has_field vars ''OS_PASSWORD'' \<and> has_field vars ''OS_DOMAIN_NAME'')"
  by (auto simp: validateRCFileFields_def COMMON_REQUIRED_FIELDS_def PASSWORD_AUTH_REQUIRED_FIELDS_def TOKEN_AUTH_REQUIRED_FIELD_def
      Let_def)

text \<open>a file is accepted exactly when it names the address, the region and the tenant and either a token or user, password and
  domain; no name is reported twice as missing.\<close>

theorem rc_file_accepted_iff:
  "(fst (validateRCFileFields vars) \<longleftrightarrow>
      has_field vars ''OS_AUTH_URL'' \<and> has_field vars ''OS_REGION_NAME'' \<and> has_field vars ''OS_TENANT_NAME'' \<and>
      (has_field vars ''OS_AUTH_TOKEN'' \<or>
       has_field vars ''OS_USERNAME'' \<and> has_field vars ''OS_PASSWORD'' \<and> has_field vars ''OS_DOMAIN_NAME'')) \<and>
   distinct (snd (validateRCFileFields vars))"
  by (auto simp: accepted_fields) (auto simp: validateRCFileFields_def COMMON_REQUIRED_FIELDS_def PASSWORD_AUTH_REQUIRED_FIELDS_def TOKEN_AUTH_REQUIRED_FIELD_def
      Let_def)

section \<open>What a file says\<close>

text \<open>
  The lines a file may have, described apart from the parser: blanks, remarks, and settings, exported or not, with a value that
  stands alone or in quotes of either kind. A value is taken as it stands: nothing is escaped or substituted in it.
\<close>

datatype rc_quoting = Alone | Double | Single

datatype rc_entry = Blanks string | Remark string | Setting bool rc_quoting string string

definition rc_value :: "rc_quoting \<Rightarrow> string \<Rightarrow> string" where
  "rc_value q v = (case q of Alone \<Rightarrow> v | Double \<Rightarrow> CHR 0x22 # v @ [CHR 0x22] | Single \<Rightarrow> CHR 0x27 # v @ [CHR 0x27])"

definition rc_line :: "rc_entry \<Rightarrow> string" where
  "rc_line e =
     (case e of
        Blanks w \<Rightarrow> w
      | Remark w \<Rightarrow> CHR ''#'' # w
      | Setting exported q k v \<Rightarrow> (if exported then ''export '' else []) @ k @ ''='' @ rc_value q v)"

definition one_line :: "string \<Rightarrow> bool" where
  "one_line w = (CHR 0x0A \<notin> set w \<and> CHR 0x0D \<notin> set w)"

definition in_quotes :: "string \<Rightarrow> bool" where
  "in_quotes v = (v \<noteq> [] \<and> hd v = last v \<and> (hd v = CHR 0x22 \<or> hd v = CHR 0x27))"

text \<open>Names have no blanks and no equals sign and are no remark; a value that stands alone neither begins nor ends with a blank.\<close>

definition rc_fine :: "rc_entry \<Rightarrow> bool" where
  "rc_fine e =
     (case e of
        Blanks w \<Rightarrow> js_blank w \<and> one_line w
      | Remark w \<Rightarrow> one_line w
      | Setting _ q k v \<Rightarrow>
          k \<noteq> [] \<and> hd k \<noteq> CHR ''#'' \<and> list_all (\<lambda>c. \<not> js_space c \<and> c \<noteq> CHR ''='') k \<and> one_line v \<and>
          (q = Alone \<longrightarrow> (v = [] \<or> \<not> js_space (hd v) \<and> \<not> js_space (last v)) \<and> \<not> in_quotes v))"

definition rc_settings :: "rc_entry list \<Rightarrow> (string \<times> string) list" where
  "rc_settings es = concat (map (\<lambda>e. case e of Setting _ _ k v \<Rightarrow> [(k, v)] | _ \<Rightarrow> []) es)"

definition rc_text :: "rc_entry list \<Rightarrow> string" where
  "rc_text es = js_join [CHR 0x0A] (map rc_line es)"

text \<open>The last setting of a name counts. The domain and the tenant, where they have no value, are those of the project.\<close>

definition rc_meaning :: "rc_entry list \<Rightarrow> string \<rightharpoonup> string" where
  "rc_meaning es k =
     (let m = map_of (rev (rc_settings es)); set_to = (\<lambda>k. m k \<noteq> None \<and> m k \<noteq> Some [])
      in if k = ''OS_DOMAIN_NAME'' \<and> \<not> set_to k \<and> set_to ''OS_PROJECT_DOMAIN_NAME'' then m ''OS_PROJECT_DOMAIN_NAME''
         else if k = ''OS_TENANT_NAME'' \<and> \<not> set_to k \<and> set_to ''OS_PROJECT_NAME'' then m ''OS_PROJECT_NAME''
         else m k)"

definition bare_entry :: "rc_entry \<Rightarrow> rc_entry" where
  "bare_entry e = (case e of Setting _ q k v \<Rightarrow> Setting False q k v | _ \<Rightarrow> e)"

lemma strip_more [simp]:
  "strip_exports False (c # r) = c # strip_exports (c = CHR 0x0A \<or> c = CHR 0x0D) r" "strip_exports b [] = []"
  by (simp_all add: strip_exports.simps)

lemma strip_line:
  assumes "one_line w"
  shows "strip_exports False (w @ CHR 0x0A # s) = w @ CHR 0x0A # strip_exports True s" "strip_exports False w = w"
  using assms by (induction w) (auto simp: one_line_def simp del: strip_exports.simps)

lemma strip_export:
  assumes "k \<noteq> []" "\<not> js_space (hd k)"
  shows "strip_exports True (''export '' @ k) = strip_exports False k"
proof -
  have "dropWhile js_space k = k"
    using assms by (cases k) auto
  then have d: "drop_export (''export '' @ k) = k"
    by (simp add: drop_export_def starts_with_def js_space_def)
  then show ?thesis
    using assms(1) by (subst strip_exports.simps) (simp add: d [simplified])
qed

lemma strip_other: "drop_export s = s \<Longrightarrow> strip_exports True s = strip_exports False s"
  by (cases s) (simp_all add: strip_exports.simps [of True])

text \<open>The word \<open>export\<close> is dropped only before a blank.\<close>

lemma export_kept:
  assumes "list_all (\<lambda>c. \<not> js_space c \<and> c \<noteq> CHR ''='') k"
  shows "drop_export (k @ ''='' @ r) = k @ ''='' @ r"
proof (cases "starts_with (k @ ''='' @ r) ''export''")
  case True
  then have t: "take 6 (k @ ''='' @ r) = ''export''" by (simp add: starts_with_def eval_nat_numeral)
  have "6 \<le> length k"
  proof (rule ccontr)
    assume "\<not> 6 \<le> length k"
    then have "CHR ''='' \<in> set (take 6 (k @ ''='' @ r))" by (cases "6 - length k") auto
    then show False unfolding t by simp
  qed
  then have "drop 6 (k @ ''='' @ r) = drop 6 k @ ''='' @ r" by simp
  moreover have "\<not> js_space (hd (drop 6 k @ ''='' @ r))"
  proof (cases "drop 6 k")
    case (Cons c r)
    then have "c \<in> set k" using in_set_dropD [of c 6 k] by simp
    then show ?thesis using assms Cons by (simp add: list_all_iff)
  qed (simp add: js_space_def)
  ultimately show ?thesis by (simp add: drop_export_def Let_def)
qed (simp add: drop_export_def)

lemma bare_one_line: "rc_fine e \<Longrightarrow> one_line (rc_line (bare_entry e))"
proof -
  have "js_space (CHR 0x0A)" "js_space (CHR 0x0D)" by (simp_all add: js_space_def)
  then show "rc_fine e \<Longrightarrow> ?thesis"
    by (cases e) (auto simp: rc_fine_def bare_entry_def rc_line_def one_line_def rc_value_def list_all_iff split: rc_quoting.splits)
qed

lemma strip_entry:
  assumes "rc_fine e" "s = [] \<or> hd s = CHR 0x0A"
  shows "strip_exports True (rc_line e @ s) = strip_exports False (rc_line (bare_entry e) @ s)"
proof (cases e)
  case (Blanks w)
  then have "drop_export (w @ s) = w @ s"
    using assms by (cases w; cases s) (auto simp: rc_fine_def js_blank_def drop_export_def starts_with_def js_space_def)
  then show ?thesis using Blanks strip_other by (simp add: rc_line_def bare_entry_def)
next
  case (Remark w)
  then show ?thesis by (simp add: rc_line_def bare_entry_def strip_other drop_export_def starts_with_def)
next
  case (Setting exported q k v)
  then have k: "k \<noteq> []" "list_all (\<lambda>c. \<not> js_space c \<and> c \<noteq> CHR ''='') k" "\<not> js_space (hd k)"
    using assms(1) by (auto simp: rc_fine_def list_all_iff)
  show ?thesis
    using Setting k strip_export [of "k @ ''='' @ rc_value q v @ s"] strip_other [OF export_kept [OF k(2), of "rc_value q v @ s"]]
    by (simp add: rc_line_def bare_entry_def)
qed

lemma strip_text:
  "list_all rc_fine es \<Longrightarrow> strip_exports True (rc_text es) = rc_text (map bare_entry es)"
proof (induction es rule: induct_list012)
  case (2 e)
  then show ?case using strip_entry [of e "[]"] strip_line(2) [OF bare_one_line] by (simp add: rc_text_def)
next
  case (3 e e' es)
  then show ?case
    using strip_entry [of e "CHR 0x0A # rc_text (e' # es)"] strip_line(1) [OF bare_one_line, of e] by (simp add: rc_text_def)
qed (simp add: rc_text_def)

lemma unquote_value:
  "rc_fine (Setting b q k v) \<Longrightarrow> unquote (js_trim (rc_value q v)) = v"
proof -
  have quote: "\<not> js_space (CHR 0x22)" "\<not> js_space (CHR 0x27)" by (simp_all add: js_space_def)
  assume fine: "rc_fine (Setting b q k v)"
  have "js_trim (rc_value q v) = rc_value q v"
    using fine quote by (intro js_trim_id) (cases q; auto simp: rc_value_def rc_fine_def)
  then show ?thesis
    using fine by (cases q) (auto simp: rc_value_def rc_fine_def unquote_def in_quotes_def)
qed

lemma dropWhile_stops: "\<not> P y \<Longrightarrow> dropWhile P (xs @ y # ys) = dropWhile P xs @ y # ys"
  by (induction xs) auto

lemma trim_hash: "\<exists>r. js_trim (CHR ''#'' # w) = CHR ''#'' # r"
proof -
  have "\<not> js_space (CHR ''#'')" by (simp add: js_space_def)
  then show ?thesis by (simp add: js_trim_def dropWhile_stops)
qed

lemma trim_setting:
  assumes "k \<noteq> []" "\<not> js_space (hd k)"
  shows "js_trim (k @ ''='' @ w) = k @ ''='' @ rev (dropWhile js_space (rev w))"
proof -
  have "\<not> js_space (CHR ''='')" by (simp add: js_space_def)
  moreover have "dropWhile js_space (k @ ''='' @ w) = k @ ''='' @ w" using assms by (cases k) auto
  ultimately show ?thesis by (simp add: js_trim_def dropWhile_stops)
qed

lemma parse_entry:
  assumes "rc_fine e"
  shows "parse_line (rc_line (bare_entry e)) = (case e of Setting _ _ k v \<Rightarrow> Some (k, v) | _ \<Rightarrow> None)"
proof (cases e)
  case (Blanks w)
  then show ?thesis using assms by (simp add: parse_line_def rc_line_def bare_entry_def rc_fine_def js_trim_nil_iff)
next
  case (Remark w)
  obtain r where "js_trim (CHR ''#'' # w) = CHR ''#'' # r" using trim_hash by blast
  then show ?thesis using Remark by (simp add: parse_line_def rc_line_def bare_entry_def)
next
  case (Setting exported q k v)
  then have k: "k \<noteq> []" "\<not> js_space (hd k)" "\<not> js_space (last k)" "\<forall>c \<in> set k. c \<noteq> CHR ''=''" "hd k \<noteq> CHR ''#''"
    using assms by (auto simp: rc_fine_def list_all_iff)
  have kept: "rev (dropWhile js_space (rev (rc_value q v))) = rc_value q v"
  proof -
    have "\<not> js_space (CHR 0x22)" "\<not> js_space (CHR 0x27)" by (simp_all add: js_space_def)
    then show ?thesis
      using assms Setting by (cases q; cases v rule: rev_cases) (auto simp: rc_value_def rc_fine_def)
  qed
  have "js_trim (rc_line (bare_entry e)) = k @ ''='' @ rc_value q v"
    using trim_setting [OF k(1,2), of "rc_value q v"] Setting kept by (simp add: rc_line_def bare_entry_def)
  moreover have "takeWhile (\<lambda>c. c \<noteq> CHR ''='') (k @ ''='' @ rc_value q v) = k"
    using k(4) by simp
  moreover have "js_trim k = k" using k by (intro js_trim_id) simp
  moreover have "unquote (js_trim (rc_value q v)) = v"
    using assms unfolding Setting by (rule unquote_value)
  ultimately show ?thesis using k Setting by (simp add: parse_line_def Let_def)
qed

lemma parse_entries:
  assumes "list_all rc_fine es"
  shows "fold (\<lambda>line m. case parse_line line of None \<Rightarrow> m | Some (k, v) \<Rightarrow> sobj_set k v m) (map (\<lambda>e. rc_line (bare_entry e)) es) m =
    fold (\<lambda>(k, v). sobj_set k v) (rc_settings es) m"
  using assms by (induction es arbitrary: m) (auto simp: parse_entry rc_settings_def split: rc_entry.split)

lemma map_of_fold_set: "map_of (fold (\<lambda>(k, v). sobj_set k v) kvs m) = map_of m ++ map_of (rev kvs)"
  using map_of_obj_merge [of key_before m kvs] by (simp add: obj_merge_def)

lemma parse_text:
  assumes "list_all rc_fine es"
  shows "map_of (parse_lines (rc_text es)) = map_of (rev (rc_settings es))"
proof (cases "es = []")
  case True
  then show ?thesis by (simp add: parse_lines_def rc_text_def rc_settings_def parse_line_def)
next
  case False
  have "list_all (\<lambda>w. CHR 0x0A \<notin> set w) (map (\<lambda>e. rc_line (bare_entry e)) es)"
    using assms bare_one_line by (auto simp: list_all_iff one_line_def)
  then have "split_on (CHR 0x0A) (rc_text (map bare_entry es)) = map (\<lambda>e. rc_line (bare_entry e)) es"
    unfolding rc_text_def using False by (simp add: comp_def split_on_join)
  then have "parse_lines (rc_text es) = fold (\<lambda>(k, v). sobj_set k v) (rc_settings es) []"
    by (simp only: parse_lines_def strip_text [OF assms] parse_entries [OF assms])
  then show ?thesis by (simp add: map_of_fold_set)
qed

lemma parse_content:
  assumes "list_all rc_fine es"
  shows "map_of (parseRCFileContent (rc_text es)) = rc_meaning es"
  using parse_text [OF assms]
  by (auto simp: parseRCFileContent_def add_alias_def rc_meaning_def str_truthy_def Let_def fun_eq_iff split: option.splits)

text \<open>A setting that is there and is not blank.\<close>

definition rc_given :: "rc_entry list \<Rightarrow> string \<Rightarrow> bool" where
  "rc_given es k = (\<exists>v. rc_meaning es k = Some v \<and> \<not> js_blank v)"

definition rc_complete :: "rc_entry list \<Rightarrow> bool" where
  "rc_complete es =
     (rc_given es ''OS_AUTH_URL'' \<and> rc_given es ''OS_REGION_NAME'' \<and> rc_given es ''OS_TENANT_NAME'' \<and>
      (rc_given es ''OS_AUTH_TOKEN'' \<or>
       rc_given es ''OS_USERNAME'' \<and> rc_given es ''OS_PASSWORD'' \<and> rc_given es ''OS_DOMAIN_NAME''))"

lemma has_given: "map_of vars = rc_meaning es \<Longrightarrow> has_field vars k = rc_given es k"
  by (simp add: has_field_def rc_given_def js_trim_nil_iff split: option.split)

text \<open>C39: a file of blank lines, remarks and settings, exported or not, whose values stand alone or in quotes of either kind, is
  accepted exactly when it gives the address, the region and the tenant, and a token or user, password and domain. What
  is read is then what the file says: of a name that is set several times the last value, as it stands without its quotes,
  and for a domain or tenant without a value that of the project. Names have no blank and no equals sign and values no end of
  a line; the parser undoes no escapes, so that a value with a backslash keeps it.\<close>

theorem rc_file_read:
  assumes "list_all rc_fine es"
  shows "case parseRCFile (Some (rc_text es)) of
      Inr vars \<Rightarrow> map_of vars = rc_meaning es \<and> rc_complete es
    | Inl _ \<Rightarrow> \<not> rc_complete es"
proof -
  have fields: "has_field (parseRCFileContent (rc_text es)) k = rc_given es k" for k
    by (rule has_given) (rule parse_content [OF assms])
  have "fst (validateRCFileFields (parseRCFileContent (rc_text es))) = rc_complete es"
    unfolding rc_complete_def fields [symmetric] by (rule accepted_fields)
  then show ?thesis
    using parse_content [OF assms] by (auto simp: parseRCFile_def Let_def split: prod.split)
qed

definition rc_sample :: "rc_entry list" where
  "rc_sample =
     [Remark '' PCD'', Setting True Double ''OS_AUTH_URL'' ''https://pcd.example.com/v3?a=b'', Blanks [],
      Setting False Alone ''OS_REGION_NAME'' ''RegionOne'', Setting True Single ''OS_PROJECT_NAME'' ''service'',
      Setting True Double ''OS_TENANT_NAME'' [], Setting True Alone ''OS_AUTH_TOKEN'' ''gAAA='']"

theorem rc_file_read_witness:
  "rc_complete rc_sample \<and> (case parseRCFile (Some (rc_text rc_sample)) of Inr vars \<Rightarrow> map_of vars = rc_meaning rc_sample | Inl _ \<Rightarrow> False)"
proof -
  have "list_all rc_fine rc_sample" by code_simp
  moreover have "rc_meaning rc_sample ''OS_AUTH_URL'' = Some ''https://pcd.example.com/v3?a=b''"
    "rc_meaning rc_sample ''OS_REGION_NAME'' = Some ''RegionOne''" "rc_meaning rc_sample ''OS_TENANT_NAME'' = Some ''service''"
    "rc_meaning rc_sample ''OS_AUTH_TOKEN'' = Some ''gAAA=''"
    by code_simp+
  then have "rc_complete rc_sample"
    by (simp add: rc_complete_def rc_given_def js_blank_def js_space_def)
  ultimately show ?thesis using rc_file_read [of rc_sample] by (simp split: sum.splits)
qed

end
