(* ===== verification/Template_Labels.thy ===== *)
theory Template_Labels
  imports Template_Store
begin

text \<open>
  What the cards and the drawer say of a saved template, \<open>ui/src/features/migration/utils/templateLabels.ts\<close>: labels, the rows of
  its mappings and the rows of its advanced options.
\<close>

section \<open>Labels\<close>

definition DATA_COPY_METHOD_LABEL :: "string \<Rightarrow> string option" where
  "DATA_COPY_METHOD_LABEL = map_of [(''hot'', ''Hot''), (''cold'', ''Cold''), (''mock'', ''Mock'')]"

definition CUTOVER_OPTION_LABEL :: "string \<Rightarrow> string option" where
  "CUTOVER_OPTION_LABEL =
     map_of [(CUTOVER_IMMEDIATE, ''Immediate cutover''), (CUTOVER_ADMIN_INITIATED, ''Admin cutover''),
       (CUTOVER_TIME_WINDOW, ''Time window cutover'')]"

definition cutoverOptionLabel :: "string option \<Rightarrow> string" where
  "cutoverOptionLabel v =
     (if \<not> str_truthy v then ''Immediate cutover''
      else case CUTOVER_OPTION_LABEL (the v) of None \<Rightarrow> ''Immediate cutover'' | Some l \<Rightarrow> l)"

definition guestOsLabel :: "string option \<Rightarrow> string" where
  "guestOsLabel v = (case Option.bind v (map_of OS_TYPES_OPTIONS) of None \<Rightarrow> ''Auto-detect'' | Some l \<Rightarrow> l)"

definition storageCopyMethodLabel :: "string option \<Rightarrow> string option" where
  "storageCopyMethodLabel v = Option.bind v (map_of STORAGE_COPY_METHOD_OPTIONS)"

definition hex_char :: "char \<Rightarrow> bool" where
  "hex_char c = (c \<in> set ''0123456789abcdefABCDEF'')"

text \<open>\<open>replace(/-[0-9a-f]{5}$/i, '')\<close>\<close>

definition strip_hash :: "string \<Rightarrow> string" where
  "strip_hash s =
     (let n = length s - 6; t = drop n s
      in if length t = 6 \<and> hd t = CHR ''-'' \<and> list_all hex_char (tl t) then take n s else s)"

definition sourceClusterLabel :: "string option \<Rightarrow> (string \<Rightarrow> string option) \<Rightarrow> string option" where
  "sourceClusterLabel sourceCluster clusterNameLookup =
     (if \<not> str_truthy sourceCluster then sourceCluster
      else (let raw = the sourceCluster; resolved = clusterNameLookup raw
            in if str_truthy resolved then resolved
               else if starts_with (js_lower raw) ''no-cluster'' then Some ''No cluster'' else Some (strip_hash raw)))"

section \<open>Rows\<close>

datatype mapping_kind = NetworkRow | StorageRow | StorageArrayRow

record TemplateMappingRow =
  mr_kind :: mapping_kind
  mr_source :: string
  mr_target :: string

definition mapping_row :: "mapping_kind \<Rightarrow> ResourceMap \<Rightarrow> TemplateMappingRow" where
  "mapping_row k m = \<lparr> mr_kind = k, mr_source = rm_source m, mr_target = rm_target m \<rparr>"

definition buildTemplateMappingRows :: "SavedTemplate \<Rightarrow> TemplateMappingRow list" where
  "buildTemplateMappingRows t =
     map (mapping_row NetworkRow) (sv_networkMappings t) @ map (mapping_row StorageRow) (sv_storageMappings t) @
     map (mapping_row StorageArrayRow) (sv_arrayCredsMappings t)"

definition countTemplateMappings :: "SavedTemplate \<Rightarrow> nat" where
  "countTemplateMappings t =
     length (sv_networkMappings t) + length (sv_storageMappings t) + length (sv_arrayCredsMappings t)"

text \<open>Rows of label and value; \<open>groups\<close> gives the names of security groups and server groups, where they are known.\<close>

record group_names =
  gn_securityGroups :: "string \<Rightarrow> string option"
  gn_serverGroups :: "string \<Rightarrow> string option"

definition name_of :: "(string \<Rightarrow> string option) \<Rightarrow> string \<Rightarrow> string" where
  "name_of lookup i = (case lookup i of None \<Rightarrow> i | Some n \<Rightarrow> n)"

definition row_if :: "bool \<Rightarrow> string \<Rightarrow> string \<Rightarrow> (string \<times> string) list" where
  "row_if b label val = (if b then [(label, val)] else [])"

definition is_set :: "bool option \<Rightarrow> bool" where
  "is_set v = (v = Some True)"

definition buildAdvancedOptionRows :: "SavedTemplate \<Rightarrow> group_names \<Rightarrow> (string \<times> string) list" where
  "buildAdvancedOptionRows t groups =
     (let action = sv_postMigrationAction t;
          suffix = Option.bind action pm_suffix; folder = Option.bind action pm_folderName;
          health = Option.bind (bp_migrationStrategy (sv_spec t)) bs_performHealthChecks
      in row_if (sv_serverGroup t \<noteq> []) ''Server group'' (name_of (gn_serverGroups groups) (sv_serverGroup t)) @
         row_if (sv_securityGroups t \<noteq> []) ''Security groups''
           (js_join '', '' (map (name_of (gn_securityGroups groups)) (sv_securityGroups t))) @
         row_if (sv_imageProfiles t \<noteq> []) ''Image profiles'' (js_join '', '' (sv_imageProfiles t)) @
         row_if (sv_dataCopyStartTime t \<noteq> []) ''Data copy starts'' (sv_dataCopyStartTime t) @
         row_if (sv_cutoverStartTime t \<noteq> []) ''Cutover window starts'' (sv_cutoverStartTime t) @
         row_if (sv_cutoverEndTime t \<noteq> []) ''Cutover window ends'' (sv_cutoverEndTime t) @
         row_if (sv_dataOnly t) ''Data only (no VM creation)'' ''Enabled'' @
         row_if (sv_preserveSourceTags t) ''Preserve source tags'' ''Enabled'' @
         row_if (sv_customMetadata t \<noteq> []) ''Custom metadata''
           (js_join '', '' (map (\<lambda>r. kv_key r @ ''='' @ kv_value r) (sv_customMetadata t))) @
         row_if (sv_proxyVMRef t \<noteq> []) ''Proxy VM'' (sv_proxyVMRef t) @
         row_if (sv_firstBootScript t \<noteq> []) ''Post-migration script'' (sv_firstBootScript t) @
         row_if (is_set (Option.bind action pm_renameVm)) ''Rename VM''
           (if str_truthy suffix then ''Add suffix '' @ [CHR 0x22] @ the suffix @ [CHR 0x22] else ''Yes'') @
         row_if (is_set (Option.bind action pm_moveToFolder)) ''Move to folder'' (str_or folder ''Yes'') @
         row_if (sv_networkPersistence t) ''Network persistence'' ''Enabled'' @
         row_if (sv_removeVMwareTools t) ''Remove VMware Tools'' ''Enabled'' @
         row_if (sv_disconnectSourceNetwork t) ''Disconnect source network'' ''Enabled'' @
         row_if (sv_fallbackToDHCP t) ''Fallback to DHCP'' ''Enabled'' @
         row_if (sv_periodicSyncEnabled t) ''Periodic sync''
           (if sv_periodicSyncInterval t \<noteq> [] then ''Every '' @ sv_periodicSyncInterval t else ''Enabled'') @
         row_if (is_set (sv_useGPU t)) ''GPU flavor'' ''Enabled'' @
         row_if (sv_acknowledgeNetworkConflictRisk t) ''Network conflict risk'' ''Acknowledged'' @
         row_if (is_set health) ''Health checks'' ''Enabled'')"

section \<open>What the rows show\<close>

lemma strip_hash_suffix:
  assumes "length h = 5" "list_all hex_char h"
  shows "strip_hash (s @ ''-'' @ h) = s"
  using assms by (simp add: strip_hash_def Let_def)

lemma strip_hash_prefix: "\<exists>r. s = strip_hash s @ r"
proof (cases "strip_hash s = s")
  case False
  then have "strip_hash s = take (length s - 6) s"
    by (simp add: strip_hash_def Let_def split: if_splits)
  then show ?thesis
    by (metis append_take_drop_id)
qed simp

lemma row_same: "(\<lambda>x. \<lparr> rm_source = rm_source x, rm_target = rm_target x \<rparr>) = (\<lambda>x. x)"
  by (rule ext) simp

text \<open>the rows of the mappings of a template are as many as its count says, and show every mapping under its own kind.\<close>

theorem mapping_rows_complete:
  "length (buildTemplateMappingRows t) = countTemplateMappings t \<and>
   map (\<lambda>r. \<lparr> rm_source = mr_source r, rm_target = mr_target r \<rparr>) (filter (\<lambda>r. mr_kind r = k) (buildTemplateMappingRows t)) =
     (case k of NetworkRow \<Rightarrow> sv_networkMappings t | StorageRow \<Rightarrow> sv_storageMappings t | StorageArrayRow \<Rightarrow> sv_arrayCredsMappings t)"
  by (cases k) (simp_all add: buildTemplateMappingRows_def countTemplateMappings_def mapping_row_def comp_def row_same)

lemma row_if_nil [simp]: "row_if b l v = [] \<longleftrightarrow> \<not> b"
  by (simp add: row_if_def)

definition labels_in :: "string list \<Rightarrow> (string \<times> string) list \<Rightarrow> bool" where
  "labels_in ls rows = (distinct (map fst rows) \<and> fst ` set rows \<subseteq> set ls)"

lemma labels_in_row: "l \<notin> set ls \<Longrightarrow> labels_in ls rows \<Longrightarrow> labels_in (l # ls) (row_if b l v @ rows)"
  by (auto simp: labels_in_def row_if_def)

lemma labels_in_last: "labels_in [l] (row_if b l v)"
  by (simp add: labels_in_def row_if_def)

definition advanced_labels :: "string list" where
  "advanced_labels =
     [''Server group'', ''Security groups'', ''Image profiles'', ''Data copy starts'', ''Cutover window starts'',
      ''Cutover window ends'', ''Data only (no VM creation)'', ''Preserve source tags'', ''Custom metadata'', ''Proxy VM'',
      ''Post-migration script'', ''Rename VM'', ''Move to folder'', ''Network persistence'', ''Remove VMware Tools'',
      ''Disconnect source network'', ''Fallback to DHCP'', ''Periodic sync'', ''GPU flavor'', ''Network conflict risk'',
      ''Health checks'']"

lemma advanced_rows_labels: "labels_in advanced_labels (buildAdvancedOptionRows t groups)"
  unfolding advanced_labels_def buildAdvancedOptionRows_def Let_def
  by (intro labels_in_row labels_in_last; simp)

text \<open>the advanced options of a template are shown each at most once, and a template has none exactly when it changes nothing.\<close>

theorem advanced_rows_exact:
  "distinct (map fst (buildAdvancedOptionRows t groups)) \<and>
   (buildAdvancedOptionRows t groups = [] \<longleftrightarrow>
      sv_serverGroup t = [] \<and> sv_securityGroups t = [] \<and> sv_imageProfiles t = [] \<and> sv_dataCopyStartTime t = [] \<and>
      sv_cutoverStartTime t = [] \<and> sv_cutoverEndTime t = [] \<and> \<not> sv_dataOnly t \<and> \<not> sv_preserveSourceTags t \<and>
      sv_customMetadata t = [] \<and> sv_proxyVMRef t = [] \<and> sv_firstBootScript t = [] \<and>
      Option.bind (sv_postMigrationAction t) pm_renameVm \<noteq> Some True \<and>
      Option.bind (sv_postMigrationAction t) pm_moveToFolder \<noteq> Some True \<and> \<not> sv_networkPersistence t \<and>
      \<not> sv_removeVMwareTools t \<and> \<not> sv_disconnectSourceNetwork t \<and> \<not> sv_fallbackToDHCP t \<and> \<not> sv_periodicSyncEnabled t \<and>
      sv_useGPU t \<noteq> Some True \<and> \<not> sv_acknowledgeNetworkConflictRisk t \<and>
      Option.bind (bp_migrationStrategy (sv_spec t)) bs_performHealthChecks \<noteq> Some True)"
proof
  show "distinct (map fst (buildAdvancedOptionRows t groups))"
    using advanced_rows_labels by (simp add: labels_in_def)
qed (simp add: buildAdvancedOptionRows_def is_set_def Let_def)

end
