(* ===== verification/Rdm_Configure.thy ===== *)
theory Rdm_Configure
  imports Form_Types
begin

text \<open>
  The dialog that configures raw disks, \<open>ui/src/features/migration/hooks/useRdmConfiguration.ts\<close>: when it warns, and the patches
  an apply sends.
\<close>

section \<open>The dialog\<close>

record rdm_dialog =
  rq_configOpen :: bool
  rq_confirmOpen :: bool
  rq_updating :: bool

datatype rdm_toast = NothingToApply | Configured nat | ConfigureFailed

text \<open>The disks of the cluster by the names of their objects, and which patches the server grants.\<close>

type_synonym named_disks = "(string \<times> RdmDisk) list"

definition volume_type_mismatch :: "string sobj \<Rightarrow> RdmConfiguration \<Rightarrow> bool" where
  "volume_type_mismatch backends c =
     (if rc_cinderBackendPool c = [] \<or> rc_volumeType c = [] then False
      else (let expectedType = map_of backends (rc_cinderBackendPool c)
            in str_truthy expectedType \<and> expectedType \<noteq> Some (rc_volumeType c)))"

definition hasRdmVolumeTypeWarnings :: "RdmConfiguration list option \<Rightarrow> string sobj option \<Rightarrow> bool" where
  "hasRdmVolumeTypeWarnings configs backends =
     list_ex (volume_type_mismatch (list_or backends)) (list_or configs)"

definition handleOpenRdmConfigurationDialog :: "nat \<Rightarrow> rdm_dialog \<Rightarrow> rdm_dialog" where
  "handleOpenRdmConfigurationDialog selected s = (if selected = 0 then s else s \<lparr> rq_configOpen := True \<rparr>)"

definition handleCloseRdmConfigurationDialog :: "rdm_dialog \<Rightarrow> rdm_dialog" where
  "handleCloseRdmConfigurationDialog s = s \<lparr> rq_configOpen := False \<rparr>"

definition rdm_payload :: "string option \<Rightarrow> RdmConfiguration \<Rightarrow> OpenstackVolumeRef" where
  "rdm_payload credName c =
     \<lparr> vr_cinderBackendPool = Some (rc_cinderBackendPool c), vr_openstackCreds = credName, vr_source = None,
       vr_volumeType = Some (rc_volumeType c) \<rparr>"

text \<open>The patch of one configuration: the first disk with its identifier, if there is one.\<close>

definition rdm_patch :: "named_disks \<Rightarrow> string option \<Rightarrow> RdmConfiguration \<Rightarrow> (string \<times> OpenstackVolumeRef) list" where
  "rdm_patch disks credName c =
     (case find (\<lambda>d. rd_uuid (snd d) = rc_uuid c) disks of None \<Rightarrow> [] | Some d \<Rightarrow> [(fst d, rdm_payload credName c)])"

definition rdm_patches :: "named_disks \<Rightarrow> string option \<Rightarrow> RdmConfiguration list \<Rightarrow> (string \<times> OpenstackVolumeRef) list" where
  "rdm_patches disks credName configs = concat (map (rdm_patch disks credName) configs)"

definition handleApplyRdmConfigurations ::
  "(string \<Rightarrow> bool) \<Rightarrow> named_disks \<Rightarrow> string option \<Rightarrow> RdmConfiguration list option \<Rightarrow> rdm_dialog \<Rightarrow>
   rdm_dialog \<times> (string \<times> OpenstackVolumeRef) list \<times> rdm_toast" where
  "handleApplyRdmConfigurations granted disks credName configs s =
     (let s1 = s \<lparr> rq_confirmOpen := False \<rparr>; ps = rdm_patches disks credName (list_or configs)
      in if list_or configs = [] then (s1, [], NothingToApply)
         else if list_all (\<lambda>p. granted (fst p)) ps
         then (handleCloseRdmConfigurationDialog s1 \<lparr> rq_updating := False \<rparr>, ps, Configured (length (list_or configs)))
         else (s1 \<lparr> rq_updating := False \<rparr>, ps, ConfigureFailed))"

definition handleApplyRdmConfigurationsClick ::
  "(string \<Rightarrow> bool) \<Rightarrow> named_disks \<Rightarrow> string option \<Rightarrow> RdmConfiguration list option \<Rightarrow> string sobj option \<Rightarrow> rdm_dialog \<Rightarrow>
   rdm_dialog \<times> (string \<times> OpenstackVolumeRef) list \<times> rdm_toast option" where
  "handleApplyRdmConfigurationsClick granted disks credName configs backends s =
     (if hasRdmVolumeTypeWarnings configs backends then (s \<lparr> rq_confirmOpen := True \<rparr>, [], None)
      else (case handleApplyRdmConfigurations granted disks credName configs s of (s1, ps, t) \<Rightarrow> (s1, ps, Some t)))"

section \<open>What an apply sends\<close>

lemma option_same: "(\<And>v. a = Some v \<longleftrightarrow> b = Some v) \<Longrightarrow> a = b"
  by (metis not_None_eq)

lemma find_unique: "distinct (map f xs) \<Longrightarrow> find (\<lambda>x. f x = u) xs = Some x \<longleftrightarrow> x \<in> set xs \<and> f x = u"
  by (induction xs) force+

lemma rdm_patches_iff:
  assumes "distinct (map (rd_uuid \<circ> snd) disks)" "distinct (map fst disks)"
  shows "(n, v) \<in> set (rdm_patches disks credName configs) \<longleftrightarrow>
    (\<exists>c d. c \<in> set configs \<and> map_of disks n = Some d \<and> rd_uuid d = rc_uuid c \<and> v = rdm_payload credName c)"
proof -
  have "find (\<lambda>d. rd_uuid (snd d) = u) disks = Some (n, d) \<longleftrightarrow> map_of disks n = Some d \<and> rd_uuid d = u" for u d
    using find_unique [OF assms(1), of u "(n, d)"] assms(2) by (simp add: map_of_eq_Some_iff)
  moreover have "(n, v) \<in> set (rdm_patch disks credName c) \<longleftrightarrow>
      (\<exists>d. find (\<lambda>d. rd_uuid (snd d) = rc_uuid c) disks = Some (n, d) \<and> v = rdm_payload credName c)" for c
    by (cases "find (\<lambda>d. rd_uuid (snd d) = rc_uuid c) disks") (auto simp: rdm_patch_def)
  ultimately have "(n, v) \<in> set (rdm_patch disks credName c) \<longleftrightarrow>
      (\<exists>d. map_of disks n = Some d \<and> rd_uuid d = rc_uuid c \<and> v = rdm_payload credName c)" for c
    by auto
  then show ?thesis
    by (auto simp: rdm_patches_def)
qed

lemma rdm_patches_distinct:
  assumes "distinct (map (rd_uuid \<circ> snd) disks)" "distinct (map fst disks)" "distinct (map rc_uuid configs)"
  shows "distinct (map fst (rdm_patches disks credName configs))"
  using assms(3)
proof (induction configs)
  case (Cons c cs)
  have "n \<notin> fst ` set (rdm_patches disks credName cs)" if "n \<in> fst ` set (rdm_patch disks credName c)" for n
  proof
    assume "n \<in> fst ` set (rdm_patches disks credName cs)"
    then obtain c' d where "c' \<in> set cs" "map_of disks n = Some d" "rd_uuid d = rc_uuid c'"
      using rdm_patches_iff [OF assms(1,2)] by fastforce
    moreover obtain v where "(n, v) \<in> set (rdm_patches disks credName [c])"
      using \<open>n \<in> fst ` set (rdm_patch disks credName c)\<close> by (force simp: rdm_patches_def)
    ultimately show False
      using rdm_patches_iff [OF assms(1,2), of n v credName "[c]"] Cons.prems by (auto simp: rev_image_eqI)
  qed
  moreover have "distinct (map fst (rdm_patch disks credName c))"
    by (simp add: rdm_patch_def split: option.split)
  ultimately show ?case
    using Cons by (auto simp: rdm_patches_def)
qed (simp add: rdm_patches_def)

text \<open>a click on apply sends nothing while a volume type contradicts its backend; otherwise, with identifiers that are unique, every
  disk that is known and configured gets exactly the pool and the volume type of its configuration, and no other disk is touched.\<close>

theorem rdm_apply_exact:
  assumes "distinct (map (rd_uuid \<circ> snd) disks)" "distinct (map fst disks)" "distinct (map rc_uuid configs)"
  shows "fst (snd (handleApplyRdmConfigurationsClick granted disks credName (Some configs) backends s)) =
      (if hasRdmVolumeTypeWarnings (Some configs) backends then [] else rdm_patches disks credName configs) \<and>
    distinct (map fst (rdm_patches disks credName configs)) \<and>
    map_of (rdm_patches disks credName configs) n =
      (case map_of disks n of None \<Rightarrow> None
       | Some d \<Rightarrow> map_option (rdm_payload credName) (find (\<lambda>c. rc_uuid c = rd_uuid d) configs))"
proof (intro conjI)
  show "fst (snd (handleApplyRdmConfigurationsClick granted disks credName (Some configs) backends s)) =
      (if hasRdmVolumeTypeWarnings (Some configs) backends then [] else rdm_patches disks credName configs)"
    by (auto simp: handleApplyRdmConfigurationsClick_def handleApplyRdmConfigurations_def rdm_patches_def Let_def list_or_def)
  show keys: "distinct (map fst (rdm_patches disks credName configs))"
    by (rule rdm_patches_distinct [OF assms])
  have "map_of (rdm_patches disks credName configs) n = Some v \<longleftrightarrow>
      (\<exists>d. map_of disks n = Some d \<and> map_option (rdm_payload credName) (find (\<lambda>c. rc_uuid c = rd_uuid d) configs) = Some v)" for v
    using keys rdm_patches_iff [OF assms(1,2)] find_unique [OF assms(3)] by (auto simp: map_of_eq_Some_iff)
  then show "map_of (rdm_patches disks credName configs) n =
      (case map_of disks n of None \<Rightarrow> None
       | Some d \<Rightarrow> map_option (rdm_payload credName) (find (\<lambda>c. rc_uuid c = rd_uuid d) configs))"
    by (cases "map_of disks n"; intro option_same) auto
qed

text \<open>A configuration of a disk that is not known is left out, and the message counts it.\<close>

theorem unknown_disk_counted:
  "handleApplyRdmConfigurations granted [] credName (Some [c]) s = (s \<lparr> rq_confirmOpen := False, rq_configOpen := False, rq_updating := False \<rparr>, [], Configured 1)"
  by (simp add: handleApplyRdmConfigurations_def rdm_patches_def rdm_patch_def handleCloseRdmConfigurationDialog_def Let_def)

end
