(* ===== verification/Credential_Fetch.thy ===== *)
theory Credential_Fetch
  imports Js_Prelude
begin

text \<open>
  The credentials and the migration template behind the form, \<open>ui/src/features/migration/hooks/useCredentialFetching.ts\<close>: four
  effects fetch the chosen credentials and keep a template on the server in step with the form, and a timer polls the template. The
  requests in flight and the templates of the server are part of the state.
\<close>

section \<open>State\<close>

record fetched_cred =
  fc_name :: string
  fc_validated :: bool

record template_spec =
  tm_vmwareRef :: string
  tm_openstackRef :: string
  tm_datacenter :: "string option"
  tm_cluster :: "string option"
  tm_useGPU :: bool

text \<open>A template is complete when its status has networks and volume types.\<close>

record fetched_template =
  ft_name :: string
  ft_spec :: template_spec
  ft_complete :: bool

datatype cred_request =
    GetVmware string | GetOpenstack string | PatchTemplate string template_spec | PostTemplate string template_spec
  | GetTemplate string

text \<open>What the form has chosen; a choice has an identity that changes whenever the object of the parameters is made anew.\<close>

record vmware_choice =
  vc_existingCredName :: "string option"
  vc_datacenter :: "string option"

record cred_params =
  cp_vmware :: "vmware_choice option"
  cp_vmwareId :: nat
  cp_openstack :: "string option option"
  cp_openstackId :: nat
  cp_pcdCluster :: "string option"
  cp_useGPU :: bool
  cp_pcdData :: "(string \<times> string option) list"

record sync_deps =
  sd_valid :: bool
  sd_datacenter :: "string option"
  sd_vmware :: "string option"
  sd_openstack :: "string option"
  sd_cluster :: "string option"
  sd_useGPU :: bool
  sd_template :: "string option"
  sd_flags :: "bool \<times> bool"

text \<open>\<open>cf_seen\<close> are the dependencies of the effects when they ran last.\<close>

record cred_state =
  cf_params :: cred_params
  cf_vmware :: "fetched_cred option"
  cf_openstack :: "fetched_cred option"
  cf_template :: "fetched_template option"
  cf_errors :: "string list"
  cf_requests :: "cred_request list"
  cf_store :: "string \<Rightarrow> fetched_template option"
  cf_seen :: "(nat \<times> nat \<times> sync_deps) option"

section \<open>Effects\<close>

definition cred_valid :: "fetched_cred option \<Rightarrow> bool" where
  "cred_valid c = (case c of None \<Rightarrow> False | Some c \<Rightarrow> fc_validated c)"

definition targetPCDClusterName :: "cred_params \<Rightarrow> string option" where
  "targetPCDClusterName p =
     (if \<not> str_truthy (cp_pcdCluster p) then None else Option.bind (map_of (cp_pcdData p) (the (cp_pcdCluster p))) id)"

definition deps_of :: "cred_state \<Rightarrow> sync_deps" where
  "deps_of s =
     \<lparr> sd_valid = (cred_valid (cf_vmware s) \<and> cred_valid (cf_openstack s)),
       sd_datacenter = Option.bind (cp_vmware (cf_params s)) vc_datacenter, sd_vmware = map_option fc_name (cf_vmware s),
       sd_openstack = map_option fc_name (cf_openstack s), sd_cluster = targetPCDClusterName (cf_params s),
       sd_useGPU = cp_useGPU (cf_params s), sd_template = map_option ft_name (cf_template s),
       sd_flags = (cred_valid (cf_vmware s), cred_valid (cf_openstack s)) \<rparr>"

definition send :: "cred_request \<Rightarrow> cred_state \<Rightarrow> cred_state" where
  "send r s = s \<lparr> cf_requests := cf_requests s @ [r] \<rparr>"

definition clear_error :: "string \<Rightarrow> cred_state \<Rightarrow> cred_state" where
  "clear_error k s = s \<lparr> cf_errors := filter (\<lambda>x. x \<noteq> k) (cf_errors s) \<rparr>"

definition set_error :: "string \<Rightarrow> cred_state \<Rightarrow> cred_state" where
  "set_error k s = s \<lparr> cf_errors := List.insert k (cf_errors s) \<rparr>"

definition vmware_effect :: "cred_params \<Rightarrow> cred_state \<Rightarrow> cred_state" where
  "vmware_effect p s =
     (case cp_vmware p of
        None \<Rightarrow> s
      | Some c \<Rightarrow>
          if vc_existingCredName c = None \<and> vc_datacenter c = None then s
          else (let s1 = clear_error ''vmwareCreds'' (s \<lparr> cf_vmware := None \<rparr>)
                in if str_truthy (vc_existingCredName c) then send (GetVmware (the (vc_existingCredName c))) s1 else s1))"

definition openstack_effect :: "cred_params \<Rightarrow> cred_state \<Rightarrow> cred_state" where
  "openstack_effect p s =
     (case cp_openstack p of
        None \<Rightarrow> s
      | Some c \<Rightarrow>
          if c = None then s
          else (let s1 = clear_error ''openstackCreds'' (s \<lparr> cf_openstack := None \<rparr>)
                in if str_truthy c then send (GetOpenstack (the c)) s1 else s1))"

text \<open>The values a request carries; the name of a new template is made by the client.\<close>

definition truthy_or_none :: "string option \<Rightarrow> string option" where
  "truthy_or_none v = (if str_truthy v then v else None)"

definition sync_spec :: "sync_deps \<Rightarrow> template_spec" where
  "sync_spec d =
     \<lparr> tm_vmwareRef = the (sd_vmware d), tm_openstackRef = the (sd_openstack d), tm_datacenter = truthy_or_none (sd_datacenter d),
       tm_cluster = truthy_or_none (sd_cluster d), tm_useGPU = sd_useGPU d \<rparr>"

definition sync_effect :: "bool \<Rightarrow> string \<Rightarrow> sync_deps \<Rightarrow> cred_state \<Rightarrow> cred_state" where
  "sync_effect disableTemplateSync fresh d s =
     (if disableTemplateSync \<or> \<not> sd_valid d then s
      else if str_truthy (sd_template d) then send (PatchTemplate (the (sd_template d)) (sync_spec d)) s
      else send (PostTemplate fresh (sync_spec d)) s)"

definition reset_effect :: "bool \<Rightarrow> sync_deps \<Rightarrow> cred_state \<Rightarrow> cred_state" where
  "reset_effect disableTemplateSync d s =
     (if disableTemplateSync \<or> sd_valid d then s else s \<lparr> cf_template := None \<rparr>)"

text \<open>A commit runs the effects whose dependencies have changed, in their order, on the values of the render.\<close>

definition seen_of :: "cred_state \<Rightarrow> nat \<times> nat \<times> sync_deps" where
  "seen_of s = (cp_vmwareId (cf_params s), cp_openstackId (cf_params s), deps_of s)"

definition cred_commit :: "bool \<Rightarrow> string \<Rightarrow> cred_state \<Rightarrow> cred_state" where
  "cred_commit disableTemplateSync fresh s =
     (let d = deps_of s; changed = (\<lambda>f. case cf_seen s of None \<Rightarrow> True | Some o1 \<Rightarrow> f o1 (seen_of s));
          s1 = (if changed (\<lambda>a b. fst a \<noteq> fst b) then vmware_effect (cf_params s) s else s);
          s2 = (if changed (\<lambda>a b. fst (snd a) \<noteq> fst (snd b)) then openstack_effect (cf_params s) s1 else s1);
          s3 = (if changed (\<lambda>a b. snd (snd a) \<noteq> snd (snd b)) then sync_effect disableTemplateSync fresh d s2 else s2);
          s4 = (if changed (\<lambda>a b. sd_flags (snd (snd a)) \<noteq> sd_flags (snd (snd b))) then reset_effect disableTemplateSync d s3 else s3)
      in s4 \<lparr> cf_seen := Some (seen_of s) \<rparr>)"

section \<open>Answers and polls\<close>

definition patched :: "template_spec \<Rightarrow> template_spec \<Rightarrow> template_spec" where
  "patched old p =
     p \<lparr> tm_datacenter := (case tm_datacenter p of None \<Rightarrow> tm_datacenter old | v \<Rightarrow> v),
         tm_cluster := (case tm_cluster p of None \<Rightarrow> tm_cluster old | v \<Rightarrow> v) \<rparr>"

definition put_template :: "fetched_template \<Rightarrow> cred_state \<Rightarrow> cred_state" where
  "put_template t s = s \<lparr> cf_store := (cf_store s)(ft_name t \<mapsto> t), cf_template := Some t \<rparr>"

fun answer_request :: "bool \<Rightarrow> cred_request \<Rightarrow> cred_state \<Rightarrow> cred_state" where
  "answer_request v (GetVmware n) s = s \<lparr> cf_vmware := Some \<lparr> fc_name = n, fc_validated = v \<rparr> \<rparr>"
| "answer_request v (GetOpenstack n) s = s \<lparr> cf_openstack := Some \<lparr> fc_name = n, fc_validated = v \<rparr> \<rparr>"
| "answer_request v (PatchTemplate n p) s =
     (case cf_store s n of
        None \<Rightarrow> set_error ''migrationTemplate'' s
      | Some t \<Rightarrow> put_template (t \<lparr> ft_name := n, ft_spec := patched (ft_spec t) p \<rparr>) s)"
| "answer_request v (PostTemplate n p) s = put_template \<lparr> ft_name = n, ft_spec = p, ft_complete = False \<rparr> s"
| "answer_request v (GetTemplate n) s =
     (case cf_store s n of
        None \<Rightarrow> set_error ''migrationTemplate'' s
      | Some t \<Rightarrow> s \<lparr> cf_template := Some (t \<lparr> ft_name := n \<rparr>) \<rparr>)"

fun refuse_request :: "cred_request \<Rightarrow> cred_state \<Rightarrow> cred_state" where
  "refuse_request (GetVmware n) s = set_error ''vmwareCreds'' s"
| "refuse_request (GetOpenstack n) s = set_error ''openstackCreds'' s"
| "refuse_request _ s = set_error ''migrationTemplate'' s"

definition shouldPollMigrationTemplate :: "cred_state \<Rightarrow> bool" where
  "shouldPollMigrationTemplate s = (case cf_template s of None \<Rightarrow> False | Some t \<Rightarrow> ft_name t \<noteq> [] \<and> \<not> ft_complete t)"

definition poll_template :: "cred_state \<Rightarrow> cred_state" where
  "poll_template s = (if shouldPollMigrationTemplate s then send (GetTemplate (ft_name (the (cf_template s)))) s else s)"

definition take_request :: "nat \<Rightarrow> cred_state \<Rightarrow> cred_state" where
  "take_request i s = s \<lparr> cf_requests := take i (cf_requests s) @ drop (Suc i) (cf_requests s) \<rparr>"

definition complete_template :: "string \<Rightarrow> cred_state \<Rightarrow> cred_state" where
  "complete_template n s = s \<lparr> cf_store := (cf_store s)(n := map_option (\<lambda>t. t \<lparr> ft_complete := True \<rparr>) (cf_store s n)) \<rparr>"

definition effects_due :: "cred_state \<Rightarrow> bool" where
  "effects_due s = (cf_seen s \<noteq> Some (seen_of s))"

text \<open>The steps while every request is granted and answered in the order it was sent. The parameters change in any way; a choice
  that is made anew has another identity.\<close>

definition params_change :: "cred_params \<Rightarrow> cred_params \<Rightarrow> bool" where
  "params_change p q =
     ((cp_vmwareId q = cp_vmwareId p \<longrightarrow> cp_vmware q = cp_vmware p) \<and> (cp_openstackId q = cp_openstackId p \<longrightarrow> cp_openstack q = cp_openstack p))"

fun answerable :: "cred_state \<Rightarrow> cred_request \<Rightarrow> bool" where
  "answerable s (PatchTemplate n p) = (cf_store s n \<noteq> None)"
| "answerable s (GetTemplate n) = (cf_store s n \<noteq> None)"
| "answerable s _ = True"

inductive orderly_step :: "bool \<Rightarrow> cred_state \<Rightarrow> cred_state \<Rightarrow> bool" for disableTemplateSync where
  commit: "effects_due s \<Longrightarrow> orderly_step disableTemplateSync s (cred_commit disableTemplateSync fresh s)"
| params: "\<not> effects_due s \<Longrightarrow> params_change (cf_params s) p \<Longrightarrow> orderly_step disableTemplateSync s (s \<lparr> cf_params := p \<rparr>)"
| answer: "\<not> effects_due s \<Longrightarrow> cf_requests s = r # rs \<Longrightarrow> answerable s r \<Longrightarrow> orderly_step disableTemplateSync s (answer_request v r (take_request 0 s))"
| poll: "\<not> effects_due s \<Longrightarrow> orderly_step disableTemplateSync s (poll_template s)"
| server: "\<not> effects_due s \<Longrightarrow> orderly_step disableTemplateSync s (complete_template n s)"

section \<open>The template follows the form\<close>

fun sync_values :: "cred_request \<Rightarrow> template_spec option" where
  "sync_values (PatchTemplate n p) = Some p"
| "sync_values (PostTemplate n p) = Some p"
| "sync_values _ = None"

fun vmware_name :: "cred_request \<Rightarrow> string option" where
  "vmware_name (GetVmware n) = Some n"
| "vmware_name _ = None"

fun openstack_name :: "cred_request \<Rightarrow> string option" where
  "openstack_name (GetOpenstack n) = Some n"
| "openstack_name _ = None"

text \<open>A template holds the values that were sent last; a patch without a datacenter or a cluster leaves that of the template.\<close>

definition agrees :: "template_spec \<Rightarrow> template_spec \<Rightarrow> bool" where
  "agrees t p =
     (tm_vmwareRef t = tm_vmwareRef p \<and> tm_openstackRef t = tm_openstackRef p \<and> tm_useGPU t = tm_useGPU p \<and>
      tm_datacenter p \<in> {None, tm_datacenter t} \<and> tm_cluster p \<in> {None, tm_cluster t})"

lemma agrees_patched [simp]: "agrees (patched old p) p" "agrees p p"
  by (auto simp: agrees_def patched_def split: option.splits)

text \<open>The last of the requests of a kind carries what is wanted, or none is in flight and it is there.\<close>

definition wanted :: "(cred_request \<Rightarrow> 'a option) \<Rightarrow> cred_request list \<Rightarrow> 'a \<Rightarrow> bool \<Rightarrow> bool" where
  "wanted f rs v there =
     (case rev (List.map_filter f rs) of [] \<Rightarrow> there | x # _ \<Rightarrow> x = v)"

lemma wanted_send:
  "f r = Some v \<Longrightarrow> wanted f (rs @ [r]) v there"
  "f r = None \<Longrightarrow> wanted f (rs @ [r]) v there = wanted f rs v there"
  by (simp_all add: wanted_def List.map_filter_def)

lemma wanted_answer: "wanted f (r # rs) v there \<Longrightarrow> wanted f rs v (case f r of None \<Rightarrow> there | Some x \<Rightarrow> x = v)"
  by (auto simp: wanted_def List.map_filter_def split: option.splits list.splits)

lemma wanted_mono: "wanted f rs v a \<Longrightarrow> (a \<Longrightarrow> b) \<Longrightarrow> wanted f rs v b"
  by (auto simp: wanted_def split: list.splits)

definition template_stored :: "cred_state \<Rightarrow> bool" where
  "template_stored s =
     (case cf_template s of None \<Rightarrow> True | Some t \<Rightarrow> map_option ft_spec (cf_store s (ft_name t)) = Some (ft_spec t))"

definition template_agrees :: "template_spec \<Rightarrow> cred_state \<Rightarrow> bool" where
  "template_agrees p s = (case cf_template s of None \<Rightarrow> False | Some t \<Rightarrow> agrees (ft_spec t) p)"

definition template_synced :: "cred_state \<Rightarrow> bool" where
  "template_synced s =
     (case cf_seen s of None \<Rightarrow> True
      | Some (_, _, d) \<Rightarrow> d = deps_of s \<longrightarrow> sd_valid d \<longrightarrow> wanted sync_values (cf_requests s) (sync_spec d) (template_agrees (sync_spec d) s))"

definition vmware_chosen :: "cred_params \<Rightarrow> string option" where
  "vmware_chosen p = truthy_or_none (Option.bind (cp_vmware p) vc_existingCredName)"

definition openstack_chosen :: "cred_params \<Rightarrow> string option" where
  "openstack_chosen p = truthy_or_none (Option.bind (cp_openstack p) id)"

definition creds_fetched :: "cred_state \<Rightarrow> bool" where
  "creds_fetched s =
     (case cf_seen s of None \<Rightarrow> True
      | Some (a, b, _) \<Rightarrow>
          (\<forall>n. a = cp_vmwareId (cf_params s) \<longrightarrow> vmware_chosen (cf_params s) = Some n \<longrightarrow>
             wanted vmware_name (cf_requests s) n (map_option fc_name (cf_vmware s) = Some n)) \<and>
          (\<forall>n. b = cp_openstackId (cf_params s) \<longrightarrow> openstack_chosen (cf_params s) = Some n \<longrightarrow>
             wanted openstack_name (cf_requests s) n (map_option fc_name (cf_openstack s) = Some n)))"

lemma sync_wanted_answer:
  assumes "template_stored s" "wanted sync_values (r # rs) p (template_agrees p s)"
    "deps_of (answer_request v r s) = deps_of s" "answerable s r"
  shows "wanted sync_values rs p (template_agrees p (answer_request v r s))"
proof (rule wanted_mono [OF wanted_answer [OF assms(2)]])
  assume there: "case sync_values r of None \<Rightarrow> template_agrees p s | Some x \<Rightarrow> x = p"
  show "template_agrees p (answer_request v r s)"
  proof (cases r)
    case (GetTemplate n)
    then obtain t0 where t0: "cf_template s = Some t0" "agrees (ft_spec t0) p"
      using there by (auto simp: template_agrees_def split: option.splits)
    obtain t where t: "cf_store s n = Some t"
      using assms(4) GetTemplate by auto
    have "map_option ft_name (cf_template (answer_request v r s)) = map_option ft_name (cf_template s)"
      using arg_cong [OF assms(3), of sd_template] by (simp add: deps_of_def)
    then have "n = ft_name t0"
      using t t0(1) GetTemplate by simp
    then have "ft_spec t = ft_spec t0"
      using assms(1) t t0(1) by (simp add: template_stored_def)
    then show ?thesis
      using t t0(2) GetTemplate by (simp add: template_agrees_def)
  qed (use there assms(4) in \<open>auto simp: put_template_def template_agrees_def\<close>)
qed

lemma template_stored_answer: "template_stored s \<Longrightarrow> template_stored (answer_request v r s)"
  by (cases r) (auto simp: template_stored_def put_template_def set_error_def split: option.splits)

lemma take_first [simp]:
  "template_stored (take_request 0 s) = template_stored s" "template_agrees p (take_request 0 s) = template_agrees p s"
  "deps_of (take_request i s) = deps_of s" "cf_params (take_request i s) = cf_params s" "cf_seen (take_request i s) = cf_seen s"
  "cf_vmware (take_request i s) = cf_vmware s" "cf_openstack (take_request i s) = cf_openstack s"
  "cf_requests (take_request 0 s) = drop 1 (cf_requests s)"
  by (simp_all add: take_request_def template_stored_def template_agrees_def deps_of_def split: option.split)

lemma take_answerable [simp]: "answerable (take_request i s) r = answerable s r"
  by (cases r) (simp_all add: take_request_def)

lemma answer_kept [simp]:
  "cf_params (answer_request v r s) = cf_params s" "cf_seen (answer_request v r s) = cf_seen s"
  "cf_requests (answer_request v r s) = cf_requests s"
  by (cases r; simp add: put_template_def set_error_def split: option.split)+

lemma synced_answer:
  assumes "template_stored s" "template_synced s" "cf_requests s = r # rs" "answerable s r" "\<not> effects_due s"
  shows "template_synced (answer_request v r (take_request 0 s))"
proof -
  let ?t = "take_request 0 s"
  have seen: "cf_seen s = Some (seen_of s)"
    using assms(5) by (simp add: effects_due_def)
  show ?thesis
  proof (cases "deps_of (answer_request v r ?t) = deps_of s \<and> sd_valid (deps_of s)")
    case True
    then have "wanted sync_values (r # rs) (sync_spec (deps_of s)) (template_agrees (sync_spec (deps_of s)) ?t)"
      using assms(2,3) seen by (simp add: template_synced_def seen_of_def)
    then have "wanted sync_values rs (sync_spec (deps_of s)) (template_agrees (sync_spec (deps_of s)) (answer_request v r ?t))"
      by (rule sync_wanted_answer [rotated]) (use True assms(1,4) in simp_all)
    then show ?thesis
      using True assms(3) seen by (simp add: template_synced_def seen_of_def)
  next
    case False
    then show ?thesis
      using seen by (auto simp: template_synced_def seen_of_def)
  qed
qed

lemma fetched_answer:
  assumes "creds_fetched s" "cf_requests s = r # rs"
  shows "creds_fetched (answer_request v r (take_request 0 s))"
proof -
  have vm: "wanted vmware_name rs n (map_option fc_name (cf_vmware (answer_request v r (take_request 0 s))) = Some n)"
    if "wanted vmware_name (r # rs) n (map_option fc_name (cf_vmware s) = Some n)" for n
    by (rule wanted_mono [OF wanted_answer [OF that]]) (cases r; auto simp: put_template_def set_error_def split: option.splits)
  have os: "wanted openstack_name rs n (map_option fc_name (cf_openstack (answer_request v r (take_request 0 s))) = Some n)"
    if "wanted openstack_name (r # rs) n (map_option fc_name (cf_openstack s) = Some n)" for n
    by (rule wanted_mono [OF wanted_answer [OF that]]) (cases r; auto simp: put_template_def set_error_def split: option.splits)
  show ?thesis
    using assms vm os by (auto simp: creds_fetched_def split: option.splits)
qed

lemma effect_parts [simp]:
  "cf_params (vmware_effect p s) = cf_params s" "cf_params (openstack_effect p s) = cf_params s"
  "cf_params (sync_effect b n d s) = cf_params s" "cf_params (reset_effect b d s) = cf_params s"
  "cf_store (vmware_effect p s) = cf_store s" "cf_store (openstack_effect p s) = cf_store s"
  "cf_store (sync_effect b n d s) = cf_store s" "cf_store (reset_effect b d s) = cf_store s"
  "cf_template (vmware_effect p s) = cf_template s" "cf_template (openstack_effect p s) = cf_template s"
  "cf_template (sync_effect b n d s) = cf_template s"
  "cf_vmware (openstack_effect p s) = cf_vmware s" "cf_vmware (sync_effect b n d s) = cf_vmware s"
  "cf_vmware (reset_effect b d s) = cf_vmware s"
  "cf_openstack (vmware_effect p s) = cf_openstack s" "cf_openstack (sync_effect b n d s) = cf_openstack s"
  "cf_openstack (reset_effect b d s) = cf_openstack s" "cf_requests (reset_effect b d s) = cf_requests s"
  by (simp_all add: vmware_effect_def openstack_effect_def sync_effect_def reset_effect_def send_def clear_error_def Let_def
      split: option.split)

lemma effect_wanted [simp]:
  "wanted sync_values (cf_requests (vmware_effect p s)) v b = wanted sync_values (cf_requests s) v b"
  "wanted sync_values (cf_requests (openstack_effect p s)) v b = wanted sync_values (cf_requests s) v b"
  "wanted vmware_name (cf_requests (openstack_effect p s)) n b = wanted vmware_name (cf_requests s) n b"
  "wanted vmware_name (cf_requests (sync_effect dis m d s)) n b = wanted vmware_name (cf_requests s) n b"
  "wanted openstack_name (cf_requests (vmware_effect p s)) n b = wanted openstack_name (cf_requests s) n b"
  "wanted openstack_name (cf_requests (sync_effect dis m d s)) n b = wanted openstack_name (cf_requests s) n b"
  by (simp_all add: vmware_effect_def openstack_effect_def sync_effect_def send_def clear_error_def Let_def wanted_send(2)
      split: option.split)

lemma effect_sends:
  "sd_valid d \<Longrightarrow> wanted sync_values (cf_requests (sync_effect False m d s)) (sync_spec d) b"
  "vmware_chosen p = Some n \<Longrightarrow> wanted vmware_name (cf_requests (vmware_effect p s)) n c"
  "openstack_chosen p = Some n \<Longrightarrow> wanted openstack_name (cf_requests (openstack_effect p s)) n c"
  by (auto simp: sync_effect_def vmware_effect_def openstack_effect_def vmware_chosen_def openstack_chosen_def truthy_or_none_def
      str_truthy_def send_def clear_error_def Let_def wanted_send(1) split: option.splits if_splits)

lemma commit_parts [simp]:
  "cf_params (cred_commit b m s) = cf_params s" "cf_store (cred_commit b m s) = cf_store s"
  "cf_seen (cred_commit b m s) = Some (seen_of s)"
  by (simp_all add: cred_commit_def Let_def)

lemma template_commit: "cf_template (cred_commit b m s) = None \<or> cf_template (cred_commit b m s) = cf_template s"
  by (simp add: cred_commit_def Let_def reset_effect_def)

lemma stored_commit: "template_stored s \<Longrightarrow> template_stored (cred_commit b m s)"
  using template_commit [of b m s] by (auto simp: template_stored_def split: option.split)

lemma synced_commit:
  assumes "template_synced s"
  shows "template_synced (cred_commit False m s)"
proof -
  let ?t = "cred_commit False m s" and ?p = "sync_spec (deps_of s)"
  have "wanted sync_values (cf_requests ?t) ?p (template_agrees ?p ?t)" if valid: "sd_valid (deps_of s)"
  proof (cases "\<exists>a b. cf_seen s = Some (a, b, deps_of s)")
    case True
    then obtain a b where seen: "cf_seen s = Some (a, b, deps_of s)"
      by blast
    then have "wanted sync_values (cf_requests s) ?p (template_agrees ?p s)"
      using assms valid by (simp add: template_synced_def)
    moreover have "cf_template ?t = cf_template s"
      using seen by (simp add: cred_commit_def Let_def seen_of_def)
    ultimately show ?thesis
      using seen by (simp add: cred_commit_def Let_def seen_of_def template_agrees_def)
  next
    case False
    then show ?thesis
      using effect_sends(1) [OF valid] by (auto simp: cred_commit_def Let_def seen_of_def split: option.splits)
  qed
  then have "deps_of s = deps_of ?t \<Longrightarrow> sd_valid (deps_of ?t) \<Longrightarrow>
      wanted sync_values (cf_requests ?t) (sync_spec (deps_of ?t)) (template_agrees (sync_spec (deps_of ?t)) ?t)"
    by metis
  then show ?thesis
    by (simp add: template_synced_def seen_of_def)
qed

lemma fetched_commit:
  assumes "creds_fetched s"
  shows "creds_fetched (cred_commit b m s)"
proof -
  have vm: "wanted vmware_name (cf_requests (cred_commit b m s)) n (map_option fc_name (cf_vmware (cred_commit b m s)) = Some n)"
    if "vmware_chosen (cf_params s) = Some n" for n
    using assms that effect_sends(2) [OF that]
    by (cases "cf_seen s") (auto simp: cred_commit_def Let_def seen_of_def creds_fetched_def)
  have os: "wanted openstack_name (cf_requests (cred_commit b m s)) n (map_option fc_name (cf_openstack (cred_commit b m s)) = Some n)"
    if "openstack_chosen (cf_params s) = Some n" for n
    using assms that effect_sends(3) [OF that]
    by (cases "cf_seen s") (auto simp: cred_commit_def Let_def seen_of_def creds_fetched_def)
  show ?thesis
    using vm os by (simp add: creds_fetched_def seen_of_def)
qed

lemma synced_params: "template_synced s \<Longrightarrow> \<not> effects_due s \<Longrightarrow> template_synced (s \<lparr> cf_params := p \<rparr>)"
  by (auto simp: template_synced_def effects_due_def seen_of_def template_agrees_def split: option.splits)

lemma fetched_params:
  "creds_fetched s \<Longrightarrow> \<not> effects_due s \<Longrightarrow> params_change (cf_params s) p \<Longrightarrow> creds_fetched (s \<lparr> cf_params := p \<rparr>)"
  by (auto simp: creds_fetched_def effects_due_def seen_of_def params_change_def vmware_chosen_def openstack_chosen_def)

definition fetch_ok :: "cred_state \<Rightarrow> bool" where
  "fetch_ok s = (template_stored s \<and> template_synced s \<and> creds_fetched s)"

lemma fetch_ok_commit: "fetch_ok s \<Longrightarrow> fetch_ok (cred_commit False m s)"
  by (simp add: fetch_ok_def stored_commit synced_commit fetched_commit)

lemma fetch_ok_poll: "fetch_ok s \<Longrightarrow> fetch_ok (poll_template s)"
  by (auto simp: fetch_ok_def poll_template_def send_def template_stored_def template_synced_def template_agrees_def creds_fetched_def
      deps_of_def wanted_send(2) split: option.splits prod.splits)

lemma fetch_ok_server: "fetch_ok s \<Longrightarrow> fetch_ok (complete_template n s)"
  by (auto simp: fetch_ok_def complete_template_def template_stored_def template_synced_def template_agrees_def creds_fetched_def
      deps_of_def option.map_comp comp_def split: option.splits prod.splits)

lemma fetch_ok_step: "orderly_step False s t \<Longrightarrow> fetch_ok s \<Longrightarrow> fetch_ok t"
proof (induction rule: orderly_step.induct)
  case (answer s r rs v)
  then show ?case
    using synced_answer [of s r rs v] fetched_answer [of s r rs v] template_stored_answer [of "take_request 0 s" v r]
    by (simp add: fetch_ok_def)
next
  case (params s p)
  moreover have "template_stored (s \<lparr> cf_params := p \<rparr>) = template_stored s"
    by (simp add: template_stored_def split: option.split)
  ultimately show ?case
    by (simp add: fetch_ok_def synced_params fetched_params)
qed (rule fetch_ok_commit fetch_ok_poll fetch_ok_server; assumption)+

definition cred_start :: "cred_params \<Rightarrow> (string \<Rightarrow> fetched_template option) \<Rightarrow> cred_state" where
  "cred_start p store =
     \<lparr> cf_params = p, cf_vmware = None, cf_openstack = None, cf_template = None, cf_errors = [], cf_requests = [],
       cf_store = store, cf_seen = None \<rparr>"

lemma fetch_ok_run: "(orderly_step False)\<^sup>*\<^sup>* (cred_start p store) s \<Longrightarrow> fetch_ok s"
proof (induction rule: rtranclp_induct)
  case base
  then show ?case
    by (simp add: fetch_ok_def cred_start_def template_stored_def template_synced_def creds_fetched_def)
qed (simp add: fetch_ok_step)

text \<open>C34: when every request is granted and the answers come in the order of the requests, the hook settles on what the form shows.
  Once no effect and no request is left, a credential that is chosen is the one that is fetched, and when the fetched ones
  are both valid there is a template on the server, which the hook holds: it names the chosen credentials and has the flag of
  the form, its datacenter when the form has one, and the name of its cluster when the form has one. Nothing is claimed of
  what is taken back: a credential that is no longer chosen may stay fetched, and a datacenter or cluster that the form no longer
  has stays in the template (\<open>cleared_cluster_stays\<close>).\<close>

theorem template_follows_form:
  assumes "(orderly_step False)\<^sup>*\<^sup>* (cred_start p store) s" "\<not> effects_due s" "cf_requests s = []"
  shows "(\<forall>n. vmware_chosen (cf_params s) = Some n \<longrightarrow> map_option fc_name (cf_vmware s) = Some n) \<and>
    (\<forall>n. openstack_chosen (cf_params s) = Some n \<longrightarrow> map_option fc_name (cf_openstack s) = Some n) \<and>
    (cred_valid (cf_vmware s) \<and> cred_valid (cf_openstack s) \<longrightarrow>
      (\<exists>t. cf_template s = Some t \<and> map_option ft_spec (cf_store s (ft_name t)) = Some (ft_spec t) \<and>
        (\<forall>n. vmware_chosen (cf_params s) = Some n \<longrightarrow> tm_vmwareRef (ft_spec t) = n) \<and>
        (\<forall>n. openstack_chosen (cf_params s) = Some n \<longrightarrow> tm_openstackRef (ft_spec t) = n) \<and>
        tm_useGPU (ft_spec t) = cp_useGPU (cf_params s) \<and>
        (\<forall>d. Option.bind (cp_vmware (cf_params s)) vc_datacenter = Some d \<longrightarrow> d \<noteq> [] \<longrightarrow> tm_datacenter (ft_spec t) = Some d) \<and>
        (\<forall>c. targetPCDClusterName (cf_params s) = Some c \<longrightarrow> c \<noteq> [] \<longrightarrow> tm_cluster (ft_spec t) = Some c)))"
proof -
  have ok: "fetch_ok s"
    using assms(1) by (rule fetch_ok_run)
  have seen: "cf_seen s = Some (seen_of s)"
    using assms(2) by (simp add: effects_due_def)
  have none: "wanted f [] v there = there" for f :: "cred_request \<Rightarrow> 'a option" and v there
    by (simp add: wanted_def List.map_filter_def)
  have chosen: "vmware_chosen (cf_params s) = Some n \<Longrightarrow> map_option fc_name (cf_vmware s) = Some n"
    "openstack_chosen (cf_params s) = Some n \<Longrightarrow> map_option fc_name (cf_openstack s) = Some n" for n
    using ok seen assms(3) by (auto simp: fetch_ok_def creds_fetched_def seen_of_def none)
  show ?thesis
  proof (intro conjI allI impI chosen)
    assume "cred_valid (cf_vmware s) \<and> cred_valid (cf_openstack s)"
    then have "sd_valid (deps_of s)" by (simp add: deps_of_def)
    then obtain t where t: "cf_template s = Some t" "agrees (ft_spec t) (sync_spec (deps_of s))"
        "map_option ft_spec (cf_store s (ft_name t)) = Some (ft_spec t)"
      using ok seen assms(3)
      by (auto simp: fetch_ok_def template_synced_def seen_of_def template_agrees_def template_stored_def none split: option.splits)
    have "vmware_chosen (cf_params s) = Some n \<longrightarrow> tm_vmwareRef (ft_spec t) = n"
      "openstack_chosen (cf_params s) = Some n \<longrightarrow> tm_openstackRef (ft_spec t) = n" for n
      using t(2) chosen [of n] by (auto simp: agrees_def sync_spec_def deps_of_def)
    moreover have "tm_useGPU (ft_spec t) = cp_useGPU (cf_params s)"
      using t(2) by (simp add: agrees_def sync_spec_def deps_of_def)
    moreover have "Option.bind (cp_vmware (cf_params s)) vc_datacenter = Some d \<longrightarrow> d \<noteq> [] \<longrightarrow> tm_datacenter (ft_spec t) = Some d"
      "targetPCDClusterName (cf_params s) = Some d \<longrightarrow> d \<noteq> [] \<longrightarrow> tm_cluster (ft_spec t) = Some d" for d
      using t(2) by (auto simp: agrees_def sync_spec_def deps_of_def truthy_or_none_def str_truthy_def)
    ultimately show "\<exists>t. cf_template s = Some t \<and> map_option ft_spec (cf_store s (ft_name t)) = Some (ft_spec t) \<and>
        (\<forall>n. vmware_chosen (cf_params s) = Some n \<longrightarrow> tm_vmwareRef (ft_spec t) = n) \<and>
        (\<forall>n. openstack_chosen (cf_params s) = Some n \<longrightarrow> tm_openstackRef (ft_spec t) = n) \<and>
        tm_useGPU (ft_spec t) = cp_useGPU (cf_params s) \<and>
        (\<forall>d. Option.bind (cp_vmware (cf_params s)) vc_datacenter = Some d \<longrightarrow> d \<noteq> [] \<longrightarrow> tm_datacenter (ft_spec t) = Some d) \<and>
        (\<forall>c. targetPCDClusterName (cf_params s) = Some c \<longrightarrow> c \<noteq> [] \<longrightarrow> tm_cluster (ft_spec t) = Some c)"
      using t by blast
  qed
qed

definition demo_cred_params :: cred_params where
  "demo_cred_params =
     \<lparr> cp_vmware = Some \<lparr> vc_existingCredName = Some ''vc'', vc_datacenter = Some ''DC'' \<rparr>, cp_vmwareId = 1,
       cp_openstack = Some (Some ''pcd''), cp_openstackId = 1, cp_pcdCluster = Some ''c1'', cp_useGPU = True,
       cp_pcdData = [(''c1'', Some ''cluster one'')] \<rparr>"

text \<open>A run in which every effect runs at once and every answer is positive, for at most \<open>n\<close> steps.\<close>

fun settle :: "nat \<Rightarrow> string \<Rightarrow> cred_state \<Rightarrow> cred_state" where
  "settle 0 fresh s = s"
| "settle (Suc n) fresh s =
     (if effects_due s then settle n fresh (cred_commit False fresh s)
      else (case cf_requests s of
              [] \<Rightarrow> s
            | r # rs \<Rightarrow> if answerable s r then settle n fresh (answer_request True r (take_request 0 s)) else s))"

lemma settle_run: "(orderly_step False)\<^sup>*\<^sup>* s (settle n fresh s)"
proof (induction n fresh s rule: settle.induct)
  case (2 n fresh s)
  then show ?case
    by (auto intro: converse_rtranclp_into_rtranclp orderly_step.intros split: list.split)
qed simp

definition demo_cred_settled :: cred_state where
  "demo_cred_settled = settle 20 ''t1'' (cred_start demo_cred_params (\<lambda>_. None))"

lemma template_follows_form_witness:
  "map_option fc_name (cf_vmware demo_cred_settled) = Some ''vc'' \<and>
   (\<exists>t. cf_template demo_cred_settled = Some t \<and>
     ft_spec t = \<lparr> tm_vmwareRef = ''vc'', tm_openstackRef = ''pcd'', tm_datacenter = Some ''DC'', tm_cluster = Some ''cluster one'', tm_useGPU = True \<rparr>)"
proof -
  have "(orderly_step False)\<^sup>*\<^sup>* (cred_start demo_cred_params (\<lambda>_. None)) demo_cred_settled"
    unfolding demo_cred_settled_def by (rule settle_run)
  moreover have "\<not> effects_due demo_cred_settled" "cf_requests demo_cred_settled = []"
    "cred_valid (cf_vmware demo_cred_settled)" "cred_valid (cf_openstack demo_cred_settled)"
    "vmware_chosen (cf_params demo_cred_settled) = Some ''vc''" "openstack_chosen (cf_params demo_cred_settled) = Some ''pcd''"
    "Option.bind (cp_vmware (cf_params demo_cred_settled)) vc_datacenter = Some ''DC''" "cp_useGPU (cf_params demo_cred_settled)"
    "targetPCDClusterName (cf_params demo_cred_settled) = Some ''cluster one''"
    by code_simp+
  ultimately show ?thesis
    using template_follows_form [of demo_cred_params "\<lambda>_. None" demo_cred_settled] by auto
qed

text \<open>Answers that come in another order are not told apart: after the user has chosen another credential while the first request is
  in flight, the later answer is the one that stays, so the form can hold a credential that is not the chosen one.\<close>

theorem late_answer_replaces_credential:
  "cf_vmware (answer_request True (GetVmware ''old'') (answer_request True (GetVmware ''new'') s)) = Some \<lparr> fc_name = ''old'', fc_validated = True \<rparr>"
  by simp

text \<open>While the creation of a template is in flight, every further change of the form sends another creation, and each one leaves a
  template of its own on the server.\<close>

theorem creation_in_flight_repeated:
  assumes "sd_valid d" "\<not> str_truthy (sd_template d)" "sd_valid e" "\<not> str_truthy (sd_template e)"
  shows "cf_requests (sync_effect False b e (sync_effect False a d s)) =
    cf_requests s @ [PostTemplate a (sync_spec d), PostTemplate b (sync_spec e)]"
  using assms by (simp add: sync_effect_def send_def)

text \<open>A cluster that is taken back in the form stays in the template: a patch without a cluster keeps the cluster of the template.\<close>

theorem cleared_cluster_stays:
  assumes "cf_store s n = Some t" "tm_cluster (ft_spec t) = Some c" "sd_valid d" "sd_template d = Some n" "n \<noteq> []" "sd_cluster d = None"
  shows "map_option (tm_cluster \<circ> ft_spec)
      (cf_template (answer_request True (last (cf_requests (sync_effect False fresh d s))) (sync_effect False fresh d s))) = Some (Some c)"
  using assms by (simp add: sync_effect_def send_def str_truthy_def sync_spec_def truthy_or_none_def patched_def put_template_def)

end
