(* ===== verification/Base64_Text.thy ===== *)
theory Base64_Text
  imports Js_Prelude
begin

text \<open>
  Text as the secrets of Kubernetes carry it, \<open>ui/src/utils/base64encoding.ts\<close>: UTF-8 and base64. A text is a list of code points
  and a byte a number below 256; the encoder and decoder are those of the platform, written out after their standards.
\<close>

section \<open>UTF-8\<close>

definition scalar :: "nat \<Rightarrow> bool" where
  "scalar c = (c < 0xD800 \<or> 0xDFFF < c \<and> c < 0x110000)"

definition utf8_char :: "nat \<Rightarrow> nat list" where
  "utf8_char c =
     (if c < 0x80 then [c]
      else if c < 0x800 then [0xC0 + c div 64, 0x80 + c mod 64]
      else if c < 0x10000 then [0xE0 + c div 4096, 0x80 + c div 64 mod 64, 0x80 + c mod 64]
      else [0xF0 + c div 262144, 0x80 + c div 4096 mod 64, 0x80 + c div 64 mod 64, 0x80 + c mod 64])"

text \<open>\<open>TextEncoder.encode\<close>: a surrogate without its partner is replaced.\<close>

definition utf8_encode :: "nat list \<Rightarrow> nat list" where
  "utf8_encode cs = concat (map (\<lambda>c. utf8_char (if scalar c then c else 0xFFFD)) cs)"

text \<open>\<open>TextDecoder.decode\<close>: the code point so far, how many bytes are missing, and between what the next one has to be. A byte that
  does not fit ends the sequence and is read again.\<close>

function utf8_run :: "nat \<Rightarrow> nat \<Rightarrow> nat \<times> nat \<Rightarrow> nat list \<Rightarrow> nat list" where
  "utf8_run cp missing bounds [] = (if missing = 0 then [] else [0xFFFD])"
| "utf8_run cp missing bounds (b # bs) =
     (if missing = 0
      then (if b < 0x80 then b # utf8_run 0 0 (0x80, 0xBF) bs
            else if 0xC2 \<le> b \<and> b \<le> 0xDF then utf8_run (b mod 32) 1 (0x80, 0xBF) bs
            else if 0xE0 \<le> b \<and> b \<le> 0xEF
            then utf8_run (b mod 16) 2 (if b = 0xE0 then 0xA0 else 0x80, if b = 0xED then 0x9F else 0xBF) bs
            else if 0xF0 \<le> b \<and> b \<le> 0xF4
            then utf8_run (b mod 8) 3 (if b = 0xF0 then 0x90 else 0x80, if b = 0xF4 then 0x8F else 0xBF) bs
            else 0xFFFD # utf8_run 0 0 (0x80, 0xBF) bs)
      else if b < fst bounds \<or> snd bounds < b then 0xFFFD # utf8_run 0 0 (0x80, 0xBF) (b # bs)
      else if missing = 1 then (cp * 64 + b mod 64) # utf8_run 0 0 (0x80, 0xBF) bs
      else utf8_run (cp * 64 + b mod 64) (missing - 1) (0x80, 0xBF) bs)"
  by pat_completeness auto
termination
  by (relation "measure (\<lambda>(cp, missing, bounds, bs). 2 * length bs + (if missing = 0 then 0 else 1))") auto

definition utf8_decode :: "nat list \<Rightarrow> nat list" where
  "utf8_decode bs = (case utf8_run 0 0 (0x80, 0xBF) bs of c # cs \<Rightarrow> if take 3 bs = [0xEF, 0xBB, 0xBF] then cs else c # cs | [] \<Rightarrow> [])"

section \<open>Base64\<close>

definition base64_alphabet :: string where
  "base64_alphabet = ''ABCDEFGHIJKLMNOPQRSTUVWXYZabcdefghijklmnopqrstuvwxyz0123456789+/''"

fun btoa_sextets :: "nat list \<Rightarrow> nat list" where
  "btoa_sextets (a # b # c # bs) = [a div 4, a mod 4 * 16 + b div 16, b mod 16 * 4 + c div 64, c mod 64] @ btoa_sextets bs"
| "btoa_sextets [a, b] = [a div 4, a mod 4 * 16 + b div 16, b mod 16 * 4]"
| "btoa_sextets [a] = [a div 4, a mod 4 * 16]"
| "btoa_sextets [] = []"

definition btoa :: "nat list \<Rightarrow> string" where
  "btoa bs =
     map (nth base64_alphabet) (btoa_sextets bs) @ replicate ((3 - length bs mod 3) mod 3) (CHR ''='')"

fun atob_bytes :: "nat list \<Rightarrow> nat list" where
  "atob_bytes (a # b # c # d # cs) =
     [a * 4 + b div 16, b mod 16 * 16 + c div 4, c mod 4 * 64 + d] @ atob_bytes cs"
| "atob_bytes [a, b, c] = [a * 4 + b div 16, b mod 16 * 16 + c div 4]"
| "atob_bytes [a, b] = [a * 4 + b div 16]"
| "atob_bytes _ = []"

fun index_in :: "'a \<Rightarrow> 'a list \<Rightarrow> nat option" where
  "index_in x [] = None"
| "index_in x (y # ys) = (if x = y then Some 0 else map_option Suc (index_in x ys))"

definition drop_padding :: "string \<Rightarrow> string" where
  "drop_padding s =
     (if length s mod 4 = 0 \<and> s \<noteq> [] \<and> last s = CHR ''=''
      then (let t = butlast s in if t \<noteq> [] \<and> last t = CHR ''='' then butlast t else t) else s)"

text \<open>\<open>atob\<close>, which fails on other characters and on lengths that cannot be.\<close>

definition atob :: "string \<Rightarrow> nat list option" where
  "atob s =
     (let t = drop_padding (filter (\<lambda>c. c \<notin> {CHR '' '', CHR 0x09, CHR 0x0A, CHR 0x0C, CHR 0x0D}) s);
          ds = map (\<lambda>c. index_in c base64_alphabet) t
      in if length t mod 4 = 1 \<or> None \<in> set ds then None else Some (atob_bytes (map the ds)))"

section \<open>The two functions\<close>

definition encodeUtf8ToBase64 :: "nat list \<Rightarrow> string" where
  "encodeUtf8ToBase64 v = btoa (utf8_encode v)"

definition decodeBase64ToUtf8 :: "string \<Rightarrow> nat list option" where
  "decodeBase64ToUtf8 v = map_option utf8_decode (atob v)"

section \<open>They are inverse\<close>

lemma low_bits:
  "z < 64 \<Longrightarrow> (128 + z) mod 64 = (z::nat)" "x < 32 \<Longrightarrow> (192 + x) mod 32 = (x::nat)" "x < 16 \<Longrightarrow> (224 + x) mod 16 = (x::nat)"
  "x < 8 \<Longrightarrow> (240 + x) mod 8 = (x::nat)"
  using mod_mult_self3 [of 2 64 z] mod_mult_self3 [of 6 32 x] mod_mult_self3 [of 14 16 x] mod_mult_self3 [of 30 8 x] by simp_all

lemma run_two:
  assumes "2 \<le> x" "x < 32" "z < 64"
  shows "utf8_run 0 0 (0x80, 0xBF) ([0xC0 + x, 0x80 + z] @ bs) = (x * 64 + z) # utf8_run 0 0 (0x80, 0xBF) bs"
  using assms by (simp add: low_bits)

lemma run_three:
  assumes "x < 16" "y < 64" "z < 64" "x = 0 \<longrightarrow> 32 \<le> y" "x = 13 \<longrightarrow> y < 32"
  shows "utf8_run 0 0 (0x80, 0xBF) ([0xE0 + x, 0x80 + y, 0x80 + z] @ bs) =
    ((x * 64 + y) * 64 + z) # utf8_run 0 0 (0x80, 0xBF) bs"
  using assms by (simp add: low_bits) linarith

lemma run_four:
  assumes "w < 5" "x < 64" "y < 64" "z < 64" "w = 0 \<longrightarrow> 16 \<le> x" "w = 4 \<longrightarrow> x < 16"
  shows "utf8_run 0 0 (0x80, 0xBF) ([0xF0 + w, 0x80 + x, 0x80 + y, 0x80 + z] @ bs) =
    (((w * 64 + x) * 64 + y) * 64 + z) # utf8_run 0 0 (0x80, 0xBF) bs"
  using assms by (simp add: low_bits) linarith

lemma utf8_char_run:
  assumes "scalar c"
  shows "utf8_run 0 0 (0x80, 0xBF) (utf8_char c @ bs) = c # utf8_run 0 0 (0x80, 0xBF) bs"
proof -
  let ?z = "c mod 64" and ?y = "c div 64 mod 64" and ?x = "c div 4096 mod 64"
  have z: "?z < 64" "?y < 64" "?x < 64"
    by simp_all
  have c: "c div 64 * 64 + ?z = c" "c div 4096 * 64 + ?y = c div 64" "c div 262144 * 64 + ?x = c div 4096"
    using div_mult_mod_eq [of "c div 64" 64] div_mult_mod_eq [of "c div 4096" 64] by (simp_all add: div_mult2_eq [symmetric])
  consider "c < 0x80" | "0x80 \<le> c" "c < 0x800" | "0x800 \<le> c" "c < 0x10000" | "0x10000 \<le> c" "c < 0x110000"
    using assms by (fastforce simp: scalar_def)
  then show ?thesis
  proof cases
    case 2
    then have "2 \<le> c div 64" "c div 64 < 32"
      using c(1) z by linarith+
    then have "utf8_run 0 0 (0x80, 0xBF) ([0xC0 + c div 64, 0x80 + ?z] @ bs) = (c div 64 * 64 + ?z) # utf8_run 0 0 (0x80, 0xBF) bs"
      using z(1) by (rule run_two)
    then show ?thesis
      using 2 by (simp only: utf8_char_def c) simp
  next
    case 3
    then have "c div 4096 < 16" "c div 4096 = 0 \<longrightarrow> 32 \<le> ?y" "c div 4096 = 13 \<longrightarrow> ?y < 32"
      using c(1,2) z assms unfolding scalar_def by linarith+
    then have "utf8_run 0 0 (0x80, 0xBF) ([0xE0 + c div 4096, 0x80 + ?y, 0x80 + ?z] @ bs) =
        ((c div 4096 * 64 + ?y) * 64 + ?z) # utf8_run 0 0 (0x80, 0xBF) bs"
      using z by (intro run_three)
    then show ?thesis
      using 3 by (simp only: utf8_char_def c) simp
  next
    case 4
    then have "c div 262144 < 5" "c div 262144 = 0 \<longrightarrow> 16 \<le> ?x" "c div 262144 = 4 \<longrightarrow> ?x < 16"
      using c z by linarith+
    then have "utf8_run 0 0 (0x80, 0xBF) ([0xF0 + c div 262144, 0x80 + ?x, 0x80 + ?y, 0x80 + ?z] @ bs) =
        (((c div 262144 * 64 + ?x) * 64 + ?y) * 64 + ?z) # utf8_run 0 0 (0x80, 0xBF) bs"
      using z by (intro run_four)
    then show ?thesis
      using 4 by (simp only: utf8_char_def c) simp
  qed (simp add: utf8_char_def)
qed

lemma utf8_run_encode: "list_all scalar v \<Longrightarrow> utf8_run 0 0 (0x80, 0xBF) (utf8_encode v) = v"
  by (induction v) (simp_all add: utf8_encode_def utf8_char_run)

lemma utf8_char_bytes: "scalar c \<Longrightarrow> list_all (\<lambda>b. b < 256) (utf8_char c)"
proof -
  assume "scalar c"
  then have "c < 0x110000"
    by (auto simp: scalar_def)
  then have "c div 262144 < 5"
    by (simp add: div_less_iff_less_mult)
  moreover have "c < 0x10000 \<Longrightarrow> c div 4096 < 16" "c < 0x800 \<Longrightarrow> c div 64 < 32"
    by (simp_all add: div_less_iff_less_mult)
  moreover have "c mod 64 < 64" "c div 64 mod 64 < 64" "c div 4096 mod 64 < 64"
    by simp_all
  ultimately show ?thesis
    unfolding utf8_char_def by (auto simp del: mod_less_divisor)
qed

lemma utf8_encode_bytes: "list_all scalar v \<Longrightarrow> list_all (\<lambda>b. b < 256) (utf8_encode v)"
  by (induction v) (simp_all add: utf8_encode_def utf8_char_bytes)

lemma utf8_mark: "scalar c \<Longrightarrow> take 3 (utf8_char c @ bs) = [0xEF, 0xBB, 0xBF] \<Longrightarrow> c = 0xFEFF"
proof -
  assume c: "scalar c" and t: "take 3 (utf8_char c @ bs) = [0xEF, 0xBB, 0xBF]"
  have mark: "\<not> c < 0x80" "\<not> c < 0x800 \<Longrightarrow> c < 0x10000 \<Longrightarrow> c div 4096 = 15 \<and> c div 64 mod 64 = 0x3B \<and> c mod 64 = 0x3F"
    "\<not> c < 0x800"
    using t by (auto simp: utf8_char_def take_Cons' div_less_iff_less_mult split: if_splits)
  have "c < 0x10000"
    using t mark by (auto simp: utf8_char_def split: if_splits)
  then show ?thesis
    using mark div_mult_mod_eq [of c 64] div_mult_mod_eq [of "c div 64" 64] by (simp add: div_mult2_eq [symmetric])
qed

lemma utf8_decode_encode:
  assumes "list_all scalar v" "v = [] \<or> hd v \<noteq> 0xFEFF"
  shows "utf8_decode (utf8_encode v) = v"
proof (cases v)
  case (Cons c cs)
  then have "take 3 (utf8_encode v) \<noteq> [0xEF, 0xBB, 0xBF]"
    using utf8_mark [of c "utf8_encode cs"] assms by (auto simp: utf8_encode_def)
  then show ?thesis
    using utf8_run_encode [OF assms(1)] Cons by (simp add: utf8_decode_def)
qed (simp add: utf8_encode_def utf8_decode_def)

lemma byte_parts:
  assumes "(b::nat) < 256"
  shows "b div 4 < 64" "b div 16 < 16" "b div 16 mod 16 = b div 16" "b div 16 div 16 = 0" "b div 64 < 4" "b div 64 mod 4 = b div 64"
    "b div 64 div 4 = 0"
proof -
  show "b div 4 < 64" "b div 16 < 16" "b div 64 < 4"
    using assms by (simp_all add: div_less_iff_less_mult)
  then show "b div 16 mod 16 = b div 16" "b div 16 div 16 = 0" "b div 64 mod 4 = b div 64" "b div 64 div 4 = 0"
    by simp_all
qed

lemma sextets_ok: "list_all (\<lambda>b. b < 256) bs \<Longrightarrow> list_all (\<lambda>d. d < 64) (btoa_sextets bs) \<and> atob_bytes (btoa_sextets bs) = bs"
proof (induction bs rule: btoa_sextets.induct)
  case (1 a b c bs)
  then have "a < 256" "b < 256" "c < 256"
    by simp_all
  note parts = byte_parts [OF this(1)] byte_parts [OF this(2)] byte_parts [OF this(3)]
  have "a mod 4 < 4" "b mod 16 < 16" "c mod 64 < 64"
    by simp_all
  then have "a mod 4 * 16 + b div 16 < 64" "b mod 16 * 4 + c div 64 < 64"
    using parts by linarith+
  then show ?case
    using 1 parts by (simp add: add.assoc [symmetric])
next
  case (2 a b)
  then have "a < 256" "b < 256"
    by simp_all
  note parts = byte_parts [OF this(1)] byte_parts [OF this(2)]
  have "a mod 4 < 4" "b mod 16 < 16"
    by simp_all
  then have "a mod 4 * 16 + b div 16 < 64" "b mod 16 * 4 < 64"
    using parts by linarith+
  then show ?case
    using parts by simp
next
  case (3 a)
  then have "a < 256"
    by simp
  note parts = byte_parts [OF this]
  have "a mod 4 < 4"
    by simp
  then have "a mod 4 * 16 < 64"
    by linarith
  then show ?case
    using parts by simp
qed simp

lemma sextets_length:
  "(length bs mod 3, length (btoa_sextets bs) mod 4) \<in> {(0, 0), (1, 2), (2, 3)}"
proof (induction bs rule: btoa_sextets.induct)
  case (1 a b c bs)
  have "Suc (Suc (Suc n)) mod 3 = n mod 3" "Suc (Suc (Suc (Suc n))) mod 4 = n mod 4" for n
    by presburger+
  then show ?case
    using 1 by simp
qed simp_all

lemma index_in_nth: "distinct xs \<Longrightarrow> i < length xs \<Longrightarrow> index_in (xs ! i) xs = Some i"
proof (induction xs arbitrary: i)
  case (Cons y ys)
  then show ?case
    by (cases i) auto
qed simp

lemma alphabet_facts:
  "length base64_alphabet = 64" "distinct base64_alphabet"
  "set base64_alphabet \<inter> {CHR ''='', CHR '' '', CHR 0x09, CHR 0x0A, CHR 0x0C, CHR 0x0D} = {}"
  by code_simp+

lemma drop_padding_app:
  assumes "CHR ''='' \<notin> set t" "n \<le> 2" "(length t + n) mod 4 = 0"
  shows "drop_padding (t @ replicate n (CHR ''='')) = t"
proof -
  have "last t \<noteq> CHR ''=''" if "t \<noteq> []"
    using assms(1) last_in_set [OF that] by auto
  moreover have "n = 0 \<or> n = 1 \<or> n = 2"
    using assms(2) by linarith
  ultimately show ?thesis
    using assms(3) by (auto simp: drop_padding_def numeral_2_eq_2 butlast_append Let_def)
qed

lemma atob_btoa:
  assumes "list_all (\<lambda>b. b < 256) bs"
  shows "atob (btoa bs) = Some bs"
proof -
  let ?t = "map (nth base64_alphabet) (btoa_sextets bs)" and ?n = "(3 - length bs mod 3) mod 3"
  have digits: "\<forall>d \<in> set (btoa_sextets bs). d < length base64_alphabet"
    using sextets_ok [OF assms] alphabet_facts(1) by (simp add: list_all_iff)
  then have chars: "set ?t \<subseteq> set base64_alphabet"
    by (auto intro: nth_mem)
  then have "filter (\<lambda>c. c \<notin> {CHR '' '', CHR 0x09, CHR 0x0A, CHR 0x0C, CHR 0x0D}) (btoa bs) = btoa bs"
    using alphabet_facts(3) by (auto simp: btoa_def filter_id_conv)
  moreover have "drop_padding (btoa bs) = ?t"
    unfolding btoa_def using chars alphabet_facts(3) sextets_length [of bs] by (intro drop_padding_app) (auto simp: mod_simps, presburger+)
  moreover have "map (\<lambda>c. index_in c base64_alphabet) ?t = map Some (btoa_sextets bs)"
    using digits by (simp add: index_in_nth alphabet_facts(2))
  then have "None \<notin> set (map (\<lambda>c. index_in c base64_alphabet) ?t)"
    "map the (map (\<lambda>c. index_in c base64_alphabet) ?t) = btoa_sextets bs"
    by (simp_all only: set_map map_map comp_def option.sel map_ident) auto
  moreover have "length ?t mod 4 \<noteq> 1"
    using sextets_length [of bs] by auto
  ultimately show ?thesis
    using sextets_ok [OF assms] unfolding atob_def Let_def by (simp only: if_False simp_thms)
qed

text \<open>C32: what is encoded is decoded again, for every text of Unicode that does not begin with a byte order mark; the decoder takes the
  mark away.\<close>

theorem base64_text_roundtrip:
  assumes "list_all scalar v" "v = [] \<or> hd v \<noteq> 0xFEFF"
  shows "decodeBase64ToUtf8 (encodeUtf8ToBase64 v) = Some v"
  using assms by (simp add: decodeBase64ToUtf8_def encodeUtf8ToBase64_def atob_btoa utf8_encode_bytes utf8_decode_encode)

theorem base64_text_roundtrip_witness:
  "decodeBase64ToUtf8 ''w6TigqzwnZ2J'' = Some [0xE4, 0x20AC, 0x1D749]"
proof -
  have "encodeUtf8ToBase64 [0xE4, 0x20AC, 0x1D749] = ''w6TigqzwnZ2J''"
    by (simp add: encodeUtf8ToBase64_def utf8_encode_def utf8_char_def scalar_def btoa_def base64_alphabet_def)
  then show ?thesis
    using base64_text_roundtrip [of "[0xE4, 0x20AC, 0x1D749]"] by (simp add: scalar_def)
qed

text \<open>A text that begins with the mark loses it.\<close>

theorem leading_mark_lost: "decodeBase64ToUtf8 (encodeUtf8ToBase64 [0xFEFF, 0x61]) = Some [0x61]"
proof -
  have "atob (encodeUtf8ToBase64 [0xFEFF, 0x61]) = Some [0xEF, 0xBB, 0xBF, 0x61]"
    by (simp add: encodeUtf8ToBase64_def atob_btoa utf8_encode_def utf8_char_def scalar_def)
  then show ?thesis
    by (simp add: decodeBase64ToUtf8_def utf8_decode_def)
qed

end
