(* ===== verification/Secret_Data.thy ===== *)
theory Secret_Data
  imports Rc_File Base64_Text
begin

text \<open>
  The data of the secrets, \<open>ui/src/api/secrets/secrets.ts\<close>: which entries a secret of each kind of credential has, what is refused,
  and how the values are encoded and read. A value that was read is a list of code points.
\<close>

section \<open>Encoding\<close>

definition codes :: "string \<Rightarrow> nat list" where
  "codes v = map of_char v"

definition toBase64SecretData :: "string sobj \<Rightarrow> string sobj" where
  "toBase64SecretData data = map (\<lambda>(k, v). (k, encodeUtf8ToBase64 (codes v))) data"

text \<open>Reading: a value that is not base64 is taken as it is.\<close>

definition decode_value :: "string \<Rightarrow> nat list" where
  "decode_value v = (case decodeBase64ToUtf8 v of None \<Rightarrow> codes v | Some cs \<Rightarrow> cs)"

definition decode_data :: "string sobj \<Rightarrow> nat list sobj" where
  "decode_data data = map (\<lambda>(k, v). (k, decode_value v)) data"

definition listSecrets :: "(string \<times> string sobj option) list \<Rightarrow> (string \<times> nat list sobj option) list" where
  "listSecrets items = map (\<lambda>(n, d). (n, map_option decode_data d)) items"

section \<open>The entries of each kind\<close>

record openstack_secret_input =
  oi_USERNAME :: "string option"
  oi_PASSWORD :: "string option"
  oi_AUTH_TOKEN :: "string option"
  oi_AUTH_URL :: "string option"
  oi_PROJECT_NAME :: "string option"
  oi_TENANT_NAME :: "string option"
  oi_DOMAIN_NAME :: "string option"
  oi_REGION_NAME :: "string option"
  oi_INSECURE :: "bool option"

definition filled :: "string option \<Rightarrow> bool" where
  "filled v = (js_trim (str_or v []) \<noteq> [])"

definition entry_if :: "string \<Rightarrow> string option \<Rightarrow> string sobj" where
  "entry_if k v = (if str_truthy v then [(k, the v)] else [])"

definition bool_text :: "bool \<Rightarrow> string" where
  "bool_text b = (if b then ''true'' else ''false'')"

definition openstack_secret_data :: "openstack_secret_input \<Rightarrow> string sobj" where
  "openstack_secret_data i =
     (let tenantName = js_trim (str_or (oi_TENANT_NAME i) (str_or (oi_PROJECT_NAME i) []))
      in [(''OS_AUTH_URL'', str_or (oi_AUTH_URL i) [])] @ entry_if ''OS_AUTH_TOKEN'' (oi_AUTH_TOKEN i) @
         entry_if ''OS_USERNAME'' (oi_USERNAME i) @ entry_if ''OS_PASSWORD'' (oi_PASSWORD i) @
         entry_if ''OS_DOMAIN_NAME'' (oi_DOMAIN_NAME i) @ entry_if ''OS_PROJECT_NAME'' (oi_PROJECT_NAME i) @
         (if tenantName \<noteq> []
          then (''OS_TENANT_NAME'', tenantName) # (if str_truthy (oi_PROJECT_NAME i) then [] else [(''OS_PROJECT_NAME'', tenantName)])
          else []) @
         entry_if ''OS_REGION_NAME'' (oi_REGION_NAME i) @
         (case oi_INSECURE i of None \<Rightarrow> [] | Some b \<Rightarrow> [(''OS_INSECURE'', bool_text b)]))"

definition createOpenstackCredsSecret :: "openstack_secret_input \<Rightarrow> string + string sobj" where
  "createOpenstackCredsSecret i =
     (let hasUserPass = (filled (oi_USERNAME i) \<and> filled (oi_PASSWORD i));
          tenantName = js_trim (str_or (oi_TENANT_NAME i) (str_or (oi_PROJECT_NAME i) []))
      in if \<not> filled (oi_AUTH_URL i) then Inl ''Missing required field: OS_AUTH_URL''
         else if \<not> filled (oi_REGION_NAME i) then Inl ''Missing required field: OS_REGION_NAME''
         else if tenantName = [] then Inl ''Missing required field: OS_TENANT_NAME (or OS_PROJECT_NAME)''
         else if \<not> filled (oi_AUTH_TOKEN i) \<and> \<not> hasUserPass
         then Inl ''Missing required credentials: provide either OS_AUTH_TOKEN or both OS_USERNAME and OS_PASSWORD''
         else if hasUserPass \<and> \<not> filled (oi_DOMAIN_NAME i)
         then Inl ''Missing required field for password authentication: OS_DOMAIN_NAME''
         else Inr (openstack_secret_data i))"

record vmware_secret_input =
  vi_HOST :: string
  vi_USERNAME :: string
  vi_PASSWORD :: string
  vi_DATACENTER :: string
  vi_INSECURE :: bool

definition without_scheme :: "string \<Rightarrow> string" where
  "without_scheme h =
     (if starts_with (js_lower h) ''https://'' then drop 8 h
      else if starts_with (js_lower h) ''http://'' then drop 7 h else h)"

definition createVMwareCredsSecret :: "vmware_secret_input \<Rightarrow> string sobj" where
  "createVMwareCredsSecret i =
     [(''VCENTER_HOST'', without_scheme (vi_HOST i)), (''VCENTER_USERNAME'', vi_USERNAME i), (''VCENTER_PASSWORD'', vi_PASSWORD i),
      (''VCENTER_DATACENTER'', vi_DATACENTER i), (''VCENTER_INSECURE'', bool_text (vi_INSECURE i))]"

definition createArrayCredsSecret :: "string \<Rightarrow> string \<Rightarrow> string \<Rightarrow> bool option \<Rightarrow> string sobj" where
  "createArrayCredsSecret hostname username password skipVerification =
     [(''ARRAY_HOSTNAME'', hostname), (''ARRAY_USERNAME'', username), (''ARRAY_PASSWORD'', password),
      (''ARRAY_INSECURE'', bool_text (skipVerification = Some True))]"

text \<open>What the drawer of \<open>features/credentials/components/OpenstackCredentialsDrawer.tsx\<close> makes of a parsed file.\<close>

definition drawer_input :: "string sobj \<Rightarrow> bool \<Rightarrow> openstack_secret_input" where
  "drawer_input vars insecure =
     \<lparr> oi_USERNAME = map_of vars ''OS_USERNAME'', oi_PASSWORD = map_of vars ''OS_PASSWORD'',
       oi_AUTH_TOKEN = map_of vars ''OS_AUTH_TOKEN'', oi_AUTH_URL = map_of vars ''OS_AUTH_URL'', oi_PROJECT_NAME = None,
       oi_TENANT_NAME =
         (if str_truthy (map_of vars ''OS_PROJECT_NAME'') then map_of vars ''OS_PROJECT_NAME'' else map_of vars ''OS_TENANT_NAME''),
       oi_DOMAIN_NAME = map_of vars ''OS_DOMAIN_NAME'', oi_REGION_NAME = map_of vars ''OS_REGION_NAME'', oi_INSECURE = Some insecure \<rparr>"

section \<open>What is stored is read\<close>

lemma codes_scalar: "list_all scalar (codes v)" "codes v = [] \<or> hd (codes v) \<noteq> 0xFEFF"
proof -
  have "scalar (of_char c)" "(of_char c :: nat) \<noteq> 0xFEFF" for c
    using nat_of_char_less_256 [of c] by (simp_all add: scalar_def del: nat_of_char_less_256)
  then show "list_all scalar (codes v)" "codes v = [] \<or> hd (codes v) \<noteq> 0xFEFF"
    by (auto simp: codes_def list_all_iff hd_map)
qed

text \<open>every secret that is written is read back with its values, for all values.\<close>

theorem secret_read_back: "decode_data (toBase64SecretData data) = map (\<lambda>(k, v). (k, codes v)) data"
  by (simp add: decode_data_def toBase64SecretData_def decode_value_def case_prod_unfold decodeBase64ToUtf8_def
      encodeUtf8ToBase64_def atob_btoa utf8_encode_bytes utf8_decode_encode codes_scalar)

section \<open>What is refused\<close>

lemma has_field_filled: "has_field vars k = filled (map_of vars k)"
  by (simp add: has_field_def filled_def str_or_def js_trim_def split: option.split)

lemma entry_if_keys: "map_of (entry_if k v) n = (if n = k then only_truthy v else None)"
  by (auto simp: entry_if_def only_truthy_def str_truthy_def split: option.split)

lemma filled_simps [simp]: "filled (only_truthy v) = filled v" "filled (Some (str_or v [])) = filled v" "\<not> filled None"
  "filled (Some (case v of None \<Rightarrow> [] | Some s \<Rightarrow> s)) = filled v"
  by (auto simp: filled_def only_truthy_def str_or_def str_truthy_def js_trim_def split: option.split)

lemma filled_trim [simp]: "filled (Some (js_trim v)) \<longleftrightarrow> js_trim v \<noteq> []"
  by (simp add: filled_def str_or_def)

lemma openstack_entries:
  "map_of (openstack_secret_data i) ''OS_AUTH_URL'' = Some (str_or (oi_AUTH_URL i) [])"
  "map_of (openstack_secret_data i) ''OS_AUTH_TOKEN'' = only_truthy (oi_AUTH_TOKEN i)"
  "map_of (openstack_secret_data i) ''OS_USERNAME'' = only_truthy (oi_USERNAME i)"
  "map_of (openstack_secret_data i) ''OS_PASSWORD'' = only_truthy (oi_PASSWORD i)"
  "map_of (openstack_secret_data i) ''OS_DOMAIN_NAME'' = only_truthy (oi_DOMAIN_NAME i)"
  "map_of (openstack_secret_data i) ''OS_REGION_NAME'' = only_truthy (oi_REGION_NAME i)"
  "js_trim (str_or (oi_TENANT_NAME i) (str_or (oi_PROJECT_NAME i) [])) \<noteq> [] \<Longrightarrow>
   map_of (openstack_secret_data i) ''OS_TENANT_NAME'' = Some (js_trim (str_or (oi_TENANT_NAME i) (str_or (oi_PROJECT_NAME i) [])))"
  by (auto simp: openstack_secret_data_def entry_if_keys map_add_def Let_def split: option.split)

text \<open>a secret that is made for OpenStack has an address, a region and a tenant, and either a token or a user, a password and a
  domain.\<close>

theorem openstack_secret_complete:
  assumes "createOpenstackCredsSecret i = Inr data"
  shows "(\<forall>k \<in> {''OS_AUTH_URL'', ''OS_REGION_NAME'', ''OS_TENANT_NAME''}. filled (map_of data k)) \<and>
    (filled (map_of data ''OS_AUTH_TOKEN'') \<or>
      (\<forall>k \<in> {''OS_USERNAME'', ''OS_PASSWORD'', ''OS_DOMAIN_NAME''}. filled (map_of data k)))"
  using assms by (auto simp: createOpenstackCredsSecret_def Let_def openstack_entries split: if_splits)

definition secret_tenant :: "openstack_secret_input \<Rightarrow> string" where
  "secret_tenant i = js_trim (str_or (oi_TENANT_NAME i) (str_or (oi_PROJECT_NAME i) []))"

lemma secret_refused_iff:
  "(\<exists>msg. createOpenstackCredsSecret i = Inl msg) \<longleftrightarrow>
     \<not> (filled (oi_AUTH_URL i) \<and> filled (oi_REGION_NAME i) \<and> secret_tenant i \<noteq> [] \<and>
        (filled (oi_AUTH_TOKEN i) \<or> filled (oi_USERNAME i) \<and> filled (oi_PASSWORD i))) \<or>
     filled (oi_USERNAME i) \<and> filled (oi_PASSWORD i) \<and> \<not> filled (oi_DOMAIN_NAME i)"
  unfolding createOpenstackCredsSecret_def Let_def secret_tenant_def by (simp del: ex_simps)

lemma drawer_tenant:
  assumes "has_field vars ''OS_TENANT_NAME''"
  shows "secret_tenant (drawer_input vars insecure) = [] \<longleftrightarrow>
    str_truthy (map_of vars ''OS_PROJECT_NAME'') \<and> \<not> has_field vars ''OS_PROJECT_NAME''"
  using assms by (auto simp: secret_tenant_def drawer_input_def has_field_filled filled_def str_or_def str_truthy_def split: option.splits)

lemma drawer_filled:
  "filled (oi_USERNAME (drawer_input vars insecure)) = has_field vars ''OS_USERNAME''"
  "filled (oi_PASSWORD (drawer_input vars insecure)) = has_field vars ''OS_PASSWORD''"
  "filled (oi_AUTH_TOKEN (drawer_input vars insecure)) = has_field vars ''OS_AUTH_TOKEN''"
  "filled (oi_AUTH_URL (drawer_input vars insecure)) = has_field vars ''OS_AUTH_URL''"
  "filled (oi_REGION_NAME (drawer_input vars insecure)) = has_field vars ''OS_REGION_NAME''"
  "filled (oi_DOMAIN_NAME (drawer_input vars insecure)) = has_field vars ''OS_DOMAIN_NAME''"
  by (simp_all add: drawer_input_def has_field_filled)

lemma accepted_file_has:
  assumes "fst (validateRCFileFields vars)"
  shows "has_field vars ''OS_AUTH_URL'' \<and> has_field vars ''OS_REGION_NAME'' \<and> has_field vars ''OS_TENANT_NAME'' \<and>
    (has_field vars ''OS_AUTH_TOKEN'' \<or> has_field vars ''OS_USERNAME'' \<and> has_field vars ''OS_PASSWORD'')"
  using assms by (auto simp: validateRCFileFields_def COMMON_REQUIRED_FIELDS_def TOKEN_AUTH_REQUIRED_FIELD_def Let_def split: if_splits)

text \<open>C33: a file that the parser accepts is refused when the credential is made, exactly when its project is blank or it has a token beside
  a user and a password without a domain: the parser takes the token to be enough.\<close>

theorem accepted_file_refused_iff:
  assumes "fst (validateRCFileFields vars)"
  shows "(\<exists>msg. createOpenstackCredsSecret (drawer_input vars insecure) = Inl msg) \<longleftrightarrow>
    str_truthy (map_of vars ''OS_PROJECT_NAME'') \<and> \<not> has_field vars ''OS_PROJECT_NAME'' \<or>
    has_field vars ''OS_USERNAME'' \<and> has_field vars ''OS_PASSWORD'' \<and> \<not> has_field vars ''OS_DOMAIN_NAME''"
proof -
  note has = accepted_file_has [OF assms]
  show ?thesis
    unfolding secret_refused_iff drawer_filled using has drawer_tenant [of vars insecure] by blast
qed

definition token_file :: "string sobj" where
  "token_file =
     [(''OS_AUTH_URL'', ''https://pcd''), (''OS_REGION_NAME'', ''r1''), (''OS_TENANT_NAME'', ''service''), (''OS_AUTH_TOKEN'', ''t''),
      (''OS_USERNAME'', ''u''), (''OS_PASSWORD'', ''p'')]"

theorem accepted_file_refused_iff_witness:
  "fst (validateRCFileFields token_file) \<and> (\<exists>msg. createOpenstackCredsSecret (drawer_input token_file False) = Inl msg)"
proof -
  have "fst (validateRCFileFields token_file)" "has_field token_file ''OS_USERNAME''" "has_field token_file ''OS_PASSWORD''"
    "\<not> has_field token_file ''OS_DOMAIN_NAME''"
    by code_simp+
  then show ?thesis
    using accepted_file_refused_iff [of token_file False] by blast
qed

text \<open>The host of a vCenter loses its scheme, in whatever case it is written.\<close>

theorem vcenter_host_schemes:
  "map_of (createVMwareCredsSecret i) ''VCENTER_HOST'' = Some (without_scheme (vi_HOST i)) \<and>
   without_scheme (''https://'' @ h) = h \<and> without_scheme (''HTTP://'' @ h) = h"
  by (simp add: createVMwareCredsSecret_def without_scheme_def starts_with_def js_lower_def lower_char_def)

end
