(* ===== verification/Spec2Isabelle.thy ===== *)
theory Spec2Isabelle
  imports Migration_Phase Vm_Adapters Log_Filter Template_Prefill Mappings Form_Validation Retry_Submit Bulk_Ip_Rolling Rolling_Submit Subnet_Check Migration_Options Settings_Save Host_Entries
    Log_Stream Status_Monitor Region_Lookup Delete_Migrations Rc_File Template_Labels Rdm_Configure Credential_Fetch
    Base64_Text Secret_Data
begin

text \<open>
  A model of the core of vJailbreak's user interface (\<open>ui/src\<close>): how a migration from VMware to OpenStack is
  described, validated, started, saved as a template and shown while it runs.

  The parts and their theories:

  \<^item> \<open>Js_Prelude\<close>, \<open>Js_Date\<close>, \<open>Js_Regex\<close>: what the code uses of JavaScript: truthiness, objects as ordered
    dictionaries, sorting, dates, regular expressions. The locales \<open>key_order\<close> and \<open>js_comparator\<close> state the contract
    of an enumeration order and of a comparator.
  \<^item> \<open>Form_Types\<close>: the data of the form (\<open>features/migration/types.ts\<close>, \<open>constants.ts\<close> and the API models).
  \<^item> \<open>Ip_Validation\<close>: \<open>utils/ipValidation.ts\<close>, \<open>vmNetworking.ts\<close>, \<open>subnetMismatch.ts\<close>; the pattern accepts exactly
    the dotted quads, and a list of addresses survives printing and parsing.
  \<^item> \<open>Migration_Phase\<close>: \<open>utils/phaseUtils.ts\<close> and \<open>migrationTableUtils.ts\<close>; one current step, durations that tile,
    when the stepper does not move back under the clamp, and the phases the interface does not know.
  \<^item> \<open>Vm_Adapters\<close>: \<open>utils/vmAdapters.ts\<close>; round trips through the canonical machine.
  \<^item> \<open>Log_Filter\<close>: \<open>utils/logFilter.ts\<close>; what the filters show, and the query language.
  \<^item> \<open>Template_Store\<close>, \<open>Template_Prefill\<close>: \<open>api/migration-blueprints/adapters.ts\<close>, \<open>utils/metadataUtils.ts\<close>,
    \<open>templateFilters.ts\<close>, the hooks that save, update, clone and apply templates; the templates of the
    server and the cache of the interface are a step relation with an invariant, and editing without changes keeps what the
    form shows and loses what \<open>unshown_lost\<close> names.
  \<^item> \<open>Mappings\<close>: \<open>hooks/useFilteredMappings.ts\<close> and \<open>utils/imageProfiles.ts\<close>; the effects of a render as functions on
    the state of the hook, the locale \<open>reconciler\<close> for what prune-and-add keeps, and histories of renders and
    edits, from which \<open>removed_by_hand\<close> tells what the operator has removed.
  \<^item> \<open>Form_Validation\<close>: \<open>hooks/useFormValidation.ts\<close>, \<open>useNetworkMappingValidation.ts\<close>, \<open>useRdmConfigValidation.ts\<close>;
    \<open>form_ready\<close> is the abstract specification that the submit button implements.
  \<^item> \<open>Plan_Submit\<close>: \<open>hooks/useMigrationFormSubmit.ts\<close> and \<open>api/migration-plans/helpers.ts\<close>; handlers as functions from
    the answers of the API server to the requests sent, the state of the hook and the outcome, exceptions included.
  \<^item> \<open>Retry_Migration\<close>: \<open>utils/retryFormState.ts\<close> and \<open>hooks/useRetryPrefill.ts\<close>; the failed plan becomes the form and
    the form a plan again: \<open>plan_meaning\<close> reads what a plan asks for, \<open>lost_in_retry\<close> what a retry loses of it.
  \<^item> \<open>Api_Action\<close>: what \<open>async\<close> functions do with requests: actions over a server whose answers may change with every
    request, and \<open>follows\<close> as the contract of an action (it sends a beginning of its script), composed step by step; \<open>runs\<close> is the
    exact contract: it sends its script as far as \<open>sent_until\<close> says, up to the first refusal.
  \<^item> \<open>Retry_Submit\<close>: \<open>hooks/useRetrySubmit.ts\<close>, as such an action, with the polls of the deleted migration.

  \<^item> \<open>Bulk_Ip_Edit\<close>, \<open>Bulk_Ip_Rolling\<close>: \<open>hooks/useBulkIPEdit.ts\<close> and \<open>useBulkIPHandlers.ts\<close>, the dialogs that edit addresses; the
    step relation \<open>dialog\<close> is every history of edits of the operator, and an apply is compared with what every cell asks for,
    with and without the check of the server.
    The rolling form writes to the machines: the patches it sends are compared with the rows it then shows.

  \<^item> \<open>Rolling_Data\<close>, \<open>Rolling_Form\<close>, \<open>Rolling_Submit\<close>: \<open>hooks/useRollingFormData.ts\<close>, \<open>useHostConfigHandlers.ts\<close>,
    \<open>useRollingFormValidation.ts\<close>, \<open>useRollingFormSubmit.ts\<close>; the requests for the hosts and machines of a cluster
    are part of the state, \<open>rolling_ready\<close> is the specification of the button, and the submit is an action.

  \<^item> \<open>Machine_List\<close>, \<open>Vm_Selection\<close>: \<open>hooks/api/useVMwareMachinesQuery.ts\<close>, \<open>api/rdm-disks/rdmDiskUtils.ts\<close>,
    \<open>hooks/useVmsSelectionState.ts\<close>, \<open>useVmSelection.ts\<close>, \<open>useOsAssignment.ts\<close>, \<open>useFlavorAssignment.ts\<close>,
    \<open>useFlavorHandlers.ts\<close>; the table of machines. \<open>table_of\<close> is every history of the table, and the form follows it.
  \<^item> \<open>Subnet_Check\<close>: \<open>hooks/useNetworkIPsMap.ts\<close>, \<open>useNetworkSubnetCompatibility.ts\<close>; timers and requests in flight are
    part of the state, and the warnings are right once nothing is pending.
  \<^item> \<open>Form_Sync\<close>: \<open>hooks/useFormSync.ts\<close>, \<open>useRollingFormSync.ts\<close>; a commit runs the effects whose dependencies changed.
    The standard form comes to rest within four commits, the rolling form may not.
  \<^item> \<open>Migration_Options\<close>: \<open>steps/MigrationOptionsAlt.tsx\<close>; its handlers and effects, every history of which is
    \<open>options_history\<close>. The effects come to rest, and what they are to maintain holds where they rest.

  \<^item> \<open>Settings_Values\<close>, \<open>Settings_Grammar\<close>, \<open>Settings_Page\<close>, \<open>Settings_Save\<close>: \<open>features/globalSettings/helpers.ts\<close>, \<open>validators.ts\<close> and the
    controller in \<open>components/GlobalSettingsPage.tsx\<close>; \<open>settings_valid\<close> is the specification of the checks, by the grammars of
    \<open>Settings_Grammar\<close> and without any check of the page; the form but for its proxy survives the config map, and plain proxy
    lines their addresses; and \<open>settings_step\<close> is every history of the page. The parser of
    URLs is an argument with the law \<open>url_law\<close> of the standard.
  \<^item> \<open>Host_Entries\<close>: \<open>features/globalSettings/components/HostEntriesTab.tsx\<close>; the table of host entries and its edits.

  \<^item> \<open>Credential_Fetch\<close>: \<open>hooks/useCredentialFetching.ts\<close>; the effects that fetch credentials and keep the template on the
    server in step with the form, with the requests in flight; \<open>orderly_step\<close> is every history in which they are answered in order.
  \<^item> \<open>Rdm_Configure\<close>, \<open>Template_Labels\<close>, \<open>Delete_Migrations\<close>: \<open>hooks/useRdmConfiguration.ts\<close>, \<open>utils/templateLabels.ts\<close>,
    \<open>hooks/useDeleteMigrations.ts\<close>; what an apply patches, what the drawer of a template shows, what a deletion leaves.
  \<^item> \<open>Log_Stream\<close>: \<open>ui/src/hooks/useDirectPodLogs.ts\<close>, \<open>useDeploymentLogs.ts\<close>; the lines of a stream, and \<open>stream_step\<close> for
    its connections, failures and reconnects.
  \<^item> \<open>Status_Monitor\<close>, \<open>Region_Lookup\<close>: \<open>ui/src/hooks/useMigrationStatusMonitor.ts\<close>, \<open>useRollingMigrationsStatusMonitor.ts\<close>,
    \<open>ui/src/utils/regionNameResolver.ts\<close>; \<open>watch_all\<close> is what the phases of one resource report.
  \<^item> \<open>Rc_File\<close>: \<open>ui/src/utils/openstackRCFileParser.ts\<close>; \<open>rc_entry\<close> is a line of a file and \<open>rc_meaning\<close> what a file
    says, which is what the parser reads.
  \<^item> \<open>Base64_Text\<close>, \<open>Secret_Data\<close>: \<open>ui/src/utils/base64encoding.ts\<close>, \<open>ui/src/api/secrets/secrets.ts\<close>; UTF-8 and base64
    after their standards, the entries of a secret and what is refused, which is compared with what the parser accepts.

  Conventions. An optional property is an option. A component of React is a record of its state and a function per
  handler or effect; the API server, the host's collation and the clock are arguments. Loops whose end is not
  evident (the search for a free template name, the polls of a deleted migration) are functions with a termination
  proof; no fuel is used.

  Not modelled: rendering, the HTTP client, analytics, the tables and dialogs of credentials, agents and storage; of the
  settings page the upload of the VDDK and the key of the assistant.
  Sizes of disks are formatted with floating point and are left out. The Go controllers are outside this model.
\<close>

end
